(* ===== verification/Pkzz_Prelude.thy ===== *)
theory Pkzz_Prelude
  imports Main "HOL-Library.Word"
begin

text \<open>
  The shared vocabulary of the development: the names of the machine types the Rust
  code uses, the model of hash maps and of their (unspecified) iteration order, and the
  generic lemmas on lists, options and maps that the component theories share.

  A Rust \<open>HashMap\<close> or \<open>DashMap\<close> is a partial map \<open>'k \<rightharpoonup> 'v\<close>. Iterating over one visits its
  entries in an order the language leaves open, so a function that iterates takes that
  order as an argument, a list of keys, and the theorems about it hold for every list
  that enumerates the map (\<open>enumerates\<close>).
\<close>

section \<open>Collections of facts\<close>

named_theorems kind_consts \<open>values of the event kind constants\<close>
named_theorems hash_map \<open>reading a map after the Rust entry operations\<close>
named_theorems model_defs \<open>definitions that symbolic evaluation unfolds\<close>

section \<open>Machine types and identifiers\<close>

type_synonym u8 = "8 word"
type_synonym u16 = "16 word"
type_synonym u32 = "32 word"
type_synonym u64 = "64 word"

text \<open>
  A \<open>Uuid\<close> is its canonical text (hyphenated, lower case): equality and hashing of Uuids
  coincide with equality of that text, and \<open>to_string\<close> is the identity.
\<close>

type_synonym uuid = string

text \<open>An \<open>Instant\<close> is the number of nanoseconds since a fixed origin; it never decreases.\<close>

type_synonym instant = nat

section \<open>Hash maps\<close>

text \<open>\<open>m.entry(k).or_default().push(v)\<close> on a map of vectors.\<close>

definition entry_push :: "'k \<Rightarrow> 'v \<Rightarrow> ('k \<rightharpoonup> 'v list) \<Rightarrow> ('k \<rightharpoonup> 'v list)" where
  "entry_push k v m = m(k \<mapsto> (case m k of None \<Rightarrow> [v] | Some vs \<Rightarrow> vs @ [v]))"

text \<open>
  \<open>if let Some(mut e) = m.get_mut(&k) { e.retain(p); if e.is_empty() { m.remove(&k) } }\<close>.
\<close>

definition entry_retain :: "'k \<Rightarrow> ('v \<Rightarrow> bool) \<Rightarrow> ('k \<rightharpoonup> 'v list) \<Rightarrow> ('k \<rightharpoonup> 'v list)" where
  "entry_retain k p m =
     (case m k of
        None \<Rightarrow> m
      | Some vs \<Rightarrow>
          (let vs' = filter p vs in if vs' = [] then m(k := None) else m(k \<mapsto> vs')))"

text \<open>The vector stored under a key, the empty one when the key is absent.\<close>

definition postings :: "('k \<rightharpoonup> 'v list) \<Rightarrow> 'k \<Rightarrow> 'v list" where
  "postings m k = (case m k of None \<Rightarrow> [] | Some vs \<Rightarrow> vs)"

text \<open>No key is kept with an empty vector: what \<open>entry_retain\<close> cleans up after itself.\<close>

definition no_empty_entry :: "('k \<rightharpoonup> 'v list) \<Rightarrow> bool" where
  "no_empty_entry m \<longleftrightarrow> (\<forall>k. m k \<noteq> Some [])"

lemma postings_empty [simp]: "postings Map.empty k = []"
  by (simp add: postings_def)

lemma postings_push [hash_map]:
  "postings (entry_push k v m) k' = (if k' = k then postings m k @ [v] else postings m k')"
  by (simp add: postings_def entry_push_def split: option.split)

lemma postings_retain [hash_map]:
  "postings (entry_retain k p m) k' =
     (if k' = k then filter p (postings m k) else postings m k')"
  by (auto simp: postings_def entry_retain_def Let_def split: option.split)

lemma mem_postings: "v \<in> set (postings m k) \<longleftrightarrow> (\<exists>vs. m k = Some vs \<and> v \<in> set vs)"
  by (cases "m k") (auto simp: postings_def)

lemma no_empty_entry_empty [simp]: "no_empty_entry Map.empty"
  by (simp add: no_empty_entry_def)

lemma no_empty_entry_push [intro]: "no_empty_entry m \<Longrightarrow> no_empty_entry (entry_push k v m)"
  by (auto simp: no_empty_entry_def entry_push_def split: option.splits)

lemma no_empty_entry_retain [intro]: "no_empty_entry m \<Longrightarrow> no_empty_entry (entry_retain k p m)"
  by (auto simp: no_empty_entry_def entry_retain_def Let_def split: option.splits)

text \<open>The keys of a map in the order an iteration visits them.\<close>

definition enumerates :: "'k list \<Rightarrow> ('k \<rightharpoonup> 'v) \<Rightarrow> bool" where
  "enumerates ks m \<longleftrightarrow> distinct ks \<and> set ks = dom m"

text \<open>The entries an iteration over \<open>m\<close> in the order \<open>ks\<close> visits.\<close>

definition entries :: "'k list \<Rightarrow> ('k \<rightharpoonup> 'v) \<Rightarrow> ('k \<times> 'v) list" where
  "entries ks m = List.map_filter (\<lambda>k. map_option (Pair k) (m k)) ks"

lemma entries_Nil [simp]: "entries [] m = []"
  by (simp add: entries_def map_filter_simps)

lemma entries_Cons [simp]:
  "entries (k # ks) m = (case m k of None \<Rightarrow> entries ks m | Some v \<Rightarrow> (k, v) # entries ks m)"
  by (simp add: entries_def map_filter_simps split: option.split)

lemma set_entries: "set (entries ks m) = {(k, v). k \<in> set ks \<and> m k = Some v}"
  by (induction ks) (auto split: option.splits)

lemma set_entries_enumerates: "enumerates ks m \<Longrightarrow> set (entries ks m) = {(k, v). m k = Some v}"
  by (auto simp: set_entries enumerates_def)

lemma fst_set_entries: "fst ` set (entries ks m) = set ks \<inter> dom m"
  by (force simp: set_entries)

lemma length_entries_cong: "dom m = dom m' \<Longrightarrow> length (entries ks m) = length (entries ks m')"
proof (induction ks)
  case (Cons k ks)
  then have "m k = None \<longleftrightarrow> m' k = None" by blast
  with Cons show ?case by (auto split: option.split)
qed simp

lemma enumerates_single: "enumerates [k] [k \<mapsto> v]"
  by (simp add: enumerates_def)

lemma distinct_entries: "distinct ks \<Longrightarrow> distinct (entries ks m)"
  by (induction ks) (auto simp: set_entries split: option.splits)

lemma distinct_fst_entries: "distinct ks \<Longrightarrow> distinct (map fst (entries ks m))"
  by (induction ks) (auto simp: set_entries split: option.splits)

section \<open>Deduplicated collection\<close>

text \<open>
  The idiom \<open>if seen.insert(x) { out.push(x) }\<close>: keep the first occurrence of each
  element, in order. \<open>out\<close> and \<open>seen\<close> always hold the same elements, so one list models
  both.
\<close>

definition push_unseen :: "'a \<Rightarrow> 'a list \<Rightarrow> 'a list" where
  "push_unseen x out = (if x \<in> set out then out else out @ [x])"

lemma set_push_unseen [simp]: "set (push_unseen x out) = insert x (set out)"
  by (auto simp: push_unseen_def)

lemma distinct_push_unseen [simp]: "distinct (push_unseen x out) = distinct out"
  by (auto simp: push_unseen_def)

lemma set_fold_push_unseen [simp]: "set (fold push_unseen xs out) = set xs \<union> set out"
  by (induction xs arbitrary: out) auto

lemma distinct_fold_push_unseen [simp]: "distinct (fold push_unseen xs out) = distinct out"
  by (induction xs arbitrary: out) auto

section \<open>Strings\<close>

text \<open>\<open>s.starts_with(p)\<close>.\<close>

definition starts_with :: "'a list \<Rightarrow> 'a list \<Rightarrow> bool" where
  "starts_with s p = (take (length p) s = p)"

lemma starts_with_iff: "starts_with s p \<longleftrightarrow> (\<exists>r. s = p @ r)"
  unfolding starts_with_def by (metis append_eq_conv_conj append_take_drop_id)

lemma starts_with_same_length: "length p = length s \<Longrightarrow> starts_with s p \<longleftrightarrow> p = s"
  by (auto simp: starts_with_def)

text \<open>
  \<open>a.eq_ignore_ascii_case(b)\<close>: equality after mapping the ASCII letters A to Z to lower
  case.
\<close>

definition ascii_lower :: "char \<Rightarrow> char" where
  "ascii_lower c =
     (let n = of_char c :: nat in if 65 \<le> n \<and> n \<le> 90 then char_of (n + 32) else c)"

definition eq_ignore_ascii_case :: "string \<Rightarrow> string \<Rightarrow> bool" where
  "eq_ignore_ascii_case a b = (map ascii_lower a = map ascii_lower b)"

text \<open>No upper-case ASCII letter: the text of every hex-encoded key and id.\<close>

definition lower_text :: "string \<Rightarrow> bool" where
  "lower_text s = list_all (\<lambda>c. ascii_lower c = c) s"

lemma lower_text_map: "lower_text s \<Longrightarrow> map ascii_lower s = s"
  by (induction s) (auto simp: lower_text_def)

lemma eq_ignore_case_lower:
  "lower_text a \<Longrightarrow> lower_text b \<Longrightarrow> eq_ignore_ascii_case a b \<longleftrightarrow> a = b"
  by (simp add: eq_ignore_ascii_case_def lower_text_map)

text \<open>\<open>s.split(c)\<close>: the pieces between the occurrences of a separator; never empty.\<close>

fun split_on :: "'a \<Rightarrow> 'a list \<Rightarrow> 'a list list" where
  "split_on c [] = [[]]"
| "split_on c (x # xs) =
     (if x = c then [] # split_on c xs
      else (case split_on c xs of [] \<Rightarrow> [[x]] | w # ws \<Rightarrow> (x # w) # ws))"

fun join_with :: "'a \<Rightarrow> 'a list list \<Rightarrow> 'a list" where
  "join_with c [] = []"
| "join_with c [w] = w"
| "join_with c (w # v # ws) = w @ c # join_with c (v # ws)"

lemma split_on_not_Nil [simp]: "split_on c xs \<noteq> []"
  by (induction xs) (auto split: list.split)

lemma join_split [simp]: "join_with c (split_on c xs) = xs"
proof (induction xs)
  case (Cons x xs)
  obtain w ws where s: "split_on c xs = w # ws" by (cases "split_on c xs") auto
  with Cons show ?case by (cases ws) auto
qed simp

lemma split_on_no_sep: "w \<in> set (split_on c xs) \<Longrightarrow> c \<notin> set w"
  by (induction xs arbitrary: w) (fastforce split: list.splits if_splits)+

lemma split_on_append: "c \<notin> set w \<Longrightarrow> split_on c (w @ c # xs) = w # split_on c xs"
  by (induction w) auto

lemma split_on_single: "c \<notin> set w \<Longrightarrow> split_on c w = [w]"
  by (induction w) auto

lemma split_join: "ws \<noteq> [] \<Longrightarrow> (\<And>w. w \<in> set ws \<Longrightarrow> c \<notin> set w) \<Longrightarrow> split_on c (join_with c ws) = ws"
  by (induction c ws rule: join_with.induct) (auto simp: split_on_append split_on_single)

lemma inj_split_on: "split_on c xs = split_on c ys \<Longrightarrow> xs = ys"
  by (metis join_split)

text \<open>\<open>s.strip_prefix(p)\<close>.\<close>

definition strip_prefix :: "'a list \<Rightarrow> 'a list \<Rightarrow> 'a list option" where
  "strip_prefix p s = (if starts_with s p then Some (drop (length p) s) else None)"

lemma strip_prefix_Some: "strip_prefix p s = Some r \<longleftrightarrow> s = p @ r"
  by (auto simp: strip_prefix_def starts_with_iff)

text \<open>Character classes, on bytes: the ASCII part of the Rust predicates.\<close>

definition is_ascii_digit :: "char \<Rightarrow> bool" where
  "is_ascii_digit c = (48 \<le> (of_char c :: nat) \<and> (of_char c :: nat) \<le> 57)"

definition is_ascii_alphanumeric :: "char \<Rightarrow> bool" where
  "is_ascii_alphanumeric c =
     (let n = of_char c :: nat in
      (48 \<le> n \<and> n \<le> 57) \<or> (65 \<le> n \<and> n \<le> 90) \<or> (97 \<le> n \<and> n \<le> 122))"

section \<open>Lists\<close>

lemma filter_id_conv_all: "(\<And>x. x \<in> set xs \<Longrightarrow> p x) \<Longrightarrow> filter p xs = xs"
  by (induction xs) auto

lemma filter_eq_Nil_conv: "filter p xs = [] \<longleftrightarrow> (\<forall>x \<in> set xs. \<not> p x)"
  by (simp add: filter_empty_conv)

end
