(* ===== verification/Rust_Std.thy ===== *)
theory Rust_Std
  imports Pkzz_Prelude
begin

text \<open>
  What the modelled code uses of Rust's standard library beyond the prelude: the \<open>?\<close>
  operator on \<open>Result\<close>, printing and parsing of numbers, and \<open>split_once\<close>.
\<close>

named_theorems try_simps \<open>results and early returns\<close>

section \<open>Bytes\<close>

type_synonym bytes = "u8 list"

text \<open>\<open>s.as_bytes()\<close>, and a byte string literal.\<close>

definition byte_string :: "string \<Rightarrow> bytes" where
  "byte_string s = map of_char s"

lemma byte_string_append [simp]: "byte_string (s @ t) = byte_string s @ byte_string t"
  by (simp add: byte_string_def)

lemma u8_succ: "(i :: u8) \<noteq> 255 \<Longrightarrow> unat (i + 1) = unat i + 1"
proof -
  assume a: "i \<noteq> 255"
  have "unat i < 256" by (rule order_less_le_trans [OF unsigned_less]) simp
  moreover have "unat i \<noteq> 255"
  proof
    assume "unat i = 255"
    then have "(of_nat (unat i) :: u8) = of_nat 255" by simp
    with a show False by simp
  qed
  ultimately show ?thesis by (simp add: unat_word_ariths(1))
qed

lemma u8_less_succ: "(i :: u8) \<noteq> 255 \<Longrightarrow> j < i + 1 \<longleftrightarrow> j \<le> i"
  by (simp add: word_less_nat_alt word_le_nat_alt u8_succ less_Suc_eq_le)

lemma u8_le_max: "(i :: u8) \<le> 255"
proof -
  have "unat i < 256" by (rule order_less_le_trans [OF unsigned_less]) simp
  then show ?thesis by (simp add: word_le_nat_alt)
qed

section \<open>Results\<close>

text \<open>\<open>let a = m?; f(a)\<close> in a function that returns a \<open>Result\<close>.\<close>

definition and_then :: "'e + 'a \<Rightarrow> ('a \<Rightarrow> 'e + 'b) \<Rightarrow> 'e + 'b" where
  "and_then m f = (case m of Inl e \<Rightarrow> Inl e | Inr a \<Rightarrow> f a)"

lemma and_then_simps [simp, try_simps]: "and_then (Inl e) f = Inl e" "and_then (Inr a) f = f a"
  by (simp_all add: and_then_def)

lemma and_then_Inr [try_simps]: "and_then m f = Inr b \<longleftrightarrow> (\<exists>a. m = Inr a \<and> f a = Inr b)"
  by (cases m) simp_all

text \<open>\<open>let a = m?; f(a)\<close> in a method whose object is in state \<open>s\<close> at that point.\<close>

definition or_return :: "'e + 'a \<Rightarrow> 's \<Rightarrow> ('a \<Rightarrow> ('e + 'b) \<times> 's) \<Rightarrow> ('e + 'b) \<times> 's" where
  "or_return m s f = (case m of Inl e \<Rightarrow> (Inl e, s) | Inr a \<Rightarrow> f a)"

lemma or_return_simps [simp, try_simps]:
  "or_return (Inl e) s f = (Inl e, s)" "or_return (Inr a) s f = f a"
  by (simp_all add: or_return_def)

lemma or_return_Inr [try_simps]:
  "or_return m s f = (Inr b, s') \<longleftrightarrow> (\<exists>a. m = Inr a \<and> f a = (Inr b, s'))"
  by (cases m) simp_all

lemma or_return_Inl:
  "or_return m s f = (Inl e, s') \<longleftrightarrow> m = Inl e \<and> s' = s \<or> (\<exists>a. m = Inr a \<and> f a = (Inl e, s'))"
  by (cases m) auto

text \<open>The same after a call of a method that may change the object.\<close>

definition then_do :: "('e + 'a) \<times> 's \<Rightarrow> ('a \<Rightarrow> 's \<Rightarrow> ('e + 'b) \<times> 's) \<Rightarrow> ('e + 'b) \<times> 's" where
  "then_do m f = (case m of (Inl e, s) \<Rightarrow> (Inl e, s) | (Inr a, s) \<Rightarrow> f a s)"

lemma then_do_simps [simp, try_simps]: "then_do (Inl e, s) f = (Inl e, s)" "then_do (Inr a, s) f = f a s"
  by (simp_all add: then_do_def)

lemma then_do_Inr [try_simps]:
  "then_do m f = (Inr b, s') \<longleftrightarrow> (\<exists>a s. m = (Inr a, s) \<and> f a s = (Inr b, s'))"
  by (cases m; cases "fst m") (auto simp: then_do_def split: sum.splits)

text \<open>A check that succeeds with the unit value, or fails with an error.\<close>

definition check :: "bool \<Rightarrow> 'e \<Rightarrow> 'e + unit" where
  "check p e = (if p then Inr () else Inl e)"

lemma check_simps [simp, try_simps]: "check True e = Inr ()" "check False e = Inl e"
  by (simp_all add: check_def)

lemma check_Inr [simp, try_simps]: "check p e = Inr u \<longleftrightarrow> p"
  by (simp add: check_def)

lemma check_Inl [try_simps]: "check p e = Inl e' \<longleftrightarrow> \<not> p \<and> e' = e"
  by (auto simp: check_def)

text \<open>\<open>opt.ok_or(e)\<close> and \<open>result.ok()\<close>.\<close>

definition ok_or :: "'a option \<Rightarrow> 'e \<Rightarrow> 'e + 'a" where
  "ok_or m e = (case m of None \<Rightarrow> Inl e | Some a \<Rightarrow> Inr a)"

lemma ok_or_simps [simp, try_simps]: "ok_or None e = Inl e" "ok_or (Some a) e = Inr a"
  by (simp_all add: ok_or_def)

lemma ok_or_Inr [simp, try_simps]: "ok_or m e = Inr a \<longleftrightarrow> m = Some a"
  by (cases m) simp_all

definition unwrap_or :: "'a \<Rightarrow> 'a option \<Rightarrow> 'a" where
  "unwrap_or d opt = (case opt of None \<Rightarrow> d | Some v \<Rightarrow> v)"

lemma unwrap_or_simps [simp]: "unwrap_or d None = d" "unwrap_or d (Some v) = v"
  by (simp_all add: unwrap_or_def)

definition map_err :: "('e \<Rightarrow> 'f) \<Rightarrow> 'e + 'a \<Rightarrow> 'f + 'a" where
  "map_err f m = (case m of Inl e \<Rightarrow> Inl (f e) | Inr a \<Rightarrow> Inr a)"

lemma map_err_simps [simp, try_simps]: "map_err f (Inl e) = Inl (f e)" "map_err f (Inr a) = Inr a"
  by (simp_all add: map_err_def)

lemma map_err_Inr [simp, try_simps]: "map_err f m = Inr a \<longleftrightarrow> m = Inr a"
  by (cases m) simp_all

section \<open>Numbers as text\<close>

text \<open>The decimal digits that \<open>format!("{n}")\<close> prints.\<close>

fun show_nat :: "nat \<Rightarrow> string" where
  "show_nat n =
     (if n < 10 then [char_of (48 + n)] else show_nat (n div 10) @ [char_of (48 + n mod 10)])"

declare show_nat.simps [simp del]

fun digits_value :: "nat \<Rightarrow> string \<Rightarrow> nat" where
  "digits_value acc [] = acc"
| "digits_value acc (c # cs) = digits_value (10 * acc + (of_char c - 48)) cs"

lemma digits_value_append: "digits_value acc (xs @ ys) = digits_value (digits_value acc xs) ys"
  by (induction acc xs rule: digits_value.induct) simp_all

lemma show_nat_digits: "list_all is_ascii_digit (show_nat n)"
proof (induction n rule: show_nat.induct)
  case (1 n)
  then show ?case
    by (subst show_nat.simps) (auto simp: is_ascii_digit_def list_all_iff)
qed

lemma show_nat_value [simp]: "digits_value 0 (show_nat n) = n"
proof (induction n rule: show_nat.induct)
  case (1 n)
  then show ?case
    by (subst show_nat.simps) (simp add: digits_value_append)
qed

lemma show_nat_not_Nil [simp]: "show_nat n \<noteq> []"
  by (subst show_nat.simps) simp

lemma inj_show_nat [simp]: "show_nat m = show_nat n \<longleftrightarrow> m = n"
  by (metis show_nat_value)

text \<open>\<open>format!("{n:0w}")\<close>: decimal digits, padded with zeros on the left to width \<open>w\<close>.\<close>

definition show_padded :: "nat \<Rightarrow> nat \<Rightarrow> string" where
  "show_padded w n = (let s = show_nat n in replicate (w - length s) CHR ''0'' @ s)"

lemma digits_value_zeros: "digits_value 0 (replicate k CHR ''0'' @ s) = digits_value 0 s"
  by (induction k) simp_all

lemma inj_show_padded [simp]: "show_padded w m = show_padded w n \<longleftrightarrow> m = n"
  by (metis show_padded_def digits_value_zeros show_nat_value)

lemma length_show_nat: "n < 10 ^ w \<Longrightarrow> 0 < w \<Longrightarrow> length (show_nat n) \<le> w"
proof (induction n arbitrary: w rule: show_nat.induct)
  case (1 n)
  show ?case
  proof (cases "n < 10")
    case True
    with 1(3) show ?thesis by (subst show_nat.simps) simp
  next
    case False
    then obtain v where v: "w = Suc v" "0 < v"
      using 1(2,3) by (cases w; cases "w - 1") auto
    with 1(2) have "n div 10 < 10 ^ v" by (simp add: less_mult_imp_div_less mult.commute)
    with 1(1) False v have "length (show_nat (n div 10)) \<le> v" by simp
    with False v show ?thesis by (subst show_nat.simps) simp
  qed
qed

lemma length_show_padded: "n < 10 ^ w \<Longrightarrow> 0 < w \<Longrightarrow> length (show_padded w n) = w"
  using length_show_nat [of n w] by (simp add: show_padded_def Let_def)

lemma hd_show_nat: "0 < n \<Longrightarrow> hd (show_nat n) \<noteq> CHR ''0''"
proof (induction n rule: show_nat.induct)
  case (1 n)
  then show ?case
  proof (cases "n < 10")
    case True
    then have "(of_char (char_of (48 + n) :: char) :: nat) = 48 + n" by simp
    with 1(2) have "char_of (48 + n) \<noteq> CHR ''0''" by (intro notI) simp
    with True show ?thesis by (subst show_nat.simps) simp
  next
    case False
    with 1 show ?thesis by (subst show_nat.simps) (simp add: hd_append)
  qed
qed

lemma not_digit_notin_show_nat: "\<not> is_ascii_digit c \<Longrightarrow> c \<notin> set (show_nat n)"
  using show_nat_digits [of n] by (auto simp: list_all_iff)

lemma show_digits_value:
  "list_all is_ascii_digit s \<Longrightarrow> s \<noteq> [] \<Longrightarrow> (length s > 1 \<Longrightarrow> hd s \<noteq> CHR ''0'') \<Longrightarrow> show_nat (digits_value 0 s) = s"
proof (induction s rule: rev_induct)
  case (snoc c s)
  define k where "k = of_char c - (48 :: nat)"
  have k: "k < 10" "48 + k = of_char c" using snoc.prems by (auto simp: is_ascii_digit_def k_def)
  then have c: "c = char_of (48 + k)" by simp
  show ?case
  proof (cases "s = []")
    case True
    with k c show ?thesis by (simp add: show_nat.simps [of k] k_def [symmetric])
  next
    case False
    with snoc have s: "show_nat (digits_value 0 s) = s" by (cases s) auto
    have "digits_value 0 s \<noteq> 0"
    proof
      assume "digits_value 0 s = 0"
      moreover have "char_of (48 :: nat) = CHR ''0''" by code_simp
      ultimately have "s = ''0''" using s by (simp add: show_nat.simps [of 0])
      with snoc.prems show False by simp
    qed
    with k s c show ?thesis
      by (simp add: digits_value_append k_def [symmetric] show_nat.simps [of "10 * digits_value 0 s + k"])
  qed
qed simp

text \<open>
  \<open>str::parse\<close> at an unsigned type with values below \<open>bound\<close>: an optional plus sign, at least
  one digit, the value in range.
\<close>

definition parse_unsigned :: "nat \<Rightarrow> string \<Rightarrow> nat option" where
  "parse_unsigned bound s =
     (let ds = (case s of c # cs \<Rightarrow> if c = CHR ''+'' then cs else s | [] \<Rightarrow> []);
          v = digits_value 0 ds
      in if ds \<noteq> [] \<and> list_all is_ascii_digit ds \<and> v < bound then Some v else None)"

lemma parse_unsigned_show: "parse_unsigned bound (show_nat n) = (if n < bound then Some n else None)"
proof -
  obtain c cs where s: "show_nat n = c # cs" by (cases "show_nat n") auto
  then have "c \<noteq> CHR ''+''" using not_digit_notin_show_nat [of "CHR ''+''" n]
    by (auto simp: is_ascii_digit_def)
  with s have "(case show_nat n of c # cs \<Rightarrow> if c = CHR ''+'' then cs else show_nat n | [] \<Rightarrow> []) = show_nat n"
    by simp
  then show ?thesis using show_nat_digits [of n] by (simp add: parse_unsigned_def Let_def)
qed

definition parse_u32 :: "string \<Rightarrow> u32 option" where
  "parse_u32 s = map_option of_nat (parse_unsigned (2 ^ 32) s)"

definition parse_u64 :: "string \<Rightarrow> u64 option" where
  "parse_u64 s = map_option of_nat (parse_unsigned (2 ^ 64) s)"

lemma parse_u64_show: "n < 2 ^ 64 \<Longrightarrow> parse_u64 (show_nat n) = Some (of_nat n)"
  by (simp add: parse_u64_def parse_unsigned_show)

section \<open>Splitting\<close>

text \<open>\<open>s.split_once(c)\<close>: the text before and after the first occurrence.\<close>

definition split_once :: "'a \<Rightarrow> 'a list \<Rightarrow> ('a list \<times> 'a list) option" where
  "split_once c s =
     (case dropWhile (\<lambda>x. x \<noteq> c) s of
        [] \<Rightarrow> None
      | _ # r \<Rightarrow> Some (takeWhile (\<lambda>x. x \<noteq> c) s, r))"

lemma split_once_append [simp]: "c \<notin> set w \<Longrightarrow> split_once c (w @ c # r) = Some (w, r)"
  by (induction w) (auto simp: split_once_def split: list.splits)

lemma split_once_None: "c \<notin> set w \<Longrightarrow> split_once c w = None"
proof -
  assume "c \<notin> set w"
  then have "dropWhile (\<lambda>x. x \<noteq> c) w = []" unfolding dropWhile_eq_Nil_conv by blast
  then show ?thesis unfolding split_once_def by (simp only: list.case)
qed

lemma split_once_Some: "split_once c s = Some (w, r) \<Longrightarrow> s = w @ c # r \<and> c \<notin> set w"
proof (cases "c \<in> set s")
  case True
  then obtain w' r' where "s = w' @ c # r'" "c \<notin> set w'" by (meson split_list_first)
  then show "split_once c s = Some (w, r) \<Longrightarrow> ?thesis" by simp
qed (simp add: split_once_None)

section \<open>Iterators, characters, signed numbers\<close>

text \<open>\<open>iter().find_map(f)\<close>.\<close>

fun find_map :: "('a \<Rightarrow> 'b option) \<Rightarrow> 'a list \<Rightarrow> 'b option" where
  "find_map f [] = None"
| "find_map f (x # xs) = (case f x of Some y \<Rightarrow> Some y | None \<Rightarrow> find_map f xs)"

definition is_ascii_hexdigit :: "char \<Rightarrow> bool" where
  "is_ascii_hexdigit c =
     (let n = of_char c :: nat in
      (48 \<le> n \<and> n \<le> 57) \<or> (65 \<le> n \<and> n \<le> 70) \<or> (97 \<le> n \<and> n \<le> 102))"

text \<open>\<open>str::parse::<i64>\<close>: an optional sign, at least one digit, the value in range.\<close>

definition parse_i64 :: "string \<Rightarrow> int option" where
  "parse_i64 s =
     (let (neg, ds) = (case s of
            c # cs \<Rightarrow> if c = CHR ''-'' then (True, cs) else if c = CHR ''+'' then (False, cs) else (False, s)
          | [] \<Rightarrow> (False, []));
          v = (if neg then - int (digits_value 0 ds) else int (digits_value 0 ds))
      in if ds \<noteq> [] \<and> list_all is_ascii_digit ds \<and> - (2 ^ 63) \<le> v \<and> v < 2 ^ 63 then Some v else None)"

end
