(* ===== verification/Utf8_Text.thy ===== *)
theory Utf8_Text
  imports Rust_Std
begin

text \<open>
  Rust strings as Unicode text. A string of the model is the list of its UTF-8 bytes, so
  \<open>len()\<close> is the length of the list; here are the characters of that text, their code points, and
  what the standard library says of them: \<open>chars()\<close>, \<open>trim()\<close> and its variants, \<open>is_whitespace\<close>
  (the Unicode property White_Space), \<open>is_control\<close> (the category Cc).
\<close>

section \<open>Characters\<close>

definition continuation :: "char \<Rightarrow> bool" where
  "continuation c = (128 \<le> (of_char c :: nat) \<and> (of_char c :: nat) < 192)"

text \<open>A character is a byte and the continuation bytes after it.\<close>

function chars :: "string \<Rightarrow> string list" where
  "chars [] = []"
| "chars (c # cs) = (c # takeWhile continuation cs) # chars (dropWhile continuation cs)"
  by pat_completeness auto
termination by (relation "measure length") (auto simp: length_dropWhile_le less_Suc_eq_le)

lemma concat_chars [simp]: "concat (chars s) = s"
  by (induction s rule: chars.induct) simp_all

lemma chars_not_Nil: "w \<in> set (chars s) \<Longrightarrow> w \<noteq> []"
  by (induction s rule: chars.induct) auto

lemma chars_eq_Nil [simp]: "chars s = [] \<longleftrightarrow> s = []"
  by (cases s) simp_all

text \<open>A piece of text that starts with the first byte of a character.\<close>

definition at_boundary :: "string \<Rightarrow> bool" where
  "at_boundary s = (s = [] \<or> \<not> continuation (hd s))"

lemma chars_append: "at_boundary t \<Longrightarrow> chars (s @ t) = chars s @ chars t"
proof (induction s rule: chars.induct)
  case (2 c cs)
  show ?case
  proof (cases "\<forall>x \<in> set cs. continuation x")
    case True
    have "takeWhile continuation t = []" "dropWhile continuation t = t"
      using 2(2) by (cases t; simp add: at_boundary_def)+
    with True show ?thesis by (simp add: takeWhile_append2 dropWhile_append2 takeWhile_eq_all_conv [THEN iffD2])
  next
    case False
    then have "takeWhile continuation (cs @ t) = takeWhile continuation cs"
      and "dropWhile continuation (cs @ t) = dropWhile continuation cs @ t"
      by (auto simp: takeWhile_append dropWhile_append)
    with 2 show ?thesis by simp
  qed
qed simp

text \<open>What the list of characters of a text looks like; pieces of such a list are again one.\<close>

definition char_seq :: "string list \<Rightarrow> bool" where
  "char_seq ws \<longleftrightarrow>
     list_all (\<lambda>w. w \<noteq> [] \<and> list_all continuation (tl w)) ws \<and> list_all (\<lambda>w. \<not> continuation (hd w)) (tl ws)"

lemma char_seq_chars: "char_seq (chars s)"
proof (induction s rule: chars.induct)
  case (2 c cs)
  have "\<not> continuation (hd w)" if "w \<in> set (chars (dropWhile continuation cs))" for w
  proof (cases "chars (dropWhile continuation cs)")
    case (Cons v vs)
    then have "hd v = hd (dropWhile continuation cs)" "dropWhile continuation cs \<noteq> []"
      by (cases "dropWhile continuation cs"; auto)+
    then have "\<not> continuation (hd v)" by (metis hd_dropWhile)
    with that Cons 2 show ?thesis by (auto simp: char_seq_def list_all_iff)
  qed (use that in \<open>auto simp del: chars_eq_Nil\<close>)
  with 2 show ?case by (auto simp: char_seq_def list_all_iff dest: set_takeWhileD)
qed (simp add: char_seq_def)

lemma chars_concat: "char_seq ws \<Longrightarrow> chars (concat ws) = ws"
proof (induction ws)
  case (Cons w ws)
  then obtain c cs where w: "w = c # cs" and cs: "\<forall>x \<in> set cs. continuation x" by (cases w) (auto simp: char_seq_def list_all_iff)
  have b: "at_boundary (concat ws)"
    using Cons.prems by (cases ws) (auto simp: char_seq_def at_boundary_def hd_append)
  have "char_seq ws" using Cons.prems by (cases ws) (auto simp: char_seq_def)
  with Cons.IH have "chars (concat ws) = ws" by blast
  moreover have "takeWhile continuation cs = cs" "dropWhile continuation cs = []" using cs by (simp_all add: takeWhile_eq_all_conv)
  ultimately show ?case using chars_append [OF b, of w] by (simp add: w)
qed simp

lemma char_seq_append: "char_seq (ws @ vs) \<Longrightarrow> char_seq ws \<and> char_seq vs"
  by (cases ws; cases vs) (auto simp: char_seq_def)

lemma chars_dropWhile: "chars (concat (dropWhile p (chars s))) = dropWhile p (chars s)"
  by (rule chars_concat) (metis char_seq_append char_seq_chars takeWhile_dropWhile_id)

lemma chars_dropWhile_end: "chars (concat (rev (dropWhile p (rev (chars s))))) = rev (dropWhile p (rev (chars s)))"
proof (rule chars_concat)
  have "chars s = rev (dropWhile p (rev (chars s))) @ rev (takeWhile p (rev (chars s)))"
    by (metis rev_append rev_rev_ident takeWhile_dropWhile_id)
  then show "char_seq (rev (dropWhile p (rev (chars s))))" by (metis char_seq_append char_seq_chars)
qed

text \<open>The number a character encodes.\<close>

definition code_point :: "string \<Rightarrow> nat" where
  "code_point w =
     (case w of
        [] \<Rightarrow> 0
      | c # cs \<Rightarrow>
          (let n = of_char c :: nat;
               lead = (if n < 128 then n else if n < 224 then n - 192 else if n < 240 then n - 224 else n - 240)
           in foldl (\<lambda>v d. 64 * v + (of_char d - 128)) lead cs))"

definition white_space :: "string \<Rightarrow> bool" where
  "white_space w =
     (let n = code_point w in
      9 \<le> n \<and> n \<le> 13 \<or> n = 32 \<or> n = 0x85 \<or> n = 0xA0 \<or> n = 0x1680 \<or> 0x2000 \<le> n \<and> n \<le> 0x200A \<or>
      n = 0x2028 \<or> n = 0x2029 \<or> n = 0x202F \<or> n = 0x205F \<or> n = 0x3000)"

definition is_control :: "string \<Rightarrow> bool" where
  "is_control w = (let n = code_point w in n < 32 \<or> 127 \<le> n \<and> n < 160)"

definition char_count :: "string \<Rightarrow> nat" where
  "char_count s = length (chars s)"

section \<open>Trimming\<close>

definition trim_start_matches :: "(string \<Rightarrow> bool) \<Rightarrow> string \<Rightarrow> string" where
  "trim_start_matches p s = concat (dropWhile p (chars s))"

definition trim_end_matches :: "(string \<Rightarrow> bool) \<Rightarrow> string \<Rightarrow> string" where
  "trim_end_matches p s = concat (rev (dropWhile p (rev (chars s))))"

definition trim_matches :: "(string \<Rightarrow> bool) \<Rightarrow> string \<Rightarrow> string" where
  "trim_matches p s = trim_end_matches p (trim_start_matches p s)"

definition trim :: "string \<Rightarrow> string" where
  "trim = trim_matches white_space"

text \<open>Text of ASCII characters only: every byte is a character.\<close>

definition ascii_text :: "string \<Rightarrow> bool" where
  "ascii_text s = list_all (\<lambda>c. (of_char c :: nat) < 128) s"

lemma chars_ascii: "ascii_text s \<Longrightarrow> chars s = map (\<lambda>c. [c]) s"
proof (induction s rule: chars.induct)
  case (2 c cs)
  have "takeWhile continuation cs = []" "dropWhile continuation cs = cs"
    using 2(2) by (cases cs; auto simp: ascii_text_def continuation_def)+
  with 2 show ?case by (simp add: ascii_text_def)
qed simp

lemma char_count_ascii: "ascii_text s \<Longrightarrow> char_count s = length s"
  by (simp add: char_count_def chars_ascii)

lemma char_count_le: "char_count s \<le> length s"
proof (induction s rule: chars.induct)
  case (2 c cs)
  then show ?case using length_dropWhile_le [of continuation cs] by (simp add: char_count_def)
qed (simp add: char_count_def)

lemma code_point_single [simp]: "code_point [c] = (let n = of_char c :: nat in
    if n < 128 then n else if n < 224 then n - 192 else if n < 240 then n - 224 else n - 240)"
  by (simp add: code_point_def Let_def)

lemma concat_singletons [simp]: "concat (map (\<lambda>c. [c]) s) = s"
  by (induction s) simp_all

lemma trim_start_ascii: "ascii_text s \<Longrightarrow> trim_start_matches p s = dropWhile (\<lambda>c. p [c]) s"
  by (simp add: trim_start_matches_def chars_ascii dropWhile_map comp_def)

lemma trim_end_ascii: "ascii_text s \<Longrightarrow> trim_end_matches p s = rev (dropWhile (\<lambda>c. p [c]) (rev s))"
proof -
  assume "ascii_text s"
  then have "rev (dropWhile p (rev (chars s))) = map (\<lambda>c. [c]) (rev (dropWhile (\<lambda>c. p [c]) (rev s)))"
    by (simp add: chars_ascii dropWhile_map comp_def rev_map)
  then show ?thesis by (simp add: trim_end_matches_def)
qed

lemma ascii_dropWhile: "ascii_text s \<Longrightarrow> ascii_text (dropWhile p s)"
  by (auto simp: ascii_text_def list_all_iff dest: set_dropWhileD)

text \<open>Text without a character to trim at either end is unchanged.\<close>

lemma trim_matches_id:
  assumes "ascii_text s" and "\<forall>c \<in> set s. \<not> p [c]"
  shows "trim_matches p s = s"
proof -
  have "dropWhile (\<lambda>c. p [c]) s = s" using assms(2) by (cases s) auto
  moreover have "dropWhile (\<lambda>c. p [c]) (rev s) = rev s"
  proof (cases s rule: rev_cases)
    case (snoc t c)
    with assms(2) show ?thesis by simp
  qed simp
  ultimately show ?thesis using assms(1) by (simp add: trim_matches_def trim_start_ascii trim_end_ascii)
qed

end
