(* ===== verification/Channel_Roles.thy ===== *)
theory Channel_Roles
  imports Utf8_Text
begin

text \<open>
  Channel and membership enumerations, crates/buzz-core/src/channel.rs: visibility,
  channel type and member role with their canonical texts, and the permission levels that
  authorization compares. \<open>from_str\<close> returns \<open>Inl\<close> with the message of the error.

  The locale \<open>ranked\<close> is the interface that policy code uses of a role type: a numeric
  rank, the check against a required role, and the accumulation of the strictest
  requirement.
\<close>

section \<open>Channel names\<close>

definition canonical_channel_name :: "string \<Rightarrow> string" where
  "canonical_channel_name name =
     trim_end_matches white_space (trim_start_matches (\<lambda>c. c = ''#'' \<or> white_space c) name)"

section \<open>Enumerations\<close>

datatype channel_visibility = Open | Private

fun visibility_as_str :: "channel_visibility \<Rightarrow> string" where
  "visibility_as_str Open = ''open''"
| "visibility_as_str Private = ''private''"

text \<open>The message quotes the text with its \<open>Debug\<close> form, given as an argument.\<close>

definition visibility_from_str :: "(string \<Rightarrow> string) \<Rightarrow> string \<Rightarrow> string + channel_visibility" where
  "visibility_from_str quote s =
     (if s = ''open'' then Inr Open
      else if s = ''private'' then Inr Private
      else Inl (''unknown channel visibility: '' @ quote s))"

datatype channel_type = Stream | Forum | Dm | Workflow

fun channel_type_as_str :: "channel_type \<Rightarrow> string" where
  "channel_type_as_str Stream = ''stream''"
| "channel_type_as_str Forum = ''forum''"
| "channel_type_as_str Dm = ''dm''"
| "channel_type_as_str Workflow = ''workflow''"

definition channel_type_from_str :: "(string \<Rightarrow> string) \<Rightarrow> string \<Rightarrow> string + channel_type" where
  "channel_type_from_str quote s =
     (if s = ''stream'' then Inr Stream
      else if s = ''forum'' then Inr Forum
      else if s = ''dm'' then Inr Dm
      else if s = ''workflow'' then Inr Workflow
      else Inl (''unknown channel type: '' @ quote s))"

datatype member_role = Owner | Admin | Member | Guest | Bot

fun role_as_str :: "member_role \<Rightarrow> string" where
  "role_as_str Owner = ''owner''"
| "role_as_str Admin = ''admin''"
| "role_as_str Member = ''member''"
| "role_as_str Guest = ''guest''"
| "role_as_str Bot = ''bot''"

definition role_from_str :: "(string \<Rightarrow> string) \<Rightarrow> string \<Rightarrow> string + member_role" where
  "role_from_str quote s =
     (if s = ''owner'' then Inr Owner
      else if s = ''admin'' then Inr Admin
      else if s = ''member'' then Inr Member
      else if s = ''guest'' then Inr Guest
      else if s = ''bot'' then Inr Bot
      else Inl (''unknown member role: '' @ quote s))"

fun is_elevated :: "member_role \<Rightarrow> bool" where
  "is_elevated Owner = True"
| "is_elevated Admin = True"
| "is_elevated _ = False"

fun permission_level :: "member_role \<Rightarrow> nat" where
  "permission_level Owner = 4"
| "permission_level Admin = 3"
| "permission_level Member = 2"
| "permission_level Guest = 1"
| "permission_level Bot = 0"

definition has_at_least :: "member_role \<Rightarrow> member_role \<Rightarrow> bool" where
  "has_at_least role required = (permission_level role \<ge> permission_level required)"

section \<open>Ranked roles\<close>

text \<open>
  The idiom of the policy code: start without a requirement and, for each role required,
  keep the one of the higher rank.
\<close>

definition strictest :: "('r \<Rightarrow> nat) \<Rightarrow> 'r \<Rightarrow> 'r option \<Rightarrow> 'r option" where
  "strictest rank role acc =
     Some (case acc of
             None \<Rightarrow> role
           | Some existing \<Rightarrow> if rank role > rank existing then role else existing)"

locale ranked =
  fixes rank :: "'r \<Rightarrow> nat"
    and meets_role :: "'r \<Rightarrow> 'r \<Rightarrow> bool"
  assumes meets_rank: "meets_role r q \<longleftrightarrow> rank q \<le> rank r"
begin

lemma meets_refl: "meets_role r r"
  by (simp add: meets_rank)

lemma meets_trans: "meets_role r q \<Longrightarrow> meets_role q p \<Longrightarrow> meets_role r p"
  by (simp add: meets_rank)

lemma meets_strictest:
  "(\<exists>q. strictest rank role acc = Some q \<and> meets_role r q) \<longleftrightarrow>
     meets_role r role \<and> (case acc of None \<Rightarrow> True | Some q \<Rightarrow> meets_role r q)"
  by (auto simp: strictest_def meets_rank split: option.splits)

text \<open>A role meets the accumulated requirement exactly when it meets every role accumulated.\<close>

lemma meets_fold_strictest:
  "(case fold (strictest rank) roles acc of None \<Rightarrow> True | Some q \<Rightarrow> meets_role r q) \<longleftrightarrow>
     (\<forall>q \<in> set roles. meets_role r q) \<and> (case acc of None \<Rightarrow> True | Some q \<Rightarrow> meets_role r q)"
proof (induction roles arbitrary: acc)
  case (Cons q roles)
  obtain q' where q': "strictest rank q acc = Some q'" by (simp add: strictest_def)
  then have "meets_role r q' \<longleftrightarrow>
      meets_role r q \<and> (case acc of None \<Rightarrow> True | Some p \<Rightarrow> meets_role r p)"
    using meets_strictest [of q acc r] by simp
  with Cons.IH [of "Some q'"] q' show ?case by auto
qed simp

text \<open>The accumulated requirement is one of the roles accumulated.\<close>

lemma fold_strictest_mem:
  "fold (strictest rank) roles acc = Some q \<Longrightarrow> q \<in> set roles \<or> acc = Some q"
proof (induction roles arbitrary: acc)
  case (Cons p roles)
  then have "q \<in> set roles \<or> strictest rank p acc = Some q" by simp
  then show ?case by (auto simp: strictest_def split: option.splits if_splits)
qed simp

lemma fold_strictest_None: "fold (strictest rank) roles acc = None \<longleftrightarrow> roles = [] \<and> acc = None"
proof (induction roles arbitrary: acc)
  case (Cons p roles)
  then show ?case by (simp add: strictest_def)
qed simp

end

interpretation role: ranked permission_level has_at_least
  by unfold_locales (simp add: has_at_least_def)

text \<open>Roles are ordered by their permission level, so that the library's order applies to them.\<close>

lemma inj_permission_level: "permission_level r = permission_level q \<longleftrightarrow> r = q"
  by (cases r; cases q) auto

instantiation member_role :: linorder
begin

definition less_eq_member_role :: "member_role \<Rightarrow> member_role \<Rightarrow> bool" where
  "less_eq_member_role r q \<longleftrightarrow> permission_level r \<le> permission_level q"

definition less_member_role :: "member_role \<Rightarrow> member_role \<Rightarrow> bool" where
  "less_member_role r q \<longleftrightarrow> permission_level r < permission_level q"

instance
  by standard (auto simp: less_eq_member_role_def less_member_role_def inj_permission_level)

end

lemma has_at_least_iff: "has_at_least role required \<longleftrightarrow> required \<le> role"
  by (simp add: has_at_least_def less_eq_member_role_def)

lemma stricter_role_max:
  "(if permission_level p \<ge> permission_level q then p else q) = max p q"
  by (auto simp: max_def less_eq_member_role_def inj_permission_level)

section \<open>Properties\<close>

lemma visibility_roundtrip: "visibility_from_str quote (visibility_as_str v) = Inr v"
  by (cases v) (simp_all add: visibility_from_str_def)

lemma channel_type_roundtrip: "channel_type_from_str quote (channel_type_as_str t) = Inr t"
  by (cases t) (simp_all add: channel_type_from_str_def)

lemma role_roundtrip: "role_from_str quote (role_as_str r) = Inr r"
  by (cases r) (simp_all add: role_from_str_def)

lemma role_from_str_Inr: "role_from_str quote s = Inr r \<longleftrightarrow> s = role_as_str r"
  by (cases r) (auto simp: role_from_str_def)

lemma visibility_from_str_Inr: "visibility_from_str quote s = Inr v \<longleftrightarrow> s = visibility_as_str v"
  by (cases v) (auto simp: visibility_from_str_def)

lemma channel_type_from_str_Inr: "channel_type_from_str quote s = Inr t \<longleftrightarrow> s = channel_type_as_str t"
  by (cases t) (auto simp: channel_type_from_str_def)

lemma bot_meets_nothing: "has_at_least Bot q \<longleftrightarrow> q = Bot"
  by (cases q) (simp_all add: has_at_least_def)

lemma elevated_iff: "is_elevated r \<longleftrightarrow> has_at_least r Admin"
  by (cases r) (simp_all add: has_at_least_def)

text \<open>
  The canonical texts of the channel enumerations are exact: each \<open>from_str\<close> accepts
  precisely the texts \<open>as_str\<close> prints and reads each back as the value it came from.
\<close>

lemma channel_enums_roundtrip:
  "(visibility_from_str quote s = Inr v \<longleftrightarrow> s = visibility_as_str v) \<and>
   (channel_type_from_str quote s = Inr t \<longleftrightarrow> s = channel_type_as_str t) \<and>
   (role_from_str quote s = Inr r \<longleftrightarrow> s = role_as_str r)"
  by (simp only: visibility_from_str_Inr channel_type_from_str_Inr role_from_str_Inr simp_thms)

lemma canonical_channel_name_idem:
  "canonical_channel_name (canonical_channel_name s) = canonical_channel_name s"
proof -
  let ?p = "\<lambda>c. c = ''#'' \<or> white_space c" and ?n = "canonical_channel_name s"
  let ?t = "dropWhile ?p (chars s)"
  have "chars ?n = rev (dropWhile white_space (rev (chars (concat ?t))))"
    by (simp only: canonical_channel_name_def trim_end_matches_def trim_start_matches_def chars_dropWhile_end)
  then have n: "chars ?n = rev (dropWhile white_space (rev ?t))" by (simp add: chars_dropWhile)
  have "dropWhile ?p (chars ?n) = chars ?n"
  proof (cases "chars ?n")
    case (Cons c cs)
    have "rev (takeWhile white_space (rev ?t) @ dropWhile white_space (rev ?t)) = ?t"
      by (simp only: takeWhile_dropWhile_id rev_rev_ident)
    then have "chars ?n @ rev (takeWhile white_space (rev ?t)) = ?t" by (simp only: n rev_append)
    then have "?t = c # cs @ rev (takeWhile white_space (rev ?t))" by (simp only: Cons append_Cons)
    then have "?t \<noteq> []" "hd ?t = c" by (metis list.distinct(1), metis list.sel(1))
    then have "\<not> ?p c" using hd_dropWhile [of ?p "chars s"] by blast
    with Cons show ?thesis by simp
  qed simp
  moreover have "dropWhile white_space (rev (chars ?n)) = rev (chars ?n)" by (simp add: n)
  ultimately show ?thesis
    by (simp add: canonical_channel_name_def [of ?n] trim_start_matches_def trim_end_matches_def)
qed

end
