(* ===== verification/Git_Perms.thy ===== *)
theory Git_Perms
  imports Channel_Roles
begin

text \<open>
  Git push permissions, crates/buzz-core/src/git_perms.rs: the parser of ref patterns, ref
  matching, the parser of \<open>buzz-protect\<close> tags, and the evaluation of a push against the
  protection rules and the role of the pusher. Strings are byte strings, as \<open>str::len\<close>
  counts them. \<open>unreachable!()\<close> is the outcome \<open>None\<close> of matching.
\<close>

section \<open>Limits\<close>

definition MAX_PROTECTION_RULES :: nat where "MAX_PROTECTION_RULES = 50"
definition MAX_PATTERN_LENGTH :: nat where "MAX_PATTERN_LENGTH = 256"
definition MAX_WILDCARDS_PER_PATTERN :: nat where "MAX_WILDCARDS_PER_PATTERN = 3"

section \<open>Ref patterns\<close>

datatype pattern_segment = Literal string | Wildcard | RecursiveWildcard

record ref_pattern =
  rp_raw :: string
  rp_segments :: "pattern_segment list"

datatype pattern_error =
    EmptyPattern
  | TooLong
  | MissingRefsPrefix
  | InvalidSegment string
  | TooManyWildcards

definition segment_char :: "char \<Rightarrow> bool" where
  "segment_char c = (is_ascii_alphanumeric c \<or> c = CHR ''.'' \<or> c = CHR ''_'' \<or> c = CHR ''-'')"

text \<open>
  The loop of \<open>RefPattern::parse\<close> over the parts of the pattern. A part is the last one
  when no part follows it.
\<close>

fun parse_segments ::
  "string list \<Rightarrow> pattern_segment list \<Rightarrow> nat \<Rightarrow> pattern_error + pattern_segment list" where
  "parse_segments [] segments wildcard_count = Inr segments"
| "parse_segments (part # rest) segments wildcard_count =
     (if part = ''**'' then
        (if rest \<noteq> [] then Inl (InvalidSegment ''** must be the last segment'')
         else if wildcard_count + 1 > MAX_WILDCARDS_PER_PATTERN then Inl TooManyWildcards
         else parse_segments rest (segments @ [RecursiveWildcard]) (wildcard_count + 1))
      else if part = ''*'' then
        (if wildcard_count + 1 > MAX_WILDCARDS_PER_PATTERN then Inl TooManyWildcards
         else parse_segments rest (segments @ [Wildcard]) (wildcard_count + 1))
      else if part = [] then Inl (InvalidSegment [])
      else if CHR ''*'' \<in> set part \<or> CHR ''?'' \<in> set part \<or> CHR ''['' \<in> set part
              \<or> CHR '']'' \<in> set part
        then Inl (InvalidSegment part)
      else if \<not> list_all segment_char part then Inl (InvalidSegment part)
      else parse_segments rest (segments @ [Literal part]) wildcard_count)"

definition ref_pattern_parse :: "string \<Rightarrow> pattern_error + ref_pattern" where
  "ref_pattern_parse pattern =
     (if pattern = [] then Inl EmptyPattern
      else if length pattern > MAX_PATTERN_LENGTH then Inl TooLong
      else if \<not> starts_with pattern ''refs/'' then Inl MissingRefsPrefix
      else
        (case parse_segments (split_on CHR ''/'' pattern) [] 0 of
           Inl e \<Rightarrow> Inl e
         | Inr segments \<Rightarrow> Inr \<lparr>rp_raw = pattern, rp_segments = segments\<rparr>))"

text \<open>\<open>.all(|(pat, seg)| match pat { .. })\<close>, which stops at the first pair that fails.\<close>

fun all_segments :: "(pattern_segment \<times> string) list \<Rightarrow> bool option" where
  "all_segments [] = Some True"
| "all_segments ((pat, seg) # rest) =
     (case pat of
        Wildcard \<Rightarrow> all_segments rest
      | Literal lit \<Rightarrow> if lit = seg then all_segments rest else Some False
      | RecursiveWildcard \<Rightarrow> None)"

definition ref_pattern_matches :: "ref_pattern \<Rightarrow> string \<Rightarrow> bool option" where
  "ref_pattern_matches p ref_name =
     (let ref_segments = split_on CHR ''/'' ref_name; segments = rp_segments p in
      if segments \<noteq> [] \<and> last segments = RecursiveWildcard then
        (let prefix_len = length segments - 1 in
         if length ref_segments \<le> prefix_len then Some False
         else all_segments (zip (take prefix_len segments) (take prefix_len ref_segments)))
      else if length ref_segments \<noteq> length segments then Some False
      else all_segments (zip segments ref_segments))"

definition ref_pattern_as_str :: "ref_pattern \<Rightarrow> string" where
  "ref_pattern_as_str p = rp_raw p"

section \<open>Ref updates\<close>

datatype update_kind = Create | FastForward | NonFastForward | Delete

definition ZERO_OID :: string where
  "ZERO_OID = replicate 40 (CHR ''0'')"

definition update_kind_classify :: "string \<Rightarrow> string \<Rightarrow> bool \<Rightarrow> update_kind" where
  "update_kind_classify old_oid new_oid is_ancestor =
     (if old_oid = ZERO_OID then Create
      else if new_oid = ZERO_OID then Delete
      else if is_ancestor then FastForward
      else NonFastForward)"

record ref_update =
  ru_ref_name :: string
  ru_kind :: update_kind
  ru_old_oid :: string
  ru_new_oid :: string

section \<open>Protection rules\<close>

record protection_rule =
  pr_pattern :: ref_pattern
  pr_push_role :: "member_role option"
  pr_no_force_push :: bool
  pr_no_delete :: bool
  pr_require_patch :: bool

datatype rule_parse_error =
    TooFewValues
  | TooManyRules
  | InvalidPattern pattern_error
  | UnknownRule string
  | InvalidRole string

text \<open>The loop over the rule strings; \<open>r\<close> is the rule so far.\<close>

fun parse_rules ::
  "string list \<Rightarrow> protection_rule \<Rightarrow> string list
   \<Rightarrow> rule_parse_error + (protection_rule \<times> string list)" where
  "parse_rules [] r unknown_rules = Inr (r, unknown_rules)"
| "parse_rules (rule_str # rest) r unknown_rules =
     (case strip_prefix ''push:'' rule_str of
        Some role_str \<Rightarrow>
          (case role_from_str id role_str of
             Inl e \<Rightarrow> Inl (InvalidRole role_str)
           | Inr role \<Rightarrow>
               if role = Bot \<or> role = Guest then Inl (InvalidRole role_str)
               else parse_rules rest
                      (r\<lparr>pr_push_role := strictest permission_level role (pr_push_role r)\<rparr>)
                      unknown_rules)
      | None \<Rightarrow>
          if rule_str = ''no-force-push'' then
            parse_rules rest (r\<lparr>pr_no_force_push := True\<rparr>) unknown_rules
          else if rule_str = ''no-delete'' then
            parse_rules rest (r\<lparr>pr_no_delete := True\<rparr>) unknown_rules
          else if rule_str = ''require-patch'' then
            parse_rules rest (r\<lparr>pr_require_patch := True\<rparr>) unknown_rules
          else parse_rules rest r (unknown_rules @ [rule_str]))"

definition parse_protection_tag_with_warnings ::
  "string list \<Rightarrow> rule_parse_error + (protection_rule \<times> string list)" where
  "parse_protection_tag_with_warnings values =
     (case values of
        pat # r1 # rs \<Rightarrow>
          (case ref_pattern_parse pat of
             Inl e \<Rightarrow> Inl (InvalidPattern e)
           | Inr pattern \<Rightarrow>
               parse_rules (r1 # rs)
                 \<lparr>pr_pattern = pattern, pr_push_role = None, pr_no_force_push = False,
                  pr_no_delete = False, pr_require_patch = False\<rparr> [])
      | _ \<Rightarrow> Inl TooFewValues)"

definition parse_protection_tag :: "string list \<Rightarrow> rule_parse_error + protection_rule" where
  "parse_protection_tag values =
     (case parse_protection_tag_with_warnings values of
        Inl e \<Rightarrow> Inl e | Inr (rule, unknowns) \<Rightarrow> Inr rule)"

record parsed_protection =
  pp_rules :: "protection_rule list"
  pp_unknown_rules :: "string list"

fun parse_tags_loop ::
  "string list list \<Rightarrow> protection_rule list \<Rightarrow> string list \<Rightarrow> rule_parse_error + parsed_protection" where
  "parse_tags_loop [] rules unknown_rules =
     Inr \<lparr>pp_rules = rules, pp_unknown_rules = unknown_rules\<rparr>"
| "parse_tags_loop (tag # tags) rules unknown_rules =
     (case tag of
        [] \<Rightarrow> parse_tags_loop tags rules unknown_rules
      | name # values \<Rightarrow>
          if name \<noteq> ''buzz-protect'' then parse_tags_loop tags rules unknown_rules
          else if length rules \<ge> MAX_PROTECTION_RULES then Inl TooManyRules
          else
            (case parse_protection_tag_with_warnings values of
               Inl e \<Rightarrow> Inl e
             | Inr (rule, unknowns) \<Rightarrow>
                 parse_tags_loop tags (rules @ [rule]) (unknown_rules @ unknowns)))"

definition parse_protection_tags :: "string list list \<Rightarrow> rule_parse_error + parsed_protection" where
  "parse_protection_tags tags = parse_tags_loop tags [] []"

section \<open>Policy\<close>

definition default_min_role :: "string \<Rightarrow> update_kind \<Rightarrow> member_role" where
  "default_min_role ref_name kind =
     (let is_branch = starts_with ref_name ''refs/heads/'';
          is_tag = starts_with ref_name ''refs/tags/'' in
      case kind of
        Create \<Rightarrow> if is_branch \<or> is_tag then Member else Admin
      | FastForward \<Rightarrow> if is_branch then Member else if is_tag then Admin else Admin
      | NonFastForward \<Rightarrow> Admin
      | Delete \<Rightarrow> Admin)"

record effective_rules =
  er_push_role :: "member_role option"
  er_no_force_push :: bool
  er_no_delete :: bool
  er_require_patch :: bool
  er_has_explicit_match :: bool

text \<open>One round of the loop in \<open>EffectiveRules::for_ref\<close>; \<open>None\<close> is a panic in matching.\<close>

definition union_rule :: "string \<Rightarrow> protection_rule \<Rightarrow> effective_rules option \<Rightarrow> effective_rules option" where
  "union_rule ref_name rule acc =
     (case acc of
        None \<Rightarrow> None
      | Some e \<Rightarrow>
          (case ref_pattern_matches (pr_pattern rule) ref_name of
             None \<Rightarrow> None
           | Some False \<Rightarrow> Some e
           | Some True \<Rightarrow>
               Some \<lparr>er_push_role =
                       (case pr_push_role rule of
                          None \<Rightarrow> er_push_role e
                        | Some role \<Rightarrow> strictest permission_level role (er_push_role e)),
                     er_no_force_push = (er_no_force_push e \<or> pr_no_force_push rule),
                     er_no_delete = (er_no_delete e \<or> pr_no_delete rule),
                     er_require_patch = (er_require_patch e \<or> pr_require_patch rule),
                     er_has_explicit_match = True\<rparr>))"

definition no_rules :: effective_rules where
  "no_rules = \<lparr>er_push_role = None, er_no_force_push = False, er_no_delete = False,
     er_require_patch = False, er_has_explicit_match = False\<rparr>"

definition effective_rules_for_ref :: "string \<Rightarrow> protection_rule list \<Rightarrow> effective_rules option" where
  "effective_rules_for_ref ref_name rules = fold (union_rule ref_name) rules (Some no_rules)"

record denial =
  dn_ref_name :: string
  dn_reason :: string

definition needs_role :: "member_role \<Rightarrow> member_role \<Rightarrow> string" where
  "needs_role min_role role =
     ''requires '' @ role_as_str min_role @ '' role (you have '' @ role_as_str role @ '')''"

text \<open>The outcome of a ref update: \<open>None\<close> panics, \<open>Some (Inl d)\<close> denies, \<open>Some (Inr ())\<close> allows.\<close>

definition evaluate_ref_update ::
  "ref_update \<Rightarrow> member_role \<Rightarrow> protection_rule list \<Rightarrow> (denial + unit) option" where
  "evaluate_ref_update update role rules =
     (case effective_rules_for_ref (ru_ref_name update) rules of
        None \<Rightarrow> None
      | Some effective \<Rightarrow>
          let deny = (\<lambda>reason. Some (Inl \<lparr>dn_ref_name = ru_ref_name update, dn_reason = reason\<rparr>)) in
          if \<not> er_has_explicit_match effective then
            (let min_role = default_min_role (ru_ref_name update) (ru_kind update) in
             if \<not> has_at_least role min_role
             then deny (needs_role min_role role @ '', using built-in defaults'')
             else Some (Inr ()))
          else if er_require_patch effective then
            deny ''direct push denied: require-patch is set, submit a NIP-34 patch''
          else
            (let default_role = default_min_role (ru_ref_name update) (ru_kind update);
                 min_role = (case er_push_role effective of
                   Some explicit \<Rightarrow>
                     if permission_level explicit \<ge> permission_level default_role
                     then explicit else default_role
                 | None \<Rightarrow> default_role)
             in
             if \<not> has_at_least role min_role then deny (needs_role min_role role)
             else if er_no_force_push effective \<and> ru_kind update = NonFastForward then
               deny ''non-fast-forward update denied: no-force-push is set''
             else if er_no_delete effective \<and> ru_kind update = Delete then
               deny ''ref deletion denied: no-delete is set''
             else Some (Inr ())))"

text \<open>
  \<open>evaluate_push\<close> evaluates every update and collects the denials; a panic in one of them
  is a panic of the whole.
\<close>

fun collect_denials ::
  "ref_update list \<Rightarrow> member_role \<Rightarrow> protection_rule list \<Rightarrow> denial list option" where
  "collect_denials [] role rules = Some []"
| "collect_denials (u # us) role rules =
     (case evaluate_ref_update u role rules of
        None \<Rightarrow> None
      | Some res \<Rightarrow>
          map_option (\<lambda>ds. case res of Inl d \<Rightarrow> d # ds | Inr _ \<Rightarrow> ds) (collect_denials us role rules))"

definition evaluate_push ::
  "ref_update list \<Rightarrow> member_role \<Rightarrow> protection_rule list \<Rightarrow> (denial list + unit) option" where
  "evaluate_push updates role rules =
     (case collect_denials updates role rules of
        None \<Rightarrow> None
      | Some denials \<Rightarrow> Some (if denials = [] then Inr () else Inl denials))"

section \<open>The language of patterns\<close>

fun seg_text :: "pattern_segment \<Rightarrow> string" where
  "seg_text (Literal s) = s"
| "seg_text Wildcard = ''*''"
| "seg_text RecursiveWildcard = ''**''"

fun seg_ok :: "pattern_segment \<Rightarrow> bool" where
  "seg_ok (Literal s) = (s \<noteq> [] \<and> list_all segment_char s)"
| "seg_ok _ = True"

definition wildcards :: "pattern_segment list \<Rightarrow> nat" where
  "wildcards segs = length (filter (\<lambda>s. s = Wildcard \<or> s = RecursiveWildcard) segs)"

definition segments_ok :: "pattern_segment list \<Rightarrow> bool" where
  "segments_ok segs \<longleftrightarrow> list_all seg_ok segs \<and> RecursiveWildcard \<notin> set (butlast segs)"

lemma wildcards_simps [simp]:
  "wildcards [] = 0"
  "wildcards (Literal s # segs) = wildcards segs"
  "wildcards (Wildcard # segs) = Suc (wildcards segs)"
  "wildcards (RecursiveWildcard # segs) = Suc (wildcards segs)"
  by (simp_all add: wildcards_def)

lemma not_segment_char [simp]:
  "\<not> segment_char (CHR ''*'')" "\<not> segment_char (CHR ''?'')" "\<not> segment_char (CHR ''['')"
  "\<not> segment_char (CHR '']'')" "\<not> segment_char (CHR ''/'')"
  by (simp_all add: segment_char_def is_ascii_alphanumeric_def is_ascii_digit_def)

lemma segment_chars_plain:
  "list_all segment_char s \<Longrightarrow>
     CHR ''*'' \<notin> set s \<and> CHR ''?'' \<notin> set s \<and> CHR ''['' \<notin> set s \<and> CHR '']'' \<notin> set s \<and> CHR ''/'' \<notin> set s"
  by (auto simp: list_all_iff dest: not_segment_char [THEN notE])

lemma segments_ok_Cons:
  "segments_ok (s # segs) \<longleftrightarrow> seg_ok s \<and> segments_ok segs \<and> (s = RecursiveWildcard \<longrightarrow> segs = [])"
  by (auto simp: segments_ok_def)

lemma segments_ok_Nil [simp]: "segments_ok []"
  by (simp add: segments_ok_def)

lemma parse_segments_sound:
  "parse_segments parts segs n = Inr out \<Longrightarrow>
     \<exists>new. out = segs @ new \<and> map seg_text new = parts \<and> segments_ok new \<and>
           (wildcards new = 0 \<or> n + wildcards new \<le> MAX_WILDCARDS_PER_PATTERN)"
proof (induction parts segs n rule: parse_segments.induct)
  case (2 part rest segs n)
  from 2(4) consider (rec) "part = ''**''" "rest = []" "n + 1 \<le> MAX_WILDCARDS_PER_PATTERN"
      "out = segs @ [RecursiveWildcard]"
    | (wild) "part = ''*''" "n + 1 \<le> MAX_WILDCARDS_PER_PATTERN"
      "parse_segments rest (segs @ [Wildcard]) (n + 1) = Inr out"
    | (lit) "part \<noteq> ''**''" "part \<noteq> ''*''" "part \<noteq> []" "list_all segment_char part"
      "parse_segments rest (segs @ [Literal part]) n = Inr out"
    by (auto split: if_splits)
  then show ?case
  proof cases
    case rec
    then show ?thesis by (intro exI [of _ "[RecursiveWildcard]"]) (simp add: segments_ok_Cons)
  next
    case wild
    then obtain new where "out = (segs @ [Wildcard]) @ new" "map seg_text new = rest" "segments_ok new"
        "wildcards new = 0 \<or> n + 1 + wildcards new \<le> MAX_WILDCARDS_PER_PATTERN"
      using 2(2) by auto
    with wild show ?thesis by (intro exI [of _ "Wildcard # new"]) (auto simp: segments_ok_Cons)
  next
    case lit
    note plain = segment_chars_plain [OF lit(4)]
    from lit plain obtain new where "out = (segs @ [Literal part]) @ new" "map seg_text new = rest"
        "segments_ok new" "wildcards new = 0 \<or> n + wildcards new \<le> MAX_WILDCARDS_PER_PATTERN"
      using 2(3) by auto
    with lit show ?thesis by (intro exI [of _ "Literal part # new"]) (auto simp: segments_ok_Cons)
  qed
qed simp

lemma parse_segments_complete:
  "segments_ok new \<Longrightarrow> n + wildcards new \<le> MAX_WILDCARDS_PER_PATTERN \<Longrightarrow>
     parse_segments (map seg_text new) segs n = Inr (segs @ new)"
proof (induction new arbitrary: segs n)
  case (Cons s new)
  show ?case
  proof (cases s)
    case (Literal t)
    with Cons.prems have t: "t \<noteq> []" "list_all segment_char t" by (auto simp: segments_ok_Cons)
    note plain = segment_chars_plain [OF t(2)]
    then have "t \<noteq> ''**''" "t \<noteq> ''*''" by auto
    with Cons Literal t plain show ?thesis by (simp add: segments_ok_Cons)
  qed (use Cons in \<open>auto simp: segments_ok_Cons\<close>)
qed simp

lemma parse_segments_Inr:
  "parse_segments parts [] 0 = Inr segs \<longleftrightarrow>
     map seg_text segs = parts \<and> segments_ok segs \<and> wildcards segs \<le> MAX_WILDCARDS_PER_PATTERN"
  using parse_segments_sound [of parts "[]" 0 segs] parse_segments_complete [of segs 0 "[]"]
  by auto

definition pattern_ok :: "ref_pattern \<Rightarrow> bool" where
  "pattern_ok p \<longleftrightarrow>
     rp_raw p = join_with (CHR ''/'') (map seg_text (rp_segments p)) \<and>
     length (rp_raw p) \<le> MAX_PATTERN_LENGTH \<and>
     length (rp_segments p) \<ge> 2 \<and> hd (rp_segments p) = Literal ''refs'' \<and>
     segments_ok (rp_segments p) \<and> wildcards (rp_segments p) \<le> MAX_WILDCARDS_PER_PATTERN"

lemma seg_text_no_slash: "seg_ok s \<Longrightarrow> CHR ''/'' \<notin> set (seg_text s)"
  by (cases s) (auto dest: segment_chars_plain)

lemma split_segments:
  "segments_ok segs \<Longrightarrow> segs \<noteq> [] \<Longrightarrow>
     split_on (CHR ''/'') (join_with (CHR ''/'') (map seg_text segs)) = map seg_text segs"
  by (rule split_join) (auto simp: segments_ok_def list_all_iff dest: seg_text_no_slash)

lemma starts_with_refs:
  "starts_with (join_with (CHR ''/'') ws) ''refs/'' \<longleftrightarrow> length ws \<ge> 2 \<and> hd ws = ''refs''"
  if "\<And>w. w \<in> set ws \<Longrightarrow> CHR ''/'' \<notin> set w"
proof
  assume "starts_with (join_with (CHR ''/'') ws) ''refs/''"
  then obtain r where r: "join_with (CHR ''/'') ws = ''refs'' @ CHR ''/'' # r"
    by (auto simp: starts_with_iff)
  then have "ws \<noteq> []" by auto
  with that have "ws = split_on (CHR ''/'') (join_with (CHR ''/'') ws)" by (simp add: split_join)
  also have "\<dots> = ''refs'' # split_on (CHR ''/'') r"
    unfolding r by (rule split_on_append) simp
  finally show "length ws \<ge> 2 \<and> hd ws = ''refs''"
    by (cases "split_on (CHR ''/'') r") auto
next
  assume "length ws \<ge> 2 \<and> hd ws = ''refs''"
  then obtain v vs where "ws = ''refs'' # v # vs"
    by (cases ws; cases "tl ws") auto
  then show "starts_with (join_with (CHR ''/'') ws) ''refs/''" by (simp add: starts_with_def)
qed

lemma seg_text_refs: "segments_ok (s # segs) \<Longrightarrow> seg_text s = ''refs'' \<longleftrightarrow> s = Literal ''refs''"
  by (cases s) auto

lemma ref_pattern_parse_Inr: "ref_pattern_parse s = Inr p \<longleftrightarrow> rp_raw p = s \<and> pattern_ok p"
proof -
  let ?segs = "rp_segments p"
  have refs: "starts_with (join_with (CHR ''/'') (map seg_text ?segs)) ''refs/'' \<longleftrightarrow>
      length ?segs \<ge> 2 \<and> hd ?segs = Literal ''refs''" if "segments_ok ?segs"
  proof -
    have "starts_with (join_with (CHR ''/'') (map seg_text ?segs)) ''refs/'' \<longleftrightarrow>
        length (map seg_text ?segs) \<ge> 2 \<and> hd (map seg_text ?segs) = ''refs''"
      by (rule starts_with_refs)
        (use that in \<open>auto simp: segments_ok_def list_all_iff dest: seg_text_no_slash\<close>)
    then show ?thesis using that by (cases ?segs) (auto simp: seg_text_refs)
  qed
  have parse: "ref_pattern_parse s = Inr p \<longleftrightarrow>
      rp_raw p = s \<and> length s \<le> MAX_PATTERN_LENGTH \<and> starts_with s ''refs/'' \<and>
      parse_segments (split_on (CHR ''/'') s) [] 0 = Inr ?segs"
    by (cases p) (auto simp: ref_pattern_parse_def starts_with_def split: sum.splits)
  show ?thesis
  proof
    assume "ref_pattern_parse s = Inr p"
    then have p: "rp_raw p = s" "length s \<le> MAX_PATTERN_LENGTH" "starts_with s ''refs/''"
      and segs: "map seg_text ?segs = split_on (CHR ''/'') s" "segments_ok ?segs"
        "wildcards ?segs \<le> MAX_WILDCARDS_PER_PATTERN"
      by (auto simp: parse parse_segments_Inr)
    then have "join_with (CHR ''/'') (map seg_text ?segs) = s" by simp
    with p segs refs show "rp_raw p = s \<and> pattern_ok p" by (simp add: pattern_ok_def)
  next
    assume ok: "rp_raw p = s \<and> pattern_ok p"
    then have "?segs \<noteq> []" by (auto simp: pattern_ok_def)
    with ok refs split_segments [of ?segs] show "ref_pattern_parse s = Inr p"
      by (auto simp: parse parse_segments_Inr pattern_ok_def)
  qed
qed

section \<open>Matching\<close>

fun glob :: "pattern_segment list \<Rightarrow> string list \<Rightarrow> bool" where
  "glob [] [] = True"
| "glob [RecursiveWildcard] (r # rs) = True"
| "glob (Literal l # ps) (r # rs) = (l = r \<and> glob ps rs)"
| "glob (Wildcard # ps) (r # rs) = glob ps rs"
| "glob _ _ = False"

lemma all_segments_glob:
  "RecursiveWildcard \<notin> set ps \<Longrightarrow> length ps = length rs \<Longrightarrow>
     all_segments (zip ps rs) = Some (glob ps rs)"
  by (induction ps rs rule: list_induct2') (auto split: pattern_segment.split)

lemma glob_length: "RecursiveWildcard \<notin> set ps \<Longrightarrow> glob ps rs \<Longrightarrow> length ps = length rs"
  by (induction ps rs rule: glob.induct) auto

lemma glob_recursive:
  "RecursiveWildcard \<notin> set ps \<Longrightarrow>
     glob (ps @ [RecursiveWildcard]) rs \<longleftrightarrow>
       length ps < length rs \<and> glob ps (take (length ps) rs)"
proof (induction ps arbitrary: rs)
  case Nil
  then show ?case by (cases rs) auto
next
  case (Cons p ps)
  then show ?case by (cases rs; cases p) auto
qed

lemma matches_glob:
  assumes "segments_ok (rp_segments p)"
  shows "ref_pattern_matches p r = Some (glob (rp_segments p) (split_on (CHR ''/'') r))"
proof (cases "rp_segments p" rule: rev_cases)
  case Nil
  then show ?thesis by (cases "split_on (CHR ''/'') r") (auto simp: ref_pattern_matches_def)
next
  case (snoc ps s)
  with assms have ps: "RecursiveWildcard \<notin> set ps" by (simp add: segments_ok_def)
  let ?rs = "split_on (CHR ''/'') r"
  show ?thesis
  proof (cases "s = RecursiveWildcard")
    case True
    with snoc ps show ?thesis
      by (auto simp: ref_pattern_matches_def Let_def glob_recursive all_segments_glob)
  next
    case False
    with ps have "RecursiveWildcard \<notin> set (ps @ [s])" by simp
    with False snoc show ?thesis
      using all_segments_glob [of "ps @ [s]" ?rs] glob_length [of "ps @ [s]" ?rs]
      by (auto simp: ref_pattern_matches_def Let_def)
  qed
qed

section \<open>Policy\<close>

definition rule_ok :: "protection_rule \<Rightarrow> bool" where
  "rule_ok r \<longleftrightarrow> pattern_ok (pr_pattern r) \<and> pr_push_role r \<noteq> Some Bot \<and> pr_push_role r \<noteq> Some Guest"

text \<open>The rules of a repository that apply to a ref.\<close>

definition applicable :: "string \<Rightarrow> protection_rule list \<Rightarrow> protection_rule list" where
  "applicable ref_name rules =
     filter (\<lambda>r. glob (rp_segments (pr_pattern r)) (split_on (CHR ''/'') ref_name)) rules"

lemma rule_ok_matches:
  "rule_ok r \<Longrightarrow> ref_pattern_matches (pr_pattern r) ref_name =
     Some (glob (rp_segments (pr_pattern r)) (split_on (CHR ''/'') ref_name))"
  by (simp add: rule_ok_def pattern_ok_def matches_glob)

lemma fold_union_rule:
  "list_all rule_ok rules \<Longrightarrow>
   fold (union_rule ref_name) rules (Some e) =
     (let rs = applicable ref_name rules in
      Some \<lparr>er_push_role = fold (strictest permission_level) (List.map_filter pr_push_role rs) (er_push_role e),
            er_no_force_push = (er_no_force_push e \<or> list_ex pr_no_force_push rs),
            er_no_delete = (er_no_delete e \<or> list_ex pr_no_delete rs),
            er_require_patch = (er_require_patch e \<or> list_ex pr_require_patch rs),
            er_has_explicit_match = (er_has_explicit_match e \<or> rs \<noteq> [])\<rparr>)"
proof (induction rules arbitrary: e)
  case Nil
  then show ?case by (cases e) (simp add: applicable_def map_filter_simps)
next
  case (Cons r rules)
  then show ?case
    by (cases "glob (rp_segments (pr_pattern r)) (split_on (CHR ''/'') ref_name)"; cases "pr_push_role r")
      (simp_all add: union_rule_def rule_ok_matches applicable_def map_filter_simps Let_def disj_assoc)
qed

definition rule_admits :: "ref_update \<Rightarrow> member_role \<Rightarrow> protection_rule \<Rightarrow> bool" where
  "rule_admits u role r \<longleftrightarrow>
     \<not> pr_require_patch r \<and>
     (case pr_push_role r of None \<Rightarrow> True | Some q \<Rightarrow> has_at_least role q) \<and>
     \<not> (pr_no_force_push r \<and> ru_kind u = NonFastForward) \<and>
     \<not> (pr_no_delete r \<and> ru_kind u = Delete)"

definition update_allowed :: "ref_update \<Rightarrow> member_role \<Rightarrow> protection_rule list \<Rightarrow> bool" where
  "update_allowed u role rules \<longleftrightarrow>
     has_at_least role (default_min_role (ru_ref_name u) (ru_kind u)) \<and>
     list_all (rule_admits u role) (applicable (ru_ref_name u) rules)"

lemma list_all_admits:
  "list_all (rule_admits u role) rs \<longleftrightarrow>
     \<not> list_ex pr_require_patch rs \<and>
     (case fold (strictest permission_level) (List.map_filter pr_push_role rs) None of
        None \<Rightarrow> True | Some q \<Rightarrow> has_at_least role q) \<and>
     \<not> (list_ex pr_no_force_push rs \<and> ru_kind u = NonFastForward) \<and>
     \<not> (list_ex pr_no_delete rs \<and> ru_kind u = Delete)"
  unfolding role.meets_fold_strictest
  by (induction rs) (auto simp: rule_admits_def map_filter_simps split: option.splits)

lemma meets_max:
  "has_at_least role (if permission_level p \<ge> permission_level q then p else q) \<longleftrightarrow>
     has_at_least role p \<and> has_at_least role q"
  by (simp add: stricter_role_max has_at_least_iff)

lemma evaluate_ref_update_total:
  assumes "list_all rule_ok rules"
  shows "\<exists>res. evaluate_ref_update u role rules = Some res \<and>
    (isl res \<longrightarrow> dn_ref_name (projl res) = ru_ref_name u) \<and>
    (res = Inr () \<longleftrightarrow> update_allowed u role rules)"
proof -
  let ?rs = "applicable (ru_ref_name u) rules"
  let ?q = "fold (strictest permission_level) (List.map_filter pr_push_role ?rs) None"
  have e: "effective_rules_for_ref (ru_ref_name u) rules =
      Some \<lparr>er_push_role = ?q, er_no_force_push = list_ex pr_no_force_push ?rs,
            er_no_delete = list_ex pr_no_delete ?rs,
            er_require_patch = list_ex pr_require_patch ?rs,
            er_has_explicit_match = (?rs \<noteq> [])\<rparr>"
    using assms by (simp add: effective_rules_for_ref_def fold_union_rule no_rules_def Let_def)
  show ?thesis
  proof (cases "?rs = []")
    case True
    then show ?thesis by (simp add: evaluate_ref_update_def e update_allowed_def Let_def)
  next
    case False
    show ?thesis
      unfolding update_allowed_def list_all_admits evaluate_ref_update_def e
      using False by (cases ?q) (auto simp: Let_def meets_max)
  qed
qed

lemma evaluate_ref_update_allowed:
  assumes "list_all rule_ok rules"
  shows "evaluate_ref_update u role rules = Some (Inr ()) \<longleftrightarrow> update_allowed u role rules"
  using evaluate_ref_update_total [OF assms, of u role] by auto

lemma evaluate_ref_update_denied:
  assumes "list_all rule_ok rules" and "\<not> update_allowed u role rules"
  shows "\<exists>d. evaluate_ref_update u role rules = Some (Inl d) \<and> dn_ref_name d = ru_ref_name u"
proof -
  obtain res where res: "evaluate_ref_update u role rules = Some res"
      "isl res \<longrightarrow> dn_ref_name (projl res) = ru_ref_name u" "res \<noteq> Inr ()"
    using evaluate_ref_update_total [OF assms(1), of u role] assms(2) by auto
  then show ?thesis by (cases res) auto
qed

lemma collect_denials_total:
  assumes "list_all rule_ok rules"
  shows "\<exists>ds. collect_denials us role rules = Some ds \<and>
    map dn_ref_name ds = map ru_ref_name (filter (\<lambda>u. \<not> update_allowed u role rules) us)"
proof (induction us)
  case (Cons u us)
  then show ?case
    using evaluate_ref_update_allowed [OF assms, of u role]
      evaluate_ref_update_denied [OF assms, of u role]
    by (cases "update_allowed u role rules") auto
qed simp

lemma evaluate_push_total:
  assumes "list_all rule_ok rules"
  shows "evaluate_push us role rules = Some (Inr ()) \<longleftrightarrow> list_all (\<lambda>u. update_allowed u role rules) us"
    and "\<exists>res. evaluate_push us role rules = Some res \<and>
      (isl res \<longrightarrow> map dn_ref_name (projl res) =
        map ru_ref_name (filter (\<lambda>u. \<not> update_allowed u role rules) us))"
proof -
  obtain ds where ds: "collect_denials us role rules = Some ds"
      "map dn_ref_name ds = map ru_ref_name (filter (\<lambda>u. \<not> update_allowed u role rules) us)"
    using collect_denials_total [OF assms] by blast
  have "ds = [] \<longleftrightarrow> filter (\<lambda>u. \<not> update_allowed u role rules) us = []"
    using ds(2) by (metis map_is_Nil_conv)
  with ds show "evaluate_push us role rules = Some (Inr ()) \<longleftrightarrow>
      list_all (\<lambda>u. update_allowed u role rules) us"
    by (auto simp: evaluate_push_def list_all_iff filter_empty_conv)
  from ds show "\<exists>res. evaluate_push us role rules = Some res \<and>
      (isl res \<longrightarrow> map dn_ref_name (projl res) =
        map ru_ref_name (filter (\<lambda>u. \<not> update_allowed u role rules) us))"
    by (simp add: evaluate_push_def)
qed

lemma update_allowed_rules_antimono:
  "set rules \<subseteq> set rules' \<Longrightarrow> update_allowed u role rules' \<Longrightarrow> update_allowed u role rules"
  by (auto simp: update_allowed_def applicable_def list_all_iff)

lemma update_allowed_role_mono:
  "has_at_least role' role \<Longrightarrow> update_allowed u role rules \<Longrightarrow> update_allowed u role' rules"
  by (auto simp: update_allowed_def list_all_iff rule_admits_def split: option.splits
      dest: role.meets_trans)

section \<open>Protection tags\<close>

definition push_role_of :: "string \<Rightarrow> member_role option" where
  "push_role_of s =
     (case strip_prefix ''push:'' s of
        None \<Rightarrow> None
      | Some t \<Rightarrow> (case role_from_str id t of Inl _ \<Rightarrow> None | Inr q \<Rightarrow> Some q))"

text \<open>A \<open>push:\<close> rule that names no role, or one that cannot be required.\<close>

definition bad_push :: "string \<Rightarrow> bool" where
  "bad_push s \<longleftrightarrow> starts_with s ''push:'' \<and> push_role_of s \<notin> {Some Owner, Some Admin, Some Member}"

definition unknown_rule :: "string \<Rightarrow> bool" where
  "unknown_rule s \<longleftrightarrow>
     \<not> starts_with s ''push:'' \<and> s \<notin> {''no-force-push'', ''no-delete'', ''require-patch''}"

lemma parse_rules_eq:
  "parse_rules strs r unknown =
     (case find bad_push strs of
        Some s \<Rightarrow> Inl (InvalidRole (drop 5 s))
      | None \<Rightarrow>
          Inr (\<lparr>pr_pattern = pr_pattern r,
                pr_push_role =
                  fold (strictest permission_level) (List.map_filter push_role_of strs) (pr_push_role r),
                pr_no_force_push = (pr_no_force_push r \<or> ''no-force-push'' \<in> set strs),
                pr_no_delete = (pr_no_delete r \<or> ''no-delete'' \<in> set strs),
                pr_require_patch = (pr_require_patch r \<or> ''require-patch'' \<in> set strs)\<rparr>,
               unknown @ filter unknown_rule strs))"
proof (induction strs arbitrary: r unknown)
  case Nil
  then show ?case by (cases r) (simp add: map_filter_simps)
next
  case (Cons s rest)
  show ?case
  proof (cases "strip_prefix ''push:'' s")
    case (Some t)
    then have s: "s = ''push:'' @ t" by (simp add: strip_prefix_Some)
    have known: "\<not> unknown_rule s" "s \<notin> {''no-force-push'', ''no-delete'', ''require-patch''}"
      by (auto simp: s unknown_rule_def starts_with_def)
    have drop: "drop 5 s = t" by (simp add: s)
    show ?thesis
    proof (cases "role_from_str id t")
      case (Inl e)
      with Some show ?thesis by (simp add: bad_push_def push_role_of_def s starts_with_def)
    next
      case (Inr q)
      then have bad: "bad_push s \<longleftrightarrow> q = Bot \<or> q = Guest" and q: "push_role_of s = Some q"
        using Some by (cases q; simp add: bad_push_def push_role_of_def s starts_with_def)+
      show ?thesis
        using known by (cases "find bad_push rest")
          (auto simp: Some Inr Cons.IH drop bad q map_filter_simps)
    qed
  next
    case None
    then have "\<not> starts_with s ''push:''" "push_role_of s = None" "\<not> bad_push s"
      by (auto simp: strip_prefix_def push_role_of_def bad_push_def split: if_splits)
    then show ?thesis
      by (cases "find bad_push rest") (auto simp: None Cons.IH map_filter_simps unknown_rule_def)
  qed
qed

lemma push_role_not_bad:
  "find bad_push strs = None \<Longrightarrow> q \<in> set (List.map_filter push_role_of strs) \<Longrightarrow> q \<noteq> Bot \<and> q \<noteq> Guest"
proof -
  assume "find bad_push strs = None" and "q \<in> set (List.map_filter push_role_of strs)"
  then obtain s where "push_role_of s = Some q" "\<not> bad_push s"
    by (auto simp: find_None_iff map_filter_def)
  then show ?thesis
    by (auto simp: bad_push_def push_role_of_def strip_prefix_def split: option.splits if_splits)
qed

lemma parse_protection_tag_ok:
  assumes "parse_protection_tag_with_warnings values = Inr (r, unknowns)"
  shows "rule_ok r \<and> ref_pattern_as_str (pr_pattern r) = hd values"
proof -
  from assms obtain pat r1 rs p where v: "values = pat # r1 # rs" "ref_pattern_parse pat = Inr p"
    and f: "find bad_push (r1 # rs) = None" and r: "pr_pattern r = p"
      "pr_push_role r = fold (strictest permission_level) (List.map_filter push_role_of (r1 # rs)) None"
    by (auto simp: parse_protection_tag_with_warnings_def parse_rules_eq
        simp del: find.simps parse_rules.simps split: list.splits sum.splits option.splits)
  have "q \<noteq> Bot \<and> q \<noteq> Guest" if "pr_push_role r = Some q" for q
    using role.fold_strictest_mem [of "List.map_filter push_role_of (r1 # rs)" None q]
      push_role_not_bad [OF f, of q] that r(2) by auto
  with v r show ?thesis
    by (auto simp: rule_ok_def ref_pattern_parse_Inr ref_pattern_as_str_def)
qed

definition protect_tags :: "string list list \<Rightarrow> string list list" where
  "protect_tags tags = filter (\<lambda>t. t \<noteq> [] \<and> hd t = ''buzz-protect'') tags"

lemma protect_tags_simps [simp]:
  "protect_tags [] = []"
  "protect_tags ([] # tags) = protect_tags tags"
  "protect_tags ((n # vs) # tags) =
     (if n = ''buzz-protect'' then (n # vs) # protect_tags tags else protect_tags tags)"
  by (auto simp: protect_tags_def)

lemma parse_tags_loop_Inr:
  "parse_tags_loop tags rules unknown = Inr pp \<Longrightarrow> length rules \<le> MAX_PROTECTION_RULES \<Longrightarrow>
     length rules + length (protect_tags tags) \<le> MAX_PROTECTION_RULES \<and>
     (\<exists>ps. map (\<lambda>t. parse_protection_tag_with_warnings (tl t)) (protect_tags tags) = map Inr ps \<and>
        pp = \<lparr>pp_rules = rules @ map fst ps, pp_unknown_rules = unknown @ concat (map snd ps)\<rparr>)"
proof (induction tags rules unknown rule: parse_tags_loop.induct)
  case (2 tag tags rules unknown)
  show ?case
  proof (cases tag)
    case Nil
    with 2 show ?thesis by auto
  next
    case (Cons n vs)
    show ?thesis
    proof (cases "n = ''buzz-protect''")
      case False
      with 2 Cons show ?thesis by auto
    next
      case True
      with 2(4) Cons obtain r us where r: "length rules < MAX_PROTECTION_RULES"
          "parse_protection_tag_with_warnings vs = Inr (r, us)"
          "parse_tags_loop tags (rules @ [r]) (unknown @ us) = Inr pp"
        by (auto split: if_splits sum.splits)
      from 2(3) [of n vs _ r us] True Cons r obtain ps where
          "length (rules @ [r]) + length (protect_tags tags) \<le> MAX_PROTECTION_RULES"
          "map (\<lambda>t. parse_protection_tag_with_warnings (tl t)) (protect_tags tags) = map Inr ps"
          "pp = \<lparr>pp_rules = (rules @ [r]) @ map fst ps,
                 pp_unknown_rules = (unknown @ us) @ concat (map snd ps)\<rparr>"
        by auto
      with True Cons r show ?thesis by (intro conjI exI [of _ "(r, us) # ps"]) auto
    qed
  qed
qed simp

lemma parse_tags_loop_complete:
  "length rules + length (protect_tags tags) \<le> MAX_PROTECTION_RULES \<Longrightarrow>
   map (\<lambda>t. parse_protection_tag_with_warnings (tl t)) (protect_tags tags) = map Inr ps \<Longrightarrow>
   parse_tags_loop tags rules unknown =
     Inr \<lparr>pp_rules = rules @ map fst ps, pp_unknown_rules = unknown @ concat (map snd ps)\<rparr>"
proof (induction tags arbitrary: rules unknown ps)
  case (Cons tag tags)
  show ?case
  proof (cases "tag \<noteq> [] \<and> hd tag = ''buzz-protect''")
    case True
    then obtain vs where tag: "tag = ''buzz-protect'' # vs" by (cases tag) auto
    with Cons.prems(2) obtain p ps' where "ps = p # ps'" "parse_protection_tag_with_warnings vs = Inr p"
        "map (\<lambda>t. parse_protection_tag_with_warnings (tl t)) (protect_tags tags) = map Inr ps'"
      by (cases ps) auto
    with Cons.prems(1) Cons.IH tag show ?thesis by (cases p) auto
  next
    case False
    with Cons show ?thesis by (cases tag) auto
  qed
qed simp

lemma parse_protection_tags_Inr:
  "parse_protection_tags tags = Inr pp \<longleftrightarrow>
     length (protect_tags tags) \<le> MAX_PROTECTION_RULES \<and>
     (\<exists>ps. map (\<lambda>t. parse_protection_tag_with_warnings (tl t)) (protect_tags tags) = map Inr ps \<and>
        pp = \<lparr>pp_rules = map fst ps, pp_unknown_rules = concat (map snd ps)\<rparr>)"
  unfolding parse_protection_tags_def
  using parse_tags_loop_Inr [of tags "[]" "[]" pp] parse_tags_loop_complete [of "[]" tags _ "[]"]
  by auto

lemma parsed_tags_ok:
  assumes "map (\<lambda>t. parse_protection_tag_with_warnings (tl t)) ts = map Inr ps"
  shows "list_all (\<lambda>p. rule_ok (fst p)) ps"
proof -
  have "rule_ok (fst p)" if "p \<in> set ps" for p
  proof -
    from that have "Inr p \<in> set (map Inr ps)" by simp
    then have "Inr p \<in> set (map (\<lambda>t. parse_protection_tag_with_warnings (tl t)) ts)"
      by (simp only: assms)
    then obtain t where "parse_protection_tag_with_warnings (tl t) = Inr p" by auto
    then show ?thesis using parse_protection_tag_ok [of "tl t" "fst p" "snd p"] by simp
  qed
  then show ?thesis by (simp add: list_all_iff)
qed

lemma parsed_rules_ok: "parse_protection_tags tags = Inr pp \<Longrightarrow> list_all rule_ok (pp_rules pp)"
  unfolding parse_protection_tags_Inr using parsed_tags_ok by (fastforce simp: list_all_iff)

section \<open>Properties\<close>

text \<open>
  Ref patterns are parsed exactly: a text is accepted precisely when it is the printed
  form of a well-formed pattern, at most 256 bytes of \<open>/\<close>-separated segments that start
  with \<open>refs\<close>, each a non-empty name of the allowed characters, \<open>*\<close> or \<open>**\<close>, with at most
  three wildcards and \<open>**\<close> in last position only; and the pattern read back is that one.
\<close>

lemma ref_pattern_parse_exact:
  "(ref_pattern_parse s = Inr p) = (ref_pattern_as_str p = s \<and> pattern_ok p)"
  by (simp add: ref_pattern_parse_Inr ref_pattern_as_str_def)

text \<open>
  Matching a parsed pattern never reaches the \<open>unreachable!()\<close> arm, and answers the
  segment-wise match: a name matches itself, \<open>*\<close> exactly one segment, a final \<open>**\<close> one or
  more segments.
\<close>

lemma parsed_pattern_matches:
  "ref_pattern_parse s = Inr p \<Longrightarrow>
     ref_pattern_matches p ref_name = Some (glob (rp_segments p) (split_on (CHR ''/'') ref_name))"
  by (simp add: ref_pattern_parse_Inr pattern_ok_def matches_glob)

definition demo_pattern :: ref_pattern where
  "demo_pattern =
     \<lparr>rp_raw = ''refs/heads/*/rel/**'',
      rp_segments = [Literal ''refs'', Literal ''heads'', Wildcard, Literal ''rel'', RecursiveWildcard]\<rparr>"

lemma parsed_pattern_matches_instance:
  "ref_pattern_parse ''refs/heads/*/rel/**'' = Inr demo_pattern \<and>
   ref_pattern_matches demo_pattern ''refs/heads/team/rel/v1/rc2'' = Some True \<and>
   ref_pattern_matches demo_pattern ''refs/heads/team/rel'' = Some False"
proof -
  have p: "ref_pattern_parse ''refs/heads/*/rel/**'' = Inr demo_pattern" by code_simp
  have "glob (rp_segments demo_pattern) (split_on (CHR ''/'') ''refs/heads/team/rel/v1/rc2'')"
    and "\<not> glob (rp_segments demo_pattern) (split_on (CHR ''/'') ''refs/heads/team/rel'')"
    by code_simp+
  with p parsed_pattern_matches [OF p] show ?thesis by simp
qed

text \<open>
  Reading the protection tags of a repository: it succeeds exactly when there are at
  most 50 \<open>buzz-protect\<close> tags and every one of them parses; the rules are then the parsed
  tags, one each and in order, and the warnings are theirs. Every rule has a well-formed
  pattern and never requires a bot or guest role.
\<close>

lemma protection_tags_exact:
  "(parse_protection_tags tags = Inr pp) =
     (length (protect_tags tags) \<le> MAX_PROTECTION_RULES \<and>
      (\<exists>ps. map (\<lambda>t. parse_protection_tag_with_warnings (tl t)) (protect_tags tags) = map Inr ps \<and>
         list_all (\<lambda>p. rule_ok (fst p)) ps \<and>
         pp = \<lparr>pp_rules = map fst ps, pp_unknown_rules = concat (map snd ps)\<rparr>))"
  unfolding parse_protection_tags_Inr using parsed_tags_ok by blast

text \<open>
  C12. A push against the parsed rules of a repository is decided without a panic and
  atomically: it is accepted exactly when every ref update is allowed, that is, the pusher
  has the built-in minimum role and meets every rule that applies to the ref; otherwise
  the denials name exactly the refs that are not allowed, in order.
\<close>

theorem evaluate_push_exact:
  assumes "parse_protection_tags tags = Inr pp"
  shows "\<exists>ds. evaluate_push updates role (pp_rules pp) = Some (if ds = [] then Inr () else Inl ds) \<and>
    map dn_ref_name ds =
      map ru_ref_name (filter (\<lambda>u. \<not> update_allowed u role (pp_rules pp)) updates)"
proof -
  obtain ds where "collect_denials updates role (pp_rules pp) = Some ds"
      "map dn_ref_name ds =
        map ru_ref_name (filter (\<lambda>u. \<not> update_allowed u role (pp_rules pp)) updates)"
    using collect_denials_total [OF parsed_rules_ok [OF assms]] by blast
  then show ?thesis by (intro exI [of _ ds]) (simp add: evaluate_push_def)
qed

definition demo_tags :: "string list list" where
  "demo_tags =
     [[''name'', ''demo''],
      [''buzz-protect'', ''refs/heads/main'', ''push:admin'', ''no-force-push'', ''signed''],
      [''buzz-protect'', ''refs/tags/**'', ''no-delete'']]"

definition demo_protection :: parsed_protection where
  "demo_protection =
     \<lparr>pp_rules =
        [\<lparr>pr_pattern = \<lparr>rp_raw = ''refs/heads/main'',
            rp_segments = [Literal ''refs'', Literal ''heads'', Literal ''main'']\<rparr>,
          pr_push_role = Some Admin, pr_no_force_push = True, pr_no_delete = False,
          pr_require_patch = False\<rparr>,
         \<lparr>pr_pattern = \<lparr>rp_raw = ''refs/tags/**'',
            rp_segments = [Literal ''refs'', Literal ''tags'', RecursiveWildcard]\<rparr>,
          pr_push_role = None, pr_no_force_push = False, pr_no_delete = True,
          pr_require_patch = False\<rparr>],
      pp_unknown_rules = [''signed'']\<rparr>"

definition demo_update :: "string \<Rightarrow> update_kind \<Rightarrow> ref_update" where
  "demo_update ref_name kind =
     \<lparr>ru_ref_name = ref_name, ru_kind = kind, ru_old_oid = [], ru_new_oid = []\<rparr>"

lemma demo_protection_parsed: "parse_protection_tags demo_tags = Inr demo_protection"
  by code_simp

theorem evaluate_push_exact_witness:
  "evaluate_push [demo_update ''refs/heads/dev'' FastForward, demo_update ''refs/heads/main'' FastForward]
     Admin (pp_rules demo_protection) = Some (Inr ()) \<and>
   (\<exists>d. evaluate_push
          [demo_update ''refs/heads/dev'' FastForward, demo_update ''refs/heads/main'' FastForward]
          Member (pp_rules demo_protection) = Some (Inl [d]) \<and>
        dn_ref_name d = ''refs/heads/main'')"
proof -
  let ?us = "[demo_update ''refs/heads/dev'' FastForward, demo_update ''refs/heads/main'' FastForward]"
  have f1: "map ru_ref_name (filter (\<lambda>u. \<not> update_allowed u Admin (pp_rules demo_protection)) ?us) = []"
    by code_simp
  have f2: "map ru_ref_name (filter (\<lambda>u. \<not> update_allowed u Member (pp_rules demo_protection)) ?us) =
      [''refs/heads/main'']"
    by code_simp
  from evaluate_push_exact [OF demo_protection_parsed, of ?us Admin]
  have "evaluate_push ?us Admin (pp_rules demo_protection) = Some (Inr ())"
    unfolding f1 by (elim exE conjE) (simp only: map_is_Nil_conv simp_thms if_True)
  moreover from evaluate_push_exact [OF demo_protection_parsed, of ?us Member]
  obtain ds where ds: "evaluate_push ?us Member (pp_rules demo_protection) =
      Some (if ds = [] then Inr () else Inl ds)" "map dn_ref_name ds = [''refs/heads/main'']"
    unfolding f2 by (elim exE conjE) (rule that)
  from ds(2) obtain d where "ds = [d]" "dn_ref_name d = ''refs/heads/main''" by auto
  with ds(1) have "\<exists>d. evaluate_push ?us Member (pp_rules demo_protection) = Some (Inl [d]) \<and>
      dn_ref_name d = ''refs/heads/main''" by simp
  ultimately show ?thesis by blast
qed

text \<open>
  Protection is monotone: an update that is accepted stays accepted for a higher role
  and for a repository with a part of the rules, so that a rule can only take permissions
  away, and no rule grants a push below the built-in minimum role.
\<close>

lemma push_monotone:
  assumes "parse_protection_tags tags = Inr pp" and "parse_protection_tags tags' = Inr pp'"
    and "set (pp_rules pp) \<subseteq> set (pp_rules pp')" and "has_at_least role' role"
    and "evaluate_ref_update u role (pp_rules pp') = Some (Inr ())"
  shows "evaluate_ref_update u role' (pp_rules pp) = Some (Inr ()) \<and>
    has_at_least role (default_min_role (ru_ref_name u) (ru_kind u))"
proof -
  note ok = parsed_rules_ok [OF assms(1)] parsed_rules_ok [OF assms(2)]
  have "update_allowed u role (pp_rules pp')"
    using assms(5) ok by (simp add: evaluate_ref_update_allowed)
  moreover from this have "update_allowed u role' (pp_rules pp)"
    using assms(3,4) update_allowed_rules_antimono update_allowed_role_mono by blast
  ultimately show ?thesis using ok by (simp add: evaluate_ref_update_allowed update_allowed_def)
qed

lemma push_monotone_instance:
  "evaluate_ref_update (demo_update ''refs/tags/v1'' Create) Member (pp_rules demo_protection) = Some (Inr ()) \<and>
   evaluate_ref_update (demo_update ''refs/tags/v1'' Create) Owner
     (pp_rules \<lparr>pp_rules = [], pp_unknown_rules = []\<rparr>) = Some (Inr ())"
proof -
  have e: "parse_protection_tags [] = Inr \<lparr>pp_rules = [], pp_unknown_rules = []\<rparr>" by code_simp
  have "has_at_least Owner Member" by code_simp
  moreover have u: "evaluate_ref_update (demo_update ''refs/tags/v1'' Create) Member
      (pp_rules demo_protection) = Some (Inr ())" by code_simp
  ultimately show ?thesis
    using push_monotone [OF e demo_protection_parsed, of Owner Member "demo_update ''refs/tags/v1'' Create"]
    by simp
qed

end
