(* ===== verification/Auth_Scopes.thy ===== *)
theory Auth_Scopes
  imports Pkzz_Prelude
begin

text \<open>
  Authorization scopes, crates/buzz-auth/src/scope.rs: the known scopes, their wire texts,
  the infallible parser that keeps unknown texts, and the two predefined scope sets.
\<close>

datatype scope =
    MessagesRead | MessagesWrite | ChannelsRead | ChannelsWrite | AdminChannels
  | UsersRead | UsersWrite | AdminUsers | JobsRead | JobsWrite
  | SubscriptionsRead | SubscriptionsWrite | FilesRead | FilesWrite
  | ReposRead | ReposWrite
  | Unknown string

definition all_known :: "scope list" where
  "all_known =
     [MessagesRead, MessagesWrite, ChannelsRead, ChannelsWrite, AdminChannels,
      UsersRead, UsersWrite, AdminUsers, JobsRead, JobsWrite,
      SubscriptionsRead, SubscriptionsWrite, FilesRead, FilesWrite, ReposRead, ReposWrite]"

definition all_non_admin :: "scope list" where
  "all_non_admin =
     [MessagesRead, MessagesWrite, ChannelsRead, ChannelsWrite,
      UsersRead, UsersWrite, JobsRead, JobsWrite,
      SubscriptionsRead, SubscriptionsWrite, FilesRead, FilesWrite, ReposRead, ReposWrite]"

fun scope_as_str :: "scope \<Rightarrow> string" where
  "scope_as_str MessagesRead = ''messages:read''"
| "scope_as_str MessagesWrite = ''messages:write''"
| "scope_as_str ChannelsRead = ''channels:read''"
| "scope_as_str ChannelsWrite = ''channels:write''"
| "scope_as_str AdminChannels = ''admin:channels''"
| "scope_as_str UsersRead = ''users:read''"
| "scope_as_str UsersWrite = ''users:write''"
| "scope_as_str AdminUsers = ''admin:users''"
| "scope_as_str JobsRead = ''jobs:read''"
| "scope_as_str JobsWrite = ''jobs:write''"
| "scope_as_str SubscriptionsRead = ''subscriptions:read''"
| "scope_as_str SubscriptionsWrite = ''subscriptions:write''"
| "scope_as_str FilesRead = ''files:read''"
| "scope_as_str FilesWrite = ''files:write''"
| "scope_as_str ReposRead = ''repos:read''"
| "scope_as_str ReposWrite = ''repos:write''"
| "scope_as_str (Unknown s) = s"

definition scope_from_str :: "string \<Rightarrow> scope" where
  "scope_from_str s =
     (if s = ''messages:read'' then MessagesRead
      else if s = ''messages:write'' then MessagesWrite
      else if s = ''channels:read'' then ChannelsRead
      else if s = ''channels:write'' then ChannelsWrite
      else if s = ''admin:channels'' then AdminChannels
      else if s = ''users:read'' then UsersRead
      else if s = ''users:write'' then UsersWrite
      else if s = ''admin:users'' then AdminUsers
      else if s = ''jobs:read'' then JobsRead
      else if s = ''jobs:write'' then JobsWrite
      else if s = ''subscriptions:read'' then SubscriptionsRead
      else if s = ''subscriptions:write'' then SubscriptionsWrite
      else if s = ''files:read'' then FilesRead
      else if s = ''files:write'' then FilesWrite
      else if s = ''repos:read'' then ReposRead
      else if s = ''repos:write'' then ReposWrite
      else Unknown s)"

definition parse_scopes :: "string list \<Rightarrow> scope list" where
  "parse_scopes raw = map scope_from_str raw"

lemma scope_print_parse: "scope_as_str (scope_from_str s) = s"
  by (simp add: scope_from_str_def)

lemma scope_parse_print: "c \<in> set all_known \<Longrightarrow> scope_from_str (scope_as_str c) = c"
  by (auto simp: all_known_def scope_from_str_def)

text \<open>
  Scope texts survive parsing, the unknown ones included; parsing is injective, so no
  two texts are confused; every known scope is read back as itself, none by another text;
  and the non-admin set is the known set without the two admin scopes.
\<close>

lemma scope_texts_exact:
  "map scope_as_str (parse_scopes raw) = raw \<and> inj scope_from_str \<and>
   map (\<lambda>c. scope_from_str (scope_as_str c)) all_known = all_known \<and>
   distinct (map scope_as_str all_known) \<and>
   all_non_admin = filter (\<lambda>c. c \<noteq> AdminChannels \<and> c \<noteq> AdminUsers) all_known"
proof (intro conjI)
  show "inj scope_from_str" by (rule inj_on_inverseI [of _ scope_as_str]) (rule scope_print_parse)
  show "map (\<lambda>c. scope_from_str (scope_as_str c)) all_known = all_known"
    by (rule map_idI) (rule scope_parse_print)
qed (simp_all add: parse_scopes_def comp_def scope_print_parse all_known_def all_non_admin_def)

end
