(* ===== verification/Nostr_Event.thy ===== *)
theory Nostr_Event
  imports Pkzz_Prelude
begin

text \<open>
  Nostr events as the relay handles them: the fields of the \<open>nostr\<close> crate's \<open>Event\<close> that
  the code reads, the relay's wrapper \<open>StoredEvent\<close> (crates/buzz-core/src/event.rs), and
  the accessors of tags.

  The \<open>nostr\<close> crate is not part of the repository; its event is data here. Event ids and
  public keys are their lower-case hex text, which the code compares and prints, and
  \<open>created_at\<close> is a number of seconds. A tag is its vector of strings; \<open>Tag::kind()\<close> prints
  as the first string and \<open>Tag::content()\<close> is the second, as the crate documents.
\<close>

type_synonym tag = "string list"

record event =
  ev_id :: string
  ev_pubkey :: string
  ev_created_at :: nat
  ev_kind :: u16
  ev_tags :: "tag list"
  ev_content :: string

definition tag_name :: "tag \<Rightarrow> string" where
  "tag_name t = (case t of [] \<Rightarrow> [] | k # _ \<Rightarrow> k)"

definition tag_content :: "tag \<Rightarrow> string option" where
  "tag_content t = (case t of k # v # _ \<Rightarrow> Some v | _ \<Rightarrow> None)"

text \<open>\<open>StoredEvent\<close>: an event with what the relay assigns to it.\<close>

record stored_event =
  se_event :: event
  se_received_at :: nat
  se_channel_id :: "uuid option"
  se_verified :: bool

definition stored_event_new :: "nat \<Rightarrow> event \<Rightarrow> uuid option \<Rightarrow> stored_event" where
  "stored_event_new now e ch =
     \<lparr>se_event = e, se_received_at = now, se_channel_id = ch, se_verified = False\<rparr>"

definition is_verified :: "stored_event \<Rightarrow> bool" where
  "is_verified s = se_verified s"

definition with_received_at :: "event \<Rightarrow> nat \<Rightarrow> uuid option \<Rightarrow> bool \<Rightarrow> stored_event" where
  "with_received_at e at ch v =
     \<lparr>se_event = e, se_received_at = at, se_channel_id = ch, se_verified = v\<rparr>"

text \<open>The values of the tags of one name, in order.\<close>

definition tag_values :: "string \<Rightarrow> event \<Rightarrow> string list" where
  "tag_values n e = List.map_filter tag_content (filter (\<lambda>t. tag_name t = n) (ev_tags e))"

lemma set_tag_values:
  "set (tag_values n e) = {v. \<exists>t \<in> set (ev_tags e). tag_name t = n \<and> tag_content t = Some v}"
  by (force simp: tag_values_def List.map_filter_def)

end
