(* ===== verification/Event_Filter.thy ===== *)
theory Event_Filter
  imports Event_Kinds
begin

text \<open>
  NIP-01 filter matching, crates/buzz-core/src/filter.rs: the filters of one subscription
  are OR-ed, the fields of one filter AND-ed. The function \<open>reader_authorized_for_event\<close>
  is the per-event read authorization of the relay-signed private kinds.
\<close>

section \<open>Filters\<close>

text \<open>
  The fields of \<open>nostr::Filter\<close> that the relay reads; matching ignores \<open>limit\<close> and \<open>search\<close>. Sets of the library are lists here;
  \<open>generic_tags\<close> maps the letter of a \<open>#x\<close> constraint to its values.
\<close>

record nostr_filter =
  f_ids :: "string list option"
  f_authors :: "string list option"
  f_kinds :: "u16 list option"
  f_since :: "nat option"
  f_until :: "nat option"
  f_limit :: "nat option"
  f_search :: "string option"
  f_generic_tags :: "(string \<times> string list) list"

definition any_filter :: nostr_filter where
  "any_filter = \<lparr>f_ids = None, f_authors = None, f_kinds = None, f_since = None,
     f_until = None, f_limit = None, f_search = None, f_generic_tags = []\<rparr>"

definition reader_authorized_for_event :: "event \<Rightarrow> string \<Rightarrow> bool" where
  "reader_authorized_for_event e reader_pubkey_hex =
     (let kind = event_kind_u32 e in
      if kind \<noteq> KIND_DM_VISIBILITY \<and> kind \<noteq> KIND_AGENT_TURN_METRIC then True
      else list_ex (\<lambda>t. tag_content t = Some reader_pubkey_hex)
             (filter (\<lambda>t. tag_name t = ''p'') (ev_tags e)))"

section \<open>Matching\<close>

text \<open>
  One round of the loop over \<open>generic_tags\<close>: does the event satisfy the constraint
  \<open>#key = one of the values\<close>? A \<open>#h\<close> constraint falls back to the channel the relay
  stored with the event, only when the event has no \<open>h\<close> tag at all.
\<close>

definition filter_tag_ok :: "stored_event \<Rightarrow> string \<times> string list \<Rightarrow> bool" where
  "filter_tag_ok ev kv =
     (let (tag_key, vals) = kv;
          tags = ev_tags (se_event ev);
          has_match = list_ex (\<lambda>filter_val.
            list_ex (\<lambda>event_val. event_val = filter_val)
              (List.map_filter tag_content (filter (\<lambda>t. tag_name t = tag_key) tags))) vals
      in
      if \<not> has_match \<and> tag_key = ''h'' then
        (let event_has_h_tags = list_ex (\<lambda>t. tag_name t = ''h'') tags in
         if \<not> event_has_h_tags then
           (case se_channel_id ev of
              Some ch_id \<Rightarrow> list_ex (\<lambda>v. v = ch_id) vals
            | None \<Rightarrow> False)
         else False)
      else has_match)"

definition filter_match_one :: "nostr_filter \<Rightarrow> stored_event \<Rightarrow> bool" where
  "filter_match_one f ev =
     (let e = se_event ev in
      if (case f_kinds f of None \<Rightarrow> False | Some kinds \<Rightarrow> ev_kind e \<notin> set kinds) then False
      else if (case f_authors f of None \<Rightarrow> False | Some authors \<Rightarrow> ev_pubkey e \<notin> set authors)
        then False
      else if (case f_since f of None \<Rightarrow> False | Some since \<Rightarrow> ev_created_at e < since) then False
      else if (case f_until f of None \<Rightarrow> False | Some until \<Rightarrow> until < ev_created_at e) then False
      else if (case f_ids f of None \<Rightarrow> False
               | Some ids \<Rightarrow> \<not> list_ex (\<lambda>fid. starts_with (ev_id e) fid) ids) then False
      else list_all (filter_tag_ok ev) (f_generic_tags f))"

definition filters_match :: "nostr_filter list \<Rightarrow> stored_event \<Rightarrow> bool" where
  "filters_match filters ev = list_ex (\<lambda>f. filter_match_one f ev) filters"

section \<open>What a match says\<close>

text \<open>The constraint of one field, as a condition on the event.\<close>

definition meets :: "'a option \<Rightarrow> ('a \<Rightarrow> bool) \<Rightarrow> bool" where
  "meets c p = (case c of None \<Rightarrow> True | Some x \<Rightarrow> p x)"

lemma meets_simps [simp]: "meets None p" "meets (Some x) p = p x"
  by (simp_all add: meets_def)

lemma filter_match_one_conj:
  "filter_match_one f ev \<longleftrightarrow>
     meets (f_kinds f) (\<lambda>ks. ev_kind (se_event ev) \<in> set ks) \<and>
     meets (f_authors f) (\<lambda>as. ev_pubkey (se_event ev) \<in> set as) \<and>
     meets (f_since f) (\<lambda>s. s \<le> ev_created_at (se_event ev)) \<and>
     meets (f_until f) (\<lambda>u. ev_created_at (se_event ev) \<le> u) \<and>
     meets (f_ids f) (\<lambda>ids. \<exists>i \<in> set ids. starts_with (ev_id (se_event ev)) i) \<and>
     (\<forall>kv \<in> set (f_generic_tags f). filter_tag_ok ev kv)"
  by (auto simp: filter_match_one_def Let_def meets_def list_all_iff list_ex_iff
      split: option.split)

lemma filters_match_iff: "filters_match fs ev \<longleftrightarrow> (\<exists>f \<in> set fs. filter_match_one f ev)"
  by (simp add: filters_match_def list_ex_iff)

text \<open>A tag constraint other than \<open>#h\<close> is satisfied exactly when a value occurs in the event.\<close>

lemma filter_tag_ok_plain:
  "k \<noteq> ''h'' \<Longrightarrow> filter_tag_ok ev (k, vs) \<longleftrightarrow> (\<exists>v \<in> set vs. v \<in> set (tag_values k (se_event ev)))"
  by (auto simp: filter_tag_ok_def tag_values_def list_ex_iff)

lemma filter_tag_ok_h:
  "filter_tag_ok ev (''h'', vs) \<longleftrightarrow>
     (\<exists>v \<in> set vs. v \<in> set (tag_values ''h'' (se_event ev))) \<or>
     (\<forall>t \<in> set (ev_tags (se_event ev)). tag_name t \<noteq> ''h'') \<and>
     (\<exists>ch. se_channel_id ev = Some ch \<and> ch \<in> set vs)"
  by (auto simp: filter_tag_ok_def tag_values_def list_ex_iff Let_def List.map_filter_def
      split: option.splits)

lemma filter_match_kind: "filter_match_one f ev \<Longrightarrow> f_kinds f = Some ks \<Longrightarrow> ev_kind (se_event ev) \<in> set ks"
  by (simp add: filter_match_one_conj)

lemma filter_match_author:
  "filter_match_one f ev \<Longrightarrow> f_authors f = Some as \<Longrightarrow> ev_pubkey (se_event ev) \<in> set as"
  by (simp add: filter_match_one_conj)

lemma filter_match_tag:
  assumes "filter_match_one f ev" and "map_of (f_generic_tags f) k = Some vs" and "k \<noteq> ''h''"
  shows "\<exists>v \<in> set vs. v \<in> set (tag_values k (se_event ev))"
proof -
  from assms(2) have "(k, vs) \<in> set (f_generic_tags f)" by (rule map_of_SomeD)
  with assms(1) have "filter_tag_ok ev (k, vs)" by (simp add: filter_match_one_conj)
  with assms(3) show ?thesis by (simp add: filter_tag_ok_plain)
qed

lemma reader_authorized_iff:
  "reader_authorized_for_event e r \<longleftrightarrow>
     event_kind_u32 e \<notin> set RESULT_GATED_KINDS \<or> r \<in> set (tag_values ''p'' e)"
  by (auto simp: reader_authorized_for_event_def RESULT_GATED_KINDS_def Let_def list_ex_iff
      set_tag_values)

text \<open>
  Filter matching has the semantics NIP-01 prescribes: a subscription matches when one
  of its filters does, and a filter matches when every constraint it carries holds of the
  event; the time bounds are inclusive, and the channel the relay stored decides a \<open>#h\<close>
  constraint only for events without an \<open>h\<close> tag of their own.
\<close>

lemma filters_match_semantics:
  "filters_match fs ev \<longleftrightarrow>
     (\<exists>f \<in> set fs.
       meets (f_kinds f) (\<lambda>ks. ev_kind (se_event ev) \<in> set ks) \<and>
       meets (f_authors f) (\<lambda>as. ev_pubkey (se_event ev) \<in> set as) \<and>
       meets (f_since f) (\<lambda>s. s \<le> ev_created_at (se_event ev)) \<and>
       meets (f_until f) (\<lambda>u. ev_created_at (se_event ev) \<le> u) \<and>
       meets (f_ids f) (\<lambda>ids. \<exists>i \<in> set ids. starts_with (ev_id (se_event ev)) i) \<and>
       list_all (\<lambda>(k, vs).
         list_ex (\<lambda>v. v \<in> set (tag_values k (se_event ev))) vs \<or>
         k = ''h'' \<and> list_all (\<lambda>t. tag_name t \<noteq> ''h'') (ev_tags (se_event ev)) \<and>
         list_ex (\<lambda>v. se_channel_id ev = Some v) vs) (f_generic_tags f))"
proof -
  have "filter_tag_ok ev = (\<lambda>(k, vs).
      list_ex (\<lambda>v. v \<in> set (tag_values k (se_event ev))) vs \<or>
      k = ''h'' \<and> list_all (\<lambda>t. tag_name t \<noteq> ''h'') (ev_tags (se_event ev)) \<and>
      list_ex (\<lambda>v. se_channel_id ev = Some v) vs)"
  proof (intro ext, clarify)
    fix k vs
    show "filter_tag_ok ev (k, vs) =
      (list_ex (\<lambda>v. v \<in> set (tag_values k (se_event ev))) vs \<or>
       k = ''h'' \<and> list_all (\<lambda>t. tag_name t \<noteq> ''h'') (ev_tags (se_event ev)) \<and>
       list_ex (\<lambda>v. se_channel_id ev = Some v) vs)"
      by (cases "k = ''h''")
        (auto simp: filter_tag_ok_h filter_tag_ok_plain list_ex_iff list_all_iff)
  qed
  then show ?thesis by (simp only: filters_match_iff filter_match_one_conj list_all_iff)
qed

end
