(* ===== verification/Read_Gates.thy ===== *)
theory Read_Gates
  imports Event_Filter
begin

text \<open>
  The read gates of the relay, crates/buzz-relay/src/handlers/req.rs: the checks that a
  request's filters must pass before they run, the predicates that tell which gated kinds a
  filter can reach, and the per-event visibility check of every read surface.

  The requester's key is its lower-case hex text, so that \<open>hex::encode\<close> of its bytes is the
  text itself and comparing bytes is comparing texts. The set of values of a \<open>#x\<close> constraint
  is looked up by its letter.
\<close>

section \<open>Filter-level gates\<close>

definition generic_tag :: "nostr_filter \<Rightarrow> string \<Rightarrow> string list option" where
  "generic_tag f k = map_of (f_generic_tags f) k"

text \<open>\<open>kinds.is_none_or(any(..))\<close>: the filter can match a kind that satisfies \<open>p\<close>.\<close>

definition can_match_kinds :: "nostr_filter \<Rightarrow> (u32 \<Rightarrow> bool) \<Rightarrow> bool" where
  "can_match_kinds f p =
     (case f_kinds f of None \<Rightarrow> True | Some ks \<Rightarrow> list_ex (\<lambda>k. p (ucast k)) ks)"

text \<open>\<open>is_some_and(|values| !values.is_empty() && values.iter().all(p))\<close>.\<close>

definition some_and_all :: "'a list option \<Rightarrow> ('a \<Rightarrow> bool) \<Rightarrow> bool" where
  "some_and_all c p = (case c of None \<Rightarrow> False | Some vs \<Rightarrow> vs \<noteq> [] \<and> list_all p vs)"

definition has_ids :: "nostr_filter \<Rightarrow> bool" where
  "has_ids f = (case f_ids f of None \<Rightarrow> False | Some ids \<Rightarrow> ids \<noteq> [])"

definition p_gated_filters_authorized :: "nostr_filter list \<Rightarrow> string \<Rightarrow> bool" where
  "p_gated_filters_authorized filters authed_pubkey_hex =
     list_all (\<lambda>f.
       let can_match_p_gated = can_match_kinds f (\<lambda>k. k \<in> set P_GATED_KINDS);
           explicitly_no_ids_exemption =
             (case f_kinds f of
                None \<Rightarrow> False
              | Some ks \<Rightarrow> list_ex (\<lambda>k. ucast k = KIND_DM_VISIBILITY \<or> ucast k = KIND_AGENT_TURN_METRIC) ks)
       in
       if \<not> can_match_p_gated then True
       else if \<not> explicitly_no_ids_exemption \<and> has_ids f then True
       else some_and_all (generic_tag f ''p'') (\<lambda>v. v = authed_pubkey_hex)) filters"

definition engram_filters_authorized :: "nostr_filter list \<Rightarrow> string \<Rightarrow> bool" where
  "engram_filters_authorized filters authed_pubkey_hex =
     list_all (\<lambda>f.
       if has_ids f then True
       else if \<not> can_match_kinds f (\<lambda>k. k = KIND_AGENT_ENGRAM) then True
       else if some_and_all (f_authors f) (\<lambda>a. eq_ignore_ascii_case a authed_pubkey_hex) then True
       else some_and_all (generic_tag f ''p'') (\<lambda>v. v = authed_pubkey_hex)) filters"

definition author_only_filters_authorized :: "nostr_filter list \<Rightarrow> string \<Rightarrow> bool" where
  "author_only_filters_authorized filters authed_pubkey_hex =
     list_all (\<lambda>f.
       let targets_only_author_only =
             some_and_all (f_kinds f) (\<lambda>k. ucast k \<in> set AUTHOR_ONLY_KINDS)
       in
       if \<not> targets_only_author_only then True
       else some_and_all (f_authors f) (\<lambda>a. eq_ignore_ascii_case a authed_pubkey_hex)) filters"

definition filter_can_match_author_only_kinds :: "nostr_filter \<Rightarrow> bool" where
  "filter_can_match_author_only_kinds f = can_match_kinds f (\<lambda>k. k \<in> set AUTHOR_ONLY_KINDS)"

definition filter_can_match_shared_gated_kinds :: "nostr_filter \<Rightarrow> bool" where
  "filter_can_match_shared_gated_kinds f = can_match_kinds f (\<lambda>k. k \<in> set SHARED_GATED_KINDS)"

definition filter_can_match_result_gated_kinds :: "nostr_filter \<Rightarrow> bool" where
  "filter_can_match_result_gated_kinds f = can_match_kinds f (\<lambda>k. k \<in> set RESULT_GATED_KINDS)"

definition result_gated_count_safe_for_pushdown :: "nostr_filter \<Rightarrow> string \<Rightarrow> bool" where
  "result_gated_count_safe_for_pushdown f authed_pubkey_hex =
     some_and_all (generic_tag f ''p'') (\<lambda>v. v = authed_pubkey_hex)"

section \<open>Event-level gates\<close>

definition is_author_only_event :: "event \<Rightarrow> string \<Rightarrow> bool" where
  "is_author_only_event e requester = (event_kind_u32 e \<in> set AUTHOR_ONLY_KINDS \<and> ev_pubkey e \<noteq> requester)"

definition event_visible_to_reader :: "event \<Rightarrow> string \<Rightarrow> bool" where
  "event_visible_to_reader e requester =
     (if is_author_only_event e requester then False
      else if is_unshared_gated_event e requester then False
      else if \<not> reader_authorized_for_event e requester then False
      else True)"

section \<open>Facts\<close>

lemma some_and_all_iff: "some_and_all c p \<longleftrightarrow> (\<exists>vs. c = Some vs \<and> vs \<noteq> [] \<and> list_all p vs)"
  by (auto simp: some_and_all_def split: option.splits)

text \<open>A filter that matches an event can match its kind.\<close>

lemma can_match_event_kind:
  "filter_match_one f ev \<Longrightarrow> p (event_kind_u32 (se_event ev)) \<Longrightarrow> can_match_kinds f p"
  by (auto simp: can_match_kinds_def event_kind_u32_def list_ex_iff dest: filter_match_kind split: option.split)

lemma author_pinned:
  assumes "filter_match_one f ev"
    and "some_and_all (f_authors f) (\<lambda>a. eq_ignore_ascii_case a r)"
    and "lower_text r" and "lower_text (ev_pubkey (se_event ev))"
  shows "ev_pubkey (se_event ev) = r"
proof -
  from assms(2) obtain as where as: "f_authors f = Some as" "list_all (\<lambda>a. eq_ignore_ascii_case a r) as"
    by (auto simp: some_and_all_iff)
  with assms(1) have "eq_ignore_ascii_case (ev_pubkey (se_event ev)) r"
    by (auto simp: list_all_iff dest: filter_match_author)
  with assms(3,4) show ?thesis by (simp add: eq_ignore_case_lower)
qed

lemma p_tag_pinned:
  assumes "filter_match_one f ev" and "some_and_all (generic_tag f ''p'') (\<lambda>v. v = r)"
  shows "r \<in> set (tag_values ''p'' (se_event ev))"
proof -
  from assms(2) obtain vs where "map_of (f_generic_tags f) ''p'' = Some vs" "list_all (\<lambda>v. v = r) vs"
    by (auto simp: some_and_all_iff generic_tag_def)
  with filter_match_tag [OF assms(1)] show ?thesis by (fastforce simp: list_all_iff)
qed

lemma event_visible_iff:
  "event_visible_to_reader e r \<longleftrightarrow>
     (event_kind_u32 e \<in> set AUTHOR_ONLY_KINDS \<longrightarrow> ev_pubkey e = r) \<and>
     (is_shared_gated_kind (event_kind_u32 e) \<longrightarrow> ev_pubkey e = r \<or> event_is_shared e) \<and>
     (event_kind_u32 e \<in> set RESULT_GATED_KINDS \<longrightarrow> r \<in> set (tag_values ''p'' e))"
  by (auto simp: event_visible_to_reader_def is_author_only_event_def is_unshared_gated_event_def
      reader_authorized_iff Let_def)

section \<open>Properties\<close>

text \<open>
  What the filter-level gates admit: when the filters of an authenticated request pass
  all three gates, every event of a gated class that one of them matches is either addressed
  by explicit event ids, or belongs to the requester: a p-gated event names the requester in
  a \<open>p\<close> tag, an engram was written by or is addressed to the requester, and an event reached
  by a filter for author-only kinds alone was written by the requester. For the kinds
  without the id exemption, a filter that gives kinds always pins \<open>#p\<close>. The keys are in lower case.
\<close>

lemma filter_gates_sound:
  assumes "p_gated_filters_authorized fs r" and "engram_filters_authorized fs r"
    and "author_only_filters_authorized fs r"
    and "f \<in> set fs" and "filter_match_one f ev"
    and "lower_text r" and "lower_text (ev_pubkey (se_event ev))"
  shows
    "(event_kind_u32 (se_event ev) \<in> set P_GATED_KINDS \<longrightarrow>
        r \<in> set (tag_values ''p'' (se_event ev)) \<or> has_ids f) \<and>
     (event_kind_u32 (se_event ev) \<in> set RESULT_GATED_KINDS \<and> f_kinds f \<noteq> None \<longrightarrow>
        r \<in> set (tag_values ''p'' (se_event ev))) \<and>
     (event_kind_u32 (se_event ev) = KIND_AGENT_ENGRAM \<longrightarrow>
        ev_pubkey (se_event ev) = r \<or> r \<in> set (tag_values ''p'' (se_event ev)) \<or> has_ids f) \<and>
     (some_and_all (f_kinds f) (\<lambda>k. ucast k \<in> set AUTHOR_ONLY_KINDS) \<longrightarrow> ev_pubkey (se_event ev) = r)"
proof (intro conjI impI)
  let ?k = "event_kind_u32 (se_event ev)"
  have pg: "\<not> can_match_kinds f (\<lambda>k. k \<in> set P_GATED_KINDS) \<or>
      has_ids f \<and> \<not> (case f_kinds f of None \<Rightarrow> False
        | Some ks \<Rightarrow> list_ex (\<lambda>k. ucast k = KIND_DM_VISIBILITY \<or> ucast k = KIND_AGENT_TURN_METRIC) ks) \<or>
      some_and_all (generic_tag f ''p'') (\<lambda>v. v = r)"
    using assms(1,4) by (auto simp: p_gated_filters_authorized_def list_all_iff Let_def split: if_splits)
  note p_tag = p_tag_pinned [OF assms(5)] and author = author_pinned [OF assms(5) _ assms(6,7)]
  { assume "?k \<in> set P_GATED_KINDS"
    then have "can_match_kinds f (\<lambda>k. k \<in> set P_GATED_KINDS)"
      using can_match_event_kind [OF assms(5), of "\<lambda>k. k \<in> set P_GATED_KINDS"] by simp
    with pg p_tag show "r \<in> set (tag_values ''p'' (se_event ev)) \<or> has_ids f" by blast }
  { assume k: "?k \<in> set RESULT_GATED_KINDS \<and> f_kinds f \<noteq> None"
    then obtain ks where ks: "f_kinds f = Some ks" by auto
    have "ev_kind (se_event ev) \<in> set ks" using filter_match_kind [OF assms(5) ks] .
    moreover have "?k = KIND_DM_VISIBILITY \<or> ?k = KIND_AGENT_TURN_METRIC"
      using k by (auto simp: RESULT_GATED_KINDS_def)
    ultimately have "list_ex (\<lambda>k. ucast k = KIND_DM_VISIBILITY \<or> ucast k = KIND_AGENT_TURN_METRIC) ks"
      by (auto simp: list_ex_iff event_kind_u32_def)
    moreover have "?k \<in> set P_GATED_KINDS"
      using k by (auto simp: RESULT_GATED_KINDS_def P_GATED_KINDS_def)
    then have "can_match_kinds f (\<lambda>k. k \<in> set P_GATED_KINDS)"
      using can_match_event_kind [OF assms(5), of "\<lambda>k. k \<in> set P_GATED_KINDS"] by simp
    ultimately show "r \<in> set (tag_values ''p'' (se_event ev))" using pg p_tag ks by auto }
  { assume "?k = KIND_AGENT_ENGRAM"
    then have "can_match_kinds f (\<lambda>k. k = KIND_AGENT_ENGRAM)"
      using can_match_event_kind [OF assms(5), of "\<lambda>k. k = KIND_AGENT_ENGRAM"] by simp
    moreover have "has_ids f \<or> \<not> can_match_kinds f (\<lambda>k. k = KIND_AGENT_ENGRAM) \<or>
        some_and_all (f_authors f) (\<lambda>a. eq_ignore_ascii_case a r) \<or>
        some_and_all (generic_tag f ''p'') (\<lambda>v. v = r)"
      using assms(2,4) by (auto simp: engram_filters_authorized_def list_all_iff split: if_splits)
    ultimately show "ev_pubkey (se_event ev) = r \<or> r \<in> set (tag_values ''p'' (se_event ev)) \<or> has_ids f"
      using p_tag author by blast }
  { assume "some_and_all (f_kinds f) (\<lambda>k. ucast k \<in> set AUTHOR_ONLY_KINDS)"
    then have "some_and_all (f_authors f) (\<lambda>a. eq_ignore_ascii_case a r)"
      using assms(3,4) by (auto simp: author_only_filters_authorized_def list_all_iff Let_def split: if_splits)
    then show "ev_pubkey (se_event ev) = r" by (rule author) }
qed

definition demo_metric_filter :: nostr_filter where
  "demo_metric_filter = any_filter\<lparr>f_kinds := Some [44200], f_generic_tags := [(''p'', [''aa''])]\<rparr>"

definition demo_metric :: stored_event where
  "demo_metric = stored_event_new 0
     \<lparr>ev_id = ''01'', ev_pubkey = ''bb'', ev_created_at = 5, ev_kind = 44200,
      ev_tags = [[''p'', ''aa'']], ev_content = []\<rparr> None"

lemma filter_gates_sound_instance:
  "event_kind_u32 (se_event demo_metric) = KIND_AGENT_TURN_METRIC \<and>
   ''aa'' \<in> set (tag_values ''p'' (se_event demo_metric))"
proof -
  have g: "p_gated_filters_authorized [demo_metric_filter] ''aa''"
    "engram_filters_authorized [demo_metric_filter] ''aa''"
    "author_only_filters_authorized [demo_metric_filter] ''aa''"
    "demo_metric_filter \<in> set [demo_metric_filter]" "filter_match_one demo_metric_filter demo_metric"
    "lower_text ''aa''" "lower_text (ev_pubkey (se_event demo_metric))"
    by code_simp+
  have k: "event_kind_u32 (se_event demo_metric) = KIND_AGENT_TURN_METRIC" by code_simp
  have "event_kind_u32 (se_event demo_metric) \<in> set RESULT_GATED_KINDS \<and> f_kinds demo_metric_filter \<noteq> None"
    by code_simp
  with filter_gates_sound [OF g] k show ?thesis by blast
qed

end
