(* ===== verification/Event_Store.thy ===== *)
theory Event_Store
  imports Event_Kinds Rust_Std "HOL-Library.Char_ord" "HOL-Library.List_Lexorder" "HOL-Library.Product_Lexorder"
begin

text \<open>
  Event storage and retrieval, crates/buzz-db/src/event.rs and \<open>insert_mentions\<close> of
  crates/buzz-db/src/lib.rs: the columns of the tables \<open>events\<close> and \<open>event_mentions\<close>, the
  query parameters, and the statements the functions build, read as operations on the
  tables. A table is the list of its rows. A \<open>WHERE\<close> clause is a predicate on rows, an
  \<open>INNER JOIN\<close> the list of the matching pairs, \<open>ON CONFLICT DO NOTHING\<close> a check of the
  primary key. JSONB containment ignores the order of array elements, as PostgreSQL
  documents, so \<open>tags @> [[a,b]]\<close> asks for one tag that has both strings somewhere.

  Public keys and event ids are hex text instead of bytes; the order of ids is the same.
  The signature column is left out with the signature of the event.

  Code outside the repository is an argument: \<open>from_timestamp\<close> tells which numbers of
  seconds chrono accepts (a \<open>DateTime\<close> is that number), and \<open>event_from_json\<close> is the
  deserializer of the nostr crate. The errors of sqlx and serde are their messages.
\<close>

section \<open>Errors and query parameters\<close>

datatype db_error =
    Sqlx string
  | Migrate string
  | AuthEventRejected
  | EphemeralEventRejected u16
  | ChannelNotFound uuid
  | MemberNotFound uuid
  | NotFound string
  | AccessDenied string
  | Serde string
  | InvalidData string
  | InvalidTimestamp int

definition DEFAULT_MAX_PAGE_LIMIT :: int where "DEFAULT_MAX_PAGE_LIMIT = 1000"
definition D_TAG_MAX_LEN :: nat where "D_TAG_MAX_LEN = 1024"

record event_query =
  q_community_id :: uuid
  q_channel_id :: "uuid option"
  q_kinds :: "int list option"
  q_pubkey :: "string option"
  q_since :: "int option"
  q_until :: "int option"
  q_limit :: "int option"
  q_offset :: "int option"
  q_p_tag_hex :: "string option"
  q_d_tag :: "string option"
  q_d_tags :: "string list option"
  q_before_id :: "string option"
  q_global_only :: bool
  q_authors :: "string list option"
  q_ids :: "string list option"
  q_e_tags :: "string list option"
  q_channel_ids :: "uuid list option"
  q_max_limit :: "int option"
  q_shared_gated_reader :: "string option"

definition for_community :: "uuid \<Rightarrow> event_query" where
  "for_community community_id =
     \<lparr>q_community_id = community_id, q_channel_id = None, q_kinds = None, q_pubkey = None,
      q_since = None, q_until = None, q_limit = None, q_offset = None, q_p_tag_hex = None,
      q_d_tag = None, q_d_tags = None, q_before_id = None, q_global_only = False,
      q_authors = None, q_ids = None, q_e_tags = None, q_channel_ids = None,
      q_max_limit = None, q_shared_gated_reader = None\<rparr>"

section \<open>Tables\<close>

record event_row =
  row_community_id :: uuid
  row_id :: string
  row_pubkey :: string
  row_created_at :: int
  row_kind :: int
  row_tags :: "tag list"
  row_content :: string
  row_received_at :: nat
  row_channel_id :: "uuid option"
  row_d_tag :: "string option"
  row_not_before :: "int option"
  row_deleted_at :: "nat option"

record mention_row =
  m_community_id :: uuid
  m_pubkey_hex :: string
  m_event_id :: string
  m_event_created_at :: int
  m_channel_id :: "uuid option"
  m_event_kind :: int

record event_db =
  db_events :: "event_row list"
  db_mentions :: "mention_row list"

section \<open>Columns computed from an event\<close>

definition extract_d_tag :: "event \<Rightarrow> string option" where
  "extract_d_tag e =
     (if \<not> is_parameterized_replaceable (event_kind_u32 e) then None
      else Some (case find_map (\<lambda>parts.
                        if length parts \<ge> 2 \<and> parts ! 0 = ''d'' then Some (parts ! 1) else None)
                      (ev_tags e)
                 of Some v \<Rightarrow> v | None \<Rightarrow> []))"

definition extract_not_before :: "event \<Rightarrow> int option" where
  "extract_not_before e =
     (if event_kind_u32 e \<noteq> KIND_EVENT_REMINDER then None
      else find_map (\<lambda>parts.
             if length parts \<ge> 2 \<and> parts ! 0 = ''not_before'' then parse_i64 (parts ! 1) else None)
           (ev_tags e))"

text \<open>\<open>as_secs() as i64\<close> of an unsigned 64-bit number of seconds.\<close>

definition secs_as_i64 :: "nat \<Rightarrow> int" where
  "secs_as_i64 n = sint (word_of_nat n :: u64)"

section \<open>Writes\<close>

definition same_key :: "event_row \<Rightarrow> event_row \<Rightarrow> bool" where
  "same_key r s =
     (row_community_id r = row_community_id s \<and> row_created_at r = row_created_at s \<and> row_id r = row_id s)"

definition insert_event ::
  "(int \<Rightarrow> bool) \<Rightarrow> nat \<Rightarrow> event_db \<Rightarrow> uuid \<Rightarrow> event \<Rightarrow> uuid option
   \<Rightarrow> db_error + ((stored_event \<times> bool) \<times> event_db)" where
  "insert_event from_timestamp now db community_id e channel_id =
     (let kind_u32 = event_kind_u32 e in
      if kind_u32 = KIND_AUTH then Inl AuthEventRejected
      else if is_ephemeral kind_u32 then Inl (EphemeralEventRejected (ev_kind e))
      else
        (let created_at = secs_as_i64 (ev_created_at e) in
         if \<not> from_timestamp created_at then Inl (InvalidTimestamp created_at)
         else
           (let row = \<lparr>row_community_id = community_id, row_id = ev_id e, row_pubkey = ev_pubkey e,
                       row_created_at = created_at, row_kind = event_kind_i32 e,
                       row_tags = ev_tags e, row_content = ev_content e, row_received_at = now,
                       row_channel_id = channel_id, row_d_tag = extract_d_tag e,
                       row_not_before = extract_not_before e, row_deleted_at = None\<rparr>;
                was_inserted = (\<not> list_ex (same_key row) (db_events db));
                db' = (if was_inserted then db\<lparr>db_events := db_events db @ [row]\<rparr> else db)
            in Inr ((with_received_at e now channel_id True, was_inserted), db'))))"

text \<open>The multi-row insert skips each value whose key is already there.\<close>

definition add_mention :: "mention_row \<Rightarrow> mention_row list \<Rightarrow> mention_row list" where
  "add_mention m ms =
     (if list_ex (\<lambda>n. m_community_id n = m_community_id m \<and> m_pubkey_hex n = m_pubkey_hex m \<and>
                      m_event_id n = m_event_id m) ms
      then ms else ms @ [m])"

definition valid_pubkeys :: "event \<Rightarrow> string list" where
  "valid_pubkeys e =
     (let p_tags = List.map_filter (\<lambda>tag_vec.
            if length tag_vec \<ge> 2 \<and> tag_vec ! 0 = ''p'' then Some (tag_vec ! 1) else None) (ev_tags e)
      in map (map ascii_lower) (filter (\<lambda>pk. length pk = 64 \<and> list_all is_ascii_hexdigit pk) p_tags))"

definition has_p_tag :: "event \<Rightarrow> bool" where
  "has_p_tag e = list_ex (\<lambda>tag_vec. length tag_vec \<ge> 2 \<and> tag_vec ! 0 = ''p'') (ev_tags e)"

definition insert_mentions ::
  "(int \<Rightarrow> bool) \<Rightarrow> event_db \<Rightarrow> uuid \<Rightarrow> event \<Rightarrow> uuid option \<Rightarrow> db_error + event_db" where
  "insert_mentions from_timestamp db community_id e channel_id =
     (if \<not> has_p_tag e then Inr db
      else
        (let created_at = secs_as_i64 (ev_created_at e) in
         if \<not> from_timestamp created_at then Inl (InvalidTimestamp created_at)
         else
           (let mention = (\<lambda>pk. \<lparr>m_community_id = community_id, m_pubkey_hex = pk,
                  m_event_id = ev_id e, m_event_created_at = created_at,
                  m_channel_id = channel_id, m_event_kind = uint (event_kind_u32 e)\<rparr>)
            in Inr (db\<lparr>db_mentions := fold add_mention (map mention (valid_pubkeys e)) (db_mentions db)\<rparr>))))"

text \<open>\<open>UPDATE events SET deleted_at = NOW() WHERE p AND deleted_at IS NULL\<close>, with \<open>rows_affected() > 0\<close>.\<close>

definition soft_delete_where ::
  "nat \<Rightarrow> (event_row \<Rightarrow> bool) \<Rightarrow> event_db \<Rightarrow> bool \<times> event_db" where
  "soft_delete_where now p db =
     (list_ex (\<lambda>r. p r \<and> row_deleted_at r = None) (db_events db),
      db\<lparr>db_events := map (\<lambda>r. if p r \<and> row_deleted_at r = None
                               then r\<lparr>row_deleted_at := Some now\<rparr> else r) (db_events db)\<rparr>)"

definition soft_delete_event :: "nat \<Rightarrow> event_db \<Rightarrow> uuid \<Rightarrow> string \<Rightarrow> bool \<times> event_db" where
  "soft_delete_event now db community_id event_id =
     soft_delete_where now (\<lambda>r. row_community_id r = community_id \<and> row_id r = event_id) db"

definition soft_delete_by_coordinate ::
  "(int \<Rightarrow> bool) \<Rightarrow> nat \<Rightarrow> event_db \<Rightarrow> uuid \<Rightarrow> int \<Rightarrow> string \<Rightarrow> string \<Rightarrow> int
   \<Rightarrow> db_error + (bool \<times> event_db)" where
  "soft_delete_by_coordinate from_timestamp now db community_id kind pubkey d_tag deletion_created_at_secs =
     (if \<not> from_timestamp deletion_created_at_secs then Inl (InvalidTimestamp deletion_created_at_secs)
      else Inr (soft_delete_where now
             (\<lambda>r. row_community_id r = community_id \<and> row_kind r = kind \<and> row_pubkey r = pubkey \<and>
                  row_d_tag r = Some d_tag \<and> row_created_at r \<le> deletion_created_at_secs) db))"

section \<open>Reads\<close>

text \<open>\<open>tags @> [[a, b]]\<close>.\<close>

definition tags_contain :: "tag list \<Rightarrow> string list \<Rightarrow> bool" where
  "tags_contain tags xs = list_ex (\<lambda>t. list_all (\<lambda>x. x \<in> set t) xs) tags"

text \<open>An empty list of kinds, authors, ids or e-tags matches nothing.\<close>

definition matches_nothing :: "event_query \<Rightarrow> bool" where
  "matches_nothing q =
     (q_kinds q = Some [] \<or> q_authors q = Some [] \<or> q_ids q = Some [] \<or> q_e_tags q = Some [])"

text \<open>\<open>FROM .. WHERE community_id = .. AND deleted_at IS NULL ..\<close>, joined with the mentions.\<close>

definition from_events :: "event_query \<Rightarrow> event_db \<Rightarrow> event_row list" where
  "from_events q db =
     (let live = filter (\<lambda>r. row_community_id r = q_community_id q \<and> row_deleted_at r = None) (db_events db) in
      case q_p_tag_hex q of
        None \<Rightarrow> live
      | Some p_hex \<Rightarrow>
          concat (map (\<lambda>r. map (\<lambda>m. r)
            (filter (\<lambda>m. row_community_id r = m_community_id m \<and> row_id r = m_event_id m \<and>
                         m_community_id m = q_community_id q \<and>
                         m_pubkey_hex m = map ascii_lower p_hex) (db_mentions db))) live))"

text \<open>A clause that is pushed only when its parameter is given.\<close>

definition pushed :: "'a option \<Rightarrow> ('a \<Rightarrow> bool) \<Rightarrow> bool" where
  "pushed c p = (case c of None \<Rightarrow> True | Some x \<Rightarrow> p x)"

definition channel_clause :: "event_query \<Rightarrow> event_row \<Rightarrow> bool" where
  "channel_clause q r =
     ((case q_channel_id q of
         Some ch \<Rightarrow> row_channel_id r = Some ch
       | None \<Rightarrow> if q_global_only q then row_channel_id r = None else True) \<and>
      pushed (q_channel_ids q) (\<lambda>ch_ids.
        if ch_ids = [] then row_channel_id r = None
        else (case row_channel_id r of None \<Rightarrow> True | Some ch \<Rightarrow> ch \<in> set ch_ids)))"

definition event_clause :: "event_query \<Rightarrow> event_row \<Rightarrow> bool" where
  "event_clause q r =
     (pushed (q_kinds q) (\<lambda>ks. ks = [] \<or> row_kind r \<in> set ks) \<and>
      pushed (q_pubkey q) (\<lambda>pk. row_pubkey r = pk) \<and>
      pushed (q_authors q) (\<lambda>authors. authors = [] \<or> row_pubkey r \<in> set authors) \<and>
      pushed (q_ids q) (\<lambda>ids. ids = [] \<or> row_id r \<in> set ids) \<and>
      pushed (q_e_tags q) (\<lambda>e_tags.
        e_tags = [] \<or> list_ex (\<lambda>hex_id. tags_contain (row_tags r) [''e'', hex_id]) e_tags) \<and>
      pushed (q_since q) (\<lambda>s. row_created_at r \<ge> s))"

definition d_tag_clause :: "event_query \<Rightarrow> event_row \<Rightarrow> bool" where
  "d_tag_clause q r =
     (case q_d_tag q of
        Some d \<Rightarrow> row_d_tag r = Some d
      | None \<Rightarrow>
          pushed (q_d_tags q) (\<lambda>ds. ds = [] \<or> (case row_d_tag r of None \<Rightarrow> False | Some d \<Rightarrow> d \<in> set ds)))"

definition count_where :: "event_query \<Rightarrow> event_row \<Rightarrow> bool" where
  "count_where q r =
     (channel_clause q r \<and> event_clause q r \<and>
      pushed (q_until q) (\<lambda>u. row_created_at r \<le> u) \<and> d_tag_clause q r)"

definition count_events :: "event_db \<Rightarrow> event_query \<Rightarrow> nat" where
  "count_events db q =
     (if matches_nothing q then 0 else length (filter (count_where q) (from_events q db)))"

definition query_where :: "event_query \<Rightarrow> event_row \<Rightarrow> bool" where
  "query_where q r =
     (channel_clause q r \<and> event_clause q r \<and>
      pushed (q_until q) (\<lambda>u.
        case q_before_id q of
          Some bid \<Rightarrow> row_created_at r < u \<or> (row_created_at r = u \<and> row_id r > bid)
        | None \<Rightarrow> row_created_at r \<le> u) \<and>
      d_tag_clause q r \<and>
      pushed (q_shared_gated_reader q) (\<lambda>reader.
        row_kind r \<notin> set (map uint SHARED_GATED_KINDS) \<or> row_pubkey r = reader \<or>
        tags_contain (row_tags r) [''shared'', ''true'']))"

text \<open>\<open>ORDER BY created_at DESC, id ASC LIMIT .. OFFSET ..\<close>.\<close>

definition newest_first :: "event_row list \<Rightarrow> event_row list" where
  "newest_first = sort_key (\<lambda>r. (- row_created_at r, row_id r))"

definition query_rows :: "event_db \<Rightarrow> event_query \<Rightarrow> db_error + event_row list" where
  "query_rows db q =
     (if q_before_id q \<noteq> None \<and> q_until q = None
      then Inl (InvalidData ''before_id requires until to be set'')
      else if q_global_only q \<and> q_channel_id q \<noteq> None
      then Inl (InvalidData ''global_only and channel_id are mutually exclusive'')
      else if matches_nothing q then Inr []
      else
        (let clamp = (case q_max_limit q of Some m \<Rightarrow> m | None \<Rightarrow> DEFAULT_MAX_PAGE_LIMIT);
             limit_val = min (case q_limit q of Some l \<Rightarrow> l | None \<Rightarrow> 100) clamp;
             offset_val = (case q_offset q of Some n \<Rightarrow> n | None \<Rightarrow> 0)
         in
         if limit_val < 0 then Inl (Sqlx ''LIMIT must not be negative'')
         else if offset_val < 0 then Inl (Sqlx ''OFFSET must not be negative'')
         else Inr (take (nat limit_val) (drop (nat offset_val)
                (newest_first (filter (query_where q) (from_events q db)))))))"

type_synonym event_decoder =
  "string \<Rightarrow> string \<Rightarrow> int \<Rightarrow> u16 \<Rightarrow> tag list \<Rightarrow> string \<Rightarrow> event option"

definition row_to_stored_event :: "event_decoder \<Rightarrow> event_row \<Rightarrow> db_error + stored_event option" where
  "row_to_stored_event event_from_json r =
     (if row_kind r < 0 \<or> row_kind r > 65535 then Inl (InvalidData ''kind out of u16 range'')
      else Inr (map_option
             (\<lambda>e. with_received_at e (row_received_at r) (row_channel_id r) True)
             (event_from_json (row_id r) (row_pubkey r) (row_created_at r)
                (word_of_int (row_kind r)) (row_tags r) (row_content r))))"

fun read_rows :: "event_decoder \<Rightarrow> event_row list \<Rightarrow> db_error + stored_event list" where
  "read_rows event_from_json [] = Inr []"
| "read_rows event_from_json (r # rs) =
     (case row_to_stored_event event_from_json r of
        Inl e \<Rightarrow> Inl e
      | Inr ev \<Rightarrow>
          (case read_rows event_from_json rs of
             Inl e \<Rightarrow> Inl e
           | Inr out \<Rightarrow> Inr (case ev of Some s \<Rightarrow> s # out | None \<Rightarrow> out)))"

definition query_events :: "event_decoder \<Rightarrow> event_db \<Rightarrow> event_query \<Rightarrow> db_error + stored_event list" where
  "query_events event_from_json db q =
     (case query_rows db q of Inl e \<Rightarrow> Inl e | Inr rows \<Rightarrow> read_rows event_from_json rows)"

text \<open>
  \<open>get_events_by_ids\<close>: the live rows of the given ids. SQL leaves their order open and the
  callers look events up by id; here it is the order of the table.
\<close>

definition get_events_by_ids ::
  "event_decoder \<Rightarrow> event_db \<Rightarrow> uuid \<Rightarrow> string list \<Rightarrow> db_error + stored_event list" where
  "get_events_by_ids event_from_json db community_id ids =
     (if ids = [] then Inr []
      else read_rows event_from_json
             (filter (\<lambda>r. row_community_id r = community_id \<and> row_deleted_at r = None \<and> row_id r \<in> set ids)
               (db_events db)))"

section \<open>The invariant of the tables\<close>

definition row_key :: "event_row \<Rightarrow> uuid \<times> int \<times> string" where
  "row_key r = (row_community_id r, row_created_at r, row_id r)"

definition mention_key :: "mention_row \<Rightarrow> uuid \<times> string \<times> string" where
  "mention_key m = (m_community_id m, m_pubkey_hex m, m_event_id m)"

text \<open>The event whose columns a row has.\<close>

definition row_event :: "event_row \<Rightarrow> event" where
  "row_event r = \<lparr>ev_id = row_id r, ev_pubkey = row_pubkey r, ev_created_at = nat (row_created_at r),
     ev_kind = word_of_int (row_kind r), ev_tags = row_tags r, ev_content = row_content r\<rparr>"

definition row_stored :: "event_row \<Rightarrow> bool" where
  "row_stored r \<longleftrightarrow>
     row_kind r = event_kind_i32 (row_event r) \<and>
     event_kind_u32 (row_event r) \<noteq> KIND_AUTH \<and> \<not> is_ephemeral (event_kind_u32 (row_event r)) \<and>
     row_d_tag r = extract_d_tag (row_event r)"

definition db_ok :: "event_db \<Rightarrow> bool" where
  "db_ok db \<longleftrightarrow>
     distinct (map row_key (db_events db)) \<and> distinct (map mention_key (db_mentions db)) \<and>
     list_all row_stored (db_events db)"

definition db_empty :: event_db where
  "db_empty = \<lparr>db_events = [], db_mentions = []\<rparr>"

lemma db_ok_empty: "db_ok db_empty"
  by (simp add: db_ok_def db_empty_def)

lemma same_key_iff: "same_key r s \<longleftrightarrow> row_key r = row_key s"
  by (auto simp: same_key_def row_key_def)

lemma extract_d_tag_cong:
  "ev_kind e = ev_kind e' \<Longrightarrow> ev_tags e = ev_tags e' \<Longrightarrow> extract_d_tag e = extract_d_tag e'"
  by (simp add: extract_d_tag_def event_kind_u32_def)

lemma insert_event_Inr:
  assumes "insert_event valid now db c e ch = Inr (res, db')"
  obtains row where "row_key row = (c, secs_as_i64 (ev_created_at e), ev_id e)"
    "row_channel_id row = ch" "row_stored row" "row_deleted_at row = None"
    "row_pubkey row = ev_pubkey e" "row_tags row = ev_tags e"
    "snd res \<longleftrightarrow> row_key row \<notin> row_key ` set (db_events db)"
    "db' = (if snd res then db\<lparr>db_events := db_events db @ [row]\<rparr> else db)"
    "event_kind_u32 e \<noteq> KIND_AUTH" "\<not> is_ephemeral (event_kind_u32 e)"
proof -
  let ?row = "\<lparr>row_community_id = c, row_id = ev_id e, row_pubkey = ev_pubkey e,
                       row_created_at = secs_as_i64 (ev_created_at e), row_kind = event_kind_i32 e,
                       row_tags = ev_tags e, row_content = ev_content e, row_received_at = now,
                       row_channel_id = ch, row_d_tag = extract_d_tag e,
                       row_not_before = extract_not_before e, row_deleted_at = None\<rparr>"
  have k: "ev_kind (row_event ?row) = ev_kind e" "ev_tags (row_event ?row) = ev_tags e"
    by (simp_all add: row_event_def event_kind_i32_eq)
  then have "extract_d_tag (row_event ?row) = extract_d_tag e"
    "event_kind_u32 (row_event ?row) = event_kind_u32 e" "event_kind_i32 (row_event ?row) = event_kind_i32 e"
    by (auto intro: extract_d_tag_cong simp: event_kind_u32_def event_kind_i32_eq)
  moreover have "list_ex (same_key ?row) (db_events db) \<longleftrightarrow> row_key ?row \<in> row_key ` set (db_events db)"
    by (auto simp: list_ex_iff same_key_iff)
  ultimately show thesis
    using assms
    by (intro that [of ?row])
      (auto simp: insert_event_def Let_def row_stored_def row_key_def split: if_splits)
qed

lemma db_ok_insert_event: "db_ok db \<Longrightarrow> insert_event valid now db c e ch = Inr (res, db') \<Longrightarrow> db_ok db'"
  by (erule insert_event_Inr) (auto simp: db_ok_def)

lemma distinct_add_mention:
  "distinct (map mention_key ms) \<Longrightarrow> distinct (map mention_key (add_mention m ms))"
  by (auto simp: add_mention_def mention_key_def list_ex_iff)

lemma distinct_add_mentions:
  "distinct (map mention_key ms) \<Longrightarrow> distinct (map mention_key (fold add_mention new ms))"
  by (induction new arbitrary: ms) (auto simp: distinct_add_mention)

lemma db_ok_insert_mentions:
  "db_ok db \<Longrightarrow> insert_mentions valid db c e ch = Inr db' \<Longrightarrow> db_ok db'"
  by (auto simp: insert_mentions_def db_ok_def Let_def distinct_add_mentions split: if_splits)

lemma db_ok_soft_delete: "db_ok db \<Longrightarrow> db_ok (snd (soft_delete_where now p db))"
proof -
  have *: "row_key (if b then r\<lparr>row_deleted_at := d\<rparr> else r) = row_key r"
    "row_stored (if b then r\<lparr>row_deleted_at := d\<rparr> else r) = row_stored r" for b r d
    by (simp_all add: row_key_def row_stored_def row_event_def)
  assume "db_ok db"
  then show ?thesis
    by (simp add: db_ok_def soft_delete_where_def list.pred_map comp_def *)
qed

section \<open>Reading\<close>

lemma pushed_simps [simp]: "pushed None p" "pushed (Some x) p = p x"
  by (simp_all add: pushed_def)

definition in_scope :: "event_query \<Rightarrow> event_db \<Rightarrow> event_row \<Rightarrow> bool" where
  "in_scope q db r \<longleftrightarrow>
     r \<in> set (db_events db) \<and> row_community_id r = q_community_id q \<and> row_deleted_at r = None \<and>
     pushed (q_p_tag_hex q) (\<lambda>p.
       (q_community_id q, map ascii_lower p, row_id r) \<in> mention_key ` set (db_mentions db))"

lemma set_join:
  "r \<in> set (concat (map (\<lambda>r. map (\<lambda>m. r) (filter (p r) ms)) rs)) \<longleftrightarrow> r \<in> set rs \<and> (\<exists>m \<in> set ms. p r m)"
  by auto

lemma set_from_events: "r \<in> set (from_events q db) \<longleftrightarrow> in_scope q db r"
proof (cases "q_p_tag_hex q")
  case None
  then show ?thesis by (auto simp: from_events_def in_scope_def)
next
  case (Some p)
  have "(\<exists>m \<in> set (db_mentions db). row_community_id r = m_community_id m \<and> row_id r = m_event_id m \<and>
        m_community_id m = q_community_id q \<and> m_pubkey_hex m = map ascii_lower p) \<longleftrightarrow>
      row_community_id r = q_community_id q \<and>
      (q_community_id q, map ascii_lower p, row_id r) \<in> mention_key ` set (db_mentions db)"
    by (auto simp: mention_key_def image_iff) metis
  moreover have "r \<in> set (from_events q db) \<longleftrightarrow>
      r \<in> set (db_events db) \<and> row_community_id r = q_community_id q \<and> row_deleted_at r = None \<and>
      (\<exists>m \<in> set (db_mentions db). row_community_id r = m_community_id m \<and> row_id r = m_event_id m \<and>
        m_community_id m = q_community_id q \<and> m_pubkey_hex m = map ascii_lower p)"
    unfolding from_events_def Some Let_def option.case set_join by simp
  ultimately show ?thesis by (simp add: in_scope_def Some) blast
qed

lemma distinct_join:
  assumes "distinct rs" and "\<And>r. r \<in> set rs \<Longrightarrow> length (f r) \<le> 1"
    and "\<And>r x. x \<in> set (f r) \<Longrightarrow> x = r"
  shows "distinct (concat (map f rs))"
  using assms
proof (induction rs)
  case (Cons r rs)
  have "distinct (f r)" using Cons.prems(2) [of r]
    by (cases "f r"; cases "tl (f r)") auto
  moreover have "set (f r) \<inter> set (concat (map f rs)) = {}"
  proof -
    { fix x assume "x \<in> set (f r)" "x \<in> set (concat (map f rs))"
      then obtain s where "s \<in> set rs" "x \<in> set (f s)" by auto
      with \<open>x \<in> set (f r)\<close> Cons.prems(1,3) have False by (metis distinct.simps(2)) }
    then show ?thesis by blast
  qed
  ultimately show ?case using Cons by auto
qed simp

lemma at_most_one:
  "distinct (map k xs) \<Longrightarrow> (\<And>x. x \<in> set xs \<Longrightarrow> p x \<Longrightarrow> k x = c) \<Longrightarrow> length (filter p xs) \<le> 1"
proof (induction xs)
  case (Cons x xs)
  then have IH: "length (filter p xs) \<le> 1" by simp
  show ?case
  proof (cases "p x")
    case True
    with Cons.prems have "\<not> p y" if "y \<in> set xs" for y
      using that by (metis (no_types, lifting) distinct.simps(2) image_eqI list.set_intros list.simps(9) list.set_map)
    then show ?thesis by (simp add: filter_empty_conv)
  qed (use IH in simp)
qed simp

lemma distinct_from_events:
  assumes "db_ok db" shows "distinct (from_events q db)"
proof (cases "q_p_tag_hex q")
  case None
  with assms show ?thesis
    by (auto simp: from_events_def db_ok_def distinct_map intro: distinct_filter)
next
  case (Some p)
  from assms have d: "distinct (db_events db)" by (auto simp: db_ok_def distinct_map)
  have one: "length (filter (\<lambda>m. row_community_id r = m_community_id m \<and> row_id r = m_event_id m \<and>
      m_community_id m = q_community_id q \<and> m_pubkey_hex m = map ascii_lower p) (db_mentions db)) \<le> 1" for r
    by (rule at_most_one [of mention_key _ _ "(q_community_id q, map ascii_lower p, row_id r)"])
      (use assms in \<open>auto simp: db_ok_def mention_key_def\<close>)
  show ?thesis
    unfolding from_events_def Let_def Some option.case
  proof (rule distinct_join)
    show "distinct (filter (\<lambda>r. row_community_id r = q_community_id q \<and> row_deleted_at r = None) (db_events db))"
      using d by simp
  qed (simp_all only: length_map one, auto)
qed

lemma set_newest_first [simp]: "set (newest_first rs) = set rs"
  by (simp add: newest_first_def)

lemma distinct_newest_first [simp]: "distinct (newest_first rs) = distinct rs"
  by (simp add: newest_first_def)

lemma length_newest_first [simp]: "length (newest_first rs) = length rs"
  by (simp add: newest_first_def)

inductive db_reachable :: "(int \<Rightarrow> bool) \<Rightarrow> event_db \<Rightarrow> bool" for from_timestamp where
  empty: "db_reachable from_timestamp db_empty"
| event: "db_reachable from_timestamp db \<Longrightarrow>
    insert_event from_timestamp now db c e ch = Inr (res, db') \<Longrightarrow> db_reachable from_timestamp db'"
| mentions: "db_reachable from_timestamp db \<Longrightarrow>
    insert_mentions from_timestamp db c e ch = Inr db' \<Longrightarrow> db_reachable from_timestamp db'"
| delete_event: "db_reachable from_timestamp db \<Longrightarrow>
    soft_delete_event now db c i = (hit, db') \<Longrightarrow> db_reachable from_timestamp db'"
| delete_coordinate: "db_reachable from_timestamp db \<Longrightarrow>
    soft_delete_by_coordinate from_timestamp now db c k pk d t = Inr (hit, db') \<Longrightarrow>
    db_reachable from_timestamp db'"

lemma db_ok_soft_delete': "db_ok db \<Longrightarrow> soft_delete_where now p db = (hit, db') \<Longrightarrow> db_ok db'"
  using db_ok_soft_delete [of db now p] by simp

lemma db_reachable_ok: "db_reachable from_timestamp db \<Longrightarrow> db_ok db"
  by (induction rule: db_reachable.induct)
    (auto simp: db_ok_empty soft_delete_event_def soft_delete_by_coordinate_def split: if_splits
      intro: db_ok_insert_event db_ok_insert_mentions db_ok_soft_delete')

section \<open>Pages\<close>

definition page_limit :: "event_query \<Rightarrow> int" where
  "page_limit q =
     min (case q_limit q of Some l \<Rightarrow> l | None \<Rightarrow> 100)
       (case q_max_limit q of Some m \<Rightarrow> m | None \<Rightarrow> DEFAULT_MAX_PAGE_LIMIT)"

definition sort_position :: "event_row \<Rightarrow> int \<times> string" where
  "sort_position r = (- row_created_at r, row_id r)"

text \<open>All rows a query selects, in the order of the pages.\<close>

definition hits :: "event_db \<Rightarrow> event_query \<Rightarrow> event_row list" where
  "hits db q = newest_first (filter (query_where q) (from_events q db))"

lemma set_hits: "r \<in> set (hits db q) \<longleftrightarrow> in_scope q db r \<and> query_where q r"
  by (auto simp: hits_def set_from_events)

lemma query_rows_page:
  assumes "query_rows db q = Inr rows" and "q_offset q = None"
  shows "rows = (if matches_nothing q then [] else take (nat (page_limit q)) (hits db q)) \<and>
    (matches_nothing q \<or> 0 \<le> page_limit q)"
  using assms by (auto simp: query_rows_def page_limit_def hits_def Let_def split: if_splits)

lemma row_key_position:
  "row_community_id r = row_community_id s \<Longrightarrow> row_key r = row_key s \<longleftrightarrow> sort_position r = sort_position s"
  by (auto simp: row_key_def sort_position_def)

lemma distinct_map_filter_join: "distinct (map k rs) \<Longrightarrow> r \<in> set rs \<Longrightarrow> s \<in> set rs \<Longrightarrow> k r = k s \<Longrightarrow> r = s"
  by (auto simp: distinct_map inj_on_def)

lemma sorted_hits:
  assumes "db_ok db"
  shows "sorted_wrt (<) (map sort_position (hits db q))"
proof -
  have "distinct (map sort_position (hits db q))"
    unfolding distinct_map
  proof
    show "distinct (hits db q)" using assms by (simp add: hits_def distinct_from_events)
    show "inj_on sort_position (set (hits db q))"
    proof (rule inj_onI)
      fix r s assume "r \<in> set (hits db q)" "s \<in> set (hits db q)" "sort_position r = sort_position s"
      then have "r \<in> set (db_events db)" "s \<in> set (db_events db)" "row_key r = row_key s"
        by (auto simp: set_hits in_scope_def row_key_position)
      with assms show "r = s" by (auto simp: db_ok_def dest: distinct_map_filter_join)
    qed
  qed
  moreover have "sorted (map sort_position (hits db q))"
    unfolding hits_def newest_first_def sort_position_def [abs_def] by (rule sorted_sort_key)
  ultimately show ?thesis by (simp add: strict_sorted_iff)
qed

lemma sorted_after:
  fixes f :: "'a \<Rightarrow> 'b::order"
  assumes "sorted_wrt (<) (map f (xs @ l # ys))"
  shows "filter (\<lambda>r. f l < f r) (xs @ l # ys) = ys"
proof -
  from assms have "\<forall>x \<in> set xs. f x < f l" "\<forall>y \<in> set ys. f l < f y"
    by (auto simp: sorted_wrt_append)
  then have "filter (\<lambda>r. f l < f r) xs = []" "filter (\<lambda>r. f l < f r) ys = ys"
    by (auto simp: filter_empty_conv filter_id_conv dest: less_asym)
  then show ?thesis by simp
qed

definition next_page :: "event_query \<Rightarrow> event_row \<Rightarrow> event_query" where
  "next_page q r = q\<lparr>q_until := Some (row_created_at r), q_before_id := Some (row_id r)\<rparr>"

lemma next_page_clauses [simp]:
  "channel_clause (next_page q l) = channel_clause q" "event_clause (next_page q l) = event_clause q"
  "d_tag_clause (next_page q l) = d_tag_clause q" "from_events (next_page q l) = from_events q"
  "matches_nothing (next_page q l) = matches_nothing q" "page_limit (next_page q l) = page_limit q"
  "q_offset (next_page q l) = q_offset q"
  by (simp_all add: next_page_def channel_clause_def [abs_def] event_clause_def [abs_def]
      d_tag_clause_def [abs_def] from_events_def [abs_def] matches_nothing_def page_limit_def
      cong: option.case_cong)

lemma query_where_next_page:
  assumes "query_where q l"
  shows "query_where (next_page q l) r \<longleftrightarrow> query_where q r \<and> sort_position l < sort_position r"
proof -
  have pos: "sort_position l < sort_position r \<longleftrightarrow>
      row_created_at r < row_created_at l \<or> row_created_at r = row_created_at l \<and> row_id l < row_id r"
    by (auto simp: sort_position_def less_prod_def)
  have "pushed (q_until q) (\<lambda>u. case q_before_id q of
          Some bid \<Rightarrow> row_created_at r < u \<or> (row_created_at r = u \<and> row_id r > bid)
        | None \<Rightarrow> row_created_at r \<le> u)"
    if "sort_position l < sort_position r"
    using that assms unfolding pos query_where_def
    by (cases "q_until q"; cases "q_before_id q") auto
  then show ?thesis
    unfolding query_where_def next_page_clauses pos by (auto simp: next_page_def)
qed

lemma hits_next_page:
  assumes "db_ok db" and "hits db q = xs @ l # ys"
  shows "hits db (next_page q l) = ys"
proof -
  have "query_where q l" using assms(2) set_hits [of l db q] by simp
  then have "hits db (next_page q l) = filter (\<lambda>r. sort_position l < sort_position r) (hits db q)"
    by (simp add: hits_def newest_first_def filter_sort query_where_next_page conj_commute
        cong: filter_cong)
  also have "\<dots> = ys"
    using sorted_after [of sort_position xs l ys] sorted_hits [OF assms(1), of q] assms(2) by simp
  finally show ?thesis .
qed

section \<open>Counting and scoping\<close>

lemma count_where_query_where:
  "q_before_id q = None \<Longrightarrow> q_shared_gated_reader q = None \<Longrightarrow> count_where q = query_where q"
  by (simp add: count_where_def [abs_def] query_where_def [abs_def])

lemma count_hits:
  "q_before_id q = None \<Longrightarrow> q_shared_gated_reader q = None \<Longrightarrow>
     count_events db q = (if matches_nothing q then 0 else length (hits db q))"
  by (simp add: count_events_def hits_def count_where_query_where)

text \<open>Two tables that have the same live rows and mentions of a community.\<close>

lemma from_events_scope:
  assumes "filter (\<lambda>r. row_community_id r = q_community_id q \<and> row_deleted_at r = None) (db_events db) =
      filter (\<lambda>r. row_community_id r = q_community_id q \<and> row_deleted_at r = None) (db_events db')"
    and "filter (\<lambda>m. m_community_id m = q_community_id q) (db_mentions db) =
      filter (\<lambda>m. m_community_id m = q_community_id q) (db_mentions db')"
  shows "from_events q db = from_events q db'"
proof (cases "q_p_tag_hex q")
  case None
  with assms(1) show ?thesis by (simp add: from_events_def)
next
  case (Some p)
  have swap: "filter (\<lambda>m. P m \<and> Q m \<and> m_community_id m = q_community_id q \<and> R m) ms =
      filter (\<lambda>m. P m \<and> Q m \<and> R m) (filter (\<lambda>m. m_community_id m = q_community_id q) ms)"
    for P Q R and ms :: "mention_row list"
    unfolding filter_filter by (rule filter_cong) auto
  show ?thesis
    unfolding from_events_def Let_def Some option.case assms(1) swap assms(2) by (rule refl)
qed

lemma query_rows_cong: "from_events q db = from_events q db' \<Longrightarrow> query_rows db q = query_rows db' q"
  by (simp add: query_rows_def Let_def)

lemma count_events_cong: "from_events q db = from_events q db' \<Longrightarrow> count_events db q = count_events db' q"
  by (simp add: count_events_def)

lemma insert_event_scope:
  assumes "insert_event valid now db c e ch = Inr (res, db')" and "q_community_id q \<noteq> c"
  shows "from_events q db' = from_events q db"
  using assms(1)
proof (rule insert_event_Inr)
  fix row assume "row_key row = (c, secs_as_i64 (ev_created_at e), ev_id e)"
    "db' = (if snd res then db\<lparr>db_events := db_events db @ [row]\<rparr> else db)"
  with assms(2) show ?thesis by (intro from_events_scope) (auto simp: row_key_def)
qed

lemma add_mentions_scope:
  "\<forall>m \<in> set new. m_community_id m \<noteq> c \<Longrightarrow>
     filter (\<lambda>m. m_community_id m = c) (fold add_mention new ms) = filter (\<lambda>m. m_community_id m = c) ms"
  by (induction new arbitrary: ms) (auto simp: add_mention_def)

lemma insert_mentions_scope:
  assumes "insert_mentions valid db c e ch = Inr db'" and "q_community_id q \<noteq> c"
  shows "from_events q db' = from_events q db"
proof (cases "has_p_tag e")
  case True
  with assms(1) obtain new where new: "db' = db\<lparr>db_mentions := fold add_mention new (db_mentions db)\<rparr>"
      "\<forall>m \<in> set new. m_community_id m = c"
    by (auto simp: insert_mentions_def Let_def split: if_splits)
  then show ?thesis using assms(2) by (intro from_events_scope) (auto simp: add_mentions_scope)
next
  case False
  with assms show ?thesis by (simp add: insert_mentions_def)
qed

lemma soft_delete_scope:
  assumes "soft_delete_where now p db = (hit, db')" and "\<And>r. p r \<Longrightarrow> row_community_id r \<noteq> q_community_id q"
  shows "from_events q db' = from_events q db"
proof (rule from_events_scope)
  from assms(1) have db': "db_events db' = map (\<lambda>r. if p r \<and> row_deleted_at r = None
        then r\<lparr>row_deleted_at := Some now\<rparr> else r) (db_events db)" "db_mentions db' = db_mentions db"
    by (auto simp: soft_delete_where_def)
  have "filter (\<lambda>r. row_community_id r = q_community_id q \<and> row_deleted_at r = None)
      (map (\<lambda>r. if p r \<and> row_deleted_at r = None then r\<lparr>row_deleted_at := Some now\<rparr> else r) rs) =
    filter (\<lambda>r. row_community_id r = q_community_id q \<and> row_deleted_at r = None) rs" for rs
    using assms(2) by (induction rs) auto
  then show "filter (\<lambda>r. row_community_id r = q_community_id q \<and> row_deleted_at r = None) (db_events db') =
      filter (\<lambda>r. row_community_id r = q_community_id q \<and> row_deleted_at r = None) (db_events db)"
    by (simp add: db')
  show "filter (\<lambda>m. m_community_id m = q_community_id q) (db_mentions db') =
      filter (\<lambda>m. m_community_id m = q_community_id q) (db_mentions db)"
    by (simp add: db')
qed

lemma soft_delete_event_scope:
  assumes "soft_delete_event now db c i = (hit, db')" and "q_community_id q \<noteq> c"
  shows "from_events q db' = from_events q db"
  by (rule soft_delete_scope [OF assms(1) [unfolded soft_delete_event_def]]) (use assms(2) in auto)

lemma soft_delete_coordinate_scope:
  assumes "soft_delete_by_coordinate valid now db c k pk d t = Inr (hit, db')" and "q_community_id q \<noteq> c"
  shows "from_events q db' = from_events q db"
proof -
  have "soft_delete_where now (\<lambda>r. row_community_id r = c \<and> row_kind r = k \<and> row_pubkey r = pk \<and>
      row_d_tag r = Some d \<and> row_created_at r \<le> t) db = (hit, db')"
    using assms(1) by (simp add: soft_delete_by_coordinate_def split: if_splits)
  then show ?thesis by (rule soft_delete_scope) (use assms(2) in auto)
qed

section \<open>Properties\<close>

text \<open>
  A page of a query on any reachable database is exact: it has only live rows of the
  query's community that satisfy its clauses, each once and newest first (ties by id), no
  more than the limit, which is 1000 unless raised; and a page that is not full is the
  whole result.
\<close>

lemma query_page_exact:
  assumes "db_reachable from_timestamp db" and "q_offset q = None" and "query_rows db q = Inr rows"
  shows "distinct rows \<and> sorted_wrt (<) (map sort_position rows) \<and>
    (rows = [] \<or> int (length rows) \<le> page_limit q) \<and>
    (\<forall>r. r \<in> set rows \<longrightarrow> in_scope q db r \<and> query_where q r) \<and>
    (int (length rows) < page_limit q \<longrightarrow>
      set rows = {r. \<not> matches_nothing q \<and> in_scope q db r \<and> query_where q r})"
proof -
  note ok = db_reachable_ok [OF assms(1)]
  note page = query_rows_page [OF assms(3,2)]
  have dist: "distinct (hits db q)" using ok by (simp add: hits_def distinct_from_events)
  have sorted: "sorted_wrt (<) (map sort_position (take n (hits db q)))" for n
    using sorted_hits [OF ok, of q] by (metis sorted_wrt_take take_map)
  have scope: "r \<in> set (take n (hits db q)) \<Longrightarrow> in_scope q db r \<and> query_where q r" for r n
    by (metis set_hits in_set_takeD)
  have all: "set (hits db q) = {r. in_scope q db r \<and> query_where q r}"
    by (simp add: set_eq_iff set_hits)
  show ?thesis
  proof (cases "matches_nothing q")
    case False
    then have rows: "rows = take (nat (page_limit q)) (hits db q)" "0 \<le> page_limit q"
      using page by auto
    then have "int (length rows) \<le> page_limit q" by simp
    moreover have "rows = hits db q" if "int (length rows) < page_limit q"
      using rows that by simp
    moreover have "distinct rows" "sorted_wrt (<) (map sort_position rows)"
      unfolding rows using dist sorted by simp_all
    moreover have "\<forall>r. r \<in> set rows \<longrightarrow> in_scope q db r \<and> query_where q r"
      unfolding rows using scope by blast
    ultimately show ?thesis using False all by blast
  next
    case True
    then show ?thesis using page by simp
  qed
qed

text \<open>
  C26. Keyset pagination is gapless: with the cursor of the last row of a page, the next
  page continues exactly where the page ended, so that the two pages together are the first
  rows of the one result of the original query, without a loss or a repetition.
\<close>

theorem keyset_pagination:
  assumes "db_reachable from_timestamp db" and "q_offset q = None"
    and "query_rows db q = Inr rows" and "rows \<noteq> []"
    and "query_rows db (next_page q (last rows)) = Inr rows'"
  shows "rows @ rows' = take (2 * nat (page_limit q)) (hits db q)"
proof -
  have some: "\<not> matches_nothing q" and rows: "rows = take (nat (page_limit q)) (hits db q)"
    using query_rows_page [OF assms(3,2)] assms(4) by (auto split: if_splits)
  obtain xs l where xs: "rows = xs @ [l]" using assms(4) by (metis rev_exhaust)
  then have hits: "hits db q = xs @ l # drop (nat (page_limit q)) (hits db q)"
    using rows append_take_drop_id [of "nat (page_limit q)" "hits db q"] by simp
  have off: "q_offset (next_page q (last rows)) = None" using assms(2) by simp
  have "rows' = take (nat (page_limit q)) (hits db (next_page q l))"
    using query_rows_page [OF assms(5) off] some xs by simp
  also have "\<dots> = take (nat (page_limit q)) (drop (nat (page_limit q)) (hits db q))"
    by (subst hits_next_page [OF db_reachable_ok [OF assms(1)] hits]) (rule refl)
  finally show ?thesis
    using rows by (simp add: take_add [symmetric] mult_2)
qed

text \<open>
  \<open>COUNT\<close> and the query agree: where neither cursor nor reader gate is set, a page that
  is not full has exactly as many rows as \<open>count_events\<close> reports.
\<close>

lemma count_agrees_with_query:
  assumes "q_offset q = None" and "q_before_id q = None" and "q_shared_gated_reader q = None"
    and "query_rows db q = Inr rows" and "int (length rows) < page_limit q"
  shows "count_events db q = length rows"
  using query_rows_page [OF assms(4,1)] assms(5) count_hits [OF assms(2,3), of db]
  by (auto split: if_splits)

text \<open>
  Communities are isolated in storage: inserting an event, recording its mentions, or
  deleting by id or by coordinate in one community changes neither the pages nor the counts
  of any query of another community.
\<close>

lemma tenant_isolation:
  assumes "q_community_id q \<noteq> c"
    and "insert_event from_timestamp now db c e ch = Inr (res, db') \<or>
      insert_mentions from_timestamp db c e ch = Inr db' \<or>
      soft_delete_event now db c i = (hit, db') \<or>
      soft_delete_by_coordinate from_timestamp now db c k pk d t = Inr (hit, db')"
  shows "query_rows db' q = query_rows db q \<and> count_events db' q = count_events db q"
proof -
  have "from_events q db' = from_events q db"
    using assms(2)
    by (elim disjE) (erule insert_event_scope insert_mentions_scope soft_delete_event_scope
      soft_delete_coordinate_scope, rule assms(1))+
  then show ?thesis by (intro conjI query_rows_cong count_events_cong)
qed

section \<open>A small database\<close>

definition demo_event :: "string \<Rightarrow> nat \<Rightarrow> event" where
  "demo_event i t =
     \<lparr>ev_id = i, ev_pubkey = ''aa'', ev_created_at = t, ev_kind = 9, ev_tags = [[''h'', ''room'']], ev_content = []\<rparr>"

definition demo_insert :: "uuid \<Rightarrow> event \<Rightarrow> event_db \<Rightarrow> event_db" where
  "demo_insert c e db =
     (case insert_event (\<lambda>_. True) 0 db c e (Some ''room'') of Inl _ \<Rightarrow> db | Inr (_, db') \<Rightarrow> db')"

definition demo_db :: event_db where
  "demo_db =
     fold (\<lambda>(c, i, t). demo_insert c (demo_event i t))
       [(''c1'', ''01'', 5), (''c1'', ''03'', 7), (''c2'', ''04'', 6), (''c1'', ''02'', 7), (''c1'', ''03'', 7)] db_empty"

definition demo_query :: event_query where
  "demo_query = (for_community ''c1'')\<lparr>q_limit := Some 2, q_kinds := Some [9]\<rparr>"

lemma demo_insert_reachable:
  "db_reachable (\<lambda>_. True) db \<Longrightarrow> db_reachable (\<lambda>_. True) (demo_insert c e db)"
  by (auto simp: demo_insert_def intro: db_reachable.event split: sum.split)

lemma demo_db_reachable: "db_reachable (\<lambda>_. True) demo_db"
  by (simp add: demo_db_def demo_insert_reachable db_reachable.empty)

definition demo_row :: "string \<Rightarrow> int \<Rightarrow> event_row" where
  "demo_row i t =
     \<lparr>row_community_id = ''c1'', row_id = i, row_pubkey = ''aa'', row_created_at = t, row_kind = 9,
      row_tags = [[''h'', ''room'']], row_content = [], row_received_at = 0, row_channel_id = Some ''room'',
      row_d_tag = None, row_not_before = None, row_deleted_at = None\<rparr>"

lemma demo_page: "query_rows demo_db demo_query = Inr [demo_row ''02'' 7, demo_row ''03'' 7]"
  by code_simp

lemma demo_page2:
  "query_rows demo_db (next_page demo_query (last [demo_row ''02'' 7, demo_row ''03'' 7])) = Inr [demo_row ''01'' 5]"
  by code_simp

lemma query_page_exact_instance:
  "sorted_wrt (<) (map sort_position [demo_row ''02'' 7, demo_row ''03'' 7]) \<and>
   in_scope demo_query demo_db (demo_row ''02'' 7)"
proof -
  have "q_offset demo_query = None" by code_simp
  from query_page_exact [OF demo_db_reachable this demo_page] show ?thesis by simp
qed

theorem keyset_pagination_witness:
  "[demo_row ''02'' 7, demo_row ''03'' 7] @ [demo_row ''01'' 5] = take 4 (hits demo_db demo_query)"
proof -
  have "q_offset demo_query = None" "2 * nat (page_limit demo_query) = 4" by code_simp+
  with keyset_pagination [OF demo_db_reachable _ demo_page _ demo_page2] show ?thesis by simp
qed

lemma count_agrees_with_query_instance: "count_events demo_db (demo_query\<lparr>q_limit := None\<rparr>) = 3"
proof -
  let ?q = "demo_query\<lparr>q_limit := None\<rparr>"
  have q: "q_offset ?q = None" "q_before_id ?q = None" "q_shared_gated_reader ?q = None"
    "query_rows demo_db ?q = Inr [demo_row ''02'' 7, demo_row ''03'' 7, demo_row ''01'' 5]"
    "int (length [demo_row ''02'' 7, demo_row ''03'' 7, demo_row ''01'' 5]) < page_limit ?q"
    by code_simp+
  from count_agrees_with_query [OF q] show ?thesis by simp
qed

lemma tenant_isolation_instance:
  "query_rows (snd (soft_delete_event 9 demo_db ''c2'' ''04'')) demo_query = query_rows demo_db demo_query \<and>
   fst (soft_delete_event 9 demo_db ''c2'' ''04'')"
proof -
  have c: "q_community_id demo_query \<noteq> ''c2''" and d: "fst (soft_delete_event 9 demo_db ''c2'' ''04'')"
    by code_simp+
  have "soft_delete_event 9 demo_db ''c2'' ''04'' =
      (fst (soft_delete_event 9 demo_db ''c2'' ''04''), snd (soft_delete_event 9 demo_db ''c2'' ''04''))"
    by simp
  with tenant_isolation [OF c, where now = 9 and db = demo_db and i = "''04''"] d show ?thesis by blast
qed

end
