(* ===== verification/Query_Pushdown.thy ===== *)
theory Query_Pushdown
  imports Read_Gates Event_Store
begin

text \<open>
  From filters to database queries, crates/buzz-relay/src/handlers/req.rs: the constraints
  of a filter that are pushed into SQL, the test that a filter is pushed completely, the
  channel a request is scoped to, and the bounds of the \<open>COUNT\<close> fallback.

  \<open>parse_uuid\<close> stands for the text parser of the uuid crate and \<open>from_timestamp\<close> for the
  range check of chrono. Sets of the nostr crate are duplicate-free lists
  (\<open>filter_wf\<close>).
\<close>

section \<open>Query construction\<close>

definition COUNT_FALLBACK_CANDIDATE_LIMIT :: int where "COUNT_FALLBACK_CANDIDATE_LIMIT = 5000"

definition timestamp_param :: "(int \<Rightarrow> bool) \<Rightarrow> nat option \<Rightarrow> int option" where
  "timestamp_param from_timestamp secs =
     (case secs of
        None \<Rightarrow> None
      | Some s \<Rightarrow> if from_timestamp (secs_as_i64 s) then Some (secs_as_i64 s) else None)"

text \<open>\<open>(l as i64).min(DEFAULT_MAX_PAGE_LIMIT)\<close> of a 64-bit \<open>usize\<close>.\<close>

definition limit_param :: "nat option \<Rightarrow> int" where
  "limit_param l =
     (case l of
        Some n \<Rightarrow> min (sint (word_of_nat n :: u64)) DEFAULT_MAX_PAGE_LIMIT
      | None \<Rightarrow> DEFAULT_MAX_PAGE_LIMIT)"

definition nip33_only :: "nostr_filter \<Rightarrow> bool" where
  "nip33_only f =
     (case f_kinds f of
        None \<Rightarrow> False
      | Some ks \<Rightarrow> ks \<noteq> [] \<and> list_all (\<lambda>k. is_parameterized_replaceable (ucast k)) ks)"

definition filter_to_query_params ::
  "(int \<Rightarrow> bool) \<Rightarrow> nostr_filter \<Rightarrow> uuid option \<Rightarrow> uuid \<Rightarrow> event_query" where
  "filter_to_query_params from_timestamp f channel_id community =
     (let kinds = map_option (map (\<lambda>k. uint k)) (f_kinds f);
          (pubkey, authors) =
            (case f_authors f of
               Some [a] \<Rightarrow> (Some a, None)
             | Some (a # b # as) \<Rightarrow> (None, Some (a # b # as))
             | _ \<Rightarrow> (None, None));
          ids = (case f_ids f of Some (i # is) \<Rightarrow> Some (i # is) | _ \<Rightarrow> None);
          e_tags = (case generic_tag f ''e'' of Some (v # vs) \<Rightarrow> Some (v # vs) | _ \<Rightarrow> None);
          p_tag_hex = (case generic_tag f ''p'' of Some [v] \<Rightarrow> Some v | _ \<Rightarrow> None);
          (d_tag, d_tags) =
            (if nip33_only f then
               (case generic_tag f ''d'' of
                  Some [v] \<Rightarrow> (Some v, None)
                | Some (v # w # vs) \<Rightarrow> (None, Some (v # w # vs))
                | _ \<Rightarrow> (None, None))
             else (None, None))
      in (for_community community)
           \<lparr>q_channel_id := channel_id, q_kinds := kinds, q_pubkey := pubkey,
            q_since := timestamp_param from_timestamp (f_since f),
            q_until := timestamp_param from_timestamp (f_until f),
            q_limit := Some (limit_param (f_limit f)),
            q_p_tag_hex := p_tag_hex, q_d_tag := d_tag, q_d_tags := d_tags,
            q_authors := authors, q_ids := ids, q_e_tags := e_tags\<rparr>)"

text \<open>
  The loop over the tags stops at the first value of \<open>#h\<close> that is a channel id.
\<close>

definition extract_channel_id_from_filter :: "(string \<Rightarrow> uuid option) \<Rightarrow> nostr_filter \<Rightarrow> uuid option" where
  "extract_channel_id_from_filter parse_uuid f =
     find_map (\<lambda>(tag_key, tag_values). if tag_key = ''h'' then find_map parse_uuid tag_values else None)
       (f_generic_tags f)"

definition build_event_query_from_filter ::
  "(int \<Rightarrow> bool) \<Rightarrow> (string \<Rightarrow> uuid option) \<Rightarrow> nostr_filter \<Rightarrow> uuid \<Rightarrow> event_query" where
  "build_event_query_from_filter from_timestamp parse_uuid f community =
     filter_to_query_params from_timestamp f (extract_channel_id_from_filter parse_uuid f) community"

definition apply_count_fallback_limit :: "event_query \<Rightarrow> event_query" where
  "apply_count_fallback_limit q =
     (let fetch_limit = COUNT_FALLBACK_CANDIDATE_LIMIT + 1 in
      q\<lparr>q_limit := Some fetch_limit, q_max_limit := Some fetch_limit\<rparr>)"

definition count_fallback_exceeded :: "nat \<Rightarrow> bool" where
  "count_fallback_exceeded candidate_count = (int candidate_count > COUNT_FALLBACK_CANDIDATE_LIMIT)"

definition apply_access_scope_to_query :: "event_query \<Rightarrow> uuid option \<Rightarrow> uuid list \<Rightarrow> event_query" where
  "apply_access_scope_to_query q channel_id accessible_channels =
     (if channel_id = None then q\<lparr>q_channel_ids := Some accessible_channels\<rparr> else q)"

section \<open>Pushability and scope\<close>

definition filter_fully_pushable :: "nostr_filter \<Rightarrow> bool" where
  "filter_fully_pushable f =
     (list_all (\<lambda>(key, tag_values).
        if key = ''h'' then length tag_values \<le> 1
        else if key = ''p'' then length tag_values \<le> 1
        else if key = ''d'' then tag_values = [] \<or> nip33_only f
        else if key = ''e'' then True
        else tag_values = []) (f_generic_tags f) \<and>
      f_search f = None)"

definition filters_are_nip43_membership_only :: "nostr_filter list \<Rightarrow> bool" where
  "filters_are_nip43_membership_only filters =
     (filters \<noteq> [] \<and>
      list_all (\<lambda>f. some_and_all (f_kinds f) (\<lambda>k. ucast k = KIND_NIP43_MEMBERSHIP_LIST)) filters)"

text \<open>
  \<open>extract_channel_id_from_filters\<close>: three nested loops with an early return. The result of
  a loop is \<open>None\<close> for the early return, else the state it ends with, \<open>found_id\<close> and, inside
  a filter, whether the filter has a channel.
\<close>

fun channel_values_loop ::
  "(string \<Rightarrow> uuid option) \<Rightarrow> string list \<Rightarrow> uuid option \<times> bool \<Rightarrow> (uuid option \<times> bool) option" where
  "channel_values_loop parse_uuid [] st = Some st"
| "channel_values_loop parse_uuid (val # vals) (found_id, has_channel) =
     (case parse_uuid val of
        None \<Rightarrow> channel_values_loop parse_uuid vals (found_id, has_channel)
      | Some i \<Rightarrow>
          (case found_id of
             Some existing \<Rightarrow>
               if existing \<noteq> i then None
               else channel_values_loop parse_uuid vals (Some i, True)
           | None \<Rightarrow> channel_values_loop parse_uuid vals (Some i, True)))"

fun channel_tags_loop ::
  "(string \<Rightarrow> uuid option) \<Rightarrow> (string \<times> string list) list \<Rightarrow> uuid option \<times> bool \<Rightarrow> (uuid option \<times> bool) option" where
  "channel_tags_loop parse_uuid [] st = Some st"
| "channel_tags_loop parse_uuid ((key, vals) # tags) st =
     (if key = ''h'' then
        (case channel_values_loop parse_uuid vals st of
           None \<Rightarrow> None
         | Some st' \<Rightarrow> channel_tags_loop parse_uuid tags st')
      else channel_tags_loop parse_uuid tags st)"

fun channel_filters_loop ::
  "(string \<Rightarrow> uuid option) \<Rightarrow> nostr_filter list \<Rightarrow> uuid option \<Rightarrow> uuid option" where
  "channel_filters_loop parse_uuid [] found_id = found_id"
| "channel_filters_loop parse_uuid (f # fs) found_id =
     (case channel_tags_loop parse_uuid (f_generic_tags f) (found_id, False) of
        None \<Rightarrow> None
      | Some (found_id', has_channel) \<Rightarrow>
          if \<not> has_channel then None else channel_filters_loop parse_uuid fs found_id')"

definition extract_channel_id_from_filters ::
  "(string \<Rightarrow> uuid option) \<Rightarrow> nostr_filter list \<Rightarrow> uuid option" where
  "extract_channel_id_from_filters parse_uuid filters = channel_filters_loop parse_uuid filters None"

definition resolve_request_local_access ::
  "uuid list \<Rightarrow> uuid \<Rightarrow> bool \<Rightarrow> bool option \<Rightarrow> bool \<times> uuid list" where
  "resolve_request_local_access accessible_channels ch_id token_allows db_is_member =
     (if \<not> token_allows then (False, accessible_channels)
      else if ch_id \<in> set accessible_channels then (True, accessible_channels)
      else (case db_is_member of
              Some True \<Rightarrow> (True, accessible_channels @ [ch_id])
            | _ \<Rightarrow> (False, accessible_channels)))"

datatype channel_scope =
    ChannelsOrChannelLess "uuid list"
  | Channels "uuid list"
  | ChannelLessOnly

definition build_search_channel_scope_filter :: "uuid list \<Rightarrow> bool \<Rightarrow> channel_scope option" where
  "build_search_channel_scope_filter accessible_channels include_global =
     (if accessible_channels = [] then (if include_global then Some ChannelLessOnly else None)
      else Some (if include_global then ChannelsOrChannelLess accessible_channels
                 else Channels accessible_channels))"

section \<open>Channel scope\<close>

text \<open>The channels that the \<open>#h\<close> values of a filter name.\<close>

definition h_channels :: "(string \<Rightarrow> uuid option) \<Rightarrow> nostr_filter \<Rightarrow> uuid list" where
  "h_channels parse_uuid f =
     List.map_filter parse_uuid (concat (map snd (filter (\<lambda>kv. fst kv = ''h'') (f_generic_tags f))))"

text \<open>The loop state after reading a list of channels; \<open>None\<close> when two of them differ.\<close>

definition single_channel :: "uuid list \<Rightarrow> uuid option \<times> bool \<Rightarrow> (uuid option \<times> bool) option" where
  "single_channel ids st =
     (if ids = [] then Some st
      else if set ids \<union> set_option (fst st) = {hd ids} then Some (Some (hd ids), True)
      else None)"

lemma single_channel_Nil [simp]: "single_channel [] st = Some st"
  by (simp add: single_channel_def)

lemma single_channel_append:
  "single_channel (xs @ ys) st = Option.bind (single_channel xs st) (single_channel ys)"
  by (cases xs; cases ys) (auto simp: single_channel_def)

lemma channel_values_loop_eq:
  "channel_values_loop parse_uuid vals st = single_channel (List.map_filter parse_uuid vals) st"
proof (induction parse_uuid vals st rule: channel_values_loop.induct)
  case (2 parse_uuid val vals found_id has_channel)
  show ?case
  proof (cases "parse_uuid val")
    case None
    with 2 show ?thesis by (simp add: map_filter_simps)
  next
    case (Some i)
    have "single_channel (i # ids) (found_id, has_channel) =
        Option.bind (single_channel [i] (found_id, has_channel)) (single_channel ids)" for ids
      using single_channel_append [of "[i]" ids] by simp
    with 2 Some show ?thesis
      by (cases found_id) (auto simp: map_filter_simps single_channel_def)
  qed
qed (simp add: map_filter_simps)

lemma map_filter_append: "List.map_filter f (xs @ ys) = List.map_filter f xs @ List.map_filter f ys"
  by (simp add: List.map_filter_def)

lemma channel_tags_loop_eq:
  "channel_tags_loop parse_uuid tags st =
     single_channel (List.map_filter parse_uuid (concat (map snd (filter (\<lambda>kv. fst kv = ''h'') tags)))) st"
  by (induction parse_uuid tags st rule: channel_tags_loop.induct)
    (auto simp: channel_values_loop_eq map_filter_append single_channel_append map_filter_simps
      split: option.split)

lemma channel_filters_loop_Some:
  "channel_filters_loop parse_uuid fs found_id = Some c \<longleftrightarrow>
     (if fs = [] then found_id = Some c
      else (\<forall>f \<in> set fs. set (h_channels parse_uuid f) = {c}) \<and> set_option found_id \<subseteq> {c})"
proof (induction fs arbitrary: found_id)
  case (Cons f fs)
  let ?ids = "h_channels parse_uuid f"
  have loop: "channel_tags_loop parse_uuid (f_generic_tags f) (found_id, False) =
      single_channel ?ids (found_id, False)"
    by (simp add: channel_tags_loop_eq h_channels_def)
  show ?case
  proof (cases "?ids \<noteq> [] \<and> set ?ids \<union> set_option found_id = {hd ?ids}")
    case True
    then have "single_channel ?ids (found_id, False) = Some (Some (hd ?ids), True)"
      by (simp add: single_channel_def)
    moreover have "set ?ids = {hd ?ids}" using True by (cases ?ids) auto
    ultimately show ?thesis using True Cons loop by auto
  next
    case False
    then have "channel_filters_loop parse_uuid (f # fs) found_id = None"
      by (auto simp: loop single_channel_def)
    moreover have "\<not> (set ?ids = {c} \<and> set_option found_id \<subseteq> {c})"
      using False by (cases ?ids) auto
    ultimately show ?thesis by auto
  qed
qed simp

text \<open>
  The channel a request is scoped to: \<open>extract_channel_id_from_filters\<close> answers a
  channel exactly when there is a filter and each filter names that channel, and no other,
  among the \<open>#h\<close> values that are channel ids; in every other case the request is global.
\<close>

lemma request_channel_exact:
  "(extract_channel_id_from_filters parse_uuid fs = Some c) =
     (fs \<noteq> [] \<and> list_all (\<lambda>f. set (h_channels parse_uuid f) = {c}) fs)"
  by (auto simp: extract_channel_id_from_filters_def channel_filters_loop_Some list_all_iff)

section \<open>What the pushdown selects\<close>

definition filter_wf :: "nostr_filter \<Rightarrow> bool" where
  "filter_wf f \<longleftrightarrow> list_all (\<lambda>kv. distinct (snd kv)) (f_generic_tags f)"

text \<open>The mentions recorded for a row are those of its event.\<close>

definition mentions_recorded :: "event_db \<Rightarrow> event_row \<Rightarrow> bool" where
  "mentions_recorded db r \<longleftrightarrow>
     (\<forall>pk. (row_community_id r, pk, row_id r) \<in> mention_key ` set (db_mentions db) \<longleftrightarrow>
           pk \<in> set (valid_pubkeys (row_event r)))"

definition row_stored_event :: "event_row \<Rightarrow> stored_event" where
  "row_stored_event r = with_received_at (row_event r) (row_received_at r) (row_channel_id r) True"

lemma row_stored_event_simps [simp]:
  "se_event (row_stored_event r) = row_event r" "se_channel_id (row_stored_event r) = row_channel_id r"
  by (simp_all add: row_stored_event_def with_received_at_def)

lemma row_event_simps [simp]:
  "ev_id (row_event r) = row_id r" "ev_pubkey (row_event r) = row_pubkey r"
  "ev_tags (row_event r) = row_tags r" "ev_created_at (row_event r) = nat (row_created_at r)"
  by (simp_all add: row_event_def)

lemma query_params_fields:
  assumes "q = filter_to_query_params valid f ch c"
  shows "q_community_id q = c" "q_channel_id q = ch" "q_kinds q = map_option (map uint) (f_kinds f)"
    "q_pubkey q = (case f_authors f of Some [a] \<Rightarrow> Some a | _ \<Rightarrow> None)"
    "q_authors q = (case f_authors f of Some (a # b # as) \<Rightarrow> Some (a # b # as) | _ \<Rightarrow> None)"
    "q_ids q = (case f_ids f of Some (i # is) \<Rightarrow> Some (i # is) | _ \<Rightarrow> None)"
    "q_e_tags q = (case generic_tag f ''e'' of Some (v # vs) \<Rightarrow> Some (v # vs) | _ \<Rightarrow> None)"
    "q_p_tag_hex q = (case generic_tag f ''p'' of Some [v] \<Rightarrow> Some v | _ \<Rightarrow> None)"
    "q_d_tag q = (if nip33_only f then (case generic_tag f ''d'' of Some [v] \<Rightarrow> Some v | _ \<Rightarrow> None) else None)"
    "q_d_tags q = (if nip33_only f then
       (case generic_tag f ''d'' of Some (v # w # vs) \<Rightarrow> Some (v # w # vs) | _ \<Rightarrow> None) else None)"
    "q_since q = timestamp_param valid (f_since f)" "q_until q = timestamp_param valid (f_until f)"
    "q_global_only q = False" "q_channel_ids q = None" "q_before_id q = None"
    "q_shared_gated_reader q = None" "q_offset q = None"
  by (simp_all add: assms filter_to_query_params_def for_community_def Let_def split: prod.split option.split list.split)

lemma secs_as_i64_small: "n < 2 ^ 63 \<Longrightarrow> secs_as_i64 n = int n"
proof -
  assume "n < 2 ^ 63"
  then have "int n < 2 ^ 63" by simp
  moreover have "sint (word_of_nat n :: u64) = signed_take_bit 63 (int n)"
    by transfer simp
  ultimately show ?thesis by (simp add: secs_as_i64_def signed_take_bit_int_eq_self)
qed

lemma since_pushed:
  "meets (f_since f) (\<lambda>s. s \<le> nat t) \<Longrightarrow> 0 \<le> t \<Longrightarrow> t < 2 ^ 63 \<Longrightarrow>
     pushed (timestamp_param valid (f_since f)) (\<lambda>s. s \<le> t)"
  by (cases "f_since f") (auto simp: timestamp_param_def secs_as_i64_small)

lemma until_pushed:
  "meets (f_until f) (\<lambda>u. nat t \<le> u) \<Longrightarrow> meets (f_until f) (\<lambda>u. u < 2 ^ 63) \<Longrightarrow>
     pushed (timestamp_param valid (f_until f)) (\<lambda>u. t \<le> u)"
  by (cases "f_until f") (auto simp: timestamp_param_def secs_as_i64_small)

lemma generic_tag_matches:
  "filter_match_one f ev \<Longrightarrow> generic_tag f k = Some vs \<Longrightarrow> k \<noteq> ''h'' \<Longrightarrow>
     \<exists>v \<in> set vs. v \<in> set (tag_values k (se_event ev))"
  unfolding generic_tag_def by (rule filter_match_tag)

lemma tag_values_contain: "v \<in> set (tag_values k e) \<Longrightarrow> tags_contain (ev_tags e) [k, v]"
proof -
  assume "v \<in> set (tag_values k e)"
  then obtain t where "t \<in> set (ev_tags e)" "tag_name t = k" "tag_content t = Some v"
    by (auto simp: set_tag_values)
  moreover from this obtain ts where "t = k # v # ts"
    by (auto simp: tag_name_def tag_content_def split: list.splits)
  ultimately have "k # v # ts \<in> set (ev_tags e)" by simp
  then show ?thesis unfolding tags_contain_def list_ex_iff by (rule bexI [rotated]) simp
qed

lemma find_map_filter:
  "find_map f xs = (case List.map_filter f xs of [] \<Rightarrow> None | y # ys \<Rightarrow> Some y)"
  by (induction xs) (auto simp: map_filter_simps split: option.split)

lemma d_tag_values:
  "List.map_filter (\<lambda>parts. if length parts \<ge> 2 \<and> parts ! 0 = n then Some (parts ! 1) else None) (ev_tags e) =
     tag_values n e"
proof -
  have "(if length parts \<ge> 2 \<and> parts ! 0 = n then Some (parts ! 1) else None) =
      (if tag_name parts = n then tag_content parts else None)" for parts
    by (cases parts; cases "tl parts") (auto simp: tag_name_def tag_content_def)
  moreover have "List.map_filter (\<lambda>t. if p t then g t else None) ts = List.map_filter g (filter p ts)"
    for p g and ts :: "tag list"
    by (induction ts) (auto simp: map_filter_simps split: option.split)
  ultimately show ?thesis by (simp add: tag_values_def)
qed

lemma extract_d_tag_eq:
  "extract_d_tag e =
     (if is_parameterized_replaceable (event_kind_u32 e)
      then Some (case tag_values ''d'' e of [] \<Rightarrow> [] | v # _ \<Rightarrow> v) else None)"
  by (simp add: extract_d_tag_def find_map_filter d_tag_values split: list.split)

lemma valid_pubkeys_eq:
  "valid_pubkeys e =
     map (map ascii_lower) (filter (\<lambda>pk. length pk = 64 \<and> list_all is_ascii_hexdigit pk) (tag_values ''p'' e))"
  by (simp add: valid_pubkeys_def d_tag_values Let_def)

text \<open>
  What the completeness of the pushdown relies on beyond a match: a creation time and an
  upper bound that are signed 64-bit numbers, whole event ids, a channel scope that is the
  row's channel, a \<open>#p\<close> value that is a public key with its mentions recorded, and at most
  one \<open>d\<close> tag.
\<close>

definition pushdown_ready :: "event_db \<Rightarrow> nostr_filter \<Rightarrow> uuid option \<Rightarrow> event_row \<Rightarrow> bool" where
  "pushdown_ready db f ch r \<longleftrightarrow>
     0 \<le> row_created_at r \<and> row_created_at r < 2 ^ 63 \<and>
     meets (f_until f) (\<lambda>u. u < 2 ^ 63) \<and>
     meets (f_ids f) (list_all (\<lambda>i. length i = length (row_id r))) \<and>
     meets ch (\<lambda>c. row_channel_id r = Some c) \<and>
     meets (generic_tag f ''p'') (list_all (\<lambda>v. length v = 64 \<and> list_all is_ascii_hexdigit v)) \<and>
     mentions_recorded db r \<and> length (tag_values ''d'' (row_event r)) \<le> 1"

lemma ids_pushed:
  "meets (f_ids f) (\<lambda>ids. \<exists>i \<in> set ids. starts_with (row_id r) i) \<Longrightarrow>
   meets (f_ids f) (list_all (\<lambda>i. length i = length (row_id r))) \<Longrightarrow>
   pushed (case f_ids f of Some (i # is) \<Rightarrow> Some (i # is) | _ \<Rightarrow> None) (\<lambda>ids. ids = [] \<or> row_id r \<in> set ids)"
  by (cases "f_ids f") (auto simp: starts_with_same_length list_all_iff split: list.split)

lemma authors_pushed:
  "meets (f_authors f) (\<lambda>as. row_pubkey r \<in> set as) \<Longrightarrow>
   pushed (case f_authors f of Some [a] \<Rightarrow> Some a | _ \<Rightarrow> None) (\<lambda>pk. row_pubkey r = pk) \<and>
   pushed (case f_authors f of Some (a # b # as) \<Rightarrow> Some (a # b # as) | _ \<Rightarrow> None)
     (\<lambda>authors. authors = [] \<or> row_pubkey r \<in> set authors)"
  by (cases "f_authors f") (auto split: list.split)

lemma kinds_pushed:
  "meets (f_kinds f) (\<lambda>ks. ev_kind e \<in> set ks) \<Longrightarrow>
     pushed (map_option (map uint) (f_kinds f)) (\<lambda>ks. ks = [] \<or> event_kind_i32 e \<in> set ks) \<and>
     map_option (map uint) (f_kinds f) \<noteq> Some []"
  by (cases "f_kinds f") (auto simp: event_kind_i32_eq)

lemma e_tags_pushed:
  assumes "filter_match_one f (row_stored_event r)"
  shows "pushed (case generic_tag f ''e'' of Some (v # vs) \<Rightarrow> Some (v # vs) | _ \<Rightarrow> None)
    (\<lambda>es. es = [] \<or> list_ex (\<lambda>x. tags_contain (row_tags r) [''e'', x]) es)"
proof (cases "generic_tag f ''e''")
  case (Some vs)
  with generic_tag_matches [OF assms] obtain v where "v \<in> set vs" "v \<in> set (tag_values ''e'' (row_event r))"
    by fastforce
  moreover from this have "tags_contain (row_tags r) [''e'', v]"
    using tag_values_contain by fastforce
  ultimately have "list_ex (\<lambda>x. tags_contain (row_tags r) [''e'', x]) vs"
    unfolding list_ex_iff by blast
  then show ?thesis using Some by (cases vs) auto
qed simp

lemma p_tag_pushed:
  assumes "filter_match_one f (row_stored_event r)" and "mentions_recorded db r"
    and "meets (generic_tag f ''p'') (list_all (\<lambda>v. length v = 64 \<and> list_all is_ascii_hexdigit v))"
  shows "pushed (case generic_tag f ''p'' of Some [v] \<Rightarrow> Some v | _ \<Rightarrow> None)
    (\<lambda>p. (row_community_id r, map ascii_lower p, row_id r) \<in> mention_key ` set (db_mentions db))"
proof (cases "\<exists>v. generic_tag f ''p'' = Some [v]")
  case True
  then obtain v where v: "generic_tag f ''p'' = Some [v]" ..
  with generic_tag_matches [OF assms(1)] have "v \<in> set (tag_values ''p'' (row_event r))" by fastforce
  with assms(3) v have "map ascii_lower v \<in> set (valid_pubkeys (row_event r))"
    by (auto simp: valid_pubkeys_eq)
  with assms(2) v show ?thesis by (simp add: mentions_recorded_def)
qed (auto split: option.split list.split)

lemma d_tag_pushed:
  assumes "filter_match_one f (row_stored_event r)" and "row_stored r"
    and "length (tag_values ''d'' (row_event r)) \<le> 1" and "nip33_only f" and "generic_tag f ''d'' = Some vs"
  shows "\<exists>v \<in> set vs. row_d_tag r = Some v"
proof -
  obtain v where v: "v \<in> set vs" "v \<in> set (tag_values ''d'' (row_event r))"
    using generic_tag_matches [OF assms(1,5)] by auto
  with assms(3) have "tag_values ''d'' (row_event r) = [v]"
    by (cases "tag_values ''d'' (row_event r)") auto
  moreover from assms(4) obtain ks where "f_kinds f = Some ks"
      "list_all (\<lambda>k. is_parameterized_replaceable (ucast k)) ks"
    by (auto simp: nip33_only_def split: option.splits)
  then have "is_parameterized_replaceable (event_kind_u32 (row_event r))"
    using filter_match_kind [OF assms(1)] by (auto simp: list_all_iff event_kind_u32_def)
  ultimately have "row_d_tag r = Some v"
    using assms(2) by (simp add: row_stored_def extract_d_tag_eq)
  with v(1) show ?thesis by blast
qed

lemma d_clause_pushed:
  assumes "filter_match_one f (row_stored_event r)" and "row_stored r"
    and "length (tag_values ''d'' (row_event r)) \<le> 1"
  shows "d_tag_clause (filter_to_query_params valid f ch c) r"
proof (cases "nip33_only f \<and> generic_tag f ''d'' \<noteq> None")
  case True
  then obtain vs v where "generic_tag f ''d'' = Some vs" "v \<in> set vs" "row_d_tag r = Some v"
    using d_tag_pushed [OF assms] by blast
  with True show ?thesis
    by (auto simp: d_tag_clause_def query_params_fields [OF refl] split: list.split)
next
  case False
  then show ?thesis
    by (auto simp: d_tag_clause_def query_params_fields [OF refl])
qed

text \<open>
  C15. Query pushdown loses nothing: in a database that insertions and deletions build, a live row of the community
  whose event a filter matches is selected by the database query built from that filter, so that it can be missing
  from the answer only through the page limit. This asks that the time of the event fits a non-negative 64-bit
  integer and the \<open>until\<close> of the filter is below 2 to the power of 63, that the ids of the filter have full
  length and its \<open>#p\<close> values are 64 hex digits, that the channel of the query, if any, is that of the row,
  that the mentions of the event are recorded, and that the event has at most one \<open>d\<close> tag.
\<close>

theorem pushdown_complete:
  assumes "db_reachable valid db" and "r \<in> set (db_events db)" and "row_deleted_at r = None"
    and "filter_match_one f (row_stored_event r)" and "pushdown_ready db f ch r"
    and "q = filter_to_query_params valid f ch (row_community_id r)"
  shows "\<not> matches_nothing q \<and> r \<in> set (hits db q)"
proof -
  from assms(1,2) have st: "row_stored r"
    using db_reachable_ok by (auto simp: db_ok_def list_all_iff)
  note fm = assms(4) [unfolded filter_match_one_conj, simplified]
  note ready = assms(5) [unfolded pushdown_ready_def]
  note fields = query_params_fields [OF assms(6)]
  have kinds: "pushed (q_kinds q) (\<lambda>ks. ks = [] \<or> row_kind r \<in> set ks) \<and> q_kinds q \<noteq> Some []"
    using kinds_pushed [of f "row_event r"] fm st by (simp add: fields row_stored_def)
  have "channel_clause q r" using ready
    by (cases ch) (auto simp: channel_clause_def fields)
  moreover have "event_clause q r"
    unfolding event_clause_def fields(4-7,11)
    using kinds authors_pushed [of f r] ids_pushed [of f r] e_tags_pushed [OF assms(4)] fm ready
      since_pushed [of f "row_created_at r" valid] by (simp add: fields)
  moreover have "pushed (q_until q) (\<lambda>u. row_created_at r \<le> u)"
    using until_pushed [of f "row_created_at r" valid] fm ready by (simp add: fields)
  moreover have "d_tag_clause q r"
    using d_clause_pushed [OF assms(4) st] ready assms(6) by blast
  ultimately have "query_where q r" by (simp add: query_where_def fields(15,16))
  moreover have "in_scope q db r"
    using p_tag_pushed [OF assms(4)] ready assms(2,3) by (simp add: in_scope_def fields)
  moreover have "\<not> matches_nothing q"
    using kinds by (auto simp: matches_nothing_def fields split: option.splits list.splits)
  ultimately show ?thesis by (simp add: set_hits)
qed

definition demo_room_filter :: nostr_filter where
  "demo_room_filter =
     any_filter\<lparr>f_kinds := Some [9], f_since := Some 6, f_generic_tags := [(''h'', [''room''])]\<rparr>"

theorem pushdown_complete_witness:
  "demo_row ''02'' 7 \<in> set (hits demo_db
     (filter_to_query_params (\<lambda>_. True) demo_room_filter (Some ''room'') ''c1''))"
proof -
  let ?r = "demo_row ''02'' 7"
  have r: "?r \<in> set (db_events demo_db)" "row_deleted_at ?r = None"
    "filter_match_one demo_room_filter (row_stored_event ?r)"
    by code_simp+
  have m: "db_mentions demo_db = []" "valid_pubkeys (row_event ?r) = []" by code_simp+
  then have "mentions_recorded demo_db ?r" by (simp add: mentions_recorded_def)
  moreover have "length (tag_values ''d'' (row_event ?r)) \<le> 1" by code_simp
  ultimately have "pushdown_ready demo_db demo_room_filter (Some ''room'') ?r"
    by (simp add: pushdown_ready_def demo_room_filter_def any_filter_def generic_tag_def demo_row_def)
  moreover have "row_community_id ?r = ''c1''" by code_simp
  ultimately show ?thesis
    using pushdown_complete [OF demo_db_reachable r, of "Some ''room''", OF _ refl] by simp
qed

text \<open>
  Empty lists are queried as if they were absent: a filter with \<open>authors: []\<close> or
  \<open>ids: []\<close> matches no event, counts as fully pushable whenever it is so without them, and
  yet the query built from it is the one of the filter without those constraints.
\<close>

lemma empty_lists_not_pushed:
  "\<not> filter_match_one (f\<lparr>f_authors := Some []\<rparr>) ev \<and> \<not> filter_match_one (f\<lparr>f_ids := Some []\<rparr>) ev \<and>
   filter_fully_pushable (f\<lparr>f_authors := Some [], f_ids := Some []\<rparr>) = filter_fully_pushable f \<and>
   filter_to_query_params valid (f\<lparr>f_authors := Some [], f_ids := Some []\<rparr>) ch c =
     filter_to_query_params valid (f\<lparr>f_authors := None, f_ids := None\<rparr>) ch c"
  by (simp add: filter_match_one_conj filter_fully_pushable_def filter_to_query_params_def
      nip33_only_def generic_tag_def)

end
