(* ===== verification/Posting_Index.thy ===== *)
theory Posting_Index
  imports Pkzz_Prelude
begin

text \<open>
  The interface between a table of records and an inverted index over it. The table keeps
  a record under a name; each record determines the index keys it belongs under; the
  index answers, for a key, the names of the records under that key. A client that adds a
  name under every key of a record when the record appears, and deletes it from every key
  of that record when it goes, keeps the index in step with the table (\<open>synced\<close>), for
  any index that obeys the two laws of the locale.
\<close>

definition synced :: "('r \<Rightarrow> 'k \<Rightarrow> 'v list) \<Rightarrow> ('e \<Rightarrow> 'k list) \<Rightarrow> ('v \<rightharpoonup> 'e) \<Rightarrow> 'r \<Rightarrow> bool" where
  "synced post keys live r \<longleftrightarrow>
     (\<forall>k. distinct (post r k) \<and> set (post r k) = {v. \<exists>e. live v = Some e \<and> k \<in> set (keys e)})"

lemma syncedI:
  assumes "\<And>k. distinct (post r k)"
    and "\<And>k v. v \<in> set (post r k) \<longleftrightarrow> (\<exists>e. live v = Some e \<and> k \<in> set (keys e))"
  shows "synced post keys live r"
  using assms by (auto simp: synced_def)

lemma synced_distinct: "synced post keys live r \<Longrightarrow> distinct (post r k)"
  by (simp add: synced_def)

lemma synced_mem:
  "synced post keys live r \<Longrightarrow> v \<in> set (post r k) \<longleftrightarrow> (\<exists>e. live v = Some e \<and> k \<in> set (keys e))"
  by (simp add: synced_def)

lemma synced_empty: "(\<And>k. post r k = []) \<Longrightarrow> synced post keys Map.empty r"
  by (simp add: synced_def)

lemma synced_nothing_live: "synced post keys Map.empty r \<Longrightarrow> post r k = []"
  by (simp add: synced_def)

locale posting_index =
  fixes add :: "'k \<Rightarrow> 'v \<Rightarrow> 'r \<Rightarrow> 'r"
    and del :: "'k \<Rightarrow> 'v \<Rightarrow> 'r \<Rightarrow> 'r"
    and post :: "'r \<Rightarrow> 'k \<Rightarrow> 'v list"
  assumes post_add: "post (add k v r) k' = (if k' = k then post r k @ [v] else post r k')"
    and post_del: "post (del k v r) k' = (if k' = k then filter (\<lambda>x. x \<noteq> v) (post r k) else post r k')"
begin

lemma post_add_all:
  "distinct ks \<Longrightarrow>
   post (fold (\<lambda>k. add k v) ks r) k' = (if k' \<in> set ks then post r k' @ [v] else post r k')"
  by (induction ks arbitrary: r) (auto simp: post_add)

lemma post_del_all:
  "post (fold (\<lambda>k. del k v) ks r) k' =
     (if k' \<in> set ks then filter (\<lambda>x. x \<noteq> v) (post r k') else post r k')"
  by (induction ks arbitrary: r) (auto simp: post_del)

lemma synced_add:
  assumes s: "synced post keys live r" and fresh: "live v = None" and d: "distinct (keys e)"
  shows "synced post keys (live(v \<mapsto> e)) (fold (\<lambda>k. add k v) (keys e) r)"
proof (rule syncedI)
  fix k
  have "v \<notin> set (post r k)" using fresh by (simp add: synced_mem [OF s])
  then show "distinct (post (fold (\<lambda>k. add k v) (keys e) r) k)"
    using synced_distinct [OF s, of k] by (simp add: post_add_all [OF d])
next
  fix k w
  show "w \<in> set (post (fold (\<lambda>k. add k v) (keys e) r) k) \<longleftrightarrow>
    (\<exists>e'. (live(v \<mapsto> e)) w = Some e' \<and> k \<in> set (keys e'))"
    using fresh by (auto simp: post_add_all [OF d] synced_mem [OF s] split: if_splits)
qed

lemma synced_del:
  assumes s: "synced post keys live r" and l: "live v = Some e"
  shows "synced post keys (live(v := None)) (fold (\<lambda>k. del k v) (keys e) r)"
proof (rule syncedI)
  fix k
  show "distinct (post (fold (\<lambda>k. del k v) (keys e) r) k)"
    using synced_distinct [OF s, of k] by (simp add: post_del_all)
next
  fix k w
  show "w \<in> set (post (fold (\<lambda>k. del k v) (keys e) r) k) \<longleftrightarrow>
    (\<exists>e'. (live(v := None)) w = Some e' \<and> k \<in> set (keys e'))"
    using l by (auto simp: post_del_all synced_mem [OF s])
qed

text \<open>Deleting several records one after the other.\<close>

lemma synced_del_all:
  assumes "synced post keys live r" and "distinct (map fst xs)"
    and "\<And>v e. (v, e) \<in> set xs \<Longrightarrow> live v = Some e"
  shows "synced post keys (live |` (- (fst ` set xs)))
           (fold (\<lambda>(v, e). fold (\<lambda>k. del k v) (keys e)) xs r)"
  using assms
proof (induction xs arbitrary: live r)
  case Nil
  then show ?case by (simp add: restrict_map_def)
next
  case (Cons x xs)
  obtain v e where x: "x = (v, e)" by fastforce
  have one: "synced post keys (live(v := None)) (fold (\<lambda>k. del k v) (keys e) r)"
    using Cons.prems(1) Cons.prems(3) [of v e] by (intro synced_del) (simp_all add: x)
  have rest: "\<And>w f. (w, f) \<in> set xs \<Longrightarrow> (live(v := None)) w = Some f"
    using Cons.prems(2,3) by (force simp: x)
  have eq: "(live(v := None)) |` (- (fst ` set xs)) = live |` (- (fst ` set (x # xs)))"
    by (auto simp: x restrict_map_def fun_eq_iff)
  from Cons.prems(2) have "distinct (map fst xs)" by simp
  from Cons.IH [OF one this rest] show ?case unfolding eq by (simp add: x)
qed

end

end
