(* ===== verification/Subscription_Registry.thy ===== *)
theory Subscription_Registry
  imports Event_Filter Posting_Index
begin

text \<open>
  The subscription registry of the relay, crates/buzz-relay/src/subscription.rs: the
  authoritative table of subscriptions and the five indexes that make fan-out of an event
  sub-linear. The definitions follow the code function by function; a \<open>DashMap\<close> is a map,
  and a function that iterates over one takes the order of its keys.

  The main results: in every state that the operations can reach, fan-out through the
  indexes delivers to exactly the subscriptions that a scan over the whole table would,
  each once (a refinement of the linear scan), and scoping to community and channel holds
  whatever the indexes contain.
\<close>

section \<open>State\<close>

type_synonym conn_id = uuid
type_synonym sub_id = string
type_synonym community_id = uuid
type_synonym sub_ref = "conn_id \<times> sub_id"

text \<open>\<open>SubEntry\<close>: filters, community, channel scope.\<close>

type_synonym sub_entry = "nostr_filter list \<times> community_id \<times> uuid option"

record index_key =
  ik_channel_id :: uuid
  ik_kind :: u16

record global_p_kind_index_key =
  gk_community_id :: community_id
  gk_kind :: u16
  gk_p :: string

record removed_subscription =
  rs_community_id :: community_id
  rs_channel_id :: "uuid option"

record subscription_registry =
  subs :: "conn_id \<rightharpoonup> (sub_id \<rightharpoonup> sub_entry)"
  channel_kind_index :: "community_id \<times> index_key \<rightharpoonup> sub_ref list"
  channel_wildcard_index :: "community_id \<times> uuid \<rightharpoonup> sub_ref list"
  global_kind_index :: "community_id \<times> u16 \<rightharpoonup> sub_ref list"
  global_p_kind_index :: "global_p_kind_index_key \<rightharpoonup> sub_ref list"
  global_wildcard_index :: "community_id \<rightharpoonup> sub_ref list"

definition registry_new :: subscription_registry where
  "registry_new = \<lparr>subs = Map.empty, channel_kind_index = Map.empty,
     channel_wildcard_index = Map.empty, global_kind_index = Map.empty,
     global_p_kind_index = Map.empty, global_wildcard_index = Map.empty\<rparr>"

section \<open>Which indexes a subscription belongs to\<close>

fun extract_kinds_loop :: "nostr_filter list \<Rightarrow> u16 list \<Rightarrow> u16 list option" where
  "extract_kinds_loop [] kinds = Some kinds"
| "extract_kinds_loop (f # fs) kinds =
     (case f_kinds f of
        Some filter_kinds \<Rightarrow> extract_kinds_loop fs (fold push_unseen filter_kinds kinds)
      | None \<Rightarrow> None)"

definition extract_kinds_from_filters :: "nostr_filter list \<Rightarrow> u16 list option" where
  "extract_kinds_from_filters filters = extract_kinds_loop filters []"

definition p_kind_keys :: "community_id \<Rightarrow> u16 list \<Rightarrow> string list \<Rightarrow> global_p_kind_index_key list" where
  "p_kind_keys community_id kinds p_values =
     [\<lparr>gk_community_id = community_id, gk_kind = kind, gk_p = p\<rparr>. kind \<leftarrow> kinds, p \<leftarrow> p_values]"

fun extract_p_kind_loop ::
  "community_id \<Rightarrow> nostr_filter list \<Rightarrow> global_p_kind_index_key list
   \<Rightarrow> global_p_kind_index_key list option" where
  "extract_p_kind_loop community_id [] keys = Some keys"
| "extract_p_kind_loop community_id (f # fs) keys =
     (case f_kinds f of
        None \<Rightarrow> None
      | Some kinds \<Rightarrow>
          if kinds = [] then extract_p_kind_loop community_id fs keys
          else
            (case map_of (f_generic_tags f) ''p'' of
               None \<Rightarrow> None
             | Some p_values \<Rightarrow>
                 if p_values = [] then None
                 else extract_p_kind_loop community_id fs
                        (fold push_unseen (p_kind_keys community_id kinds p_values) keys)))"

definition extract_global_p_kind_index_keys ::
  "community_id \<Rightarrow> nostr_filter list \<Rightarrow> global_p_kind_index_key list option" where
  "extract_global_p_kind_index_keys community_id filters = extract_p_kind_loop community_id filters []"

definition event_p_tag_values :: "stored_event \<Rightarrow> string list" where
  "event_p_tag_values ev = fold push_unseen (tag_values ''p'' (se_event ev)) []"

section \<open>Operations\<close>

text \<open>The predicate \<open>retain\<close> applies to the entries of an index.\<close>

definition keep_other :: "conn_id \<Rightarrow> sub_id \<Rightarrow> sub_ref \<Rightarrow> bool" where
  "keep_other conn_id sub_id e = (let (cid, sid) = e in \<not> (cid = conn_id \<and> sid = sub_id))"

definition remove_from_index ::
  "conn_id \<Rightarrow> sub_id \<Rightarrow> nostr_filter list \<Rightarrow> community_id \<Rightarrow> uuid option
   \<Rightarrow> subscription_registry \<Rightarrow> subscription_registry" where
  "remove_from_index conn_id sub_id filters community_id channel_id r =
     (let keep = keep_other conn_id sub_id in
      case channel_id of
        Some ch_id \<Rightarrow>
          (case extract_kinds_from_filters filters of
             None \<Rightarrow>
               r\<lparr>channel_wildcard_index :=
                   entry_retain (community_id, ch_id) keep (channel_wildcard_index r)\<rparr>
           | Some kinds \<Rightarrow>
               if kinds = [] then r
               else fold (\<lambda>kind r. r\<lparr>channel_kind_index :=
                      entry_retain (community_id, \<lparr>ik_channel_id = ch_id, ik_kind = kind\<rparr>) keep
                        (channel_kind_index r)\<rparr>) kinds r)
      | None \<Rightarrow>
          (case extract_global_p_kind_index_keys community_id filters of
             Some keys \<Rightarrow>
               fold (\<lambda>key r. r\<lparr>global_p_kind_index :=
                 entry_retain key keep (global_p_kind_index r)\<rparr>) keys r
           | None \<Rightarrow>
               (case extract_kinds_from_filters filters of
                  None \<Rightarrow>
                    r\<lparr>global_wildcard_index :=
                        entry_retain community_id keep (global_wildcard_index r)\<rparr>
                | Some kinds \<Rightarrow>
                    if kinds = [] then r
                    else fold (\<lambda>kind r. r\<lparr>global_kind_index :=
                           entry_retain (community_id, kind) keep (global_kind_index r)\<rparr>) kinds r)))"

definition remove_subscription ::
  "conn_id \<Rightarrow> sub_id \<Rightarrow> subscription_registry
   \<Rightarrow> removed_subscription option \<times> subscription_registry" where
  "remove_subscription conn_id sub_id r =
     (case subs r conn_id of
        None \<Rightarrow> (None, r)
      | Some conn_subs \<Rightarrow>
          (case conn_subs sub_id of
             None \<Rightarrow> (None, r)
           | Some (filters, community_id, channel_id) \<Rightarrow>
               (Some \<lparr>rs_community_id = community_id, rs_channel_id = channel_id\<rparr>,
                remove_from_index conn_id sub_id filters community_id channel_id
                  (r\<lparr>subs := (subs r)(conn_id \<mapsto> conn_subs(sub_id := None))\<rparr>))))"

text \<open>The index entries \<open>register_scoped\<close> adds for one subscription.\<close>

definition add_to_index ::
  "conn_id \<Rightarrow> sub_id \<Rightarrow> nostr_filter list \<Rightarrow> community_id \<Rightarrow> uuid option
   \<Rightarrow> subscription_registry \<Rightarrow> subscription_registry" where
  "add_to_index conn_id sub_id filters community_id channel_id r =
     (let e = (conn_id, sub_id) in
      case channel_id of
        Some ch_id \<Rightarrow>
          (case extract_kinds_from_filters filters of
             None \<Rightarrow>
               r\<lparr>channel_wildcard_index :=
                   entry_push (community_id, ch_id) e (channel_wildcard_index r)\<rparr>
           | Some kinds \<Rightarrow>
               if kinds = [] then r
               else fold (\<lambda>kind r. r\<lparr>channel_kind_index :=
                      entry_push (community_id, \<lparr>ik_channel_id = ch_id, ik_kind = kind\<rparr>) e
                        (channel_kind_index r)\<rparr>) kinds r)
      | None \<Rightarrow>
          (case extract_global_p_kind_index_keys community_id filters of
             Some keys \<Rightarrow>
               fold (\<lambda>key r. r\<lparr>global_p_kind_index :=
                 entry_push key e (global_p_kind_index r)\<rparr>) keys r
           | None \<Rightarrow>
               (case extract_kinds_from_filters filters of
                  None \<Rightarrow>
                    r\<lparr>global_wildcard_index :=
                        entry_push community_id e (global_wildcard_index r)\<rparr>
                | Some kinds \<Rightarrow>
                    if kinds = [] then r
                    else fold (\<lambda>kind r. r\<lparr>global_kind_index :=
                           entry_push (community_id, kind) e (global_kind_index r)\<rparr>) kinds r)))"

definition register_scoped ::
  "community_id \<Rightarrow> conn_id \<Rightarrow> sub_id \<Rightarrow> nostr_filter list \<Rightarrow> uuid option \<Rightarrow> subscription_registry
   \<Rightarrow> removed_subscription option \<times> subscription_registry" where
  "register_scoped community_id conn_id sub_id filters channel_id r0 =
     (let (removed, r) = remove_subscription conn_id sub_id r0;
          conn_subs = (case subs r conn_id of None \<Rightarrow> Map.empty | Some m \<Rightarrow> m);
          r = r\<lparr>subs := (subs r)(conn_id \<mapsto>
                 conn_subs(sub_id \<mapsto> (filters, community_id, channel_id)))\<rparr>
      in (removed, add_to_index conn_id sub_id filters community_id channel_id r))"

text \<open>\<open>sub_ids\<close> is the order in which the connection's subscriptions are visited.\<close>

definition remove_connection ::
  "conn_id \<Rightarrow> sub_id list \<Rightarrow> subscription_registry
   \<Rightarrow> removed_subscription list \<times> subscription_registry" where
  "remove_connection conn_id sub_ids r =
     (case subs r conn_id of
        None \<Rightarrow> ([], r)
      | Some conn_subs \<Rightarrow>
          (let es = entries sub_ids conn_subs in
           (map (\<lambda>(sub_id, filters, community_id, channel_id).
              \<lparr>rs_community_id = community_id, rs_channel_id = channel_id\<rparr>) es,
            fold (\<lambda>(sub_id, filters, community_id, channel_id).
              remove_from_index conn_id sub_id filters community_id channel_id) es
              (r\<lparr>subs := (subs r)(conn_id := None)\<rparr>))))"

fun remove_each ::
  "conn_id \<Rightarrow> sub_id list \<Rightarrow> subscription_registry
   \<Rightarrow> (sub_id \<times> removed_subscription) list \<times> subscription_registry" where
  "remove_each conn_id [] r = ([], r)"
| "remove_each conn_id (sub_id # rest) r =
     (let (removed, r) = remove_subscription conn_id sub_id r;
          (out, r) = remove_each conn_id rest r
      in (case removed of None \<Rightarrow> out | Some x \<Rightarrow> (sub_id, x) # out, r))"

definition remove_channel_subscriptions_scoped ::
  "community_id \<Rightarrow> conn_id \<Rightarrow> uuid \<Rightarrow> sub_id list \<Rightarrow> subscription_registry
   \<Rightarrow> (sub_id \<times> removed_subscription) list \<times> subscription_registry" where
  "remove_channel_subscriptions_scoped community_id conn_id channel_id sub_ids r =
     (let chosen = (case subs r conn_id of
            None \<Rightarrow> []
          | Some conn_subs \<Rightarrow>
              map fst (filter (\<lambda>(sub_id, filters, sub_community_id, sub_channel_id).
                sub_community_id = community_id \<and> sub_channel_id = Some channel_id)
                (entries sub_ids conn_subs)))
      in remove_each conn_id chosen r)"

text \<open>The connections come out of a hash set, in no particular order: a set here.\<close>

definition channel_subscriber_conns_scoped ::
  "community_id \<Rightarrow> uuid \<Rightarrow> (community_id \<times> index_key) list \<Rightarrow> subscription_registry
   \<Rightarrow> conn_id set" where
  "channel_subscriber_conns_scoped community_id channel_id keys r =
     (set (concat (map (\<lambda>((c, ik), refs).
            if c = community_id \<and> ik_channel_id ik = channel_id then map fst refs else [])
            (entries keys (channel_kind_index r))))
      \<union> set (case channel_wildcard_index r (community_id, channel_id) of
               None \<Rightarrow> [] | Some refs \<Rightarrow> map fst refs))"

section \<open>Fan-out\<close>

definition push_match ::
  "subscription_registry \<Rightarrow> community_id \<Rightarrow> stored_event \<Rightarrow> sub_ref \<Rightarrow> sub_ref list \<Rightarrow> sub_ref list" where
  "push_match r community_id ev e results =
     (let (conn_id, sub_id) = e in
      case subs r conn_id of
        None \<Rightarrow> results
      | Some conn_subs \<Rightarrow>
          (case conn_subs sub_id of
             None \<Rightarrow> results
           | Some (filters, sub_community_id, sub_channel_id) \<Rightarrow>
               if sub_community_id = community_id \<and> sub_channel_id = se_channel_id ev
                  \<and> filters_match filters ev
               then push_unseen (conn_id, sub_id) results
               else results))"

definition fan_out_scoped ::
  "subscription_registry \<Rightarrow> community_id \<Rightarrow> stored_event \<Rightarrow> sub_ref list" where
  "fan_out_scoped r community_id ev =
     (let kind = ev_kind (se_event ev);
          pushes = (\<lambda>candidates results. case candidates of
             None \<Rightarrow> results | Some refs \<Rightarrow> fold (push_match r community_id ev) refs results)
      in
      case se_channel_id ev of
        Some channel_id \<Rightarrow>
          (let results = pushes (channel_kind_index r
                 (community_id, \<lparr>ik_channel_id = channel_id, ik_kind = kind\<rparr>)) []
           in pushes (channel_wildcard_index r (community_id, channel_id)) results)
      | None \<Rightarrow>
          (let results = fold (\<lambda>p. pushes (global_p_kind_index r
                 \<lparr>gk_community_id = community_id, gk_kind = kind, gk_p = p\<rparr>))
                 (event_p_tag_values ev) [];
               results = pushes (global_kind_index r (community_id, kind)) results
           in pushes (global_wildcard_index r community_id) results))"

definition get_filters :: "subscription_registry \<Rightarrow> conn_id \<Rightarrow> sub_id \<Rightarrow> nostr_filter list option" where
  "get_filters r conn_id sub_id =
     (case subs r conn_id of
        None \<Rightarrow> None
      | Some conn_subs \<Rightarrow> map_option (\<lambda>(filters, _, _). filters) (conn_subs sub_id))"

text \<open>
  The counters visit every connection (in the order \<open>conns\<close>) and every subscription of
  each (in the order \<open>order c\<close>).
\<close>

definition total_subscriptions ::
  "conn_id list \<Rightarrow> (conn_id \<Rightarrow> sub_id list) \<Rightarrow> subscription_registry \<Rightarrow> nat" where
  "total_subscriptions conns order r =
     sum_list (map (\<lambda>(c, m). length (entries (order c) m)) (entries conns (subs r)))"

definition total_connections :: "conn_id list \<Rightarrow> subscription_registry \<Rightarrow> nat" where
  "total_connections conns r = length (entries conns (subs r))"

definition per_community_subscriptions ::
  "conn_id list \<Rightarrow> (conn_id \<Rightarrow> sub_id list) \<Rightarrow> subscription_registry \<Rightarrow> (community_id \<rightharpoonup> nat)" where
  "per_community_subscriptions conns order r =
     fold (\<lambda>(c, m). fold (\<lambda>(s, filters, community_id, channel_id) counts.
         counts(community_id \<mapsto> (case counts community_id of None \<Rightarrow> 0 | Some n \<Rightarrow> n) + 1))
       (entries (order c) m)) (entries conns (subs r)) Map.empty"

section \<open>The indexes as one posting store\<close>

text \<open>
  The five indexes together are one index over \<open>slots\<close>: a slot names an index and a key
  in it. \<open>slots_of\<close> are the slots a subscription is registered under, \<open>event_slots\<close> those
  that fan-out of an event reads.
\<close>

datatype slot =
    ChannelKind community_id uuid u16
  | ChannelWildcard community_id uuid
  | GlobalKind community_id u16
  | GlobalPKind global_p_kind_index_key
  | GlobalWildcard community_id

definition slots_of :: "sub_entry \<Rightarrow> slot list" where
  "slots_of s =
     (let (filters, c, channel_id) = s in
      case channel_id of
        Some ch \<Rightarrow>
          (case extract_kinds_from_filters filters of
             None \<Rightarrow> [ChannelWildcard c ch] | Some kinds \<Rightarrow> map (ChannelKind c ch) kinds)
      | None \<Rightarrow>
          (case extract_global_p_kind_index_keys c filters of
             Some keys \<Rightarrow> map GlobalPKind keys
           | None \<Rightarrow>
               (case extract_kinds_from_filters filters of
                  None \<Rightarrow> [GlobalWildcard c] | Some kinds \<Rightarrow> map (GlobalKind c) kinds)))"

definition event_slots :: "community_id \<Rightarrow> stored_event \<Rightarrow> slot list" where
  "event_slots c ev =
     (let kind = ev_kind (se_event ev) in
      case se_channel_id ev of
        Some ch \<Rightarrow> [ChannelKind c ch kind, ChannelWildcard c ch]
      | None \<Rightarrow>
          map (\<lambda>p. GlobalPKind \<lparr>gk_community_id = c, gk_kind = kind, gk_p = p\<rparr>) (event_p_tag_values ev)
          @ [GlobalKind c kind, GlobalWildcard c])"

fun slot_post :: "subscription_registry \<Rightarrow> slot \<Rightarrow> sub_ref list" where
  "slot_post r (ChannelKind c ch k) =
     postings (channel_kind_index r) (c, \<lparr>ik_channel_id = ch, ik_kind = k\<rparr>)"
| "slot_post r (ChannelWildcard c ch) = postings (channel_wildcard_index r) (c, ch)"
| "slot_post r (GlobalKind c k) = postings (global_kind_index r) (c, k)"
| "slot_post r (GlobalPKind key) = postings (global_p_kind_index r) key"
| "slot_post r (GlobalWildcard c) = postings (global_wildcard_index r) c"

fun slot_add :: "slot \<Rightarrow> sub_ref \<Rightarrow> subscription_registry \<Rightarrow> subscription_registry" where
  "slot_add (ChannelKind c ch k) e = (\<lambda>r. r\<lparr>channel_kind_index :=
     entry_push (c, \<lparr>ik_channel_id = ch, ik_kind = k\<rparr>) e (channel_kind_index r)\<rparr>)"
| "slot_add (ChannelWildcard c ch) e = (\<lambda>r. r\<lparr>channel_wildcard_index :=
     entry_push (c, ch) e (channel_wildcard_index r)\<rparr>)"
| "slot_add (GlobalKind c k) e = (\<lambda>r. r\<lparr>global_kind_index :=
     entry_push (c, k) e (global_kind_index r)\<rparr>)"
| "slot_add (GlobalPKind key) e = (\<lambda>r. r\<lparr>global_p_kind_index :=
     entry_push key e (global_p_kind_index r)\<rparr>)"
| "slot_add (GlobalWildcard c) e = (\<lambda>r. r\<lparr>global_wildcard_index :=
     entry_push c e (global_wildcard_index r)\<rparr>)"

fun slot_del :: "slot \<Rightarrow> sub_ref \<Rightarrow> subscription_registry \<Rightarrow> subscription_registry" where
  "slot_del (ChannelKind c ch k) e = (\<lambda>r. r\<lparr>channel_kind_index :=
     entry_retain (c, \<lparr>ik_channel_id = ch, ik_kind = k\<rparr>) (\<lambda>x. x \<noteq> e) (channel_kind_index r)\<rparr>)"
| "slot_del (ChannelWildcard c ch) e = (\<lambda>r. r\<lparr>channel_wildcard_index :=
     entry_retain (c, ch) (\<lambda>x. x \<noteq> e) (channel_wildcard_index r)\<rparr>)"
| "slot_del (GlobalKind c k) e = (\<lambda>r. r\<lparr>global_kind_index :=
     entry_retain (c, k) (\<lambda>x. x \<noteq> e) (global_kind_index r)\<rparr>)"
| "slot_del (GlobalPKind key) e = (\<lambda>r. r\<lparr>global_p_kind_index :=
     entry_retain key (\<lambda>x. x \<noteq> e) (global_p_kind_index r)\<rparr>)"
| "slot_del (GlobalWildcard c) e = (\<lambda>r. r\<lparr>global_wildcard_index :=
     entry_retain c (\<lambda>x. x \<noteq> e) (global_wildcard_index r)\<rparr>)"

lemma slot_post_add:
  "slot_post (slot_add s e r) s' = (if s' = s then slot_post r s @ [e] else slot_post r s')"
  by (cases s; cases s') (auto simp: postings_push)

lemma slot_post_del:
  "slot_post (slot_del s e r) s' =
     (if s' = s then filter (\<lambda>x. x \<noteq> e) (slot_post r s) else slot_post r s')"
  by (cases s; cases s') (auto simp: postings_retain)

interpretation reg: posting_index slot_add slot_del slot_post
  by unfold_locales (rule slot_post_add slot_post_del)+

text \<open>The code's index updates are the slot-wise ones over \<open>slots_of\<close>.\<close>

lemma keep_other_eq: "keep_other c s = (\<lambda>x. x \<noteq> (c, s))"
  by (auto simp: keep_other_def fun_eq_iff)

lemma add_to_index_slots:
  "add_to_index c s fs com ch r = fold (\<lambda>k. slot_add k (c, s)) (slots_of (fs, com, ch)) r"
  by (auto simp: add_to_index_def slots_of_def fold_map comp_def split: option.split)

lemma remove_from_index_slots:
  "remove_from_index c s fs com ch r = fold (\<lambda>k. slot_del k (c, s)) (slots_of (fs, com, ch)) r"
  by (auto simp: remove_from_index_def slots_of_def fold_map comp_def keep_other_eq
      split: option.split)

lemma subs_slot_add [simp]: "subs (slot_add k e r) = subs r"
  by (cases k) simp_all

lemma subs_slot_del [simp]: "subs (slot_del k e r) = subs r"
  by (cases k) simp_all

lemma subs_add_all [simp]: "subs (fold (\<lambda>k. slot_add k e) ks r) = subs r"
  by (induction ks arbitrary: r) simp_all

lemma subs_del_all [simp]: "subs (fold (\<lambda>k. slot_del k e) ks r) = subs r"
  by (induction ks arbitrary: r) simp_all

section \<open>Extraction of kinds and keys\<close>

lemma extract_kinds_loop_None:
  "extract_kinds_loop fs acc = None \<longleftrightarrow> (\<exists>f \<in> set fs. f_kinds f = None)"
  by (induction fs acc rule: extract_kinds_loop.induct) (auto split: option.splits)

lemma extract_kinds_loop_Some:
  "extract_kinds_loop fs acc = Some ks \<Longrightarrow>
   (distinct acc \<longrightarrow> distinct ks) \<and> set acc \<subseteq> set ks \<and>
   (\<forall>f \<in> set fs. \<exists>k. f_kinds f = Some k \<and> set k \<subseteq> set ks)"
  by (induction fs acc rule: extract_kinds_loop.induct) (fastforce split: option.splits)+

lemma extract_kinds_distinct: "extract_kinds_from_filters fs = Some ks \<Longrightarrow> distinct ks"
  using extract_kinds_loop_Some [of fs "[]" ks] by (simp add: extract_kinds_from_filters_def)

lemma extract_kinds_covers:
  "extract_kinds_from_filters fs = Some ks \<Longrightarrow> f \<in> set fs \<Longrightarrow> filter_match_one f ev \<Longrightarrow>
   ev_kind (se_event ev) \<in> set ks"
  using extract_kinds_loop_Some [of fs "[]" ks] filter_match_kind [of f ev]
  by (fastforce simp: extract_kinds_from_filters_def)

lemma extract_p_kind_loop_Some:
  "extract_p_kind_loop c fs acc = Some keys \<Longrightarrow>
   (distinct acc \<longrightarrow> distinct keys) \<and> set acc \<subseteq> set keys \<and>
   (\<forall>f \<in> set fs. \<exists>ks. f_kinds f = Some ks \<and>
      (ks = [] \<or> (\<exists>ps. map_of (f_generic_tags f) ''p'' = Some ps \<and>
         set (p_kind_keys c ks ps) \<subseteq> set keys)))"
  by (induction c fs acc rule: extract_p_kind_loop.induct)
    (fastforce split: option.splits if_splits)+

lemma extract_p_kind_distinct: "extract_global_p_kind_index_keys c fs = Some ks \<Longrightarrow> distinct ks"
  using extract_p_kind_loop_Some [of c fs "[]" ks] by (simp add: extract_global_p_kind_index_keys_def)

lemma extract_p_kind_covers:
  assumes "extract_global_p_kind_index_keys c fs = Some keys"
    and "f \<in> set fs" and "filter_match_one f ev"
  shows "\<exists>p \<in> set (event_p_tag_values ev).
    \<lparr>gk_community_id = c, gk_kind = ev_kind (se_event ev), gk_p = p\<rparr> \<in> set keys"
proof -
  from assms(1,2) obtain ks where ks: "f_kinds f = Some ks"
    and or: "ks = [] \<or> (\<exists>ps. map_of (f_generic_tags f) ''p'' = Some ps \<and>
       set (p_kind_keys c ks ps) \<subseteq> set keys)"
    using extract_p_kind_loop_Some [of c fs "[]" keys]
    by (force simp: extract_global_p_kind_index_keys_def)
  from filter_match_kind [OF assms(3) ks] have k: "ev_kind (se_event ev) \<in> set ks" .
  with or obtain ps where ps: "map_of (f_generic_tags f) ''p'' = Some ps"
    and sub: "set (p_kind_keys c ks ps) \<subseteq> set keys" by auto
  from filter_match_tag [OF assms(3) ps] obtain p where
    "p \<in> set ps" "p \<in> set (tag_values ''p'' (se_event ev))" by auto
  with k sub show ?thesis by (auto simp: p_kind_keys_def event_p_tag_values_def)
qed

lemma distinct_slots_of: "distinct (slots_of s)"
  by (cases s) (auto simp: slots_of_def distinct_map inj_on_def
      dest: extract_kinds_distinct extract_p_kind_distinct split: option.split)

text \<open>Every subscription that matches an event is registered under a slot its fan-out reads.\<close>

lemma match_is_routed:
  assumes "filters_match fs ev"
  shows "\<exists>s \<in> set (event_slots c ev). s \<in> set (slots_of (fs, c, se_channel_id ev))"
proof -
  from assms obtain f where f: "f \<in> set fs" "filter_match_one f ev"
    by (auto simp: filters_match_iff)
  show ?thesis
    using extract_kinds_covers [OF _ f] extract_p_kind_covers [OF _ f]
    by (force simp: event_slots_def slots_of_def Let_def split: option.split)
qed

section \<open>Fan-out against the linear scan\<close>

definition live_sub :: "subscription_registry \<Rightarrow> sub_ref \<Rightarrow> sub_entry option" where
  "live_sub r e = (case subs r (fst e) of None \<Rightarrow> None | Some m \<Rightarrow> m (snd e))"

text \<open>The reference: what a scan over the whole table would deliver the event to.\<close>

definition scan_matches :: "subscription_registry \<Rightarrow> community_id \<Rightarrow> stored_event \<Rightarrow> sub_ref \<Rightarrow> bool" where
  "scan_matches r c ev e =
     (case live_sub r e of
        None \<Rightarrow> False
      | Some (fs, c', ch) \<Rightarrow> c' = c \<and> ch = se_channel_id ev \<and> filters_match fs ev)"

lemma push_match_eq:
  "push_match r c ev e out = (if scan_matches r c ev e then push_unseen e out else out)"
  by (cases e) (auto simp: push_match_def scan_matches_def live_sub_def split: option.split)

lemma fold_push_match:
  "set (fold (push_match r c ev) es out) = set out \<union> {e \<in> set es. scan_matches r c ev e}"
  "distinct (fold (push_match r c ev) es out) = distinct out"
  by (induction es arbitrary: out) (auto simp: push_match_eq)

lemma fold_concat_map: "fold (\<lambda>x. fold f (g x)) xs = fold f (concat (map g xs))"
  by (induction xs) (auto simp: fun_eq_iff)

lemma fan_out_slots:
  "fan_out_scoped r c ev =
     fold (push_match r c ev) (concat (map (slot_post r) (event_slots c ev))) []"
proof -
  have push: "(case m k of None \<Rightarrow> out | Some refs \<Rightarrow> fold (push_match r c ev) refs out) =
      fold (push_match r c ev) (postings m k) out"
    for m :: "'k \<rightharpoonup> sub_ref list" and k out
    by (simp add: postings_def split: option.split)
  show ?thesis
    by (auto simp: fan_out_scoped_def event_slots_def Let_def push fold_concat_map [symmetric]
        fold_map comp_def split: option.split)
qed

lemma fan_out_sound: "e \<in> set (fan_out_scoped r c ev) \<Longrightarrow> scan_matches r c ev e"
  by (simp add: fan_out_slots fold_push_match)

lemma fan_out_distinct: "distinct (fan_out_scoped r c ev)"
  by (simp add: fan_out_slots fold_push_match)

lemma fan_out_complete:
  assumes "synced slot_post slots_of (live_sub r) r" and "scan_matches r c ev e"
  shows "e \<in> set (fan_out_scoped r c ev)"
proof -
  from assms(2) obtain fs where e: "live_sub r e = Some (fs, c, se_channel_id ev)"
    and m: "filters_match fs ev" by (auto simp: scan_matches_def split: option.splits)
  from match_is_routed [OF m, of c] obtain s where s: "s \<in> set (event_slots c ev)"
    "s \<in> set (slots_of (fs, c, se_channel_id ev))" by blast
  from e s(2) have "e \<in> set (slot_post r s)" by (auto simp: synced_mem [OF assms(1)])
  with s(1) assms(2) show ?thesis by (auto simp: fan_out_slots fold_push_match)
qed

section \<open>The invariant\<close>

definition no_empty_entries :: "subscription_registry \<Rightarrow> bool" where
  "no_empty_entries r \<longleftrightarrow>
     no_empty_entry (channel_kind_index r) \<and> no_empty_entry (channel_wildcard_index r) \<and>
     no_empty_entry (global_kind_index r) \<and> no_empty_entry (global_p_kind_index r) \<and>
     no_empty_entry (global_wildcard_index r)"

definition registry_ok :: "subscription_registry \<Rightarrow> bool" where
  "registry_ok r \<longleftrightarrow> synced slot_post slots_of (live_sub r) r \<and> no_empty_entries r"

lemma no_empty_entries_add: "no_empty_entries r \<Longrightarrow> no_empty_entries (fold (\<lambda>k. slot_add k e) ks r)"
proof (induction ks arbitrary: r)
  case (Cons k ks)
  then have "no_empty_entries (slot_add k e r)"
    by (cases k) (auto simp: no_empty_entries_def)
  then show ?case by (simp add: Cons.IH)
qed simp

lemma no_empty_entries_del: "no_empty_entries r \<Longrightarrow> no_empty_entries (fold (\<lambda>k. slot_del k e) ks r)"
proof (induction ks arbitrary: r)
  case (Cons k ks)
  then have "no_empty_entries (slot_del k e r)"
    by (cases k) (auto simp: no_empty_entries_def)
  then show ?case by (simp add: Cons.IH)
qed simp

lemma slot_post_subs [simp]: "slot_post (r\<lparr>subs := m\<rparr>) k = slot_post r k"
  by (cases k) simp_all

lemma no_empty_entries_subs [simp]: "no_empty_entries (r\<lparr>subs := m\<rparr>) = no_empty_entries r"
  by (simp add: no_empty_entries_def)

lemma synced_subs [simp]: "synced slot_post slots_of l (r\<lparr>subs := m\<rparr>) = synced slot_post slots_of l r"
  by (simp add: synced_def)

lemma registry_ok_new: "registry_ok registry_new"
proof -
  have "slot_post registry_new k = []" for k by (cases k) (simp_all add: registry_new_def)
  moreover have "live_sub registry_new = Map.empty"
    by (simp add: fun_eq_iff live_sub_def registry_new_def)
  ultimately show ?thesis
    by (simp add: registry_ok_def synced_empty no_empty_entries_def registry_new_def)
qed

text \<open>What each operation does to the table.\<close>

lemma live_remove_subscription:
  "live_sub (snd (remove_subscription c s r)) = (live_sub r)((c, s) := None)"
  by (auto simp: remove_subscription_def live_sub_def fun_eq_iff remove_from_index_slots
      split: option.split prod.split)

lemma fst_remove_subscription:
  "fst (remove_subscription c s r) =
     map_option (\<lambda>(fs, com, ch). \<lparr>rs_community_id = com, rs_channel_id = ch\<rparr>) (live_sub r (c, s))"
  by (auto simp: remove_subscription_def live_sub_def split: option.split)

lemma live_insert:
  "live_sub (r\<lparr>subs := (subs r)(c \<mapsto> (case subs r c of None \<Rightarrow> Map.empty | Some m \<Rightarrow> m)(s \<mapsto> e))\<rparr>) =
     (live_sub r)((c, s) \<mapsto> e)"
  by (auto simp: live_sub_def fun_eq_iff split: option.split)

lemma live_add_to_index [simp]: "live_sub (add_to_index c s fs com ch r) = live_sub r"
  by (simp add: add_to_index_slots live_sub_def fun_eq_iff)

lemma live_register_scoped:
  "live_sub (snd (register_scoped com c s fs ch r)) = (live_sub r)((c, s) \<mapsto> (fs, com, ch))"
  using live_remove_subscription [of c s r]
  by (simp add: register_scoped_def split_def Let_def live_insert)

lemma live_remove_connection:
  assumes "\<And>m. subs r c = Some m \<Longrightarrow> enumerates ks m"
  shows "live_sub (snd (remove_connection c ks r)) = (\<lambda>e. if fst e = c then None else live_sub r e)"
proof -
  have "subs (fold (\<lambda>(s, fs, com, ch). remove_from_index c s fs com ch) es r') = subs r'" for es r'
    by (induction es arbitrary: r') (auto simp: remove_from_index_slots)
  then show ?thesis
    by (auto simp: remove_connection_def live_sub_def fun_eq_iff Let_def split: option.split)
qed

text \<open>Every operation keeps the invariant.\<close>

lemma remove_from_index_fun:
  "remove_from_index c s fs com ch = fold (\<lambda>k. slot_del k (c, s)) (slots_of (fs, com, ch))"
  by (simp add: fun_eq_iff remove_from_index_slots)

lemma registry_ok_remove_subscription:
  assumes "registry_ok r"
  shows "registry_ok (snd (remove_subscription c s r))"
proof (cases "live_sub r (c, s)")
  case None
  then have "snd (remove_subscription c s r) = r"
    by (auto simp: remove_subscription_def live_sub_def split: option.splits)
  then show ?thesis using assms by simp
next
  case (Some e)
  then obtain m where r': "snd (remove_subscription c s r) =
      fold (\<lambda>k. slot_del k (c, s)) (slots_of e) (r\<lparr>subs := m\<rparr>)"
    by (cases e) (auto simp: remove_subscription_def live_sub_def remove_from_index_slots
        split: option.splits)
  have "synced slot_post slots_of (live_sub r) (r\<lparr>subs := m\<rparr>)"
    using assms by (simp add: registry_ok_def)
  from reg.synced_del [OF this Some]
  show ?thesis
    using assms unfolding registry_ok_def live_remove_subscription
    by (simp add: r' no_empty_entries_del)
qed

lemma registry_ok_register_scoped:
  assumes "registry_ok r"
  shows "registry_ok (snd (register_scoped com c s fs ch r))"
proof -
  obtain x r1 where x: "remove_subscription c s r = (x, r1)" by fastforce
  have r1: "registry_ok r1" using registry_ok_remove_subscription [OF assms, of c s] by (simp add: x)
  have l1: "live_sub r1 (c, s) = None" using live_remove_subscription [of c s r] by (simp add: x)
  obtain m where r': "snd (register_scoped com c s fs ch r) =
      fold (\<lambda>k. slot_add k (c, s)) (slots_of (fs, com, ch)) (r1\<lparr>subs := m\<rparr>)"
    by (auto simp: register_scoped_def x add_to_index_slots)
  have s1: "synced slot_post slots_of (live_sub r1) (r1\<lparr>subs := m\<rparr>)"
    using r1 by (simp add: registry_ok_def)
  have "(live_sub r1)((c, s) \<mapsto> e) = (live_sub r)((c, s) \<mapsto> e)" for e
    using live_remove_subscription [of c s r] by (simp add: x)
  then have "synced slot_post slots_of ((live_sub r)((c, s) \<mapsto> (fs, com, ch)))
      (snd (register_scoped com c s fs ch r))"
    using reg.synced_add [OF s1 l1 distinct_slots_of, of "(fs, com, ch)"] by (simp add: r')
  then show ?thesis
    using r1 by (simp add: registry_ok_def live_register_scoped) (simp add: r' no_empty_entries_add)
qed

lemma registry_ok_remove_connection:
  assumes ok: "registry_ok r" and ks: "\<And>m. subs r c = Some m \<Longrightarrow> enumerates ks m"
  shows "registry_ok (snd (remove_connection c ks r))"
proof (cases "subs r c")
  case None
  then show ?thesis using ok by (simp add: remove_connection_def)
next
  case (Some m)
  define xs where "xs = map (\<lambda>(s, e). ((c, s), e)) (entries ks m)"
  have d: "distinct (map fst xs)"
    using ks [OF Some] distinct_fst_entries [of ks m]
    by (auto simp: xs_def enumerates_def distinct_map inj_on_def comp_def split_def)
  have l: "\<And>v e. (v, e) \<in> set xs \<Longrightarrow> live_sub r v = Some e"
    using Some by (auto simp: xs_def live_sub_def set_entries)
  have r': "snd (remove_connection c ks r) =
      fold (\<lambda>(v, e). fold (\<lambda>k. slot_del k v) (slots_of e)) xs (r\<lparr>subs := (subs r)(c := None)\<rparr>)"
    by (simp add: remove_connection_def Some xs_def fold_map comp_def split_def Let_def
        remove_from_index_fun)
  have "fst ` set xs = Pair c ` dom m"
    using set_entries_enumerates [OF ks [OF Some]] by (auto simp: xs_def image_iff)
  moreover have "live_sub (snd (remove_connection c ks r)) = (\<lambda>e. if fst e = c then None else live_sub r e)"
    by (rule live_remove_connection) (rule ks)
  ultimately have live: "live_sub r |` (- (fst ` set xs)) = live_sub (snd (remove_connection c ks r))"
    using Some by (auto simp: fun_eq_iff restrict_map_def live_sub_def split: option.splits)
  have "synced slot_post slots_of (live_sub r) (r\<lparr>subs := (subs r)(c := None)\<rparr>)"
    using ok by (simp add: registry_ok_def)
  then have "synced slot_post slots_of (live_sub r |` (- (fst ` set xs)))
      (snd (remove_connection c ks r))"
    unfolding r' by (rule reg.synced_del_all) (use d l in auto)
  moreover have "no_empty_entries
      (fold (\<lambda>(v, e). fold (\<lambda>k. slot_del k v) (slots_of e)) ys r0)"
    if "no_empty_entries r0" for r0 and ys :: "(sub_ref \<times> sub_entry) list"
    using that by (induction ys arbitrary: r0) (auto simp: no_empty_entries_del)
  then have "no_empty_entries (snd (remove_connection c ks r))"
    using ok by (simp add: r' registry_ok_def)
  ultimately show ?thesis by (simp add: registry_ok_def live)
qed

lemma remove_each_conv:
  "snd (remove_each c ss r) = fold (\<lambda>s r. snd (remove_subscription c s r)) ss r"
  by (induction ss arbitrary: r) (auto simp: split_def Let_def split: option.split)

lemma registry_ok_remove_each: "registry_ok r \<Longrightarrow> registry_ok (snd (remove_each c ss r))"
  unfolding remove_each_conv
  by (induction ss arbitrary: r) (auto simp: registry_ok_remove_subscription)

lemma live_remove_each:
  "live_sub (snd (remove_each c ss r)) = (\<lambda>e. if fst e = c \<and> snd e \<in> set ss then None else live_sub r e)"
  unfolding remove_each_conv
  by (induction ss arbitrary: r) (auto simp: live_remove_subscription fun_eq_iff)

lemma registry_ok_remove_channel:
  "registry_ok r \<Longrightarrow> registry_ok (snd (remove_channel_subscriptions_scoped com c ch ks r))"
  by (simp add: remove_channel_subscriptions_scoped_def registry_ok_remove_each)

lemma live_remove_channel:
  assumes "\<And>m. subs r c = Some m \<Longrightarrow> enumerates ks m"
  shows "live_sub (snd (remove_channel_subscriptions_scoped com c ch ks r)) =
    (\<lambda>e. case live_sub r e of
           None \<Rightarrow> None
         | Some (fs, com', ch') \<Rightarrow>
             if fst e = c \<and> com' = com \<and> ch' = Some ch then None else Some (fs, com', ch'))"
proof (cases "subs r c")
  case None
  then show ?thesis
    by (auto simp: remove_channel_subscriptions_scoped_def live_sub_def fun_eq_iff split: option.split)
next
  case (Some m)
  define chosen where "chosen = map fst (filter (\<lambda>(sub_id, filters, com', ch').
    com' = com \<and> ch' = Some ch) (entries ks m))"
  have "s \<in> set chosen \<longleftrightarrow> (\<exists>fs. m s = Some (fs, com, Some ch))" for s
    using set_entries_enumerates [OF assms [OF Some]] by (auto simp: chosen_def image_iff)
  moreover have "snd (remove_channel_subscriptions_scoped com c ch ks r) = snd (remove_each c chosen r)"
    by (simp add: remove_channel_subscriptions_scoped_def Some chosen_def)
  ultimately show ?thesis
    using Some by (auto simp: live_remove_each live_sub_def fun_eq_iff split: option.split)
qed

section \<open>Reachable states\<close>

inductive registry_reachable :: "subscription_registry \<Rightarrow> bool" where
  init: "registry_reachable registry_new"
| register: "registry_reachable r \<Longrightarrow>
    registry_reachable (snd (register_scoped com c s fs ch r))"
| remove_sub: "registry_reachable r \<Longrightarrow> registry_reachable (snd (remove_subscription c s r))"
| remove_conn: "registry_reachable r \<Longrightarrow> (\<And>m. subs r c = Some m \<Longrightarrow> enumerates ks m) \<Longrightarrow>
    registry_reachable (snd (remove_connection c ks r))"
| remove_channel: "registry_reachable r \<Longrightarrow> (\<And>m. subs r c = Some m \<Longrightarrow> enumerates ks m) \<Longrightarrow>
    registry_reachable (snd (remove_channel_subscriptions_scoped com c ch ks r))"

lemma reachable_ok: "registry_reachable r \<Longrightarrow> registry_ok r"
proof (induction rule: registry_reachable.induct)
  case init
  show ?case by (rule registry_ok_new)
next
  case (register r com c s fs ch)
  then show ?case by (simp add: registry_ok_register_scoped)
next
  case (remove_sub r c s)
  then show ?case by (simp add: registry_ok_remove_subscription)
next
  case (remove_conn r c ks)
  then show ?case by (intro registry_ok_remove_connection) auto
next
  case (remove_channel r c ks com ch)
  then show ?case by (simp add: registry_ok_remove_channel)
qed

section \<open>Properties of the registry\<close>

text \<open>
  C9. Fan-out through the indexes refines the linear scan: in every reachable state it
  returns each subscription whose scope and filters match the event exactly once, and
  nothing else.
\<close>

theorem fan_out_refines_scan:
  assumes "registry_reachable r"
  shows "set (fan_out_scoped r c ev) = {e. scan_matches r c ev e} \<and> distinct (fan_out_scoped r c ev)"
  using fan_out_sound fan_out_complete fan_out_distinct reachable_ok [OF assms]
  by (auto simp: registry_ok_def)

text \<open>
  C17. Tenant and channel isolation does not rest on the indexes: whatever the six tables
  contain (stale candidates of a concurrent replacement included), fan-out hands an event
  of one community and channel only to a subscription that is live, belongs to that
  community and has exactly that channel scope, a global event only to global
  subscriptions, and whose own filters match.
\<close>

theorem fan_out_isolation:
  assumes "(conn, sub) \<in> set (fan_out_scoped r c ev)"
  shows "\<exists>m fs. subs r conn = Some m \<and> m sub = Some (fs, c, se_channel_id ev) \<and> filters_match fs ev"
  using fan_out_sound [OF assms] by (auto simp: scan_matches_def live_sub_def split: option.splits)

text \<open>
  The indexes do not leak: once no subscription is left, in whatever order they were
  registered, replaced and removed, all five index tables are empty.
\<close>

lemma drained_indexes_empty:
  assumes "registry_reachable r" and "live_sub r = Map.empty"
  shows "channel_kind_index r = Map.empty \<and> channel_wildcard_index r = Map.empty \<and>
    global_kind_index r = Map.empty \<and> global_p_kind_index r = Map.empty \<and>
    global_wildcard_index r = Map.empty"
proof -
  have ok: "synced slot_post slots_of Map.empty r" "no_empty_entries r"
    using reachable_ok [OF assms(1)] assms(2) by (simp_all add: registry_ok_def)
  have none: "m = Map.empty" if "no_empty_entry m" "\<And>k. postings m k = []"
    for m :: "'k \<rightharpoonup> sub_ref list"
    using that by (force simp: no_empty_entry_def postings_def fun_eq_iff split: option.splits)
  have post: "slot_post r k = []" for k by (rule synced_nothing_live [OF ok(1)])
  have "postings (channel_kind_index r) k = []" for k
    using post [of "ChannelKind (fst k) (ik_channel_id (snd k)) (ik_kind (snd k))"] by (cases k; cases "snd k") auto
  moreover have "postings (channel_wildcard_index r) k = []" for k
    using post [of "ChannelWildcard (fst k) (snd k)"] by simp
  moreover have "postings (global_kind_index r) k = []" for k
    using post [of "GlobalKind (fst k) (snd k)"] by simp
  moreover have "postings (global_p_kind_index r) k = []" for k
    using post [of "GlobalPKind k"] by simp
  moreover have "postings (global_wildcard_index r) k = []" for k
    using post [of "GlobalWildcard k"] by simp
  ultimately show ?thesis
    using ok(2) by (auto simp: no_empty_entries_def intro!: none)
qed

lemma fst_register_scoped:
  "fst (register_scoped com c s fs ch r) =
     map_option (\<lambda>(fs, com, ch). \<lparr>rs_community_id = com, rs_channel_id = ch\<rparr>) (live_sub r (c, s))"
  unfolding fst_remove_subscription [symmetric] by (simp add: register_scoped_def split_def Let_def)

text \<open>
  Registration and removal act on one subscription: registering under an id replaces
  the subscription of that id and reports the scope it replaced; removing a subscription,
  a connection, or a connection's subscriptions to one channel of one community removes
  those from the table and leaves every other one unchanged.
\<close>

lemma registry_updates:
  assumes "\<And>m. subs r c = Some m \<Longrightarrow> enumerates ks m"
  shows "live_sub (snd (register_scoped com c s fs ch r)) = (live_sub r)((c, s) \<mapsto> (fs, com, ch)) \<and>
    fst (register_scoped com c s fs ch r) =
      map_option (\<lambda>(fs, com, ch). \<lparr>rs_community_id = com, rs_channel_id = ch\<rparr>) (live_sub r (c, s)) \<and>
    live_sub (snd (remove_subscription c s r)) = (live_sub r)((c, s) := None) \<and>
    live_sub (snd (remove_connection c ks r)) = (\<lambda>e. if fst e = c then None else live_sub r e) \<and>
    live_sub (snd (remove_channel_subscriptions_scoped com c chan ks r)) =
      (\<lambda>e. case live_sub r e of
             None \<Rightarrow> None
           | Some (fs, com', ch') \<Rightarrow>
               if fst e = c \<and> com' = com \<and> ch' = Some chan then None else Some (fs, com', ch'))"
  by (simp only: fst_register_scoped live_register_scoped live_remove_subscription
      live_remove_connection [OF assms] live_remove_channel [OF assms] simp_thms)

lemma channel_kind_in_slots:
  "ChannelKind com ch k \<in> set (slots_of (fs, com', ch')) \<longleftrightarrow>
     com' = com \<and> ch' = Some ch \<and> (\<exists>ks. extract_kinds_from_filters fs = Some ks \<and> k \<in> set ks)"
  by (auto simp: slots_of_def split: option.split)

lemma channel_wildcard_in_slots:
  "ChannelWildcard com ch \<in> set (slots_of (fs, com', ch')) \<longleftrightarrow>
     com' = com \<and> ch' = Some ch \<and> extract_kinds_from_filters fs = None"
  by (auto simp: slots_of_def split: option.split)

lemma channel_subscribers_slots:
  assumes "enumerates keys (channel_kind_index r)"
  shows "c \<in> channel_subscriber_conns_scoped com ch keys r \<longleftrightarrow>
    (\<exists>s. (\<exists>k. (c, s) \<in> set (slot_post r (ChannelKind com ch k))) \<or>
         (c, s) \<in> set (slot_post r (ChannelWildcard com ch)))"
proof -
  have kinds: "c \<in> set (concat (map (\<lambda>((c, ik), refs).
        if c = com \<and> ik_channel_id ik = ch then map fst refs else []) (entries keys (channel_kind_index r)))) \<longleftrightarrow>
      (\<exists>ik refs. channel_kind_index r (com, ik) = Some refs \<and> ik_channel_id ik = ch \<and> c \<in> fst ` set refs)"
    by (auto simp: set_entries_enumerates [OF assms] split: if_splits)
  have wild: "c \<in> set (case channel_wildcard_index r (com, ch) of None \<Rightarrow> [] | Some refs \<Rightarrow> map fst refs) \<longleftrightarrow>
      (\<exists>refs. channel_wildcard_index r (com, ch) = Some refs \<and> c \<in> fst ` set refs)"
    by (cases "channel_wildcard_index r (com, ch)") auto
  have fst_img: "c \<in> fst ` set refs \<longleftrightarrow> (\<exists>s. (c, s) \<in> set refs)" for refs :: "sub_ref list"
    by force
  have "c \<in> channel_subscriber_conns_scoped com ch keys r \<longleftrightarrow>
      (\<exists>ik refs. channel_kind_index r (com, ik) = Some refs \<and> ik_channel_id ik = ch \<and> (\<exists>s. (c, s) \<in> set refs)) \<or>
      (\<exists>refs. channel_wildcard_index r (com, ch) = Some refs \<and> (\<exists>s. (c, s) \<in> set refs))"
    by (simp only: channel_subscriber_conns_scoped_def Un_iff kinds wild fst_img)
  moreover have "ik_channel_id ik = ch \<longleftrightarrow> (\<exists>k. ik = \<lparr>ik_channel_id = ch, ik_kind = k\<rparr>)" for ik :: index_key
    by (cases ik) auto
  ultimately show ?thesis by (simp add: mem_postings) blast
qed

text \<open>
  The list of connections to revisit when access to a channel changes: it holds
  exactly the connections with a subscription scoped to that channel of that community,
  except for those subscriptions all of whose filters have an empty list of kinds, which
  are in no index (and match no event).
\<close>

lemma channel_subscribers_exact:
  assumes "registry_reachable r" and "enumerates keys (channel_kind_index r)"
  shows "channel_subscriber_conns_scoped com ch keys r =
    {c. \<exists>s fs. live_sub r (c, s) = Some (fs, com, Some ch) \<and> extract_kinds_from_filters fs \<noteq> Some []}"
proof -
  have s: "synced slot_post slots_of (live_sub r) r"
    using reachable_ok [OF assms(1)] by (simp add: registry_ok_def)
  have "c \<in> channel_subscriber_conns_scoped com ch keys r \<longleftrightarrow>
      (\<exists>s fs. live_sub r (c, s) = Some (fs, com, Some ch) \<and>
        (extract_kinds_from_filters fs = None \<or>
         (\<exists>ks k. extract_kinds_from_filters fs = Some ks \<and> k \<in> set ks)))" for c
    unfolding channel_subscribers_slots [OF assms(2)] synced_mem [OF s]
    by (force simp: channel_kind_in_slots channel_wildcard_in_slots)
  moreover have "x = None \<or> (\<exists>ks k. x = Some ks \<and> k \<in> set ks) \<longleftrightarrow> x \<noteq> Some []" for x :: "u16 list option"
    by (cases x) (auto, metis list.set_intros(1) neq_Nil_conv)
  ultimately show ?thesis by auto
qed

lemma subs_remove_subscription_dom: "dom (subs (snd (remove_subscription c s r))) = dom (subs r)"
  by (auto simp: remove_subscription_def remove_from_index_slots split: option.splits if_splits)

text \<open>
  The connection counter counts connections that ever registered and were not removed
  as a whole: closing a subscription, even the last one of a connection, leaves it
  unchanged, so an idle connection is still counted.
\<close>

lemma total_connections_keeps_idle:
  "total_connections conns (snd (remove_subscription c s r)) = total_connections conns r"
  by (simp add: total_connections_def length_entries_cong [OF subs_remove_subscription_dom])

section \<open>A concrete registry\<close>

definition demo_filter :: nostr_filter where
  "demo_filter = any_filter\<lparr>f_kinds := Some [9]\<rparr>"

definition demo_event :: stored_event where
  "demo_event = \<lparr>se_event = \<lparr>ev_id = ''e'', ev_pubkey = ''k'', ev_created_at = 5, ev_kind = 9,
     ev_tags = [], ev_content = []\<rparr>, se_received_at = 0, se_channel_id = Some ''ch'',
     se_verified = True\<rparr>"

definition demo_registry :: subscription_registry where
  "demo_registry = snd (register_scoped ''com'' ''c1'' ''s1'' [demo_filter] (Some ''ch'') registry_new)"

lemma demo_reachable: "registry_reachable demo_registry"
  unfolding demo_registry_def by (intro registry_reachable.intros)

lemma demo_live: "live_sub demo_registry = [(''c1'', ''s1'') \<mapsto> ([demo_filter], ''com'', Some ''ch'')]"
  unfolding demo_registry_def live_register_scoped
  by (simp add: fun_eq_iff live_sub_def registry_new_def)

lemma demo_scan_matches: "scan_matches demo_registry ''com'' demo_event (''c1'', ''s1'')"
  unfolding scan_matches_def demo_live by (simp add: demo_event_def demo_filter_def any_filter_def
      filters_match_def filter_match_one_def)

lemma demo_subs: "subs demo_registry ''c1'' = Some [''s1'' \<mapsto> ([demo_filter], ''com'', Some ''ch'')]"
  by (simp add: demo_registry_def register_scoped_def add_to_index_slots remove_subscription_def
      registry_new_def)

lemma demo_delivered: "(''c1'', ''s1'') \<in> set (fan_out_scoped demo_registry ''com'' demo_event)"
  using fan_out_complete [OF _ demo_scan_matches] reachable_ok [OF demo_reachable]
  by (simp add: registry_ok_def)

lemma demo_enumerates: "subs demo_registry ''c1'' = Some m \<Longrightarrow> enumerates [''s1''] m"
  by (metis demo_subs enumerates_single option.inject)

lemma demo_channel_keys:
  "enumerates [(''com'', \<lparr>ik_channel_id = ''ch'', ik_kind = 9\<rparr>)] (channel_kind_index demo_registry)"
  by (simp add: enumerates_def demo_registry_def register_scoped_def add_to_index_def
      remove_subscription_def registry_new_def demo_filter_def any_filter_def
      extract_kinds_from_filters_def push_unseen_def entry_push_def)

theorem fan_out_refines_scan_witness:
  "set (fan_out_scoped demo_registry ''com'' demo_event) = {e. scan_matches demo_registry ''com'' demo_event e} \<and>
   (''c1'', ''s1'') \<in> set (fan_out_scoped demo_registry ''com'' demo_event)"
  using fan_out_refines_scan [OF demo_reachable, of "''com''" demo_event] demo_scan_matches by simp

theorem fan_out_isolation_witness:
  "\<exists>m fs. subs demo_registry ''c1'' = Some m \<and>
     m ''s1'' = Some (fs, ''com'', se_channel_id demo_event) \<and> filters_match fs demo_event"
  by (rule fan_out_isolation [OF demo_delivered])

lemma drained_indexes_empty_instance:
  "channel_kind_index (snd (remove_subscription ''c1'' ''s1'' demo_registry)) = Map.empty"
proof -
  have r: "registry_reachable (snd (remove_subscription ''c1'' ''s1'' demo_registry))"
    by (rule registry_reachable.remove_sub [OF demo_reachable])
  have l: "live_sub (snd (remove_subscription ''c1'' ''s1'' demo_registry)) = Map.empty"
    by (simp add: live_remove_subscription demo_live)
  show ?thesis using drained_indexes_empty [OF r l] by simp
qed

lemma registry_updates_instance:
  "live_sub (snd (remove_connection ''c1'' [''s1''] demo_registry)) =
     (\<lambda>e. if fst e = ''c1'' then None else live_sub demo_registry e) \<and>
   live_sub demo_registry (''c1'', ''s1'') \<noteq> None"
proof -
  have "live_sub (snd (remove_connection ''c1'' [''s1''] demo_registry)) =
     (\<lambda>e. if fst e = ''c1'' then None else live_sub demo_registry e)"
    using registry_updates [of demo_registry "''c1''" "[''s1'']", OF demo_enumerates] by blast
  then show ?thesis by (simp add: demo_live)
qed

lemma channel_subscribers_exact_instance:
  "''c1'' \<in> channel_subscriber_conns_scoped ''com'' ''ch''
     [(''com'', \<lparr>ik_channel_id = ''ch'', ik_kind = 9\<rparr>)] demo_registry"
  unfolding channel_subscribers_exact [OF demo_reachable demo_channel_keys]
  by (simp add: demo_live demo_filter_def any_filter_def extract_kinds_from_filters_def push_unseen_def)

end
