(* ===== verification/Read_Handlers.thy ===== *)
theory Read_Handlers
  imports Query_Pushdown Subscription_Registry Auth_Scopes "HOL-Library.AList"
begin

text \<open>
  The handlers of the read commands, crates/buzz-relay/src/handlers/req.rs and count.rs:
  \<open>REQ\<close> (authentication, channel access, gates, registration, historical delivery), the
  NIP-50 search branch, and \<open>COUNT\<close>.

  The services a handler calls are the fields of \<open>relay_env\<close>: the membership cache and
  table, the routed queries, the search index, and the parsers outside the repository. The
  state it changes is \<open>read_state\<close>: the subscriptions of the connection, the registry, the
  topics it asked the pub/sub layer to retain and release, and the messages the connection
  accepted. \<open>accepts\<close> tells, from the messages accepted so far, whether the send buffer of
  the connection takes one more. Metrics, logs and conformance traces are left out. The
  database reads of one request overlap in the code but are consumed in filter order, so
  they are run in that order.
\<close>

section \<open>State\<close>

record auth_context =
  ax_pubkey :: string
  ax_scopes :: "scope list"
  ax_channel_ids :: "uuid list option"

datatype auth_state = Pending string | Authenticated auth_context | Failed

datatype relay_message =
    NoticeMsg string
  | ClosedMsg sub_id string
  | EventMsg sub_id event
  | EoseMsg sub_id
  | CountMsg sub_id nat

datatype event_topic = ChannelTopic uuid | GlobalTopic

datatype topic_op = Retain event_topic | Release event_topic

record search_query =
  sq_community :: uuid
  sq_q :: string
  sq_channel_scope :: channel_scope
  sq_kinds :: "int list option"
  sq_authors :: "string list option"
  sq_since :: "int option"
  sq_until :: "int option"
  sq_page :: nat
  sq_per_page :: nat

record relay_env =
  get_accessible_channel_ids_cached :: "uuid \<Rightarrow> string \<Rightarrow> db_error + uuid list"
  is_member :: "uuid \<Rightarrow> uuid \<Rightarrow> string \<Rightarrow> db_error + bool"
  query_events_routed :: "event_query \<Rightarrow> db_error + stored_event list"
  count_events_routed :: "event_query \<Rightarrow> db_error + nat"
  get_events_by_ids_routed :: "uuid \<Rightarrow> string list \<Rightarrow> db_error + stored_event list"
  search_hits :: "search_query \<Rightarrow> string list option"
  env_parse_uuid :: "string \<Rightarrow> uuid option"
  env_from_timestamp :: "int \<Rightarrow> bool"
  accepts :: "relay_message list \<Rightarrow> bool"

record connection =
  cn_conn_id :: conn_id
  cn_community :: uuid
  cn_auth :: auth_state

record read_state =
  st_subscriptions :: "(sub_id \<times> nostr_filter list) list"
  st_registry :: subscription_registry
  st_topics :: "topic_op list"
  st_sent :: "relay_message list"

definition MAX_SUBSCRIPTIONS :: nat where "MAX_SUBSCRIPTIONS = 1024"
definition SEARCH_PAGE_SIZE :: nat where "SEARCH_PAGE_SIZE = 100"

text \<open>\<open>(DEFAULT_MAX_PAGE_LIMIT as u32).div_ceil(SEARCH_PAGE_SIZE)\<close>.\<close>

definition MAX_SEARCH_PAGES :: nat where
  "MAX_SEARCH_PAGES = (nat DEFAULT_MAX_PAGE_LIMIT + SEARCH_PAGE_SIZE - 1) div SEARCH_PAGE_SIZE"

definition conn_send :: "relay_env \<Rightarrow> relay_message \<Rightarrow> read_state \<Rightarrow> bool \<times> read_state" where
  "conn_send env msg st =
     (if accepts env (st_sent st) then (True, st\<lparr>st_sent := st_sent st @ [msg]\<rparr>) else (False, st))"

text \<open>A send whose result is not looked at.\<close>

definition send_msg :: "relay_env \<Rightarrow> relay_message \<Rightarrow> read_state \<Rightarrow> read_state" where
  "send_msg env msg st = snd (conn_send env msg st)"

definition topic_for_subscription :: "uuid option \<Rightarrow> event_topic" where
  "topic_for_subscription channel_id =
     (case channel_id of Some ch \<Rightarrow> ChannelTopic ch | None \<Rightarrow> GlobalTopic)"

section \<open>Delivery\<close>

text \<open>The checks that a stored event passes before it is sent.\<close>

definition deliverable :: "nostr_filter \<Rightarrow> uuid list \<Rightarrow> string \<Rightarrow> stored_event \<Rightarrow> bool" where
  "deliverable f accessible_channels reader stored =
     (if \<not> filters_match [f] stored then False
      else if (case se_channel_id stored of None \<Rightarrow> False | Some ch_id \<Rightarrow> ch_id \<notin> set accessible_channels)
        then False
      else if \<not> event_visible_to_reader (se_event stored) reader then False
      else True)"

text \<open>
  The loop over the events of one filter; the flag is \<open>False\<close> when a send failed and the
  handler returned.
\<close>

fun deliver_events ::
  "relay_env \<Rightarrow> sub_id \<Rightarrow> nostr_filter \<Rightarrow> uuid list \<Rightarrow> string \<Rightarrow> stored_event list
   \<Rightarrow> string list \<Rightarrow> read_state \<Rightarrow> bool \<times> string list \<times> read_state" where
  "deliver_events env sub_id f acc reader [] seen_ids st = (True, seen_ids, st)"
| "deliver_events env sub_id f acc reader (stored # events) seen_ids st =
     (if \<not> deliverable f acc reader stored then deliver_events env sub_id f acc reader events seen_ids st
      else if ev_id (se_event stored) \<in> set seen_ids
        then deliver_events env sub_id f acc reader events seen_ids st
      else
        (let seen_ids = ev_id (se_event stored) # seen_ids;
             (ok, st) = conn_send env (EventMsg sub_id (se_event stored)) st
         in if \<not> ok then (False, seen_ids, st)
            else deliver_events env sub_id f acc reader events seen_ids st))"

text \<open>The query of one filter of a \<open>REQ\<close>: its own channel if it names one, else the request's.\<close>

definition per_filter_channel :: "relay_env \<Rightarrow> uuid option \<Rightarrow> nostr_filter \<Rightarrow> uuid option" where
  "per_filter_channel env channel_id f =
     (case (case generic_tag f ''h'' of Some [v] \<Rightarrow> env_parse_uuid env v | _ \<Rightarrow> None) of
        Some ch \<Rightarrow> Some ch
      | None \<Rightarrow> channel_id)"

definition req_query ::
  "relay_env \<Rightarrow> uuid \<Rightarrow> string \<Rightarrow> uuid list \<Rightarrow> uuid option \<Rightarrow> nostr_filter \<Rightarrow> event_query" where
  "req_query env community reader acc channel_id f =
     (let per_filter = per_filter_channel env channel_id f;
          params = apply_access_scope_to_query
            (filter_to_query_params (env_from_timestamp env) f per_filter community) per_filter acc
      in if filter_can_match_shared_gated_kinds f
         then params\<lparr>q_shared_gated_reader := Some reader\<rparr> else params)"

fun deliver_filters ::
  "relay_env \<Rightarrow> uuid \<Rightarrow> sub_id \<Rightarrow> uuid list \<Rightarrow> string \<Rightarrow> uuid option \<Rightarrow> nostr_filter list
   \<Rightarrow> string list \<Rightarrow> read_state \<Rightarrow> read_state" where
  "deliver_filters env community sub_id acc reader channel_id [] seen_ids st =
     send_msg env (EoseMsg sub_id) st"
| "deliver_filters env community sub_id acc reader channel_id (f # fs) seen_ids st =
     (case query_events_routed env (req_query env community reader acc channel_id f) of
        Inl e \<Rightarrow> send_msg env (EoseMsg sub_id) st
      | Inr events \<Rightarrow>
          (case deliver_events env sub_id f acc reader events seen_ids st of
             (ok, seen_ids, st) \<Rightarrow>
               if \<not> ok then st
               else deliver_filters env community sub_id acc reader channel_id fs seen_ids st))"

section \<open>Search\<close>

text \<open>\<open>event_map\<close>: a later event replaces an earlier one of the same id.\<close>

definition event_map :: "stored_event list \<Rightarrow> string \<Rightarrow> stored_event option" where
  "event_map events = map_of (rev (map (\<lambda>ev. (ev_id (se_event ev), ev)) events))"

text \<open>The loop over the hits of one page; it stops at the limit and returns at a failed send.\<close>

fun deliver_hits ::
  "relay_env \<Rightarrow> sub_id \<Rightarrow> nostr_filter \<Rightarrow> uuid list \<Rightarrow> string \<Rightarrow> nat \<Rightarrow> (string \<Rightarrow> stored_event option)
   \<Rightarrow> string list \<Rightarrow> nat \<Rightarrow> string list \<Rightarrow> read_state \<Rightarrow> bool \<times> nat \<times> string list \<times> read_state" where
  "deliver_hits env sub_id f acc reader limit emap [] emitted seen_ids st = (True, emitted, seen_ids, st)"
| "deliver_hits env sub_id f acc reader limit emap (i # ids) emitted seen_ids st =
     (if emitted \<ge> limit then (True, emitted, seen_ids, st)
      else
        (case emap i of
           None \<Rightarrow> deliver_hits env sub_id f acc reader limit emap ids emitted seen_ids st
         | Some stored \<Rightarrow>
             if \<not> deliverable f acc reader stored
             then deliver_hits env sub_id f acc reader limit emap ids emitted seen_ids st
             else if ev_id (se_event stored) \<in> set seen_ids
             then deliver_hits env sub_id f acc reader limit emap ids emitted seen_ids st
             else
               (let seen_ids = ev_id (se_event stored) # seen_ids;
                    (ok, st) = conn_send env (EventMsg sub_id (se_event stored)) st
                in if \<not> ok then (False, emitted, seen_ids, st)
                   else deliver_hits env sub_id f acc reader limit emap ids (emitted + 1) seen_ids st)))"

text \<open>The loop over the pages of one filter.\<close>

fun search_pages ::
  "relay_env \<Rightarrow> sub_id \<Rightarrow> nostr_filter \<Rightarrow> uuid list \<Rightarrow> string \<Rightarrow> nat \<Rightarrow> search_query \<Rightarrow> nat list
   \<Rightarrow> nat \<Rightarrow> string list \<Rightarrow> read_state \<Rightarrow> bool \<times> string list \<times> read_state" where
  "search_pages env sub_id f acc reader limit sq [] emitted seen_ids st = (True, seen_ids, st)"
| "search_pages env sub_id f acc reader limit sq (page # pages) emitted seen_ids st =
     (if emitted \<ge> limit then (True, seen_ids, st)
      else
        (case search_hits env (sq\<lparr>sq_page := page\<rparr>) of
           None \<Rightarrow> (True, seen_ids, st)
         | Some hit_ids \<Rightarrow>
             let exhausted = length hit_ids < SEARCH_PAGE_SIZE; page_empty = (hit_ids = []) in
             if page_empty then (True, seen_ids, st)
             else
               (case get_events_by_ids_routed env (sq_community sq) hit_ids of
                  Inl e \<Rightarrow> (True, seen_ids, st)
                | Inr events \<Rightarrow>
                    (case deliver_hits env sub_id f acc reader limit (event_map events) hit_ids emitted seen_ids st of
                       (ok, emitted, seen_ids, st) \<Rightarrow>
                         if \<not> ok then (False, seen_ids, st)
                         else if exhausted then (True, seen_ids, st)
                         else search_pages env sub_id f acc reader limit sq pages emitted seen_ids st))))"

text \<open>\<open>(l as u32).min(DEFAULT_MAX_PAGE_LIMIT as u32)\<close>.\<close>

definition search_limit :: "nostr_filter \<Rightarrow> nat" where
  "search_limit f =
     (case f_limit f of
        Some l \<Rightarrow> min (l mod 2 ^ 32) (nat DEFAULT_MAX_PAGE_LIMIT)
      | None \<Rightarrow> nat DEFAULT_MAX_PAGE_LIMIT)"

text \<open>The scope of one filter; \<open>None\<close> skips it.\<close>

definition search_scope :: "relay_env \<Rightarrow> uuid list \<Rightarrow> channel_scope \<Rightarrow> nostr_filter \<Rightarrow> channel_scope option" where
  "search_scope env acc all_channels_scope f =
     (case generic_tag f ''h'' of
        Some (v # vs) \<Rightarrow>
          (let valid = filter (\<lambda>i. i \<in> set acc) (List.map_filter (env_parse_uuid env) (v # vs)) in
           if valid = [] then None else Some (Channels valid))
      | _ \<Rightarrow> Some all_channels_scope)"

definition search_query_for :: "uuid \<Rightarrow> string \<Rightarrow> channel_scope \<Rightarrow> nostr_filter \<Rightarrow> search_query" where
  "search_query_for community search_text channel_scope f =
     \<lparr>sq_community = community, sq_q = search_text, sq_channel_scope = channel_scope,
      sq_kinds = (case f_kinds f of Some (k # ks) \<Rightarrow> Some (map uint (k # ks)) | _ \<Rightarrow> None),
      sq_authors = (case f_authors f of Some (a # as) \<Rightarrow> Some (a # as) | _ \<Rightarrow> None),
      sq_since = map_option secs_as_i64 (f_since f), sq_until = map_option secs_as_i64 (f_until f),
      sq_page = 1, sq_per_page = SEARCH_PAGE_SIZE\<rparr>"

fun search_filters ::
  "relay_env \<Rightarrow> uuid \<Rightarrow> sub_id \<Rightarrow> uuid list \<Rightarrow> channel_scope \<Rightarrow> string \<Rightarrow> nostr_filter list
   \<Rightarrow> string list \<Rightarrow> read_state \<Rightarrow> read_state" where
  "search_filters env community sub_id acc all_scope reader [] seen_ids st = send_msg env (EoseMsg sub_id) st"
| "search_filters env community sub_id acc all_scope reader (f # fs) seen_ids st =
     (let next = (\<lambda>seen_ids st. search_filters env community sub_id acc all_scope reader fs seen_ids st) in
      case f_search f of
        Some (c # cs) \<Rightarrow>
          (if search_limit f = 0 then next seen_ids st
           else
             (case search_scope env acc all_scope f of
                None \<Rightarrow> next seen_ids st
              | Some scope \<Rightarrow>
                  (case search_pages env sub_id f acc reader (search_limit f)
                          (search_query_for community (c # cs) scope f) [1..<MAX_SEARCH_PAGES + 1] 0 seen_ids st of
                     (ok, seen_ids, st) \<Rightarrow> if \<not> ok then st else next seen_ids st)))
      | _ \<Rightarrow> next seen_ids st)"

definition handle_search_req ::
  "relay_env \<Rightarrow> uuid \<Rightarrow> sub_id \<Rightarrow> nostr_filter list \<Rightarrow> uuid list \<Rightarrow> bool \<Rightarrow> string \<Rightarrow> read_state \<Rightarrow> read_state" where
  "handle_search_req env community sub_id filters acc include_global reader st =
     (case build_search_channel_scope_filter acc include_global of
        None \<Rightarrow> send_msg env (EoseMsg sub_id) st
      | Some all_scope \<Rightarrow> search_filters env community sub_id acc all_scope reader filters [] st)"

section \<open>REQ\<close>

text \<open>The channels of a request: the cached memberships, narrowed to the token's channels.\<close>

definition token_allows :: "auth_context \<Rightarrow> uuid \<Rightarrow> bool" where
  "token_allows ctx ch = (case ax_channel_ids ctx of None \<Rightarrow> True | Some allowed \<Rightarrow> ch \<in> set allowed)"

text \<open>
  The access check of a channel-scoped request: \<open>Inl\<close> is the message the request is closed
  with, \<open>Inr\<close> the accessible channels, repaired with the channel of the request.
\<close>

definition confirm_channel_access ::
  "relay_env \<Rightarrow> uuid \<Rightarrow> auth_context \<Rightarrow> uuid list \<Rightarrow> uuid option \<Rightarrow> string + uuid list" where
  "confirm_channel_access env community ctx acc channel_id =
     (case channel_id of
        None \<Rightarrow> Inr acc
      | Some ch_id \<Rightarrow>
          (case (if \<not> token_allows ctx ch_id \<or> ch_id \<in> set acc then Inr None
                 else (case is_member env community ch_id (ax_pubkey ctx) of
                         Inl e \<Rightarrow> Inl ''error: database error''
                       | Inr member \<Rightarrow> Inr (Some member))) of
             Inl msg \<Rightarrow> Inl msg
           | Inr db_is_member \<Rightarrow>
               (case resolve_request_local_access acc ch_id (token_allows ctx ch_id) db_is_member of
                  (False, _) \<Rightarrow> Inl ''restricted: not a channel member''
                | (True, acc') \<Rightarrow> Inr acc')))"

text \<open>The gates of a request; \<open>Some msg\<close> closes it.\<close>

definition req_gates :: "nostr_filter list \<Rightarrow> string \<Rightarrow> string option" where
  "req_gates filters authed_pubkey_hex =
     (if \<not> p_gated_filters_authorized filters authed_pubkey_hex
      then Some ''restricted: p-gated events require #p matching your pubkey''
      else if \<not> engram_filters_authorized filters authed_pubkey_hex
      then Some ''restricted: agent-engram reads require authors=[self] or #p=[self]''
      else if \<not> author_only_filters_authorized filters authed_pubkey_hex
      then Some ''restricted: author-only kinds require authors=[self]''
      else None)"

definition register_subscription ::
  "connection \<Rightarrow> sub_id \<Rightarrow> nostr_filter list \<Rightarrow> uuid option \<Rightarrow> read_state \<Rightarrow> read_state" where
  "register_subscription conn sub_id filters channel_id st =
     (let (replaced, registry) =
            register_scoped (cn_community conn) (cn_conn_id conn) sub_id filters channel_id (st_registry st)
      in st\<lparr>st_subscriptions := AList.update sub_id filters (st_subscriptions st),
            st_registry := registry,
            st_topics := st_topics st
              @ (case replaced of
                   Some r \<Rightarrow> [Release (topic_for_subscription (rs_channel_id r))]
                 | None \<Rightarrow> [])
              @ [Retain (topic_for_subscription channel_id)]\<rparr>)"

definition accessible_channels ::
  "relay_env \<Rightarrow> uuid \<Rightarrow> auth_context \<Rightarrow> bool \<Rightarrow> db_error + uuid list" where
  "accessible_channels env community ctx skip =
     (case (if skip then Inr [] else get_accessible_channel_ids_cached env community (ax_pubkey ctx)) of
        Inl e \<Rightarrow> Inl e
      | Inr ids \<Rightarrow>
          Inr (case ax_channel_ids ctx of
                 Some allowed \<Rightarrow> filter (\<lambda>ch. ch \<in> set allowed) ids
               | None \<Rightarrow> ids))"

definition handle_req_authed ::
  "relay_env \<Rightarrow> connection \<Rightarrow> auth_context \<Rightarrow> sub_id \<Rightarrow> nostr_filter list \<Rightarrow> read_state \<Rightarrow> read_state" where
  "handle_req_authed env conn ctx sub_id filters st =
     (let closed = (\<lambda>msg. send_msg env (ClosedMsg sub_id msg) st) in
      case accessible_channels env (cn_community conn) ctx (filters_are_nip43_membership_only filters) of
        Inl e \<Rightarrow> closed ''error: database error''
      | Inr acc0 \<Rightarrow>
          let channel_id = extract_channel_id_from_filters (env_parse_uuid env) filters in
          case confirm_channel_access env (cn_community conn) ctx acc0 channel_id of
            Inl msg \<Rightarrow> closed msg
          | Inr acc \<Rightarrow>
              case (if channel_id = None then req_gates filters (ax_pubkey ctx) else None) of
                Some msg \<Rightarrow> closed msg
              | None \<Rightarrow>
                  if list_ex (\<lambda>f. f_search f \<noteq> None) filters then
                    (if list_ex (\<lambda>f. f_search f = None) filters
                     then closed ''error: mixed search and non-search filters not supported''
                     else handle_search_req env (cn_community conn) sub_id filters acc
                            (ax_channel_ids ctx = None) (ax_pubkey ctx) st)
                  else
                    deliver_filters env (cn_community conn) sub_id acc (ax_pubkey ctx) channel_id filters []
                      (register_subscription conn sub_id filters channel_id st))"

definition handle_req ::
  "relay_env \<Rightarrow> connection \<Rightarrow> sub_id \<Rightarrow> nostr_filter list \<Rightarrow> read_state \<Rightarrow> read_state" where
  "handle_req env conn sub_id filters st =
     (case cn_auth conn of
        Authenticated ctx \<Rightarrow>
          if ax_scopes ctx \<noteq> [] \<and> MessagesRead \<notin> set (ax_scopes ctx) then
            send_msg env (ClosedMsg sub_id ''restricted: insufficient scope'')
              (send_msg env (NoticeMsg ''restricted: insufficient scope'') st)
          else if map_of (st_subscriptions st) sub_id = None \<and>
                  length (st_subscriptions st) \<ge> MAX_SUBSCRIPTIONS then
            send_msg env (ClosedMsg sub_id ''error: too many subscriptions'') st
          else handle_req_authed env conn ctx sub_id filters st
      | _ \<Rightarrow>
          send_msg env (ClosedMsg sub_id ''auth-required: not authenticated'')
            (send_msg env (NoticeMsg ''auth-required: authenticate before subscribing'') st))"

section \<open>COUNT\<close>

definition extract_channel_from_filter :: "relay_env \<Rightarrow> nostr_filter \<Rightarrow> uuid option" where
  "extract_channel_from_filter env f =
     (case generic_tag f ''h'' of Some [v] \<Rightarrow> env_parse_uuid env v | _ \<Rightarrow> None)"

definition author_is_self :: "nostr_filter \<Rightarrow> string \<Rightarrow> bool" where
  "author_is_self f authed_pubkey_hex =
     some_and_all (f_authors f) (\<lambda>a. eq_ignore_ascii_case a authed_pubkey_hex)"

definition count_fast_path :: "nostr_filter \<Rightarrow> string \<Rightarrow> bool" where
  "count_fast_path f authed_pubkey_hex =
     (let needs_author_only_filtering = filter_can_match_author_only_kinds f;
          needs_shared_gate_filtering = filter_can_match_shared_gated_kinds f;
          needs_result_gated_filtering =
            filter_can_match_result_gated_kinds f \<and>
            \<not> result_gated_count_safe_for_pushdown f authed_pubkey_hex
      in filter_fully_pushable f \<and>
         (\<not> needs_author_only_filtering \<or> author_is_self f authed_pubkey_hex) \<and>
         \<not> needs_result_gated_filtering \<and> \<not> needs_shared_gate_filtering)"

text \<open>Counting one filter with its query: \<open>Inl\<close> is the message that closes the request.\<close>

definition count_filter ::
  "relay_env \<Rightarrow> (db_error \<Rightarrow> string) \<Rightarrow> nostr_filter \<Rightarrow> string \<Rightarrow> event_query \<Rightarrow> event_query \<Rightarrow> string + nat" where
  "count_filter env show_err f reader fast_query query =
     (if count_fast_path f reader then
        (case count_events_routed env fast_query of Inl e \<Rightarrow> Inl (''error: '' @ show_err e) | Inr n \<Rightarrow> Inr n)
      else
        (case query_events_routed env (apply_count_fallback_limit query) of
           Inl e \<Rightarrow> Inl (''error: '' @ show_err e)
         | Inr stored_events \<Rightarrow>
             if count_fallback_exceeded (length stored_events)
             then Inl ''restricted: count filter requires narrower constraints''
             else Inr (length (filter (\<lambda>se. filters_match [f] se \<and>
                    event_visible_to_reader (se_event se) reader) stored_events))))"

definition count_query ::
  "relay_env \<Rightarrow> uuid \<Rightarrow> string \<Rightarrow> nostr_filter \<Rightarrow> event_query" where
  "count_query env community reader f =
     (let query = build_event_query_from_filter (env_from_timestamp env) (env_parse_uuid env) f community
      in if filter_can_match_shared_gated_kinds f then query\<lparr>q_shared_gated_reader := Some reader\<rparr> else query)"

text \<open>The loop over the filters, with the accessible channels and the total so far.\<close>

fun count_filters ::
  "relay_env \<Rightarrow> (db_error \<Rightarrow> string) \<Rightarrow> uuid \<Rightarrow> auth_context \<Rightarrow> nostr_filter list
   \<Rightarrow> uuid list \<Rightarrow> nat \<Rightarrow> string + nat" where
  "count_filters env show_err community ctx [] acc total_n = Inr total_n"
| "count_filters env show_err community ctx (f # fs) acc total_n =
     (let reader = ax_pubkey ctx; query = count_query env community reader f in
      case extract_channel_from_filter env f of
        Some ch_id \<Rightarrow>
          (case (if ch_id \<in> set acc then Inr None
                 else (case is_member env community ch_id reader of
                         Inl e \<Rightarrow> Inl ''error: database error''
                       | Inr member \<Rightarrow> Inr (Some member))) of
             Inl msg \<Rightarrow> Inl msg
           | Inr db_is_member \<Rightarrow>
               (case resolve_request_local_access acc ch_id (token_allows ctx ch_id) db_is_member of
                  (False, acc) \<Rightarrow> count_filters env show_err community ctx fs acc total_n
                | (True, acc) \<Rightarrow>
                    (case count_filter env show_err f reader query query of
                       Inl msg \<Rightarrow> Inl msg
                     | Inr n \<Rightarrow> count_filters env show_err community ctx fs acc (total_n + n))))
      | None \<Rightarrow>
          (let query = query\<lparr>q_channel_ids := Some acc\<rparr> in
           case count_filter env show_err f reader (query\<lparr>q_limit := None\<rparr>) query of
             Inl msg \<Rightarrow> Inl msg
           | Inr n \<Rightarrow> count_filters env show_err community ctx fs acc (total_n + n)))"

definition count_gates :: "nostr_filter list \<Rightarrow> string \<Rightarrow> string option" where
  "count_gates filters authed_pubkey_hex =
     (if \<not> p_gated_filters_authorized filters authed_pubkey_hex
      then Some ''restricted: p-gated kinds require #p tag matching your pubkey''
      else if \<not> engram_filters_authorized filters authed_pubkey_hex
      then Some ''restricted: agent-engram reads require authors=[self] or #p=[self]''
      else if \<not> author_only_filters_authorized filters authed_pubkey_hex
      then Some ''restricted: author-only kinds require authors=[self]''
      else None)"

definition handle_count ::
  "relay_env \<Rightarrow> (db_error \<Rightarrow> string) \<Rightarrow> connection \<Rightarrow> sub_id \<Rightarrow> nostr_filter list \<Rightarrow> read_state \<Rightarrow> read_state" where
  "handle_count env show_err conn sub_id filters st =
     (let closed = (\<lambda>msg. send_msg env (ClosedMsg sub_id msg) st) in
      case cn_auth conn of
        Authenticated ctx \<Rightarrow>
          (case count_gates filters (ax_pubkey ctx) of
             Some msg \<Rightarrow> closed msg
           | None \<Rightarrow>
               (case accessible_channels env (cn_community conn) ctx False of
                  Inl e \<Rightarrow> closed ''error: database error''
                | Inr acc \<Rightarrow>
                    (case count_filters env show_err (cn_community conn) ctx filters acc 0 of
                       Inl msg \<Rightarrow> closed msg
                     | Inr total_n \<Rightarrow> send_msg env (CountMsg sub_id total_n) st)))
      | _ \<Rightarrow> closed ''auth-required: not authenticated'')"

section \<open>What a request delivers\<close>

definition events_of :: "relay_message list \<Rightarrow> event list" where
  "events_of msgs = List.map_filter (\<lambda>m. case m of EventMsg s e \<Rightarrow> Some e | _ \<Rightarrow> None) msgs"

text \<open>
  One stretch of delivery: the messages are event messages of stored events that satisfy
  \<open>d\<close>, none of an id seen before, and nothing but the sent messages changes.
\<close>

definition delivery ::
  "(stored_event \<Rightarrow> bool) \<Rightarrow> sub_id \<Rightarrow> string list \<Rightarrow> string list \<Rightarrow> read_state \<Rightarrow> read_state \<Rightarrow> bool" where
  "delivery d sub_id seen seen' st st' \<longleftrightarrow>
     (\<exists>xs. st' = st\<lparr>st_sent := st_sent st @ map (\<lambda>x. EventMsg sub_id (se_event x)) xs\<rparr> \<and>
           (\<forall>x \<in> set xs. d x) \<and> distinct (map (\<lambda>x. ev_id (se_event x)) xs) \<and>
           (\<forall>x \<in> set xs. ev_id (se_event x) \<notin> set seen \<and> ev_id (se_event x) \<in> set seen') \<and>
           set seen \<subseteq> set seen')"

lemma delivery_refl: "delivery d s seen seen st st"
  unfolding delivery_def by (rule exI [of _ "[]"]) simp

lemma delivery_trans:
  assumes "delivery d s a b st st1" and "delivery d s b c st1 st2"
  shows "delivery d s a c st st2"
proof -
  from assms(1) obtain xs where xs: "st1 = st\<lparr>st_sent := st_sent st @ map (\<lambda>x. EventMsg s (se_event x)) xs\<rparr>"
      "\<forall>x \<in> set xs. d x" "distinct (map (\<lambda>x. ev_id (se_event x)) xs)"
      "\<forall>x \<in> set xs. ev_id (se_event x) \<notin> set a \<and> ev_id (se_event x) \<in> set b" "set a \<subseteq> set b"
    unfolding delivery_def by blast
  from assms(2) obtain ys where ys: "st2 = st1\<lparr>st_sent := st_sent st1 @ map (\<lambda>x. EventMsg s (se_event x)) ys\<rparr>"
      "\<forall>x \<in> set ys. d x" "distinct (map (\<lambda>x. ev_id (se_event x)) ys)"
      "\<forall>x \<in> set ys. ev_id (se_event x) \<notin> set b \<and> ev_id (se_event x) \<in> set c" "set b \<subseteq> set c"
    unfolding delivery_def by blast
  show ?thesis
    unfolding delivery_def
  proof (intro exI [of _ "xs @ ys"] conjI)
    show "st2 = st\<lparr>st_sent := st_sent st @ map (\<lambda>x. EventMsg s (se_event x)) (xs @ ys)\<rparr>"
      using xs(1) ys(1) by simp
    show "distinct (map (\<lambda>x. ev_id (se_event x)) (xs @ ys))"
      using xs(3,4) ys(3,4) by auto
  qed (use xs ys in auto)
qed

lemma delivery_mono: "delivery d s a b st st' \<Longrightarrow> (\<And>x. d x \<Longrightarrow> d' x) \<Longrightarrow> delivery d' s a b st st'"
  unfolding delivery_def by blast

lemma delivery_one:
  assumes "conn_send env (EventMsg s (se_event x)) st = (ok, st1)" and "d x"
    and "ev_id (se_event x) \<notin> set seen"
  shows "delivery d s seen (ev_id (se_event x) # seen) st st1"
proof (cases ok)
  case True
  with assms show ?thesis
    unfolding delivery_def by (intro exI [of _ "[x]"]) (auto simp: conn_send_def split: if_splits)
next
  case False
  with assms show ?thesis
    unfolding delivery_def by (intro exI [of _ "[]"]) (auto simp: conn_send_def split: if_splits)
qed

lemma deliver_events_delivery:
  "deliver_events env s f acc r evs seen st = (ok, seen', st') \<Longrightarrow>
     delivery (\<lambda>x. x \<in> set evs \<and> deliverable f acc r x) s seen seen' st st'"
proof (induction env s f acc r evs seen st rule: deliver_events.induct)
  case (1 env s f acc r seen st)
  then show ?case by (simp add: delivery_refl)
next
  case (2 env s f acc r x evs seen st)
  let ?d = "\<lambda>y. y \<in> set (x # evs) \<and> deliverable f acc r y"
  show ?case
  proof (cases "deliverable f acc r x \<and> ev_id (se_event x) \<notin> set seen")
    case False
    with 2 have "delivery (\<lambda>y. y \<in> set evs \<and> deliverable f acc r y) s seen seen' st st'"
      by (auto split: if_splits)
    then show ?thesis by (rule delivery_mono) simp
  next
    case True
    obtain ok1 st1 where send: "conn_send env (EventMsg s (se_event x)) st = (ok1, st1)" by force
    have one: "delivery ?d s seen (ev_id (se_event x) # seen) st st1"
      by (rule delivery_one [OF send]) (use True in auto)
    show ?thesis
    proof (cases ok1)
      case False
      with 2(4) True send have "seen' = ev_id (se_event x) # seen" "st' = st1" by auto
      with one show ?thesis by simp
    next
      case ok1: True
      with 2 True send have "delivery (\<lambda>y. y \<in> set evs \<and> deliverable f acc r y) s
          (ev_id (se_event x) # seen) seen' st1 st'" by auto
      then have "delivery ?d s (ev_id (se_event x) # seen) seen' st1 st'" by (rule delivery_mono) simp
      with one show ?thesis by (rule delivery_trans)
    qed
  qed
qed

lemma deliver_hits_delivery:
  "deliver_hits env s f acc r limit emap ids n seen st = (ok, n', seen', st') \<Longrightarrow>
     delivery (\<lambda>x. (\<exists>i. emap i = Some x) \<and> deliverable f acc r x) s seen seen' st st'"
proof (induction env s f acc r limit emap ids n seen st rule: deliver_hits.induct)
  case (1 env s f acc r limit emap n seen st)
  then show ?case by (simp add: delivery_refl)
next
  case (2 env s f acc r limit emap i ids n seen st)
  show ?case
  proof (cases "n < limit \<and> (\<exists>x. emap i = Some x \<and> deliverable f acc r x \<and> ev_id (se_event x) \<notin> set seen)")
    case False
    with 2 show ?thesis by (auto simp: delivery_refl split: if_splits option.splits)
  next
    case True
    then obtain x where x: "n < limit" "emap i = Some x" "deliverable f acc r x" "ev_id (se_event x) \<notin> set seen"
      by blast
    obtain ok1 st1 where send: "conn_send env (EventMsg s (se_event x)) st = (ok1, st1)" by force
    have one: "delivery (\<lambda>x. (\<exists>i. emap i = Some x) \<and> deliverable f acc r x) s seen
        (ev_id (se_event x) # seen) st st1"
      by (rule delivery_one [OF send]) (use x in auto)
    show ?thesis
    proof (cases ok1)
      case False
      with 2(5) x send have "seen' = ev_id (se_event x) # seen" "st' = st1" by auto
      with one show ?thesis by simp
    next
      case True
      with 2 x send have "delivery (\<lambda>x. (\<exists>i. emap i = Some x) \<and> deliverable f acc r x) s
          (ev_id (se_event x) # seen) seen' st1 st'" by auto
      with one show ?thesis by (rule delivery_trans)
    qed
  qed
qed

text \<open>An event the database answered to a query of the community.\<close>

definition answered :: "relay_env \<Rightarrow> uuid \<Rightarrow> stored_event \<Rightarrow> bool" where
  "answered env community x \<longleftrightarrow>
     (\<exists>q evs. q_community_id q = community \<and> query_events_routed env q = Inr evs \<and> x \<in> set evs) \<or>
     (\<exists>ids evs. get_events_by_ids_routed env community ids = Inr evs \<and> x \<in> set evs)"

definition req_event :: "relay_env \<Rightarrow> uuid \<Rightarrow> nostr_filter list \<Rightarrow> uuid list \<Rightarrow> string \<Rightarrow> stored_event \<Rightarrow> bool" where
  "req_event env community fs acc r x \<longleftrightarrow> answered env community x \<and> (\<exists>f \<in> set fs. deliverable f acc r x)"

lemma req_query_community [simp]: "q_community_id (req_query env c r acc ch f) = c"
  by (simp add: req_query_def apply_access_scope_to_query_def query_params_fields(1) [OF refl] Let_def)

text \<open>A finished request: a stretch of delivery followed by at most one \<open>EOSE\<close>.\<close>

definition delivers :: "(stored_event \<Rightarrow> bool) \<Rightarrow> sub_id \<Rightarrow> string list \<Rightarrow> read_state \<Rightarrow> read_state \<Rightarrow> bool" where
  "delivers d s seen st st' \<longleftrightarrow>
     (\<exists>seen' st1. delivery d s seen seen' st st1 \<and>
        (st' = st1 \<or> st' = st1\<lparr>st_sent := st_sent st1 @ [EoseMsg s]\<rparr>))"

lemma delivers_eose: "delivers d s seen st (send_msg env (EoseMsg s) st)"
  unfolding delivers_def
  by (intro exI [of _ seen] exI [of _ st]) (auto simp: delivery_refl send_msg_def conn_send_def)

lemma delivers_stop: "delivery d s seen seen' st st1 \<Longrightarrow> delivers d s seen st st1"
  unfolding delivers_def by blast

lemma delivers_trans: "delivery d s seen seen1 st st1 \<Longrightarrow> delivers d s seen1 st1 st' \<Longrightarrow> delivers d s seen st st'"
  unfolding delivers_def by (blast intro: delivery_trans)

lemma delivers_mono: "delivers d s seen st st' \<Longrightarrow> (\<And>x. d x \<Longrightarrow> d' x) \<Longrightarrow> delivers d' s seen st st'"
  unfolding delivers_def by (blast intro: delivery_mono)

lemma req_event_Cons: "req_event env c fs acc r x \<Longrightarrow> req_event env c (f # fs) acc r x"
  by (auto simp: req_event_def)

lemma deliver_filters_delivers:
  "delivers (req_event env c fs acc r) s seen st (deliver_filters env c s acc r ch fs seen st)"
proof (induction fs arbitrary: seen st)
  case Nil
  show ?case by (simp add: delivers_eose)
next
  case (Cons f fs)
  show ?case
  proof (cases "query_events_routed env (req_query env c r acc ch f)")
    case (Inl e)
    then show ?thesis by (simp add: delivers_eose)
  next
    case (Inr evs)
    obtain ok seen1 st1 where d: "deliver_events env s f acc r evs seen st = (ok, seen1, st1)"
      by (metis prod_cases3)
    have "answered env c x" if "x \<in> set evs" for x
      using Inr that req_query_community unfolding answered_def by blast
    then have dl: "delivery (req_event env c (f # fs) acc r) s seen seen1 st st1"
      by (intro delivery_mono [OF deliver_events_delivery [OF d]]) (auto simp: req_event_def)
    show ?thesis
    proof (cases ok)
      case False
      with Inr d delivers_stop [OF dl] show ?thesis by simp
    next
      case True
      have "delivers (req_event env c (f # fs) acc r) s seen1 st1 (deliver_filters env c s acc r ch fs seen1 st1)"
        by (rule delivers_mono [OF Cons.IH]) (rule req_event_Cons)
      with True Inr d delivers_trans [OF dl] show ?thesis by simp
    qed
  qed
qed

lemma event_map_mem: "event_map events i = Some x \<Longrightarrow> x \<in> set events"
  by (auto simp: event_map_def dest: map_of_SomeD)

lemma search_pages_delivery:
  "search_pages env s f acc r limit sq pages n seen st = (ok, seen', st') \<Longrightarrow> f \<in> set fs \<Longrightarrow>
     delivery (req_event env (sq_community sq) fs acc r) s seen seen' st st'"
proof (induction pages arbitrary: n seen st)
  case Nil
  then show ?case by (simp add: delivery_refl)
next
  case (Cons p pages)
  show ?case
  proof (cases "\<exists>ids evs. n < limit \<and> search_hits env (sq\<lparr>sq_page := p\<rparr>) = Some ids \<and> ids \<noteq> [] \<and>
      get_events_by_ids_routed env (sq_community sq) ids = Inr evs")
    case False
    then have "seen' = seen \<and> st' = st"
      using Cons.prems(1) by (auto simp: Let_def split: if_splits option.splits sum.splits)
    then show ?thesis by (simp add: delivery_refl)
  next
    case True
    then obtain ids evs where h: "n < limit" "search_hits env (sq\<lparr>sq_page := p\<rparr>) = Some ids" "ids \<noteq> []"
        "get_events_by_ids_routed env (sq_community sq) ids = Inr evs" by blast
    obtain ok1 n1 seen1 st1 where d:
        "deliver_hits env s f acc r limit (event_map evs) ids n seen st = (ok1, n1, seen1, st1)"
      by (metis prod_cases4)
    have "answered env (sq_community sq) x" if "event_map evs i = Some x" for i x
      using h(4) event_map_mem [OF that] unfolding answered_def by blast
    then have dl: "delivery (req_event env (sq_community sq) fs acc r) s seen seen1 st st1"
      using Cons.prems(2) by (intro delivery_mono [OF deliver_hits_delivery [OF d]]) (auto simp: req_event_def)
    from Cons.prems(1) h d have "seen' = seen1 \<and> st' = st1 \<or>
        search_pages env s f acc r limit sq pages n1 seen1 st1 = (ok, seen', st')"
      by (auto simp: Let_def split: if_splits)
    then show ?thesis using dl Cons.IH [OF _ Cons.prems(2)] delivery_trans [OF dl] by blast
  qed
qed

lemma search_query_community [simp]: "sq_community (search_query_for c t scope f) = c"
  by (simp add: search_query_for_def)

lemma search_filters_delivers:
  "set fs \<subseteq> set all \<Longrightarrow>
     delivers (req_event env c all acc r) s seen st (search_filters env c s acc scope r fs seen st)"
proof (induction fs arbitrary: seen st)
  case Nil
  show ?case by (simp add: delivers_eose)
next
  case (Cons f fs)
  then have IH: "\<And>seen st. delivers (req_event env c all acc r) s seen st (search_filters env c s acc scope r fs seen st)"
    and f: "f \<in> set all" by auto
  show ?case
  proof (cases "\<exists>c1 cs sc. f_search f = Some (c1 # cs) \<and> search_limit f \<noteq> 0 \<and> search_scope env acc scope f = Some sc")
    case False
    then have "search_filters env c s acc scope r (f # fs) seen st = search_filters env c s acc scope r fs seen st"
      by (auto simp: Let_def split: option.split list.split)
    with IH show ?thesis by simp
  next
    case True
    then obtain c1 cs sc where h: "f_search f = Some (c1 # cs)" "search_limit f \<noteq> 0"
        "search_scope env acc scope f = Some sc" by blast
    obtain ok seen1 st1 where p: "search_pages env s f acc r (search_limit f)
        (search_query_for c (c1 # cs) sc f) [1..<MAX_SEARCH_PAGES + 1] 0 seen st = (ok, seen1, st1)"
      by (metis prod_cases3)
    have dl: "delivery (req_event env c all acc r) s seen seen1 st st1"
      using search_pages_delivery [OF p f] by simp
    have "search_filters env c s acc scope r (f # fs) seen st =
        (if ok then search_filters env c s acc scope r fs seen1 st1 else st1)"
      using h p by (simp add: Let_def del: upt_Suc)
    then show ?thesis using delivers_trans [OF dl IH] delivers_stop [OF dl] by (cases ok) simp_all
  qed
qed

lemma handle_search_req_delivers:
  "delivers (req_event env c fs acc r) s [] st (handle_search_req env c s fs acc g r st)"
  by (auto simp: handle_search_req_def delivers_eose search_filters_delivers split: option.split)

section \<open>Channel access\<close>

text \<open>A channel the requester may read: within the token's scope, and a membership of the cache or the table.\<close>

definition channel_readable :: "relay_env \<Rightarrow> uuid \<Rightarrow> auth_context \<Rightarrow> uuid \<Rightarrow> bool" where
  "channel_readable env community ctx ch \<longleftrightarrow>
     token_allows ctx ch \<and>
     ((\<exists>ids. get_accessible_channel_ids_cached env community (ax_pubkey ctx) = Inr ids \<and> ch \<in> set ids) \<or>
      is_member env community ch (ax_pubkey ctx) = Inr True)"

lemma accessible_channels_readable:
  "accessible_channels env c ctx skip = Inr acc \<Longrightarrow> ch \<in> set acc \<Longrightarrow> channel_readable env c ctx ch"
  by (auto simp: accessible_channels_def channel_readable_def token_allows_def
      split: sum.splits if_splits option.splits)

lemma resolve_readable:
  assumes "resolve_request_local_access acc ch (token_allows ctx ch) m = (ok, acc')"
    and "m = Some True \<longrightarrow> is_member env c ch (ax_pubkey ctx) = Inr True"
    and "\<forall>ch \<in> set acc. channel_readable env c ctx ch"
  shows "(\<forall>ch \<in> set acc'. channel_readable env c ctx ch) \<and> (ok \<longrightarrow> ch \<in> set acc')"
  using assms
  by (auto simp: resolve_request_local_access_def channel_readable_def split: if_splits option.splits bool.splits)

lemma confirm_channel_access_readable:
  assumes "confirm_channel_access env c ctx acc chan = Inr acc'"
    and "\<forall>ch \<in> set acc. channel_readable env c ctx ch"
  shows "\<forall>ch \<in> set acc'. channel_readable env c ctx ch"
proof (cases chan)
  case None
  with assms show ?thesis by (simp add: confirm_channel_access_def)
next
  case (Some ch)
  with assms(1) obtain m where "resolve_request_local_access acc ch (token_allows ctx ch) m = (True, acc')"
      "m = Some True \<longrightarrow> is_member env c ch (ax_pubkey ctx) = Inr True"
    by (auto simp: confirm_channel_access_def split: sum.splits if_splits bool.splits prod.splits)
  then show ?thesis using resolve_readable assms(2) by blast
qed

section \<open>Requests\<close>

definition req_delivered :: "relay_env \<Rightarrow> connection \<Rightarrow> nostr_filter list \<Rightarrow> event \<Rightarrow> bool" where
  "req_delivered env conn fs e \<longleftrightarrow>
     (\<exists>ctx x f. cn_auth conn = Authenticated ctx \<and> se_event x = e \<and> answered env (cn_community conn) x \<and>
        f \<in> set fs \<and> filter_match_one f x \<and> event_visible_to_reader e (ax_pubkey ctx) \<and>
        (\<forall>ch. se_channel_id x = Some ch \<longrightarrow> channel_readable env (cn_community conn) ctx ch))"

lemma events_of_simps [simp]:
  "events_of [] = []" "events_of (EventMsg s e # ms) = e # events_of ms"
  "events_of (NoticeMsg t # ms) = events_of ms" "events_of (ClosedMsg s t # ms) = events_of ms"
  "events_of (EoseMsg s # ms) = events_of ms" "events_of (CountMsg s n # ms) = events_of ms"
  by (simp_all add: events_of_def map_filter_simps)

lemma events_of_append [simp]: "events_of (xs @ ys) = events_of xs @ events_of ys"
  by (simp add: events_of_def map_filter_append)

lemma events_of_map [simp]: "events_of (map (\<lambda>x. EventMsg s (se_event x)) xs) = map se_event xs"
  by (induction xs) simp_all

text \<open>New messages whose events are distinct and satisfy \<open>p\<close>.\<close>

definition sends :: "(event \<Rightarrow> bool) \<Rightarrow> read_state \<Rightarrow> read_state \<Rightarrow> bool" where
  "sends p st st' \<longleftrightarrow>
     (\<exists>new. st_sent st' = st_sent st @ new \<and> distinct (map ev_id (events_of new)) \<and>
            (\<forall>e \<in> set (events_of new). p e))"

lemma sends_msg: "events_of [m] = [] \<Longrightarrow> sends p st (send_msg env m st)"
  unfolding sends_def by (auto simp: send_msg_def conn_send_def)

lemma sends_trans_msg: "events_of [m] = [] \<Longrightarrow> sends p st st' \<Longrightarrow> sends p st (send_msg env m st')"
  unfolding sends_def by (auto simp: send_msg_def conn_send_def)

lemma delivers_sends:
  assumes "delivers d s seen st0 st'" and "st_sent st0 = st_sent st" and "\<And>x. d x \<Longrightarrow> p (se_event x)"
  shows "sends p st st'"
proof -
  from assms(1) obtain seen' st1 where d: "delivery d s seen seen' st0 st1"
      "st' = st1 \<or> st' = st1\<lparr>st_sent := st_sent st1 @ [EoseMsg s]\<rparr>"
    unfolding delivers_def by blast
  from d(1) obtain xs where xs: "st_sent st1 = st_sent st @ map (\<lambda>x. EventMsg s (se_event x)) xs"
      "\<forall>x \<in> set xs. d x" "distinct (map (\<lambda>x. ev_id (se_event x)) xs)"
    unfolding delivery_def by (elim exE conjE) (simp add: assms(2))
  then have "sends p st st1"
    unfolding sends_def using assms(3)
    by (intro exI [of _ "map (\<lambda>x. EventMsg s (se_event x)) xs"]) (auto simp: comp_def)
  moreover from this have "sends p st (st1\<lparr>st_sent := st_sent st1 @ [EoseMsg s]\<rparr>)"
    unfolding sends_def by auto
  ultimately show ?thesis using d(2) by blast
qed

lemma deliverable_iff:
  "deliverable f acc r x \<longleftrightarrow>
     filter_match_one f x \<and> (\<forall>ch. se_channel_id x = Some ch \<longrightarrow> ch \<in> set acc) \<and>
     event_visible_to_reader (se_event x) r"
  by (auto simp: deliverable_def filters_match_def split: option.splits)

lemma req_event_delivered:
  assumes "req_event env (cn_community conn) fs acc (ax_pubkey ctx) x"
    and "cn_auth conn = Authenticated ctx"
    and "\<forall>ch \<in> set acc. channel_readable env (cn_community conn) ctx ch"
  shows "req_delivered env conn fs (se_event x)"
  using assms unfolding req_event_def req_delivered_def deliverable_iff by blast

lemma sent_register [simp]: "st_sent (register_subscription conn s fs ch st) = st_sent st"
  by (simp add: register_subscription_def split: prod.split)

lemma handle_req_authed_sends:
  assumes "cn_auth conn = Authenticated ctx"
  shows "sends (req_delivered env conn fs) st (handle_req_authed env conn ctx s fs st)"
proof -
  have closed: "sends (req_delivered env conn fs) st (send_msg env (ClosedMsg s m) st)" for m
    by (rule sends_msg) simp
  show ?thesis
  proof (cases "accessible_channels env (cn_community conn) ctx (filters_are_nip43_membership_only fs)")
    case (Inl e)
    with closed show ?thesis by (simp add: handle_req_authed_def Let_def)
  next
    case (Inr acc0)
    let ?ch = "extract_channel_id_from_filters (env_parse_uuid env) fs"
    show ?thesis
    proof (cases "confirm_channel_access env (cn_community conn) ctx acc0 ?ch")
      case (Inl m)
      with Inr closed show ?thesis by (simp add: handle_req_authed_def Let_def)
    next
      case acc: (Inr acc)
      have r: "\<forall>ch \<in> set acc. channel_readable env (cn_community conn) ctx ch"
        by (rule confirm_channel_access_readable [OF acc]) (use accessible_channels_readable [OF Inr] in blast)
      note del = req_event_delivered [OF _ assms r]
      have "sends (req_delivered env conn fs) st
          (deliver_filters env (cn_community conn) s acc (ax_pubkey ctx) ?ch fs [] (register_subscription conn s fs ?ch st))"
        by (rule delivers_sends [OF deliver_filters_delivers]) (auto intro: del)
      moreover have "sends (req_delivered env conn fs) st
          (handle_search_req env (cn_community conn) s fs acc g (ax_pubkey ctx) st)" for g
        by (rule delivers_sends [OF handle_search_req_delivers]) (auto intro: del)
      ultimately show ?thesis
        using Inr acc closed by (auto simp: handle_req_authed_def Let_def split: option.split)
    qed
  qed
qed

lemma handle_req_sends: "sends (req_delivered env conn fs) st (handle_req env conn sub_id fs st)"
proof (cases "cn_auth conn")
  case (Authenticated ctx)
  then show ?thesis
    using handle_req_authed_sends [OF Authenticated]
    by (simp add: handle_req_def sends_msg sends_trans_msg)
qed (simp_all add: handle_req_def sends_msg sends_trans_msg)

text \<open>
  C10. What a \<open>REQ\<close> can deliver, whatever the database, the search index and the caches
  answer: only to an authenticated connection, only events that the database returned for the
  connection's own community, that match one of the request's filters, are visible to the
  requester, and lie in no channel or in one the token covers and whose membership the cache
  or the table confirms; and no event id twice.
\<close>

theorem handle_req_delivers_only_readable:
  "\<exists>new. st_sent (handle_req env conn sub_id fs st) = st_sent st @ new \<and>
     distinct (map ev_id (events_of new)) \<and> list_all (req_delivered env conn fs) (events_of new)"
  using handle_req_sends [of env conn fs st sub_id] by (simp add: sends_def list_all_iff)

section \<open>The database as the source of a request\<close>

text \<open>
  What the handlers rely on of the database: an answer to a query of a community holds
  events of that community only.
\<close>

locale tenant_source =
  fixes env :: relay_env
    and belongs :: "uuid \<Rightarrow> stored_event \<Rightarrow> bool"
  assumes query_scoped: "query_events_routed env q = Inr evs \<Longrightarrow> x \<in> set evs \<Longrightarrow> belongs (q_community_id q) x"
    and ids_scoped: "get_events_by_ids_routed env c ids = Inr evs \<Longrightarrow> x \<in> set evs \<Longrightarrow> belongs c x"
begin

lemma answered_belongs: "answered env c x \<Longrightarrow> belongs c x"
  unfolding answered_def using query_scoped ids_scoped by blast

lemma delivered_belongs:
  "req_delivered env conn fs e \<Longrightarrow> \<exists>x. se_event x = e \<and> belongs (cn_community conn) x"
  unfolding req_delivered_def using answered_belongs by blast

lemma req_sends_own_community:
  "sends (\<lambda>e. \<exists>x. se_event x = e \<and> belongs (cn_community conn) x) st (handle_req env conn s fs st)"
  using handle_req_sends [of env conn fs st s] unfolding sends_def using delivered_belongs by blast

end

definition store_env :: "event_decoder \<Rightarrow> event_db \<Rightarrow> relay_env \<Rightarrow> relay_env" where
  "store_env event_from_json db env =
     env\<lparr>query_events_routed := query_events event_from_json db,
         count_events_routed := (\<lambda>q. Inr (count_events db q)),
         get_events_by_ids_routed := get_events_by_ids event_from_json db\<rparr>"

definition stored_in :: "event_decoder \<Rightarrow> event_db \<Rightarrow> uuid \<Rightarrow> stored_event \<Rightarrow> bool" where
  "stored_in event_from_json db c x =
     list_ex (\<lambda>r. row_community_id r = c \<and> row_deleted_at r = None \<and>
                  row_to_stored_event event_from_json r = Inr (Some x)) (db_events db)"

lemma read_rows_mem:
  "read_rows dec rs = Inr out \<Longrightarrow> x \<in> set out \<Longrightarrow> \<exists>r \<in> set rs. row_to_stored_event dec r = Inr (Some x)"
  by (induction rs arbitrary: out) (auto split: sum.splits option.splits)

lemma query_rows_scope: "query_rows db q = Inr rows \<Longrightarrow> r \<in> set rows \<Longrightarrow> in_scope q db r"
  by (auto simp: query_rows_def Let_def set_from_events [symmetric] split: if_splits
      dest!: in_set_takeD in_set_dropD)

lemma in_scope_stored:
  "in_scope q db r \<Longrightarrow> row_to_stored_event dec r = Inr (Some x) \<Longrightarrow> stored_in dec db (q_community_id q) x"
  by (auto simp: in_scope_def stored_in_def list_ex_iff)

interpretation store: tenant_source "store_env dec db env" "stored_in dec db" for dec db env
proof
  fix q evs x
  assume "query_events_routed (store_env dec db env) q = Inr evs" and x: "x \<in> set evs"
  then obtain rows where "query_rows db q = Inr rows" "read_rows dec rows = Inr evs"
    by (auto simp: store_env_def query_events_def split: sum.splits)
  with x show "stored_in dec db (q_community_id q) x"
    using read_rows_mem query_rows_scope in_scope_stored by blast
next
  fix c ids evs x
  assume "get_events_by_ids_routed (store_env dec db env) c ids = Inr evs" and x: "x \<in> set evs"
  then have "ids \<noteq> []" "read_rows dec (filter (\<lambda>r. row_community_id r = c \<and> row_deleted_at r = None \<and>
      row_id r \<in> set ids) (db_events db)) = Inr evs"
    by (auto simp: store_env_def get_events_by_ids_def split: if_splits)
  with x show "stored_in dec db c x"
    using read_rows_mem by (fastforce simp: stored_in_def list_ex_iff)
qed

text \<open>
  Tenant isolation of reads, end to end: every event a \<open>REQ\<close> delivers from the database
  is read from a live row of the connection's own community.
\<close>

lemma req_reads_own_community:
  "\<exists>new. st_sent (handle_req (store_env dec db env) conn s fs st) = st_sent st @ new \<and>
     list_all (\<lambda>e. \<exists>x. se_event x = e \<and> stored_in dec db (cn_community conn) x) (events_of new)"
  using store.req_sends_own_community [where conn = conn and st = st and s = s and fs = fs and dec = dec and db = db and env = env]
  by (auto simp: sends_def list_all_iff)

section \<open>Registration\<close>

definition same_registrations :: "read_state \<Rightarrow> read_state \<Rightarrow> bool" where
  "same_registrations st st' \<longleftrightarrow>
     st_subscriptions st = st_subscriptions st' \<and> st_registry st = st_registry st' \<and> st_topics st = st_topics st'"

lemma same_send [simp]: "same_registrations st (send_msg env m st') = same_registrations st st'"
  by (simp add: same_registrations_def send_msg_def conn_send_def)

lemma same_refl [simp]: "same_registrations st st"
  by (simp add: same_registrations_def)

lemma same_delivers: "delivers d s seen st st' \<Longrightarrow> same_registrations st st'"
  by (auto simp: delivers_def delivery_def same_registrations_def)

text \<open>When a request may register: the conditions of the code, as one predicate.\<close>

definition may_register :: "relay_env \<Rightarrow> connection \<Rightarrow> auth_context \<Rightarrow> sub_id \<Rightarrow> nostr_filter list \<Rightarrow> read_state \<Rightarrow> bool" where
  "may_register env conn ctx s fs st \<longleftrightarrow>
     cn_auth conn = Authenticated ctx \<and>
     (ax_scopes ctx = [] \<or> MessagesRead \<in> set (ax_scopes ctx)) \<and>
     (map_of (st_subscriptions st) s \<noteq> None \<or> length (st_subscriptions st) < MAX_SUBSCRIPTIONS) \<and>
     list_all (\<lambda>f. f_search f = None) fs \<and>
     (case extract_channel_id_from_filters (env_parse_uuid env) fs of
        Some ch \<Rightarrow> channel_readable env (cn_community conn) ctx ch
      | None \<Rightarrow>
          p_gated_filters_authorized fs (ax_pubkey ctx) \<and> engram_filters_authorized fs (ax_pubkey ctx) \<and>
          author_only_filters_authorized fs (ax_pubkey ctx))"

lemma confirm_channel_access_channel:
  assumes "confirm_channel_access env c ctx acc (Some ch) = Inr acc'"
    and "\<forall>ch \<in> set acc. channel_readable env c ctx ch"
  shows "channel_readable env c ctx ch"
proof -
  from assms(1) obtain m where "resolve_request_local_access acc ch (token_allows ctx ch) m = (True, acc')"
      "m = Some True \<longrightarrow> is_member env c ch (ax_pubkey ctx) = Inr True"
    by (auto simp: confirm_channel_access_def split: sum.splits if_splits bool.splits prod.splits)
  then show ?thesis using resolve_readable assms(2) by blast
qed

lemma handle_req_authed_registers:
  assumes "cn_auth conn = Authenticated ctx"
    and "ax_scopes ctx = [] \<or> MessagesRead \<in> set (ax_scopes ctx)"
    and "map_of (st_subscriptions st) s \<noteq> None \<or> length (st_subscriptions st) < MAX_SUBSCRIPTIONS"
  shows "same_registrations st (handle_req_authed env conn ctx s fs st) \<or>
    may_register env conn ctx s fs st \<and>
    same_registrations
      (register_subscription conn s fs (extract_channel_id_from_filters (env_parse_uuid env) fs) st)
      (handle_req_authed env conn ctx s fs st)"
proof (cases "accessible_channels env (cn_community conn) ctx (filters_are_nip43_membership_only fs)")
  case (Inl e)
  then show ?thesis by (simp add: handle_req_authed_def Let_def)
next
  case (Inr acc0)
  let ?ch = "extract_channel_id_from_filters (env_parse_uuid env) fs"
  have r0: "\<forall>ch \<in> set acc0. channel_readable env (cn_community conn) ctx ch"
    using accessible_channels_readable [OF Inr] by blast
  show ?thesis
  proof (cases "confirm_channel_access env (cn_community conn) ctx acc0 ?ch")
    case (Inl m)
    with Inr show ?thesis by (simp add: handle_req_authed_def Let_def)
  next
    case acc: (Inr acc)
    have search: "same_registrations st
        (handle_search_req env (cn_community conn) s fs acc g (ax_pubkey ctx) st)" for g
      by (rule same_delivers [OF handle_search_req_delivers])
    have reg: "same_registrations (register_subscription conn s fs ?ch st)
        (deliver_filters env (cn_community conn) s acc (ax_pubkey ctx) ?ch fs [] (register_subscription conn s fs ?ch st))"
      by (rule same_delivers [OF deliver_filters_delivers])
    show ?thesis
    proof (cases "(?ch = None \<longrightarrow> req_gates fs (ax_pubkey ctx) = None) \<and> list_all (\<lambda>f. f_search f = None) fs")
      case False
      with Inr acc search show ?thesis
        by (auto simp: handle_req_authed_def Let_def list_ex_iff list_all_iff split: option.splits)
    next
      case True
      have "may_register env conn ctx s fs st"
        using assms True acc confirm_channel_access_channel [OF _ r0]
        by (auto simp: may_register_def req_gates_def split: option.split if_splits)
      moreover have "handle_req_authed env conn ctx s fs st =
          deliver_filters env (cn_community conn) s acc (ax_pubkey ctx) ?ch fs [] (register_subscription conn s fs ?ch st)"
        using Inr acc True
        by (auto simp: handle_req_authed_def Let_def list_ex_iff list_all_iff split: option.split)
      ultimately show ?thesis using reg by simp
    qed
  qed
qed

definition registered :: "connection \<Rightarrow> sub_id \<Rightarrow> nostr_filter list \<Rightarrow> uuid option \<Rightarrow> read_state \<Rightarrow> read_state \<Rightarrow> bool" where
  "registered conn s fs ch st st' \<longleftrightarrow>
     map_of (st_subscriptions st') = (map_of (st_subscriptions st))(s \<mapsto> fs) \<and>
     live_sub (st_registry st') = (live_sub (st_registry st))((cn_conn_id conn, s) \<mapsto> (fs, cn_community conn, ch)) \<and>
     st_topics st' = st_topics st
       @ (case live_sub (st_registry st) (cn_conn_id conn, s) of
            None \<Rightarrow> []
          | Some (_, _, old) \<Rightarrow> [Release (topic_for_subscription old)])
       @ [Retain (topic_for_subscription ch)]"

lemma registered_register_subscription: "registered conn s fs ch st (register_subscription conn s fs ch st)"
proof -
  let ?reg = "register_scoped (cn_community conn) (cn_conn_id conn) s fs ch (st_registry st)"
  obtain replaced registry where reg: "?reg = (replaced, registry)" by fastforce
  then have "live_sub registry = live_sub (snd ?reg)" "replaced = fst ?reg" by simp_all
  then show ?thesis
    unfolding fst_register_scoped live_register_scoped
    by (auto simp: registered_def register_subscription_def reg update_conv' split: option.split)
qed

lemma registered_same:
  assumes "registered conn s fs ch st st1" and "same_registrations st1 st2"
  shows "registered conn s fs ch st st2"
  using assms by (simp add: registered_def same_registrations_def)

text \<open>
  C21. What a \<open>REQ\<close> registers: either nothing changes but the messages, or the request was
  allowed to subscribe (authenticated with the read scope, within the subscription limit, no
  search filter; a channel request to a readable channel, a global request past all three
  gates) and the subscription is registered under its id with exactly the filters and the
  channel of the request and no other subscription changes, the topic of the subscription it
  replaces is released and its own retained.
\<close>

theorem handle_req_registers_exactly:
  "same_registrations st (handle_req env conn s fs st) \<or>
   (\<exists>ctx. may_register env conn ctx s fs st) \<and>
   registered conn s fs (extract_channel_id_from_filters (env_parse_uuid env) fs) st
     (handle_req env conn s fs st)"
proof (cases "cn_auth conn")
  case (Authenticated ctx)
  then show ?thesis
    using handle_req_authed_registers [OF Authenticated, of st s env fs]
    by (auto simp: handle_req_def intro: registered_same [OF registered_register_subscription])
qed (simp_all add: handle_req_def)

section \<open>COUNT\<close>

lemma row_kind_pushed:
  assumes "row_stored r" and "q_kinds q = map_option (map uint) (f_kinds f)" and "\<not> matches_nothing q"
    and "event_clause q r" and "p (event_kind_u32 (row_event r))"
  shows "can_match_kinds f p"
proof (cases "f_kinds f")
  case None
  then show ?thesis by (simp add: can_match_kinds_def)
next
  case (Some ks)
  with assms(2,3) have "ks \<noteq> []" by (auto simp: matches_nothing_def)
  with assms(1,2,4) Some have "uint (ev_kind (row_event r)) \<in> uint ` set ks"
    by (simp add: event_clause_def row_stored_def event_kind_i32_eq)
  then have "ev_kind (row_event r) \<in> set ks" by (auto dest: word_uint_eqI)
  with assms(5) Some show ?thesis by (auto simp: can_match_kinds_def list_ex_iff event_kind_u32_def)
qed

lemma row_author_pushed:
  assumes "author_is_self f r" and "event_clause q row"
    and "q_pubkey q = (case f_authors f of Some [a] \<Rightarrow> Some a | _ \<Rightarrow> None)"
    and "q_authors q = (case f_authors f of Some (a # b # as) \<Rightarrow> Some (a # b # as) | _ \<Rightarrow> None)"
    and "lower_text r" and "lower_text (row_pubkey row)"
  shows "row_pubkey row = r"
proof -
  from assms(1) obtain as where as: "f_authors f = Some as" "as \<noteq> []"
      "list_all (\<lambda>a. eq_ignore_ascii_case a r) as"
    by (auto simp: author_is_self_def some_and_all_iff)
  with assms(2-4) have "row_pubkey row \<in> set as"
    by (auto simp: event_clause_def split: list.splits)
  with as(3) assms(5,6) show ?thesis by (auto simp: list_all_iff eq_ignore_case_lower)
qed

lemma row_p_tag_pushed:
  assumes "result_gated_count_safe_for_pushdown f r" and "filter_wf f" and "in_scope q db row"
    and "q_p_tag_hex q = (case generic_tag f ''p'' of Some [v] \<Rightarrow> Some v | _ \<Rightarrow> None)"
    and "mentions_recorded db row" and "lower_text r" and "list_all lower_text (tag_values ''p'' (row_event row))"
  shows "r \<in> set (tag_values ''p'' (row_event row))"
proof -
  from assms(1) obtain vs where vs: "generic_tag f ''p'' = Some vs" "vs \<noteq> []" "list_all (\<lambda>v. v = r) vs"
    by (auto simp: result_gated_count_safe_for_pushdown_def some_and_all_iff)
  then have "(''p'', vs) \<in> set (f_generic_tags f)" by (auto simp: generic_tag_def dest: map_of_SomeD)
  with assms(2) have "distinct vs" by (auto simp: filter_wf_def list_all_iff)
  with vs have "vs = [r]" by (cases vs; cases "tl vs") auto
  with vs(1) assms(3,4,6) have "(row_community_id row, r, row_id row) \<in> mention_key ` set (db_mentions db)"
    by (simp add: in_scope_def lower_text_map)
  with assms(5) have "r \<in> set (valid_pubkeys (row_event row))" by (simp add: mentions_recorded_def)
  with assms(7) show ?thesis by (auto simp: valid_pubkeys_eq list_all_iff lower_text_map)
qed

text \<open>
  The fast path of \<open>COUNT\<close> counts no hidden event: when the handler hands a filter to
  \<open>count_events\<close> instead of checking each event, every row that the query counts is visible
  to the requester, for either form of the query. This asks for a well-formed filter, recorded mentions, and
  lower-case keys of the requester, of the author and in the \<open>p\<close> tags.
\<close>

lemma count_fast_path_visible:
  assumes "count_fast_path f r" and "q = (count_query env c r f)\<lparr>q_channel_ids := chs, q_limit := l\<rparr>"
    and "row \<in> set (filter (count_where q) (from_events q db))" and "\<not> matches_nothing q"
    and "db_reachable valid db" and "mentions_recorded db row" and "filter_wf f" and "lower_text r"
    and "lower_text (row_pubkey row)" and "list_all lower_text (tag_values ''p'' (row_event row))"
  shows "event_visible_to_reader (row_event row) r"
proof -
  let ?k = "event_kind_u32 (row_event row)"
  have fast: "\<not> filter_can_match_shared_gated_kinds f"
    "filter_can_match_author_only_kinds f \<Longrightarrow> author_is_self f r"
    "filter_can_match_result_gated_kinds f \<Longrightarrow> result_gated_count_safe_for_pushdown f r"
    using assms(1) by (auto simp: count_fast_path_def Let_def)
  define q0 where "q0 = filter_to_query_params (env_from_timestamp env) f
    (extract_channel_id_from_filter (env_parse_uuid env) f) c"
  note fields = query_params_fields [OF q0_def]
  have q: "q = q0\<lparr>q_channel_ids := chs, q_limit := l\<rparr>"
    using assms(2) fast(1) by (simp add: count_query_def build_event_query_from_filter_def q0_def)
  have row: "in_scope q db row" "event_clause q row"
    using assms(3) by (auto simp: set_from_events count_where_def)
  have st: "row_stored row"
    using db_reachable_ok [OF assms(5)] row(1) by (auto simp: db_ok_def list_all_iff in_scope_def)
  have kinds: "p ?k \<Longrightarrow> can_match_kinds f p" for p
    using row_kind_pushed [OF st _ assms(4) row(2)] fields by (simp add: q)
  have "row_pubkey row = r" if "?k \<in> set AUTHOR_ONLY_KINDS"
  proof (rule row_author_pushed [OF _ row(2)])
    show "author_is_self f r"
      using fast(2) kinds [of "\<lambda>k. k \<in> set AUTHOR_ONLY_KINDS"] that
      by (simp add: filter_can_match_author_only_kinds_def)
  qed (use fields assms(8,9) in \<open>simp_all add: q\<close>)
  moreover have "\<not> is_shared_gated_kind ?k"
    using fast(1) kinds [of "\<lambda>k. k \<in> set SHARED_GATED_KINDS"]
    by (auto simp: filter_can_match_shared_gated_kinds_def is_shared_gated_kind_def)
  moreover have "r \<in> set (tag_values ''p'' (row_event row))" if "?k \<in> set RESULT_GATED_KINDS"
  proof (rule row_p_tag_pushed [OF _ assms(7) row(1) _ assms(6,8,10)])
    show "result_gated_count_safe_for_pushdown f r"
      using fast(3) kinds [of "\<lambda>k. k \<in> set RESULT_GATED_KINDS"] that
      by (simp add: filter_can_match_result_gated_kinds_def)
  qed (use fields in \<open>simp add: q\<close>)
  ultimately show ?thesis by (simp add: event_visible_iff)
qed

text \<open>The decoder of the nostr crate rebuilds the event whose fields it is given.\<close>

definition decoder_ok :: "event_decoder \<Rightarrow> bool" where
  "decoder_ok event_from_json \<longleftrightarrow>
     (\<forall>i pk t k tags content. 0 \<le> t \<longrightarrow>
        event_from_json i pk t k tags content =
          Some \<lparr>ev_id = i, ev_pubkey = pk, ev_created_at = nat t, ev_kind = k, ev_tags = tags, ev_content = content\<rparr>)"

lemma read_rows_stored:
  assumes "decoder_ok dec"
  shows "list_all (\<lambda>r. row_stored r \<and> 0 \<le> row_created_at r) rs \<Longrightarrow>
    read_rows dec rs = Inr (map row_stored_event rs)"
proof (induction rs)
  case (Cons r rs)
  then have "row_kind r = uint (word_of_int (row_kind r) :: u16)" "0 \<le> row_created_at r"
    by (auto simp: row_stored_def event_kind_i32_eq row_event_def)
  moreover have "0 \<le> uint (w :: u16)" "uint (w :: u16) \<le> 65535" for w
    using uint_bounded [of w] by auto
  ultimately have "row_to_stored_event dec r = Inr (Some (row_stored_event r))"
    using assms unfolding row_to_stored_event_def decoder_ok_def
    by (metis (no_types, lifting) linorder_not_less option.simps(9) row_event_def row_stored_event_def)
  with Cons show ?case by simp
qed simp

lemma fallback_limit_fields:
  "page_limit (apply_count_fallback_limit q) = 5001" "q_offset (apply_count_fallback_limit q) = q_offset q"
  "hits db (apply_count_fallback_limit q) = hits db q"
  "matches_nothing (apply_count_fallback_limit q) = matches_nothing q"
  by (simp_all add: apply_count_fallback_limit_def page_limit_def COUNT_FALLBACK_CANDIDATE_LIMIT_def Let_def
      hits_def query_where_def [abs_def] from_events_def channel_clause_def [abs_def] event_clause_def [abs_def]
      d_tag_clause_def [abs_def] matches_nothing_def cong: option.case_cong)

text \<open>
  The fallback of \<open>COUNT\<close> is exact: when a filter is not counted by the database alone,
  the reply is either a refusal to count more than 5000 candidates, or the number of all live
  rows the query selects that match the filter and are visible to the requester, none cut off
  by the page limit.
\<close>

lemma count_fallback_exact:
  assumes "decoder_ok dec" and "db_reachable valid db" and "\<not> count_fast_path f r"
    and "list_all (\<lambda>row. 0 \<le> row_created_at row) (db_events db)" and "q_offset q = None"
    and "count_filter (store_env dec db env) show_err f r fq q = Inr n"
  shows "n = (if matches_nothing q then 0
    else length (filter (\<lambda>se. filters_match [f] se \<and> event_visible_to_reader (se_event se) r)
           (map row_stored_event (hits db q))))"
proof -
  let ?q = "apply_count_fallback_limit q"
  from assms(3,6) obtain evs where evs: "query_events dec db ?q = Inr evs" "length evs \<le> 5000"
      "n = length (filter (\<lambda>se. filters_match [f] se \<and> event_visible_to_reader (se_event se) r) evs)"
    by (auto simp: count_filter_def store_env_def count_fallback_exceeded_def
        COUNT_FALLBACK_CANDIDATE_LIMIT_def split: sum.splits if_splits)
  then obtain rows where rows: "query_rows db ?q = Inr rows" "read_rows dec rows = Inr evs"
    by (auto simp: query_events_def split: sum.splits)
  have "list_all row_stored (db_events db)"
    using db_reachable_ok [OF assms(2)] by (simp add: db_ok_def)
  then have "list_all (\<lambda>r. row_stored r \<and> 0 \<le> row_created_at r) rows"
    using assms(4) query_rows_scope [OF rows(1)] by (auto simp: list_all_iff in_scope_def)
  with read_rows_stored [OF assms(1)] rows(2) have ev: "evs = map row_stored_event rows" by simp
  have "rows = (if matches_nothing q then [] else take 5001 (hits db q))"
    using query_rows_page [OF rows(1)] assms(5) by (simp add: fallback_limit_fields)
  with evs(2) ev have "rows = (if matches_nothing q then [] else hits db q)"
    by (auto split: if_splits)
  with ev evs(3) show ?thesis by simp
qed

section \<open>A small relay\<close>

definition demo_decoder :: event_decoder where
  "demo_decoder i pk t k tags content =
     Some \<lparr>ev_id = i, ev_pubkey = pk, ev_created_at = nat t, ev_kind = k, ev_tags = tags, ev_content = content\<rparr>"

definition demo_env :: relay_env where
  "demo_env = store_env demo_decoder demo_db
     \<lparr>get_accessible_channel_ids_cached = (\<lambda>_ _. Inr [''room'']), is_member = (\<lambda>_ _ _. Inr False),
      query_events_routed = (\<lambda>_. Inr []), count_events_routed = (\<lambda>_. Inr 0),
      get_events_by_ids_routed = (\<lambda>_ _. Inr []), search_hits = (\<lambda>_. None),
      env_parse_uuid = Some, env_from_timestamp = (\<lambda>_. True), accepts = (\<lambda>_. True)\<rparr>"

lemma demo_mentions: "mentions_recorded demo_db (demo_row ''02'' 7)"
proof -
  have "db_mentions demo_db = []" "valid_pubkeys (row_event (demo_row ''02'' 7)) = []" by code_simp+
  then show ?thesis by (simp add: mentions_recorded_def)
qed

lemma count_fast_path_visible_instance:
  "event_visible_to_reader (row_event (demo_row ''02'' 7)) ''bb'' \<and> count_fast_path demo_room_filter ''bb''"
proof -
  let ?q = "(count_query demo_env ''c1'' ''bb'' demo_room_filter)\<lparr>q_channel_ids := None, q_limit := None\<rparr>"
  have h: "count_fast_path demo_room_filter ''bb''"
    "demo_row ''02'' 7 \<in> set (filter (count_where ?q) (from_events ?q demo_db))" "\<not> matches_nothing ?q"
    "filter_wf demo_room_filter" "lower_text ''bb''" "lower_text (row_pubkey (demo_row ''02'' 7))"
    "list_all lower_text (tag_values ''p'' (row_event (demo_row ''02'' 7)))"
    by code_simp+
  show ?thesis
    using count_fast_path_visible [OF h(1) refl h(2,3) demo_db_reachable demo_mentions h(4-7)] h(1) by simp
qed

lemma count_fallback_exact_instance:
  "length (filter (\<lambda>se. filters_match [any_filter] se \<and> event_visible_to_reader (se_event se) ''bb'')
     (map row_stored_event (hits demo_db (for_community ''c1'')))) = 3"
proof -
  have d: "decoder_ok demo_decoder" by (simp add: decoder_ok_def demo_decoder_def)
  have h: "\<not> count_fast_path any_filter ''bb''" "list_all (\<lambda>row. 0 \<le> row_created_at row) (db_events demo_db)"
    "q_offset (for_community ''c1'') = None" "\<not> matches_nothing (for_community ''c1'')"
    by code_simp+
  have "count_filter demo_env (\<lambda>_. []) any_filter ''bb'' (for_community ''c1'') (for_community ''c1'') = Inr 3"
    by code_simp
  from count_fallback_exact [OF d demo_db_reachable h(1-3) this [unfolded demo_env_def]] h(4)
  show ?thesis by simp
qed

end
