(* ===== verification/Event_Queue.thy ===== *)
theory Event_Queue
  imports Nostr_Event "HOL-Library.Multiset"
begin

text \<open>
  The event queue of the agent harness, crates/buzz-acp/src/queue.rs: pending events per
  channel, the channels with a prompt in flight and their deadlines, retries with backoff,
  cancelled batches, and the side table of events withheld while a steer is in flight.

  The maps of the struct are maps and its set of channels in flight a set. An operation that
  reads the clock takes the instant as an argument, in nanoseconds; one that iterates over a
  map takes the order in which the keys are visited. The jitter of the backoff is computed
  exactly from the subsecond nanoseconds of the clock; the code computes it with 64-bit
  floats.
\<close>

section \<open>Data\<close>

definition MAX_PENDING_PER_CHANNEL :: nat where "MAX_PENDING_PER_CHANNEL = 500"
definition MAX_BATCH_EVENTS :: nat where "MAX_BATCH_EVENTS = 50"
definition MAX_RETRIES :: nat where "MAX_RETRIES = 10"
definition BASE_RETRY_DELAY_SECS :: nat where "BASE_RETRY_DELAY_SECS = 5"
definition MAX_RETRY_DELAY_SECS :: nat where "MAX_RETRY_DELAY_SECS = 300"
definition IN_FLIGHT_DEADLINE_BUFFER_SECS :: nat where "IN_FLIGHT_DEADLINE_BUFFER_SECS = 100"
definition DEFAULT_IN_FLIGHT_DEADLINE_SECS :: nat where "DEFAULT_IN_FLIGHT_DEADLINE_SECS = 7300"

text \<open>\<open>Duration::from_secs\<close>, in nanoseconds.\<close>

definition from_secs :: "nat \<Rightarrow> nat" where
  "from_secs s = s * 1000000000"

datatype dedup_mode = Drop | Queue

datatype cancel_reason = Interrupt | Steer

record queued_event =
  qe_channel_id :: uuid
  qe_event :: event
  qe_received_at :: instant
  qe_prompt_tag :: string

record batch_event =
  be_event :: event
  be_prompt_tag :: string
  be_received_at :: instant

record flush_batch =
  fb_channel_id :: uuid
  fb_events :: "batch_event list"
  fb_cancelled_events :: "batch_event list"
  fb_cancel_reason :: "cancel_reason option"

record event_queue =
  queues :: "uuid \<rightharpoonup> queued_event list"
  in_flight_channels :: "uuid set"
  in_flight_deadlines :: "uuid \<rightharpoonup> instant"
  in_flight_batch_sizes :: "uuid \<rightharpoonup> nat"
  retry_after :: "uuid \<rightharpoonup> instant"
  retry_counts :: "uuid \<rightharpoonup> nat"
  eq_dedup_mode :: dedup_mode
  cancelled_batches :: "uuid \<rightharpoonup> batch_event list"
  cancel_reasons :: "uuid \<rightharpoonup> cancel_reason"
  withheld_native_steer :: "uuid \<rightharpoonup> queued_event list"
  in_flight_deadline :: nat

definition queue_new :: "dedup_mode \<Rightarrow> event_queue" where
  "queue_new mode =
     \<lparr>queues = Map.empty, in_flight_channels = {}, in_flight_deadlines = Map.empty,
      in_flight_batch_sizes = Map.empty, retry_after = Map.empty, retry_counts = Map.empty,
      eq_dedup_mode = mode, cancelled_batches = Map.empty, cancel_reasons = Map.empty,
      withheld_native_steer = Map.empty,
      in_flight_deadline = from_secs DEFAULT_IN_FLIGHT_DEADLINE_SECS\<rparr>"

definition with_in_flight_deadline :: "nat \<Rightarrow> event_queue \<Rightarrow> event_queue" where
  "with_in_flight_deadline max_turn_duration_secs q =
     q\<lparr>in_flight_deadline := from_secs (max_turn_duration_secs + IN_FLIGHT_DEADLINE_BUFFER_SECS)\<rparr>"

definition extend_in_flight_deadline :: "instant \<Rightarrow> uuid \<Rightarrow> nat \<Rightarrow> event_queue \<Rightarrow> event_queue" where
  "extend_in_flight_deadline now channel_id max_turn_secs q =
     (case in_flight_deadlines q channel_id of
        None \<Rightarrow> q
      | Some current \<Rightarrow>
          (let extended = now + from_secs (max_turn_secs + IN_FLIGHT_DEADLINE_BUFFER_SECS) in
           if extended > current
           then q\<lparr>in_flight_deadlines := (in_flight_deadlines q)(channel_id \<mapsto> extended)\<rparr>
           else q))"

section \<open>Push\<close>

text \<open>The pending events of a channel, the empty queue when there is no entry.\<close>

definition pending :: "event_queue \<Rightarrow> uuid \<Rightarrow> queued_event list" where
  "pending q c = postings (queues q) c"

definition push :: "queued_event \<Rightarrow> event_queue \<Rightarrow> bool \<times> event_queue" where
  "push ev q =
     (if eq_dedup_mode q = Drop \<and> qe_channel_id ev \<in> in_flight_channels q then (False, q)
      else
        (let queue = pending q (qe_channel_id ev);
             queue = (if length queue \<ge> MAX_PENDING_PER_CHANNEL then tl queue else queue)
         in (True, q\<lparr>queues := (queues q)(qe_channel_id ev \<mapsto> queue @ [ev])\<rparr>)))"

section \<open>Flush\<close>

text \<open>\<open>push_front\<close> of a list of events in reverse, then \<open>pop_back\<close> down to the cap.\<close>

definition restore_front :: "uuid \<Rightarrow> queued_event list \<Rightarrow> event_queue \<Rightarrow> event_queue" where
  "restore_front channel_id evs q =
     q\<lparr>queues := (queues q)(channel_id \<mapsto> take MAX_PENDING_PER_CHANNEL (evs @ pending q channel_id))\<rparr>"

definition recover_withheld_for_expired_channel :: "uuid \<Rightarrow> event_queue \<Rightarrow> event_queue" where
  "recover_withheld_for_expired_channel channel_id q =
     (case withheld_native_steer q channel_id of
        None \<Rightarrow> q
      | Some es \<Rightarrow>
          restore_front channel_id es
            (q\<lparr>withheld_native_steer := (withheld_native_steer q)(channel_id := None)\<rparr>))"

definition expire_channel :: "uuid \<Rightarrow> event_queue \<Rightarrow> event_queue" where
  "expire_channel c q =
     recover_withheld_for_expired_channel c
       (q\<lparr>in_flight_batch_sizes := (in_flight_batch_sizes q)(c := None),
          in_flight_channels := in_flight_channels q - {c},
          in_flight_deadlines := (in_flight_deadlines q)(c := None)\<rparr>)"

text \<open>\<open>expired\<close>: the channels of \<open>in_flight_deadlines\<close> whose deadline has passed, as visited.\<close>

definition expired_channels :: "instant \<Rightarrow> uuid list \<Rightarrow> event_queue \<Rightarrow> uuid list" where
  "expired_channels now deadline_order q =
     map fst (filter (\<lambda>(c, deadline). now \<ge> deadline) (entries deadline_order (in_flight_deadlines q)))"

definition auto_expire :: "instant \<Rightarrow> uuid list \<Rightarrow> event_queue \<Rightarrow> event_queue" where
  "auto_expire now deadline_order q = fold expire_channel (expired_channels now deadline_order q) q"

definition ready :: "instant \<Rightarrow> event_queue \<Rightarrow> uuid \<Rightarrow> queued_event list \<Rightarrow> bool" where
  "ready now q c evs =
     (evs \<noteq> [] \<and> c \<notin> in_flight_channels q \<and>
      (case retry_after q c of None \<Rightarrow> True | Some t \<Rightarrow> t \<le> now))"

text \<open>\<open>min_by_key\<close>: the first of the elements with the least key.\<close>

fun min_by_key :: "('a \<Rightarrow> nat) \<Rightarrow> 'a list \<Rightarrow> 'a option" where
  "min_by_key k [] = None"
| "min_by_key k (x # xs) =
     (case min_by_key k xs of None \<Rightarrow> Some x | Some y \<Rightarrow> if k x \<le> k y then Some x else Some y)"

definition next_channel :: "instant \<Rightarrow> uuid list \<Rightarrow> event_queue \<Rightarrow> uuid option" where
  "next_channel now queue_order q =
     map_option fst (min_by_key (\<lambda>(c, evs). qe_received_at (hd evs))
       (filter (\<lambda>(c, evs). ready now q c evs) (entries queue_order (queues q))))"

definition to_batch_event :: "queued_event \<Rightarrow> batch_event" where
  "to_batch_event qe = \<lparr>be_event = qe_event qe, be_prompt_tag = qe_prompt_tag qe, be_received_at = qe_received_at qe\<rparr>"

definition mark_in_flight :: "instant \<Rightarrow> uuid \<Rightarrow> nat \<Rightarrow> event_queue \<Rightarrow> event_queue" where
  "mark_in_flight now c n q =
     q\<lparr>in_flight_channels := insert c (in_flight_channels q),
       in_flight_deadlines := (in_flight_deadlines q)(c \<mapsto> now + in_flight_deadline q),
       in_flight_batch_sizes := (in_flight_batch_sizes q)(c \<mapsto> n)\<rparr>"

definition forget_cancelled :: "uuid \<Rightarrow> event_queue \<Rightarrow> event_queue" where
  "forget_cancelled c q =
     q\<lparr>cancelled_batches := (cancelled_batches q)(c := None), cancel_reasons := (cancel_reasons q)(c := None)\<rparr>"

definition flush_channel :: "instant \<Rightarrow> uuid \<Rightarrow> event_queue \<Rightarrow> flush_batch \<times> event_queue" where
  "flush_channel now c q =
     (let queue = pending q c;
          drain_count = min MAX_BATCH_EVENTS (length queue);
          events = sort_key (\<lambda>be. ev_created_at (be_event be)) (map to_batch_event (take drain_count queue));
          rest = drop drain_count queue;
          cancelled_events = postings (cancelled_batches q) c;
          cancel_reason = (if cancelled_events = [] then None else cancel_reasons q c);
          q = q\<lparr>queues := (if rest = [] then (queues q)(c := None) else (queues q)(c \<mapsto> rest))\<rparr>
      in (\<lparr>fb_channel_id = c, fb_events = events, fb_cancelled_events = cancelled_events,
           fb_cancel_reason = cancel_reason\<rparr>,
          forget_cancelled c (mark_in_flight now c (length events) q)))"

definition flush_cancelled :: "instant \<Rightarrow> uuid \<Rightarrow> event_queue \<Rightarrow> flush_batch \<times> event_queue" where
  "flush_cancelled now c q =
     (let cancelled = postings (cancelled_batches q) c in
      (\<lparr>fb_channel_id = c, fb_events = cancelled, fb_cancelled_events = [],
        fb_cancel_reason = cancel_reasons q c\<rparr>,
       mark_in_flight now c (length cancelled) (forget_cancelled c q)))"

text \<open>\<open>cancelled_batches.keys().find(..)\<close>.\<close>

definition cancelled_channel :: "uuid list \<Rightarrow> event_queue \<Rightarrow> uuid option" where
  "cancelled_channel cancelled_order q =
     find (\<lambda>c. c \<notin> in_flight_channels q) (map fst (entries cancelled_order (cancelled_batches q)))"

definition flush_next ::
  "instant \<Rightarrow> uuid list \<Rightarrow> uuid list \<Rightarrow> uuid list \<Rightarrow> event_queue \<Rightarrow> flush_batch option \<times> event_queue" where
  "flush_next now deadline_order queue_order cancelled_order q0 =
     (let q = auto_expire now deadline_order q0 in
      case next_channel now queue_order q of
        Some c \<Rightarrow> map_prod Some id (flush_channel now c q)
      | None \<Rightarrow>
          (case cancelled_channel cancelled_order q of
             Some c \<Rightarrow> map_prod Some id (flush_cancelled now c q)
           | None \<Rightarrow> (None, q)))"

section \<open>Completion and retries\<close>

definition mark_complete :: "instant \<Rightarrow> uuid \<Rightarrow> event_queue \<Rightarrow> event_queue" where
  "mark_complete now c q0 =
     (let q = q0\<lparr>in_flight_channels := in_flight_channels q0 - {c},
                in_flight_deadlines := (in_flight_deadlines q0)(c := None),
                in_flight_batch_sizes := (in_flight_batch_sizes q0)(c := None)\<rparr> in
      case retry_after q c of
        Some deadline \<Rightarrow>
          if deadline > now then q
          else q\<lparr>retry_after := (retry_after q)(c := None), retry_counts := (retry_counts q)(c := None)\<rparr>
      | None \<Rightarrow> q\<lparr>retry_counts := (retry_counts q)(c := None)\<rparr>)"

definition capped_secs :: "nat \<Rightarrow> nat" where
  "capped_secs attempt = min (BASE_RETRY_DELAY_SECS * 2 ^ (min (attempt - 1) 6)) MAX_RETRY_DELAY_SECS"

text \<open>\<open>capped_secs * (0.8 + (nanos / u32::MAX) * 0.4)\<close>, in nanoseconds.\<close>

definition retry_delay :: "nat \<Rightarrow> nat \<Rightarrow> nat" where
  "retry_delay nanos attempt =
     from_secs (capped_secs attempt) * (8 * (2 ^ 32 - 1) + 4 * nanos) div (10 * (2 ^ 32 - 1))"

definition to_queued_event :: "uuid \<Rightarrow> batch_event \<Rightarrow> queued_event" where
  "to_queued_event c be =
     \<lparr>qe_channel_id = c, qe_event = be_event be, qe_received_at = be_received_at be, qe_prompt_tag = be_prompt_tag be\<rparr>"

definition requeue :: "instant \<Rightarrow> nat \<Rightarrow> flush_batch \<Rightarrow> event_queue \<Rightarrow> flush_batch option \<times> event_queue" where
  "requeue now nanos batch q =
     (let c = fb_channel_id batch;
          attempt = (case retry_counts q c of None \<Rightarrow> 0 | Some n \<Rightarrow> n) + 1
      in
      if attempt > MAX_RETRIES then
        (Some batch,
         q\<lparr>retry_counts := (retry_counts q)(c := None), retry_after := (retry_after q)(c := None)\<rparr>)
      else
        (None,
         (restore_front c (map (to_queued_event c) (fb_events batch))
            (q\<lparr>retry_counts := (retry_counts q)(c \<mapsto> attempt)\<rparr>))
           \<lparr>retry_after := (retry_after q)(c \<mapsto> now + retry_delay nanos attempt)\<rparr>))"

definition requeue_preserve_timestamps :: "flush_batch \<Rightarrow> event_queue \<Rightarrow> event_queue" where
  "requeue_preserve_timestamps batch q =
     restore_front (fb_channel_id batch) (map (to_queued_event (fb_channel_id batch)) (fb_events batch)) q"

definition requeue_as_cancelled :: "flush_batch \<Rightarrow> cancel_reason \<Rightarrow> event_queue \<Rightarrow> event_queue" where
  "requeue_as_cancelled batch reason q =
     (let c = fb_channel_id batch in
      q\<lparr>cancelled_batches := (cancelled_batches q)(c \<mapsto>
          postings (cancelled_batches q) c @ fb_cancelled_events batch @ fb_events batch),
        cancel_reasons := (cancel_reasons q)(c \<mapsto> reason)\<rparr>)"

section \<open>Inspection and draining\<close>

definition has_flushable_work ::
  "instant \<Rightarrow> uuid list \<Rightarrow> uuid list \<Rightarrow> uuid list \<Rightarrow> event_queue \<Rightarrow> bool \<times> event_queue" where
  "has_flushable_work now deadline_order queue_order cancelled_order q0 =
     (let q = auto_expire now deadline_order q0 in
      (list_ex (\<lambda>(c, evs). ready now q c evs) (entries queue_order (queues q)) \<or>
       list_ex (\<lambda>c. c \<notin> in_flight_channels q) (map fst (entries cancelled_order (cancelled_batches q))),
       q))"

definition pending_channels :: "uuid list \<Rightarrow> event_queue \<Rightarrow> nat" where
  "pending_channels queue_order q = length (entries queue_order (queues q))"

definition drain_channel :: "uuid \<Rightarrow> event_queue \<Rightarrow> string list \<times> event_queue" where
  "drain_channel c q =
     (map (\<lambda>e. ev_id (qe_event e)) (pending q c),
      q\<lparr>queues := (queues q)(c := None), retry_after := (retry_after q)(c := None),
        retry_counts := (retry_counts q)(c := None), cancelled_batches := (cancelled_batches q)(c := None),
        cancel_reasons := (cancel_reasons q)(c := None),
        withheld_native_steer := (withheld_native_steer q)(c := None)\<rparr>)"

definition is_channel_in_flight :: "uuid \<Rightarrow> event_queue \<Rightarrow> bool" where
  "is_channel_in_flight c q = (c \<in> in_flight_channels q)"

definition has_in_flight :: "event_queue \<Rightarrow> bool" where
  "has_in_flight q = (in_flight_channels q \<noteq> {})"

section \<open>Withholding for a native steer\<close>

text \<open>\<open>position\<close> and \<open>remove(pos)\<close>: the first event of an id, and the others.\<close>

fun take_event :: "string \<Rightarrow> queued_event list \<Rightarrow> (queued_event \<times> queued_event list) option" where
  "take_event i [] = None"
| "take_event i (x # xs) =
     (if ev_id (qe_event x) = i then Some (x, xs)
      else map_option (\<lambda>(y, ys). (y, x # ys)) (take_event i xs))"

text \<open>A map entry that is removed when its list is empty.\<close>

definition set_or_remove :: "'k \<Rightarrow> 'v list \<Rightarrow> ('k \<rightharpoonup> 'v list) \<Rightarrow> ('k \<rightharpoonup> 'v list)" where
  "set_or_remove k vs m = (if vs = [] then m(k := None) else m(k \<mapsto> vs))"

definition mark_native_steer_pending :: "uuid \<Rightarrow> string \<Rightarrow> event_queue \<Rightarrow> bool \<times> event_queue" where
  "mark_native_steer_pending c event_id q =
     (case queues q c of
        None \<Rightarrow> (False, q)
      | Some evs \<Rightarrow>
          (case take_event event_id evs of
             None \<Rightarrow> (False, q)
           | Some (qe, rest) \<Rightarrow>
               (True, q\<lparr>queues := set_or_remove c rest (queues q),
                        withheld_native_steer := entry_push c qe (withheld_native_steer q)\<rparr>)))"

definition release_native_steer :: "uuid \<Rightarrow> string \<Rightarrow> event_queue \<Rightarrow> event_queue" where
  "release_native_steer c event_id q =
     (case withheld_native_steer q c of
        None \<Rightarrow> q
      | Some es \<Rightarrow>
          (case take_event event_id es of
             None \<Rightarrow> q
           | Some (qe, rest) \<Rightarrow>
               restore_front c [qe]
                 (q\<lparr>withheld_native_steer := set_or_remove c rest (withheld_native_steer q)\<rparr>)))"

definition remove_event :: "uuid \<Rightarrow> string \<Rightarrow> event_queue \<Rightarrow> event_queue" where
  "remove_event c event_id q =
     (let q = q\<lparr>withheld_native_steer :=
                 entry_retain c (\<lambda>qe. ev_id (qe_event qe) \<noteq> event_id) (withheld_native_steer q)\<rparr>
      in q\<lparr>queues := entry_retain c (\<lambda>qe. ev_id (qe_event qe) \<noteq> event_id) (queues q)\<rparr>)"

definition compact_expired_state :: "instant \<Rightarrow> event_queue \<Rightarrow> event_queue" where
  "compact_expired_state now q0 =
     (let q = q0\<lparr>retry_after := (\<lambda>c. case retry_after q0 c of
                   Some deadline \<Rightarrow> if deadline > now then Some deadline else None | None \<Rightarrow> None)\<rparr>
      in q\<lparr>retry_counts := (\<lambda>c.
             if retry_after q c \<noteq> None \<or> (case queues q c of None \<Rightarrow> False | Some evs \<Rightarrow> evs \<noteq> []) \<or>
                c \<in> in_flight_channels q
             then retry_counts q c else None)\<rparr>)"

section \<open>Invariant\<close>

definition withheld :: "event_queue \<Rightarrow> uuid \<Rightarrow> queued_event list" where
  "withheld q c = postings (withheld_native_steer q) c"

definition cancelled :: "event_queue \<Rightarrow> uuid \<Rightarrow> batch_event list" where
  "cancelled q c = postings (cancelled_batches q) c"

definition in_flight_ok :: "event_queue \<Rightarrow> bool" where
  "in_flight_ok q \<longleftrightarrow>
     (\<forall>c. (c \<in> in_flight_channels q) = (in_flight_deadlines q c \<noteq> None)) \<and>
     (\<forall>c. (in_flight_batch_sizes q c = None) = (in_flight_deadlines q c = None))"

definition retries_ok :: "event_queue \<Rightarrow> bool" where
  "retries_ok q \<longleftrightarrow>
     (\<forall>c. retry_counts q c = None \<longrightarrow> retry_after q c = None) \<and>
     (\<forall>c n. retry_counts q c = Some n \<longrightarrow> 1 \<le> n \<and> n \<le> MAX_RETRIES)"

definition queue_ok :: "event_queue \<Rightarrow> bool" where
  "queue_ok q \<longleftrightarrow>
     (\<forall>c. length (pending q c) \<le> MAX_PENDING_PER_CHANNEL) \<and>
     (\<forall>c. \<forall>e \<in> set (pending q c) \<union> set (withheld q c). qe_channel_id e = c) \<and>
     (\<forall>c. (cancel_reasons q c = None) = (cancelled_batches q c = None)) \<and>
     in_flight_ok q \<and> retries_ok q"

inductive queue_step :: "event_queue \<Rightarrow> event_queue \<Rightarrow> bool" where
  deadline: "queue_step q (with_in_flight_deadline secs q)"
| extend: "queue_step q (extend_in_flight_deadline now c secs q)"
| push: "queue_step q (snd (push ev q))"
| flush: "queue_step q (snd (flush_next now ds qs cs q))"
| complete: "queue_step q (mark_complete now c q)"
| requeue: "queue_step q (snd (requeue now nanos batch q))"
| preserve: "queue_step q (requeue_preserve_timestamps batch q)"
| cancel: "queue_step q (requeue_as_cancelled batch reason q)"
| inspect: "queue_step q (snd (has_flushable_work now ds qs cs q))"
| drain: "queue_step q (snd (drain_channel c q))"
| withhold: "queue_step q (snd (mark_native_steer_pending c i q))"
| release: "queue_step q (release_native_steer c i q)"
| remove: "queue_step q (remove_event c i q)"
| compact: "queue_step q (compact_expired_state now q)"

inductive queue_reachable :: "event_queue \<Rightarrow> bool" where
  new: "queue_reachable (queue_new mode)"
| step: "queue_reachable q \<Longrightarrow> queue_step q q' \<Longrightarrow> queue_reachable q'"

lemmas queue_view_defs = pending_def withheld_def cancelled_def

lemma postings_upd [simp]: "postings (m(k \<mapsto> vs)) k' = (if k' = k then vs else postings m k')"
  by (simp add: postings_def)

lemma postings_del [simp]: "postings (m(k := None)) k' = (if k' = k then [] else postings m k')"
  by (simp add: postings_def)

lemma postings_set_or_remove [simp]:
  "postings (set_or_remove k vs m) k' = (if k' = k then vs else postings m k')"
  by (simp add: set_or_remove_def)

lemma pending_restore_front [simp]:
  "pending (restore_front c evs q) c' =
     (if c' = c then take MAX_PENDING_PER_CHANNEL (evs @ pending q c) else pending q c')"
  by (simp add: restore_front_def pending_def)

lemma restore_front_fields [simp]:
  "withheld (restore_front c evs q) = withheld q" "cancelled (restore_front c evs q) = cancelled q"
  "in_flight_channels (restore_front c evs q) = in_flight_channels q"
  "in_flight_deadlines (restore_front c evs q) = in_flight_deadlines q"
  "in_flight_batch_sizes (restore_front c evs q) = in_flight_batch_sizes q"
  "retry_after (restore_front c evs q) = retry_after q" "retry_counts (restore_front c evs q) = retry_counts q"
  "cancel_reasons (restore_front c evs q) = cancel_reasons q"
  "cancelled_batches (restore_front c evs q) = cancelled_batches q"
  "in_flight_deadline (restore_front c evs q) = in_flight_deadline q"
  by (simp_all add: restore_front_def withheld_def [abs_def] cancelled_def [abs_def])

lemma pending_update [simp]:
  "pending (q\<lparr>in_flight_channels := a\<rparr>) = pending q" "pending (q\<lparr>in_flight_deadlines := b\<rparr>) = pending q"
  "pending (q\<lparr>in_flight_batch_sizes := d\<rparr>) = pending q" "pending (q\<lparr>retry_after := e\<rparr>) = pending q"
  "pending (q\<lparr>retry_counts := f\<rparr>) = pending q" "pending (q\<lparr>cancelled_batches := g\<rparr>) = pending q"
  "pending (q\<lparr>cancel_reasons := h\<rparr>) = pending q" "pending (q\<lparr>withheld_native_steer := i\<rparr>) = pending q"
  "pending (q\<lparr>in_flight_deadline := j\<rparr>) = pending q"
  "pending (q\<lparr>queues := m\<rparr>) = postings m"
  by (simp_all add: pending_def [abs_def])

lemma withheld_update [simp]:
  "withheld (q\<lparr>in_flight_channels := a\<rparr>) = withheld q" "withheld (q\<lparr>in_flight_deadlines := b\<rparr>) = withheld q"
  "withheld (q\<lparr>in_flight_batch_sizes := d\<rparr>) = withheld q" "withheld (q\<lparr>retry_after := e\<rparr>) = withheld q"
  "withheld (q\<lparr>retry_counts := f\<rparr>) = withheld q" "withheld (q\<lparr>cancelled_batches := g\<rparr>) = withheld q"
  "withheld (q\<lparr>cancel_reasons := h\<rparr>) = withheld q" "withheld (q\<lparr>queues := i\<rparr>) = withheld q"
  "withheld (q\<lparr>in_flight_deadline := j\<rparr>) = withheld q"
  "withheld (q\<lparr>withheld_native_steer := m\<rparr>) = postings m"
  by (simp_all add: withheld_def [abs_def])

lemma cancelled_update [simp]:
  "cancelled (q\<lparr>in_flight_channels := a\<rparr>) = cancelled q" "cancelled (q\<lparr>in_flight_deadlines := b\<rparr>) = cancelled q"
  "cancelled (q\<lparr>in_flight_batch_sizes := d\<rparr>) = cancelled q" "cancelled (q\<lparr>retry_after := e\<rparr>) = cancelled q"
  "cancelled (q\<lparr>retry_counts := f\<rparr>) = cancelled q" "cancelled (q\<lparr>queues := g\<rparr>) = cancelled q"
  "cancelled (q\<lparr>cancel_reasons := h\<rparr>) = cancelled q" "cancelled (q\<lparr>withheld_native_steer := i\<rparr>) = cancelled q"
  "cancelled (q\<lparr>in_flight_deadline := j\<rparr>) = cancelled q"
  "cancelled (q\<lparr>cancelled_batches := m\<rparr>) = postings m"
  by (simp_all add: cancelled_def [abs_def])

lemma withheld_fold: "postings (withheld_native_steer q) = withheld q"
  and pending_fold: "postings (queues q) = pending q"
  and cancelled_fold: "postings (cancelled_batches q) = cancelled q"
  by (simp_all add: withheld_def [abs_def] pending_def [abs_def] cancelled_def [abs_def])

lemmas fold_views = withheld_fold pending_fold cancelled_fold

lemma withheld_lookup:
  "withheld_native_steer q c = None \<Longrightarrow> withheld q c = []"
  "withheld_native_steer q c = Some es \<Longrightarrow> withheld q c = es"
  by (simp_all add: withheld_def postings_def)

lemma pending_lookup:
  "queues q c = None \<Longrightarrow> pending q c = []" "queues q c = Some es \<Longrightarrow> pending q c = es"
  by (simp_all add: pending_def postings_def)

lemma cancelled_lookup:
  "cancelled_batches q c = None \<Longrightarrow> cancelled q c = []" "cancelled_batches q c = Some es \<Longrightarrow> cancelled q c = es"
  by (simp_all add: cancelled_def postings_def)

text \<open>How expiry changes the views of the queue.\<close>

lemma recover_withheld_views:
  "pending (recover_withheld_for_expired_channel c q) c' =
     (if c' = c \<and> withheld_native_steer q c \<noteq> None
      then take MAX_PENDING_PER_CHANNEL (withheld q c @ pending q c) else pending q c')"
  "withheld (recover_withheld_for_expired_channel c q) c' = (if c' = c then [] else withheld q c')"
  by (cases "withheld_native_steer q c";
      simp add: recover_withheld_for_expired_channel_def fold_views withheld_lookup)+

lemma recover_withheld_fields [simp]:
  "cancelled (recover_withheld_for_expired_channel c q) = cancelled q"
  "in_flight_channels (recover_withheld_for_expired_channel c q) = in_flight_channels q"
  "in_flight_deadlines (recover_withheld_for_expired_channel c q) = in_flight_deadlines q"
  "in_flight_batch_sizes (recover_withheld_for_expired_channel c q) = in_flight_batch_sizes q"
  "retry_after (recover_withheld_for_expired_channel c q) = retry_after q"
  "retry_counts (recover_withheld_for_expired_channel c q) = retry_counts q"
  "cancel_reasons (recover_withheld_for_expired_channel c q) = cancel_reasons q"
  "cancelled_batches (recover_withheld_for_expired_channel c q) = cancelled_batches q"
  by (simp_all add: recover_withheld_for_expired_channel_def split: option.split)

lemma queue_okD:
  assumes "queue_ok q"
  shows "length (pending q c) \<le> MAX_PENDING_PER_CHANNEL"
    and "e \<in> set (pending q c) \<Longrightarrow> qe_channel_id e = c"
    and "e \<in> set (withheld q c) \<Longrightarrow> qe_channel_id e = c"
    and "(cancel_reasons q c = None) = (cancelled_batches q c = None)" and "in_flight_ok q" and "retries_ok q"
  using assms by (auto simp: queue_ok_def)

lemma queue_okI:
  assumes "\<And>c. length (pending q c) \<le> MAX_PENDING_PER_CHANNEL"
    and "\<And>c e. e \<in> set (pending q c) \<Longrightarrow> qe_channel_id e = c"
    and "\<And>c e. e \<in> set (withheld q c) \<Longrightarrow> qe_channel_id e = c"
    and "\<And>c. (cancel_reasons q c = None) = (cancelled_batches q c = None)" and "in_flight_ok q" and "retries_ok q"
  shows "queue_ok q"
  using assms by (auto simp: queue_ok_def)

lemma queue_ok_new: "queue_ok (queue_new mode)"
  by (rule queue_okI) (simp_all add: queue_new_def pending_def withheld_def in_flight_ok_def retries_ok_def)

lemma restore_front_ok:
  assumes "queue_ok q" and "\<And>e. e \<in> set evs \<Longrightarrow> qe_channel_id e = c"
  shows "queue_ok (restore_front c evs q)"
  using queue_okD [OF assms(1)] assms(2)
  by (intro queue_okI) (auto simp: in_flight_ok_def retries_ok_def split: if_splits dest: in_set_takeD)

lemma recover_withheld_ok: "queue_ok q \<Longrightarrow> queue_ok (recover_withheld_for_expired_channel c q)"
proof (cases "withheld_native_steer q c")
  case (Some es)
  assume ok: "queue_ok q"
  have "queue_ok (q\<lparr>withheld_native_steer := (withheld_native_steer q)(c := None)\<rparr>)"
    using queue_okD [OF ok]
    by (intro queue_okI) (auto simp: in_flight_ok_def retries_ok_def fold_views split: if_splits)
  then have "queue_ok (restore_front c es (q\<lparr>withheld_native_steer := (withheld_native_steer q)(c := None)\<rparr>))"
    using queue_okD(3) [OF ok, of _ c] Some by (intro restore_front_ok) (auto simp: withheld_lookup)
  then show ?thesis by (simp add: recover_withheld_for_expired_channel_def Some)
qed (simp add: recover_withheld_for_expired_channel_def)

lemma expire_channel_ok:
  assumes "queue_ok q" shows "queue_ok (expire_channel c q)"
  unfolding expire_channel_def using queue_okD [OF assms]
  by (intro recover_withheld_ok queue_okI) (auto simp: in_flight_ok_def retries_ok_def split: if_splits)

lemma fold_expire_ok: "queue_ok q \<Longrightarrow> queue_ok (fold expire_channel cs q)"
  by (induction cs arbitrary: q) (simp_all add: expire_channel_ok)

lemma auto_expire_ok: "queue_ok q \<Longrightarrow> queue_ok (auto_expire now ds q)"
  by (simp add: auto_expire_def fold_expire_ok)

lemma mark_in_flight_ok:
  assumes "queue_ok q" shows "queue_ok (mark_in_flight now c n q)"
  unfolding mark_in_flight_def using queue_okD [OF assms]
  by (intro queue_okI) (auto simp: in_flight_ok_def retries_ok_def split: if_splits)

lemma forget_cancelled_ok:
  assumes "queue_ok q" shows "queue_ok (forget_cancelled c q)"
  unfolding forget_cancelled_def using queue_okD [OF assms]
  by (intro queue_okI) (auto simp: in_flight_ok_def retries_ok_def split: if_splits)

lemma set_queue_ok:
  assumes "queue_ok q" and "length evs \<le> MAX_PENDING_PER_CHANNEL"
    and "\<And>e. e \<in> set evs \<Longrightarrow> qe_channel_id e = c"
    and "queues q' = set_or_remove c evs (queues q) \<or> queues q' = (queues q)(c \<mapsto> evs)"
    and "q' = q\<lparr>queues := queues q'\<rparr>"
  shows "queue_ok q'"
proof -
  have p: "pending q' c' = (if c' = c then evs else pending q c')" for c'
    using assms(4) by (auto simp: pending_def)
  have "withheld q' = withheld q" "cancel_reasons q' = cancel_reasons q" "cancelled_batches q' = cancelled_batches q"
    "in_flight_ok q' = in_flight_ok q" "retries_ok q' = retries_ok q"
    by (subst assms(5), simp add: in_flight_ok_def retries_ok_def)+
  with p queue_okD [OF assms(1)] assms(2,3) show ?thesis
    by (intro queue_okI) (auto split: if_splits)
qed

lemma flush_channel_ok: "queue_ok q \<Longrightarrow> queue_ok (snd (flush_channel now c q))"
proof -
  assume ok: "queue_ok q"
  let ?rest = "drop (min MAX_BATCH_EVENTS (length (pending q c))) (pending q c)"
  have "queue_ok (q\<lparr>queues := set_or_remove c ?rest (queues q)\<rparr>)"
    by (rule set_queue_ok [OF ok, of ?rest c])
      (use queue_okD(1) [OF ok, of c] queue_okD(2) [OF ok] in \<open>auto simp: min_def dest: in_set_dropD\<close>)
  then show ?thesis
    by (simp add: flush_channel_def Let_def set_or_remove_def forget_cancelled_ok mark_in_flight_ok)
qed

lemma flush_cancelled_ok: "queue_ok q \<Longrightarrow> queue_ok (snd (flush_cancelled now c q))"
  by (simp add: flush_cancelled_def Let_def forget_cancelled_ok mark_in_flight_ok)

lemma flush_next_ok: "queue_ok q \<Longrightarrow> queue_ok (snd (flush_next now ds qs cs q))"
  using auto_expire_ok [of q now ds]
  by (auto simp: flush_next_def Let_def map_prod_def flush_channel_ok flush_cancelled_ok
      split: option.split prod.split)
    (metis flush_channel_ok flush_cancelled_ok snd_conv)+

lemma in_set_tlD: "x \<in> set (tl xs) \<Longrightarrow> x \<in> set xs"
  by (cases xs) auto

lemma push_ok: "queue_ok q \<Longrightarrow> queue_ok (snd (push ev q))"
proof -
  assume ok: "queue_ok q"
  let ?c = "qe_channel_id ev" and ?n = MAX_PENDING_PER_CHANNEL
  let ?evs = "(if length (pending q ?c) \<ge> ?n then tl (pending q ?c) else pending q ?c) @ [ev]"
  have "0 < ?n" by (simp add: MAX_PENDING_PER_CHANNEL_def)
  then have "queue_ok (q\<lparr>queues := (queues q)(?c \<mapsto> ?evs)\<rparr>)"
    by (intro set_queue_ok [OF ok, of ?evs ?c])
      (use queue_okD(1) [OF ok, of ?c] queue_okD(2) [OF ok] in \<open>auto dest: in_set_tlD split: if_splits\<close>)
  with ok show ?thesis by (simp add: push_def Let_def)
qed

lemma requeue_ok: "queue_ok q \<Longrightarrow> queue_ok (snd (requeue now nanos batch q))"
proof -
  assume ok: "queue_ok q"
  let ?c = "fb_channel_id batch" and ?evs = "map (to_queued_event (fb_channel_id batch)) (fb_events batch)"
  let ?q = "restore_front ?c ?evs q"
  have f: "queue_ok ?q" by (rule restore_front_ok [OF ok]) (auto simp: to_queued_event_def)
  have r: "(restore_front ?c ?evs (q\<lparr>retry_counts := m\<rparr>))\<lparr>retry_after := t\<rparr> = ?q\<lparr>retry_counts := m, retry_after := t\<rparr>"
    for m t by (simp add: restore_front_def)
  have "queue_ok (?q\<lparr>retry_counts := (retry_counts q)(?c \<mapsto> n), retry_after := (retry_after q)(?c \<mapsto> t)\<rparr>)"
    if "1 \<le> n" "n \<le> MAX_RETRIES" for n t
    using queue_okD [OF f] that
    by (intro queue_okI) (auto simp: in_flight_ok_def retries_ok_def simp del: pending_restore_front split: if_splits)
  moreover have "queue_ok (q\<lparr>retry_counts := (retry_counts q)(?c := None), retry_after := (retry_after q)(?c := None)\<rparr>)"
    using queue_okD [OF ok]
    by (intro queue_okI) (auto simp: in_flight_ok_def retries_ok_def split: if_splits)
  ultimately show ?thesis by (simp add: requeue_def Let_def r)
qed

lemma take_event_mset: "take_event i xs = Some (x, rest) \<Longrightarrow> mset xs = add_mset x (mset rest)"
  by (induction xs arbitrary: rest) (auto split: if_splits)

lemma take_event_set: "take_event i xs = Some (x, rest) \<Longrightarrow> set xs = insert x (set rest)"
  by (drule take_event_mset) (metis set_mset_add_mset_insert set_mset_mset)

lemma take_event_length: "take_event i xs = Some (x, rest) \<Longrightarrow> length rest < length xs"
  by (drule take_event_mset) (metis size_add_mset size_mset lessI)

lemma mark_native_ok:
  assumes "queue_ok q" shows "queue_ok (snd (mark_native_steer_pending c i q))"
proof (cases "\<exists>evs x rest. queues q c = Some evs \<and> take_event i evs = Some (x, rest)")
  case True
  then obtain evs x rest where t: "queues q c = Some evs" "take_event i evs = Some (x, rest)" by blast
  have r: "snd (mark_native_steer_pending c i q) =
      q\<lparr>queues := set_or_remove c rest (queues q), withheld_native_steer := entry_push c x (withheld_native_steer q)\<rparr>"
    using t by (simp add: mark_native_steer_pending_def)
  have p: "pending q c = evs" using t by (simp add: pending_lookup)
  show ?thesis
    unfolding r using queue_okD [OF assms] take_event_set [OF t(2)] take_event_length [OF t(2)] p
      queue_okD(1) [OF assms, of c] queue_okD(2) [OF assms, of x c]
    by (intro queue_okI) (auto simp: in_flight_ok_def retries_ok_def postings_push fold_views split: if_splits)
next
  case False
  with assms show ?thesis by (auto simp: mark_native_steer_pending_def split: option.split)
qed

lemma release_ok:
  assumes "queue_ok q" shows "queue_ok (release_native_steer c i q)"
proof (cases "\<exists>es x rest. withheld_native_steer q c = Some es \<and> take_event i es = Some (x, rest)")
  case True
  then obtain es x rest where t: "withheld_native_steer q c = Some es" "take_event i es = Some (x, rest)" by blast
  have p: "withheld q c = es" using t by (simp add: withheld_lookup)
  have x: "qe_channel_id x = c" and sub: "set rest \<subseteq> set (withheld q c)"
    using queue_okD(3) [OF assms, of x c] take_event_set [OF t(2)] p by auto
  have "queue_ok (q\<lparr>withheld_native_steer := set_or_remove c rest (withheld_native_steer q)\<rparr>)"
    using queue_okD [OF assms] sub
    by (intro queue_okI) (auto simp: in_flight_ok_def retries_ok_def fold_views split: if_splits)
  then have "queue_ok (restore_front c [x]
      (q\<lparr>withheld_native_steer := set_or_remove c rest (withheld_native_steer q)\<rparr>))"
    by (rule restore_front_ok) (simp add: x)
  then show ?thesis using t by (simp add: release_native_steer_def)
next
  case False
  with assms show ?thesis by (auto simp: release_native_steer_def split: option.split)
qed

lemma remove_event_views:
  "pending (remove_event c i q) c' =
     (if c' = c then filter (\<lambda>e. ev_id (qe_event e) \<noteq> i) (pending q c) else pending q c')"
  "withheld (remove_event c i q) c' =
     (if c' = c then filter (\<lambda>e. ev_id (qe_event e) \<noteq> i) (withheld q c) else withheld q c')"
  by (simp_all add: remove_event_def Let_def postings_retain fold_views)

lemma remove_event_ok:
  assumes "queue_ok q" shows "queue_ok (remove_event c i q)"
proof -
  have "in_flight_ok (remove_event c i q)" "retries_ok (remove_event c i q)"
    "\<And>c'. (cancel_reasons (remove_event c i q) c' = None) = (cancelled_batches (remove_event c i q) c' = None)"
    using queue_okD [OF assms] by (simp_all add: remove_event_def Let_def in_flight_ok_def retries_ok_def)
  then show ?thesis
    using queue_okD [OF assms]
    by (intro queue_okI) (auto simp: remove_event_views intro: le_trans [OF length_filter_le] split: if_splits)
qed

lemma mark_complete_ok:
  assumes "queue_ok q" shows "queue_ok (mark_complete now c q)"
  unfolding mark_complete_def Let_def using queue_okD [OF assms]
  by (intro queue_okI)
    (auto simp: in_flight_ok_def retries_ok_def split: if_splits option.splits)

lemma compact_ok:
  assumes "queue_ok q" shows "queue_ok (compact_expired_state now q)"
  unfolding compact_expired_state_def Let_def using queue_okD [OF assms]
  by (intro queue_okI)
    (auto simp: in_flight_ok_def retries_ok_def split: if_splits option.splits)

lemma drain_ok:
  assumes "queue_ok q" shows "queue_ok (snd (drain_channel c q))"
  unfolding drain_channel_def Let_def using queue_okD [OF assms]
  by (intro queue_okI) (auto simp: in_flight_ok_def retries_ok_def fold_views split: if_splits)

lemma cancel_ok:
  assumes "queue_ok q" shows "queue_ok (requeue_as_cancelled batch reason q)"
  unfolding requeue_as_cancelled_def Let_def using queue_okD [OF assms]
  by (intro queue_okI) (auto simp: in_flight_ok_def retries_ok_def split: if_splits)

lemma extend_ok:
  assumes "queue_ok q" shows "queue_ok (extend_in_flight_deadline now c secs q)"
  unfolding extend_in_flight_deadline_def Let_def using queue_okD [OF assms] assms
  by (intro queue_okI) (auto simp: in_flight_ok_def retries_ok_def split: if_splits option.splits)

lemma with_deadline_ok:
  assumes "queue_ok q" shows "queue_ok (with_in_flight_deadline secs q)"
  unfolding with_in_flight_deadline_def using queue_okD [OF assms]
  by (intro queue_okI) (auto simp: in_flight_ok_def retries_ok_def)

lemma preserve_ok: "queue_ok q \<Longrightarrow> queue_ok (requeue_preserve_timestamps batch q)"
  unfolding requeue_preserve_timestamps_def by (rule restore_front_ok) (auto simp: to_queued_event_def)

lemma inspect_ok: "queue_ok q \<Longrightarrow> queue_ok (snd (has_flushable_work now ds qs cs q))"
  by (simp add: has_flushable_work_def Let_def auto_expire_ok)

lemmas op_ok = extend_ok with_deadline_ok preserve_ok inspect_ok cancel_ok drain_ok compact_ok mark_complete_ok
  remove_event_ok release_ok mark_native_ok requeue_ok push_ok flush_next_ok

lemma queue_step_ok: "queue_step q q' \<Longrightarrow> queue_ok q \<Longrightarrow> queue_ok q'"
  by (induction rule: queue_step.induct) (rule op_ok, assumption)+

lemma queue_reachable_ok: "queue_reachable q \<Longrightarrow> queue_ok q"
  by (induction rule: queue_reachable.induct) (auto intro: queue_ok_new queue_step_ok)

section \<open>Expiry and choice\<close>

lemma expire_channel_views:
  "pending (expire_channel c q) c' =
     (if c' = c \<and> withheld_native_steer q c \<noteq> None
      then take MAX_PENDING_PER_CHANNEL (withheld q c @ pending q c) else pending q c')"
  "withheld (expire_channel c q) c' = (if c' = c then [] else withheld q c')"
  "cancelled (expire_channel c q) = cancelled q"
  "in_flight_channels (expire_channel c q) = in_flight_channels q - {c}"
  "retry_after (expire_channel c q) = retry_after q" "cancelled_batches (expire_channel c q) = cancelled_batches q"
  "in_flight_deadline (expire_channel c q) = in_flight_deadline q"
  "c' \<noteq> c \<Longrightarrow> withheld_native_steer (expire_channel c q) c' = withheld_native_steer q c'"
  by (auto simp: expire_channel_def recover_withheld_views)
    (auto simp: recover_withheld_for_expired_channel_def restore_front_def split: option.split)

lemma fold_expire_views:
  "distinct cs \<Longrightarrow>
   pending (fold expire_channel cs q) c =
     (if c \<in> set cs \<and> withheld_native_steer q c \<noteq> None
      then take MAX_PENDING_PER_CHANNEL (withheld q c @ pending q c) else pending q c) \<and>
   withheld (fold expire_channel cs q) c = (if c \<in> set cs then [] else withheld q c) \<and>
   cancelled (fold expire_channel cs q) = cancelled q \<and>
   in_flight_channels (fold expire_channel cs q) = in_flight_channels q - set cs \<and>
   in_flight_deadline (fold expire_channel cs q) = in_flight_deadline q"
  by (induction cs arbitrary: q) (auto simp: expire_channel_views)

lemma set_expired_channels:
  "enumerates ds (in_flight_deadlines q) \<Longrightarrow>
     set (expired_channels now ds q) = {c. \<exists>d. in_flight_deadlines q c = Some d \<and> d \<le> now}"
  by (force simp: expired_channels_def set_entries_enumerates)

lemma distinct_expired_channels: "enumerates ds m \<Longrightarrow> distinct (expired_channels now ds q)"
  unfolding expired_channels_def
  by (rule distinct_map_filter) (simp add: distinct_fst_entries enumerates_def)

lemma auto_expire_views:
  assumes "enumerates ds (in_flight_deadlines q)"
  shows "pending (auto_expire now ds q) c =
     (if c \<in> set (expired_channels now ds q) \<and> withheld_native_steer q c \<noteq> None
      then take MAX_PENDING_PER_CHANNEL (withheld q c @ pending q c) else pending q c)"
   "withheld (auto_expire now ds q) c = (if c \<in> set (expired_channels now ds q) then [] else withheld q c)"
   "cancelled (auto_expire now ds q) = cancelled q"
   "in_flight_channels (auto_expire now ds q) = in_flight_channels q - set (expired_channels now ds q)"
   "in_flight_deadline (auto_expire now ds q) = in_flight_deadline q"
  using fold_expire_views [OF distinct_expired_channels [OF assms, of now q], of q c]
  by (simp_all add: auto_expire_def)

lemma min_by_key_None: "min_by_key k xs = None \<longleftrightarrow> xs = []"
  by (cases xs) (auto split: option.split)

lemma min_by_key_Some: "min_by_key k xs = Some x \<Longrightarrow> x \<in> set xs \<and> (\<forall>y \<in> set xs. k x \<le> k y)"
proof (induction xs arbitrary: x)
  case (Cons y ys)
  show ?case
  proof (cases "min_by_key k ys")
    case None
    with Cons.prems show ?thesis by (simp add: min_by_key_None)
  next
    case (Some z)
    with Cons.IH have "z \<in> set ys" "\<forall>y \<in> set ys. k z \<le> k y" by blast+
    with Some Cons.prems show ?thesis by (auto split: if_splits intro: order_trans)
  qed
qed simp

lemma next_channel_Some:
  assumes "next_channel now qs q = Some c" and "enumerates qs (queues q)"
  shows "ready now q c (pending q c)"
    and "queues q c' = Some evs \<Longrightarrow> ready now q c' evs \<Longrightarrow> qe_received_at (hd (pending q c)) \<le> qe_received_at (hd evs)"
proof -
  from assms(1) obtain es where m: "min_by_key (\<lambda>(c, evs). qe_received_at (hd evs))
      (filter (\<lambda>(c, evs). ready now q c evs) (entries qs (queues q))) = Some (c, es)"
    by (auto simp: next_channel_def)
  from min_by_key_Some [OF m] assms(2) have es: "queues q c = Some es" "ready now q c es"
    and min: "\<And>c' evs. queues q c' = Some evs \<Longrightarrow> ready now q c' evs \<Longrightarrow> qe_received_at (hd es) \<le> qe_received_at (hd evs)"
    by (auto simp: set_entries_enumerates)
  have p: "pending q c = es" using es(1) by (rule pending_lookup)
  show "ready now q c (pending q c)" using es p by simp
  show "qe_received_at (hd (pending q c)) \<le> qe_received_at (hd evs)"
    if "queues q c' = Some evs" "ready now q c' evs" using min [OF that] p by simp
qed

lemma next_channel_None:
  "enumerates qs (queues q) \<Longrightarrow>
     next_channel now qs q = None \<longleftrightarrow> \<not> (\<exists>c evs. queues q c = Some evs \<and> ready now q c evs)"
  by (auto simp: next_channel_def min_by_key_None filter_empty_conv set_entries_enumerates)

lemma flush_channel_views:
  assumes "flush_channel now c q = (b, q')"
  shows "fb_channel_id b = c" "fb_cancelled_events b = cancelled q c"
    "fb_events b = sort_key (\<lambda>be. ev_created_at (be_event be)) (map to_batch_event (take MAX_BATCH_EVENTS (pending q c)))"
    "pending q' c' = (if c' = c then drop MAX_BATCH_EVENTS (pending q c) else pending q c')"
    "cancelled q' c' = (if c' = c then [] else cancelled q c')" "withheld q' = withheld q"
    "in_flight_channels q' = insert c (in_flight_channels q)"
    "in_flight_deadlines q' c = Some (now + in_flight_deadline q)"
proof -
  have m: "take (min n (length xs)) xs = take n xs" "drop (min n (length xs)) xs = drop n xs"
    for n and xs :: "queued_event list" by (simp_all add: min_def)
  show "fb_channel_id b = c" "fb_cancelled_events b = cancelled q c"
    "fb_events b = sort_key (\<lambda>be. ev_created_at (be_event be)) (map to_batch_event (take MAX_BATCH_EVENTS (pending q c)))"
    "pending q' c' = (if c' = c then drop MAX_BATCH_EVENTS (pending q c) else pending q c')"
    "cancelled q' c' = (if c' = c then [] else cancelled q c')" "withheld q' = withheld q"
    "in_flight_channels q' = insert c (in_flight_channels q)"
    "in_flight_deadlines q' c = Some (now + in_flight_deadline q)"
    using assms
    by (auto simp: flush_channel_def Let_def m mark_in_flight_def forget_cancelled_def cancelled_def [symmetric] fold_views)
qed

lemma flush_cancelled_views:
  assumes "flush_cancelled now c q = (b, q')"
  shows "fb_channel_id b = c" "fb_cancelled_events b = []" "fb_events b = cancelled q c"
    "pending q' = pending q" "cancelled q' c' = (if c' = c then [] else cancelled q c')" "withheld q' = withheld q"
    "in_flight_channels q' = insert c (in_flight_channels q)"
    "in_flight_deadlines q' c = Some (now + in_flight_deadline q)"
  using assms
  by (auto simp: flush_cancelled_def Let_def mark_in_flight_def forget_cancelled_def fold_views)

lemma flush_next_Some:
  assumes "flush_next now ds qs cs q = (Some b, q')"
  obtains (ready) c where "next_channel now qs (auto_expire now ds q) = Some c"
      "flush_channel now c (auto_expire now ds q) = (b, q')"
    | (cancelled) c where "next_channel now qs (auto_expire now ds q) = None"
      "cancelled_channel cs (auto_expire now ds q) = Some c"
      "flush_cancelled now c (auto_expire now ds q) = (b, q')"
  using assms by (auto simp: flush_next_def Let_def map_prod_def split: option.splits prod.splits)

section \<open>Stock\<close>

text \<open>The events that the queue holds of a channel, and those a batch carries.\<close>

definition stock :: "event_queue \<Rightarrow> uuid \<Rightarrow> event multiset" where
  "stock q c =
     mset (map qe_event (pending q c)) + mset (map be_event (cancelled q c)) + mset (map qe_event (withheld q c))"

definition batch_stock :: "flush_batch \<Rightarrow> event multiset" where
  "batch_stock b = mset (map be_event (fb_events b)) + mset (map be_event (fb_cancelled_events b))"

definition room :: "event_queue \<Rightarrow> uuid \<Rightarrow> bool" where
  "room q c \<longleftrightarrow> length (withheld q c) + length (pending q c) \<le> MAX_PENDING_PER_CHANNEL"

lemma auto_expire_stock:
  assumes "enumerates ds (in_flight_deadlines q)" and "room q c"
  shows "stock (auto_expire now ds q) c = stock q c"
proof (cases "c \<in> set (expired_channels now ds q) \<and> withheld_native_steer q c \<noteq> None")
  case True
  with assms(2) auto_expire_views [OF assms(1), of now] show ?thesis
    by (simp add: stock_def room_def)
next
  case False
  then have "c \<notin> set (expired_channels now ds q) \<or> withheld q c = []"
    by (auto simp: withheld_lookup)
  with False auto_expire_views [OF assms(1), of now] show ?thesis
    by (auto simp: stock_def)
qed

lemma to_batch_events: "map be_event (map to_batch_event xs) = map qe_event xs"
  by (simp add: to_batch_event_def comp_def)

lemma to_queued_events: "map qe_event (map (to_queued_event c) xs) = map be_event xs"
  by (simp add: to_queued_event_def comp_def)

lemma flush_channel_stock:
  assumes "flush_channel now c q = (b, q')"
  shows "stock q c' = stock q' c' + (if c' = c then batch_stock b else {#})"
proof -
  have "mset (map be_event (fb_events b)) = mset (map qe_event (take MAX_BATCH_EVENTS (pending q c)))"
    unfolding flush_channel_views(3) [OF assms] to_batch_events [symmetric] by (simp only: mset_map mset_sort)
  moreover have "mset (map qe_event (pending q c)) =
      mset (map qe_event (take MAX_BATCH_EVENTS (pending q c))) + mset (map qe_event (drop MAX_BATCH_EVENTS (pending q c)))"
    by (metis append_take_drop_id map_append mset_append)
  ultimately show ?thesis
    using flush_channel_views [OF assms] by (simp add: stock_def batch_stock_def)
qed

lemma flush_cancelled_stock:
  assumes "flush_cancelled now c q = (b, q')"
  shows "stock q c' = stock q' c' + (if c' = c then batch_stock b else {#})"
  using flush_cancelled_views [OF assms] by (simp add: stock_def batch_stock_def)

lemma restore_front_stock:
  "length evs + length (pending q c) \<le> MAX_PENDING_PER_CHANNEL \<Longrightarrow>
     stock (restore_front c evs q) c' = stock q c' + (if c' = c then mset (map qe_event evs) else {#})"
  by (simp add: stock_def)

section \<open>Properties of the queue\<close>

text \<open>
  C18. The queue stays within its bounds after any sequence of operations: no channel has
  more than 500 pending events, every stored event belongs to the channel it is stored under,
  a channel is in flight exactly when it has a deadline and a batch size, a retry throttle
  always has a counter, every counter is between 1 and 10, and a cancel reason is kept exactly
  for the channels with a cancelled batch.
\<close>

theorem queue_invariant:
  assumes "queue_reachable q"
  shows "length (pending q c) \<le> MAX_PENDING_PER_CHANNEL \<and>
    list_all (\<lambda>e. qe_channel_id e = c) (pending q c @ withheld q c) \<and>
    is_channel_in_flight c q = (in_flight_deadlines q c \<noteq> None) \<and>
    (in_flight_batch_sizes q c \<noteq> None) = (in_flight_deadlines q c \<noteq> None) \<and>
    (retry_after q c \<noteq> None \<longrightarrow> retry_counts q c \<noteq> None) \<and>
    (case retry_counts q c of None \<Rightarrow> True | Some n \<Rightarrow> 1 \<le> n \<and> n \<le> MAX_RETRIES) \<and>
    (cancel_reasons q c \<noteq> None) = (cancelled_batches q c \<noteq> None)"
  using queue_okD [OF queue_reachable_ok [OF assms]]
  by (auto simp: in_flight_ok_def retries_ok_def is_channel_in_flight_def list_all_iff split: option.split)

text \<open>
  C11. What a flush hands out: never a channel with a prompt in flight unless its deadline has
  passed; of the channels with pending events that are neither in flight nor throttled, the
  one whose head event waited longest, as its first 50 events (\<open>MAX_BATCH_EVENTS\<close>) in order of creation,
  leaving the rest pending; only when there is none, a cancelled batch. The channel is in flight
  afterwards, until the deadline of the queue.
\<close>

theorem flush_next_spec:
  assumes "enumerates ds (in_flight_deadlines q)" and "q1 = auto_expire now ds q"
    and "enumerates qs (queues q1)" and "enumerates cs (cancelled_batches q1)"
    and "flush_next now ds qs cs q = (Some b, q')" and "queue_reachable q"
  shows "(\<forall>d. in_flight_deadlines q (fb_channel_id b) = Some d \<longrightarrow> d \<le> now) \<and>
    is_channel_in_flight (fb_channel_id b) q' \<and>
    in_flight_deadlines q' (fb_channel_id b) = Some (now + in_flight_deadline q) \<and>
    (if \<exists>c evs. queues q1 c = Some evs \<and> ready now q1 c evs
     then ready now q1 (fb_channel_id b) (pending q1 (fb_channel_id b)) \<and>
       (\<forall>c evs. queues q1 c = Some evs \<and> ready now q1 c evs \<longrightarrow>
          qe_received_at (hd (pending q1 (fb_channel_id b))) \<le> qe_received_at (hd evs)) \<and>
       fb_events b = sort_key (\<lambda>be. ev_created_at (be_event be))
         (map to_batch_event (take MAX_BATCH_EVENTS (pending q1 (fb_channel_id b)))) \<and>
       pending q' (fb_channel_id b) = drop MAX_BATCH_EVENTS (pending q1 (fb_channel_id b))
     else fb_events b = cancelled q1 (fb_channel_id b) \<and> fb_cancelled_events b = [])"
proof -
  note ok = queue_okD(5) [OF queue_reachable_ok [OF assms(6)]]
  have dl: "in_flight_deadline q1 = in_flight_deadline q"
    and fl: "in_flight_channels q1 = in_flight_channels q - set (expired_channels now ds q)"
    using auto_expire_views [OF assms(1), of now] assms(2) by simp_all
  have free: "\<forall>d. in_flight_deadlines q c = Some d \<longrightarrow> d \<le> now" if "c \<notin> in_flight_channels q1" for c
    using that ok fl set_expired_channels [OF assms(1), of now] by (auto simp: in_flight_ok_def)
  note ex = next_channel_None [OF assms(3), of now]
  from assms(5) show ?thesis
  proof (cases rule: flush_next_Some)
    case (ready c)
    note n = next_channel_Some [OF ready(1) [folded assms(2)] assms(3)]
    have "c \<notin> in_flight_channels q1" using n(1) by (simp add: ready_def)
    moreover have "\<exists>c evs. queues q1 c = Some evs \<and> ready now q1 c evs"
      using ready(1) ex assms(2) by fastforce
    moreover have "\<forall>c' evs. queues q1 c' = Some evs \<and> ready now q1 c' evs \<longrightarrow>
        qe_received_at (hd (pending q1 c)) \<le> qe_received_at (hd evs)"
      using n(2) by blast
    ultimately show ?thesis
      using n(1) flush_channel_views [OF ready(2) [folded assms(2)]] free [of c] dl
      by (simp add: is_channel_in_flight_def)
  next
    case (cancelled c)
    have "c \<notin> in_flight_channels q1"
      using cancelled(2) assms(2) by (auto simp: cancelled_channel_def find_Some_iff)
    moreover have none: "\<not> (\<exists>c evs. queues q1 c = Some evs \<and> ready now q1 c evs)"
      using cancelled(1) ex assms(2) by simp
    ultimately show ?thesis
      unfolding if_not_P [OF none] using flush_cancelled_views [OF cancelled(3) [folded assms(2)]] free [of c] dl
      by (simp add: is_channel_in_flight_def)
  qed
qed

text \<open>
  A flush neither loses nor duplicates: where no queue overflows on recovery, what every
  channel held before is exactly what it holds afterwards together with the batch of the
  flushed channel, pending, cancelled and withheld events counted together.
\<close>

lemma flush_next_conserves:
  assumes "enumerates ds (in_flight_deadlines q)" and "room q c"
    and "flush_next now ds qs cs q = (res, q')"
  shows "stock q c =
    stock q' c + (case res of None \<Rightarrow> {#} | Some b \<Rightarrow> if c = fb_channel_id b then batch_stock b else {#})"
proof (cases res)
  case None
  with assms(3) have "q' = auto_expire now ds q"
    by (auto simp: flush_next_def Let_def map_prod_def split: option.splits prod.splits)
  with None auto_expire_stock [OF assms(1,2), of now] show ?thesis by simp
next
  case (Some b)
  with assms(3) have "flush_next now ds qs cs q = (Some b, q')" by simp
  then show ?thesis
  proof (cases rule: flush_next_Some)
    case (ready c')
    from flush_channel_stock [OF ready(2), of c] flush_channel_views(1) [OF ready(2)] Some
      auto_expire_stock [OF assms(1,2), of now]
    show ?thesis by auto
  next
    case (cancelled c')
    from flush_cancelled_stock [OF cancelled(3), of c] flush_cancelled_views(1) [OF cancelled(3)] Some
      auto_expire_stock [OF assms(1,2), of now]
    show ?thesis by auto
  qed
qed

text \<open>
  \<open>has_flushable_work\<close> is the exact test for \<open>flush_next\<close>: it holds precisely when a flush
  at the same instant returns a batch, and it changes the queue as a flush that finds nothing.
\<close>

lemma flushable_iff_flush:
  "has_flushable_work now ds qs cs q =
     (case flush_next now ds qs cs q of
        (None, q') \<Rightarrow> (False, q')
      | (Some batch, _) \<Rightarrow> (True, auto_expire now ds q))"
proof -
  let ?q = "auto_expire now ds q"
  let ?r = "list_ex (\<lambda>(c, evs). ready now ?q c evs) (entries qs (queues ?q))"
  let ?c = "list_ex (\<lambda>c. c \<notin> in_flight_channels ?q) (map fst (entries cs (cancelled_batches ?q)))"
  have r: "?r = (next_channel now qs ?q \<noteq> None)"
    by (auto simp: next_channel_def min_by_key_None filter_empty_conv list_ex_iff)
  have c: "?c = (cancelled_channel cs ?q \<noteq> None)"
    by (auto simp: cancelled_channel_def find_None_iff list_ex_iff)
  have h: "has_flushable_work now ds qs cs q =
      (next_channel now qs ?q \<noteq> None \<or> cancelled_channel cs ?q \<noteq> None, ?q)"
    unfolding r [symmetric] c [symmetric] by (simp add: has_flushable_work_def Let_def)
  show ?thesis
  proof (cases "next_channel now qs ?q")
    case (Some c)
    then show ?thesis
      by (cases "flush_channel now c ?q") (simp add: h flush_next_def Let_def)
  next
    case None
    then show ?thesis
      by (cases "cancelled_channel cs ?q")
        (simp_all add: h flush_next_def Let_def map_prod_def split_beta)
  qed
qed

text \<open>
  Retries are bounded and spaced: the attempt counter of a channel is at most 10; below
  10 a failed batch goes back to the front of its queue, the counter grows by one and the
  channel is throttled for between 80 and 90 percent of the capped exponential delay; at 10
  the batch is returned to the caller instead, with counter and throttle cleared and the
  pending events untouched.
\<close>

lemma requeue_backoff:
  assumes "queue_reachable q" and "nanos < 1000000000"
    and "n = (case retry_counts q (fb_channel_id b) of None \<Rightarrow> 0 | Some k \<Rightarrow> k)"
    and "requeue now nanos b q = (res, q')"
  shows "n \<le> MAX_RETRIES \<and>
    (if n < MAX_RETRIES
     then res = None \<and> retry_counts q' (fb_channel_id b) = Some (n + 1) \<and>
       pending q' (fb_channel_id b) = take MAX_PENDING_PER_CHANNEL
         (map (to_queued_event (fb_channel_id b)) (fb_events b) @ pending q (fb_channel_id b)) \<and>
       (\<exists>d. retry_after q' (fb_channel_id b) = Some (now + d) \<and>
         capped_secs (n + 1) * 800000000 \<le> d \<and> d \<le> capped_secs (n + 1) * 900000000)
     else res = Some b \<and> retry_counts q' (fb_channel_id b) = None \<and>
       retry_after q' (fb_channel_id b) = None \<and> pending q' = pending q)"
proof -
  have n: "n \<le> MAX_RETRIES"
    using queue_okD(6) [OF queue_reachable_ok [OF assms(1)]] assms(3)
    by (auto simp: retries_ok_def split: option.splits)
  have "capped_secs (n + 1) * 800000000 * (10 * (2 ^ 32 - 1)) \<le>
      from_secs (capped_secs (n + 1)) * (8 * (2 ^ 32 - 1) + 4 * nanos)"
    by (simp add: from_secs_def algebra_simps)
  then have lo: "capped_secs (n + 1) * 800000000 \<le> retry_delay nanos (n + 1)"
    unfolding retry_delay_def by (simp add: less_eq_div_iff_mult_less_eq)
  have "from_secs (capped_secs (n + 1)) * (8 * (2 ^ 32 - 1) + 4 * nanos) \<le>
      from_secs (capped_secs (n + 1)) * (9 * (2 ^ 32 - 1))"
    by (rule mult_left_mono) (use assms(2) in auto)
  also have "\<dots> = capped_secs (n + 1) * 900000000 * (10 * (2 ^ 32 - 1))"
    by (simp add: from_secs_def)
  finally have hi: "retry_delay nanos (n + 1) \<le> capped_secs (n + 1) * 900000000"
    unfolding retry_delay_def using div_le_mono by fastforce
  show ?thesis
  proof (cases "n < MAX_RETRIES")
    case True
    with assms(3,4) have "res = None" and q': "q' = (restore_front (fb_channel_id b)
        (map (to_queued_event (fb_channel_id b)) (fb_events b))
        (q\<lparr>retry_counts := (retry_counts q)(fb_channel_id b \<mapsto> n + 1)\<rparr>))
        \<lparr>retry_after := (retry_after q)(fb_channel_id b \<mapsto> now + retry_delay nanos (n + 1))\<rparr>"
      by (auto simp: requeue_def Let_def)
    with True n lo hi show ?thesis by (simp add: q')
  next
    case False
    with assms(3,4) n show ?thesis by (auto simp: requeue_def Let_def)
  qed
qed

text \<open>
  What happens to the two parts of a batch that comes back, where the queue has room: a
  batch requeued as cancelled is kept whole, but a batch requeued for a retry or because no
  agent was free keeps only its new events; the cancelled events merged into it are gone.
\<close>

lemma requeue_keeps_new_events_only:
  assumes "c = fb_channel_id b" and "length (fb_events b) + length (pending q c) \<le> MAX_PENDING_PER_CHANNEL"
    and "requeue now nanos b q = (None, q')"
  shows "stock q' c = stock q c + mset (map be_event (fb_events b)) \<and>
    stock (requeue_preserve_timestamps b q) c = stock q c + mset (map be_event (fb_events b)) \<and>
    stock (requeue_as_cancelled b reason q) c = stock q c + batch_stock b"
proof (intro conjI)
  let ?evs = "map (to_queued_event c) (fb_events b)"
  show "stock (requeue_preserve_timestamps b q) c = stock q c + mset (map be_event (fb_events b))"
    using assms(1,2) restore_front_stock [of ?evs q c c]
    unfolding requeue_preserve_timestamps_def by (simp add: to_queued_events del: map_map mset_map)
  show "stock (requeue_as_cancelled b reason q) c = stock q c + batch_stock b"
    unfolding requeue_as_cancelled_def by (simp add: assms(1) stock_def batch_stock_def fold_views Let_def)
  from assms(1,3) obtain m t where q': "q' = (restore_front c ?evs (q\<lparr>retry_counts := m\<rparr>))\<lparr>retry_after := t\<rparr>"
    by (auto simp: requeue_def Let_def split: if_splits)
  have "stock q' c = stock (restore_front c ?evs q) c" by (simp add: q' stock_def)
  with assms(2) restore_front_stock [of ?evs q c c]
  show "stock q' c = stock q c + mset (map be_event (fb_events b))"
    by (simp add: to_queued_events del: map_map mset_map)
qed

section \<open>A small queue\<close>

definition demo_queued :: "uuid \<Rightarrow> string \<Rightarrow> nat \<Rightarrow> instant \<Rightarrow> queued_event" where
  "demo_queued c i t at =
     \<lparr>qe_channel_id = c, qe_event = \<lparr>ev_id = i, ev_pubkey = ''aa'', ev_created_at = t, ev_kind = 9,
        ev_tags = [], ev_content = []\<rparr>, qe_received_at = at, qe_prompt_tag = []\<rparr>"

definition demo_queue :: event_queue where
  "demo_queue =
     snd (push (demo_queued ''b'' ''03'' 6 20) (snd (push (demo_queued ''a'' ''02'' 4 12)
       (snd (push (demo_queued ''a'' ''01'' 5 10) (queue_new Drop))))))"

definition demo_batch :: flush_batch where
  "demo_batch =
     \<lparr>fb_channel_id = ''a'', fb_events = [to_batch_event (demo_queued ''a'' ''02'' 4 12), to_batch_event (demo_queued ''a'' ''01'' 5 10)],
      fb_cancelled_events = [], fb_cancel_reason = None\<rparr>"

lemma demo_queue_reachable: "queue_reachable demo_queue"
  unfolding demo_queue_def by (intro queue_reachable.step [OF _ queue_step.push] queue_reachable.new)

lemma demo_views:
  "pending demo_queue ''a'' = [demo_queued ''a'' ''01'' 5 10, demo_queued ''a'' ''02'' 4 12]"
  "withheld demo_queue c = []" "cancelled demo_queue c = []" "retry_counts demo_queue c = None"
  "in_flight_channels demo_queue = {}" "retry_after demo_queue = Map.empty"
  "in_flight_deadlines demo_queue = Map.empty" "cancelled_batches demo_queue = Map.empty"
  "queues demo_queue = [''b'' \<mapsto> [demo_queued ''b'' ''03'' 6 20],
     ''a'' \<mapsto> [demo_queued ''a'' ''01'' 5 10, demo_queued ''a'' ''02'' 4 12]]"
  by (auto simp: demo_queue_def push_def Let_def queue_new_def queue_view_defs postings_def
      demo_queued_def MAX_PENDING_PER_CHANNEL_def fun_eq_iff)

lemma demo_expire: "auto_expire 30 [] demo_queue = demo_queue"
  by (simp add: auto_expire_def expired_channels_def)

lemma demo_orders:
  "enumerates [] (in_flight_deadlines demo_queue)" "enumerates [''a'', ''b''] (queues demo_queue)"
  "enumerates [] (cancelled_batches demo_queue)"
  by (auto simp: enumerates_def demo_views)

lemma demo_flush: "fst (flush_next 30 [] [''a'', ''b''] [] demo_queue) = Some demo_batch"
proof -
  have "next_channel 30 [''a'', ''b''] demo_queue = Some ''a''"
    by (simp add: next_channel_def demo_views ready_def demo_queued_def)
  then show ?thesis
    by (simp add: flush_next_def demo_expire flush_channel_def Let_def demo_views MAX_BATCH_EVENTS_def
        demo_batch_def demo_queued_def to_batch_event_def fold_views)
qed

theorem queue_invariant_witness: "length (pending demo_queue ''a'') \<le> MAX_PENDING_PER_CHANNEL"
  using queue_invariant [OF demo_queue_reachable, of "''a''"] by simp

theorem flush_next_spec_witness:
  "is_channel_in_flight ''a'' (snd (flush_next 30 [] [''a'', ''b''] [] demo_queue)) \<and>
   pending (snd (flush_next 30 [] [''a'', ''b''] [] demo_queue)) ''a'' = []"
proof -
  have f: "flush_next 30 [] [''a'', ''b''] [] demo_queue =
      (Some demo_batch, snd (flush_next 30 [] [''a'', ''b''] [] demo_queue))"
    using demo_flush by (metis prod.collapse)
  have b: "fb_channel_id demo_batch = ''a''" by (simp add: demo_batch_def)
  have r: "\<exists>c evs. queues demo_queue c = Some evs \<and> ready 30 demo_queue c evs"
  proof (intro exI conjI)
    show "queues demo_queue ''b'' = Some [demo_queued ''b'' ''03'' 6 20]" by (simp add: demo_views)
    show "ready 30 demo_queue ''b'' [demo_queued ''b'' ''03'' 6 20]"
      by (simp add: ready_def demo_views)
  qed
  note s = flush_next_spec [OF demo_orders(1) refl _ _ f demo_queue_reachable, unfolded demo_expire,
      OF demo_orders(2,3), unfolded if_P [OF r] b]
  then show ?thesis by (simp add: demo_views MAX_BATCH_EVENTS_def)
qed

lemma flush_next_conserves_instance:
  "stock demo_queue ''a'' = stock (snd (flush_next 30 [] [''a'', ''b''] [] demo_queue)) ''a'' + batch_stock demo_batch"
proof -
  have f: "flush_next 30 [] [''a'', ''b''] [] demo_queue =
      (Some demo_batch, snd (flush_next 30 [] [''a'', ''b''] [] demo_queue))"
    using demo_flush by (metis prod.collapse)
  have "room demo_queue ''a''" by (simp add: room_def demo_views MAX_PENDING_PER_CHANNEL_def)
  from flush_next_conserves [OF demo_orders(1) this f] show ?thesis by (simp add: demo_batch_def)
qed

lemma requeue_backoff_instance:
  "retry_counts (snd (requeue 40 0 demo_batch demo_queue)) ''a'' = Some 1"
proof -
  have n: "0 = (case retry_counts demo_queue (fb_channel_id demo_batch) of None \<Rightarrow> 0 | Some k \<Rightarrow> k)"
    by (simp add: demo_views)
  have "requeue 40 0 demo_batch demo_queue =
      (fst (requeue 40 0 demo_batch demo_queue), snd (requeue 40 0 demo_batch demo_queue))" by simp
  from requeue_backoff [OF demo_queue_reachable _ n this] show ?thesis
    by (simp add: MAX_RETRIES_def demo_batch_def)
qed

lemma requeue_keeps_new_events_only_instance:
  "stock (requeue_preserve_timestamps (demo_batch\<lparr>fb_cancelled_events := fb_events demo_batch\<rparr>) demo_queue) ''a'' =
     stock demo_queue ''a'' + mset (map be_event (fb_events demo_batch))"
proof -
  let ?b = "demo_batch\<lparr>fb_cancelled_events := fb_events demo_batch\<rparr>"
  have c: "''a'' = fb_channel_id ?b" by (simp add: demo_batch_def)
  have l: "length (fb_events ?b) + length (pending demo_queue ''a'') \<le> MAX_PENDING_PER_CHANNEL"
    by (simp add: demo_batch_def demo_views MAX_PENDING_PER_CHANNEL_def)
  have "fst (requeue 40 0 ?b demo_queue) = None"
    by (simp add: requeue_def demo_views MAX_RETRIES_def Let_def)
  then have "requeue 40 0 ?b demo_queue = (None, snd (requeue 40 0 ?b demo_queue))" by (metis prod.collapse)
  from requeue_keeps_new_events_only [OF c l this, of Steer] show ?thesis by simp
qed

end
