(* ===== verification/Pairing_Codec.thy ===== *)
theory Pairing_Codec
  imports Event_Kinds Rust_Std
begin

text \<open>
  Device pairing (NIP-AB), the part without state: message types, the derivation of session
  id, short authentication string and transcript hash, and the QR code URI
  (crates/buzz-core/src/pairing/types.rs, crypto.rs, qr.rs, mod.rs).

  Cryptography, encodings and parsers outside the repository are the fields of
  \<open>pairing_env\<close>. A public key is its lower-case hex text and a secret key opaque text; bytes
  are words of 8 bits. The message of \<open>InvalidQr\<close> is the value \<open>qr_problem\<close> with what the
  message prints; the messages of the other errors are their text.
\<close>

section \<open>Messages\<close>

datatype payload_type = Nsec | Bunker | Connect | Custom

datatype abort_reason = SasMismatchReason | UserDenied | Timeout | ProtocolError | UnknownReason

datatype pairing_message =
    Offer string u32
  | SasConfirm string
  | Payload payload_type string
  | Complete bool
  | Abort abort_reason

datatype qr_problem =
    UriTooLong nat
  | WrongScheme
  | MissingQuery
  | PubkeyNotHex string
  | InvalidKey string
  | UnsupportedVersion u32
  | MissingSecret
  | SecretNotHex string
  | InvalidSecretHex string
  | SecretNot32Bytes
  | SecretAllZeros
  | NoRelay
  | InvalidRelayUrl string string
  | RelayScheme string
  | RelayWithoutHost string

datatype pairing_error =
    InvalidQr qr_problem
  | InvalidSessionId
  | SasMismatch
  | TranscriptMismatch
  | UnexpectedMessage string string
  | SessionExpired
  | Nip44 string
  | Json string
  | InvalidPubkey string
  | SigningError string

section \<open>Code outside the repository\<close>

type_synonym pubkey = string
type_synonym secret_key = string

record pairing_env =
  hkdf_extract :: "bytes \<Rightarrow> bytes \<Rightarrow> bytes"
  hkdf_expand :: "bytes \<Rightarrow> bytes \<Rightarrow> nat \<Rightarrow> bytes"
  hex_encode :: "bytes \<Rightarrow> string"
  hex_decode :: "string \<Rightarrow> string + bytes"
  utf8_percent_encode :: "string \<Rightarrow> string"
  percent_decode_lossy :: "string \<Rightarrow> string"
  public_key_from_hex :: "string \<Rightarrow> string + pubkey"
  to_bytes :: "pubkey \<Rightarrow> bytes"
  url_parse :: "string \<Rightarrow> string + string \<times> string option"
  public_key :: "secret_key \<Rightarrow> pubkey"
  generate_shared_key :: "secret_key \<Rightarrow> pubkey \<Rightarrow> string + bytes"
  message_to_json :: "pairing_message \<Rightarrow> string + string"
  message_from_json :: "string \<Rightarrow> string + pairing_message"
  nip44_encrypt :: "nat \<Rightarrow> secret_key \<Rightarrow> pubkey \<Rightarrow> string \<Rightarrow> string + string"
  nip44_decrypt :: "secret_key \<Rightarrow> pubkey \<Rightarrow> string \<Rightarrow> string + string"
  sign_with_keys :: "secret_key \<Rightarrow> u16 \<Rightarrow> string \<Rightarrow> tag list \<Rightarrow> nat \<Rightarrow> string + event"
  verify :: "event \<Rightarrow> string + unit"

section \<open>Key derivation\<close>

definition INFO_SESSION_ID :: bytes where "INFO_SESSION_ID = byte_string ''nostr-pair-session-id''"
definition INFO_SAS :: bytes where "INFO_SAS = byte_string ''nostr-pair-sas-v1''"
definition INFO_TRANSCRIPT :: bytes where "INFO_TRANSCRIPT = byte_string ''nostr-pair-transcript-v1''"

definition hkdf32 :: "pairing_env \<Rightarrow> bytes \<Rightarrow> bytes \<Rightarrow> bytes \<Rightarrow> bytes" where
  "hkdf32 env salt ikm info = take 32 (hkdf_expand env (hkdf_extract env salt ikm) info 32)"

definition derive_session_id :: "pairing_env \<Rightarrow> bytes \<Rightarrow> bytes" where
  "derive_session_id env session_secret = hkdf32 env [] session_secret INFO_SESSION_ID"

text \<open>\<open>u32::from_be_bytes\<close> of the first four bytes, modulo a million.\<close>

definition derive_sas :: "pairing_env \<Rightarrow> bytes \<Rightarrow> bytes \<Rightarrow> u32 \<times> bytes" where
  "derive_sas env ecdh_shared session_secret =
     (let sas_input = hkdf32 env session_secret ecdh_shared INFO_SAS;
          sas_code = word_rcat (take 4 sas_input) mod 1000000
      in (sas_code, sas_input))"

definition derive_transcript_hash :: "pairing_env \<Rightarrow> bytes \<Rightarrow> bytes \<Rightarrow> bytes \<Rightarrow> bytes \<Rightarrow> bytes \<Rightarrow> bytes" where
  "derive_transcript_hash env session_id source_pubkey target_pubkey sas_input session_secret =
     (let transcript = session_id @ source_pubkey @ target_pubkey @ sas_input
      in hkdf32 env session_secret transcript INFO_TRANSCRIPT)"

definition format_sas :: "u32 \<Rightarrow> string" where
  "format_sas code = show_padded 6 (unat code)"

definition ct_eq :: "bytes \<Rightarrow> bytes \<Rightarrow> bool" where
  "ct_eq a b = (a = b)"

section \<open>The QR code\<close>

record qr_payload =
  qr_source_pubkey :: pubkey
  qr_session_secret :: bytes
  qr_relays :: "string list"
  qr_version :: u32

definition url_encode :: "pairing_env \<Rightarrow> string \<Rightarrow> string" where
  "url_encode env s = utf8_percent_encode env s"

definition url_decode :: "pairing_env \<Rightarrow> string \<Rightarrow> string" where
  "url_decode env s = percent_decode_lossy env s"

definition is_lowercase_hex :: "char \<Rightarrow> bool" where
  "is_lowercase_hex c = (is_ascii_digit c \<or> 97 \<le> (of_char c :: nat) \<and> (of_char c :: nat) \<le> 102)"

definition encode_qr :: "pairing_env \<Rightarrow> qr_payload \<Rightarrow> string" where
  "encode_qr env payload =
     ''nostrpair://'' @ qr_source_pubkey payload @ ''?secret='' @ hex_encode env (qr_session_secret payload)
     @ concat (map (\<lambda>relay. ''&relay='' @ url_encode env relay) (qr_relays payload))
     @ ''&v=1''"

record qr_query =
  qq_secret_hex :: "string option"
  qq_relays :: "string list"
  qq_version :: "u32 option"

text \<open>One iteration of the loop over the query parameters.\<close>

definition query_param :: "pairing_env \<Rightarrow> string \<Rightarrow> qr_query \<Rightarrow> qr_query" where
  "query_param env pair q =
     (case split_once CHR ''='' pair of
        None \<Rightarrow> q
      | Some (key, value) \<Rightarrow>
          if key = ''secret'' then q\<lparr>qq_secret_hex := Some value\<rparr>
          else if key = ''relay'' then q\<lparr>qq_relays := qq_relays q @ [url_decode env value]\<rparr>
          else if key = ''v'' then q\<lparr>qq_version := parse_u32 value\<rparr>
          else q)"

definition parse_query :: "pairing_env \<Rightarrow> string \<Rightarrow> qr_query" where
  "parse_query env query =
     fold (query_param env) (split_on CHR ''&'' query)
       \<lparr>qq_secret_hex = None, qq_relays = [], qq_version = None\<rparr>"

fun check_relays :: "pairing_env \<Rightarrow> string list \<Rightarrow> pairing_error + unit" where
  "check_relays env [] = Inr ()"
| "check_relays env (relay # rs) =
     and_then (map_err (\<lambda>e. InvalidQr (InvalidRelayUrl relay e)) (url_parse env relay)) (\<lambda>(scheme, host).
     and_then (check (scheme \<in> {''wss'', ''ws''}) (InvalidQr (RelayScheme scheme))) (\<lambda>_.
     and_then (check (host \<noteq> None) (InvalidQr (RelayWithoutHost relay))) (\<lambda>_.
     check_relays env rs)))"

definition decode_secret :: "pairing_env \<Rightarrow> string option \<Rightarrow> pairing_error + bytes" where
  "decode_secret env secret_hex =
     and_then (ok_or secret_hex (InvalidQr MissingSecret)) (\<lambda>secret_str.
     and_then (check (length secret_str = 64 \<and> list_all is_lowercase_hex secret_str)
       (InvalidQr (SecretNotHex secret_str))) (\<lambda>_.
     and_then (map_err (\<lambda>e. InvalidQr (InvalidSecretHex e)) (hex_decode env secret_str)) (\<lambda>session_secret.
     and_then (check (length session_secret = 32) (InvalidQr SecretNot32Bytes)) (\<lambda>_.
     and_then (check (session_secret \<noteq> replicate 32 0) (InvalidQr SecretAllZeros)) (\<lambda>_.
     Inr session_secret)))))"

definition decode_qr :: "pairing_env \<Rightarrow> string \<Rightarrow> pairing_error + qr_payload" where
  "decode_qr env uri =
     and_then (check (length uri \<le> 2048) (InvalidQr (UriTooLong (length uri)))) (\<lambda>_.
     and_then (ok_or (strip_prefix ''nostrpair://'' uri) (InvalidQr WrongScheme)) (\<lambda>rest.
     and_then (ok_or (split_once CHR ''?'' rest) (InvalidQr MissingQuery)) (\<lambda>(pubkey_hex, query).
     and_then (check (length pubkey_hex = 64 \<and> list_all is_lowercase_hex pubkey_hex)
       (InvalidQr (PubkeyNotHex pubkey_hex))) (\<lambda>_.
     and_then (map_err (\<lambda>e. InvalidQr (InvalidKey e)) (public_key_from_hex env pubkey_hex)) (\<lambda>source_pubkey.
     let q = parse_query env query;
         version = (case qq_version q of Some v \<Rightarrow> v | None \<Rightarrow> 1)
     in
     and_then (check (version = 1) (InvalidQr (UnsupportedVersion version))) (\<lambda>_.
     and_then (decode_secret env (qq_secret_hex q)) (\<lambda>session_secret.
     and_then (check (qq_relays q \<noteq> []) (InvalidQr NoRelay)) (\<lambda>_.
     and_then (check_relays env (qq_relays q)) (\<lambda>_.
     Inr \<lparr>qr_source_pubkey = source_pubkey, qr_session_secret = session_secret,
          qr_relays = qq_relays q, qr_version = version\<rparr>)))))))))"

section \<open>Decoding is sound\<close>

definition relay_ok :: "pairing_env \<Rightarrow> string \<Rightarrow> bool" where
  "relay_ok env relay \<longleftrightarrow>
     (\<exists>scheme host. url_parse env relay = Inr (scheme, Some host) \<and> scheme \<in> {''wss'', ''ws''})"

definition payload_ok :: "pairing_env \<Rightarrow> qr_payload \<Rightarrow> bool" where
  "payload_ok env p \<longleftrightarrow>
     length (qr_session_secret p) = 32 \<and> qr_session_secret p \<noteq> replicate 32 0 \<and>
     qr_relays p \<noteq> [] \<and> (\<forall>relay \<in> set (qr_relays p). relay_ok env relay) \<and> qr_version p = 1"

lemma check_relays_Inr: "check_relays env rs = Inr () \<longleftrightarrow> (\<forall>relay \<in> set rs. relay_ok env relay)"
  by (induction rs) (auto simp: try_simps relay_ok_def)

lemma decode_secret_Inr:
  "decode_secret env secret_hex = Inr bs \<longleftrightarrow>
     (\<exists>t. secret_hex = Some t \<and> length t = 64 \<and> list_all is_lowercase_hex t \<and>
          hex_decode env t = Inr bs \<and> length bs = 32 \<and> bs \<noteq> replicate 32 0)"
  by (auto simp: decode_secret_def try_simps)

section \<open>Round trip\<close>

text \<open>What the code relies on of the crates hex and percent-encoding.\<close>

definition hex_laws :: "pairing_env \<Rightarrow> bool" where
  "hex_laws env \<longleftrightarrow>
     (\<forall>bs. hex_decode env (hex_encode env bs) = Inr bs \<and>
           length (hex_encode env bs) = 2 * length bs \<and>
           list_all is_lowercase_hex (hex_encode env bs))"

definition percent_law :: "pairing_env \<Rightarrow> string \<Rightarrow> bool" where
  "percent_law env s \<longleftrightarrow>
     percent_decode_lossy env (utf8_percent_encode env s) = s \<and>
     list_all (\<lambda>c. is_ascii_alphanumeric c \<or> c = CHR ''%'') (utf8_percent_encode env s)"

definition pubkey_text :: "pairing_env \<Rightarrow> string \<Rightarrow> bool" where
  "pubkey_text env pk \<longleftrightarrow>
     length pk = 64 \<and> list_all is_lowercase_hex pk \<and> public_key_from_hex env pk = Inr pk"

lemma hex_chars:
  assumes "list_all is_lowercase_hex s"
  shows "CHR ''&'' \<notin> set s" "CHR ''='' \<notin> set s" "CHR ''?'' \<notin> set s"
  using assms by (auto simp: list_all_iff is_lowercase_hex_def is_ascii_digit_def)

lemma percent_chars:
  assumes "list_all (\<lambda>c. is_ascii_alphanumeric c \<or> c = CHR ''%'') s"
  shows "CHR ''&'' \<notin> set s" "CHR ''='' \<notin> set s"
  using assms by (auto simp: list_all_iff is_ascii_alphanumeric_def)

text \<open>The URI with an arbitrary text as version.\<close>

definition qr_uri_version :: "pairing_env \<Rightarrow> qr_payload \<Rightarrow> string \<Rightarrow> string" where
  "qr_uri_version env p v =
     ''nostrpair://'' @ qr_source_pubkey p @ CHR ''?'' # join_with CHR ''&''
       ((''secret='' @ hex_encode env (qr_session_secret p))
        # map (\<lambda>relay. ''relay='' @ url_encode env relay) (qr_relays p) @ [''v='' @ v])"

lemma join_params:
  "join_with CHR ''&'' (w # map f rs @ [v]) =
     w @ concat (map (\<lambda>r. CHR ''&'' # f r) rs) @ CHR ''&'' # v"
  by (induction rs arbitrary: w) auto

lemma encode_qr_version: "encode_qr env p = qr_uri_version env p ''1''"
  by (simp add: encode_qr_def qr_uri_version_def join_params)

lemma query_param_named:
  "query_param env (''relay='' @ x) q = q\<lparr>qq_relays := qq_relays q @ [url_decode env x]\<rparr>"
  "query_param env (''secret='' @ x) q = q\<lparr>qq_secret_hex := Some x\<rparr>"
  "query_param env (''v='' @ x) q = q\<lparr>qq_version := parse_u32 x\<rparr>"
  using split_once_append [of "CHR ''=''" "''relay''" x]
    split_once_append [of "CHR ''=''" "''secret''" x] split_once_append [of "CHR ''=''" "''v''" x]
  by (simp_all add: query_param_def)

lemma fold_relays:
  assumes "\<forall>relay \<in> set rs. percent_law env relay"
  shows "fold (query_param env) (map (\<lambda>relay. ''relay='' @ url_encode env relay) rs) q =
    q\<lparr>qq_relays := qq_relays q @ rs\<rparr>"
  using assms
proof (induction rs arbitrary: q)
  case (Cons r rs)
  then have "url_decode env (url_encode env r) = r"
    by (simp add: percent_law_def url_decode_def url_encode_def)
  with Cons show ?case by (simp add: query_param_named del: append_Cons append_Nil)
qed simp

lemma parse_query_encoded:
  assumes "hex_laws env" and "\<forall>relay \<in> set (qr_relays p). percent_law env relay" and "CHR ''&'' \<notin> set v"
  shows "parse_query env (join_with CHR ''&''
      ((''secret='' @ hex_encode env (qr_session_secret p))
       # map (\<lambda>relay. ''relay='' @ url_encode env relay) (qr_relays p) @ [''v='' @ v])) =
    \<lparr>qq_secret_hex = Some (hex_encode env (qr_session_secret p)), qq_relays = qr_relays p,
     qq_version = parse_u32 v\<rparr>"
proof -
  let ?ws = "(''secret='' @ hex_encode env (qr_session_secret p))
      # map (\<lambda>relay. ''relay='' @ url_encode env relay) (qr_relays p) @ [''v='' @ v]"
  have "CHR ''&'' \<notin> set w" if "w \<in> set ?ws" for w
    using that assms hex_chars(1) percent_chars(1)
    by (auto simp: hex_laws_def percent_law_def url_encode_def)
  then have "split_on CHR ''&'' (join_with CHR ''&'' ?ws) = ?ws" by (intro split_join) auto
  then show ?thesis
    by (simp add: parse_query_def query_param_named fold_relays [OF assms(2)] del: append_Cons append_Nil)
qed

lemma decode_qr_uri_version:
  assumes "hex_laws env" and "\<forall>relay \<in> set (qr_relays p). percent_law env relay"
    and "payload_ok env p" and "pubkey_text env (qr_source_pubkey p)"
    and "length (qr_uri_version env p v) \<le> 2048"
    and "CHR ''&'' \<notin> set v" and "parse_u32 v = None \<or> parse_u32 v = Some 1"
  shows "decode_qr env (qr_uri_version env p v) = Inr p"
proof -
  define q where "q = join_with CHR ''&''
      ((''secret='' @ hex_encode env (qr_session_secret p))
       # map (\<lambda>relay. ''relay='' @ url_encode env relay) (qr_relays p) @ [''v='' @ v])"
  let ?secret = "hex_encode env (qr_session_secret p)"
  have pk: "length (qr_source_pubkey p) = 64" "list_all is_lowercase_hex (qr_source_pubkey p)"
      "public_key_from_hex env (qr_source_pubkey p) = Inr (qr_source_pubkey p)"
    using assms(4) by (simp_all add: pubkey_text_def)
  have strip: "strip_prefix ''nostrpair://'' (qr_uri_version env p v) = Some (qr_source_pubkey p @ CHR ''?'' # q)"
    by (simp add: qr_uri_version_def strip_prefix_Some q_def)
  have split: "split_once CHR ''?'' (qr_source_pubkey p @ CHR ''?'' # q) = Some (qr_source_pubkey p, q)"
    by (rule split_once_append) (rule hex_chars(3) [OF pk(2)])
  have secret: "decode_secret env (Some ?secret) = Inr (qr_session_secret p)"
    using assms(1,3) by (auto simp: decode_secret_Inr hex_laws_def payload_ok_def)
  have relays: "qr_relays p \<noteq> []" "check_relays env (qr_relays p) = Inr ()" "qr_version p = 1"
    using assms(3) by (auto simp: payload_ok_def check_relays_Inr)
  have query: "parse_query env q = \<lparr>qq_secret_hex = Some ?secret, qq_relays = qr_relays p, qq_version = parse_u32 v\<rparr>"
    unfolding q_def by (rule parse_query_encoded [OF assms(1,2,6)])
  show ?thesis
    unfolding decode_qr_def strip
    using assms(5,7) pk relays by (auto simp: split query secret Let_def)
qed

text \<open>
  C33. A QR code survives the trip: a payload that the decoder accepts at all (32 bytes of
  secret, not all zero, relays with a WebSocket URL and a host, a valid key) is decoded from
  its own URI unchanged, as long as the URI is within 2048 bytes, which the encoder does not
  check.
\<close>

theorem qr_roundtrip:
  assumes "hex_laws env" and "\<forall>relay \<in> set (qr_relays p). percent_law env relay"
    and "payload_ok env p" and "pubkey_text env (qr_source_pubkey p)"
    and "length (encode_qr env p) \<le> 2048"
  shows "decode_qr env (encode_qr env p) = Inr p"
  using decode_qr_uri_version [OF assms(1-4), of "''1''"] assms(5)
  by (simp add: encode_qr_version parse_u32_def parse_unsigned_def is_ascii_digit_def)

text \<open>
  A version that does not parse as a number of 32 bits is read as version 1: the version
  4294967298 is above 1 and is accepted.
\<close>

lemma qr_unparsable_version:
  assumes "hex_laws env" and "\<forall>relay \<in> set (qr_relays p). percent_law env relay"
    and "payload_ok env p" and "pubkey_text env (qr_source_pubkey p)"
    and "length (qr_uri_version env p ''4294967298'') \<le> 2048"
  shows "decode_qr env (qr_uri_version env p ''4294967298'') = Inr p"
  using decode_qr_uri_version [OF assms] by (simp add: parse_u32_def parse_unsigned_def is_ascii_digit_def)

text \<open>
  Whatever the text, the decoder accepts only URIs of at most 2048 bytes with the pairing
  scheme and 64 lower-case hex digits of key that the key parser accepts, and what it returns
  is well formed: version 1, 32 bytes of secret that are not all zero, at least one relay, and
  every relay a WebSocket URL with a host.
\<close>

lemma decode_qr_sound:
  assumes "decode_qr env uri = Inr p"
  shows "payload_ok env p \<and> length uri \<le> 2048 \<and>
    (\<exists>pk query. uri = ''nostrpair://'' @ pk @ CHR ''?'' # query \<and>
       length pk = 64 \<and> list_all is_lowercase_hex pk \<and> public_key_from_hex env pk = Inr (qr_source_pubkey p) \<and>
       qr_relays p = qq_relays (parse_query env query))"
proof -
  from assms obtain pk query where *: "length uri \<le> 2048"
      "strip_prefix ''nostrpair://'' uri = Some (pk @ CHR ''?'' # query)"
      "length pk = 64" "list_all is_lowercase_hex pk"
      "public_key_from_hex env pk = Inr (qr_source_pubkey p)"
      "decode_secret env (qq_secret_hex (parse_query env query)) = Inr (qr_session_secret p)"
      "qq_relays (parse_query env query) \<noteq> []"
      "check_relays env (qq_relays (parse_query env query)) = Inr ()"
      "qr_relays p = qq_relays (parse_query env query)" "qr_version p = 1"
    by (auto simp: decode_qr_def try_simps Let_def dest!: split_once_Some)
  then show ?thesis
    by (auto simp: payload_ok_def check_relays_Inr decode_secret_Inr strip_prefix_Some)
qed

end
