(* ===== verification/Pairing_Session.thy ===== *)
theory Pairing_Session
  imports Pairing_Codec
begin

text \<open>
  The pairing session, crates/buzz-core/src/pairing/session.rs: the state machine of one side
  of a device pairing, every method of \<open>PairingSession\<close>.

  A method takes the session and returns its result with the session it leaves. The clock is
  the argument \<open>now\<close>; the generated keys, the random secret and the randomness of one outgoing
  event (\<open>draw\<close>: the Unix time, the random number of the jitter and the nonce of the
  encryption) are arguments too. Zeroizing of memory is left out, except where the code looks
  at the zeroized text.
\<close>

section \<open>State\<close>

datatype pairing_role = Source | Target

datatype session_state =
    Waiting | Confirming | AwaitingConfirmation | Transferring | PayloadExchanged | Completed | Aborted

record pairing_session =
  ps_role :: pairing_role
  ps_state :: session_state
  ps_keys :: secret_key
  ps_session_secret :: bytes
  ps_relay_urls :: "string list"
  ps_peer_pubkey :: "pubkey option"
  ps_session_id :: bytes
  ps_sas_code :: "u32 option"
  ps_sas_input :: "bytes option"
  ps_processed_ids :: "string set"
  ps_created_at :: instant
  ps_timeout :: nat

text \<open>\<open>Duration::from_secs(120)\<close>, in nanoseconds.\<close>

definition DEFAULT_TIMEOUT :: nat where "DEFAULT_TIMEOUT = 120 * 1000000000"

definition PAIRING_KIND :: u16 where "PAIRING_KIND = ucast KIND_PAIRING"

record draw =
  dr_now :: nat
  dr_random :: u64
  dr_nonce :: nat

section \<open>Checks\<close>

text \<open>\<open>format!("{:?}", ..)\<close> of the two enumerations.\<close>

fun role_debug :: "pairing_role \<Rightarrow> string" where
  "role_debug Source = ''Source''"
| "role_debug Target = ''Target''"

fun state_debug :: "session_state \<Rightarrow> string" where
  "state_debug Waiting = ''Waiting''"
| "state_debug Confirming = ''Confirming''"
| "state_debug AwaitingConfirmation = ''AwaitingConfirmation''"
| "state_debug Transferring = ''Transferring''"
| "state_debug PayloadExchanged = ''PayloadExchanged''"
| "state_debug Completed = ''Completed''"
| "state_debug Aborted = ''Aborted''"

fun message_name :: "pairing_message \<Rightarrow> string" where
  "message_name (Offer _ _) = ''offer''"
| "message_name (SasConfirm _) = ''sas-confirm''"
| "message_name (Payload _ _) = ''payload''"
| "message_name (Complete _) = ''complete''"
| "message_name (Abort _) = ''abort''"

definition unexpected :: "string \<Rightarrow> pairing_message \<Rightarrow> pairing_error" where
  "unexpected expected got = UnexpectedMessage expected (message_name got)"

definition is_expired :: "instant \<Rightarrow> pairing_session \<Rightarrow> bool" where
  "is_expired now s = (now - ps_created_at s > ps_timeout s)"

definition check_expired :: "instant \<Rightarrow> pairing_session \<Rightarrow> pairing_error + unit" where
  "check_expired now s = check (\<not> is_expired now s) SessionExpired"

definition expect_state :: "session_state \<Rightarrow> pairing_session \<Rightarrow> pairing_error + unit" where
  "expect_state expected s =
     check (ps_state s = expected)
       (UnexpectedMessage (''state '' @ state_debug expected) (''state '' @ state_debug (ps_state s)))"

definition expect_role :: "pairing_role \<Rightarrow> pairing_session \<Rightarrow> pairing_error + unit" where
  "expect_role expected s =
     check (ps_role s = expected)
       (UnexpectedMessage (''role '' @ role_debug expected) (''role '' @ role_debug (ps_role s)))"

definition record_event :: "event \<Rightarrow> pairing_session \<Rightarrow> pairing_session" where
  "record_event e s = s\<lparr>ps_processed_ids := insert (ev_id e) (ps_processed_ids s)\<rparr>"

definition p_tag_names :: "pubkey \<Rightarrow> event \<Rightarrow> bool" where
  "p_tag_names our_pk e = list_ex (\<lambda>t. (case t of k # v # _ \<Rightarrow> k = ''p'' \<and> v = our_pk | _ \<Rightarrow> False)) (ev_tags e)"

definition validate_event_basics :: "pairing_env \<Rightarrow> event \<Rightarrow> pairing_session \<Rightarrow> pairing_error + unit" where
  "validate_event_basics env e s =
     and_then (map_err (\<lambda>m. InvalidPubkey (''event verification failed: '' @ m)) (verify env e)) (\<lambda>_.
     and_then (check (ev_id e \<notin> ps_processed_ids s)
       (UnexpectedMessage ''new event'' ''duplicate event id'')) (\<lambda>_.
     and_then (check (ev_kind e = PAIRING_KIND)
       (UnexpectedMessage (''kind '' @ show_nat (unat PAIRING_KIND)) (''kind '' @ show_nat (unat (ev_kind e))))) (\<lambda>_.
     check (p_tag_names (public_key env (ps_keys s)) e)
       (InvalidPubkey ''event p-tag does not match our ephemeral pubkey''))))"

definition validate_event_from_peer :: "pairing_env \<Rightarrow> event \<Rightarrow> pairing_session \<Rightarrow> pairing_error + unit" where
  "validate_event_from_peer env e s =
     and_then (validate_event_basics env e s) (\<lambda>_.
     case ps_peer_pubkey s of
       Some expected \<Rightarrow>
         check (ev_pubkey e = expected)
           (InvalidPubkey (''event from '' @ ev_pubkey e @ '' but expected '' @ expected))
     | None \<Rightarrow> Inr ())"

text \<open>The text of the size error is computed after the plaintext was zeroized and emptied.\<close>

definition decrypt_message :: "pairing_env \<Rightarrow> event \<Rightarrow> pairing_session \<Rightarrow> pairing_error + pairing_message" where
  "decrypt_message env e s =
     (let content_len = length (ev_content e) in
      and_then (check (132 \<le> content_len \<and> content_len \<le> 87472)
        (UnexpectedMessage
          (''NIP-44 content (132'' @ [CHR 0xE2, CHR 0x80, CHR 0x93] @ ''87472 chars)'')
          (show_nat content_len @ '' chars''))) (\<lambda>_.
      and_then (map_err Nip44 (nip44_decrypt env (ps_keys s) (ev_pubkey e) (ev_content e))) (\<lambda>decrypted.
      and_then (check (length decrypted \<le> 65535)
        (UnexpectedMessage (''plaintext '' @ [CHR 0xE2, CHR 0x89, CHR 0xA4] @ '' 65535 bytes'')
          (show_nat (length ([] :: string)) @ '' bytes''))) (\<lambda>_.
      map_err Json (message_from_json env decrypted)))))"

definition build_event :: "pairing_env \<Rightarrow> draw \<Rightarrow> pairing_message \<Rightarrow> pairing_session \<Rightarrow> pairing_error + event" where
  "build_event env d message s =
     and_then (ok_or (ps_peer_pubkey s) (InvalidPubkey ''no peer pubkey set'')) (\<lambda>peer.
     and_then (map_err Json (message_to_json env message)) (\<lambda>plaintext.
     and_then (map_err Nip44 (nip44_encrypt env (dr_nonce d) (ps_keys s) peer plaintext)) (\<lambda>encrypted.
     let jitter = unat (dr_random d mod 31); ts = dr_now d - jitter in
     map_err SigningError (sign_with_keys env (ps_keys s) PAIRING_KIND encrypted [[''p'', peer]] ts))))"

text \<open>\<open>hex::decode(text).ok().and_then(try_from)\<close> is 32 bytes equal to \<open>expected\<close>.\<close>

definition hex_matches :: "pairing_env \<Rightarrow> string \<Rightarrow> bytes \<Rightarrow> bool" where
  "hex_matches env t expected =
     (case hex_decode env t of
        Inl _ \<Rightarrow> False
      | Inr bs \<Rightarrow> length bs = 32 \<and> ct_eq bs expected)"

section \<open>Source\<close>

definition new_source :: "pairing_env \<Rightarrow> instant \<Rightarrow> secret_key \<Rightarrow> bytes \<Rightarrow> string \<Rightarrow> pairing_session \<times> qr_payload" where
  "new_source env now keys session_secret relay_url =
     (let session_id = derive_session_id env session_secret;
          qr = \<lparr>qr_source_pubkey = public_key env keys, qr_session_secret = session_secret,
                qr_relays = [relay_url], qr_version = 1\<rparr>;
          session = \<lparr>ps_role = Source, ps_state = Waiting, ps_keys = keys,
            ps_session_secret = session_secret, ps_relay_urls = [relay_url], ps_peer_pubkey = None,
            ps_session_id = session_id, ps_sas_code = None, ps_sas_input = None,
            ps_processed_ids = {}, ps_created_at = now, ps_timeout = DEFAULT_TIMEOUT\<rparr>
      in (session, qr))"

text \<open>The rest of \<open>handle_offer\<close> once the offer is authentic.\<close>

definition accept_offer :: "pairing_env \<Rightarrow> event \<Rightarrow> pairing_session \<Rightarrow> (pairing_error + string) \<times> pairing_session" where
  "accept_offer env e s =
     (let peer = ev_pubkey e; s1 = s\<lparr>ps_peer_pubkey := Some peer\<rparr> in
      or_return (map_err SigningError (generate_shared_key env (ps_keys s1) peer)) s1 (\<lambda>ecdh.
      let (code, sas_input) = derive_sas env ecdh (ps_session_secret s1);
          s2 = s1\<lparr>ps_sas_code := Some code, ps_sas_input := Some sas_input, ps_state := Confirming\<rparr>
      in (Inr (format_sas code), record_event e s2)))"

definition handle_offer :: "pairing_env \<Rightarrow> instant \<Rightarrow> event \<Rightarrow> pairing_session \<Rightarrow> (pairing_error + string) \<times> pairing_session" where
  "handle_offer env now e s =
     or_return (check_expired now s) s (\<lambda>_.
     or_return (expect_state Waiting s) s (\<lambda>_.
     or_return (expect_role Source s) s (\<lambda>_.
     or_return (validate_event_basics env e s) s (\<lambda>_.
     or_return (decrypt_message env e s) s (\<lambda>msg.
     case msg of
       Offer session_id version \<Rightarrow>
         if version \<noteq> 1 then
           (Inl (UnexpectedMessage ''version 1'' (''version '' @ show_nat (unat version))), s)
         else if \<not> hex_matches env session_id (ps_session_id s) then (Inl InvalidSessionId, s)
         else accept_offer env e s
     | other \<Rightarrow> (Inl (unexpected ''offer'' other), s))))))"

definition confirm_sas :: "pairing_env \<Rightarrow> instant \<Rightarrow> draw \<Rightarrow> pairing_session \<Rightarrow> (pairing_error + event) \<times> pairing_session" where
  "confirm_sas env now d s =
     or_return (check_expired now s) s (\<lambda>_.
     or_return (expect_state Confirming s) s (\<lambda>_.
     or_return (expect_role Source s) s (\<lambda>_.
     or_return (ok_or (ps_sas_input s) SasMismatch) s (\<lambda>sas_input.
     or_return (ok_or (ps_peer_pubkey s) (InvalidPubkey ''no peer'')) s (\<lambda>peer.
     let transcript_hash = derive_transcript_hash env (ps_session_id s)
           (to_bytes env (public_key env (ps_keys s))) (to_bytes env peer) sas_input (ps_session_secret s) in
     or_return (build_event env d (SasConfirm (hex_encode env transcript_hash)) s) s (\<lambda>e.
     (Inr e, s\<lparr>ps_state := Transferring\<rparr>)))))))"

definition send_payload :: "pairing_env \<Rightarrow> instant \<Rightarrow> draw \<Rightarrow> payload_type \<Rightarrow> string \<Rightarrow> pairing_session
    \<Rightarrow> (pairing_error + event) \<times> pairing_session" where
  "send_payload env now d payload_type payload s =
     or_return (check_expired now s) s (\<lambda>_.
     or_return (expect_state Transferring s) s (\<lambda>_.
     or_return (expect_role Source s) s (\<lambda>_.
     or_return (build_event env d (Payload payload_type payload) s) s (\<lambda>e.
     (Inr e, s\<lparr>ps_state := PayloadExchanged\<rparr>)))))"

definition handle_complete :: "pairing_env \<Rightarrow> instant \<Rightarrow> event \<Rightarrow> pairing_session \<Rightarrow> (pairing_error + unit) \<times> pairing_session" where
  "handle_complete env now e s =
     or_return (check_expired now s) s (\<lambda>_.
     or_return (expect_state PayloadExchanged s) s (\<lambda>_.
     or_return (expect_role Source s) s (\<lambda>_.
     or_return (validate_event_from_peer env e s) s (\<lambda>_.
     or_return (decrypt_message env e s) s (\<lambda>msg.
     case msg of
       Complete success \<Rightarrow>
         if success then (Inr (), record_event e (s\<lparr>ps_state := Completed\<rparr>))
         else (Inl (UnexpectedMessage ''complete(success=true)'' ''complete(success=false)''),
               s\<lparr>ps_state := Aborted\<rparr>)
     | other \<Rightarrow> (Inl (unexpected ''complete'' other), s))))))"

section \<open>Target\<close>

definition new_target :: "pairing_env \<Rightarrow> instant \<Rightarrow> secret_key \<Rightarrow> draw \<Rightarrow> qr_payload
    \<Rightarrow> pairing_error + pairing_session \<times> event" where
  "new_target env now keys d qr =
     (let session_id = derive_session_id env (qr_session_secret qr) in
      and_then (map_err SigningError (generate_shared_key env keys (qr_source_pubkey qr))) (\<lambda>ecdh.
      let (code, sas_input) = derive_sas env ecdh (qr_session_secret qr);
          session = \<lparr>ps_role = Target, ps_state = Waiting, ps_keys = keys,
            ps_session_secret = qr_session_secret qr, ps_relay_urls = qr_relays qr,
            ps_peer_pubkey = Some (qr_source_pubkey qr), ps_session_id = session_id,
            ps_sas_code = Some code, ps_sas_input = Some sas_input, ps_processed_ids = {},
            ps_created_at = now, ps_timeout = DEFAULT_TIMEOUT\<rparr>
      in
      and_then (build_event env d (Offer (hex_encode env session_id) 1) session) (\<lambda>e.
      Inr (session\<lparr>ps_state := Confirming\<rparr>, e))))"

definition handle_sas_confirm :: "pairing_env \<Rightarrow> instant \<Rightarrow> event \<Rightarrow> pairing_session \<Rightarrow> (pairing_error + string) \<times> pairing_session" where
  "handle_sas_confirm env now e s =
     or_return (check_expired now s) s (\<lambda>_.
     or_return (expect_state Confirming s) s (\<lambda>_.
     or_return (expect_role Target s) s (\<lambda>_.
     or_return (validate_event_from_peer env e s) s (\<lambda>_.
     or_return (decrypt_message env e s) s (\<lambda>msg.
     case msg of
       SasConfirm received_hash \<Rightarrow>
         or_return (ok_or (ps_sas_input s) SasMismatch) s (\<lambda>sas_input.
         or_return (ok_or (ps_peer_pubkey s) (InvalidPubkey ''no peer'')) s (\<lambda>peer.
         let expected_hash = derive_transcript_hash env (ps_session_id s) (to_bytes env peer)
               (to_bytes env (public_key env (ps_keys s))) sas_input (ps_session_secret s) in
         if \<not> hex_matches env received_hash expected_hash
         then (Inl TranscriptMismatch, s\<lparr>ps_state := Aborted\<rparr>)
         else
           (let s1 = record_event e (s\<lparr>ps_state := AwaitingConfirmation\<rparr>) in
            or_return (ok_or (ps_sas_code s1) SasMismatch) s1 (\<lambda>code. (Inr (format_sas code), s1)))))
     | other \<Rightarrow> (Inl (unexpected ''sas-confirm'' other), s))))))"

definition confirm_target_sas :: "instant \<Rightarrow> pairing_session \<Rightarrow> (pairing_error + unit) \<times> pairing_session" where
  "confirm_target_sas now s =
     or_return (check_expired now s) s (\<lambda>_.
     or_return (expect_state AwaitingConfirmation s) s (\<lambda>_.
     or_return (expect_role Target s) s (\<lambda>_.
     (Inr (), s\<lparr>ps_state := Transferring\<rparr>))))"

definition handle_payload :: "pairing_env \<Rightarrow> instant \<Rightarrow> event \<Rightarrow> pairing_session
    \<Rightarrow> (pairing_error + payload_type \<times> string) \<times> pairing_session" where
  "handle_payload env now e s =
     or_return (check_expired now s) s (\<lambda>_.
     or_return (expect_state Transferring s) s (\<lambda>_.
     or_return (expect_role Target s) s (\<lambda>_.
     or_return (validate_event_from_peer env e s) s (\<lambda>_.
     or_return (decrypt_message env e s) s (\<lambda>msg.
     case msg of
       Payload payload_type payload \<Rightarrow>
         (Inr (payload_type, payload), record_event e (s\<lparr>ps_state := PayloadExchanged\<rparr>))
     | other \<Rightarrow> (Inl (unexpected ''payload'' other), s))))))"

definition send_complete :: "pairing_env \<Rightarrow> instant \<Rightarrow> draw \<Rightarrow> pairing_session \<Rightarrow> (pairing_error + event) \<times> pairing_session" where
  "send_complete env now d s =
     or_return (check_expired now s) s (\<lambda>_.
     or_return (expect_state PayloadExchanged s) s (\<lambda>_.
     or_return (expect_role Target s) s (\<lambda>_.
     or_return (build_event env d (Complete True) s) s (\<lambda>e.
     (Inr e, s\<lparr>ps_state := Completed\<rparr>)))))"

section \<open>Abort and accessors\<close>

definition terminal :: "session_state \<Rightarrow> bool" where
  "terminal st = (st \<in> {Completed, Aborted})"

definition not_terminal_error :: "pairing_session \<Rightarrow> pairing_error" where
  "not_terminal_error s = UnexpectedMessage ''non-terminal state'' (''state '' @ state_debug (ps_state s))"

definition abort :: "pairing_env \<Rightarrow> draw \<Rightarrow> abort_reason \<Rightarrow> pairing_session \<Rightarrow> (pairing_error + event option) \<times> pairing_session" where
  "abort env d reason s =
     or_return (check (\<not> terminal (ps_state s)) (not_terminal_error s)) s (\<lambda>_.
     if ps_peer_pubkey s = None then (Inr None, s\<lparr>ps_state := Aborted\<rparr>)
     else
       or_return (build_event env d (Abort reason) s) s (\<lambda>e.
       (Inr (Some e), s\<lparr>ps_state := Aborted\<rparr>)))"

definition handle_abort :: "pairing_env \<Rightarrow> event \<Rightarrow> pairing_session \<Rightarrow> (pairing_error + abort_reason) \<times> pairing_session" where
  "handle_abort env e s =
     or_return (check (\<not> terminal (ps_state s)) (not_terminal_error s)) s (\<lambda>_.
     or_return (check (ps_peer_pubkey s \<noteq> None)
       (InvalidPubkey ''cannot accept abort before peer is known'')) s (\<lambda>_.
     or_return (validate_event_from_peer env e s) s (\<lambda>_.
     or_return (decrypt_message env e s) s (\<lambda>msg.
     case msg of
       Abort reason \<Rightarrow> (Inr reason, record_event e (s\<lparr>ps_state := Aborted\<rparr>))
     | other \<Rightarrow> (Inl (unexpected ''abort'' other), s)))))"

definition sas_code_text :: "pairing_session \<Rightarrow> string option" where
  "sas_code_text s = map_option format_sas (ps_sas_code s)"

definition qr_uri :: "pairing_env \<Rightarrow> pairing_session \<Rightarrow> string option" where
  "qr_uri env s =
     (if ps_role s \<noteq> Source then None
      else Some (encode_qr env
        \<lparr>qr_source_pubkey = public_key env (ps_keys s), qr_session_secret = ps_session_secret s,
         qr_relays = ps_relay_urls s, qr_version = 1\<rparr>))"

section \<open>Operations and runs\<close>

datatype pairing_op =
    OfferIn event
  | ConfirmSas draw
  | SendPayload draw payload_type string
  | CompleteIn event
  | SasConfirmIn event
  | ConfirmTargetSas
  | PayloadIn event
  | SendComplete draw
  | AbortOut draw abort_reason
  | AbortIn event

datatype pairing_output =
    ShowSas string
  | Send event
  | Received payload_type string
  | Finished
  | Sent "event option"
  | PeerAborted abort_reason

type_synonym pairing_result = "pairing_error + pairing_output"

fun run_op :: "pairing_env \<Rightarrow> instant \<Rightarrow> pairing_op \<Rightarrow> pairing_session \<Rightarrow> pairing_result \<times> pairing_session" where
  "run_op env now (OfferIn e) s = map_prod (map_sum id ShowSas) id (handle_offer env now e s)"
| "run_op env now (ConfirmSas d) s = map_prod (map_sum id Send) id (confirm_sas env now d s)"
| "run_op env now (SendPayload d ty p) s = map_prod (map_sum id Send) id (send_payload env now d ty p s)"
| "run_op env now (CompleteIn e) s = map_prod (map_sum id (\<lambda>_. Finished)) id (handle_complete env now e s)"
| "run_op env now (SasConfirmIn e) s = map_prod (map_sum id ShowSas) id (handle_sas_confirm env now e s)"
| "run_op env now ConfirmTargetSas s = map_prod (map_sum id (\<lambda>_. Finished)) id (confirm_target_sas now s)"
| "run_op env now (PayloadIn e) s =
     map_prod (map_sum id (\<lambda>(ty, p). Received ty p)) id (handle_payload env now e s)"
| "run_op env now (SendComplete d) s = map_prod (map_sum id Send) id (send_complete env now d s)"
| "run_op env now (AbortOut d reason) s = map_prod (map_sum id Sent) id (abort env d reason s)"
| "run_op env now (AbortIn e) s = map_prod (map_sum id PeerAborted) id (handle_abort env e s)"

text \<open>
  A run of one session from \<open>s0\<close>: any operations at any instants in any order, with their
  results, the latest first.
\<close>

inductive pairing_run :: "pairing_env \<Rightarrow> pairing_session \<Rightarrow> (pairing_op \<times> pairing_result) list \<Rightarrow> pairing_session \<Rightarrow> bool"
  for env s0 where
  start: "pairing_run env s0 [] s0"
| step: "pairing_run env s0 h s \<Longrightarrow> run_op env now op s = (r, s') \<Longrightarrow> pairing_run env s0 ((op, r) # h) s'"

text \<open>
  The protocol flow that the module documents, as a transition function per role, with the two steps that its diagram
  leaves to the methods: the target's own confirmation, and the abort from every state that is not terminal.
\<close>

fun next_state :: "pairing_role \<Rightarrow> pairing_op \<Rightarrow> session_state \<Rightarrow> session_state option" where
  "next_state role (OfferIn _) st = (if role = Source \<and> st = Waiting then Some Confirming else None)"
| "next_state role (ConfirmSas _) st = (if role = Source \<and> st = Confirming then Some Transferring else None)"
| "next_state role (SendPayload _ _ _) st =
     (if role = Source \<and> st = Transferring then Some PayloadExchanged else None)"
| "next_state role (CompleteIn _) st =
     (if role = Source \<and> st = PayloadExchanged then Some Completed else None)"
| "next_state role (SasConfirmIn _) st =
     (if role = Target \<and> st = Confirming then Some AwaitingConfirmation else None)"
| "next_state role ConfirmTargetSas st =
     (if role = Target \<and> st = AwaitingConfirmation then Some Transferring else None)"
| "next_state role (PayloadIn _) st =
     (if role = Target \<and> st = Transferring then Some PayloadExchanged else None)"
| "next_state role (SendComplete _) st =
     (if role = Target \<and> st = PayloadExchanged then Some Completed else None)"
| "next_state role (AbortOut _ _) st = (if terminal st then None else Some Aborted)"
| "next_state role (AbortIn _) st = (if terminal st then None else Some Aborted)"

text \<open>What no operation changes.\<close>

definition same_frame :: "pairing_session \<Rightarrow> pairing_session \<Rightarrow> bool" where
  "same_frame s s' \<longleftrightarrow>
     ps_role s' = ps_role s \<and> ps_keys s' = ps_keys s \<and> ps_session_secret s' = ps_session_secret s \<and>
     ps_relay_urls s' = ps_relay_urls s \<and> ps_session_id s' = ps_session_id s \<and>
     ps_created_at s' = ps_created_at s \<and> ps_timeout s' = ps_timeout s"

lemmas session_checks = check_expired_def expect_state_def expect_role_def
lemmas session_ops = handle_offer_def accept_offer_def confirm_sas_def send_payload_def
  handle_complete_def handle_sas_confirm_def confirm_target_sas_def handle_payload_def
  send_complete_def abort_def handle_abort_def

lemma record_event_simps [simp]:
  "ps_role (record_event e s) = ps_role s" "ps_state (record_event e s) = ps_state s"
  "ps_keys (record_event e s) = ps_keys s" "ps_session_secret (record_event e s) = ps_session_secret s"
  "ps_relay_urls (record_event e s) = ps_relay_urls s" "ps_session_id (record_event e s) = ps_session_id s"
  "ps_created_at (record_event e s) = ps_created_at s" "ps_timeout (record_event e s) = ps_timeout s"
  "ps_peer_pubkey (record_event e s) = ps_peer_pubkey s" "ps_sas_code (record_event e s) = ps_sas_code s"
  "ps_sas_input (record_event e s) = ps_sas_input s"
  "ps_processed_ids (record_event e s) = insert (ev_id e) (ps_processed_ids s)"
  by (simp_all add: record_event_def)

lemma map_result_Inr [simp]:
  "map_prod (map_sum id f) id x = (Inr b, s') \<longleftrightarrow> (\<exists>a. x = (Inr a, s') \<and> b = f a)"
  by (cases x; cases "fst x") auto

lemma map_result_Inl [simp]:
  "map_prod (map_sum id f) id x = (Inl e, s') \<longleftrightarrow> x = (Inl e, s')"
  by (cases x; cases "fst x") auto

lemma op_frame: "run_op env now op s = (r, s') \<Longrightarrow> same_frame s s'"
  by (cases op; cases r)
    (auto simp: session_ops same_frame_def or_return_def Let_def
      split: sum.splits pairing_message.splits if_splits prod.splits)

lemma op_success:
  "run_op env now op s = (Inr out, s') \<Longrightarrow> next_state (ps_role s) op (ps_state s) = Some (ps_state s')"
  by (cases op)
    (auto simp: session_ops session_checks or_return_def Let_def
      split: sum.splits pairing_message.splits if_splits prod.splits)

text \<open>The peer and the short authentication string are set once, by the offer.\<close>

lemma op_peer:
  "run_op env now op s = (r, s') \<Longrightarrow> ps_role s = Target \<or> ps_state s \<noteq> Waiting \<Longrightarrow>
     ps_peer_pubkey s' = ps_peer_pubkey s \<and> ps_sas_input s' = ps_sas_input s \<and> ps_sas_code s' = ps_sas_code s"
  by (cases op; cases r)
    (auto simp: session_ops session_checks or_return_def Let_def
      split: sum.splits pairing_message.splits if_splits prod.splits)

section \<open>The session invariant\<close>

definition session_ok :: "pairing_session \<Rightarrow> bool" where
  "session_ok s \<longleftrightarrow>
     (case ps_role s of
        Source \<Rightarrow> ps_state s \<noteq> AwaitingConfirmation \<and>
          (ps_state s \<in> {Waiting, Aborted} \<or> ps_peer_pubkey s \<noteq> None \<and> ps_sas_input s \<noteq> None \<and> ps_sas_code s \<noteq> None)
      | Target \<Rightarrow> ps_state s \<noteq> Waiting \<and> ps_peer_pubkey s \<noteq> None \<and> ps_sas_input s \<noteq> None \<and> ps_sas_code s \<noteq> None)"

lemma op_failure:
  "run_op env now op s = (Inl err, s') \<Longrightarrow> session_ok s \<Longrightarrow>
    ps_state s' = ps_state s \<or>
    ps_state s' = Aborted \<and>
      (next_state (ps_role s) op (ps_state s) = Some Completed \<and> ps_role s = Source \<or>
       next_state (ps_role s) op (ps_state s) = Some AwaitingConfirmation \<and> err = TranscriptMismatch)"
  by (cases op)
    (auto simp: session_ops session_checks session_ok_def or_return_def Let_def
      split: sum.splits pairing_message.splits if_splits prod.splits pairing_role.splits)

text \<open>The two reasons for which a rejected message ends a session.\<close>

definition peer_reports_failure :: "pairing_env \<Rightarrow> pairing_op \<Rightarrow> pairing_session \<Rightarrow> bool" where
  "peer_reports_failure env op s \<longleftrightarrow>
     ps_role s = Source \<and> ps_state s = PayloadExchanged \<and>
     (\<exists>e. op = CompleteIn e \<and> validate_event_from_peer env e s = Inr () \<and> decrypt_message env e s = Inr (Complete False))"

definition wrong_transcript :: "pairing_env \<Rightarrow> pairing_op \<Rightarrow> pairing_session \<Rightarrow> bool" where
  "wrong_transcript env op s \<longleftrightarrow>
     ps_role s = Target \<and> ps_state s = Confirming \<and>
     (\<exists>e received sas_input peer. op = SasConfirmIn e \<and> validate_event_from_peer env e s = Inr () \<and>
        decrypt_message env e s = Inr (SasConfirm received) \<and> ps_sas_input s = Some sas_input \<and> ps_peer_pubkey s = Some peer \<and>
        \<not> hex_matches env received (derive_transcript_hash env (ps_session_id s) (to_bytes env peer)
             (to_bytes env (public_key env (ps_keys s))) sas_input (ps_session_secret s)))"

lemma op_failure_cause:
  "run_op env now op s = (Inl err, s') \<Longrightarrow> session_ok s \<Longrightarrow>
    ps_state s' = ps_state s \<or>
    ps_state s' = Aborted \<and>
      (peer_reports_failure env op s \<and> err = UnexpectedMessage ''complete(success=true)'' ''complete(success=false)'' \<or>
       wrong_transcript env op s \<and> err = TranscriptMismatch)"
  by (cases op)
    (auto simp: session_ops session_checks session_ok_def or_return_def Let_def peer_reports_failure_def wrong_transcript_def ok_or_def
      split: sum.splits pairing_message.splits if_splits prod.splits pairing_role.splits option.splits)

lemma offer_sets_peer:
  "run_op env now (OfferIn e) s = (Inr out, s') \<Longrightarrow>
     ps_peer_pubkey s' = Some (ev_pubkey e) \<and> ps_sas_input s' \<noteq> None \<and> ps_sas_code s' \<noteq> None"
  by (auto simp: session_ops or_return_def Let_def
      split: sum.splits pairing_message.splits if_splits prod.splits)

lemma next_state_ok:
  assumes "next_state (ps_role s) op (ps_state s) = Some st" and "session_ok s"
  shows "(ps_role s = Source \<longrightarrow> st \<notin> {Waiting, AwaitingConfirmation}) \<and> (ps_role s = Target \<longrightarrow> st \<noteq> Waiting) \<and>
    (ps_role s = Source \<and> ps_state s = Waiting \<longrightarrow> (\<exists>e. op = OfferIn e) \<or> st = Aborted) \<and>
    ps_state s \<noteq> Aborted"
  using assms by (cases op) (auto simp: session_ok_def terminal_def split: if_splits)

lemma session_ok_op:
  assumes "run_op env now op s = (r, s')" and "session_ok s"
  shows "session_ok s'"
proof -
  have f: "ps_role s' = ps_role s" using op_frame [OF assms(1)] by (simp add: same_frame_def)
  consider (stay) "ps_state s' = ps_state s" | (abort) "ps_state s' = Aborted"
    | (move) out where "r = Inr out" "next_state (ps_role s) op (ps_state s) = Some (ps_state s')"
    using op_success [of env now op s _ s'] op_failure [of env now op s _ s'] assms by (cases r) auto
  then show ?thesis
  proof cases
    case stay
    with f op_peer [OF assms(1)] assms(2) show ?thesis
      by (auto simp: session_ok_def split: pairing_role.splits)
  next
    case abort
    with f op_peer [OF assms(1)] assms(2) show ?thesis
      by (auto simp: session_ok_def split: pairing_role.splits)
  next
    case move
    note n = next_state_ok [OF move(2) assms(2)]
    show ?thesis
    proof (cases "ps_role s = Target \<or> ps_state s \<noteq> Waiting")
      case True
      with f op_peer [OF assms(1)] assms(2) n show ?thesis
        by (auto simp: session_ok_def split: pairing_role.splits)
    next
      case False
      with n f assms(1) move(1) offer_sets_peer [of env now _ s out s'] show ?thesis
        by (auto simp: session_ok_def split: pairing_role.splits)
    qed
  qed
qed

text \<open>A session as one of the two constructors leaves it.\<close>

definition started :: "pairing_env \<Rightarrow> pairing_session \<Rightarrow> bool" where
  "started env s \<longleftrightarrow>
     (\<exists>now keys secret relay. s = fst (new_source env now keys secret relay)) \<or>
     (\<exists>now keys d qr e. new_target env now keys d qr = Inr (s, e))"

lemma new_target_Inr:
  "new_target env now keys d qr = Inr (s, e) \<Longrightarrow>
     ps_role s = Target \<and> ps_state s = Confirming \<and> ps_keys s = keys \<and>
     ps_session_secret s = qr_session_secret qr \<and> ps_relay_urls s = qr_relays qr \<and>
     ps_peer_pubkey s = Some (qr_source_pubkey qr) \<and>
     ps_session_id s = derive_session_id env (qr_session_secret qr) \<and>
     ps_processed_ids s = {} \<and> ps_created_at s = now \<and> ps_timeout s = DEFAULT_TIMEOUT \<and>
     (\<exists>ecdh. generate_shared_key env keys (qr_source_pubkey qr) = Inr ecdh \<and>
        ps_sas_code s = Some (fst (derive_sas env ecdh (qr_session_secret qr))) \<and>
        ps_sas_input s = Some (snd (derive_sas env ecdh (qr_session_secret qr))))"
  by (auto simp: new_target_def try_simps Let_def split_beta)

lemma new_source_fields:
  "ps_role (fst (new_source env now keys secret relay)) = Source"
  "ps_state (fst (new_source env now keys secret relay)) = Waiting"
  "ps_session_id (fst (new_source env now keys secret relay)) = derive_session_id env secret"
  "ps_keys (fst (new_source env now keys secret relay)) = keys"
  "ps_created_at (fst (new_source env now keys secret relay)) = now"
  "ps_timeout (fst (new_source env now keys secret relay)) = DEFAULT_TIMEOUT"
  by (simp_all add: new_source_def Let_def)

lemma session_ok_started: "started env s \<Longrightarrow> session_ok s"
  unfolding started_def using new_target_Inr [of env] new_source_fields [of env]
  by (fastforce simp: session_ok_def)

lemma session_ok_run: "pairing_run env s0 h s \<Longrightarrow> started env s0 \<Longrightarrow> session_ok s"
  by (induction rule: pairing_run.induct) (auto intro: session_ok_started session_ok_op)

lemma run_frame: "pairing_run env s0 h s \<Longrightarrow> same_frame s0 s"
proof (induction rule: pairing_run.induct)
  case (step h s now op r s')
  then show ?case using op_frame [of env now op s r s'] by (simp add: same_frame_def)
qed (simp add: same_frame_def)

section \<open>Progress\<close>

fun rank :: "pairing_role \<Rightarrow> session_state \<Rightarrow> nat" where
  "rank role Waiting = 0"
| "rank role Confirming = (if role = Source then 1 else 0)"
| "rank role AwaitingConfirmation = 1"
| "rank role Transferring = 2"
| "rank role PayloadExchanged = 3"
| "rank role Completed = 4"
| "rank role Aborted = 4"

lemma rank_le: "rank role st \<le> 4"
  by (cases st) auto

lemma rank_next: "next_state role op st = Some st' \<Longrightarrow> rank role st < rank role st'"
  by (cases op; cases st) (auto simp: terminal_def split: if_splits)

definition successes :: "(pairing_op \<times> pairing_result) list \<Rightarrow> nat" where
  "successes h = length (filter (\<lambda>(op, r). \<not> isl r) h)"

lemma op_rank:
  assumes "run_op env now op s = (r, s')" and "session_ok s"
  shows "rank (ps_role s) (ps_state s) + (if \<not> isl r then 1 else 0) \<le> rank (ps_role s) (ps_state s')"
proof (cases r)
  case (Inl err)
  from op_failure [OF assms(1) [unfolded Inl] assms(2)] show ?thesis
    by (auto simp: Inl rank_le dest: rank_next)
next
  case (Inr out)
  from rank_next [OF op_success [OF assms(1) [unfolded Inr]]] show ?thesis by (simp add: Inr)
qed

lemma run_rank:
  "pairing_run env s0 h s \<Longrightarrow> started env s0 \<Longrightarrow> successes h \<le> rank (ps_role s) (ps_state s)"
proof (induction rule: pairing_run.induct)
  case (step h s now op r s')
  have "ps_role s' = ps_role s" using op_frame [OF step(2)] by (simp add: same_frame_def)
  with op_rank [OF step(2) session_ok_run [OF step(1,4)]] step(3,4) show ?case
    by (auto simp: successes_def)
qed (simp add: successes_def)

section \<open>Approval before the secret\<close>

definition transcript_confirmed :: "pairing_env \<Rightarrow> pairing_session \<Rightarrow> event \<Rightarrow> bool" where
  "transcript_confirmed env s e \<longleftrightarrow>
     verify env e = Inr () \<and> ps_peer_pubkey s = Some (ev_pubkey e) \<and>
     p_tag_names (public_key env (ps_keys s)) e \<and>
     (\<exists>t sas_input. decrypt_message env e s = Inr (SasConfirm t) \<and> ps_sas_input s = Some sas_input \<and>
        hex_decode env t = Inr (derive_transcript_hash env (ps_session_id s) (to_bytes env (ev_pubkey e))
          (to_bytes env (public_key env (ps_keys s))) sas_input (ps_session_secret s)))"

definition offer_accepted :: "pairing_env \<Rightarrow> pairing_session \<Rightarrow> event \<Rightarrow> bool" where
  "offer_accepted env s e \<longleftrightarrow>
     verify env e = Inr () \<and> p_tag_names (public_key env (ps_keys s)) e \<and>
     (\<exists>t. decrypt_message env e s = Inr (Offer t 1) \<and> hex_decode env t = Inr (ps_session_id s))"

definition peer_confirmed :: "pairing_env \<Rightarrow> pairing_session \<Rightarrow> (pairing_op \<times> pairing_result) list \<Rightarrow> bool" where
  "peer_confirmed env s0 h \<longleftrightarrow> (\<exists>e out. (SasConfirmIn e, Inr out) \<in> set h \<and> transcript_confirmed env s0 e)"

definition user_approved :: "pairing_env \<Rightarrow> pairing_session \<Rightarrow> (pairing_op \<times> pairing_result) list \<Rightarrow> bool" where
  "user_approved env s0 h \<longleftrightarrow>
     (\<exists>newer older out. h = newer @ (ConfirmTargetSas, Inr out) # older \<and> peer_confirmed env s0 older)"

definition offer_seen ::
  "pairing_env \<Rightarrow> pairing_session \<Rightarrow> pubkey option \<Rightarrow> (pairing_op \<times> pairing_result) list \<Rightarrow> bool" where
  "offer_seen env s0 peer h \<longleftrightarrow>
     (\<exists>e out. (OfferIn e, Inr out) \<in> set h \<and> offer_accepted env s0 e \<and> peer = Some (ev_pubkey e))"

definition source_confirmed ::
  "pairing_env \<Rightarrow> pairing_session \<Rightarrow> pubkey option \<Rightarrow> (pairing_op \<times> pairing_result) list \<Rightarrow> bool" where
  "source_confirmed env s0 peer h \<longleftrightarrow>
     (\<exists>newer older d out. h = newer @ (ConfirmSas d, Inr out) # older \<and> offer_seen env s0 peer older)"

lemma history_mono:
  "peer_confirmed env s0 h \<Longrightarrow> peer_confirmed env s0 (x # h)"
  "user_approved env s0 h \<Longrightarrow> user_approved env s0 (x # h)"
  "offer_seen env s0 p h \<Longrightarrow> offer_seen env s0 p (x # h)"
  "source_confirmed env s0 p h \<Longrightarrow> source_confirmed env s0 p (x # h)"
     apply (force simp: peer_confirmed_def)
    apply (unfold user_approved_def, metis append_Cons)
   apply (force simp: offer_seen_def)
  apply (unfold source_confirmed_def, metis append_Cons)
  done

lemma history_intros:
  "peer_confirmed env s0 h \<Longrightarrow> user_approved env s0 ((ConfirmTargetSas, Inr out) # h)"
  "offer_seen env s0 p h \<Longrightarrow> source_confirmed env s0 p ((ConfirmSas d, Inr out) # h)"
  unfolding user_approved_def source_confirmed_def by (metis append_Nil)+

lemma hex_matches_iff: "hex_matches env t bs \<longleftrightarrow> hex_decode env t = Inr bs \<and> length bs = 32"
  by (auto simp: hex_matches_def ct_eq_def split: sum.splits)

lemma decrypt_message_frame: "ps_keys s' = ps_keys s \<Longrightarrow> decrypt_message env e s' = decrypt_message env e s"
  by (simp add: decrypt_message_def)

lemma validate_event_Inr:
  "validate_event_basics env e s = Inr () \<longleftrightarrow>
     verify env e = Inr () \<and> ev_id e \<notin> ps_processed_ids s \<and> ev_kind e = PAIRING_KIND \<and>
     p_tag_names (public_key env (ps_keys s)) e"
  "validate_event_from_peer env e s = Inr () \<longleftrightarrow>
     validate_event_basics env e s = Inr () \<and> (\<forall>p. ps_peer_pubkey s = Some p \<longrightarrow> ev_pubkey e = p)"
  by (auto simp: validate_event_basics_def validate_event_from_peer_def and_then_Inr check_def split: option.split if_splits)

lemma sas_confirm_accepted:
  "run_op env now (SasConfirmIn e) s = (Inr out, s') \<Longrightarrow> transcript_confirmed env s e"
  by (auto simp: handle_sas_confirm_def transcript_confirmed_def or_return_def hex_matches_iff validate_event_Inr
      Let_def split: sum.splits pairing_message.splits if_splits)

lemma offer_in_accepted:
  "run_op env now (OfferIn e) s = (Inr out, s') \<Longrightarrow> offer_accepted env s e"
  by (auto simp: handle_offer_def offer_accepted_def or_return_def hex_matches_iff validate_event_Inr
      Let_def split: sum.splits pairing_message.splits if_splits)

text \<open>On the target, what a state says about the past.\<close>

lemma target_history:
  assumes "pairing_run env s0 h s" and "started env s0" and "ps_role s0 = Target"
  shows "ps_peer_pubkey s = ps_peer_pubkey s0 \<and> ps_sas_input s = ps_sas_input s0 \<and> ps_sas_code s = ps_sas_code s0 \<and>
    (ps_state s = AwaitingConfirmation \<longrightarrow> peer_confirmed env s0 h) \<and>
    (ps_state s \<in> {Transferring, PayloadExchanged, Completed} \<longrightarrow> user_approved env s0 h)"
  using assms
proof (induction rule: pairing_run.induct)
  case start
  then have "ps_state s0 = Confirming"
    using new_target_Inr [of env] new_source_fields [of env] by (auto simp: started_def)
  then show ?case by simp
next
  case (step h s now op r s')
  have f: "same_frame s0 s" using step(1) by (rule run_frame)
  then have role: "ps_role s = Target" using step.prems by (simp add: same_frame_def)
  note peer = op_peer [OF step(2)] and ok = session_ok_run [OF step(1,4)]
  have same: "transcript_confirmed env s e = transcript_confirmed env s0 e" for e
    using f step.IH step.prems
    by (simp add: transcript_confirmed_def same_frame_def decrypt_message_frame [of s s0])
  consider (stay) "ps_state s' = ps_state s" | (abort) "ps_state s' = Aborted"
    | (move) out where "r = Inr out" "next_state Target op (ps_state s) = Some (ps_state s')"
    using op_success [of env now op s _ s'] op_failure [of env now op s _ s'] step(2) ok role
    by (cases r) auto
  then show ?case
  proof cases
    case stay
    with step peer role show ?thesis by (auto intro: history_mono)
  next
    case abort
    with step peer role show ?thesis by auto
  next
    case move
    show ?thesis
    proof (cases op)
      case (SasConfirmIn e)
      with move step(2) have "transcript_confirmed env s0 e"
        using sas_confirm_accepted [of env now e s out s'] same by simp
      with SasConfirmIn move step peer role show ?thesis
        by (auto simp: peer_confirmed_def split: if_splits)
    next
      case ConfirmTargetSas
      with move step have "user_approved env s0 ((op, r) # h)"
        by (auto split: if_splits intro: history_intros)
      with ConfirmTargetSas move step peer role show ?thesis by (auto split: if_splits)
    qed (use move step peer role in \<open>auto intro: history_mono split: if_splits\<close>)
  qed
qed

text \<open>On the source: the offer that set the peer, and the confirmation of the user.\<close>

lemma source_history:
  assumes "pairing_run env s0 h s" and "started env s0" and "ps_role s0 = Source"
  shows "(ps_state s = Confirming \<longrightarrow> offer_seen env s0 (ps_peer_pubkey s) h) \<and>
    (ps_state s \<in> {Transferring, PayloadExchanged, Completed} \<longrightarrow> source_confirmed env s0 (ps_peer_pubkey s) h)"
  using assms
proof (induction rule: pairing_run.induct)
  case start
  then have "ps_state s0 = Waiting"
    using new_target_Inr [of env] new_source_fields [of env] by (auto simp: started_def)
  then show ?case by simp
next
  case (step h s now op r s')
  have f: "same_frame s0 s" using step(1) by (rule run_frame)
  then have role: "ps_role s = Source" using step.prems by (simp add: same_frame_def)
  note peer = op_peer [OF step(2)] and ok = session_ok_run [OF step(1,4)]
  have same: "offer_accepted env s e = offer_accepted env s0 e" for e
    using f by (simp add: offer_accepted_def same_frame_def decrypt_message_frame [of s s0])
  consider (stay) "ps_state s' = ps_state s" | (abort) "ps_state s' = Aborted"
    | (move) out where "r = Inr out" "next_state Source op (ps_state s) = Some (ps_state s')"
    using op_success [of env now op s _ s'] op_failure [of env now op s _ s'] step(2) ok role
    by (cases r) auto
  then show ?case
  proof cases
    case stay
    with step peer role show ?thesis by (auto intro: history_mono)
  next
    case abort
    then show ?thesis by simp
  next
    case move
    show ?thesis
    proof (cases op)
      case (OfferIn e)
      with move step(2) have "offer_accepted env s0 e" "ps_peer_pubkey s' = Some (ev_pubkey e)"
        using offer_in_accepted [of env now e s out s'] offer_sets_peer [of env now e s out s'] same by simp_all
      with OfferIn move show ?thesis by (auto simp: offer_seen_def split: if_splits)
    next
      case (ConfirmSas d)
      with move step peer role have "source_confirmed env s0 (ps_peer_pubkey s') ((op, r) # h)"
        by (auto split: if_splits intro: history_intros)
      with ConfirmSas move show ?thesis by (auto split: if_splits)
    qed (use move step peer role in \<open>auto intro: history_mono split: if_splits\<close>)
  qed
qed

lemma one_payload:
  "pairing_run env s0 h s \<Longrightarrow> started env s0 \<Longrightarrow> (PayloadIn e, Inr out) \<in> set h \<Longrightarrow>
     3 \<le> rank (ps_role s) (ps_state s)"
proof (induction rule: pairing_run.induct)
  case (step h s now op r s')
  have role: "ps_role s' = ps_role s" using op_frame [OF step(2)] by (simp add: same_frame_def)
  show ?case
  proof (cases "(op, r) = (PayloadIn e, Inr out)")
    case True
    then have "ps_state s' = PayloadExchanged"
      using op_success [of env now op s out s'] step(2) by (auto split: if_splits)
    then show ?thesis by simp
  next
    case False
    then have "3 \<le> rank (ps_role s) (ps_state s)" using step by auto
    with op_rank [OF step(2) session_ok_run [OF step(1,4)]] role show ?thesis by simp
  qed
qed simp

lemma handle_payload_accepted:
  "handle_payload env now e s = (Inr (ty, p), s') \<Longrightarrow>
     \<not> is_expired now s \<and> ps_state s = Transferring \<and> ps_role s = Target \<and> verify env e = Inr () \<and>
     (\<forall>peer. ps_peer_pubkey s = Some peer \<longrightarrow> ev_pubkey e = peer) \<and>
     decrypt_message env e s = Inr (Payload ty p)"
  by (auto simp: handle_payload_def session_checks or_return_def validate_event_Inr
      split: sum.splits pairing_message.splits)

lemma send_payload_sent:
  "send_payload env now d ty p s = (Inr e, s') \<Longrightarrow>
     \<not> is_expired now s \<and> ps_state s = Transferring \<and> ps_role s = Source \<and>
     build_event env d (Payload ty p) s = Inr e"
  by (auto simp: send_payload_def session_checks or_return_def split: sum.splits)

text \<open>
  C31. A session follows the protocol: from a fresh session, by any operations in any order, every accepted operation
  takes exactly the step of its role in the module's protocol flow, in which the target confirms the code by
  \<open>confirm_target_sas\<close> and either side may abort until it has ended. A rejected operation leaves the state as it
  is, except that the session is aborted when a validated message of the peer is a \<open>complete\<close> with \<open>success\<close> false, or is a
  \<open>sas-confirm\<close> whose transcript hash is not the expected one; any other message that fails aborts nothing.
\<close>

theorem session_follows_protocol:
  assumes "started env s0" and "pairing_run env s0 h s" and "run_op env now op s = (r, s')"
  shows "session_ok s' \<and>
    (case r of
       Inr _ \<Rightarrow> next_state (ps_role s) op (ps_state s) = Some (ps_state s')
     | Inl err \<Rightarrow>
         ps_state s' = ps_state s \<or>
         ps_state s' = Aborted \<and>
           (peer_reports_failure env op s \<and> err = UnexpectedMessage ''complete(success=true)'' ''complete(success=false)'' \<or>
            wrong_transcript env op s \<and> err = TranscriptMismatch))"
proof -
  have ok: "session_ok s" by (rule session_ok_run [OF assms(2,1)])
  show ?thesis
    using session_ok_op [OF assms(3) ok] op_success [of env now op s _ s'] op_failure_cause [of env now op s _ s', OF _ ok] assms(3)
    by (cases r) simp_all
qed

text \<open>
  C32. A session ends: whatever is called on it, at most four operations ever succeed, and a
  session that is completed or aborted never changes its state again.
\<close>

theorem pairing_terminates:
  assumes "started env s0" and "pairing_run env s0 h s"
  shows "successes h \<le> 4 \<and>
    (terminal (ps_state s) \<longrightarrow> isl (fst (run_op env now op s)) \<and> ps_state (snd (run_op env now op s)) = ps_state s)"
proof
  show "successes h \<le> 4" using run_rank [OF assms(2,1)] rank_le by (rule order_trans)
  show "terminal (ps_state s) \<longrightarrow> isl (fst (run_op env now op s)) \<and> ps_state (snd (run_op env now op s)) = ps_state s"
  proof
    assume t: "terminal (ps_state s)"
    then have n: "next_state (ps_role s) op (ps_state s) = None"
      by (cases op) (auto simp: terminal_def)
    obtain r s' where r: "run_op env now op s = (r, s')" by fastforce
    with n op_success [of env now op s _ s'] op_failure [of env now op s _ s', OF _ session_ok_run [OF assms(2,1)]]
    show "isl (fst (run_op env now op s)) \<and> ps_state (snd (run_op env now op s)) = ps_state s"
      by (cases r) auto
  qed
qed

text \<open>
  C14. No secret without approval, on the target: a payload is accepted only after the user
  approved the codes, which in turn happened after a \<open>sas-confirm\<close> event was accepted that is
  signed by the key of the QR code, addressed to this session and carries the transcript hash
  over the session id, both keys and the authentication string; the payload comes from the same
  key, within the 120 seconds of the session, and is the first one.
\<close>

theorem payload_needs_approval:
  assumes "new_target env t0 keys d qr = Inr (s0, offer)" and "pairing_run env s0 h s"
    and "handle_payload env now e s = (Inr (ty, p), s')"
  shows "user_approved env s0 h \<and> verify env e = Inr () \<and> ev_pubkey e = qr_source_pubkey qr \<and>
    decrypt_message env e s0 = Inr (Payload ty p) \<and> now - t0 \<le> DEFAULT_TIMEOUT \<and>
    (\<forall>e' out. (PayloadIn e', Inr out) \<notin> set h)"
proof -
  have st: "started env s0" using assms(1) by (auto simp: started_def)
  note n = new_target_Inr [OF assms(1)] and f = run_frame [OF assms(2)] and a = handle_payload_accepted [OF assms(3)]
  have t: "user_approved env s0 h" "ps_peer_pubkey s = Some (qr_source_pubkey qr)"
    using target_history [OF assms(2) st] n a by auto
  have "(PayloadIn e', Inr out) \<notin> set h" for e' out
    using one_payload [OF assms(2) st, of e' out] a by auto
  with t a f n show ?thesis
    by (auto simp: same_frame_def is_expired_def decrypt_message_frame [of s s0])
qed

text \<open>
  No secret without approval, on the source: the payload is sent only after the user
  confirmed the codes, which happened after an offer was accepted that names the session id of
  this QR code, and it is encrypted to the key that sent this offer, within the 120 seconds of
  the session.
\<close>

lemma source_sends_after_confirmation:
  assumes "pairing_run env (fst (new_source env t0 keys secret relay)) h s"
    and "send_payload env now d ty p s = (Inr e, s')"
  shows "source_confirmed env (fst (new_source env t0 keys secret relay)) (ps_peer_pubkey s) h \<and>
    build_event env d (Payload ty p) s = Inr e \<and> now - t0 \<le> DEFAULT_TIMEOUT"
proof -
  let ?s0 = "fst (new_source env t0 keys secret relay)"
  have st: "started env ?s0" by (auto simp: started_def)
  note a = send_payload_sent [OF assms(2)]
  have "source_confirmed env ?s0 (ps_peer_pubkey s) h"
    using source_history [OF assms(1) st] a by (simp add: new_source_fields)
  with a run_frame [OF assms(1)] show ?thesis
    by (auto simp: same_frame_def is_expired_def new_source_fields)
qed

end
