(* ===== verification/Hex_Text.thy ===== *)
theory Hex_Text
  imports Rust_Std
begin

text \<open>
  The interface of the hex crate, as a locale: two lower-case digits per byte, and decoding
  inverts encoding. It is interpreted on the standard encoding, which the concrete environments
  of the development use.
\<close>

definition lower_hex :: "char \<Rightarrow> bool" where
  "lower_hex c = (is_ascii_digit c \<or> (97 \<le> (of_char c :: nat) \<and> (of_char c :: nat) \<le> 102))"

locale hex_codec =
  fixes enc :: "bytes \<Rightarrow> string" and dec :: "string \<Rightarrow> string + bytes"
  assumes dec_enc [simp]: "dec (enc b) = Inr b"
    and length_enc [simp]: "length (enc b) = 2 * length b"
    and enc_digits: "list_all lower_hex (enc b)"
begin

lemma enc_inject [simp]: "enc a = enc b \<longleftrightarrow> a = b"
  by (metis Inr_inject dec_enc)

lemma enc_Nil [simp]: "enc b = [] \<longleftrightarrow> b = []"
  using length_enc [of b] by (metis length_0_conv mult_eq_0_iff zero_neq_numeral)

lemma notin_enc: "\<not> lower_hex c \<Longrightarrow> c \<notin> set (enc b)"
  using enc_digits [of b] by (auto simp: list_all_iff)

end

section \<open>The standard encoding\<close>

definition hex_digit :: "nat \<Rightarrow> char" where
  "hex_digit n = char_of (if n < 10 then 48 + n else 87 + n)"

definition hex_value :: "char \<Rightarrow> nat option" where
  "hex_value c =
     (if is_ascii_digit c then Some (of_char c - 48)
      else if lower_hex c then Some (of_char c - 87) else None)"

fun unhex_text :: "string \<Rightarrow> string + bytes" where
  "unhex_text [] = Inr []"
| "unhex_text [c] = Inl ''odd length''"
| "unhex_text (a # b # s) =
     (case (hex_value a, hex_value b, unhex_text s) of
        (Some x, Some y, Inr bs) \<Rightarrow> Inr (word_of_nat (16 * x + y) # bs)
      | _ \<Rightarrow> Inl ''invalid digit'')"

definition hex_text :: "bytes \<Rightarrow> string" where
  "hex_text bs = concat (map (\<lambda>b. [hex_digit (unat b div 16), hex_digit (unat b mod 16)]) bs)"

lemma hex_digit_value [simp]: "n < 16 \<Longrightarrow> hex_value (hex_digit n) = Some n"
  by (simp add: hex_value_def hex_digit_def is_ascii_digit_def lower_hex_def)

lemma hex_digit_lower [simp]: "n < 16 \<Longrightarrow> lower_hex (hex_digit n)"
  by (simp add: hex_digit_def is_ascii_digit_def lower_hex_def)

lemma unat_byte_less: "unat (b :: u8) < 256"
  by (rule order_less_le_trans [OF unsigned_less]) simp

lemma hex_text_laws:
  "unhex_text (hex_text bs) = Inr bs \<and> length (hex_text bs) = 2 * length bs \<and> list_all lower_hex (hex_text bs)"
proof (induction bs)
  case (Cons b bs)
  have "unat b div 16 < 16" using unat_byte_less [of b] by (simp add: less_mult_imp_div_less)
  with Cons show ?case by (simp add: hex_text_def)
qed (simp add: hex_text_def)

interpretation std_hex: hex_codec hex_text unhex_text
  by unfold_locales (use hex_text_laws in blast)+

section \<open>Uuids\<close>

text \<open>The text of a uuid: the 32 hex digits of its 16 bytes, with dashes.\<close>

definition hyphenated :: "bytes \<Rightarrow> uuid" where
  "hyphenated b =
     (let h = hex_text b in
      take 8 h @ ''-'' @ take 4 (drop 8 h) @ ''-'' @ take 4 (drop 12 h) @ ''-'' @ take 4 (drop 16 h) @ ''-'' @ drop 20 h)"

definition unhyphenated :: "uuid \<Rightarrow> bytes" where
  "unhyphenated u = (case unhex_text (filter (\<lambda>c. c \<noteq> CHR ''-'') u) of Inr b \<Rightarrow> b | Inl _ \<Rightarrow> [])"

lemma unhyphenated_hyphenated: "length b = 16 \<Longrightarrow> unhyphenated (hyphenated b) = b"
proof -
  assume "length b = 16"
  have "\<not> lower_hex (CHR ''-'')" by code_simp
  then have "CHR ''-'' \<notin> set (hex_text b)" by (rule std_hex.notin_enc)
  then have keep: "filter (\<lambda>c. c \<noteq> CHR ''-'') (take n (drop m (hex_text b))) = take n (drop m (hex_text b))"
    "filter (\<lambda>c. c \<noteq> CHR ''-'') (drop m (hex_text b)) = drop m (hex_text b)" for n m
    by (auto simp: filter_id_conv dest!: in_set_takeD in_set_dropD)
  have "hex_text b = take 8 (hex_text b) @ take 4 (drop 8 (hex_text b)) @ take 4 (drop 12 (hex_text b)) @
    take 4 (drop 16 (hex_text b)) @ drop 20 (hex_text b)"
    by (simp flip: append_assoc take_add)
  then have "filter (\<lambda>c. c \<noteq> CHR ''-'') (hyphenated b) = hex_text b"
    using keep(1) [of 8 0] by (simp add: hyphenated_def Let_def keep)
  then show ?thesis by (simp add: unhyphenated_def)
qed

end
