(* ===== verification/Pairing_Flow.thy ===== *)
theory Pairing_Flow
  imports Pairing_Session Hex_Text
begin

text \<open>
  Both sides of a pairing together: the exchange of the module documentation of
  crates/buzz-core/src/pairing/session.rs, run between a source and a target session, reaches
  completion on both sides and delivers the secret. What the exchange needs of the libraries is
  stated as laws of the environment, and a concrete environment that obeys them shows that the
  laws can hold and gives the witnesses of the pairing theorems.
\<close>

section \<open>Laws of the libraries\<close>

text \<open>NIP-44 and event signing between a sender with key \<open>a\<close> and a receiver with key \<open>b\<close>.\<close>

definition channel_laws :: "pairing_env \<Rightarrow> secret_key \<Rightarrow> secret_key \<Rightarrow> bool" where
  "channel_laws env a b \<longleftrightarrow>
     (\<forall>n t. t \<noteq> [] \<and> length t \<le> 65535 \<longrightarrow>
        (\<exists>c. nip44_encrypt env n a (public_key env b) t = Inr c \<and> 132 \<le> length c \<and> length c \<le> 87472 \<and>
             nip44_decrypt env b (public_key env a) c = Inr t)) \<and>
     (\<forall>content tags ts. \<exists>e. sign_with_keys env a PAIRING_KIND content tags ts = Inr e \<and>
        ev_pubkey e = public_key env a \<and> ev_kind e = PAIRING_KIND \<and> ev_tags e = tags \<and>
        ev_content e = content \<and> verify env e = Inr ())"

text \<open>JSON of one message: serialization and parsing are inverse, and the text fits NIP-44.\<close>

definition json_law :: "pairing_env \<Rightarrow> pairing_message \<Rightarrow> bool" where
  "json_law env m \<longleftrightarrow>
     (\<exists>j. message_to_json env m = Inr j \<and> message_from_json env j = Inr m \<and> j \<noteq> [] \<and> length j \<le> 65535)"

text \<open>The id of a verified event determines its content.\<close>

definition id_law :: "pairing_env \<Rightarrow> bool" where
  "id_law env \<longleftrightarrow>
     (\<forall>e e'. verify env e = Inr () \<and> verify env e' = Inr () \<and> ev_id e = ev_id e' \<longrightarrow> ev_content e = ev_content e')"

definition hkdf_law :: "pairing_env \<Rightarrow> bool" where
  "hkdf_law env \<longleftrightarrow> (\<forall>prk info. length (hkdf_expand env prk info 32) = 32)"

definition ecdh_law :: "pairing_env \<Rightarrow> secret_key \<Rightarrow> secret_key \<Rightarrow> bool" where
  "ecdh_law env a b \<longleftrightarrow>
     (\<exists>k. generate_shared_key env a (public_key env b) = Inr k \<and> generate_shared_key env b (public_key env a) = Inr k)"

lemma length_hkdf32: "hkdf_law env \<Longrightarrow> length (hkdf32 env salt ikm info) = 32"
  by (simp add: hkdf_law_def hkdf32_def)

lemma hex_matches_encode:
  "hkdf_law env \<Longrightarrow> hex_laws env \<Longrightarrow> hex_matches env (hex_encode env (hkdf32 env s i f)) (hkdf32 env s i f)"
  by (simp add: hex_matches_iff hex_laws_def length_hkdf32)

section \<open>One event\<close>

definition carries :: "pairing_env \<Rightarrow> secret_key \<Rightarrow> secret_key \<Rightarrow> pairing_message \<Rightarrow> event \<Rightarrow> bool" where
  "carries env a b m e \<longleftrightarrow>
     verify env e = Inr () \<and> ev_pubkey e = public_key env a \<and> ev_kind e = PAIRING_KIND \<and>
     p_tag_names (public_key env b) e \<and> (\<forall>r. ps_keys r = b \<longrightarrow> decrypt_message env e r = Inr m)"

lemma build_event_carries:
  assumes "channel_laws env a b" and "json_law env m"
    and "ps_keys s = a" and "ps_peer_pubkey s = Some (public_key env b)"
  obtains e where "build_event env d m s = Inr e" and "carries env a b m e"
proof -
  from assms(2) obtain j where j: "message_to_json env m = Inr j" "message_from_json env j = Inr m"
      "j \<noteq> []" "length j \<le> 65535" by (auto simp: json_law_def)
  with assms(1) obtain c where c: "nip44_encrypt env (dr_nonce d) a (public_key env b) j = Inr c"
      "132 \<le> length c" "length c \<le> 87472" "nip44_decrypt env b (public_key env a) c = Inr j"
    unfolding channel_laws_def by meson
  obtain e where e: "sign_with_keys env a PAIRING_KIND c [[''p'', public_key env b]]
        (dr_now d - unat (dr_random d mod 31)) = Inr e"
      "ev_pubkey e = public_key env a" "ev_kind e = PAIRING_KIND" "ev_tags e = [[''p'', public_key env b]]"
      "ev_content e = c" "verify env e = Inr ()"
    using assms(1) unfolding channel_laws_def by meson
  show thesis
  proof
    show "build_event env d m s = Inr e"
      by (simp add: build_event_def assms(3,4) j c e(1) Let_def)
    show "carries env a b m e"
      by (auto simp: carries_def p_tag_names_def decrypt_message_def e c j Let_def)
  qed
qed

lemma carries_valid:
  assumes "carries env a b m e" and "ps_keys r = b" and "ev_id e \<notin> ps_processed_ids r"
  shows "validate_event_basics env e r = Inr ()" "decrypt_message env e r = Inr m"
    "ps_peer_pubkey r = Some (public_key env a) \<Longrightarrow> validate_event_from_peer env e r = Inr ()"
  using assms by (auto simp: carries_def validate_event_Inr)

lemma carries_distinct:
  assumes "id_law env" and "carries env a b m e" and "carries env a b m' e'" and "m \<noteq> m'"
  shows "ev_id e \<noteq> ev_id e'"
proof
  assume id: "ev_id e = ev_id e'"
  with assms(1-3) have "ev_content e = ev_content e'" "ev_pubkey e = ev_pubkey e'"
    by (auto simp: id_law_def carries_def)
  then have "decrypt_message env e r = decrypt_message env e' r" for r
    by (simp add: decrypt_message_def)
  moreover obtain r :: pairing_session where "ps_keys r = b"
    by (metis pairing_session.select_convs(3))
  ultimately show False using assms(2-4) by (auto simp: carries_def)
qed

section \<open>The whole exchange\<close>

text \<open>The two sessions at the steps of an exchange.\<close>

definition src_side :: "pairing_env \<Rightarrow> instant \<Rightarrow> secret_key \<Rightarrow> bytes \<Rightarrow> string \<Rightarrow> pubkey option
    \<Rightarrow> (u32 \<times> bytes) option \<Rightarrow> string set \<Rightarrow> session_state \<Rightarrow> pairing_session" where
  "src_side env t0 ks secret relay peer sas ids st =
     \<lparr>ps_role = Source, ps_state = st, ps_keys = ks, ps_session_secret = secret, ps_relay_urls = [relay],
      ps_peer_pubkey = peer, ps_session_id = derive_session_id env secret,
      ps_sas_code = map_option fst sas, ps_sas_input = map_option snd sas,
      ps_processed_ids = ids, ps_created_at = t0, ps_timeout = DEFAULT_TIMEOUT\<rparr>"

definition tgt_side :: "pairing_env \<Rightarrow> instant \<Rightarrow> secret_key \<Rightarrow> qr_payload
    \<Rightarrow> u32 \<times> bytes \<Rightarrow> string set \<Rightarrow> session_state \<Rightarrow> pairing_session" where
  "tgt_side env t1 kt qr sas ids st =
     \<lparr>ps_role = Target, ps_state = st, ps_keys = kt, ps_session_secret = qr_session_secret qr,
      ps_relay_urls = qr_relays qr, ps_peer_pubkey = Some (qr_source_pubkey qr),
      ps_session_id = derive_session_id env (qr_session_secret qr),
      ps_sas_code = Some (fst sas), ps_sas_input = Some (snd sas),
      ps_processed_ids = ids, ps_created_at = t1, ps_timeout = DEFAULT_TIMEOUT\<rparr>"

definition exchange_transcript :: "pairing_env \<Rightarrow> secret_key \<Rightarrow> secret_key \<Rightarrow> bytes \<Rightarrow> bytes \<Rightarrow> bytes" where
  "exchange_transcript env ks kt inp secret =
     derive_transcript_hash env (derive_session_id env secret) (to_bytes env (public_key env ks))
       (to_bytes env (public_key env kt)) inp secret"

lemmas side_defs = src_side_def tgt_side_def session_checks is_expired_def record_event_def Let_def

lemma new_source_side:
  "new_source env t0 ks secret relay =
     (src_side env t0 ks secret relay None None {} Waiting,
      \<lparr>qr_source_pubkey = public_key env ks, qr_session_secret = secret, qr_relays = [relay], qr_version = 1\<rparr>)"
  by (simp add: new_source_def side_defs)

lemma new_target_side:
  assumes "generate_shared_key env kt (qr_source_pubkey qr) = Inr k" and "derive_sas env k (qr_session_secret qr) = sas"
    and "build_event env d (Offer (hex_encode env (derive_session_id env (qr_session_secret qr))) 1)
      (tgt_side env t1 kt qr sas {} Waiting) = Inr e"
  shows "new_target env t1 kt d qr = Inr (tgt_side env t1 kt qr sas {} Confirming, e)"
  using assms by (cases sas) (simp add: new_target_def side_defs)

lemma handle_offer_side:
  assumes "carries env kt ks (Offer (hex_encode env (derive_session_id env secret)) 1) e"
    and "hkdf_law env" and "hex_laws env"
    and "generate_shared_key env ks (public_key env kt) = Inr k" and "derive_sas env k secret = sas"
    and "t - t0 \<le> DEFAULT_TIMEOUT"
  shows "handle_offer env t e (src_side env t0 ks secret relay None None {} Waiting) =
    (Inr (format_sas (fst sas)),
     src_side env t0 ks secret relay (Some (public_key env kt)) (Some sas) {ev_id e} Confirming)"
proof -
  let ?s = "src_side env t0 ks secret relay None None {} Waiting"
  have "ev_pubkey e = public_key env kt" using assms(1) by (simp add: carries_def)
  moreover have "hex_matches env (hex_encode env (derive_session_id env secret)) (derive_session_id env secret)"
    unfolding derive_session_id_def by (rule hex_matches_encode [OF assms(2,3)])
  moreover have "validate_event_basics env e ?s = Inr ()"
      "decrypt_message env e ?s = Inr (Offer (hex_encode env (derive_session_id env secret)) 1)"
    using carries_valid [OF assms(1), of ?s] by (simp_all add: src_side_def)
  ultimately show ?thesis
    using assms(4-6) by (cases sas) (simp add: handle_offer_def accept_offer_def side_defs)
qed

lemma confirm_sas_side:
  assumes "build_event env d (SasConfirm (hex_encode env (exchange_transcript env ks kt (snd sas) secret)))
      (src_side env t0 ks secret relay (Some (public_key env kt)) (Some sas) ids Confirming) = Inr e"
    and "t - t0 \<le> DEFAULT_TIMEOUT"
  shows "confirm_sas env t d (src_side env t0 ks secret relay (Some (public_key env kt)) (Some sas) ids Confirming) =
    (Inr e, src_side env t0 ks secret relay (Some (public_key env kt)) (Some sas) ids Transferring)"
  using assms by (simp add: confirm_sas_def exchange_transcript_def side_defs)

lemma handle_sas_confirm_side:
  assumes "carries env ks kt (SasConfirm (hex_encode env (exchange_transcript env ks kt (snd sas) (qr_session_secret qr)))) e"
    and "hkdf_law env" and "hex_laws env" and "qr_source_pubkey qr = public_key env ks"
    and "t - t1 \<le> DEFAULT_TIMEOUT"
  shows "handle_sas_confirm env t e (tgt_side env t1 kt qr sas {} Confirming) =
    (Inr (format_sas (fst sas)), tgt_side env t1 kt qr sas {ev_id e} AwaitingConfirmation)"
proof -
  let ?s = "tgt_side env t1 kt qr sas {} Confirming"
  have "hex_matches env (hex_encode env (exchange_transcript env ks kt (snd sas) (qr_session_secret qr)))
      (exchange_transcript env ks kt (snd sas) (qr_session_secret qr))"
    unfolding exchange_transcript_def derive_transcript_hash_def Let_def
    by (rule hex_matches_encode [OF assms(2,3)])
  moreover have "validate_event_from_peer env e ?s = Inr ()"
      "decrypt_message env e ?s =
        Inr (SasConfirm (hex_encode env (exchange_transcript env ks kt (snd sas) (qr_session_secret qr))))"
    using carries_valid [OF assms(1), of ?s] assms(4) by (simp_all add: tgt_side_def)
  ultimately show ?thesis
    using assms(4,5) by (simp add: handle_sas_confirm_def exchange_transcript_def side_defs)
qed

lemma confirm_target_sas_side:
  "t - t1 \<le> DEFAULT_TIMEOUT \<Longrightarrow>
     confirm_target_sas t (tgt_side env t1 kt qr sas ids AwaitingConfirmation) =
       (Inr (), tgt_side env t1 kt qr sas ids Transferring)"
  by (simp add: confirm_target_sas_def side_defs)

lemma send_payload_side:
  "build_event env d (Payload ty p) (src_side env t0 ks secret relay peer sas ids Transferring) = Inr e \<Longrightarrow>
   t - t0 \<le> DEFAULT_TIMEOUT \<Longrightarrow>
     send_payload env t d ty p (src_side env t0 ks secret relay peer sas ids Transferring) =
       (Inr e, src_side env t0 ks secret relay peer sas ids PayloadExchanged)"
  by (simp add: send_payload_def side_defs)

lemma handle_payload_side:
  assumes "carries env ks kt (Payload ty p) e" and "ev_id e \<notin> ids" and "qr_source_pubkey qr = public_key env ks"
    and "t - t1 \<le> DEFAULT_TIMEOUT"
  shows "handle_payload env t e (tgt_side env t1 kt qr sas ids Transferring) =
    (Inr (ty, p), tgt_side env t1 kt qr sas (insert (ev_id e) ids) PayloadExchanged)"
proof -
  let ?s = "tgt_side env t1 kt qr sas ids Transferring"
  have "validate_event_from_peer env e ?s = Inr ()" "decrypt_message env e ?s = Inr (Payload ty p)"
    using carries_valid [OF assms(1), of ?s] assms(2,3) by (simp_all add: tgt_side_def)
  then show ?thesis using assms(4) by (simp add: handle_payload_def side_defs)
qed

lemma send_complete_side:
  "build_event env d (Complete True) (tgt_side env t1 kt qr sas ids PayloadExchanged) = Inr e \<Longrightarrow>
   t - t1 \<le> DEFAULT_TIMEOUT \<Longrightarrow>
     send_complete env t d (tgt_side env t1 kt qr sas ids PayloadExchanged) =
       (Inr e, tgt_side env t1 kt qr sas ids Completed)"
  by (simp add: send_complete_def side_defs)

lemma handle_complete_side:
  assumes "carries env kt ks (Complete True) e" and "ev_id e \<notin> ids" and "t - t0 \<le> DEFAULT_TIMEOUT"
  shows "handle_complete env t e
      (src_side env t0 ks secret relay (Some (public_key env kt)) sas ids PayloadExchanged) =
    (Inr (), src_side env t0 ks secret relay (Some (public_key env kt)) sas (insert (ev_id e) ids) Completed)"
proof -
  let ?s = "src_side env t0 ks secret relay (Some (public_key env kt)) sas ids PayloadExchanged"
  have "validate_event_from_peer env e ?s = Inr ()" "decrypt_message env e ?s = Inr (Complete True)"
    using carries_valid [OF assms(1), of ?s] assms(2) by (simp_all add: src_side_def)
  then show ?thesis using assms(3) by (simp add: handle_complete_def side_defs)
qed

definition exchange_laws :: "pairing_env \<Rightarrow> secret_key \<Rightarrow> secret_key \<Rightarrow> bool" where
  "exchange_laws env ks kt \<longleftrightarrow>
     channel_laws env ks kt \<and> channel_laws env kt ks \<and> ecdh_law env ks kt \<and>
     hex_laws env \<and> hkdf_law env \<and> id_law env \<and>
     (\<forall>t. length t = 64 \<longrightarrow> json_law env (Offer t 1) \<and> json_law env (SasConfirm t)) \<and>
     json_law env (Complete True)"

text \<open>The steps of an exchange with the secret \<open>p\<close>, the times of the calls and the draws of the events.\<close>

definition completes :: "pairing_env \<Rightarrow> secret_key \<Rightarrow> secret_key \<Rightarrow> bytes \<Rightarrow> string \<Rightarrow> instant \<Rightarrow> instant list
    \<Rightarrow> draw list \<Rightarrow> payload_type \<Rightarrow> string \<Rightarrow> bool" where
  "completes env ks kt secret relay t0 ts ds ty p \<longleftrightarrow>
     (\<exists>src0 qr tgt0 offer sas src1 confirm src2 tgt1 tgt2 msg src3 tgt3 fin tgt4 src4.
        new_source env t0 ks secret relay = (src0, qr) \<and>
        new_target env (ts ! 0) kt (ds ! 0) qr = Inr (tgt0, offer) \<and>
        handle_offer env (ts ! 1) offer src0 = (Inr sas, src1) \<and>
        confirm_sas env (ts ! 2) (ds ! 1) src1 = (Inr confirm, src2) \<and>
        handle_sas_confirm env (ts ! 3) confirm tgt0 = (Inr sas, tgt1) \<and>
        confirm_target_sas (ts ! 4) tgt1 = (Inr (), tgt2) \<and>
        send_payload env (ts ! 5) (ds ! 2) ty p src2 = (Inr msg, src3) \<and>
        handle_payload env (ts ! 6) msg tgt2 = (Inr (ty, p), tgt3) \<and>
        send_complete env (ts ! 7) (ds ! 3) tgt3 = (Inr fin, tgt4) \<and>
        handle_complete env (ts ! 8) fin src3 = (Inr (), src4) \<and>
        ps_state src4 = Completed \<and> ps_state tgt4 = Completed)"

lemma exchange_completes:
  assumes "exchange_laws env ks kt" and "json_law env (Payload ty p)"
    and late: "\<And>i. i < 9 \<Longrightarrow> ts ! i - t0 \<le> DEFAULT_TIMEOUT \<and> ts ! i - ts ! 0 \<le> DEFAULT_TIMEOUT"
  shows "completes env ks kt secret relay t0 ts ds ty p"
proof -
  let ?pk = "Some (public_key env kt)"
  let ?src = "src_side env t0 ks secret relay" and ?tgt = "tgt_side env (ts ! 0) kt"
  have l: "channel_laws env ks kt" "channel_laws env kt ks" "hex_laws env" "hkdf_law env" "id_law env"
    using assms(1) by (auto simp: exchange_laws_def)
  obtain k where k: "generate_shared_key env ks (public_key env kt) = Inr k"
      "generate_shared_key env kt (public_key env ks) = Inr k"
    using assms(1) by (auto simp: exchange_laws_def ecdh_law_def)
  define sas where "sas = derive_sas env k secret"
  define qr where "qr = \<lparr>qr_source_pubkey = public_key env ks, qr_session_secret = secret, qr_relays = [relay], qr_version = 1\<rparr>"
  have qr_simps: "qr_source_pubkey qr = public_key env ks" "qr_session_secret qr = secret" by (simp_all add: qr_def)
  have len: "length (hex_encode env (hkdf32 env a b c)) = 64" for a b c
    using l(3,4) by (simp add: hex_laws_def length_hkdf32)
  let ?offer = "Offer (hex_encode env (derive_session_id env secret)) 1"
  let ?conf = "SasConfirm (hex_encode env (exchange_transcript env ks kt (snd sas) secret))"
  have json: "json_law env ?offer" "json_law env ?conf" "json_law env (Complete True)"
    using assms(1) len by (auto simp: exchange_laws_def derive_session_id_def exchange_transcript_def
        derive_transcript_hash_def Let_def)
  obtain e1 where e1: "build_event env (ds ! 0) ?offer (?tgt qr sas {} Waiting) = Inr e1" "carries env kt ks ?offer e1"
    by (rule build_event_carries [OF l(2) json(1)]) (auto simp: tgt_side_def qr_simps)
  obtain e2 where e2: "build_event env (ds ! 1) ?conf (?src ?pk (Some sas) {ev_id e1} Confirming) = Inr e2"
      "carries env ks kt ?conf e2"
    by (rule build_event_carries [OF l(1) json(2)]) (auto simp: src_side_def)
  obtain e3 where e3: "build_event env (ds ! 2) (Payload ty p) (?src ?pk (Some sas) {ev_id e1} Transferring) = Inr e3"
      "carries env ks kt (Payload ty p) e3"
    by (rule build_event_carries [OF l(1) assms(2)]) (auto simp: src_side_def)
  obtain e4 where e4: "build_event env (ds ! 3) (Complete True) (?tgt qr sas {ev_id e3, ev_id e2} PayloadExchanged) = Inr e4"
      "carries env kt ks (Complete True) e4"
    by (rule build_event_carries [OF l(2) json(3)]) (auto simp: tgt_side_def qr_simps)
  have ids: "ev_id e3 \<notin> {ev_id e2}" "ev_id e4 \<notin> {ev_id e1}"
    using carries_distinct [OF l(5) e3(2) e2(2)] carries_distinct [OF l(5) e4(2) e1(2)] by auto
  note late = late [THEN conjunct1] late [THEN conjunct2]
  show ?thesis
    unfolding completes_def
  proof (intro exI conjI)
    show "new_source env t0 ks secret relay = (?src None None {} Waiting, qr)" by (simp add: new_source_side qr_def)
    show "new_target env (ts ! 0) kt (ds ! 0) qr = Inr (?tgt qr sas {} Confirming, e1)"
      by (rule new_target_side) (use k e1 in \<open>auto simp: qr_simps sas_def\<close>)
    show "handle_offer env (ts ! 1) e1 (?src None None {} Waiting) =
        (Inr (format_sas (fst sas)), ?src ?pk (Some sas) {ev_id e1} Confirming)"
      by (rule handle_offer_side [OF e1(2) l(4,3) k(1)]) (auto simp: sas_def late)
    show "confirm_sas env (ts ! 2) (ds ! 1) (?src ?pk (Some sas) {ev_id e1} Confirming) =
        (Inr e2, ?src ?pk (Some sas) {ev_id e1} Transferring)"
      by (rule confirm_sas_side [OF e2(1)]) (simp add: late)
    show "handle_sas_confirm env (ts ! 3) e2 (?tgt qr sas {} Confirming) =
        (Inr (format_sas (fst sas)), ?tgt qr sas {ev_id e2} AwaitingConfirmation)"
      by (rule handle_sas_confirm_side [OF _ l(4,3)]) (use e2 in \<open>auto simp: qr_simps late\<close>)
    show "confirm_target_sas (ts ! 4) (?tgt qr sas {ev_id e2} AwaitingConfirmation) =
        (Inr (), ?tgt qr sas {ev_id e2} Transferring)"
      by (rule confirm_target_sas_side) (simp add: late)
    show "send_payload env (ts ! 5) (ds ! 2) ty p (?src ?pk (Some sas) {ev_id e1} Transferring) =
        (Inr e3, ?src ?pk (Some sas) {ev_id e1} PayloadExchanged)"
      by (rule send_payload_side [OF e3(1)]) (simp add: late)
    show "handle_payload env (ts ! 6) e3 (?tgt qr sas {ev_id e2} Transferring) =
        (Inr (ty, p), ?tgt qr sas {ev_id e3, ev_id e2} PayloadExchanged)"
      by (rule handle_payload_side [OF e3(2) ids(1)]) (simp_all add: qr_simps late)
    show "send_complete env (ts ! 7) (ds ! 3) (?tgt qr sas {ev_id e3, ev_id e2} PayloadExchanged) =
        (Inr e4, ?tgt qr sas {ev_id e3, ev_id e2} Completed)"
      by (rule send_complete_side [OF e4(1)]) (simp add: late)
    show "handle_complete env (ts ! 8) e4 (?src ?pk (Some sas) {ev_id e1} PayloadExchanged) =
        (Inr (), ?src ?pk (Some sas) {ev_id e4, ev_id e1} Completed)"
      by (rule handle_complete_side [OF e4(2) ids(2)]) (simp add: late)
    show "ps_state (?src ?pk (Some sas) {ev_id e4, ev_id e1} Completed) = Completed"
        "ps_state (?tgt qr sas {ev_id e3, ev_id e2} Completed) = Completed"
      by (simp_all add: src_side_def tgt_side_def)
  qed
qed

text \<open>
  C30. Pairing works: when the libraries obey their laws, every call of the documented exchange
  between a source and a target that scanned its code succeeds if it happens within 120 seconds
  of the creation of both sessions; both users are shown the same code, the target receives
  exactly the secret that the source sent, and both sessions end completed.
\<close>

theorem pairing_completes:
  assumes "exchange_laws env ks kt" and "json_law env (Payload ty p)" and "length ts = 9"
    and "\<forall>t \<in> set ts. t - t0 \<le> DEFAULT_TIMEOUT \<and> t - ts ! 0 \<le> DEFAULT_TIMEOUT"
  shows "completes env ks kt secret relay t0 ts ds ty p"
  by (rule exchange_completes [OF assms(1,2)]) (use assms(3,4) in auto)

section \<open>A concrete environment\<close>

fun demo_to_json :: "pairing_message \<Rightarrow> string + string" where
  "demo_to_json (Offer t v) = Inr (CHR ''o'' # t)"
| "demo_to_json (SasConfirm t) = Inr (CHR ''s'' # t)"
| "demo_to_json (Payload ty p) = Inr (CHR ''p'' # p)"
| "demo_to_json (Complete b) = Inr ''c''"
| "demo_to_json (Abort r) = Inr ''a''"

definition demo_from_json :: "string \<Rightarrow> string + pairing_message" where
  "demo_from_json s =
     (case s of
        [] \<Rightarrow> Inl ''empty''
      | c # t \<Rightarrow>
          if c = CHR ''o'' then Inr (Offer t 1) else if c = CHR ''s'' then Inr (SasConfirm t)
          else if c = CHR ''p'' then Inr (Payload Nsec t) else if c = CHR ''c'' then Inr (Complete True)
          else Inr (Abort UserDenied))"

definition demo_pairing_env :: pairing_env where
  "demo_pairing_env =
     \<lparr>hkdf_extract = \<lambda>salt ikm. ikm, hkdf_expand = \<lambda>prk info n. replicate n 1,
      hex_encode = hex_text, hex_decode = unhex_text,
      utf8_percent_encode = \<lambda>s. ''r'', percent_decode_lossy = \<lambda>s. ''wss://r'',
      public_key_from_hex = Inr, to_bytes = byte_string,
      url_parse = \<lambda>u. Inr (''wss'', Some ''r''), public_key = id,
      generate_shared_key = \<lambda>a b. Inr [], message_to_json = demo_to_json,
      message_from_json = demo_from_json,
      nip44_encrypt = \<lambda>n a b t. Inr (replicate 132 CHR ''x'' @ t),
      nip44_decrypt = \<lambda>a b c. Inr (drop 132 c),
      sign_with_keys = \<lambda>k kind content tags ts. Inr \<lparr>ev_id = content, ev_pubkey = k, ev_created_at = ts,
        ev_kind = kind, ev_tags = tags, ev_content = content\<rparr>,
      verify = \<lambda>e. if ev_id e = ev_content e then Inr () else Inl ''bad id''\<rparr>"

lemma demo_hex:
  "unhex_text (hex_text bs) = Inr bs \<and> length (hex_text bs) = 2 * length bs \<and> list_all is_lowercase_hex (hex_text bs)"
proof -
  have "is_lowercase_hex = lower_hex" by (auto simp: is_lowercase_hex_def lower_hex_def fun_eq_iff)
  then show ?thesis using hex_text_laws by simp
qed

lemma demo_laws: "exchange_laws demo_pairing_env ks kt"
  using demo_hex
  by (auto simp: exchange_laws_def channel_laws_def ecdh_law_def hex_laws_def hkdf_law_def id_law_def
      json_law_def demo_pairing_env_def demo_from_json_def split: if_splits)

lemma demo_payload_law: "length p < 65535 \<Longrightarrow> json_law demo_pairing_env (Payload Nsec p)"
  by (simp add: json_law_def demo_pairing_env_def demo_from_json_def)

definition demo_draw :: draw where "demo_draw = \<lparr>dr_now = 100, dr_random = 5, dr_nonce = 0\<rparr>"

definition demo_qr :: qr_payload where
  "demo_qr = \<lparr>qr_source_pubkey = replicate 64 CHR ''a'', qr_session_secret = replicate 32 1,
     qr_relays = [''wss://r''], qr_version = 1\<rparr>"

lemma demo_qr_laws:
  "hex_laws demo_pairing_env" "\<forall>relay \<in> set (qr_relays demo_qr). percent_law demo_pairing_env relay"
  "payload_ok demo_pairing_env demo_qr" "pubkey_text demo_pairing_env (qr_source_pubkey demo_qr)"
  "length (encode_qr demo_pairing_env demo_qr) \<le> 2048"
proof -
  have "hex_encode demo_pairing_env = hex_text" by (simp add: demo_pairing_env_def)
  then show "hex_laws demo_pairing_env" "length (encode_qr demo_pairing_env demo_qr) \<le> 2048"
    using demo_hex by (simp_all add: hex_laws_def encode_qr_def demo_qr_def url_encode_def demo_pairing_env_def)
qed (auto simp: demo_qr_def percent_law_def payload_ok_def relay_ok_def pubkey_text_def demo_pairing_env_def
    is_ascii_alphanumeric_def is_lowercase_hex_def list_all_iff)

theorem qr_roundtrip_witness: "decode_qr demo_pairing_env (encode_qr demo_pairing_env demo_qr) = Inr demo_qr"
  by (rule qr_roundtrip [OF demo_qr_laws])

theorem decode_qr_sound_witness:
  "payload_ok demo_pairing_env demo_qr \<and> length (encode_qr demo_pairing_env demo_qr) \<le> 2048"
proof -
  have "decode_qr demo_pairing_env (encode_qr demo_pairing_env demo_qr) = Inr demo_qr"
    using decode_qr_uri_version [OF demo_qr_laws(1-4), of "''1''"] demo_qr_laws(5)
    by (simp add: encode_qr_version parse_u32_def parse_unsigned_def is_ascii_digit_def)
  from decode_qr_sound [OF this] show ?thesis by blast
qed

lemma demo_late: "\<forall>t \<in> set [2, 3, 4, 5, 6, 7, 8, 9, 10]. t - (0 :: nat) \<le> DEFAULT_TIMEOUT \<and>
    t - [2, 3, 4, 5, 6, 7, 8, 9, 10] ! 0 \<le> DEFAULT_TIMEOUT"
  by (simp add: DEFAULT_TIMEOUT_def)

theorem pairing_completes_witness:
  "completes demo_pairing_env ''s'' ''t'' [7] ''wss://r'' 0 [2, 3, 4, 5, 6, 7, 8, 9, 10] (replicate 4 demo_draw) Nsec ''nsec1''"
  by (rule pairing_completes [OF demo_laws demo_payload_law _ demo_late]) simp_all

lemma demo_exchange:
  obtains src0 qr tgt0 offer sas src1 confirm src2 tgt1 tgt2 msg src3 tgt3 fin tgt4 src4 where
    "new_source demo_pairing_env 0 ''s'' [7] ''wss://r'' = (src0, qr)"
    "new_target demo_pairing_env 2 ''t'' demo_draw qr = Inr (tgt0, offer)"
    "handle_offer demo_pairing_env 3 offer src0 = (Inr sas, src1)"
    "confirm_sas demo_pairing_env 4 demo_draw src1 = (Inr confirm, src2)"
    "handle_sas_confirm demo_pairing_env 5 confirm tgt0 = (Inr sas, tgt1)"
    "confirm_target_sas 6 tgt1 = (Inr (), tgt2)"
    "send_payload demo_pairing_env 7 demo_draw Nsec ''nsec1'' src2 = (Inr msg, src3)"
    "handle_payload demo_pairing_env 8 msg tgt2 = (Inr (Nsec, ''nsec1''), tgt3)"
    "send_complete demo_pairing_env 9 demo_draw tgt3 = (Inr fin, tgt4)"
    "handle_complete demo_pairing_env 10 fin src3 = (Inr (), src4)"
    "ps_state src4 = Completed"
proof -
  have "completes demo_pairing_env ''s'' ''t'' [7] ''wss://r'' 0 [2, 3, 4, 5, 6, 7, 8, 9, 10] (replicate 4 demo_draw) Nsec ''nsec1''"
    by (rule exchange_completes [OF demo_laws demo_payload_law])
      (auto simp: DEFAULT_TIMEOUT_def nth_Cons' split: if_splits)
  from this [unfolded completes_def, simplified] show thesis by (elim exE conjE) (rule that)
qed

theorem payload_needs_approval_witness:
  "\<exists>qr tgt0 offer h s e. new_target demo_pairing_env 2 ''t'' demo_draw qr = Inr (tgt0, offer) \<and> pairing_run demo_pairing_env tgt0 h s \<and>
     fst (handle_payload demo_pairing_env 8 e s) = Inr (Nsec, ''nsec1'') \<and> user_approved demo_pairing_env tgt0 h \<and>
     ev_pubkey e = qr_source_pubkey qr"
proof (rule demo_exchange)
  fix src0 qr tgt0 offer sas src1 confirm src2 tgt1 tgt2 msg src3 tgt3 fin tgt4 src4
  assume a: "new_target demo_pairing_env 2 ''t'' demo_draw qr = Inr (tgt0, offer)"
    and b: "handle_sas_confirm demo_pairing_env 5 confirm tgt0 = (Inr sas, tgt1)"
    and c: "confirm_target_sas 6 tgt1 = (Inr (), tgt2)"
    and d: "handle_payload demo_pairing_env 8 msg tgt2 = (Inr (Nsec, ''nsec1''), tgt3)"
  have "pairing_run demo_pairing_env tgt0 [(SasConfirmIn confirm, Inr (ShowSas sas))] tgt1"
    by (rule pairing_run.step [OF pairing_run.start, where now = 5]) (simp add: b)
  then have run: "pairing_run demo_pairing_env tgt0 [(ConfirmTargetSas, Inr Finished), (SasConfirmIn confirm, Inr (ShowSas sas))] tgt2"
    by (rule pairing_run.step [where now = 6]) (simp add: c)
  from payload_needs_approval [OF a run d] a run d show ?thesis by (metis fst_conv)
qed

theorem source_sends_after_confirmation_witness:
  "\<exists>h s e s'. pairing_run demo_pairing_env (fst (new_source demo_pairing_env 0 ''s'' [7] ''wss://r'')) h s \<and>
     send_payload demo_pairing_env 7 demo_draw Nsec ''nsec1'' s = (Inr e, s') \<and>
     source_confirmed demo_pairing_env (fst (new_source demo_pairing_env 0 ''s'' [7] ''wss://r'')) (ps_peer_pubkey s) h"
proof (rule demo_exchange)
  fix src0 qr tgt0 offer sas src1 confirm src2 tgt1 tgt2 msg src3 tgt3 fin tgt4 src4
  assume a: "new_source demo_pairing_env 0 ''s'' [7] ''wss://r'' = (src0, qr)"
    and b: "handle_offer demo_pairing_env 3 offer src0 = (Inr sas, src1)"
    and c: "confirm_sas demo_pairing_env 4 demo_draw src1 = (Inr confirm, src2)"
    and d: "send_payload demo_pairing_env 7 demo_draw Nsec ''nsec1'' src2 = (Inr msg, src3)"
  have "pairing_run demo_pairing_env (fst (new_source demo_pairing_env 0 ''s'' [7] ''wss://r'')) [(OfferIn offer, Inr (ShowSas sas))] src1"
    by (rule pairing_run.step [OF pairing_run.start, where now = 3]) (simp add: a b)
  then have run: "pairing_run demo_pairing_env (fst (new_source demo_pairing_env 0 ''s'' [7] ''wss://r''))
      [(ConfirmSas demo_draw, Inr (Send confirm)), (OfferIn offer, Inr (ShowSas sas))] src2"
    by (rule pairing_run.step [where now = 4]) (simp add: c)
  from source_sends_after_confirmation [OF run d] run d show ?thesis by blast
qed

lemma demo_source_run:
  obtains h s where "pairing_run demo_pairing_env (fst (new_source demo_pairing_env 0 ''s'' [7] ''wss://r'')) h s"
    and "ps_state s = Completed" and "successes h = 4"
proof (rule demo_exchange)
  fix src0 qr tgt0 offer sas src1 confirm src2 tgt1 tgt2 msg src3 tgt3 fin tgt4 src4
  assume a: "new_source demo_pairing_env 0 ''s'' [7] ''wss://r'' = (src0, qr)"
    and b: "handle_offer demo_pairing_env 3 offer src0 = (Inr sas, src1)"
    and c: "confirm_sas demo_pairing_env 4 demo_draw src1 = (Inr confirm, src2)"
    and d: "send_payload demo_pairing_env 7 demo_draw Nsec ''nsec1'' src2 = (Inr msg, src3)"
    and e: "handle_complete demo_pairing_env 10 fin src3 = (Inr (), src4)" and f: "ps_state src4 = Completed"
  let ?run = "pairing_run demo_pairing_env (fst (new_source demo_pairing_env 0 ''s'' [7] ''wss://r''))"
  have "?run [(OfferIn offer, Inr (ShowSas sas))] src1"
    by (rule pairing_run.step [OF pairing_run.start, where now = 3]) (simp add: a b)
  then have "?run [(ConfirmSas demo_draw, Inr (Send confirm)), (OfferIn offer, Inr (ShowSas sas))] src2"
    by (rule pairing_run.step [where now = 4]) (simp add: c)
  then have "?run [(SendPayload demo_draw Nsec ''nsec1'', Inr (Send msg)),
      (ConfirmSas demo_draw, Inr (Send confirm)), (OfferIn offer, Inr (ShowSas sas))] src3"
    by (rule pairing_run.step [where now = 7]) (simp add: d)
  then have run: "?run [(CompleteIn fin, Inr Finished), (SendPayload demo_draw Nsec ''nsec1'', Inr (Send msg)),
      (ConfirmSas demo_draw, Inr (Send confirm)), (OfferIn offer, Inr (ShowSas sas))] src4"
    by (rule pairing_run.step [where now = 10]) (simp add: e)
  show thesis by (rule that [OF run f]) (simp add: successes_def)
qed

lemma demo_started: "started demo_pairing_env (fst (new_source demo_pairing_env 0 ''s'' [7] ''wss://r''))"
  by (auto simp: started_def)

theorem pairing_terminates_witness:
  "\<exists>h s. pairing_run demo_pairing_env (fst (new_source demo_pairing_env 0 ''s'' [7] ''wss://r'')) h s \<and> successes h = 4 \<and>
     isl (fst (run_op demo_pairing_env 10 (AbortOut demo_draw UserDenied) s))"
proof (rule demo_source_run)
  fix h s
  assume r: "pairing_run demo_pairing_env (fst (new_source demo_pairing_env 0 ''s'' [7] ''wss://r'')) h s"
    and s: "ps_state s = Completed" "successes h = 4"
  have "terminal (ps_state s)" by (simp add: s terminal_def)
  with pairing_terminates [OF demo_started r, of 10 "AbortOut demo_draw UserDenied"] r s show ?thesis by blast
qed

theorem session_follows_protocol_witness:
  "ps_state (snd (run_op demo_pairing_env 1 (AbortOut demo_draw UserDenied) (fst (new_source demo_pairing_env 0 ''s'' [7] ''wss://r''))))
     = Aborted"
proof -
  let ?s = "fst (new_source demo_pairing_env 0 ''s'' [7] ''wss://r'')"
  obtain r s' where r: "run_op demo_pairing_env 1 (AbortOut demo_draw UserDenied) ?s = (r, s')" by fastforce
  then have "\<exists>out. r = Inr out"
    by (auto simp: abort_def new_source_def Let_def terminal_def)
  with session_follows_protocol [OF demo_started pairing_run.start r] r show ?thesis
    by (auto simp: new_source_fields terminal_def)
qed

end
