(* ===== verification/Audit_Log.thy ===== *)
theory Audit_Log
  imports Rust_Std "HOL-Library.Char_ord" "HOL-Library.List_Lexorder" "HOL-Library.Multiset" "HOL-Library.Sublist"
begin

text \<open>
  The audit log, crates/buzz-audit: the actions, the canonical JSON of an entry's details, the
  hash of an entry over its fields and the hash of its predecessor, and the service that appends
  to the chain of a community, verifies a range of it and lists entries.

  The table \<open>audit_log\<close> is the list of its rows, read and written by the statements of the
  service; its keys are (community, seq) and (community, hash). The advisory lock serializes the
  appends of one community, so an append is one step. Each database call may fail: \<open>fault n\<close> is
  the error of the \<open>n\<close>-th call of the function, and a transaction that fails leaves the table as
  it was. A time is the number of nanoseconds since the epoch.

  Outside the repository, and fields of \<open>audit_env\<close>: SHA-256, the bytes of a uuid, chrono's
  truncation and text of a time, serde's text of a scalar, and what PostgreSQL gives back for a
  stored \<open>TIMESTAMPTZ\<close> and \<open>JSONB\<close>.
\<close>

section \<open>Actions\<close>

datatype audit_action =
    EventCreated | EventDeleted | ChannelCreated | ChannelUpdated | ChannelDeleted
  | MemberAdded | MemberRemoved | AuthSuccess | AuthFailure | RateLimitExceeded | MediaUploaded

fun action_as_str :: "audit_action \<Rightarrow> string" where
  "action_as_str EventCreated = ''event_created''"
| "action_as_str EventDeleted = ''event_deleted''"
| "action_as_str ChannelCreated = ''channel_created''"
| "action_as_str ChannelUpdated = ''channel_updated''"
| "action_as_str ChannelDeleted = ''channel_deleted''"
| "action_as_str MemberAdded = ''member_added''"
| "action_as_str MemberRemoved = ''member_removed''"
| "action_as_str AuthSuccess = ''auth_success''"
| "action_as_str AuthFailure = ''auth_failure''"
| "action_as_str RateLimitExceeded = ''rate_limit_exceeded''"
| "action_as_str MediaUploaded = ''media_uploaded''"

definition ALL_ACTIONS :: "audit_action list" where
  "ALL_ACTIONS =
     [EventCreated, EventDeleted, ChannelCreated, ChannelUpdated, ChannelDeleted, MemberAdded,
      MemberRemoved, AuthSuccess, AuthFailure, RateLimitExceeded, MediaUploaded]"

definition action_from_str :: "string \<Rightarrow> audit_action option" where
  "action_from_str s = find (\<lambda>a. action_as_str a = s) ALL_ACTIONS"

lemma action_roundtrip [simp]: "action_from_str (action_as_str a) = Some a"
  by (cases a) (simp_all add: action_from_str_def ALL_ACTIONS_def)

lemma action_from_str_Some: "action_from_str s = Some a \<longleftrightarrow> s = action_as_str a"
proof
  assume "action_from_str s = Some a"
  then show "s = action_as_str a" by (auto simp: action_from_str_def find_Some_iff)
qed simp

section \<open>Data\<close>

text \<open>\<open>serde_json::Value\<close>; the members of an object have distinct names. A number is its text.\<close>

datatype json =
    JNull
  | JBool bool
  | JNumber string
  | JString string
  | JArray "json list"
  | JObject "(string \<times> json) list"

datatype audit_error =
    Database string
  | ChainViolation int
  | HashMismatch int
  | UnknownAction
  | Serialization string

record audit_entry =
  ae_community_id :: uuid
  ae_seq :: int
  ae_hash :: bytes
  ae_prev_hash :: "bytes option"
  ae_action :: audit_action
  ae_actor_pubkey :: "bytes option"
  ae_object_id :: "string option"
  ae_detail :: json
  ae_created_at :: int

record new_audit_entry =
  ne_community_id :: uuid
  ne_action :: audit_action
  ne_actor_pubkey :: "bytes option"
  ne_object_id :: "string option"
  ne_detail :: json

record audit_row =
  ar_community_id :: uuid
  ar_seq :: int
  ar_hash :: bytes
  ar_prev_hash :: "bytes option"
  ar_action :: string
  ar_actor_pubkey :: "bytes option"
  ar_object_id :: "string option"
  ar_detail :: json
  ar_created_at :: int

record audit_env =
  sha256 :: "bytes \<Rightarrow> bytes"
  uuid_bytes :: "uuid \<Rightarrow> bytes"
  trunc_subsecs6 :: "int \<Rightarrow> int"
  to_rfc3339 :: "int \<Rightarrow> string"
  json_to_string :: "json \<Rightarrow> string + string"
  timestamptz :: "int \<Rightarrow> int"
  jsonb :: "json \<Rightarrow> json"

section \<open>Canonical JSON\<close>

text \<open>The members of an object, sorted by name, with the texts of their values.\<close>

fun join_members :: "audit_env \<Rightarrow> bool \<Rightarrow> (string \<times> (string + string)) list \<Rightarrow> string + string" where
  "join_members env first [] = Inr ''}''"
| "join_members env first ((k, v) # ms) =
     and_then (json_to_string env (JString k)) (\<lambda>key.
     and_then v (\<lambda>val.
     and_then (join_members env False ms) (\<lambda>rest.
     Inr ((if first then [] else '','') @ key @ '':'' @ val @ rest))))"

fun join_elements :: "bool \<Rightarrow> (string + string) list \<Rightarrow> string + string" where
  "join_elements first [] = Inr '']''"
| "join_elements first (v # vs) =
     and_then v (\<lambda>val.
     and_then (join_elements False vs) (\<lambda>rest.
     Inr ((if first then [] else '','') @ val @ rest)))"

fun canonical_json :: "audit_env \<Rightarrow> json \<Rightarrow> string + string" where
  "canonical_json env (JObject ms) =
     and_then (join_members env True (sort_key fst (map (\<lambda>(k, v). (k, canonical_json env v)) ms)))
       (\<lambda>t. Inr (CHR ''{'' # t))"
| "canonical_json env (JArray vs) =
     and_then (join_elements True (map (canonical_json env) vs)) (\<lambda>t. Inr (CHR ''['' # t))"
| "canonical_json env v = json_to_string env v"

section \<open>The hash of an entry\<close>

definition GENESIS_HASH :: bytes where "GENESIS_HASH = replicate 32 0"

definition to_storage_precision :: "audit_env \<Rightarrow> int \<Rightarrow> int" where
  "to_storage_precision env created_at = trunc_subsecs6 env created_at"

text \<open>\<open>i64::to_be_bytes\<close>.\<close>

definition to_be_bytes :: "int \<Rightarrow> bytes" where
  "to_be_bytes n = map (\<lambda>i. ucast (drop_bit (8 * i) (word_of_int n :: u64))) [7, 6, 5, 4, 3, 2, 1, 0]"

text \<open>A field that may be absent, with its presence tag.\<close>

definition tagged :: "bytes option \<Rightarrow> bytes" where
  "tagged f = (case f of Some b \<Rightarrow> 1 # b | None \<Rightarrow> [0])"

text \<open>The bytes that \<open>compute_hash\<close> feeds to the hasher, in order.\<close>

definition hash_preimage :: "audit_env \<Rightarrow> audit_entry \<Rightarrow> audit_error + bytes" where
  "hash_preimage env entry =
     and_then (map_err Serialization (canonical_json env (ae_detail entry))) (\<lambda>detail.
     Inr (uuid_bytes env (ae_community_id entry)
        @ to_be_bytes (ae_seq entry)
        @ byte_string (to_rfc3339 env (to_storage_precision env (ae_created_at entry)))
        @ byte_string (action_as_str (ae_action entry))
        @ tagged (ae_actor_pubkey entry)
        @ tagged (map_option byte_string (ae_object_id entry))
        @ byte_string detail
        @ (case ae_prev_hash entry of Some h \<Rightarrow> h | None \<Rightarrow> GENESIS_HASH)))"

definition compute_hash :: "audit_env \<Rightarrow> audit_entry \<Rightarrow> audit_error + bytes" where
  "compute_hash env entry = and_then (hash_preimage env entry) (\<lambda>b. Inr (sha256 env b))"

section \<open>The service\<close>

definition row_to_audit_entry :: "audit_row \<Rightarrow> audit_error + audit_entry" where
  "row_to_audit_entry row =
     and_then (ok_or (action_from_str (ar_action row)) UnknownAction) (\<lambda>action.
     Inr \<lparr>ae_community_id = ar_community_id row, ae_seq = ar_seq row, ae_hash = ar_hash row,
          ae_prev_hash = ar_prev_hash row, ae_action = action, ae_actor_pubkey = ar_actor_pubkey row,
          ae_object_id = ar_object_id row, ae_detail = ar_detail row, ae_created_at = ar_created_at row\<rparr>)"

text \<open>The bound values of the insertion, as the columns give them back.\<close>

definition stored_row :: "audit_env \<Rightarrow> audit_entry \<Rightarrow> audit_row" where
  "stored_row env entry =
     \<lparr>ar_community_id = ae_community_id entry, ar_seq = ae_seq entry, ar_hash = ae_hash entry,
      ar_prev_hash = ae_prev_hash entry, ar_action = action_as_str (ae_action entry),
      ar_actor_pubkey = ae_actor_pubkey entry, ar_object_id = ae_object_id entry,
      ar_detail = jsonb env (ae_detail entry), ar_created_at = timestamptz env (ae_created_at entry)\<rparr>"

text \<open>\<open>WHERE community_id = $1 ORDER BY seq DESC LIMIT 1\<close>.\<close>

definition chain_head :: "uuid \<Rightarrow> audit_row list \<Rightarrow> audit_row option" where
  "chain_head c rows =
     (case rev (sort_key ar_seq (filter (\<lambda>r. ar_community_id r = c) rows)) of
        [] \<Rightarrow> None
      | r # _ \<Rightarrow> Some r)"

definition log_timestamp :: "audit_env \<Rightarrow> int \<Rightarrow> int" where
  "log_timestamp env now = to_storage_precision env now"

definition next_entry :: "audit_env \<Rightarrow> int \<Rightarrow> audit_row option \<Rightarrow> new_audit_entry \<Rightarrow> audit_entry" where
  "next_entry env now head entry =
     (let (prev_seq, prev_hash) = (case head of Some row \<Rightarrow> (ar_seq row, Some (ar_hash row)) | None \<Rightarrow> (0, None))
      in \<lparr>ae_community_id = ne_community_id entry, ae_seq = prev_seq + 1, ae_hash = [],
          ae_prev_hash = prev_hash, ae_action = ne_action entry, ae_actor_pubkey = ne_actor_pubkey entry,
          ae_object_id = ne_object_id entry, ae_detail = ne_detail entry,
          ae_created_at = log_timestamp env now\<rparr>)"

definition unique_violation :: "audit_row list \<Rightarrow> audit_row \<Rightarrow> bool" where
  "unique_violation rows row =
     list_ex (\<lambda>r. ar_community_id r = ar_community_id row \<and> (ar_seq r = ar_seq row \<or> ar_hash r = ar_hash row)) rows"

definition call :: "(nat \<Rightarrow> string option) \<Rightarrow> nat \<Rightarrow> audit_error + unit" where
  "call fault n = (case fault n of None \<Rightarrow> Inr () | Some e \<Rightarrow> Inl (Database e))"

definition log_inner ::
  "audit_env \<Rightarrow> (nat \<Rightarrow> string option) \<Rightarrow> int \<Rightarrow> new_audit_entry \<Rightarrow> audit_row list
   \<Rightarrow> (audit_error + audit_entry) \<times> audit_row list" where
  "log_inner env fault now entry rows =
     or_return (call fault 2) rows (\<lambda>_.
     or_return (call fault 3) rows (\<lambda>_.
     let e0 = next_entry env now (chain_head (ne_community_id entry) rows) entry in
     or_return (compute_hash env e0) rows (\<lambda>h.
     let e = e0\<lparr>ae_hash := h\<rparr>; row = stored_row env e in
     or_return (call fault 4) rows (\<lambda>_.
     or_return (check (\<not> unique_violation rows row) (Database ''unique violation'')) rows (\<lambda>_.
     or_return (call fault 5) rows (\<lambda>_.
     (Inr e, rows @ [row])))))))"

text \<open>\<open>AuditService::log\<close>: acquire a connection, take the lock, append, release the lock.\<close>

definition audit_log ::
  "audit_env \<Rightarrow> (nat \<Rightarrow> string option) \<Rightarrow> int \<Rightarrow> new_audit_entry \<Rightarrow> audit_row list
   \<Rightarrow> (audit_error + audit_entry) \<times> audit_row list" where
  "audit_log env fault now entry rows =
     or_return (call fault 0) rows (\<lambda>_.
     or_return (call fault 1) rows (\<lambda>_.
     log_inner env fault now entry rows))"

fun verify_rows :: "audit_env \<Rightarrow> bytes option \<Rightarrow> audit_row list \<Rightarrow> audit_error + bool" where
  "verify_rows env expected_prev [] = Inr True"
| "verify_rows env expected_prev (row # rows) =
     and_then (row_to_audit_entry row) (\<lambda>entry.
     and_then (check (expected_prev = None \<or> ae_prev_hash entry = expected_prev)
       (ChainViolation (ae_seq entry))) (\<lambda>_.
     and_then (compute_hash env entry) (\<lambda>computed.
     and_then (check (computed = ae_hash entry) (HashMismatch (ae_seq entry))) (\<lambda>_.
     verify_rows env (Some (ae_hash entry)) rows))))"

definition chain_range :: "uuid \<Rightarrow> int \<Rightarrow> int \<Rightarrow> audit_row list \<Rightarrow> audit_row list" where
  "chain_range c from_seq to_seq rows =
     sort_key ar_seq (filter (\<lambda>r. ar_community_id r = c \<and> from_seq \<le> ar_seq r \<and> ar_seq r \<le> to_seq) rows)"

definition verify_chain ::
  "audit_env \<Rightarrow> (nat \<Rightarrow> string option) \<Rightarrow> uuid \<Rightarrow> int \<Rightarrow> int \<Rightarrow> audit_row list \<Rightarrow> audit_error + bool" where
  "verify_chain env fault c from_seq to_seq rows =
     and_then (call fault 0) (\<lambda>_.
     let rows = chain_range c from_seq to_seq rows in
     if rows = [] then Inr False else verify_rows env None rows)"

fun collect_entries :: "audit_row list \<Rightarrow> audit_error + audit_entry list" where
  "collect_entries [] = Inr []"
| "collect_entries (r # rs) =
     and_then (row_to_audit_entry r) (\<lambda>e. and_then (collect_entries rs) (\<lambda>es. Inr (e # es)))"

definition get_entries ::
  "(nat \<Rightarrow> string option) \<Rightarrow> uuid \<Rightarrow> int \<Rightarrow> int \<Rightarrow> audit_row list \<Rightarrow> audit_error + audit_entry list" where
  "get_entries fault c from_seq limit rows =
     and_then (call fault 0) (\<lambda>_.
     and_then (check (0 \<le> limit) (Database ''LIMIT must not be negative'')) (\<lambda>_.
     collect_entries (take (nat limit)
       (sort_key ar_seq (filter (\<lambda>r. ar_community_id r = c \<and> from_seq \<le> ar_seq r) rows)))))"

section \<open>Key order does not matter\<close>

text \<open>Two values that differ only in the order of object members, at any depth.\<close>

inductive same_json :: "json \<Rightarrow> json \<Rightarrow> bool" where
  refl: "same_json v v"
| array: "list_all2 same_json vs ws \<Longrightarrow> same_json (JArray vs) (JArray ws)"
| object: "distinct (map fst ms) \<Longrightarrow>
    list_all2 (\<lambda>m n. fst m = fst n \<and> same_json (snd m) (snd n)) ms ns \<Longrightarrow> mset ns = mset ns' \<Longrightarrow>
    same_json (JObject ms) (JObject ns')"

lemma canonical_json_order: "same_json v w \<Longrightarrow> canonical_json env v = canonical_json env w"
proof (induction rule: same_json.induct)
  case (array vs ws)
  then have "map (canonical_json env) vs = map (canonical_json env) ws"
    by (induction rule: list_all2_induct) auto
  then show ?case by simp
next
  case (object ms ns ns')
  let ?t = "\<lambda>ms. map (\<lambda>(k, v). (k, canonical_json env v)) ms"
  have eq: "?t ms = ?t ns" and keys: "map fst ms = map fst ns"
    using object.IH by (induction rule: list_all2_induct) (auto simp: case_prod_beta)
  have "mset (?t ns) = mset (sort_key fst (?t ns'))" using object.hyps by simp
  moreover have "distinct (map fst (?t ns))"
    using object.hyps keys by (simp add: case_prod_beta comp_def)
  ultimately have "sort_key fst (?t ns) = sort_key fst (?t ns')"
    by (intro sort_key_inj_key_eq) (auto simp: distinct_map intro: inj_on_imageI simp del: mset_map)
  with eq show ?case by simp
qed simp

section \<open>Appending\<close>

definition of_community :: "uuid \<Rightarrow> audit_row list \<Rightarrow> audit_row list" where
  "of_community c rows = filter (\<lambda>r. ar_community_id r = c) rows"

text \<open>The columns of a community as the appends leave them: numbered from one, in order.\<close>

definition numbered :: "audit_row list \<Rightarrow> bool" where
  "numbered rs \<longleftrightarrow> map ar_seq rs = map int [1..<length rs + 1]"

lemma numbered_Nil [simp]: "numbered []"
  by (simp add: numbered_def)

lemma numbered_snoc: "numbered (rs @ [r]) \<longleftrightarrow> numbered rs \<and> ar_seq r = int (length rs) + 1"
  by (auto simp: numbered_def)

lemma numbered_sorted: "numbered rs \<Longrightarrow> sorted (map ar_seq rs) \<and> distinct (map ar_seq rs)"
  unfolding numbered_def by (simp add: sorted_wrt_map distinct_map inj_on_def del: upt_Suc)

lemma numbered_last: "numbered rs \<Longrightarrow> rs \<noteq> [] \<Longrightarrow> ar_seq (last rs) = int (length rs)"
  by (cases rs rule: rev_cases) (auto simp: numbered_snoc)

lemma chain_head_numbered:
  assumes "numbered (of_community c rows)"
  shows "chain_head c rows = (if of_community c rows = [] then None else Some (last (of_community c rows)))"
proof -
  let ?cs = "of_community c rows"
  have "sort_key ar_seq ?cs = ?cs"
    using numbered_sorted [OF assms] by (simp add: sort_key_id_if_sorted)
  then show ?thesis
    by (cases ?cs rule: rev_cases) (simp_all add: chain_head_def of_community_def [symmetric])
qed

text \<open>What a successful append does, and that a failed one does nothing.\<close>

lemma audit_log_cases:
  assumes "audit_log env fault now entry rows = (r, rows')"
  obtains (fails) err where "r = Inl err" "rows' = rows"
  | (appends) e where "r = Inr e" "rows' = rows @ [stored_row env e]"
      "e = (next_entry env now (chain_head (ne_community_id entry) rows) entry)\<lparr>ae_hash := ae_hash e\<rparr>"
      "compute_hash env e = Inr (ae_hash e)" "\<not> unique_violation rows (stored_row env e)"
proof -
  let ?e0 = "next_entry env now (chain_head (ne_community_id entry) rows) entry"
  have h: "compute_hash env (?e0\<lparr>ae_hash := h\<rparr>) = compute_hash env ?e0" for h
    by (simp add: compute_hash_def hash_preimage_def)
  show thesis
  proof (cases r)
    case (Inl err)
    with assms have "rows' = rows"
      by (auto simp: audit_log_def log_inner_def or_return_def Let_def split: sum.splits)
    with Inl show thesis by (rule fails)
  next
    case (Inr e)
    with assms obtain h where "compute_hash env ?e0 = Inr h" "e = ?e0\<lparr>ae_hash := h\<rparr>"
        "rows' = rows @ [stored_row env e]" "\<not> unique_violation rows (stored_row env e)"
      by (auto simp: audit_log_def log_inner_def or_return_def Let_def split: sum.splits)
    then show thesis using Inr h [of h] by (intro appends) auto
  qed
qed

section \<open>Verification\<close>

definition row_ok :: "audit_env \<Rightarrow> bytes option \<Rightarrow> audit_row \<Rightarrow> bool" where
  "row_ok env p row \<longleftrightarrow>
     (p = None \<or> ar_prev_hash row = p) \<and>
     (\<exists>e. row_to_audit_entry row = Inr e \<and> compute_hash env e = Inr (ar_hash row))"

lemma verify_rows_Cons [simp]:
  "verify_rows env p (r # rs) = Inr True \<longleftrightarrow> row_ok env p r \<and> verify_rows env (Some (ar_hash r)) rs = Inr True"
  by (auto simp: row_ok_def row_to_audit_entry_def and_then_Inr)

declare verify_rows.simps(2) [simp del]

lemma row_ok_None: "row_ok env p r \<Longrightarrow> row_ok env None r"
  by (simp add: row_ok_def)

lemma verify_rows_append:
  "verify_rows env p (xs @ ys) = Inr True \<longleftrightarrow>
     verify_rows env p xs = Inr True \<and>
     verify_rows env (if xs = [] then p else Some (ar_hash (last xs))) ys = Inr True"
  by (induction xs arbitrary: p) simp_all

lemma verify_rows_None: "verify_rows env p rs = Inr True \<Longrightarrow> verify_rows env None rs = Inr True"
  by (cases rs) (auto intro: row_ok_None)

lemma verify_rows_sub:
  "verify_rows env p (xs @ ys @ zs) = Inr True \<Longrightarrow> verify_rows env None ys = Inr True"
  by (auto simp: verify_rows_append dest: verify_rows_None)

text \<open>A range of a numbered chain is a contiguous part of it.\<close>

lemma sorted_filter_drop: "sorted (map f xs) \<Longrightarrow> filter (\<lambda>x. a \<le> f x) xs = dropWhile (\<lambda>x. \<not> a \<le> f x) xs"
  for f :: "'a \<Rightarrow> int"
  by (induction xs) (auto simp: dropWhile_eq_self_iff dest: hd_in_set order_trans)

lemma sorted_filter_take: "sorted (map f xs) \<Longrightarrow> filter (\<lambda>x. f x \<le> b) xs = takeWhile (\<lambda>x. f x \<le> b) xs"
  for f :: "'a \<Rightarrow> int"
  by (induction xs) (auto simp: takeWhile_eq_Nil_iff dest: hd_in_set order_trans)

lemma sorted_range_contiguous:
  fixes f :: "'a \<Rightarrow> int"
  assumes "sorted (map f xs)"
  obtains us vs where "xs = us @ filter (\<lambda>x. a \<le> f x \<and> f x \<le> b) xs @ vs"
proof -
  let ?d = "dropWhile (\<lambda>x. \<not> a \<le> f x) xs"
  have "sorted (map f (filter (\<lambda>x. a \<le> f x) xs))" using assms by (rule sorted_filter)
  then have d: "sorted (map f ?d)" unfolding sorted_filter_drop [OF assms] .
  have "filter (\<lambda>x. a \<le> f x \<and> f x \<le> b) xs = filter (\<lambda>x. f x \<le> b) (filter (\<lambda>x. a \<le> f x) xs)"
    by (simp add: conj_commute)
  also have "\<dots> = takeWhile (\<lambda>x. f x \<le> b) ?d"
    unfolding sorted_filter_drop [OF assms] by (rule sorted_filter_take [OF d])
  finally show thesis
    using that [of "takeWhile (\<lambda>x. \<not> a \<le> f x) xs" "dropWhile (\<lambda>x. f x \<le> b) ?d"]
    by (simp add: takeWhile_dropWhile_id)
qed

section \<open>The chains of a log\<close>

text \<open>What PostgreSQL must give back of a stored entry.\<close>

definition time_law :: "audit_env \<Rightarrow> bool" where
  "time_law env \<longleftrightarrow> (\<forall>t. timestamptz env (trunc_subsecs6 env t) = trunc_subsecs6 env t)"

definition detail_law :: "audit_env \<Rightarrow> json \<Rightarrow> bool" where
  "detail_law env d \<longleftrightarrow> canonical_json env (jsonb env d) = canonical_json env d"

text \<open>
  The tables that appends can produce, successful or not, in any order of communities, with the details that
  the appends were given.
\<close>

inductive audit_reachable :: "audit_env \<Rightarrow> json list \<Rightarrow> audit_row list \<Rightarrow> bool" for env where
  empty: "audit_reachable env [] []"
| log: "audit_reachable env ds rows \<Longrightarrow> audit_log env fault now entry rows = (r, rows') \<Longrightarrow>
    audit_reachable env (ne_detail entry # ds) rows'"

definition chains_ok :: "audit_env \<Rightarrow> audit_row list \<Rightarrow> bool" where
  "chains_ok env rows \<longleftrightarrow>
     (\<forall>c. numbered (of_community c rows) \<and> verify_rows env None (of_community c rows) = Inr True)"

lemma stored_row_ok:
  assumes "time_law env" and "detail_law env (ae_detail e)" and "ae_created_at e = log_timestamp env now"
    and "compute_hash env e = Inr (ae_hash e)" and "p = None \<or> ae_prev_hash e = p"
  shows "row_ok env p (stored_row env e)"
proof -
  let ?e = "e\<lparr>ae_detail := jsonb env (ae_detail e), ae_created_at := timestamptz env (ae_created_at e)\<rparr>"
  have "row_to_audit_entry (stored_row env e) = Inr ?e"
    by (simp add: row_to_audit_entry_def stored_row_def)
  moreover have "compute_hash env ?e = Inr (ae_hash e)"
    using assms(1-4) by (simp add: compute_hash_def hash_preimage_def detail_law_def time_law_def
        log_timestamp_def to_storage_precision_def)
  ultimately show ?thesis using assms(5) by (auto simp: row_ok_def stored_row_def)
qed

lemma chains_ok_log:
  assumes "chains_ok env rows" and "time_law env" and "detail_law env (ne_detail entry)"
    and "audit_log env fault now entry rows = (r, rows')"
  shows "chains_ok env rows'"
  using assms(4)
proof (cases rule: audit_log_cases)
  case (appends e)
  let ?c = "ne_community_id entry"
  let ?cs = "of_community ?c rows" and ?row = "stored_row env e"
  have cs: "numbered ?cs" "verify_rows env None ?cs = Inr True" using assms(1) by (auto simp: chains_ok_def)
  note head = chain_head_numbered [OF cs(1)]
  have e: "ae_community_id e = ?c" "ae_detail e = ne_detail entry" "ae_created_at e = log_timestamp env now"
      "ae_seq e = int (length ?cs) + 1"
      "ae_prev_hash e = (if ?cs = [] then None else Some (ar_hash (last ?cs)))"
    using numbered_last [OF cs(1)]
    by (subst appends(3), simp add: next_entry_def head split: if_splits)+
  have "row_ok env (if ?cs = [] then None else Some (ar_hash (last ?cs))) ?row"
    by (rule stored_row_ok [OF assms(2)]) (use e appends(4) assms(3) in auto)
  then have "verify_rows env None (?cs @ [?row]) = Inr True"
    using cs(2) by (auto simp: verify_rows_append)
  moreover have "numbered (?cs @ [?row])"
    using cs(1) e by (simp add: numbered_snoc stored_row_def)
  moreover have "of_community c rows' = (if c = ?c then ?cs @ [?row] else of_community c rows)" for c
    using e(1) appends(2) by (auto simp: of_community_def stored_row_def)
  ultimately show ?thesis using assms(1) by (auto simp: chains_ok_def)
qed (use assms(1) in simp)

lemma chains_ok_reachable:
  "audit_reachable env ds rows \<Longrightarrow> time_law env \<Longrightarrow> list_all (detail_law env) ds \<Longrightarrow> chains_ok env rows"
proof (induction rule: audit_reachable.induct)
  case empty
  then show ?case by (simp add: chains_ok_def of_community_def)
next
  case (log ds rows fault now entry r rows')
  then show ?case using chains_ok_log [of env rows entry fault now r rows'] by simp
qed

lemma chain_range_community:
  "chain_range c a b rows = sort_key ar_seq (filter (\<lambda>r. a \<le> ar_seq r \<and> ar_seq r \<le> b) (of_community c rows))"
  by (simp add: chain_range_def of_community_def conj_commute)

lemma chain_range_contiguous:
  assumes "numbered (of_community c rows)"
  obtains us vs where "of_community c rows = us @ chain_range c a b rows @ vs"
proof -
  let ?cs = "of_community c rows"
  have s: "sorted (map ar_seq ?cs)" using numbered_sorted [OF assms] by simp
  have "chain_range c a b rows = filter (\<lambda>r. a \<le> ar_seq r \<and> ar_seq r \<le> b) ?cs"
    unfolding chain_range_community by (rule sort_key_id_if_sorted) (rule sorted_filter [OF s])
  with sorted_range_contiguous [OF s, of a b] that show thesis by metis
qed

text \<open>
  C34. What \<open>log\<close> does, on every branch: it fails and leaves the table as it was, or it appends
  exactly one row, for its own community, whose number is one more than the last of the
  community, whose \<open>prev_hash\<close> is the hash of that last row (none for the first), whose hash is
  the hash of the entry, and whose other fields are those of the request.
\<close>

theorem audit_log_appends:
  assumes "chains_ok env rows" and "audit_log env fault now entry rows = (r, rows')"
  shows "case r of
      Inl err \<Rightarrow> rows' = rows
    | Inr e \<Rightarrow>
        rows' = rows @ [stored_row env e] \<and> compute_hash env e = Inr (ae_hash e) \<and>
        ae_community_id e = ne_community_id entry \<and>
        ae_seq e = int (length (of_community (ne_community_id entry) rows)) + 1 \<and>
        ae_prev_hash e = (if of_community (ne_community_id entry) rows = [] then None
          else Some (ar_hash (last (of_community (ne_community_id entry) rows)))) \<and>
        ae_action e = ne_action entry \<and> ae_actor_pubkey e = ne_actor_pubkey entry \<and>
        ae_object_id e = ne_object_id entry \<and> ae_detail e = ne_detail entry"
  using assms(2)
proof (cases rule: audit_log_cases)
  case (appends e)
  have n: "numbered (of_community (ne_community_id entry) rows)" using assms(1) by (simp add: chains_ok_def)
  note head = chain_head_numbered [OF n]
  have "ae_community_id e = ne_community_id entry"
      "ae_seq e = int (length (of_community (ne_community_id entry) rows)) + 1"
      "ae_prev_hash e = (if of_community (ne_community_id entry) rows = [] then None
        else Some (ar_hash (last (of_community (ne_community_id entry) rows))))"
      "ae_action e = ne_action entry" "ae_actor_pubkey e = ne_actor_pubkey entry"
      "ae_object_id e = ne_object_id entry" "ae_detail e = ne_detail entry"
    using numbered_last [OF n] by (subst appends(3), simp add: next_entry_def head split: if_splits)+
  then show ?thesis unfolding appends(1,2) using appends(4) by simp
qed simp

text \<open>
  C29. The log verifies when its details survive their column: in any table that appends produce, whatever their order,
  their communities and their failures, if every detail given to an append has the same canonical text after
  \<open>JSONB\<close> gave it back and a \<open>TIMESTAMPTZ\<close> gives back microseconds, then the rows of each community are
  numbered 1 to \<open>n\<close>, and the verification of any range succeeds, with the result that tells whether the range has a row.
\<close>

theorem audit_chain_verifies:
  assumes "audit_reachable env ds rows" and "time_law env" and "list_all (detail_law env) ds" and "fault 0 = None"
  shows "numbered (of_community c rows) \<and>
    verify_chain env fault c a b rows =
      Inr (\<exists>r \<in> set rows. ar_community_id r = c \<and> a \<le> ar_seq r \<and> ar_seq r \<le> b)"
proof
  have ok: "numbered (of_community c rows)" "verify_rows env None (of_community c rows) = Inr True"
    using chains_ok_reachable [OF assms(1-3)] by (auto simp: chains_ok_def)
  show "numbered (of_community c rows)" by (rule ok)
  obtain us vs where "of_community c rows = us @ chain_range c a b rows @ vs"
    using chain_range_contiguous [OF ok(1)] .
  with ok(2) have "verify_rows env None (chain_range c a b rows) = Inr True"
    using verify_rows_sub by metis
  moreover have "set (chain_range c a b rows) = {r \<in> set rows. ar_community_id r = c \<and> a \<le> ar_seq r \<and> ar_seq r \<le> b}"
    by (auto simp: chain_range_def)
  ultimately show "verify_chain env fault c a b rows =
      Inr (\<exists>r \<in> set rows. ar_community_id r = c \<and> a \<le> ar_seq r \<and> ar_seq r \<le> b)"
    using assms(4) by (auto simp: verify_chain_def call_def simp flip: set_empty)
qed

text \<open>The bytes a stored row hashes.\<close>

definition row_preimage :: "audit_env \<Rightarrow> audit_row \<Rightarrow> bytes option" where
  "row_preimage env row =
     (case and_then (row_to_audit_entry row) (hash_preimage env) of Inr b \<Rightarrow> Some b | Inl _ \<Rightarrow> None)"

lemma byte_string_inject: "byte_string s = byte_string t \<longleftrightarrow> s = t"
proof -
  have "unat (of_char c :: u8) = of_char c" for c
  proof -
    have "unat (of_nat (of_char c) :: u8) = of_char c mod 2 ^ 8" by (simp only: unat_of_nat) simp
    moreover have "(of_nat (of_char c) :: u8) = of_char c" by (cases c) (simp add: of_char_def)
    ultimately show ?thesis by simp
  qed
  then have "(of_char c :: u8) = of_char d \<longleftrightarrow> c = d" for c d by (metis of_char_eq_iff)
  then have "inj (of_char :: char \<Rightarrow> u8)" by (auto intro: injI)
  then show ?thesis by (simp add: byte_string_def inj_map_eq_map)
qed

text \<open>
  The detail, unlike the time, is hashed as it is given and not as the column gives it back: an entry whose
  detail changes its canonical text is appended, and its own verification then fails.
\<close>

lemma changed_detail_breaks_chain:
  assumes "audit_log env fault now entry rows = (Inr e, rows')" and "time_law env" and "numbered (of_community (ne_community_id entry) rows)"
    and "canonical_json env (ne_detail entry) = Inr t" and "canonical_json env (jsonb env (ne_detail entry)) = Inr t'" and "t' \<noteq> t"
    and distinct: "\<And>p q. hash_preimage env e = Inr p \<Longrightarrow> row_preimage env (stored_row env e) = Some q \<Longrightarrow> p \<noteq> q \<Longrightarrow> sha256 env p \<noteq> sha256 env q"
    and "fault' 0 = None"
  shows "verify_chain env fault' (ne_community_id entry) (ae_seq e) (ae_seq e) rows' = Inl (HashMismatch (ae_seq e))"
  using assms(1)
proof (cases rule: audit_log_cases)
  case (appends e')
  let ?c = "ne_community_id entry" and ?row = "stored_row env e"
  let ?e = "e\<lparr>ae_detail := jsonb env (ae_detail e), ae_created_at := timestamptz env (ae_created_at e)\<rparr>"
  have e': "e' = e" using appends(1) by simp
  note head = chain_head_numbered [OF assms(3)]
  have e: "ae_community_id e = ?c" "ae_detail e = ne_detail entry" "ae_created_at e = log_timestamp env now"
      "ae_seq e = int (length (of_community ?c rows)) + 1"
    using numbered_last [OF assms(3)]
    by (subst appends(3) [unfolded e'], simp add: next_entry_def head split: if_splits)+
  have none: "filter (\<lambda>r. ar_community_id r = ?c \<and> ae_seq e \<le> ar_seq r \<and> ar_seq r \<le> ae_seq e) rows = []"
  proof -
    have "ar_seq r \<le> int (length (of_community ?c rows))" if "r \<in> set rows" "ar_community_id r = ?c" for r
    proof -
      have "ar_seq r \<in> set (map ar_seq (of_community ?c rows))" using that by (simp add: of_community_def)
      then have "ar_seq r \<in> int ` set [1..<length (of_community ?c rows) + 1]"
        using assms(3) unfolding numbered_def by (metis set_map)
      then show ?thesis by auto
    qed
    then show ?thesis using e(4) by (fastforce simp: filter_empty_conv)
  qed
  have range: "chain_range ?c (ae_seq e) (ae_seq e) rows' = [?row]"
    using none e(1) by (simp add: chain_range_def appends(2) e' stored_row_def)
  have entry: "row_to_audit_entry ?row = Inr ?e" by (simp add: row_to_audit_entry_def stored_row_def)
  obtain h' where h': "compute_hash env ?e = Inr h'" "h' \<noteq> ae_hash e"
  proof -
    let ?head = "uuid_bytes env (ae_community_id e) @ to_be_bytes (ae_seq e)
        @ byte_string (to_rfc3339 env (to_storage_precision env (ae_created_at e))) @ byte_string (action_as_str (ae_action e))
        @ tagged (ae_actor_pubkey e) @ tagged (map_option byte_string (ae_object_id e))"
    let ?rest = "case ae_prev_hash e of Some h \<Rightarrow> h | None \<Rightarrow> GENESIS_HASH"
    have p: "hash_preimage env e = Inr (?head @ byte_string t @ ?rest)"
      using assms(4) e(2) by (simp add: hash_preimage_def map_err_def)
    have q: "hash_preimage env ?e = Inr (?head @ byte_string t' @ ?rest)"
      using assms(2,5) e(2,3) by (simp add: hash_preimage_def map_err_def time_law_def log_timestamp_def to_storage_precision_def)
    have "byte_string t' \<noteq> byte_string t" using assms(6) by (simp add: byte_string_inject)
    then have "sha256 env (?head @ byte_string t @ ?rest) \<noteq> sha256 env (?head @ byte_string t' @ ?rest)"
      using distinct [OF p] q entry by (simp add: row_preimage_def)
    moreover have "ae_hash e = sha256 env (?head @ byte_string t @ ?rest)"
      using appends(4) e' p by (simp add: compute_hash_def)
    ultimately show thesis using that q by (simp add: compute_hash_def)
  qed
  show ?thesis
    using assms(8) h' by (simp add: verify_chain_def call_def range verify_rows.simps entry check_def Let_def)
qed simp

section \<open>Tampering\<close>

definition collision :: "audit_env \<Rightarrow> audit_row list \<Rightarrow> audit_row list \<Rightarrow> bool" where
  "collision env xs ys \<longleftrightarrow>
     (\<exists>x \<in> set xs. \<exists>y \<in> set ys. \<exists>p q. row_preimage env x = Some p \<and> row_preimage env y = Some q \<and>
        p \<noteq> q \<and> sha256 env p = sha256 env q)"

lemma row_ok_preimage:
  assumes "row_ok env p row"
  obtains b body where "row_preimage env row = Some b" and "ar_hash row = sha256 env b"
    and "b = body @ (case ar_prev_hash row of Some h \<Rightarrow> h | None \<Rightarrow> GENESIS_HASH)"
proof -
  from assms obtain e where e: "row_to_audit_entry row = Inr e" "compute_hash env e = Inr (ar_hash row)"
    by (auto simp: row_ok_def)
  then have "ae_prev_hash e = ar_prev_hash row"
    by (auto simp: row_to_audit_entry_def and_then_Inr)
  with e obtain b d where "hash_preimage env e = Inr b" "ar_hash row = sha256 env b"
      "b = (uuid_bytes env (ae_community_id e) @ to_be_bytes (ae_seq e)
        @ byte_string (to_rfc3339 env (to_storage_precision env (ae_created_at e)))
        @ byte_string (action_as_str (ae_action e)) @ tagged (ae_actor_pubkey e)
        @ tagged (map_option byte_string (ae_object_id e)) @ byte_string d)
        @ (case ar_prev_hash row of Some h \<Rightarrow> h | None \<Rightarrow> GENESIS_HASH)"
    by (auto simp: compute_hash_def hash_preimage_def and_then_Inr)
  with e(1) that show thesis by (simp add: row_preimage_def)
qed

lemma same_head_same_preimages:
  assumes "\<And>b. length (sha256 env b) = 32"
    and "verify_rows env None xs = Inr True" and "verify_rows env None ys = Inr True"
    and "xs \<noteq> []" and "ys \<noteq> []" and "ar_hash (last xs) = ar_hash (last ys)" and "\<not> collision env xs ys"
  shows "\<forall>i < min (length xs) (length ys). row_preimage env (rev xs ! i) = row_preimage env (rev ys ! i)"
  using assms(2-)
proof (induction xs arbitrary: ys rule: rev_induct)
  case (snoc x xs)
  then obtain ys' y where ys: "ys = ys' @ [y]" by (cases ys rule: rev_cases) auto
  let ?px = "if xs = [] then None else Some (ar_hash (last xs))"
  let ?py = "if ys' = [] then None else Some (ar_hash (last ys'))"
  have vx: "verify_rows env None xs = Inr True" "row_ok env ?px x"
    and vy: "verify_rows env None ys' = Inr True" "row_ok env ?py y"
    using snoc.prems ys by (auto simp: verify_rows_append split: if_splits)
  from vx(2) obtain bx kx where bx: "row_preimage env x = Some bx" "ar_hash x = sha256 env bx"
      "bx = kx @ (case ar_prev_hash x of Some h \<Rightarrow> h | None \<Rightarrow> GENESIS_HASH)" by (rule row_ok_preimage)
  from vy(2) obtain b k where b: "row_preimage env y = Some b" "ar_hash y = sha256 env b"
      "b = k @ (case ar_prev_hash y of Some h \<Rightarrow> h | None \<Rightarrow> GENESIS_HASH)" by (rule row_ok_preimage)
  have eq: "bx = b" using snoc.prems(5,6) bx b by (fastforce simp: collision_def ys)
  show ?case
  proof (cases "xs = [] \<or> ys' = []")
    case True
    with eq bx b show ?thesis by (auto simp: ys less_Suc_eq min_def split: if_splits)
  next
    case False
    have "length (ar_hash (last xs)) = 32" "length (ar_hash (last ys')) = 32"
      using False vx(1) vy(1) assms(1) row_ok_preimage
      by (metis append_butlast_last_id verify_rows_append verify_rows_Cons)+
    moreover have "ar_prev_hash x = Some (ar_hash (last xs))" "ar_prev_hash y = Some (ar_hash (last ys'))"
      using False vx(2) vy(2) by (auto simp: row_ok_def)
    ultimately have "ar_hash (last xs) = ar_hash (last ys')" using eq bx(3) b(3) by simp
    moreover have "\<not> collision env xs ys'" using snoc.prems(6) by (auto simp: collision_def ys)
    ultimately have "\<forall>i < min (length xs) (length ys'). row_preimage env (rev xs ! i) = row_preimage env (rev ys' ! i)"
      using snoc.IH vx(1) vy(1) False by blast
    with eq bx(1) b(1) show ?thesis by (auto simp: ys nth_Cons split: nat.split)
  qed
qed simp

lemma same_from_end_suffix:
  assumes "\<forall>i < min (length xs) (length ys). f (rev xs ! i) = g (rev ys ! i)" and "length xs \<le> length ys"
  shows "suffix (map f xs) (map g ys)"
proof -
  have "map f (rev xs) = take (length xs) (map g (rev ys))"
    using assms by (intro nth_equalityI) (simp_all add: rev_map)
  then have "prefix (map f (rev xs)) (map g (rev ys))" using take_is_prefix by metis
  then show ?thesis by (simp add: suffix_to_prefix rev_map)
qed

text \<open>
  C16. Tampering shows: if a range of a community verifies before and after the table was changed, and the hash of its
  last row is still the same, then the bytes that the rows hash (community, number, time, action, actor,
  object, detail and the previous hash) are the same row by row when the range has as many rows as before;
  with fewer rows, they are those of the last rows of the range before, and with more, they end with them. So
  no row was altered, exchanged, inserted or removed except at the start of the range, where the verification
  checks no predecessor. The one exception is a change that exhibits two different texts with the same SHA-256.
\<close>

theorem audit_tamper_evident:
  assumes "\<And>b. length (sha256 env b) = 32"
    and "verify_chain env fault c from to rows = Inr True" and "verify_chain env fault' c from to rows' = Inr True"
    and "ar_hash (last (chain_range c from to rows)) = ar_hash (last (chain_range c from to rows'))"
    and "\<not> collision env (chain_range c from to rows) (chain_range c from to rows')"
  shows "let before = map (row_preimage env) (chain_range c from to rows); now = map (row_preimage env) (chain_range c from to rows')
    in (if length now = length before then now = before else if length now < length before then suffix now before else suffix before now)"
proof -
  let ?xs = "chain_range c from to rows" and ?ys = "chain_range c from to rows'"
  have v: "chain_range c from to rows \<noteq> [] \<and> verify_rows env None (chain_range c from to rows) = Inr True"
    if "verify_chain env fault c from to rows = Inr True" for fault rows
    using that by (auto simp: verify_chain_def and_then_Inr Let_def split: if_splits)
  have same: "\<forall>i < min (length ?xs) (length ?ys). row_preimage env (rev ?xs ! i) = row_preimage env (rev ?ys ! i)"
    using same_head_same_preimages [OF assms(1)] v [OF assms(2)] v [OF assms(3)] assms(4,5) by blast
  then have same': "\<forall>i < min (length ?ys) (length ?xs). row_preimage env (rev ?ys ! i) = row_preimage env (rev ?xs ! i)"
    by (simp add: min.commute)
  have "suffix (map (row_preimage env) ?xs) (map (row_preimage env) ?ys)" if "length ?xs \<le> length ?ys"
    using same_from_end_suffix [OF same that] .
  moreover have "suffix (map (row_preimage env) ?ys) (map (row_preimage env) ?xs)" if "length ?ys \<le> length ?xs"
    using same_from_end_suffix [OF same' that] .
  ultimately show ?thesis by (auto simp: Let_def dest: suffix_order.antisym)
qed

text \<open>
  The bytes of the object id and of the detail are not separated: an object \<open>a1\<close> with the
  number 2 as detail and an object \<open>a\<close> with the number 12 have the same hash.
\<close>

lemma hash_ignores_object_boundary:
  assumes "json_to_string env (JNumber ''2'') = Inr ''2''" and "json_to_string env (JNumber ''12'') = Inr ''12''"
  shows "compute_hash env (e\<lparr>ae_object_id := Some ''a1'', ae_detail := JNumber ''2''\<rparr>) =
    compute_hash env (e\<lparr>ae_object_id := Some ''a'', ae_detail := JNumber ''12''\<rparr>)"
  using assms by (simp add: compute_hash_def hash_preimage_def tagged_def byte_string_def)

section \<open>A small log\<close>

text \<open>A checksum stands for SHA-256, with 32 bytes.\<close>

definition demo_audit_env :: audit_env where
  "demo_audit_env =
     \<lparr>sha256 = \<lambda>b. replicate 31 7 @ [sum_list b], uuid_bytes = byte_string, trunc_subsecs6 = id, to_rfc3339 = \<lambda>_. ''t'',
      json_to_string = \<lambda>_. Inr ''null'', timestamptz = id, jsonb = id\<rparr>"

definition demo_new_entry :: "uuid \<Rightarrow> new_audit_entry" where
  "demo_new_entry c = \<lparr>ne_community_id = c, ne_action = EventCreated, ne_actor_pubkey = Some [1],
     ne_object_id = Some ''o'', ne_detail = JNull\<rparr>"

definition demo_rows1 :: "audit_row list" where
  "demo_rows1 = snd (audit_log demo_audit_env (\<lambda>_. None) 5 (demo_new_entry ''c'') [])"

definition demo_rows2 :: "audit_row list" where
  "demo_rows2 = snd (audit_log demo_audit_env (\<lambda>_. None) 6 (demo_new_entry ''c'') demo_rows1)"

lemma demo_chains_empty: "chains_ok demo_audit_env []"
  by (simp add: chains_ok_def of_community_def)

lemma demo_audit_reachable: "audit_reachable demo_audit_env [JNull, JNull] demo_rows2"
proof -
  have "audit_reachable demo_audit_env [ne_detail (demo_new_entry ''c'')] demo_rows1"
    by (rule audit_reachable.log [OF audit_reachable.empty]) (auto simp: demo_rows1_def prod_eq_iff)
  then have "audit_reachable demo_audit_env (ne_detail (demo_new_entry ''c'') # [ne_detail (demo_new_entry ''c'')]) demo_rows2"
    by (rule audit_reachable.log) (auto simp: demo_rows2_def prod_eq_iff)
  then show ?thesis by (simp add: demo_new_entry_def)
qed

text \<open>The same log after its first row was removed.\<close>

definition demo_beheaded :: "audit_row list" where
  "demo_beheaded = tl demo_rows2"

lemma demo_ranges:
  "chain_range ''c'' 1 9 demo_rows2 = demo_rows2" "chain_range ''c'' 1 9 demo_beheaded = demo_beheaded" "length demo_rows2 = 2"
  by code_simp+

lemma demo_verifies:
  "verify_chain demo_audit_env (\<lambda>_. None) ''c'' 1 9 demo_rows2 = Inr True"
  "verify_chain demo_audit_env (\<lambda>_. None) ''c'' 1 9 demo_beheaded = Inr True"
  by code_simp+

lemma demo_no_collision: "\<not> collision demo_audit_env demo_rows2 demo_beheaded"
proof -
  have "list_all (\<lambda>x. list_all (\<lambda>y. case (row_preimage demo_audit_env x, row_preimage demo_audit_env y) of
      (Some p, Some q) \<Rightarrow> p = q \<or> sha256 demo_audit_env p \<noteq> sha256 demo_audit_env q | _ \<Rightarrow> True) demo_beheaded) demo_rows2"
    by code_simp
  then show ?thesis by (fastforce simp: collision_def list_all_iff)
qed

theorem audit_log_appends_witness:
  "\<exists>e rows'. audit_log demo_audit_env (\<lambda>_. None) 5 (demo_new_entry ''c'') [] = (Inr e, rows') \<and>
     ae_seq e = 1 \<and> ae_prev_hash e = None"
proof -
  have "isl (fst (audit_log demo_audit_env (\<lambda>_. None) 5 (demo_new_entry ''c'') [])) = False" by code_simp
  then obtain e rows' where e: "audit_log demo_audit_env (\<lambda>_. None) 5 (demo_new_entry ''c'') [] = (Inr e, rows')"
    by (metis isl_def prod.collapse sum.exhaust)
  from audit_log_appends [OF demo_chains_empty e] have "ae_seq e = 1 \<and> ae_prev_hash e = None"
    by (simp add: of_community_def)
  with e show ?thesis by blast
qed

theorem audit_chain_verifies_witness:
  "verify_chain demo_audit_env (\<lambda>_. None) ''c'' 1 9 demo_rows2 = Inr True \<and>
   verify_chain demo_audit_env (\<lambda>_. None) ''d'' 1 9 demo_rows2 = Inr False"
proof -
  have "time_law demo_audit_env" "list_all (detail_law demo_audit_env) [JNull, JNull]"
    by (simp_all add: time_law_def detail_law_def demo_audit_env_def)
  note v = audit_chain_verifies [OF demo_audit_reachable this]
  have "list_ex (\<lambda>r. ar_community_id r = ''c'' \<and> 1 \<le> ar_seq r \<and> ar_seq r \<le> 9) demo_rows2"
      "\<not> list_ex (\<lambda>r. ar_community_id r = ''d'' \<and> 1 \<le> ar_seq r \<and> ar_seq r \<le> 9) demo_rows2"
    by code_simp+
  then have "\<exists>r \<in> set demo_rows2. ar_community_id r = ''c'' \<and> 1 \<le> ar_seq r \<and> ar_seq r \<le> 9"
      "\<not> (\<exists>r \<in> set demo_rows2. ar_community_id r = ''d'' \<and> 1 \<le> ar_seq r \<and> ar_seq r \<le> 9)"
    by (auto simp: list_ex_iff)
  then show ?thesis using v [of "\<lambda>_. None" "''c''" 1 9] v [of "\<lambda>_. None" "''d''" 1 9] by simp
qed

theorem audit_tamper_evident_witness:
  "suffix (map (row_preimage demo_audit_env) demo_beheaded) (map (row_preimage demo_audit_env) demo_rows2) \<and>
   verify_chain demo_audit_env (\<lambda>_. None) ''c'' 1 9 demo_beheaded = Inr True"
proof -
  have "length (sha256 demo_audit_env b) = 32" for b by (simp add: demo_audit_env_def)
  moreover have "ar_hash (last demo_rows2) = ar_hash (last demo_beheaded)" by code_simp
  ultimately have "if length demo_beheaded = length demo_rows2
      then map (row_preimage demo_audit_env) demo_beheaded = map (row_preimage demo_audit_env) demo_rows2
      else if length demo_beheaded < length demo_rows2
      then suffix (map (row_preimage demo_audit_env) demo_beheaded) (map (row_preimage demo_audit_env) demo_rows2)
      else suffix (map (row_preimage demo_audit_env) demo_rows2) (map (row_preimage demo_audit_env) demo_beheaded)"
    using audit_tamper_evident [OF _ demo_verifies] demo_ranges demo_no_collision by (simp add: Let_def)
  then show ?thesis using demo_ranges(3) demo_verifies(2) by (simp add: demo_beheaded_def)
qed

end
