(* ===== verification/Redis_Store.thy ===== *)
theory Redis_Store
  imports Rust_Std
begin

text \<open>
  The part of Redis the relay's scripts use: string values with an optional time of expiry, and
  the commands \<open>GET\<close>, \<open>INCR\<close>, \<open>SET .. PX\<close>, \<open>PEXPIRE\<close> and \<open>DEL\<close>, as its documentation describes
  them. The clock of the server is an argument, in milliseconds; a key whose time has passed is
  absent for every command.
\<close>

type_synonym redis = "string \<rightharpoonup> string \<times> nat option"

definition redis_live :: "nat \<Rightarrow> string \<times> nat option \<Rightarrow> bool" where
  "redis_live now e = (case snd e of None \<Rightarrow> True | Some t \<Rightarrow> now \<le> t)"

definition redis_get :: "nat \<Rightarrow> redis \<Rightarrow> string \<Rightarrow> string option" where
  "redis_get now r k =
     (case r k of None \<Rightarrow> None | Some e \<Rightarrow> if redis_live now e then Some (fst e) else None)"

text \<open>The integers Redis accepts: 64 bits, signed, no leading zeros and no plus sign.\<close>

definition redis_digits :: "string \<Rightarrow> nat option" where
  "redis_digits s =
     (if s \<noteq> [] \<and> list_all is_ascii_digit s \<and> (hd s = CHR ''0'' \<longrightarrow> s = ''0'')
      then Some (digits_value 0 s) else None)"

definition redis_int :: "string \<Rightarrow> int option" where
  "redis_int s =
     (if s \<noteq> [] \<and> hd s = CHR ''-''
      then (case redis_digits (tl s) of
              Some n \<Rightarrow> if 0 < n \<and> n \<le> 2 ^ 63 then Some (- int n) else None
            | None \<Rightarrow> None)
      else (case redis_digits s of
              Some n \<Rightarrow> if n < 2 ^ 63 then Some (int n) else None
            | None \<Rightarrow> None))"

definition show_int :: "int \<Rightarrow> string" where
  "show_int i = (if i < 0 then CHR ''-'' # show_nat (nat (- i)) else show_nat (nat i))"

text \<open>\<open>INCR\<close>: an absent key counts as 0, the time of expiry stays.\<close>

definition redis_incr :: "nat \<Rightarrow> redis \<Rightarrow> string \<Rightarrow> string + int \<times> redis" where
  "redis_incr now r k =
     (case redis_get now r k of
        None \<Rightarrow> Inr (1, r(k \<mapsto> (''1'', None)))
      | Some v \<Rightarrow>
          (case redis_int v of
             None \<Rightarrow> Inl ''ERR value is not an integer or out of range''
           | Some i \<Rightarrow>
               if i + 1 < 2 ^ 63
               then Inr (i + 1, r(k \<mapsto> (show_int (i + 1), (case r k of Some e \<Rightarrow> snd e | None \<Rightarrow> None))))
               else Inl ''ERR increment or decrement would overflow''))"

definition redis_set_px :: "nat \<Rightarrow> redis \<Rightarrow> string \<Rightarrow> string \<Rightarrow> nat \<Rightarrow> redis" where
  "redis_set_px now r k v ttl = r(k \<mapsto> (v, Some (now + ttl)))"

definition redis_pexpire :: "nat \<Rightarrow> redis \<Rightarrow> string \<Rightarrow> nat \<Rightarrow> redis" where
  "redis_pexpire now r k ttl =
     (case redis_get now r k of None \<Rightarrow> r | Some v \<Rightarrow> r(k \<mapsto> (v, Some (now + ttl))))"

definition redis_del :: "redis \<Rightarrow> string \<Rightarrow> redis" where
  "redis_del r k = r(k := None)"

section \<open>The link to the server\<close>

text \<open>
  One round trip may fail when the connection is taken from the pool, before the server received
  the request, or after it has executed it and the reply is lost.
\<close>

datatype link = Up | PoolDown string | RequestLost string | ReplyLost string

section \<open>Facts\<close>

lemma redis_digits_show [simp]: "redis_digits (show_nat n) = Some n"
proof -
  have "show_nat 0 = ''0''" by code_simp
  then have "hd (show_nat n) = CHR ''0'' \<longrightarrow> show_nat n = ''0''"
    using hd_show_nat [of n] by (cases "n = 0") auto
  then show ?thesis using show_nat_digits [of n] by (simp add: redis_digits_def)
qed

lemma redis_int_show: "n < 2 ^ 63 \<Longrightarrow> redis_int (show_nat n) = Some (int n)"
proof -
  have "hd (show_nat n) \<noteq> CHR ''-''"
    using not_digit_notin_show_nat [of "CHR ''-''" n] hd_in_set [OF show_nat_not_Nil, of n]
    by (intro notI) (simp add: is_ascii_digit_def)
  then show "n < 2 ^ 63 \<Longrightarrow> ?thesis" by (simp add: redis_int_def)
qed

lemma redis_incr_counter:
  assumes "redis_get now r k = Some (show_nat n)" and "n + 1 < 2 ^ 63" and "r k = Some (show_nat n, None)"
  shows "redis_incr now r k = Inr (int n + 1, r(k \<mapsto> (show_nat (n + 1), None)))"
  using assms redis_int_show [of n] by (simp add: redis_incr_def show_int_def nat_add_distrib)

end
