(* ===== verification/Mesh_Types.thy ===== *)
theory Mesh_Types
  imports Rust_Std
begin

text \<open>
  The frames of the relay mesh, crates/buzz-relay-mesh/src/wire.rs, and its errors (lib.rs).
  A \<open>RuntimeId\<close> is the list of its 32 bytes. The postcard library is a parameter of the two
  functions that use it; an error that wraps one of a library carries its text.
\<close>

section \<open>Frames\<close>

type_synonym runtime_id = bytes

definition is_runtime_id :: "runtime_id \<Rightarrow> bool" where
  "is_runtime_id b = (length b = 32)"

record fenced_header =
  fh_session_id :: uuid
  fh_generation :: u64
  fh_owner_runtime_id :: runtime_id

datatype profile = ReliableStream | RealtimeMedia | HuddleControl

record mesh_datagram =
  md_fenced :: fenced_header
  md_seq :: u64
  md_payload :: bytes

datatype goodbye_reason = SessionEnded | Draining | StaleGenerationReason

datatype stream_role = Control | Session fenced_header profile

record stream_hello =
  sh_sender :: runtime_id
  sh_role :: stream_role

datatype mesh_stream_frame =
    Hello stream_hello
  | DataFrame fenced_header bytes
  | GoodbyeFrame fenced_header goodbye_reason
  | Gossip bytes

section \<open>Errors\<close>

datatype ('t) mesh_error =
    Encode string
  | Decode string
  | UnknownWireVersion u8
  | EmptyFrame
  | FrameTooLarge nat nat
  | DatagramTooLarge nat nat
  | PeerNotConnected runtime_id
  | PeerDraining runtime_id
  | StaleGeneration uuid u64 u64
  | NoActiveLease uuid u64 u64 runtime_id
  | OwnerMismatch uuid u64 runtime_id runtime_id
  | FutureGeneration uuid u64 u64
  | Disabled
  | Transport 't
  | RedisFailure string

section \<open>Encoding\<close>

definition WIRE_VERSION :: u8 where "WIRE_VERSION = 1"

definition mesh_encode :: "('a \<Rightarrow> string + bytes) \<Rightarrow> 'a \<Rightarrow> 't mesh_error + bytes" where
  "mesh_encode postcard frame = and_then (map_err Encode (postcard frame)) (\<lambda>b. Inr (WIRE_VERSION # b))"

fun mesh_decode :: "(bytes \<Rightarrow> string + 'a) \<Rightarrow> bytes \<Rightarrow> 't mesh_error + 'a" where
  "mesh_decode postcard [] = Inl EmptyFrame"
| "mesh_decode postcard (v # rest) =
     (if v = WIRE_VERSION then map_err Decode (postcard rest) else Inl (UnknownWireVersion v))"

lemma mesh_decode_encode:
  assumes "\<And>b. ser frame = Inr b \<Longrightarrow> deser b = Inr frame" and "mesh_encode ser frame = Inr b"
  shows "mesh_decode deser b = Inr frame"
  using assms by (cases "ser frame") (auto simp: mesh_encode_def)

end
