(* ===== verification/Session_Directory.thy ===== *)
theory Session_Directory
  imports Redis_Store Mesh_Types
begin

text \<open>
  The fenced session directory, crates/buzz-relay/src/tunnel/directory.rs: which runtime of the
  mesh owns a tunnel session, as a lease in Redis with a generation from a counter that never
  expires. Every script and every method is modelled on the texts that are stored.

  A method takes the link to the server and the server's clock (milliseconds) and returns its
  result with the store it leaves; a script is atomic. The text of an error that a \<open>Transport\<close>
  error prints is represented by the error itself. Outside the repository, and fields of
  \<open>directory_env\<close>: the hex crate, and the text Lua prints for numbers of 15 and more digits.
\<close>

section \<open>Data\<close>

record directory_env =
  de_hex_encode :: "bytes \<Rightarrow> string"
  de_hex_decode :: "string \<Rightarrow> string + bytes"
  de_lua_long :: "int \<Rightarrow> string"

record session_lease =
  sl_community_id :: uuid
  sl_session_id :: uuid
  sl_owner_runtime_id :: runtime_id
  sl_generation :: u64
  sl_profile :: profile

datatype acquire_result = Acquired session_lease | Exists session_lease

datatype renew_result = Renewed session_lease | Lost "session_lease option" "u64 option"

datatype release_result = Released session_lease | NotOwner "session_lease option" "u64 option"

datatype directory_error =
    Pool string
  | RedisError string
  | MalformedLease uuid uuid string
  | MalformedGeneration uuid uuid string
  | UnexpectedScriptStatus string
  | InvalidLeaseTtl

datatype transport_cause = PoolText string | DirectoryText directory_error

type_synonym fence_error = "transport_cause mesh_error"

section \<open>Texts\<close>

definition DEFAULT_LEASE_TTL :: nat where "DEFAULT_LEASE_TTL = 30 * 1000000000"

definition session_base :: "uuid \<Rightarrow> uuid \<Rightarrow> string" where
  "session_base community_id session_id = ''buzz:'' @ community_id @ '':tunnel:'' @ session_id"

definition lease_key :: "uuid \<Rightarrow> uuid \<Rightarrow> string" where
  "lease_key c s = session_base c s @ '':lease''"

definition generation_key :: "uuid \<Rightarrow> uuid \<Rightarrow> string" where
  "generation_key c s = session_base c s @ '':generation''"

fun as_wire_str :: "profile \<Rightarrow> string" where
  "as_wire_str ReliableStream = ''reliable-stream''"
| "as_wire_str RealtimeMedia = ''realtime-media''"
| "as_wire_str HuddleControl = ''huddle-control''"

definition profile_from_wire :: "string \<Rightarrow> profile option" where
  "profile_from_wire value =
     (if value = ''reliable-stream'' then Some ReliableStream
      else if value = ''realtime-media'' then Some RealtimeMedia
      else if value = ''huddle-control'' then Some HuddleControl
      else None)"

definition parse_lease :: "directory_env \<Rightarrow> uuid \<Rightarrow> uuid \<Rightarrow> string \<Rightarrow> directory_error + session_lease" where
  "parse_lease env c s value =
     (let malformed = MalformedLease c s value in
      case split_on CHR ''|'' value of
        [owner_hex, g, p] \<Rightarrow>
          and_then (ok_or (parse_u64 g) malformed) (\<lambda>generation.
          and_then (check (generation \<noteq> 0) malformed) (\<lambda>_.
          and_then (ok_or (profile_from_wire p) malformed) (\<lambda>profile.
          and_then (map_err (\<lambda>_. malformed) (de_hex_decode env owner_hex)) (\<lambda>owner_bytes.
          and_then (check (is_runtime_id owner_bytes) malformed) (\<lambda>_.
          Inr \<lparr>sl_community_id = c, sl_session_id = s, sl_owner_runtime_id = owner_bytes,
               sl_generation = generation, sl_profile = profile\<rparr>)))))
      | _ \<Rightarrow> Inl malformed)"

definition parse_optional_lease ::
  "directory_env \<Rightarrow> uuid \<Rightarrow> uuid \<Rightarrow> string \<Rightarrow> directory_error + session_lease option" where
  "parse_optional_lease env c s value =
     (if value = [] then Inr None else and_then (parse_lease env c s value) (\<lambda>l. Inr (Some l)))"

definition parse_optional_generation :: "uuid \<Rightarrow> uuid \<Rightarrow> string \<Rightarrow> directory_error + u64 option" where
  "parse_optional_generation c s value =
     (if value = [] then Inr None
      else and_then (ok_or (parse_u64 value) (MalformedGeneration c s value)) (\<lambda>generation.
           and_then (check (generation \<noteq> 0) (MalformedGeneration c s value)) (\<lambda>_.
           Inr (Some generation))))"

text \<open>\<open>Duration::as_millis\<close> of a duration in nanoseconds, as an \<open>i64\<close> above 0.\<close>

definition ttl_ms :: "nat \<Rightarrow> directory_error + nat" where
  "ttl_ms ttl =
     (let ms = ttl div 1000000 in if ms < 2 ^ 63 \<and> 0 < ms then Inr ms else Inl InvalidLeaseTtl)"

definition lease_fenced_header :: "session_lease \<Rightarrow> fenced_header" where
  "lease_fenced_header l =
     \<lparr>fh_session_id = sl_session_id l, fh_generation = sl_generation l,
      fh_owner_runtime_id = sl_owner_runtime_id l\<rparr>"

section \<open>Scripts\<close>

text \<open>Lua's \<open>tostring\<close> of an integer, printed with 14 significant digits; \<open>x or ''\<close>.\<close>

definition lua_tostring :: "directory_env \<Rightarrow> int \<Rightarrow> string" where
  "lua_tostring env n = (if 0 \<le> n \<and> n < 10 ^ 14 then show_nat (nat n) else de_lua_long env n)"

definition or_else :: "string option \<Rightarrow> string \<Rightarrow> string" where
  "or_else m d = (case m of Some s \<Rightarrow> s | None \<Rightarrow> d)"

text \<open>\<open>string.match(current, '^([^|]+)|([^|]+)|([^|]+)$')\<close>.\<close>

definition lua_match :: "string \<Rightarrow> (string \<times> string \<times> string) option" where
  "lua_match current =
     (case split_on CHR ''|'' current of
        [a, b, c] \<Rightarrow> if a \<noteq> [] \<and> b \<noteq> [] \<and> c \<noteq> [] then Some (a, b, c) else None
      | _ \<Rightarrow> None)"

type_synonym reply = "string \<times> string \<times> string"

definition ACQUIRE_SCRIPT ::
  "directory_env \<Rightarrow> nat \<Rightarrow> string \<Rightarrow> string \<Rightarrow> string \<Rightarrow> string \<Rightarrow> nat \<Rightarrow> redis \<Rightarrow> (string + reply) \<times> redis" where
  "ACQUIRE_SCRIPT env now lk gk owner profile ttl r =
     (case redis_get now r lk of
        Some current \<Rightarrow> (Inr (''exists'', current, or_else (redis_get now r gk) []), r)
      | None \<Rightarrow>
          (case redis_incr now r gk of
             Inl e \<Rightarrow> (Inl e, r)
           | Inr (generation, r') \<Rightarrow>
               (let value = owner @ ''|'' @ lua_tostring env generation @ ''|'' @ profile in
                (Inr (''acquired'', value, lua_tostring env generation), redis_set_px now r' lk value ttl))))"

definition owned_by :: "string \<Rightarrow> string \<Rightarrow> string \<Rightarrow> bool" where
  "owned_by owner generation current =
     (case lua_match current of
        Some (current_owner, current_generation, _) \<Rightarrow> current_owner = owner \<and> current_generation = generation
      | None \<Rightarrow> False)"

definition current_generation :: "string \<Rightarrow> string" where
  "current_generation current = (case lua_match current of Some (_, g, _) \<Rightarrow> g | None \<Rightarrow> [])"

definition RENEW_SCRIPT ::
  "nat \<Rightarrow> string \<Rightarrow> string \<Rightarrow> string \<Rightarrow> string \<Rightarrow> nat \<Rightarrow> redis \<Rightarrow> (string + reply) \<times> redis" where
  "RENEW_SCRIPT now lk gk owner generation ttl r =
     (case redis_get now r lk of
        None \<Rightarrow> (Inr (''missing'', [], or_else (redis_get now r gk) []), r)
      | Some current \<Rightarrow>
          (let known = or_else (redis_get now r gk) (current_generation current) in
           if owned_by owner generation current
           then (Inr (''renewed'', current, known), redis_pexpire now r lk ttl)
           else (Inr (''lost'', current, known), r)))"

definition RELEASE_SCRIPT ::
  "nat \<Rightarrow> string \<Rightarrow> string \<Rightarrow> string \<Rightarrow> string \<Rightarrow> redis \<Rightarrow> (string + reply) \<times> redis" where
  "RELEASE_SCRIPT now lk gk owner generation r =
     (case redis_get now r lk of
        None \<Rightarrow> (Inr (''missing'', [], or_else (redis_get now r gk) []), r)
      | Some current \<Rightarrow>
          (let known = or_else (redis_get now r gk) (current_generation current) in
           if owned_by owner generation current
           then (Inr (''released'', current, known), redis_del r lk)
           else (Inr (''lost'', current, known), r)))"

definition VALIDATE_SCRIPT :: "nat \<Rightarrow> string \<Rightarrow> string \<Rightarrow> redis \<Rightarrow> string \<times> string" where
  "VALIDATE_SCRIPT now lk gk r = (or_else (redis_get now r lk) [], or_else (redis_get now r gk) [])"

text \<open>Take a connection from the pool and invoke a script.\<close>

definition invoke ::
  "link \<Rightarrow> (redis \<Rightarrow> (string + 'a) \<times> redis) \<Rightarrow> redis \<Rightarrow> (directory_error + 'a) \<times> redis" where
  "invoke l script r =
     (case l of
        Up \<Rightarrow> (map_err RedisError (fst (script r)), snd (script r))
      | PoolDown e \<Rightarrow> (Inl (Pool e), r)
      | RequestLost e \<Rightarrow> (Inl (RedisError e), r)
      | ReplyLost e \<Rightarrow> (Inl (RedisError e), snd (script r)))"

section \<open>Operations\<close>

definition acquire ::
  "directory_env \<Rightarrow> nat \<Rightarrow> link \<Rightarrow> nat \<Rightarrow> uuid \<Rightarrow> uuid \<Rightarrow> runtime_id \<Rightarrow> profile \<Rightarrow> redis
   \<Rightarrow> (directory_error + acquire_result) \<times> redis" where
  "acquire env ttl l now c s owner p r =
     or_return (ttl_ms ttl) r (\<lambda>ms.
     let (rep, r') = invoke l (ACQUIRE_SCRIPT env now (lease_key c s) (generation_key c s)
           (de_hex_encode env owner) (as_wire_str p) ms) r in
     (and_then rep (\<lambda>(status, value, _).
      and_then (parse_lease env c s value) (\<lambda>lease.
      if status = ''acquired'' then Inr (Acquired lease)
      else if status = ''exists'' then Inr (Exists lease)
      else Inl (UnexpectedScriptStatus status))), r'))"

definition takeover ::
  "directory_env \<Rightarrow> nat \<Rightarrow> link \<Rightarrow> nat \<Rightarrow> uuid \<Rightarrow> uuid \<Rightarrow> runtime_id \<Rightarrow> profile \<Rightarrow> redis
   \<Rightarrow> (directory_error + acquire_result) \<times> redis" where
  "takeover env ttl l now c s owner p r = acquire env ttl l now c s owner p r"

definition renew ::
  "directory_env \<Rightarrow> nat \<Rightarrow> link \<Rightarrow> nat \<Rightarrow> session_lease \<Rightarrow> redis \<Rightarrow> (directory_error + renew_result) \<times> redis" where
  "renew env ttl l now lease r =
     (let c = sl_community_id lease; s = sl_session_id lease in
     or_return (ttl_ms ttl) r (\<lambda>ms.
     let (rep, r') = invoke l (RENEW_SCRIPT now (lease_key c s) (generation_key c s)
           (de_hex_encode env (sl_owner_runtime_id lease)) (show_nat (unat (sl_generation lease))) ms) r in
     (and_then rep (\<lambda>(status, value, known_generation).
      and_then (parse_optional_lease env c s value) (\<lambda>current.
      if status = ''renewed'' then Inr (Renewed (the current))
      else if status = ''missing'' \<or> status = ''lost''
      then and_then (parse_optional_generation c s known_generation) (\<lambda>known. Inr (Lost current known))
      else Inl (UnexpectedScriptStatus status))), r')))"

definition release ::
  "directory_env \<Rightarrow> link \<Rightarrow> nat \<Rightarrow> session_lease \<Rightarrow> redis \<Rightarrow> (directory_error + release_result) \<times> redis" where
  "release env l now lease r =
     (let c = sl_community_id lease; s = sl_session_id lease;
          (rep, r') = invoke l (RELEASE_SCRIPT now (lease_key c s) (generation_key c s)
            (de_hex_encode env (sl_owner_runtime_id lease)) (show_nat (unat (sl_generation lease)))) r in
     (and_then rep (\<lambda>(status, value, known_generation).
      and_then (parse_optional_lease env c s value) (\<lambda>current.
      if status = ''released'' then Inr (Released (the current))
      else if status = ''missing'' \<or> status = ''lost''
      then and_then (parse_optional_generation c s known_generation) (\<lambda>known. Inr (NotOwner current known))
      else Inl (UnexpectedScriptStatus status))), r'))"

definition lookup_lease ::
  "directory_env \<Rightarrow> link \<Rightarrow> nat \<Rightarrow> uuid \<Rightarrow> uuid \<Rightarrow> redis \<Rightarrow> directory_error + session_lease option" where
  "lookup_lease env l now c s r =
     and_then (fst (invoke l (\<lambda>r. (Inr (redis_get now r (lease_key c s)), r)) r)) (\<lambda>value.
     case value of
       None \<Rightarrow> Inr None
     | Some v \<Rightarrow> and_then (parse_lease env c s v) (\<lambda>lease. Inr (Some lease)))"

definition known_generation ::
  "link \<Rightarrow> nat \<Rightarrow> uuid \<Rightarrow> uuid \<Rightarrow> redis \<Rightarrow> directory_error + u64 option" where
  "known_generation l now c s r =
     and_then (fst (invoke l (\<lambda>r. (Inr (redis_get now r (generation_key c s)), r)) r)) (\<lambda>value.
     case value of Some v \<Rightarrow> parse_optional_generation c s v | None \<Rightarrow> Inr None)"

definition fence_verdict :: "u64 \<Rightarrow> session_lease option \<Rightarrow> fenced_header \<Rightarrow> fence_error + unit" where
  "fence_verdict known_from_counter current fenced =
     (let known = max (case current of Some lease \<Rightarrow> sl_generation lease | None \<Rightarrow> known_from_counter)
                    known_from_counter in
      if known > 0 \<and> fh_generation fenced < known
      then Inl (StaleGeneration (fh_session_id fenced) (fh_generation fenced) known)
      else case current of
        None \<Rightarrow> Inl (NoActiveLease (fh_session_id fenced) (fh_generation fenced) known (fh_owner_runtime_id fenced))
      | Some lease \<Rightarrow>
          if fh_generation fenced \<noteq> sl_generation lease
          then Inl (FutureGeneration (fh_session_id fenced) (fh_generation fenced) (sl_generation lease))
          else if fh_owner_runtime_id fenced \<noteq> sl_owner_runtime_id lease
          then Inl (OwnerMismatch (fh_session_id fenced) (fh_generation fenced) (fh_owner_runtime_id fenced)
                 (sl_owner_runtime_id lease))
          else Inr ())"

definition fence_link :: "directory_error \<Rightarrow> fence_error" where
  "fence_link e =
     (case e of Pool t \<Rightarrow> Transport (PoolText t) | RedisError t \<Rightarrow> RedisFailure t | _ \<Rightarrow> Transport (DirectoryText e))"

definition validate_fenced_header ::
  "directory_env \<Rightarrow> link \<Rightarrow> nat \<Rightarrow> uuid \<Rightarrow> fenced_header \<Rightarrow> redis \<Rightarrow> fence_error + unit" where
  "validate_fenced_header env l now c fenced r =
     (let s = fh_session_id fenced in
      and_then (map_err fence_link
        (fst (invoke l (\<lambda>r. (Inr (VALIDATE_SCRIPT now (lease_key c s) (generation_key c s) r), r)) r)))
        (\<lambda>(lease_value, known).
      and_then (map_err (\<lambda>e. Transport (DirectoryText e)) (parse_optional_generation c s known)) (\<lambda>g.
      and_then (map_err (\<lambda>e. Transport (DirectoryText e)) (parse_optional_lease env c s lease_value)) (\<lambda>current.
      fence_verdict (case g of Some n \<Rightarrow> n | None \<Rightarrow> 0) current fenced))))"

end
