(* ===== verification/Session_Fencing.thy ===== *)
theory Session_Fencing
  imports Session_Directory Hex_Text
begin

text \<open>
  What the session directory guarantees: the stored texts implement an abstract cell per session
  (a counter and a holder with a time of expiry), and over every history of calls by any number
  of runtimes, with lost requests and replies, ownership of a session moves through epochs of
  increasing generations with one owner each.
\<close>

section \<open>The abstract cell\<close>

record dir_cell =
  dc_counter :: nat
  dc_holder :: "(runtime_id \<times> profile \<times> nat) option"

definition live_holder :: "nat \<Rightarrow> dir_cell \<Rightarrow> (runtime_id \<times> profile) option" where
  "live_holder now x =
     (case dc_holder x of Some (o', p, t) \<Rightarrow> if now \<le> t then Some (o', p) else None | None \<Rightarrow> None)"

definition lease_of :: "uuid \<Rightarrow> uuid \<Rightarrow> runtime_id \<Rightarrow> nat \<Rightarrow> profile \<Rightarrow> session_lease" where
  "lease_of c s owner n p =
     \<lparr>sl_community_id = c, sl_session_id = s, sl_owner_runtime_id = owner,
      sl_generation = of_nat n, sl_profile = p\<rparr>"

definition live_lease :: "uuid \<Rightarrow> uuid \<Rightarrow> nat \<Rightarrow> dir_cell \<Rightarrow> session_lease option" where
  "live_lease c s now x = map_option (\<lambda>(o', p). lease_of c s o' (dc_counter x) p) (live_holder now x)"

definition counter_value :: "dir_cell \<Rightarrow> u64 option" where
  "counter_value x = (if dc_counter x = 0 then None else Some (of_nat (dc_counter x)))"

definition held_by :: "nat \<Rightarrow> session_lease \<Rightarrow> dir_cell \<Rightarrow> bool" where
  "held_by now l x =
     (\<exists>p. live_holder now x = Some (sl_owner_runtime_id l, p) \<and> unat (sl_generation l) = dc_counter x)"

definition spec_acquire ::
  "uuid \<Rightarrow> uuid \<Rightarrow> nat \<Rightarrow> nat \<Rightarrow> runtime_id \<Rightarrow> profile \<Rightarrow> dir_cell \<Rightarrow> acquire_result \<times> dir_cell" where
  "spec_acquire c s ms now owner p x =
     (case live_lease c s now x of
        Some l \<Rightarrow> (Exists l, x)
      | None \<Rightarrow> (Acquired (lease_of c s owner (dc_counter x + 1) p),
                \<lparr>dc_counter = dc_counter x + 1, dc_holder = Some (owner, p, now + ms)\<rparr>))"

definition spec_renew :: "nat \<Rightarrow> nat \<Rightarrow> session_lease \<Rightarrow> dir_cell \<Rightarrow> renew_result \<times> dir_cell" where
  "spec_renew ms now l x =
     (let cur = live_lease (sl_community_id l) (sl_session_id l) now x in
      if held_by now l x
      then (Renewed (the cur), x\<lparr>dc_holder := map_option (\<lambda>(o', p, _). (o', p, now + ms)) (dc_holder x)\<rparr>)
      else (Lost cur (counter_value x), x))"

definition spec_release :: "nat \<Rightarrow> session_lease \<Rightarrow> dir_cell \<Rightarrow> release_result \<times> dir_cell" where
  "spec_release now l x =
     (let cur = live_lease (sl_community_id l) (sl_session_id l) now x in
      if held_by now l x then (Released (the cur), x\<lparr>dc_holder := None\<rparr>)
      else (NotOwner cur (counter_value x), x))"

section \<open>The stored texts\<close>

text \<open>
  The environment obeys the interface of the hex crate; a uuid prints as 36 hex digits and dashes.
\<close>

definition directory_laws :: "directory_env \<Rightarrow> bool" where
  "directory_laws env \<longleftrightarrow> hex_codec (de_hex_encode env) (de_hex_decode env)"

definition uuid_text :: "uuid \<Rightarrow> bool" where
  "uuid_text u = (length u = 36 \<and> list_all (\<lambda>ch. lower_hex ch \<or> ch = CHR ''-'') u)"

definition lease_text :: "directory_env \<Rightarrow> runtime_id \<Rightarrow> nat \<Rightarrow> profile \<Rightarrow> string" where
  "lease_text env owner n p = de_hex_encode env owner @ ''|'' @ show_nat n @ ''|'' @ as_wire_str p"

definition stores :: "directory_env \<Rightarrow> redis \<Rightarrow> uuid \<Rightarrow> uuid \<Rightarrow> dir_cell \<Rightarrow> bool" where
  "stores env r c s x \<longleftrightarrow>
     r (generation_key c s) = (if dc_counter x = 0 then None else Some (show_nat (dc_counter x), None)) \<and>
     r (lease_key c s) =
       map_option (\<lambda>(o', p, t). (lease_text env o' (dc_counter x) p, Some t)) (dc_holder x) \<and>
     (dc_holder x \<noteq> None \<longrightarrow> 0 < dc_counter x) \<and> pred_option (\<lambda>(o', _, _). is_runtime_id o') (dc_holder x) \<and>
     dc_counter x < 10 ^ 14"

lemma bar_notin:
  assumes "directory_laws env"
  shows "CHR ''|'' \<notin> set (de_hex_encode env b)" and "CHR ''|'' \<notin> set (show_nat n)"
    and "CHR ''|'' \<notin> set (as_wire_str p)"
proof -
  have "\<not> lower_hex (CHR ''|'')" by code_simp
  with assms show "CHR ''|'' \<notin> set (de_hex_encode env b)"
    unfolding directory_laws_def by (rule hex_codec.notin_enc)
  show "CHR ''|'' \<notin> set (show_nat n)"
    by (rule not_digit_notin_show_nat) (simp add: is_ascii_digit_def)
  show "CHR ''|'' \<notin> set (as_wire_str p)" by (cases p) simp_all
qed

lemma split_lease_text:
  "directory_laws env \<Longrightarrow>
   split_on CHR ''|'' (lease_text env owner n p) = [de_hex_encode env owner, show_nat n, as_wire_str p]"
  unfolding lease_text_def by (simp add: split_on_append split_on_single bar_notin)

lemma hex_encode_not_Nil: "directory_laws env \<Longrightarrow> is_runtime_id b \<Longrightarrow> de_hex_encode env b \<noteq> []"
  by (auto simp: directory_laws_def is_runtime_id_def hex_codec.enc_Nil)

lemma lua_match_text:
  "directory_laws env \<Longrightarrow> is_runtime_id owner \<Longrightarrow>
   lua_match (lease_text env owner n p) = Some (de_hex_encode env owner, show_nat n, as_wire_str p)"
  by (cases p) (simp_all add: lua_match_def split_lease_text hex_encode_not_Nil)

lemma profile_wire [simp]: "profile_from_wire (as_wire_str p) = Some p"
  by (cases p) (simp_all add: profile_from_wire_def)

lemma of_nat_generation: "0 < n \<Longrightarrow> n < 10 ^ 14 \<Longrightarrow> (of_nat n :: u64) \<noteq> 0 \<and> unat (of_nat n :: u64) = n"
proof -
  assume n: "0 < n" "n < 10 ^ 14"
  then have u: "unat (of_nat n :: u64) = n" by (simp add: unat_of_nat)
  with n show ?thesis by (metis less_not_refl unat_0)
qed

lemma parse_lease_text:
  assumes "directory_laws env" and "is_runtime_id owner" and "0 < n" and "n < 10 ^ 14"
  shows "parse_lease env c s (lease_text env owner n p) = Inr (lease_of c s owner n p)"
  using assms of_nat_generation [of n] parse_u64_show [of n]
  by (simp add: parse_lease_def Let_def split_lease_text lease_of_def directory_laws_def hex_codec.dec_enc)

lemma lease_text_not_Nil [simp]: "lease_text env owner n p \<noteq> []"
  by (simp add: lease_text_def)


section \<open>Keys\<close>

lemma colon_notin: "uuid_text u \<Longrightarrow> CHR '':'' \<notin> set u"
proof -
  have "\<not> (lower_hex (CHR '':'') \<or> CHR '':'' = CHR ''-'')" by code_simp
  then show "uuid_text u \<Longrightarrow> CHR '':'' \<notin> set u" unfolding uuid_text_def list_all_iff by metis
qed

lemma split_key:
  assumes "uuid_text c" and "uuid_text s"
  shows "split_on CHR '':'' (lease_key c s) = [''buzz'', c, ''tunnel'', s, ''lease'']"
    and "split_on CHR '':'' (generation_key c s) = [''buzz'', c, ''tunnel'', s, ''generation'']"
proof -
  have b: "split_on CHR '':'' (session_base c s @ CHR '':'' # x) = [''buzz'', c, ''tunnel'', s] @ split_on CHR '':'' x" for x
    using assms [THEN colon_notin] by (simp add: session_base_def split_on_append)
  show "split_on CHR '':'' (lease_key c s) = [''buzz'', c, ''tunnel'', s, ''lease'']"
    using b [of "''lease''"] by (simp add: lease_key_def)
  show "split_on CHR '':'' (generation_key c s) = [''buzz'', c, ''tunnel'', s, ''generation'']"
    using b [of "''generation''"] by (simp add: generation_key_def)
qed

lemma keys_distinct:
  assumes "uuid_text c" and "uuid_text s" and "uuid_text c'" and "uuid_text s'"
  shows "lease_key c s \<noteq> generation_key c' s'"
    and "lease_key c s = lease_key c' s' \<longleftrightarrow> c = c' \<and> s = s'"
    and "generation_key c s = generation_key c' s' \<longleftrightarrow> c = c' \<and> s = s'"
proof -
  note k = split_key [OF assms(1,2)] split_key [OF assms(3,4)]
  show "lease_key c s \<noteq> generation_key c' s'"
    by (rule notI, drule arg_cong [where f = "split_on CHR '':''"]) (simp add: k)
  show "lease_key c s = lease_key c' s' \<longleftrightarrow> c = c' \<and> s = s'"
    by (auto dest: arg_cong [where f = "split_on CHR '':''"] simp: k)
  show "generation_key c s = generation_key c' s' \<longleftrightarrow> c = c' \<and> s = s'"
    by (auto dest: arg_cong [where f = "split_on CHR '':''"] simp: k)
qed

section \<open>Reading a cell\<close>

lemma get_counter:
  "stores env r c s x \<Longrightarrow>
   redis_get now r (generation_key c s) = (if dc_counter x = 0 then None else Some (show_nat (dc_counter x)))"
  by (simp add: stores_def redis_get_def redis_live_def)

lemma get_lease:
  "stores env r c s x \<Longrightarrow>
   redis_get now r (lease_key c s) = map_option (\<lambda>(o', p). lease_text env o' (dc_counter x) p) (live_holder now x)"
  by (cases "dc_holder x") (auto simp: stores_def redis_get_def redis_live_def live_holder_def)

lemma live_holder_ok:
  "stores env r c s x \<Longrightarrow> live_holder now x = Some (o', p) \<Longrightarrow>
   is_runtime_id o' \<and> 0 < dc_counter x \<and> dc_counter x < 10 ^ 14"
  by (auto simp: stores_def live_holder_def split: option.splits if_splits)

lemma parse_generation_cell:
  "stores env r c s x \<Longrightarrow>
   parse_optional_generation c s (or_else (redis_get now r (generation_key c s)) []) = Inr (counter_value x)"
proof -
  assume st: "stores env r c s x"
  then have "dc_counter x < 10 ^ 14" by (simp add: stores_def)
  with of_nat_generation [of "dc_counter x"] parse_u64_show [of "dc_counter x"] show ?thesis
    by (auto simp: get_counter [OF st] or_else_def parse_optional_generation_def counter_value_def)
qed

lemma parse_lease_cell:
  assumes "directory_laws env" and "stores env r c s x"
  shows "parse_optional_lease env c s (or_else (redis_get now r (lease_key c s)) []) = Inr (live_lease c s now x)"
proof (cases "live_holder now x")
  case None
  then show ?thesis using assms by (simp add: get_lease or_else_def parse_optional_lease_def live_lease_def)
next
  case (Some h)
  obtain o' p where h: "h = (o', p)" by (cases h)
  with Some show ?thesis using assms live_holder_ok [OF assms(2), of now o' p]
    by (simp add: get_lease or_else_def parse_optional_lease_def live_lease_def parse_lease_text)
qed

lemma owned_by_text:
  assumes "directory_laws env" and "is_runtime_id o'" and "is_runtime_id owner"
  shows "owned_by (de_hex_encode env owner) (show_nat m) (lease_text env o' n p) \<longleftrightarrow> o' = owner \<and> n = m"
proof -
  have "de_hex_encode env o' = de_hex_encode env owner \<longleftrightarrow> o' = owner"
    using assms(1) unfolding directory_laws_def by (rule hex_codec.enc_inject)
  then show ?thesis using assms by (simp add: owned_by_def lua_match_text)
qed

section \<open>The operations implement the cell\<close>

definition session_keys :: "uuid \<Rightarrow> uuid \<Rightarrow> string set" where
  "session_keys c s = {lease_key c s, generation_key c s}"

definition only_session :: "uuid \<Rightarrow> uuid \<Rightarrow> redis \<Rightarrow> redis \<Rightarrow> bool" where
  "only_session c s r r' \<longleftrightarrow> (\<forall>k. k \<notin> session_keys c s \<longrightarrow> r' k = r k)"

lemma only_session_refl [simp]: "only_session c s r r"
  by (simp add: only_session_def)

lemma stores_same:
  "(\<And>k. k \<in> session_keys c s \<Longrightarrow> r' k = r k) \<Longrightarrow> stores env r' c s x = stores env r c s x"
  by (simp add: stores_def session_keys_def)

lemma stores_frame:
  assumes "only_session c s r r'" and "stores env r c' s' x" and "(c', s') \<noteq> (c, s)"
    and "uuid_text c" and "uuid_text s" and "uuid_text c'" and "uuid_text s'"
  shows "stores env r' c' s' x"
proof -
  have "lease_key c' s' \<notin> session_keys c s" "generation_key c' s' \<notin> session_keys c s"
    using keys_distinct [OF assms(4,5,6,7)] keys_distinct [OF assms(6,7,4,5)] assms(3)
    by (auto simp: session_keys_def)
  with assms(1,2) show ?thesis by (simp add: stores_def only_session_def)
qed

lemma incr_cell:
  assumes "stores env r c s x" and "dc_counter x + 1 < 10 ^ 14"
  shows "redis_incr now r (generation_key c s) =
    Inr (int (dc_counter x) + 1, r(generation_key c s \<mapsto> (show_nat (dc_counter x + 1), None)))"
proof (cases "dc_counter x = 0")
  case True
  have one: "show_nat 1 = ''1''" by code_simp
  have "redis_get now r (generation_key c s) = None" using get_counter [OF assms(1)] True by simp
  with one True show ?thesis by (simp add: redis_incr_def)
next
  case False
  have "r (generation_key c s) = Some (show_nat (dc_counter x), None)"
    using assms(1) False by (simp add: stores_def)
  with redis_incr_counter [of now r "generation_key c s" "dc_counter x"] get_counter [OF assms(1)] False assms(2)
  show ?thesis by simp
qed

lemma acquire_fresh:
  assumes "directory_laws env" and "stores env r c s x" and "ttl_ms ttl = Inr ms"
    and "dc_counter x + 1 < 10 ^ 14" and "is_runtime_id owner" and "live_holder now x = None"
  shows "acquire env ttl Up now c s owner p r =
    (Inr (Acquired (lease_of c s owner (dc_counter x + 1) p)),
     r(generation_key c s \<mapsto> (show_nat (dc_counter x + 1), None),
       lease_key c s \<mapsto> (lease_text env owner (dc_counter x + 1) p, Some (now + ms))))"
proof -
  have "lua_tostring env (int (dc_counter x) + 1) = show_nat (dc_counter x + 1)"
    using assms(4) by (simp add: lua_tostring_def nat_add_distrib)
  with assms parse_lease_text [OF assms(1,5), of "dc_counter x + 1" c s p] show ?thesis
    by (simp add: acquire_def ACQUIRE_SCRIPT_def invoke_def get_lease incr_cell redis_set_px_def
        lease_text_def Let_def)
qed

lemma acquire_refines:
  assumes "directory_laws env" and "stores env r c s x" and "ttl_ms ttl = Inr ms"
    and "dc_counter x + 1 < 10 ^ 14" and "is_runtime_id owner" and "uuid_text c" and "uuid_text s"
  shows "fst (acquire env ttl Up now c s owner p r) = Inr (fst (spec_acquire c s ms now owner p x)) \<and>
    stores env (snd (acquire env ttl Up now c s owner p r)) c s (snd (spec_acquire c s ms now owner p x)) \<and>
    only_session c s r (snd (acquire env ttl Up now c s owner p r))"
proof (cases "live_holder now x")
  case None
  have "lease_key c s \<noteq> generation_key c s" using keys_distinct(1) assms(6,7) by blast
  with assms None show ?thesis
    by (simp add: acquire_fresh [OF assms(1-5) None] spec_acquire_def live_lease_def stores_def
        only_session_def session_keys_def)
next
  case (Some h)
  obtain o' p' where h: "h = (o', p')" by (cases h)
  with Some assms live_holder_ok [OF assms(2), of now o' p']
    parse_lease_text [OF assms(1), of o' "dc_counter x" c s p'] show ?thesis
    by (simp add: acquire_def ACQUIRE_SCRIPT_def invoke_def get_lease spec_acquire_def live_lease_def)
qed

lemma known_generation_text:
  assumes "stores env r c s x" and "live_holder now x = Some h"
  shows "or_else (redis_get now r (generation_key c s)) d = or_else (redis_get now r (generation_key c s)) []"
proof -
  obtain o' p where "h = (o', p)" by (cases h)
  with live_holder_ok [OF assms(1), of now o' p] assms(2) get_counter [OF assms(1)] show ?thesis
    by (simp add: or_else_def)
qed

lemma owned_by_cell:
  assumes "directory_laws env" and "stores env r c s x" and "live_holder now x = Some (o', p)"
    and "is_runtime_id (sl_owner_runtime_id l)"
  shows "owned_by (de_hex_encode env (sl_owner_runtime_id l)) (show_nat (unat (sl_generation l)))
      (lease_text env o' (dc_counter x) p) \<longleftrightarrow> held_by now l x"
  using owned_by_text [OF assms(1) _ assms(4), of o'] live_holder_ok [OF assms(2,3)] assms(3)
  by (auto simp: held_by_def)

lemma live_cell:
  assumes "directory_laws env" and "stores env r c s x" and "live_holder now x = Some (o', p)"
  shows "redis_get now r (lease_key c s) = Some (lease_text env o' (dc_counter x) p)"
    and "parse_optional_lease env c s (lease_text env o' (dc_counter x) p) = Inr (live_lease c s now x)"
    and "parse_optional_generation c s (or_else (redis_get now r (generation_key c s)) d) = Inr (counter_value x)"
    and "\<exists>t. dc_holder x = Some (o', p, t)"
proof -
  show get: "redis_get now r (lease_key c s) = Some (lease_text env o' (dc_counter x) p)"
    using get_lease [OF assms(2), of now] assms(3) by simp
  show "parse_optional_lease env c s (lease_text env o' (dc_counter x) p) = Inr (live_lease c s now x)"
    using parse_lease_cell [OF assms(1,2), of now] get by (simp add: or_else_def)
  show "parse_optional_generation c s (or_else (redis_get now r (generation_key c s)) d) = Inr (counter_value x)"
    using parse_generation_cell [OF assms(2), of now] known_generation_text [OF assms(2,3), of d] by simp
  show "\<exists>t. dc_holder x = Some (o', p, t)"
    using assms(3) by (auto simp: live_holder_def split: option.splits if_splits)
qed

lemma renew_refines:
  fixes l :: session_lease
  defines "c \<equiv> sl_community_id l" and "s \<equiv> sl_session_id l"
  assumes laws: "directory_laws env" and st: "stores env r c s x" and ms: "ttl_ms ttl = Inr ms"
    and ok: "is_runtime_id (sl_owner_runtime_id l)" "uuid_text c" "uuid_text s"
  shows "fst (renew env ttl Up now l r) = Inr (fst (spec_renew ms now l x)) \<and>
    stores env (snd (renew env ttl Up now l r)) c s (snd (spec_renew ms now l x)) \<and>
    only_session c s r (snd (renew env ttl Up now l r))"
proof (cases "live_holder now x")
  case None
  with get_lease [OF st, of now] parse_generation_cell [OF st, of now] st ms show ?thesis
    by (simp add: renew_def RENEW_SCRIPT_def invoke_def spec_renew_def held_by_def live_lease_def
        parse_optional_lease_def flip: c_def s_def)
next
  case (Some h)
  obtain o' p where h: "h = (o', p)" by (cases h)
  note lc = live_cell [OF laws st Some [unfolded h]] and own = owned_by_cell [OF laws st Some [unfolded h] ok(1)]
  show ?thesis
  proof (cases "held_by now l x")
    case True
    with lc own ms st keys_distinct(1) [OF ok(2,3,2,3)] show ?thesis
      by (auto simp: renew_def RENEW_SCRIPT_def invoke_def spec_renew_def Let_def redis_pexpire_def stores_def
          only_session_def session_keys_def simp flip: c_def s_def)
  next
    case False
    with lc own ms st show ?thesis
      by (simp add: renew_def RENEW_SCRIPT_def invoke_def spec_renew_def Let_def flip: c_def s_def)
  qed
qed

lemma release_refines:
  fixes l :: session_lease
  defines "c \<equiv> sl_community_id l" and "s \<equiv> sl_session_id l"
  assumes laws: "directory_laws env" and st: "stores env r c s x"
    and ok: "is_runtime_id (sl_owner_runtime_id l)" "uuid_text c" "uuid_text s"
  shows "fst (release env Up now l r) = Inr (fst (spec_release now l x)) \<and>
    stores env (snd (release env Up now l r)) c s (snd (spec_release now l x)) \<and>
    only_session c s r (snd (release env Up now l r))"
proof (cases "live_holder now x")
  case None
  with get_lease [OF st, of now] parse_generation_cell [OF st, of now] st show ?thesis
    by (simp add: release_def RELEASE_SCRIPT_def invoke_def spec_release_def held_by_def live_lease_def
        parse_optional_lease_def flip: c_def s_def)
next
  case (Some h)
  obtain o' p where h: "h = (o', p)" by (cases h)
  note lc = live_cell [OF laws st Some [unfolded h]] and own = owned_by_cell [OF laws st Some [unfolded h] ok(1)]
  show ?thesis
  proof (cases "held_by now l x")
    case True
    with lc own st keys_distinct(1) [OF ok(2,3,2,3)] show ?thesis
      by (auto simp: release_def RELEASE_SCRIPT_def invoke_def spec_release_def Let_def redis_del_def stores_def
          only_session_def session_keys_def simp flip: c_def s_def)
  next
    case False
    with lc own st show ?thesis
      by (simp add: release_def RELEASE_SCRIPT_def invoke_def spec_release_def Let_def flip: c_def s_def)
  qed
qed

text \<open>A header is accepted exactly when it names the live holder and its generation.\<close>

definition accepts_header :: "nat \<Rightarrow> dir_cell \<Rightarrow> fenced_header \<Rightarrow> bool" where
  "accepts_header now x f \<longleftrightarrow>
     (\<exists>p. live_holder now x = Some (fh_owner_runtime_id f, p) \<and> unat (fh_generation f) = dc_counter x)"

lemma validate_refines:
  assumes "directory_laws env" and "stores env r c (fh_session_id f) x"
  shows "validate_fenced_header env Up now c f r =
    fence_verdict (case counter_value x of Some n \<Rightarrow> n | None \<Rightarrow> 0) (live_lease c (fh_session_id f) now x) f"
  using parse_generation_cell [OF assms(2)] parse_lease_cell [OF assms]
  by (simp add: validate_fenced_header_def VALIDATE_SCRIPT_def invoke_def Let_def)

lemma validate_exact:
  assumes "directory_laws env" and "stores env r c (fh_session_id f) x"
  shows "validate_fenced_header env Up now c f r = Inr () \<longleftrightarrow> accepts_header now x f"
proof (cases "live_holder now x")
  case None
  then show ?thesis
    by (simp add: validate_refines [OF assms] fence_verdict_def live_lease_def accepts_header_def Let_def)
next
  case (Some h)
  obtain o' p where h: "h = (o', p)" by (cases h)
  have n: "0 < dc_counter x" "dc_counter x < 10 ^ 14" using live_holder_ok [OF assms(2)] Some h by auto
  then have g: "fh_generation f = of_nat (dc_counter x) \<longleftrightarrow> unat (fh_generation f) = dc_counter x"
    using of_nat_generation [OF n] by (simp add: word_unat_eq_iff)
  from Some h n show ?thesis
    by (auto simp: validate_refines [OF assms] fence_verdict_def live_lease_def lease_of_def
        accepts_header_def counter_value_def Let_def simp flip: g)
qed

lemma lookup_refines:
  assumes "directory_laws env" and "stores env r c s x"
  shows "lookup_lease env Up now c s r = Inr (live_lease c s now x)"
proof (cases "live_holder now x")
  case None
  then show ?thesis using get_lease [OF assms(2), of now]
    by (simp add: lookup_lease_def invoke_def live_lease_def)
next
  case (Some h)
  obtain o' p where h: "h = (o', p)" by (cases h)
  from live_cell(1) [OF assms Some [unfolded h]] live_holder_ok [OF assms(2) Some [unfolded h]]
    parse_lease_text [OF assms(1), of o' "dc_counter x" c s p] Some h show ?thesis
    by (simp add: lookup_lease_def invoke_def live_lease_def)
qed

section \<open>Histories\<close>

text \<open>
  Calls by any number of runtimes, newest first, each with the server's time, which never
  decreases. A call may fail at any point of its round trip. Clients of other keys may change
  these in between; in the beginning no session is stored.
\<close>

datatype dir_op =
    Acquire uuid uuid runtime_id profile
  | Renew session_lease
  | Release session_lease
  | Validate uuid fenced_header
  | Lookup uuid uuid

datatype dir_out =
    AcquireOut "directory_error + acquire_result"
  | RenewOut "directory_error + renew_result"
  | ReleaseOut "directory_error + release_result"
  | ValidateOut "fence_error + unit"
  | LookupOut "directory_error + session_lease option"

fun run_dir_op :: "directory_env \<Rightarrow> nat \<Rightarrow> link \<Rightarrow> nat \<Rightarrow> dir_op \<Rightarrow> redis \<Rightarrow> dir_out \<times> redis" where
  "run_dir_op env ttl l now (Acquire c s owner p) r = apfst AcquireOut (acquire env ttl l now c s owner p r)"
| "run_dir_op env ttl l now (Renew lease) r = apfst RenewOut (renew env ttl l now lease r)"
| "run_dir_op env ttl l now (Release lease) r = apfst ReleaseOut (release env l now lease r)"
| "run_dir_op env ttl l now (Validate c f) r = (ValidateOut (validate_fenced_header env l now c f r), r)"
| "run_dir_op env ttl l now (Lookup c s) r = (LookupOut (lookup_lease env l now c s r), r)"

fun op_session :: "dir_op \<Rightarrow> uuid \<times> uuid" where
  "op_session (Acquire c s _ _) = (c, s)"
| "op_session (Renew l) = (sl_community_id l, sl_session_id l)"
| "op_session (Release l) = (sl_community_id l, sl_session_id l)"
| "op_session (Validate c f) = (c, fh_session_id f)"
| "op_session (Lookup c s) = (c, s)"

fun op_owner :: "dir_op \<Rightarrow> runtime_id option" where
  "op_owner (Acquire _ _ owner _) = Some owner"
| "op_owner (Renew l) = Some (sl_owner_runtime_id l)"
| "op_owner (Release l) = Some (sl_owner_runtime_id l)"
| "op_owner (Validate _ f) = Some (fh_owner_runtime_id f)"
| "op_owner (Lookup _ _) = None"

text \<open>The arguments have the shapes their types guarantee.\<close>

definition op_typed :: "dir_op \<Rightarrow> bool" where
  "op_typed op =
     (uuid_text (fst (op_session op)) \<and> uuid_text (snd (op_session op)) \<and> pred_option is_runtime_id (op_owner op))"

inductive dir_run :: "directory_env \<Rightarrow> nat \<Rightarrow> (nat \<times> dir_op \<times> dir_out) list \<Rightarrow> nat \<Rightarrow> redis \<Rightarrow> bool"
  for env ttl where
  start: "(\<And>c s k. k \<in> session_keys c s \<Longrightarrow> r k = None) \<Longrightarrow> dir_run env ttl [] t r"
| call: "dir_run env ttl h t r \<Longrightarrow> t \<le> now \<Longrightarrow> op_typed op \<Longrightarrow>
    run_dir_op env ttl l now op r = (out, r') \<Longrightarrow> dir_run env ttl ((now, op, out) # h) now r'"
| others: "dir_run env ttl h t r \<Longrightarrow> (\<And>c s k. k \<in> session_keys c s \<Longrightarrow> r' k = r k) \<Longrightarrow> dir_run env ttl h t r'"

fun spec_step :: "nat \<Rightarrow> nat \<Rightarrow> dir_op \<Rightarrow> dir_cell \<Rightarrow> dir_cell" where
  "spec_step ms now (Acquire c s owner p) x = snd (spec_acquire c s ms now owner p x)"
| "spec_step ms now (Renew l) x = snd (spec_renew ms now l x)"
| "spec_step ms now (Release l) x = snd (spec_release now l x)"
| "spec_step ms now (Validate c f) x = x"
| "spec_step ms now (Lookup c s) x = x"

fun spec_out :: "nat \<Rightarrow> nat \<Rightarrow> dir_op \<Rightarrow> dir_cell \<Rightarrow> dir_out \<Rightarrow> bool" where
  "spec_out ms now (Acquire c s owner p) x out = (out = AcquireOut (Inr (fst (spec_acquire c s ms now owner p x))))"
| "spec_out ms now (Renew l) x out = (out = RenewOut (Inr (fst (spec_renew ms now l x))))"
| "spec_out ms now (Release l) x out = (out = ReleaseOut (Inr (fst (spec_release now l x))))"
| "spec_out ms now (Validate c f) x out = (\<exists>v. out = ValidateOut v \<and> (v = Inr () \<longleftrightarrow> accepts_header now x f))"
| "spec_out ms now (Lookup c s) x out = (out = LookupOut (Inr (live_lease c s now x)))"

fun failed :: "dir_out \<Rightarrow> bool" where
  "failed (AcquireOut v) = isl v"
| "failed (RenewOut v) = isl v"
| "failed (ReleaseOut v) = isl v"
| "failed (ValidateOut v) = isl v"
| "failed (LookupOut v) = isl v"

definition executed :: "link \<Rightarrow> bool" where
  "executed l = (case l of Up \<Rightarrow> True | ReplyLost _ \<Rightarrow> True | _ \<Rightarrow> False)"

lemma executed_Up [simp]: "executed Up"
  by (simp add: executed_def)

lemma invoke_failed:
  assumes "l \<noteq> Up"
  shows "isl (fst (invoke l f r))"
    and "snd (invoke l f r) = (if executed l then snd (invoke Up f r) else r)"
  using assms by (cases l; simp add: invoke_def executed_def)+

lemma isl_and_then: "isl m \<Longrightarrow> isl (and_then m g)"
  by (cases m) simp_all

lemma isl_map_err: "isl (map_err g m) = isl m"
  by (cases m) simp_all

text \<open>A round trip that fails reports an error, and has the effect of the script or none.\<close>

lemma run_failed:
  assumes "l \<noteq> Up"
  shows "failed (fst (run_dir_op env ttl l now op r)) \<and>
    snd (run_dir_op env ttl l now op r) = (if executed l then snd (run_dir_op env ttl Up now op r) else r)"
proof (cases op)
  case (Acquire c s owner p)
  then show ?thesis
    by (cases "ttl_ms ttl") (simp_all add: acquire_def Let_def split_beta isl_and_then invoke_failed [OF assms])
next
  case (Renew lease)
  then show ?thesis
    by (cases "ttl_ms ttl") (simp_all add: renew_def Let_def split_beta isl_and_then invoke_failed [OF assms])
qed (simp_all add: release_def validate_fenced_header_def lookup_lease_def Let_def split_beta isl_and_then
    isl_map_err invoke_failed [OF assms])

lemma run_typed:
  assumes "directory_laws env" and "ttl_ms ttl = Inr ms" and "op_typed op" and "op_session op = (c, s)"
    and "stores env r c s x" and "dc_counter x + 1 < 10 ^ 14"
  shows "spec_out ms now op x (fst (run_dir_op env ttl Up now op r)) \<and>
    stores env (snd (run_dir_op env ttl Up now op r)) c s (spec_step ms now op x) \<and>
    only_session c s r (snd (run_dir_op env ttl Up now op r))"
proof (cases op)
  case (Acquire c' s' owner p)
  with assms acquire_refines [OF assms(1,5,2,6)] show ?thesis by (simp add: op_typed_def)
next
  case (Renew l)
  with assms(4) have "c = sl_community_id l" "s = sl_session_id l" by auto
  with Renew assms renew_refines [OF assms(1) _ assms(2), of r l x now] show ?thesis by (simp add: op_typed_def)
next
  case (Release l)
  with assms(4) have "c = sl_community_id l" "s = sl_session_id l" by auto
  with Release assms release_refines [OF assms(1), of r l x now] show ?thesis by (simp add: op_typed_def)
next
  case (Validate c' f)
  with assms validate_exact [OF assms(1)] show ?thesis by auto
next
  case (Lookup c' s')
  with assms lookup_refines [OF assms(1)] show ?thesis by simp
qed

section \<open>Epochs\<close>

text \<open>
  What the outcome of a call says about the owner of a session: its generation and owner, and
  whether the call created the epoch. Failed calls, lost leases and rejected headers claim nothing.
\<close>

definition lease_claim :: "bool \<Rightarrow> session_lease \<Rightarrow> bool \<times> nat \<times> runtime_id" where
  "lease_claim fresh l = (fresh, unat (sl_generation l), sl_owner_runtime_id l)"

fun claim_of :: "dir_op \<Rightarrow> dir_out \<Rightarrow> (bool \<times> nat \<times> runtime_id) option" where
  "claim_of op (AcquireOut v) =
     (case v of
        Inr (Acquired l) \<Rightarrow> Some (lease_claim True l)
      | Inr (Exists l) \<Rightarrow> Some (lease_claim False l)
      | Inl _ \<Rightarrow> None)"
| "claim_of op (RenewOut v) = (case v of Inr (Renewed l) \<Rightarrow> Some (lease_claim False l) | _ \<Rightarrow> None)"
| "claim_of op (ReleaseOut v) = (case v of Inr (Released l) \<Rightarrow> Some (lease_claim False l) | _ \<Rightarrow> None)"
| "claim_of op (ValidateOut v) =
     (case (op, v) of
        (Validate c f, Inr _) \<Rightarrow> Some (False, unat (fh_generation f), fh_owner_runtime_id f)
      | _ \<Rightarrow> None)"
| "claim_of op (LookupOut v) = (case v of Inr (Some l) \<Rightarrow> Some (lease_claim False l) | _ \<Rightarrow> None)"

definition claims :: "uuid \<Rightarrow> uuid \<Rightarrow> (nat \<times> dir_op \<times> dir_out) list \<Rightarrow> (bool \<times> nat \<times> runtime_id) list" where
  "claims c s h =
     List.map_filter (\<lambda>(_, op, out). if op_session op = (c, s) then claim_of op out else None) h"

lemma claim_of_failed: "failed out \<Longrightarrow> claim_of op out = None"
  by (cases out) (auto simp: isl_def split: dir_op.splits)

lemma claims_Nil [simp]: "claims c s [] = []"
  by (simp add: claims_def map_filter_simps)

lemma claims_Cons [simp]:
  "claims c s ((t, op, out) # h) =
     (if op_session op = (c, s)
      then (case claim_of op out of None \<Rightarrow> claims c s h | Some k \<Rightarrow> k # claims c s h)
      else claims c s h)"
  by (simp add: claims_def map_filter_simps split: option.split)

definition owner_of :: "dir_cell \<Rightarrow> runtime_id option" where
  "owner_of x = map_option fst (dc_holder x)"

lemma live_holder_owner: "live_holder now x = Some (o', p) \<Longrightarrow> owner_of x = Some o'"
  by (auto simp: live_holder_def owner_of_def split: option.splits if_splits)

text \<open>Within an epoch the owner stays or leaves; a new epoch has the next generation.\<close>

lemma spec_step_epoch:
  "dc_counter (spec_step ms now op x) = dc_counter x \<and> owner_of (spec_step ms now op x) \<in> {owner_of x, None} \<or>
   dc_counter (spec_step ms now op x) = dc_counter x + 1"
  by (cases op)
    (auto simp: spec_acquire_def spec_renew_def spec_release_def Let_def owner_of_def option.map_comp
      comp_def split_beta split: option.splits)

lemma lease_of_simps [simp]:
  "sl_owner_runtime_id (lease_of c s owner n p) = owner"
  "n < 10 ^ 14 \<Longrightarrow> unat (sl_generation (lease_of c s owner n p)) = n"
  by (simp_all add: lease_of_def unat_of_nat)

lemma live_lease_claim:
  assumes "live_lease c s now x = Some l" and "dc_counter x < 10 ^ 14"
  shows "unat (sl_generation l) = dc_counter x" and "owner_of x = Some (sl_owner_runtime_id l)"
proof -
  obtain o' p where h: "live_holder now x = Some (o', p)" "l = lease_of c s o' (dc_counter x) p"
    using assms(1) by (auto simp: live_lease_def)
  then show "unat (sl_generation l) = dc_counter x" using assms(2) by simp
  show "owner_of x = Some (sl_owner_runtime_id l)" using h live_holder_owner by simp
qed

lemma held_by_live: "held_by now l x \<Longrightarrow> \<exists>l'. live_lease c s now x = Some l'"
  by (auto simp: held_by_def live_lease_def)

lemma spec_claim:
  assumes "spec_out ms now op x out" and "claim_of op out = Some (fresh, g, owner)" and "dc_counter x + 1 < 10 ^ 14"
  shows "if fresh then g = dc_counter x + 1 \<and> dc_counter (spec_step ms now op x) = g \<and> owner_of (spec_step ms now op x) = Some owner
    else g = dc_counter x \<and> dc_counter (spec_step ms now op x) = g \<and> owner_of x = Some owner"
proof (cases op)
  case (Acquire c s owner' p)
  with assms live_lease_claim [of c s now x] show ?thesis
    by (auto simp: spec_acquire_def lease_claim_def owner_of_def split: option.splits)
next
  case (Renew l)
  let ?c = "sl_community_id l" and ?s = "sl_session_id l"
  from Renew assms have held: "held_by now l x" by (auto simp: spec_renew_def Let_def split: if_splits)
  then obtain l' where "live_lease ?c ?s now x = Some l'" using held_by_live by blast
  with Renew assms held live_lease_claim [of ?c ?s now x l'] show ?thesis
    by (simp add: spec_renew_def lease_claim_def Let_def)
next
  case (Release l)
  let ?c = "sl_community_id l" and ?s = "sl_session_id l"
  from Release assms have held: "held_by now l x" by (auto simp: spec_release_def Let_def split: if_splits)
  then obtain l' where "live_lease ?c ?s now x = Some l'" using held_by_live by blast
  with Release assms held live_lease_claim [of ?c ?s now x l'] show ?thesis
    by (simp add: spec_release_def lease_claim_def Let_def)
next
  case (Validate c f)
  from Validate assms(1) obtain v where v: "out = ValidateOut v" "v = Inr () \<Longrightarrow> accepts_header now x f" by auto
  have "v = Inr ()" using assms(2) unfolding v(1) Validate by (cases v) simp_all
  with assms(2) Validate v(1) v(2) have f: "accepts_header now x f" "\<not> fresh" "g = unat (fh_generation f)" "owner = fh_owner_runtime_id f"
    by simp_all
  then obtain p where "live_holder now x = Some (owner, p)" "g = dc_counter x" by (auto simp: accepts_header_def)
  with Validate f live_holder_owner [of now x owner p] show ?thesis by simp
next
  case (Lookup c s)
  with assms live_lease_claim [of c s now x] show ?thesis
    by (auto simp: lease_claim_def split: option.splits)
qed

section \<open>One call in a history\<close>

lemma scripts_only:
  "only_session c s r (snd (ACQUIRE_SCRIPT env now (lease_key c s) (generation_key c s) owner p ms r))"
  "only_session c s r (snd (RENEW_SCRIPT now (lease_key c s) (generation_key c s) owner g ms r))"
  "only_session c s r (snd (RELEASE_SCRIPT now (lease_key c s) (generation_key c s) owner g r))"
  by (auto simp: ACQUIRE_SCRIPT_def RENEW_SCRIPT_def RELEASE_SCRIPT_def Let_def redis_incr_def redis_set_px_def
      redis_pexpire_def redis_del_def only_session_def session_keys_def split: option.splits if_splits)

lemma run_only:
  assumes "op_session op = (c, s)"
  shows "only_session c s r (snd (run_dir_op env ttl l now op r))"
  using assms
  by (cases op; cases l)
    (auto simp: acquire_def renew_def release_def invoke_def or_return_def Let_def split_beta scripts_only split: sum.split)

lemma call_cell:
  assumes laws: "directory_laws env" "ttl_ms ttl = Inr ms" and op: "op_typed op"
    and run: "run_dir_op env ttl l now op r = (out, r')"
    and st: "stores env r c s x" "dc_counter x + 1 < 10 ^ 14" and u: "uuid_text c" "uuid_text s"
  obtains x' where "stores env r' c s x'"
    and "x' = x \<or> op_session op = (c, s) \<and> x' = spec_step ms now op x"
    and "op_session op = (c, s) \<Longrightarrow> failed out \<or> x' = spec_step ms now op x \<and> spec_out ms now op x out"
proof (cases "op_session op = (c, s)")
  case True
  note t = run_typed [OF laws op True st, of now]
  show ?thesis
  proof (cases "l = Up")
    case True
    with t run that [of "spec_step ms now op x"] \<open>op_session op = (c, s)\<close> show ?thesis by simp
  next
    case False
    from run_failed [OF False, of env ttl now op r] run have "failed out"
      "r' = (if executed l then snd (run_dir_op env ttl Up now op r) else r)" by auto
    with t that [of "spec_step ms now op x"] that [of x] st \<open>op_session op = (c, s)\<close> show ?thesis
      by (auto split: if_splits)
  qed
next
  case False
  obtain c' s' where o': "op_session op = (c', s')" by (cases "op_session op")
  from run_only [OF o', of r env ttl l now] run have only: "only_session c' s' r r'" by simp
  have "stores env r' c s x"
    using stores_frame [OF only st(1)] False o' op u by (auto simp: op_typed_def)
  with False show ?thesis by (intro that [of x]) auto
qed

section \<open>Invariants of histories\<close>

definition epochs :: "(bool \<times> nat \<times> runtime_id) list \<Rightarrow> bool" where
  "epochs ks = sorted_wrt (\<lambda>(fresh, g, owner) (fresh', g', owner').
     (if fresh then g' < g else g' \<le> g) \<and> (g' = g \<longrightarrow> owner' = owner)) ks"

definition history_ok :: "dir_cell \<Rightarrow> (bool \<times> nat \<times> runtime_id) list \<Rightarrow> bool" where
  "history_ok x ks \<longleftrightarrow> epochs ks \<and>
     (\<exists>own. (\<forall>(fresh, g, owner) \<in> set ks. g \<le> dc_counter x \<and> own g = owner) \<and>
            (\<forall>owner. owner_of x = Some owner \<longrightarrow> own (dc_counter x) = owner))"

lemma history_ok_step:
  assumes "history_ok x ks" and "x' = x \<or> x' = spec_step ms now op x"
  shows "history_ok x' ks"
proof (cases "x' = x")
  case False
  with assms(2) have x': "x' = spec_step ms now op x" by simp
  obtain own where own: "\<forall>(fresh, g, owner) \<in> set ks. g \<le> dc_counter x \<and> own g = owner"
    "\<forall>owner. owner_of x = Some owner \<longrightarrow> own (dc_counter x) = owner" and ep: "epochs ks"
    using assms(1) by (auto simp: history_ok_def)
  define own' where "own' = (if dc_counter x' = dc_counter x then own else own(dc_counter x' := the (owner_of x')))"
  show ?thesis
    using own spec_step_epoch [of ms now op x] ep unfolding history_ok_def x' [symmetric]
    by (intro conjI exI [of _ own']) (fastforce simp: own'_def)+
qed (use assms in simp)

lemma history_ok_claim:
  assumes "history_ok x ks" and "spec_out ms now op x out" and "claim_of op out = Some k" and "dc_counter x + 1 < 10 ^ 14"
  shows "history_ok (spec_step ms now op x) (k # ks)"
proof -
  obtain fresh g owner where k: "k = (fresh, g, owner)" by (cases k)
  note c = spec_claim [OF assms(2) assms(3) [unfolded k] assms(4)]
  obtain own where own: "\<forall>(fresh, g, owner) \<in> set ks. g \<le> dc_counter x \<and> own g = owner"
    "\<forall>owner. owner_of x = Some owner \<longrightarrow> own (dc_counter x) = owner" and ep: "epochs ks"
    using assms(1) by (auto simp: history_ok_def)
  have "epochs (k # ks)" using own c ep by (fastforce simp: epochs_def k split: if_splits)
  moreover define own' where "own' = (if fresh then own(g := owner) else own)"
  have "\<forall>(fresh, g, owner) \<in> set (k # ks). g \<le> dc_counter (spec_step ms now op x) \<and> own' g = owner"
    using own c by (fastforce simp: own'_def k split: if_splits)
  moreover have "\<forall>owner. owner_of (spec_step ms now op x) = Some owner \<longrightarrow> own' (dc_counter (spec_step ms now op x)) = owner"
    using own c spec_step_epoch [of ms now op x] by (auto simp: own'_def split: if_splits)
  ultimately show ?thesis unfolding history_ok_def by blast
qed

text \<open>The time of expiry stems from a call that took or renewed the lease.\<close>

fun extends :: "dir_op \<Rightarrow> bool" where
  "extends (Acquire _ _ _ _) = True"
| "extends (Renew _) = True"
| "extends _ = False"

definition expiry_ok :: "nat \<Rightarrow> uuid \<Rightarrow> uuid \<Rightarrow> (nat \<times> dir_op \<times> dir_out) list \<Rightarrow> dir_cell \<Rightarrow> bool" where
  "expiry_ok ms c s h x \<longleftrightarrow>
     (\<forall>owner p e. dc_holder x = Some (owner, p, e) \<longrightarrow>
        (\<exists>(t, op, out) \<in> set h. op_session op = (c, s) \<and> extends op \<and> e = t + ms))"

lemma spec_step_expiry:
  "dc_holder (spec_step ms now op x) = Some (owner, p, e) \<Longrightarrow>
   dc_holder x = Some (owner, p, e) \<or> extends op \<and> e = now + ms"
  by (cases op) (auto simp: spec_acquire_def spec_renew_def spec_release_def Let_def split: option.splits if_splits)

lemma expiry_ok_step:
  assumes "expiry_ok ms c s h x" and "x' = x \<or> op_session op = (c, s) \<and> x' = spec_step ms now op x"
  shows "expiry_ok ms c s ((now, op, out) # h) x'"
  using assms spec_step_expiry [of ms now op x] unfolding expiry_ok_def by fastforce

lemma run_history:
  assumes "dir_run env ttl h t r" and laws: "directory_laws env" "ttl_ms ttl = Inr ms"
    and u: "uuid_text c" "uuid_text s" and "length h < 10 ^ 14"
  shows "\<exists>x. stores env r c s x \<and> dc_counter x \<le> length h \<and> history_ok x (claims c s h) \<and> expiry_ok ms c s h x"
  using assms(1,6)
proof induction
  case (start r t)
  have "stores env r c s \<lparr>dc_counter = 0, dc_holder = None\<rparr>"
    using start(1) [of _ c s] by (simp add: stores_def session_keys_def)
  then show ?case by (auto intro!: exI simp: history_ok_def epochs_def owner_of_def expiry_ok_def)
next
  case (call h t r now op l out r')
  then obtain x where x: "stores env r c s x" "dc_counter x \<le> length h" "history_ok x (claims c s h)" "expiry_ok ms c s h x" by auto
  with call(6) have b: "dc_counter x + 1 < 10 ^ 14" by simp
  obtain x' where x': "stores env r' c s x'" "x' = x \<or> op_session op = (c, s) \<and> x' = spec_step ms now op x"
    "op_session op = (c, s) \<Longrightarrow> failed out \<or> x' = spec_step ms now op x \<and> spec_out ms now op x out"
    using call_cell [OF laws call(3,4) x(1) b u] by blast
  have "history_ok x' (claims c s ((now, op, out) # h))"
    using x' history_ok_step [OF x(3), of x' ms now op] history_ok_claim [OF x(3) _ _ b, of ms now op out]
      claim_of_failed [of out op]
    by (auto split: option.split)
  moreover have "dc_counter x' \<le> length ((now, op, out) # h)"
    using x'(2) x(2) spec_step_epoch [of ms now op x] by auto
  ultimately show ?case using x'(1) expiry_ok_step [OF x(4) x'(2)] by blast
next
  case (others h t r r')
  then show ?case using stores_same [of c s r' r env] by simp
qed

section \<open>Keeping a lease\<close>

text \<open>A call that gives the lease to its holder until \<open>ms\<close> milliseconds later.\<close>

definition grants :: "session_lease \<Rightarrow> dir_out \<Rightarrow> bool" where
  "grants l out \<longleftrightarrow> out = AcquireOut (Inr (Acquired l)) \<or> out = RenewOut (Inr (Renewed l))"

definition holds_until :: "directory_env \<Rightarrow> redis \<Rightarrow> uuid \<Rightarrow> uuid \<Rightarrow> session_lease \<Rightarrow> nat \<Rightarrow> bool" where
  "holds_until env r c s l e \<longleftrightarrow>
     (\<exists>x owner p t. stores env r c s x \<and> dc_holder x = Some (owner, p, t) \<and> e \<le> t \<and>
        l = lease_of c s owner (dc_counter x) p)"

lemma holds_accepted:
  assumes "holds_until env r c s l e" and "directory_laws env" and "now \<le> e" and "uuid_text c" and "uuid_text s"
  shows "validate_fenced_header env Up now c (lease_fenced_header l) r = Inr ()"
    and "ttl_ms ttl = Inr ms \<Longrightarrow> fst (acquire env ttl Up now c s owner' p' r) = Inr (Exists l)"
proof -
  obtain x owner p t where x: "stores env r c s x" "dc_holder x = Some (owner, p, t)" "e \<le> t"
    "l = lease_of c s owner (dc_counter x) p" using assms(1) by (auto simp: holds_until_def)
  with assms(3) have lh: "live_holder now x = Some (owner, p)" by (simp add: live_holder_def)
  then show "validate_fenced_header env Up now c (lease_fenced_header l) r = Inr ()"
    using validate_exact [OF assms(2), of r c "lease_fenced_header l" x now] x
    by (simp add: accepts_header_def lease_fenced_header_def stores_def lease_of_def unat_of_nat)
  show "fst (acquire env ttl Up now c s owner' p' r) = Inr (Exists l)" if "ttl_ms ttl = Inr ms"
    using that live_cell(1) [OF assms(2) x(1) lh] live_holder_ok [OF x(1) lh] x(4)
      parse_lease_text [OF assms(2), of owner "dc_counter x" c s p]
    by (simp add: acquire_def ACQUIRE_SCRIPT_def invoke_def)
qed

definition releases :: "session_lease \<Rightarrow> dir_op \<Rightarrow> bool" where
  "releases l op =
     (case op of
        Release l' \<Rightarrow> sl_community_id l' = sl_community_id l \<and> lease_fenced_header l' = lease_fenced_header l
      | _ \<Rightarrow> False)"

lemma grant_holds:
  assumes "directory_laws env" and "ttl_ms ttl = Inr ms" and "op_typed op"
    and "run_dir_op env ttl l now op r = (out, r')" and "stores env r c s x" and "dc_counter x + 1 < 10 ^ 14"
    and "op_session op = (c, s)" and "grants lease out"
  shows "holds_until env r' c s lease (now + ms)"
proof -
  have u: "uuid_text c" "uuid_text s" using assms(3,7) by (auto simp: op_typed_def)
  have nf: "\<not> failed out" using assms(8) by (auto simp: grants_def)
  obtain x' where x': "stores env r' c s x'" "x' = spec_step ms now op x" "spec_out ms now op x out"
    using call_cell [OF assms(1-6) u] assms(7) nf by metis
  show ?thesis
  proof (cases op)
    case (Acquire c' s' owner p)
    with x' assms(7,8) show ?thesis
      by (auto simp: holds_until_def grants_def spec_acquire_def split: option.splits)
  next
    case (Renew l')
    with x' assms(8) have held: "held_by now l' x" by (auto simp: grants_def spec_renew_def Let_def split: if_splits)
    then obtain owner p t where "dc_holder x = Some (owner, p, t)" "live_holder now x = Some (owner, p)"
      by (auto simp: held_by_def live_holder_def split: option.splits if_splits)
    with Renew x' assms(7,8) held show ?thesis
      by (auto simp: holds_until_def grants_def spec_renew_def live_lease_def Let_def)
  qed (use x' assms(8) in \<open>auto simp: grants_def\<close>)
qed

lemma hold_step:
  assumes "directory_laws env" and "ttl_ms ttl = Inr ms" and "op_typed op"
    and "run_dir_op env ttl l now op r = (out, r')" and "holds_until env r c s lease e" and "now \<le> e" and "e \<le> now + ms"
    and "\<not> releases lease op" and "uuid_text c" and "uuid_text s" and "\<And>x. stores env r c s x \<Longrightarrow> dc_counter x + 1 < 10 ^ 14"
  shows "holds_until env r' c s lease e"
proof -
  obtain x owner p t where x: "stores env r c s x" "dc_holder x = Some (owner, p, t)" "e \<le> t"
    "lease = lease_of c s owner (dc_counter x) p" using assms(5) by (auto simp: holds_until_def)
  have lh: "live_holder now x = Some (owner, p)" using x assms(6) by (simp add: live_holder_def)
  obtain x' where x': "stores env r' c s x'" "x' = x \<or> op_session op = (c, s) \<and> x' = spec_step ms now op x"
    using call_cell [OF assms(1-4) x(1) assms(11) [OF x(1)] assms(9,10)] by metis
  have "\<exists>t'. dc_holder x' = Some (owner, p, t') \<and> e \<le> t' \<and> dc_counter x' = dc_counter x"
  proof (cases op)
    case (Release l')
    have "\<not> held_by now l' x" if "op_session op = (c, s)"
      using Release assms(8) that x(4) lh of_nat_generation [of "dc_counter x"] live_holder_ok [OF x(1) lh]
      by (auto simp: releases_def held_by_def lease_fenced_header_def lease_of_def word_unat_eq_iff)
    with Release x' x(2,3) show ?thesis by (auto simp: spec_release_def Let_def)
  qed (use x' x(2,3) lh assms(7) in \<open>auto simp: spec_acquire_def spec_renew_def live_lease_def Let_def\<close>)
  with x'(1) x(4) show ?thesis by (auto simp: holds_until_def)
qed

lemma stores_counter: "stores env r c s x \<Longrightarrow> stores env r c s y \<Longrightarrow> dc_counter x = dc_counter y"
  by (auto simp: stores_def split: if_splits)

lemma run_times: "dir_run env ttl h t r \<Longrightarrow> \<forall>(t', _) \<in> set h. t' \<le> t"
  by (induction rule: dir_run.induct) (auto intro: order_trans)

lemma run_counter:
  assumes "dir_run env ttl h t r" and "directory_laws env" and "ttl_ms ttl = Inr ms"
    and "uuid_text c" and "uuid_text s" and "length h + 1 < 10 ^ 14" and "stores env r c s x"
  shows "dc_counter x + 1 < 10 ^ 14"
  using run_history [OF assms(1-5)] assms(6) stores_counter [OF assms(7)] by fastforce

lemma run_holds:
  assumes "dir_run env ttl h t r" and laws: "directory_laws env" "ttl_ms ttl = Inr ms"
    and u: "uuid_text c" "uuid_text s" and "length h < 10 ^ 14"
    and "h = h2 @ (t0, op0, out0) # h1" and g: "op_session op0 = (c, s)" "grants lease out0"
    and "\<forall>(t', op, _) \<in> set h2. t' \<le> t0 + ms \<and> \<not> releases lease op"
  shows "holds_until env r c s lease (t0 + ms)"
  using assms(1,6,7,10)
proof (induction arbitrary: h2)
  case (call h t r now op l out r')
  have "length h < 10 ^ 14" "length h + 1 < 10 ^ 14" using call(6) by simp_all
  note cnt = run_counter [OF call(1) laws u this(2)]
  obtain x where x: "stores env r c s x" using run_history [OF call(1) laws u \<open>length h < 10 ^ 14\<close>] by blast
  show ?case
  proof (cases h2)
    case Nil
    with call(7) have e: "(now, op, out) = (t0, op0, out0)" by simp
    with grant_holds [OF laws call(3,4) x cnt [OF x]] g show ?thesis by auto
  next
    case (Cons ev h2')
    with call(7,8) have h: "h = h2' @ (t0, op0, out0) # h1" and ev: "now \<le> t0 + ms" "\<not> releases lease op"
      "\<forall>(t', op, _) \<in> set h2'. t' \<le> t0 + ms \<and> \<not> releases lease op" by auto
    have "t0 \<le> now" using run_times [OF call(1)] call(2) h by auto
    with hold_step [OF laws call(3,4) call.IH [OF \<open>length h < 10 ^ 14\<close> h ev(3)] ev(1) _ ev(2) u cnt] show ?thesis
      by simp
  qed
next
  case (others h t r r')
  then show ?case using stores_same [of c s r' r env] by (simp add: holds_until_def)
qed simp

section \<open>Theorems\<close>

text \<open>
  C13. Ownership is fenced: in every history of calls by any number of runtimes, with requests and
  replies lost anywhere, the owners that the directory reports for a session (granted, found,
  renewed or released leases, accepted frame headers) form epochs. Read from the newest to the
  oldest, the generations never increase, a granted lease has a larger generation than every
  earlier report, and one generation has one owner. Generations are texts of at most 14 digits, so the
  history must have fewer than ten to the power of 14 calls.
\<close>

theorem ownership_epochs:
  assumes "dir_run env ttl h t r" and "directory_laws env" and "ttl_ms ttl = Inr ms"
    and "uuid_text c" and "uuid_text s" and "length h < 10 ^ 14"
  shows "sorted_wrt (\<lambda>(fresh, g, owner) (_, g', owner').
    (if fresh then g' < g else g' \<le> g) \<and> (g' = g \<longrightarrow> owner' = owner)) (claims c s h)"
  using run_history [OF assms] by (auto simp: history_ok_def epochs_def)

text \<open>
  C25. A lease protects its owner: after a lease was granted or renewed at time \<open>t0\<close>, and unless that
  very lease is released, every frame header of this lease is accepted until \<open>ms\<close> milliseconds later,
  and every other runtime that asks for the session in this time is told about this lease.
\<close>

theorem lease_protects:
  assumes "dir_run env ttl (h2 @ (t0, op0, out0) # h1) t r" and "directory_laws env" and "ttl_ms ttl = Inr ms"
    and "op_session op0 = (c, s)" and "uuid_text c" and "uuid_text s" and "grants lease out0"
    and "\<forall>(_, op, _) \<in> set h2. \<not> releases lease op" and "length (h2 @ (t0, op0, out0) # h1) < 10 ^ 14"
    and "t \<le> now" and "now \<le> t0 + ms"
  shows "validate_fenced_header env Up now c (lease_fenced_header lease) r = Inr () \<and>
    fst (acquire env ttl Up now c s owner p r) = Inr (Exists lease)"
proof -
  have "\<forall>(t', op, _) \<in> set h2. t' \<le> t0 + ms \<and> \<not> releases lease op"
  proof clarify
    fix t' op out assume m: "(t', op, out) \<in> set h2"
    with run_times [OF assms(1)] have "t' \<le> t" by auto
    with m assms(8,10,11) show "t' \<le> t0 + ms \<and> \<not> releases lease op" by fastforce
  qed
  then have "holds_until env r c s lease (t0 + ms)"
    by (rule run_holds [OF assms(1-3,5,6,9) refl assms(4,7)])
  from holds_accepted [OF this assms(2,11,5,6)] assms(3) show ?thesis by blast
qed

text \<open>
  A session never stays blocked: once \<open>ms\<close> milliseconds have passed since the last call that
  took or renewed the lease, whatever became of its owner, the next runtime that asks acquires the
  session, with a generation above everything reported before.
\<close>

lemma expired_lease_acquirable:
  assumes "dir_run env ttl h t r" and "directory_laws env" and "ttl_ms ttl = Inr ms"
    and "uuid_text c" and "uuid_text s" and "length h + 1 < 10 ^ 14"
    and "\<forall>(t', op, _) \<in> set h. op_session op = (c, s) \<and> extends op \<longrightarrow> t' + ms < now"
    and "is_runtime_id owner"
  shows "\<exists>lease. fst (acquire env ttl Up now c s owner p r) = Inr (Acquired lease) \<and>
    sl_owner_runtime_id lease = owner \<and> (\<forall>(_, g, _) \<in> set (claims c s h). g < unat (sl_generation lease))"
proof -
  obtain x where x: "stores env r c s x" "history_ok x (claims c s h)" "expiry_ok ms c s h x"
    using run_history [OF assms(1-5)] assms(6) by auto
  have cnt: "dc_counter x + 1 < 10 ^ 14" by (rule run_counter [OF assms(1-6) x(1)])
  have "live_holder now x = None"
    using x(3) assms(7) by (fastforce simp: live_holder_def expiry_ok_def split: option.splits)
  from acquire_fresh [OF assms(2) x(1) assms(3) cnt assms(8) this]
  have a: "fst (acquire env ttl Up now c s owner p r) = Inr (Acquired (lease_of c s owner (dc_counter x + 1) p))"
    by simp
  have "\<forall>(_, g, _) \<in> set (claims c s h). g < dc_counter x + 1" using x(2) by (fastforce simp: history_ok_def)
  with a cnt show ?thesis by (intro exI [of _ "lease_of c s owner (dc_counter x + 1) p"]) simp
qed

text \<open>
  C35. The texts in Redis implement the abstract cell of a counter and a holder: every call with a
  working link returns what the specification of the cell returns, leaves the texts of the cell the
  specification leaves, and touches no key of another session.
\<close>

theorem directory_refines_cell:
  assumes "directory_laws env" and "ttl_ms ttl = Inr ms" and "op_typed op" and "op_session op = (c, s)"
    and "stores env r c s x" and "dc_counter x + 1 < 10 ^ 14"
  shows "spec_out ms now op x (fst (run_dir_op env ttl Up now op r)) \<and>
    stores env (snd (run_dir_op env ttl Up now op r)) c s (spec_step ms now op x) \<and>
    only_session c s r (snd (run_dir_op env ttl Up now op r))"
  by (rule run_typed [OF assms])

section \<open>A concrete history\<close>

fun run_calls :: "directory_env \<Rightarrow> nat \<Rightarrow> (nat \<times> dir_op) list \<Rightarrow> (nat \<times> dir_op \<times> dir_out) list \<times> redis" where
  "run_calls env ttl [] = ([], Map.empty)"
| "run_calls env ttl ((now, op) # calls) =
     (let (h, r) = run_calls env ttl calls; (out, r') = run_dir_op env ttl Up now op r
      in ((now, op, out) # h, r'))"

lemma run_calls_run:
  assumes "list_all (\<lambda>(_, op). op_typed op) calls" and "sorted_wrt (\<lambda>(t, _) (t', _). t' \<le> t) calls"
  shows "dir_run env ttl (fst (run_calls env ttl calls)) (case calls of [] \<Rightarrow> 0 | (t, _) # _ \<Rightarrow> t) (snd (run_calls env ttl calls))"
  using assms
proof (induction env ttl calls rule: run_calls.induct)
  case (1 env ttl)
  show ?case by (auto intro: dir_run.start)
next
  case (2 env ttl now op calls)
  have "(case calls of [] \<Rightarrow> 0 | (t, _) # _ \<Rightarrow> t) \<le> now" using 2(3) by (cases calls) auto
  with 2 show ?case by (auto simp: split_beta Let_def intro!: dir_run.call)
qed

definition demo_dir_env :: directory_env where
  "demo_dir_env = \<lparr>de_hex_encode = hex_text, de_hex_decode = unhex_text, de_lua_long = \<lambda>_. ''1e+14''\<rparr>"

definition demo_community :: uuid where "demo_community = replicate 36 CHR ''c''"
definition demo_session :: uuid where "demo_session = replicate 36 CHR ''a''"
definition demo_runtime :: "u8 \<Rightarrow> runtime_id" where "demo_runtime n = replicate 32 n"

definition demo_lease :: "u8 \<Rightarrow> u64 \<Rightarrow> session_lease" where
  "demo_lease n g = \<lparr>sl_community_id = demo_community, sl_session_id = demo_session,
     sl_owner_runtime_id = demo_runtime n, sl_generation = g, sl_profile = HuddleControl\<rparr>"

text \<open>Runtime 1 takes the session and renews too late; runtime 2 has taken it meanwhile.\<close>

definition demo_calls :: "(nat \<times> dir_op) list" where
  "demo_calls =
     [(40002, Validate demo_community (lease_fenced_header (demo_lease 2 2))),
      (40001, Renew (demo_lease 1 1)),
      (40000, Acquire demo_community demo_session (demo_runtime 2) HuddleControl),
      (0, Acquire demo_community demo_session (demo_runtime 1) HuddleControl)]"

definition demo_history :: "(nat \<times> dir_op \<times> dir_out) list" where
  "demo_history = fst (run_calls demo_dir_env DEFAULT_LEASE_TTL demo_calls)"

definition demo_store :: redis where
  "demo_store = snd (run_calls demo_dir_env DEFAULT_LEASE_TTL demo_calls)"

lemma demo_dir_laws:
  "directory_laws demo_dir_env" "ttl_ms DEFAULT_LEASE_TTL = Inr 30000" "uuid_text demo_community" "uuid_text demo_session"
  "is_runtime_id (demo_runtime n)"
  by (simp_all add: directory_laws_def demo_dir_env_def std_hex.hex_codec_axioms ttl_ms_def DEFAULT_LEASE_TTL_def
      uuid_text_def demo_community_def demo_session_def lower_hex_def is_runtime_id_def demo_runtime_def list_all_iff)

lemma demo_history_run: "dir_run demo_dir_env DEFAULT_LEASE_TTL demo_history 40002 demo_store"
  using run_calls_run [of demo_calls demo_dir_env DEFAULT_LEASE_TTL]
  unfolding demo_history_def demo_store_def by (simp add: demo_calls_def op_typed_def demo_dir_laws
    demo_lease_def lease_fenced_header_def)

lemma demo_call:
  assumes "run_calls demo_dir_env DEFAULT_LEASE_TTL calls = (h, r)" and "stores demo_dir_env r demo_community demo_session x"
    and "op_typed op" and "op_session op = (demo_community, demo_session)" and "dc_counter x < 1000"
  shows "\<exists>out r'. run_calls demo_dir_env DEFAULT_LEASE_TTL ((now, op) # calls) = ((now, op, out) # h, r') \<and>
    spec_out 30000 now op x out \<and> stores demo_dir_env r' demo_community demo_session (spec_step 30000 now op x)"
  using run_typed [OF demo_dir_laws(1,2) assms(3,4,2), of now] assms(1,5) by (simp add: split_beta)

lemma demo_history_eq:
  "demo_history =
     [(40002, Validate demo_community (lease_fenced_header (demo_lease 2 2)), ValidateOut (Inr ())),
      (40001, Renew (demo_lease 1 1), RenewOut (Inr (Lost (Some (demo_lease 2 2)) (Some 2)))),
      (40000, Acquire demo_community demo_session (demo_runtime 2) HuddleControl, AcquireOut (Inr (Acquired (demo_lease 2 2)))),
      (0, Acquire demo_community demo_session (demo_runtime 1) HuddleControl, AcquireOut (Inr (Acquired (demo_lease 1 1))))]"
proof -
  let ?run = "run_calls demo_dir_env DEFAULT_LEASE_TTL"
    and ?st = "\<lambda>r x. stores demo_dir_env r demo_community demo_session x"
  note sp = spec_acquire_def spec_renew_def live_lease_def live_holder_def lease_of_def demo_lease_def held_by_def
    counter_value_def op_typed_def demo_dir_laws Let_def
  define c1 where "c1 = (0 :: nat, Acquire demo_community demo_session (demo_runtime 1) HuddleControl)"
  define c2 where "c2 = (40000 :: nat, Acquire demo_community demo_session (demo_runtime 2) HuddleControl)"
  define c3 where "c3 = (40001 :: nat, Renew (demo_lease 1 1))"
  define x1 where "x1 = \<lparr>dc_counter = 1, dc_holder = Some (demo_runtime 1, HuddleControl, 30000)\<rparr>"
  define x2 where "x2 = \<lparr>dc_counter = 2, dc_holder = Some (demo_runtime 2, HuddleControl, 70000)\<rparr>"
  have ne: "demo_runtime 2 \<noteq> demo_runtime 1" by (simp add: demo_runtime_def)
  have "?st Map.empty \<lparr>dc_counter = 0, dc_holder = None\<rparr>" by (simp add: stores_def)
  from demo_call [OF run_calls.simps(1) this, of "snd c1" "fst c1"] obtain r1 where
    r1: "?run [c1] = ([(fst c1, snd c1, AcquireOut (Inr (Acquired (demo_lease 1 1))))], r1)" "?st r1 x1"
    by (auto simp: sp c1_def x1_def)
  from demo_call [OF r1, of "snd c2" "fst c2"] obtain r2 where
    r2: "?run [c2, c1] = ((fst c2, snd c2, AcquireOut (Inr (Acquired (demo_lease 2 2)))) #
       [(fst c1, snd c1, AcquireOut (Inr (Acquired (demo_lease 1 1))))], r2)" "?st r2 x2"
    by (auto simp: sp c2_def x1_def x2_def numeral_2_eq_2 simp del: run_calls.simps)
  from demo_call [OF r2, of "snd c3" "fst c3"] ne obtain r3 where
    r3: "?run [c3, c2, c1] = ((fst c3, snd c3, RenewOut (Inr (Lost (Some (demo_lease 2 2)) (Some 2)))) #
       (fst c2, snd c2, AcquireOut (Inr (Acquired (demo_lease 2 2)))) #
       [(fst c1, snd c1, AcquireOut (Inr (Acquired (demo_lease 1 1))))], r3)" "?st r3 x2"
    by (auto simp: sp c3_def x2_def simp del: run_calls.simps)
  have "validate_fenced_header demo_dir_env Up 40002 demo_community (lease_fenced_header (demo_lease 2 2)) r3 = Inr ()"
    using validate_exact [OF demo_dir_laws(1), of r3 demo_community "lease_fenced_header (demo_lease 2 2)" x2] r3(2)
    by (simp add: accepts_header_def lease_fenced_header_def demo_lease_def live_holder_def x2_def)
  then show ?thesis
    using r3(1) unfolding demo_history_def demo_calls_def c1_def [symmetric] c2_def [symmetric] c3_def [symmetric]
    by (simp add: run_calls.simps(2) [of _ _ 40002] c1_def c2_def c3_def del: run_calls.simps)
qed

lemma demo_claims:
  "claims demo_community demo_session demo_history =
     [(False, 2, demo_runtime 2), (True, 2, demo_runtime 2), (True, 1, demo_runtime 1)]"
  by (simp add: demo_history_eq demo_lease_def lease_fenced_header_def lease_claim_def)

theorem ownership_epochs_witness:
  "sorted_wrt (\<lambda>(fresh, g, owner) (_, g', owner').
     (if fresh then g' < g else g' \<le> g) \<and> (g' = g \<longrightarrow> owner' = owner)) (claims demo_community demo_session demo_history) \<and>
   length (claims demo_community demo_session demo_history) = 3"
proof -
  have "length demo_history < 10 ^ 14" by (simp add: demo_history_eq)
  from ownership_epochs [OF demo_history_run demo_dir_laws(1-4) this] demo_claims show ?thesis by simp
qed

theorem lease_protects_witness:
  "validate_fenced_header demo_dir_env Up 50000 demo_community (lease_fenced_header (demo_lease 2 2)) demo_store = Inr () \<and>
   fst (acquire demo_dir_env DEFAULT_LEASE_TTL Up 50000 demo_community demo_session (demo_runtime 3) HuddleControl demo_store)
     = Inr (Exists (demo_lease 2 2))"
proof (rule lease_protects [where ms = 30000])
  show "dir_run demo_dir_env DEFAULT_LEASE_TTL
     ([(40002, Validate demo_community (lease_fenced_header (demo_lease 2 2)), ValidateOut (Inr ())),
       (40001, Renew (demo_lease 1 1), RenewOut (Inr (Lost (Some (demo_lease 2 2)) (Some 2))))] @
      (40000, Acquire demo_community demo_session (demo_runtime 2) HuddleControl, AcquireOut (Inr (Acquired (demo_lease 2 2)))) #
      [(0, Acquire demo_community demo_session (demo_runtime 1) HuddleControl, AcquireOut (Inr (Acquired (demo_lease 1 1))))])
     40002 demo_store"
    using demo_history_run by (simp add: demo_history_eq)
qed (simp_all add: demo_dir_laws grants_def releases_def)

lemma expired_lease_acquirable_instance:
  "\<exists>lease. fst (acquire demo_dir_env DEFAULT_LEASE_TTL Up 80000 demo_community demo_session (demo_runtime 3) HuddleControl demo_store)
     = Inr (Acquired lease) \<and> sl_owner_runtime_id lease = demo_runtime 3 \<and>
     (\<forall>(_, g, _) \<in> set (claims demo_community demo_session demo_history). g < unat (sl_generation lease))"
proof (rule expired_lease_acquirable [OF demo_history_run demo_dir_laws(1-4)])
  show "\<forall>(t', op, _) \<in> set demo_history. op_session op = (demo_community, demo_session) \<and> extends op \<longrightarrow> t' + 30000 < 80000"
    by (simp add: demo_history_eq)
qed (simp_all add: demo_history_eq demo_dir_laws)

theorem directory_refines_cell_witness:
  "fst (acquire demo_dir_env DEFAULT_LEASE_TTL Up 0 demo_community demo_session (demo_runtime 1) HuddleControl Map.empty)
     = Inr (Acquired (demo_lease 1 1))"
proof -
  let ?op = "Acquire demo_community demo_session (demo_runtime 1) HuddleControl"
    and ?x = "\<lparr>dc_counter = 0, dc_holder = None\<rparr> :: dir_cell"
  have "op_typed ?op" "stores demo_dir_env Map.empty demo_community demo_session ?x"
    by (simp_all add: op_typed_def demo_dir_laws stores_def)
  from directory_refines_cell [OF demo_dir_laws(1,2) this(1) _ this(2), of 0] show ?thesis
    by (simp add: spec_acquire_def live_lease_def live_holder_def lease_of_def demo_lease_def)
qed

end
