(* ===== verification/Reliable_Tunnel.thy ===== *)
theory Reliable_Tunnel
  imports Session_Fencing
begin

text \<open>
  Reliable tunnel sessions, crates/buzz-relay/src/tunnel/reliable.rs: joining a session through
  the directory, accepting a stream of another runtime, the frames of a stream, sending in
  chunks, validated receiving, and the background renewal of a lease.

  The mesh transport is the record \<open>mesh_io\<close> of its three operations on a stream, and the way
  to open a stream; the uuid crate's conversion to 16 bytes and back is \<open>uuid_codec\<close>.
\<close>

section \<open>Data\<close>

record 's mesh_io =
  io_send :: "mesh_stream_frame \<Rightarrow> 's \<Rightarrow> (fence_error + unit) \<times> 's"
  io_recv :: "'s \<Rightarrow> (fence_error + mesh_stream_frame option) \<times> 's"
  io_finish :: "'s \<Rightarrow> (fence_error + unit) \<times> 's"

record uuid_codec =
  uc_as_bytes :: "uuid \<Rightarrow> bytes"
  uc_from_bytes :: "bytes \<Rightarrow> uuid"

datatype reliable_error =
    Directory directory_error
  | Mesh fence_error
  | ProfileMismatch uuid profile profile
  | SenderMismatch runtime_id runtime_id
  | UnexpectedStreamRole
  | OwnerIsNotLocal uuid runtime_id runtime_id
  | UnexpectedFrame string
  | FrameFenceMismatch fenced_header fenced_header
  | CommunityMismatch uuid uuid
  | MalformedReliableFrame string

datatype reliable_wire_frame = WireData uuid bytes | WireGoodbye uuid goodbye_reason

datatype reliable_frame = DataBytes bytes | GoodbyeReceived goodbye_reason

record 's reliable_stream =
  rm_fenced :: fenced_header
  rm_stream :: 's
  rm_community_id :: "uuid option"

datatype 's reliable_join = Owned session_lease | Forwarded session_lease "'s reliable_stream"

record 's reliable_inbound =
  ri_fenced :: fenced_header
  ri_from :: runtime_id
  ri_stream :: "'s reliable_stream"

definition MAX_RELIABLE_PAYLOAD_BYTES :: nat where "MAX_RELIABLE_PAYLOAD_BYTES = 1024 * 1024"

section \<open>Frames\<close>

fun to_wire_byte :: "goodbye_reason \<Rightarrow> u8" where
  "to_wire_byte SessionEnded = 1"
| "to_wire_byte Draining = 2"
| "to_wire_byte StaleGenerationReason = 3"

definition from_wire_byte :: "u8 \<Rightarrow> reliable_error + goodbye_reason" where
  "from_wire_byte b =
     (if b = 1 then Inr SessionEnded else if b = 2 then Inr Draining
      else if b = 3 then Inr StaleGenerationReason
      else Inl (MalformedReliableFrame ''unknown goodbye reason''))"

fun wire_community :: "reliable_wire_frame \<Rightarrow> uuid" where
  "wire_community (WireData c _) = c"
| "wire_community (WireGoodbye c _) = c"

fun wire_encode :: "uuid_codec \<Rightarrow> reliable_wire_frame \<Rightarrow> bytes" where
  "wire_encode uc (WireData c payload) = [1, 1] @ uc_as_bytes uc c @ payload"
| "wire_encode uc (WireGoodbye c reason) = [1, 2] @ uc_as_bytes uc c @ [to_wire_byte reason]"

definition wire_decode :: "uuid_codec \<Rightarrow> bytes \<Rightarrow> reliable_error + reliable_wire_frame" where
  "wire_decode uc bs =
     (if length bs < 18 then Inl (MalformedReliableFrame ''too short'')
      else if bs ! 0 \<noteq> 1 then Inl (MalformedReliableFrame ''unknown version'')
      else let c = uc_from_bytes uc (take 16 (drop 2 bs)) in
        if bs ! 1 = 1 then Inr (WireData c (drop 18 bs))
        else if bs ! 1 = 2 then
          if length bs \<noteq> 19 then Inl (MalformedReliableFrame ''bad goodbye length'')
          else and_then (from_wire_byte (bs ! 18)) (\<lambda>reason. Inr (WireGoodbye c reason))
        else Inl (MalformedReliableFrame ''unknown kind''))"

section \<open>Streams\<close>

definition stream_new :: "fenced_header \<Rightarrow> 's \<Rightarrow> 's reliable_stream" where
  "stream_new fenced stream = \<lparr>rm_fenced = fenced, rm_stream = stream, rm_community_id = None\<rparr>"

definition with_community :: "uuid \<Rightarrow> 's reliable_stream \<Rightarrow> 's reliable_stream" where
  "with_community c st = st\<lparr>rm_community_id := Some c\<rparr>"

definition ensure_outbound_community ::
  "uuid \<Rightarrow> 's reliable_stream \<Rightarrow> (reliable_error + unit) \<times> 's reliable_stream" where
  "ensure_outbound_community c st =
     (case rm_community_id st of
        Some expected \<Rightarrow> if expected \<noteq> c then (Inl (CommunityMismatch expected c), st) else (Inr (), st)
      | None \<Rightarrow> (Inr (), st\<lparr>rm_community_id := Some c\<rparr>))"

definition send_frame ::
  "'s mesh_io \<Rightarrow> mesh_stream_frame \<Rightarrow> 's reliable_stream \<Rightarrow> (reliable_error + unit) \<times> 's reliable_stream" where
  "send_frame io frame st =
     (let (res, s) = io_send io frame (rm_stream st) in (map_err Mesh res, st\<lparr>rm_stream := s\<rparr>))"

definition finish :: "'s mesh_io \<Rightarrow> 's reliable_stream \<Rightarrow> (reliable_error + unit) \<times> 's reliable_stream" where
  "finish io st =
     (let (res, s) = io_finish io (rm_stream st) in (map_err Mesh res, st\<lparr>rm_stream := s\<rparr>))"

text \<open>\<open>bytes.chunks(n)\<close> for a positive \<open>n\<close>.\<close>

fun chunks :: "nat \<Rightarrow> 'a list \<Rightarrow> 'a list list" where
  "chunks n xs = (if xs = [] \<or> n = 0 then [] else take n xs # chunks n (drop n xs))"

declare chunks.simps [simp del]

definition data_frame :: "uuid_codec \<Rightarrow> uuid \<Rightarrow> 's reliable_stream \<Rightarrow> bytes \<Rightarrow> mesh_stream_frame" where
  "data_frame uc c st chunk = DataFrame (rm_fenced st) (wire_encode uc (WireData c chunk))"

fun send_chunks ::
  "uuid_codec \<Rightarrow> 's mesh_io \<Rightarrow> uuid \<Rightarrow> bytes list \<Rightarrow> 's reliable_stream \<Rightarrow> (reliable_error + unit) \<times> 's reliable_stream" where
  "send_chunks uc io c [] st = (Inr (), st)"
| "send_chunks uc io c (chunk # cs) st =
     then_do (send_frame io (data_frame uc c st chunk) st) (\<lambda>_ st. send_chunks uc io c cs st)"

definition send_bytes ::
  "uuid_codec \<Rightarrow> 's mesh_io \<Rightarrow> uuid \<Rightarrow> bytes \<Rightarrow> 's reliable_stream \<Rightarrow> (reliable_error + unit) \<times> 's reliable_stream" where
  "send_bytes uc io c bytes st =
     then_do (ensure_outbound_community c st) (\<lambda>_ st.
     send_chunks uc io c (chunks MAX_RELIABLE_PAYLOAD_BYTES bytes) st)"

definition send_goodbye ::
  "uuid_codec \<Rightarrow> 's mesh_io \<Rightarrow> uuid \<Rightarrow> goodbye_reason \<Rightarrow> 's reliable_stream \<Rightarrow> (reliable_error + unit) \<times> 's reliable_stream" where
  "send_goodbye uc io c reason st =
     then_do (ensure_outbound_community c st) (\<lambda>_ st.
     then_do (send_frame io (DataFrame (rm_fenced st) (wire_encode uc (WireGoodbye c reason))) st) (\<lambda>_ st.
     finish io st))"

text \<open>\<open>validate\<close> is the call of \<open>validate_fenced_header\<close> at the time of the frame.\<close>

definition validate_frame_fence ::
  "(uuid \<Rightarrow> fenced_header \<Rightarrow> fence_error + unit) \<Rightarrow> uuid \<Rightarrow> fenced_header \<Rightarrow> 's reliable_stream
   \<Rightarrow> (reliable_error + unit) \<times> 's reliable_stream" where
  "validate_frame_fence validate c fenced st =
     (if fenced \<noteq> rm_fenced st then (Inl (FrameFenceMismatch (rm_fenced st) fenced), st)
      else case rm_community_id st of
        Some expected \<Rightarrow>
          if expected \<noteq> c then (Inl (CommunityMismatch expected c), st)
          else or_return (map_err Mesh (validate c fenced)) st (\<lambda>_. (Inr (), st))
      | None \<Rightarrow>
          or_return (map_err Mesh (validate c fenced)) st (\<lambda>_. (Inr (), st\<lparr>rm_community_id := Some c\<rparr>)))"

definition recv_validated ::
  "uuid_codec \<Rightarrow> 's mesh_io \<Rightarrow> (uuid \<Rightarrow> fenced_header \<Rightarrow> fence_error + unit) \<Rightarrow> 's reliable_stream
   \<Rightarrow> (reliable_error + reliable_frame option) \<times> 's reliable_stream" where
  "recv_validated uc io validate st =
     (let (res, s) = io_recv io (rm_stream st); st = st\<lparr>rm_stream := s\<rparr> in
      or_return (map_err Mesh res) st (\<lambda>next.
      case next of
        None \<Rightarrow> (Inr None, st)
      | Some (DataFrame fenced payload) \<Rightarrow>
          or_return (wire_decode uc payload) st (\<lambda>frame.
          then_do (validate_frame_fence validate (wire_community frame) fenced st) (\<lambda>_ st.
          case frame of
            WireData _ payload \<Rightarrow> (Inr (Some (DataBytes payload)), st)
          | WireGoodbye _ reason \<Rightarrow> (Inr (Some (GoodbyeReceived reason)), st)))
      | Some (GoodbyeFrame _ _) \<Rightarrow> (Inl (UnexpectedFrame ''goodbye''), st)
      | Some (Hello _) \<Rightarrow> (Inl (UnexpectedFrame ''hello''), st)
      | Some (Gossip _) \<Rightarrow> (Inl (UnexpectedFrame ''gossip''), st)))"

section \<open>Joining\<close>

definition join_session ::
  "directory_env \<Rightarrow> nat \<Rightarrow> link \<Rightarrow> nat \<Rightarrow> (runtime_id \<Rightarrow> stream_hello \<Rightarrow> fence_error + 's) \<Rightarrow> runtime_id
   \<Rightarrow> uuid \<Rightarrow> uuid \<Rightarrow> redis \<Rightarrow> (reliable_error + 's reliable_join) \<times> redis" where
  "join_session env ttl l now open_session_stream local_runtime_id c s r =
     (let (res, r) = acquire env ttl l now c s local_runtime_id ReliableStream r in
      (and_then (map_err Directory res) (\<lambda>res.
       case res of
         Acquired lease \<Rightarrow> Inr (Owned lease)
       | Exists lease \<Rightarrow>
           if sl_profile lease \<noteq> ReliableStream
           then Inl (ProfileMismatch s ReliableStream (sl_profile lease))
           else if sl_owner_runtime_id lease = local_runtime_id then Inr (Owned lease)
           else
             (let fenced = lease_fenced_header lease;
                  hello = \<lparr>sh_sender = local_runtime_id, sh_role = Session fenced ReliableStream\<rparr> in
              and_then (map_err Mesh (open_session_stream (sl_owner_runtime_id lease) hello)) (\<lambda>stream.
              Inr (Forwarded lease (stream_new fenced stream))))), r))"

definition accept_inbound ::
  "runtime_id \<Rightarrow> runtime_id \<Rightarrow> stream_hello \<Rightarrow> 's \<Rightarrow> reliable_error + 's reliable_inbound" where
  "accept_inbound local_runtime_id from_peer hello stream =
     (if sh_sender hello \<noteq> from_peer then Inl (SenderMismatch from_peer (sh_sender hello))
      else case sh_role hello of
        Control \<Rightarrow> Inl UnexpectedStreamRole
      | Session fenced profile \<Rightarrow>
          if profile \<noteq> ReliableStream
          then Inl (ProfileMismatch (fh_session_id fenced) ReliableStream profile)
          else if fh_owner_runtime_id fenced \<noteq> local_runtime_id
          then Inl (OwnerIsNotLocal (fh_session_id fenced) (fh_owner_runtime_id fenced) local_runtime_id)
          else Inr \<lparr>ri_fenced = fenced, ri_from = from_peer, ri_stream = stream_new fenced stream\<rparr>)"

section \<open>Renewal\<close>

text \<open>
  The worker of a lease: what its loop waits for, in the order of arrival; \<open>None\<close> while it still
  waits. The loop gives whether the caller cancelled, and whether the loss was signalled.
\<close>

datatype renewer_event = Cancelled | Ticked "directory_error + renew_result"

fun renew_loop :: "renewer_event list \<Rightarrow> (bool \<times> bool) option" where
  "renew_loop [] = None"
| "renew_loop (Cancelled # evs) = Some (True, False)"
| "renew_loop (Ticked res # evs) =
     (case res of
        Inr (Renewed _) \<Rightarrow> renew_loop evs
      | Inr (Lost _ _) \<Rightarrow> Some (False, True)
      | Inl _ \<Rightarrow> Some (False, True))"

definition lease_renewer :: "renewer_event list \<Rightarrow> directory_error + release_result \<Rightarrow> bool option" where
  "lease_renewer evs res =
     (case renew_loop evs of
        None \<Rightarrow> None
      | Some (caller_cancelled, lost) \<Rightarrow>
          Some (lost \<or>
            (case res of
               Inr (Released _) \<Rightarrow> False
             | Inr (NotOwner _ _) \<Rightarrow> True
             | Inl _ \<Rightarrow> \<not> caller_cancelled)))"

section \<open>The frame codec\<close>

text \<open>What the uuid crate guarantees, and the uuids that its conversion knows.\<close>

definition uuid_law :: "uuid_codec \<Rightarrow> bool" where
  "uuid_law uc \<longleftrightarrow> (\<forall>b. length b = 16 \<longrightarrow> uc_as_bytes uc (uc_from_bytes uc b) = b)"

definition is_uuid :: "uuid_codec \<Rightarrow> uuid \<Rightarrow> bool" where
  "is_uuid uc c = (length (uc_as_bytes uc c) = 16 \<and> uc_from_bytes uc (uc_as_bytes uc c) = c)"

lemma from_wire_byte_Inr: "from_wire_byte b = Inr reason \<longleftrightarrow> b = to_wire_byte reason"
  by (cases reason) (auto simp: from_wire_byte_def)

lemma decode_encode: "is_uuid uc (wire_community f) \<Longrightarrow> wire_decode uc (wire_encode uc f) = Inr f"
  by (cases f) (simp_all add: is_uuid_def wire_decode_def nth_append from_wire_byte_Inr [THEN iffD2] Let_def)

lemma split_header:
  assumes "18 \<le> length bs" shows "bs = [bs ! 0, bs ! 1] @ take 16 (drop 2 bs) @ drop 18 bs"
proof -
  obtain a b cs where "bs = a # b # cs" using assms by (cases bs; cases "tl bs") auto
  then show ?thesis by simp
qed

lemma encode_decode:
  assumes "uuid_law uc" and "wire_decode uc bs = Inr f"
  shows "wire_encode uc f = bs \<and> is_uuid uc (wire_community f)"
proof -
  let ?b = "take 16 (drop 2 bs)"
  have n: "18 \<le> length bs" "bs ! 0 = 1" using assms(2) by (auto simp: wire_decode_def split: if_splits)
  then have b: "uc_as_bytes uc (uc_from_bytes uc ?b) = ?b" and u: "is_uuid uc (uc_from_bytes uc ?b)"
    using assms(1) by (auto simp: uuid_law_def is_uuid_def)
  show ?thesis
  proof (cases "bs ! 1 = 1")
    case True
    with assms(2) n have "f = WireData (uc_from_bytes uc ?b) (drop 18 bs)" by (simp add: wire_decode_def Let_def)
    with b u n True split_header [OF n(1)] show ?thesis by simp
  next
    case False
    with assms(2) n obtain reason where l: "bs ! 1 = 2" "length bs = 19"
      and f: "bs ! 18 = to_wire_byte reason" "f = WireGoodbye (uc_from_bytes uc ?b) reason"
      by (auto simp: wire_decode_def Let_def and_then_Inr from_wire_byte_Inr split: if_splits)
    from Cons_nth_drop_Suc [of 18 bs] l have "drop 18 bs = [bs ! 18]" by simp
    with b u n l f split_header [OF n(1)] show ?thesis by simp
  qed
qed

section \<open>Receiving\<close>

lemma validate_frame_fence_Inr:
  "validate_frame_fence validate c fenced st = (Inr u, st') \<longleftrightarrow>
     fenced = rm_fenced st \<and> rm_community_id st \<in> {None, Some c} \<and> validate c fenced = Inr () \<and>
     st' = st\<lparr>rm_community_id := Some c\<rparr>"
  by (cases "validate c fenced"; cases "rm_community_id st")
    (auto simp: validate_frame_fence_def or_return_def)

lemma received_fenced:
  assumes "recv_validated uc io validate st = (Inr (Some f), st')"
  shows "\<exists>c. validate c (rm_fenced st) = Inr () \<and> rm_community_id st \<in> {None, Some c} \<and>
    rm_community_id st' = Some c \<and> rm_fenced st' = rm_fenced st"
proof -
  obtain res s where "io_recv io (rm_stream st) = (res, s)" by fastforce
  with assms show ?thesis
    by (auto simp: recv_validated_def Let_def or_return_def then_do_Inr validate_frame_fence_Inr
        split: sum.splits option.splits mesh_stream_frame.splits reliable_wire_frame.splits)
qed

section \<open>A stream that loses nothing\<close>

text \<open>
  The transport promises an ordered stream without loss: what is sent is appended to a queue
  which the receiver reads from its head.
\<close>

definition fifo_io :: "mesh_stream_frame list mesh_io" where
  "fifo_io =
     \<lparr>io_send = \<lambda>frame q. (Inr (), q @ [frame]),
      io_recv = \<lambda>q. (case q of [] \<Rightarrow> (Inr None, []) | frame # q \<Rightarrow> (Inr (Some frame), q)),
      io_finish = \<lambda>q. (Inr (), q)\<rparr>"

text \<open>The bytes of the next \<open>n\<close> frames, up to the first one that is no data.\<close>

fun recv_data ::
  "uuid_codec \<Rightarrow> 's mesh_io \<Rightarrow> (uuid \<Rightarrow> fenced_header \<Rightarrow> fence_error + unit) \<Rightarrow> nat \<Rightarrow> 's reliable_stream
   \<Rightarrow> bytes list \<times> 's reliable_stream" where
  "recv_data uc io validate 0 st = ([], st)"
| "recv_data uc io validate (Suc n) st =
     (case recv_validated uc io validate st of
        (Inr (Some (DataBytes b)), st) \<Rightarrow> apfst (Cons b) (recv_data uc io validate n st)
      | (_, st) \<Rightarrow> ([], st))"

lemma send_chunks_fifo:
  "send_chunks uc fifo_io c cs st = (Inr (), st\<lparr>rm_stream := rm_stream st @ map (data_frame uc c st) cs\<rparr>)"
proof (induction cs arbitrary: st)
  case (Cons chunk cs)
  have "send_frame fifo_io (data_frame uc c st chunk) st =
      (Inr (), st\<lparr>rm_stream := rm_stream st @ [data_frame uc c st chunk]\<rparr>)"
    by (simp add: send_frame_def fifo_io_def)
  with Cons show ?case by (simp add: data_frame_def)
qed simp

lemma recv_data_fifo:
  assumes "is_uuid uc c" and "validate c (rm_fenced st) = Inr ()" and "rm_community_id st \<in> {None, Some c}"
    and "rm_stream st = map (\<lambda>b. DataFrame (rm_fenced st) (wire_encode uc (WireData c b))) cs"
  shows "recv_data uc fifo_io validate (length cs) st =
    (cs, st\<lparr>rm_stream := [], rm_community_id := if cs = [] then rm_community_id st else Some c\<rparr>)"
  using assms
proof (induction cs arbitrary: st)
  case (Cons b cs)
  let ?st = "st\<lparr>rm_stream := map (\<lambda>b. DataFrame (rm_fenced st) (wire_encode uc (WireData c b))) cs, rm_community_id := Some c\<rparr>"
  have "recv_validated uc fifo_io validate st = (Inr (Some (DataBytes b)), ?st)"
    using Cons.prems decode_encode [of uc "WireData c b"]
    by (auto simp: recv_validated_def fifo_io_def validate_frame_fence_def)
  with Cons.IH [of ?st] Cons.prems show ?case by simp
qed simp

lemma concat_chunks: "0 < n \<Longrightarrow> concat (chunks n xs) = xs"
  by (induction n xs rule: chunks.induct) (subst chunks.simps, simp)

lemma chunks_bounded: "b \<in> set (chunks n xs) \<Longrightarrow> b \<noteq> [] \<and> length b \<le> n"
proof (induction n xs rule: chunks.induct)
  case (1 n xs)
  then show ?case by (subst (asm) chunks.simps) (auto split: if_splits)
qed

section \<open>Theorems\<close>

text \<open>
  The frame codec is exact: the decoder accepts a byte string as a frame if and only if it
  is the encoding of that frame, so every frame survives the round trip and no byte string is
  read in two ways.
\<close>

lemma wire_decode_exact:
  assumes "uuid_law uc"
  shows "wire_decode uc bs = Inr f \<longleftrightarrow> is_uuid uc (wire_community f) \<and> wire_encode uc f = bs"
  using decode_encode [of uc f] encode_decode [OF assms, of bs f] by auto

text \<open>
  C27. A tunnel carries its bytes: what one side sends in chunks over a stream that loses and
  reorders nothing, the other side receives, unchanged, in order and complete, as long as the
  directory accepts the session's header; no frame carries more than the chunk size, and after the
  bytes the stream is empty.
\<close>

theorem tunnel_carries_bytes:
  assumes "is_uuid uc c" and "rm_community_id src \<in> {None, Some c}" and "rm_stream src = []"
    and "send_bytes uc fifo_io c bytes src = (res, src')"
    and "rm_stream dst = rm_stream src'" and "rm_fenced dst = rm_fenced src"
    and "rm_community_id dst \<in> {None, Some c}" and "validate c (rm_fenced src) = Inr ()"
  shows "res = Inr () \<and>
    (\<exists>parts dst'. recv_data uc fifo_io validate (length (rm_stream src')) dst = (parts, dst') \<and>
       concat parts = bytes \<and> list_all (\<lambda>b. length b \<le> MAX_RELIABLE_PAYLOAD_BYTES) parts \<and>
       recv_validated uc fifo_io validate dst' = (Inr None, dst'))"
proof -
  let ?cs = "chunks MAX_RELIABLE_PAYLOAD_BYTES bytes"
  have s: "res = Inr ()" "rm_stream src' = map (\<lambda>b. DataFrame (rm_fenced src) (wire_encode uc (WireData c b))) ?cs"
    using assms(2-4)
    by (auto simp: send_bytes_def ensure_outbound_community_def send_chunks_fifo data_frame_def)
  have "recv_data uc fifo_io validate (length ?cs) dst =
    (?cs, dst\<lparr>rm_stream := [], rm_community_id := if ?cs = [] then rm_community_id dst else Some c\<rparr>)"
    using assms s by (intro recv_data_fifo) simp_all
  moreover have "concat ?cs = bytes" by (simp add: concat_chunks MAX_RELIABLE_PAYLOAD_BYTES_def)
  moreover have "list_all (\<lambda>b. length b \<le> MAX_RELIABLE_PAYLOAD_BYTES) ?cs"
    using chunks_bounded by (auto simp: list_all_iff)
  ultimately show ?thesis using s by (simp add: recv_validated_def fifo_io_def)
qed

text \<open>
  C22. A superseded stream is silent: once the directory has reported a newer epoch of a session,
  no frame of a stream that is pinned to an older generation (or to another owner of that
  generation) is delivered any more, whatever the peer sends and however the link behaves.
\<close>

theorem superseded_stream_silent:
  assumes "dir_run env ttl h t r" and "directory_laws env" and "ttl_ms ttl = Inr ms"
    and "uuid_text c" and "uuid_text (fh_session_id (rm_fenced st))" and "is_runtime_id (fh_owner_runtime_id (rm_fenced st))"
    and "length h + 1 < 10 ^ 14" and "(fresh, g, owner) \<in> set (claims c (fh_session_id (rm_fenced st)) h)"
    and "unat (fh_generation (rm_fenced st)) < g \<or>
      unat (fh_generation (rm_fenced st)) = g \<and> fh_owner_runtime_id (rm_fenced st) \<noteq> owner"
    and "rm_community_id st = Some c" and "t \<le> now"
  shows "recv_validated uc io (\<lambda>c f. validate_fenced_header env l now c f r) st \<noteq> (Inr (Some frame), st')"
proof
  let ?f = "rm_fenced st" and ?s = "fh_session_id (rm_fenced st)"
  assume "recv_validated uc io (\<lambda>c f. validate_fenced_header env l now c f r) st = (Inr (Some frame), st')"
  from received_fenced [OF this] assms(10) have v: "validate_fenced_header env l now c ?f r = Inr ()" by auto
  then have run: "run_dir_op env ttl l now (Validate c ?f) r = (ValidateOut (Inr ()), r)" by simp
  have "op_typed (Validate c ?f)" using assms(4-6) by (simp add: op_typed_def)
  note h = dir_run.call [OF assms(1,11) this run]
  from run_history [OF h assms(2-5)] assms(7)
  have "epochs ((False, unat (fh_generation ?f), fh_owner_runtime_id ?f) # claims c ?s h)"
    by (auto simp: history_ok_def)
  with assms(8,9) show False by (fastforce simp: epochs_def)
qed

text \<open>The signal of a renewer: exactly a failed renewal, or a release that finds another owner.\<close>

lemma lease_renewer_lost:
  "lease_renewer evs res = Some True \<longleftrightarrow>
     (\<exists>cancelled. renew_loop evs = Some (cancelled, True)) \<or>
     renew_loop evs \<noteq> None \<and> (\<exists>cur known. res = Inr (NotOwner cur known))"
proof -
  have "renew_loop evs \<noteq> Some (False, False)"
    by (induction evs rule: renew_loop.induct) (auto split: sum.splits renew_result.splits)
  then show ?thesis
    by (cases "renew_loop evs") (auto simp: lease_renewer_def split: sum.splits release_result.splits)
qed

lemma cancelled_renewer_reports_loss:
  "lease_renewer [Cancelled] (Inr (NotOwner cur known)) = Some True"
  by (simp add: lease_renewer_def)

section \<open>A concrete tunnel\<close>

definition demo_uuid_codec :: uuid_codec where
  "demo_uuid_codec = \<lparr>uc_as_bytes = unhyphenated, uc_from_bytes = hyphenated\<rparr>"

lemma demo_uuid_law: "uuid_law demo_uuid_codec"
  by (simp add: uuid_law_def demo_uuid_codec_def unhyphenated_hyphenated)

definition demo_stream :: "mesh_stream_frame list \<Rightarrow> mesh_stream_frame list reliable_stream" where
  "demo_stream q = stream_new (lease_fenced_header (demo_lease 2 2)) q"

definition demo_tenant :: uuid where "demo_tenant = hyphenated (replicate 16 7)"

lemma demo_tenant_uuid: "is_uuid demo_uuid_codec demo_tenant"
  by (simp add: is_uuid_def demo_tenant_def demo_uuid_codec_def unhyphenated_hyphenated)

lemma wire_decode_exact_instance:
  "wire_decode demo_uuid_codec ([1, 2] @ replicate 16 7 @ [2]) = Inr (WireGoodbye demo_tenant Draining)"
proof -
  have "wire_encode demo_uuid_codec (WireGoodbye demo_tenant Draining) = [1, 2] @ replicate 16 7 @ [2]"
    by (simp add: demo_tenant_def demo_uuid_codec_def unhyphenated_hyphenated)
  with wire_decode_exact [OF demo_uuid_law] demo_tenant_uuid show ?thesis by simp
qed

theorem tunnel_carries_bytes_witness:
  "\<exists>src'. send_bytes demo_uuid_codec fifo_io demo_tenant [1, 2, 3] (demo_stream []) = (Inr (), src') \<and>
     (\<exists>parts dst'. recv_data demo_uuid_codec fifo_io (\<lambda>_ _. Inr ()) (length (rm_stream src')) (demo_stream (rm_stream src'))
        = (parts, dst') \<and> concat parts = [1, 2, 3])"
proof -
  obtain res src' where s: "send_bytes demo_uuid_codec fifo_io demo_tenant [1, 2, 3] (demo_stream []) = (res, src')" by fastforce
  have "rm_community_id (demo_stream q) \<in> {None, Some demo_tenant}" "rm_stream (demo_stream q) = q"
    "rm_fenced (demo_stream q) = rm_fenced (demo_stream [])" for q
    by (simp_all add: demo_stream_def stream_new_def)
  from tunnel_carries_bytes [OF demo_tenant_uuid this(1,2) s this(2,3,1) refl] s show ?thesis by blast
qed

text \<open>A stream pinned to the first epoch of the concrete history receives nothing after the second began.\<close>

definition demo_stale_stream :: "mesh_stream_frame list reliable_stream" where
  "demo_stale_stream =
     with_community demo_community (stream_new (lease_fenced_header (demo_lease 1 1))
       [DataFrame (lease_fenced_header (demo_lease 1 1)) (wire_encode demo_uuid_codec (WireData demo_community [1]))])"

theorem superseded_stream_silent_witness:
  "\<forall>frame st'. recv_validated demo_uuid_codec fifo_io
     (\<lambda>c f. validate_fenced_header demo_dir_env Up 40003 c f demo_store) demo_stale_stream \<noteq> (Inr (Some frame), st')"
proof (intro allI)
  fix frame st'
  have st: "rm_fenced demo_stale_stream = \<lparr>fh_session_id = demo_session, fh_generation = 1, fh_owner_runtime_id = demo_runtime 1\<rparr>"
    "rm_community_id demo_stale_stream = Some demo_community"
    by (simp_all add: demo_stale_stream_def with_community_def stream_new_def lease_fenced_header_def demo_lease_def)
  have "(False, 2, demo_runtime 2) \<in> set (claims demo_community demo_session demo_history)" by (simp add: demo_claims)
  then show "recv_validated demo_uuid_codec fifo_io
      (\<lambda>c f. validate_fenced_header demo_dir_env Up 40003 c f demo_store) demo_stale_stream \<noteq> (Inr (Some frame), st')"
    by (intro superseded_stream_silent [OF demo_history_run demo_dir_laws(1-3), where g = 2])
      (auto simp: st demo_dir_laws demo_history_eq)
qed

end
