(* ===== verification/Audio_Rooms.thy ===== *)
theory Audio_Rooms
  imports Rust_Std
begin

text \<open>
  Audio rooms of the relay, crates/buzz-relay/src/audio/room.rs and wire.rs: the admission guard
  with its allocator of peer indices, every method of \<open>Room\<close>, and the header of an audio frame.

  Every method that changes a room holds the guard's mutex, so a method is one step. The peers are
  an association list; iteration over them has no defined order in the code, and no theorem depends
  on the one used here. A queue of a peer is the list of what its receiver has not yet taken; sending
  to a full queue drops. The uuid of a new peer is an argument. The broadcast channel of the roster is
  the log of all that was published; a receiver reads it from its position on.
\<close>

section \<open>Data\<close>

datatype peer_ctrl = CtrlJson string | CtrlClose

record audio_peer =
  ap_pubkey :: string
  ap_audio :: "bytes list"
  ap_ctrl :: "peer_ctrl list"
  ap_peer_index :: u8

record roster_peer =
  rp_pubkey :: string
  rp_peer_index :: u8

record roster_snapshot_data =
  rs_revision :: u64
  rs_peers :: "roster_peer list"

record roster_delta =
  rd_revision :: u64
  rd_joined :: "roster_peer option"
  rd_left :: "roster_peer option"

datatype admission_error = Ended | Full | VersionMismatch u8 u8

record admission_guard =
  ag_next_fresh :: u8
  ag_free :: "u8 list"
  ag_ended :: bool
  ag_pinned_version :: "u8 option"
  ag_roster_revision :: u64

record room =
  rm_community :: uuid
  rm_channel :: uuid
  rm_peers :: "(uuid \<times> audio_peer) list"
  rm_guard :: admission_guard
  rm_poisoned :: bool
  rm_roster_log :: "roster_delta list"

definition AUDIO_CHANNEL_CAPACITY :: nat where "AUDIO_CHANNEL_CAPACITY = 8"
definition CTRL_CHANNEL_CAPACITY :: nat where "CTRL_CHANNEL_CAPACITY = 32"
definition MAX_PEERS_PER_ROOM :: nat where "MAX_PEERS_PER_ROOM = 25"

section \<open>The allocator\<close>

definition guard_new :: admission_guard where
  "guard_new = \<lparr>ag_next_fresh = 0, ag_free = [], ag_ended = False, ag_pinned_version = None, ag_roster_revision = 0\<rparr>"

definition alloc :: "admission_guard \<Rightarrow> u8 option \<times> admission_guard" where
  "alloc g =
     (if ag_free g \<noteq> [] then (Some (last (ag_free g)), g\<lparr>ag_free := butlast (ag_free g)\<rparr>)
      else if ag_next_fresh g = 255 then (None, g)
      else (Some (ag_next_fresh g), g\<lparr>ag_next_fresh := ag_next_fresh g + 1\<rparr>))"

definition release_index :: "u8 \<Rightarrow> admission_guard \<Rightarrow> admission_guard" where
  "release_index idx g = g\<lparr>ag_free := ag_free g @ [idx]\<rparr>"

definition saturating_succ :: "u8 \<Rightarrow> u8" where
  "saturating_succ n = (if n = 255 then 255 else n + 1)"

section \<open>Rooms\<close>

definition room_new :: "uuid \<Rightarrow> uuid \<Rightarrow> room" where
  "room_new community_id channel_id =
     \<lparr>rm_community = community_id, rm_channel = channel_id, rm_peers = [], rm_guard = guard_new,
      rm_poisoned = False, rm_roster_log = []\<rparr>"

definition is_empty :: "room \<Rightarrow> bool" where
  "is_empty r = (rm_peers r = [])"

definition set_ended :: "bool \<Rightarrow> room \<Rightarrow> room" where
  "set_ended b r = r\<lparr>rm_guard := (rm_guard r)\<lparr>ag_ended := b\<rparr>\<rparr>"

definition mark_ended :: "room \<Rightarrow> bool \<times> room" where
  "mark_ended r = (if rm_poisoned r then (False, r) else (is_empty r, set_ended True r))"

definition clear_ended :: "room \<Rightarrow> room" where
  "clear_ended r = (if rm_poisoned r then r else set_ended False r)"

text \<open>The next revision, and the publication of the change under it.\<close>

definition publish :: "roster_peer option \<Rightarrow> roster_peer option \<Rightarrow> room \<Rightarrow> room" where
  "publish joined left r =
     (let revision = ag_roster_revision (rm_guard r) + 1 in
      r\<lparr>rm_guard := (rm_guard r)\<lparr>ag_roster_revision := revision\<rparr>,
        rm_roster_log := rm_roster_log r @ [\<lparr>rd_revision = revision, rd_joined = joined, rd_left = left\<rparr>]\<rparr>)"

definition insert_peer :: "uuid \<Rightarrow> string \<Rightarrow> u8 \<Rightarrow> room \<Rightarrow> room" where
  "insert_peer peer_id pubkey peer_index r =
     r\<lparr>rm_peers := filter (\<lambda>(k, _). k \<noteq> peer_id) (rm_peers r) @
         [(peer_id, \<lparr>ap_pubkey = pubkey, ap_audio = [], ap_ctrl = [], ap_peer_index = peer_index\<rparr>)]\<rparr>"

definition pin_version :: "u8 \<Rightarrow> admission_guard \<Rightarrow> admission_guard" where
  "pin_version v g =
     g\<lparr>ag_pinned_version := (case ag_pinned_version g of None \<Rightarrow> Some v | Some w \<Rightarrow> Some w)\<rparr>"

definition version_conflict :: "u8 \<Rightarrow> admission_guard \<Rightarrow> admission_error option" where
  "version_conflict v g =
     (case ag_pinned_version g of
        Some pinned \<Rightarrow> if pinned \<noteq> v then Some (VersionMismatch pinned v) else None
      | None \<Rightarrow> None)"

definition add_peer :: "uuid \<Rightarrow> string \<Rightarrow> u8 \<Rightarrow> room \<Rightarrow> (admission_error + uuid \<times> u8) \<times> room" where
  "add_peer peer_id pubkey requested_version r =
     (let g = rm_guard r in
      if rm_poisoned r then (Inl Ended, r)
      else if ag_ended g then (Inl Ended, r)
      else if length (rm_peers r) \<ge> MAX_PEERS_PER_ROOM then (Inl Full, r)
      else case version_conflict requested_version g of
        Some e \<Rightarrow> (Inl e, r)
      | None \<Rightarrow>
          (case alloc g of
             (None, g) \<Rightarrow> (Inl Full, r\<lparr>rm_guard := g\<rparr>)
           | (Some peer_index, g) \<Rightarrow>
               (Inr (peer_id, peer_index),
                publish (Some \<lparr>rp_pubkey = pubkey, rp_peer_index = peer_index\<rparr>) None
                  (insert_peer peer_id pubkey peer_index (r\<lparr>rm_guard := pin_version requested_version g\<rparr>)))))"

text \<open>The index of the owner is reserved in the allocator of the mirror.\<close>

definition reserve :: "u8 \<Rightarrow> admission_guard \<Rightarrow> admission_guard" where
  "reserve peer_index g =
     (let g = g\<lparr>ag_free := filter (\<lambda>idx. idx \<noteq> peer_index) (ag_free g)\<rparr> in
      if peer_index \<ge> ag_next_fresh g then g\<lparr>ag_next_fresh := saturating_succ peer_index\<rparr> else g)"

definition add_peer_at_index ::
  "uuid \<Rightarrow> string \<Rightarrow> u8 \<Rightarrow> u8 \<Rightarrow> room \<Rightarrow> (admission_error + uuid) \<times> room" where
  "add_peer_at_index peer_id pubkey requested_version peer_index r =
     (let g = rm_guard r in
      if rm_poisoned r then (Inl Ended, r)
      else if ag_ended g then (Inl Ended, r)
      else if length (rm_peers r) \<ge> MAX_PEERS_PER_ROOM \<or>
              list_ex (\<lambda>(_, p). ap_peer_index p = peer_index) (rm_peers r)
      then (Inl Full, r)
      else case version_conflict requested_version g of
        Some e \<Rightarrow> (Inl e, r)
      | None \<Rightarrow>
          (Inr peer_id,
           publish (Some \<lparr>rp_pubkey = pubkey, rp_peer_index = peer_index\<rparr>) None
             (insert_peer peer_id pubkey peer_index
               (r\<lparr>rm_guard := reserve peer_index (pin_version requested_version g)\<rparr>))))"

text \<open>Take a peer out of the map, recycle its index and publish the change.\<close>

definition take_peer :: "uuid \<Rightarrow> room \<Rightarrow> (audio_peer \<times> room) option" where
  "take_peer peer_id r =
     (case map_of (rm_peers r) peer_id of
        None \<Rightarrow> None
      | Some peer \<Rightarrow>
          Some (peer, publish None (Some \<lparr>rp_pubkey = ap_pubkey peer, rp_peer_index = ap_peer_index peer\<rparr>)
            (r\<lparr>rm_peers := filter (\<lambda>(k, _). k \<noteq> peer_id) (rm_peers r),
               rm_guard := release_index (ap_peer_index peer) (rm_guard r)\<rparr>)))"

definition remove_peer :: "uuid \<Rightarrow> room \<Rightarrow> room" where
  "remove_peer peer_id r =
     (if rm_poisoned r then r else case take_peer peer_id r of None \<Rightarrow> r | Some (_, r') \<Rightarrow> r')"

definition remove_peer_and_check_ended :: "uuid \<Rightarrow> room \<Rightarrow> (u8 \<times> bool) option \<times> room" where
  "remove_peer_and_check_ended peer_id r =
     (if rm_poisoned r then (None, r)
      else case take_peer peer_id r of
        None \<Rightarrow> (None, r)
      | Some (peer, r') \<Rightarrow>
          if \<not> ag_ended (rm_guard r') \<and> is_empty r'
          then (Some (ap_peer_index peer, True), set_ended True r')
          else (Some (ap_peer_index peer, False), r'))"

section \<open>Fan-out\<close>

definition try_send :: "nat \<Rightarrow> 'a \<Rightarrow> 'a list \<Rightarrow> 'a list" where
  "try_send capacity x q = (if length q < capacity then q @ [x] else q)"

definition send_audio :: "bytes \<Rightarrow> audio_peer \<Rightarrow> audio_peer" where
  "send_audio frame p = p\<lparr>ap_audio := try_send AUDIO_CHANNEL_CAPACITY frame (ap_audio p)\<rparr>"

definition broadcast_frame :: "uuid \<Rightarrow> bytes \<Rightarrow> room \<Rightarrow> room" where
  "broadcast_frame sender_id frame r =
     (case map_of (rm_peers r) sender_id of
        None \<Rightarrow> r
      | Some sender \<Rightarrow>
          r\<lparr>rm_peers := map (\<lambda>(k, p). (k, if k = sender_id then p
              else send_audio (ap_peer_index sender # frame) p)) (rm_peers r)\<rparr>)"

definition deliver_prefixed :: "u8 \<Rightarrow> bytes \<Rightarrow> room \<Rightarrow> room" where
  "deliver_prefixed author_index prefixed r =
     r\<lparr>rm_peers := map (\<lambda>(k, p). (k, if ap_peer_index p = author_index then p else send_audio prefixed p))
         (rm_peers r)\<rparr>"

definition broadcast_control :: "string \<Rightarrow> room \<Rightarrow> room" where
  "broadcast_control json r =
     r\<lparr>rm_peers := map (\<lambda>(k, p). (k, p\<lparr>ap_ctrl := try_send CTRL_CHANNEL_CAPACITY (CtrlJson json) (ap_ctrl p)\<rparr>))
         (rm_peers r)\<rparr>"

section \<open>The roster\<close>

definition roster_entry :: "uuid \<times> audio_peer \<Rightarrow> roster_peer" where
  "roster_entry e = \<lparr>rp_pubkey = ap_pubkey (snd e), rp_peer_index = ap_peer_index (snd e)\<rparr>"

definition roster_snapshot :: "room \<Rightarrow> roster_snapshot_data" where
  "roster_snapshot r =
     \<lparr>rs_revision = ag_roster_revision (rm_guard r),
      rs_peers = sort_key rp_peer_index (map roster_entry (rm_peers r))\<rparr>"

definition subscribe_roster :: "room \<Rightarrow> nat" where
  "subscribe_roster r = length (rm_roster_log r)"

definition peer_pubkeys :: "room \<Rightarrow> (string \<times> u8) list" where
  "peer_pubkeys r = map (\<lambda>(_, p). (ap_pubkey p, ap_peer_index p)) (rm_peers r)"

section \<open>The header of a frame\<close>

definition V2_HEADER_LEN :: nat where "V2_HEADER_LEN = 8"
definition FLAG_DTX :: u8 where "FLAG_DTX = 1"

record frame_header =
  fr_seq :: u16
  fr_ts_48k :: u32
  fr_level_dbov :: int
  fr_flags :: u8

definition is_dtx :: "frame_header \<Rightarrow> bool" where
  "is_dtx h = (and (fr_flags h) FLAG_DTX \<noteq> 0)"

text \<open>A big-endian number; an \<open>i8\<close> is an integer.\<close>

definition be_bytes :: "bytes \<Rightarrow> nat" where
  "be_bytes bs = foldl (\<lambda>n b. 256 * n + unat b) 0 bs"

definition parse_header :: "bytes \<Rightarrow> (frame_header \<times> bytes) option" where
  "parse_header bs =
     (if length bs < V2_HEADER_LEN then None
      else
        (let raw_level = sint (bs ! 6) in
         Some (\<lparr>fr_seq = of_nat (be_bytes [bs ! 0, bs ! 1]),
                fr_ts_48k = of_nat (be_bytes [bs ! 2, bs ! 3, bs ! 4, bs ! 5]),
                fr_level_dbov = (if -127 \<le> raw_level \<and> raw_level \<le> 0 then raw_level else -127),
                fr_flags = bs ! 7\<rparr>,
               drop V2_HEADER_LEN bs)))"

section \<open>Runs of a room\<close>

text \<open>
  Calls of the methods by any number of tasks, newest first, with what they returned. A receiver
  takes the next element of a queue; a task that panics while it holds the mutex poisons it.
\<close>

datatype room_op =
    AddPeer uuid string u8
  | AddPeerAt uuid string u8 u8
  | RemovePeer uuid
  | RemoveAndCheck uuid
  | MarkEnded
  | ClearEnded
  | Broadcast uuid bytes
  | Deliver u8 bytes
  | Announce string
  | TakeAudio uuid
  | TakeCtrl uuid
  | Panicked

datatype room_out = Rejected admission_error | Admitted u8 | EndedEmpty bool | NoResult

definition take_queue :: "(audio_peer \<Rightarrow> audio_peer) \<Rightarrow> uuid \<Rightarrow> room \<Rightarrow> room" where
  "take_queue f peer_id r = r\<lparr>rm_peers := map (\<lambda>(k, p). (k, if k = peer_id then f p else p)) (rm_peers r)\<rparr>"

fun run_room_op :: "room_op \<Rightarrow> room \<Rightarrow> room_out \<times> room" where
  "run_room_op (AddPeer k pk v) r =
     (case add_peer k pk v r of (Inl e, r') \<Rightarrow> (Rejected e, r') | (Inr (_, i), r') \<Rightarrow> (Admitted i, r'))"
| "run_room_op (AddPeerAt k pk v i) r =
     (case add_peer_at_index k pk v i r of (Inl e, r') \<Rightarrow> (Rejected e, r') | (Inr _, r') \<Rightarrow> (Admitted i, r'))"
| "run_room_op (RemovePeer k) r = (NoResult, remove_peer k r)"
| "run_room_op (RemoveAndCheck k) r =
     (case remove_peer_and_check_ended k r of (None, r') \<Rightarrow> (NoResult, r') | (Some (_, b), r') \<Rightarrow> (EndedEmpty b, r'))"
| "run_room_op MarkEnded r = apfst EndedEmpty (mark_ended r)"
| "run_room_op ClearEnded r = (NoResult, clear_ended r)"
| "run_room_op (Broadcast k frame) r = (NoResult, broadcast_frame k frame r)"
| "run_room_op (Deliver i frame) r = (NoResult, deliver_prefixed i frame r)"
| "run_room_op (Announce json) r = (NoResult, broadcast_control json r)"
| "run_room_op (TakeAudio k) r = (NoResult, take_queue (\<lambda>p. p\<lparr>ap_audio := tl (ap_audio p)\<rparr>) k r)"
| "run_room_op (TakeCtrl k) r = (NoResult, take_queue (\<lambda>p. p\<lparr>ap_ctrl := tl (ap_ctrl p)\<rparr>) k r)"
| "run_room_op Panicked r = (NoResult, r\<lparr>rm_poisoned := True\<rparr>)"

text \<open>A version 4 uuid is new.\<close>

fun fresh_uuid :: "room_op \<Rightarrow> room \<Rightarrow> bool" where
  "fresh_uuid (AddPeer k _ _) r = (k \<notin> fst ` set (rm_peers r))"
| "fresh_uuid (AddPeerAt k _ _ _) r = (k \<notin> fst ` set (rm_peers r))"
| "fresh_uuid _ r = True"

inductive room_run :: "uuid \<Rightarrow> uuid \<Rightarrow> (room_op \<times> room_out) list \<Rightarrow> room \<Rightarrow> bool" for c ch where
  start: "room_run c ch [] (room_new c ch)"
| step: "room_run c ch h r \<Longrightarrow> fresh_uuid op r \<Longrightarrow> run_room_op op r = (out, r') \<Longrightarrow> room_run c ch ((op, out) # h) r'"

section \<open>The invariant\<close>

definition indices :: "room \<Rightarrow> u8 list" where
  "indices r = map (\<lambda>e. ap_peer_index (snd e)) (rm_peers r)"

definition index_ok :: "u8 list \<Rightarrow> admission_guard \<Rightarrow> bool" where
  "index_ok used g \<longleftrightarrow>
     distinct (used @ ag_free g) \<and> (\<forall>i \<in> set (used @ ag_free g). i < ag_next_fresh g \<or> ag_next_fresh g = 255)"

text \<open>What the published changes add up to.\<close>

definition apply_delta :: "roster_peer set \<Rightarrow> roster_delta \<Rightarrow> roster_peer set" where
  "apply_delta S d = (S - set_option (rd_left d)) \<union> set_option (rd_joined d)"

definition replay :: "roster_delta list \<Rightarrow> roster_peer set" where
  "replay log = foldl apply_delta {} log"

definition roster :: "room \<Rightarrow> roster_peer set" where
  "roster r = set (map roster_entry (rm_peers r))"

definition log_ok :: "room \<Rightarrow> bool" where
  "log_ok r \<longleftrightarrow>
     map rd_revision (rm_roster_log r) = map (\<lambda>n. of_nat (Suc n)) [0..<length (rm_roster_log r)] \<and>
     ag_roster_revision (rm_guard r) = of_nat (length (rm_roster_log r)) \<and>
     list_all (\<lambda>d. (rd_joined d = None) \<noteq> (rd_left d = None)) (rm_roster_log r) \<and>
     replay (rm_roster_log r) = roster r"

definition room_ok :: "room \<Rightarrow> bool" where
  "room_ok r \<longleftrightarrow>
     distinct (map fst (rm_peers r)) \<and> index_ok (indices r) (rm_guard r) \<and>
     length (rm_peers r) \<le> MAX_PEERS_PER_ROOM \<and> log_ok r"

text \<open>Allocation gives an index that nobody has; release and reservation keep the books.\<close>

lemma index_ok_alloc:
  assumes "index_ok used g" and "alloc g = (Some i, g')"
  shows "index_ok (used @ [i]) g'"
proof (cases "ag_free g = []")
  case True
  with assms(2) have i: "i = ag_next_fresh g" "i \<noteq> 255" "g' = g\<lparr>ag_next_fresh := i + 1\<rparr>"
    by (auto simp: alloc_def split: if_splits)
  with assms(1) True show ?thesis by (fastforce simp: index_ok_def u8_less_succ)
next
  case False
  then obtain xs x where x: "ag_free g = xs @ [x]" by (cases "ag_free g" rule: rev_cases) auto
  with assms(2) have "i = x" "g' = g\<lparr>ag_free := xs\<rparr>" by (auto simp: alloc_def)
  with assms(1) x show ?thesis by (auto simp: index_ok_def)
qed

lemma index_ok_release: "index_ok (xs @ i # ys) g \<Longrightarrow> index_ok (xs @ ys) (release_index i g)"
  by (auto simp: index_ok_def release_index_def)

lemma index_ok_reserve:
  assumes "index_ok used g" and "i \<notin> set used"
  shows "index_ok (used @ [i]) (reserve i g)"
proof (cases "ag_next_fresh g \<le> i")
  case True
  have "j < saturating_succ i \<or> saturating_succ i = 255" if "j \<in> set (used @ ag_free g)" for j
  proof -
    have "j < ag_next_fresh g \<or> ag_next_fresh g = 255" using assms(1) that by (auto simp: index_ok_def)
    with True u8_le_max [of i] have "j \<le> i \<or> i = 255" by (auto intro: order.antisym)
    then show ?thesis by (auto simp: saturating_succ_def u8_less_succ)
  qed
  moreover have "i < saturating_succ i \<or> saturating_succ i = 255" by (simp add: saturating_succ_def u8_less_succ)
  ultimately show ?thesis using assms True by (auto simp: index_ok_def reserve_def Let_def)
next
  case False
  with assms show ?thesis by (auto simp: index_ok_def reserve_def Let_def not_le)
qed

lemma index_ok_pin [simp]: "index_ok used (pin_version v g) = index_ok used g"
  by (simp add: index_ok_def pin_version_def)

lemma pin_revision [simp]: "ag_roster_revision (pin_version v g) = ag_roster_revision g"
  by (simp add: pin_version_def)

section \<open>Preservation\<close>

lemma publish_simps [simp]:
  "rm_peers (publish j l r) = rm_peers r" "indices (publish j l r) = indices r" "roster (publish j l r) = roster r"
  "rm_poisoned (publish j l r) = rm_poisoned r" "ag_ended (rm_guard (publish j l r)) = ag_ended (rm_guard r)"
  "ag_pinned_version (rm_guard (publish j l r)) = ag_pinned_version (rm_guard r)"
  "index_ok used (rm_guard (publish j l r)) = index_ok used (rm_guard r)"
  by (simp_all add: publish_def indices_def roster_def index_ok_def Let_def)

lemma log_ok_publish:
  assumes "log_ok r" and "rm_roster_log r' = rm_roster_log r"
    and "ag_roster_revision (rm_guard r') = ag_roster_revision (rm_guard r)"
    and "roster r' = (roster r - set_option l) \<union> set_option j" and "(j = None) \<noteq> (l = None)"
  shows "log_ok (publish j l r')"
  using assms by (auto simp: log_ok_def publish_def Let_def replay_def apply_delta_def roster_def)

lemma filter_other_keys: "k \<notin> fst ` set xs \<Longrightarrow> filter (\<lambda>(k', _). k' \<noteq> k) xs = xs"
  by (induction xs) auto

lemma insert_fresh:
  assumes "k \<notin> fst ` set (rm_peers r)"
  shows "rm_peers (insert_peer k pk i r) = rm_peers r @ [(k, \<lparr>ap_pubkey = pk, ap_audio = [], ap_ctrl = [], ap_peer_index = i\<rparr>)]"
  using assms by (simp add: insert_peer_def filter_other_keys)

lemma admit_ok:
  assumes "room_ok r" and "k \<notin> fst ` set (rm_peers r)" and "length (rm_peers r) < MAX_PEERS_PER_ROOM"
    and "index_ok (indices r @ [i]) g" and "ag_roster_revision g = ag_roster_revision (rm_guard r)"
  shows "room_ok (publish (Some \<lparr>rp_pubkey = pk, rp_peer_index = i\<rparr>) None (insert_peer k pk i (r\<lparr>rm_guard := g\<rparr>)))"
proof -
  have p: "rm_peers (insert_peer k pk i (r\<lparr>rm_guard := g\<rparr>)) =
      rm_peers r @ [(k, \<lparr>ap_pubkey = pk, ap_audio = [], ap_ctrl = [], ap_peer_index = i\<rparr>)]"
    using insert_fresh [of k "r\<lparr>rm_guard := g\<rparr>"] assms(2) by simp
  have g: "rm_guard (insert_peer k pk i (r\<lparr>rm_guard := g\<rparr>)) = g"
    "rm_roster_log (insert_peer k pk i (r\<lparr>rm_guard := g\<rparr>)) = rm_roster_log r"
    by (simp_all add: insert_peer_def)
  have "log_ok (publish (Some \<lparr>rp_pubkey = pk, rp_peer_index = i\<rparr>) None (insert_peer k pk i (r\<lparr>rm_guard := g\<rparr>)))"
    using assms(1,5) by (intro log_ok_publish [of r]) (auto simp: room_ok_def g roster_def p roster_entry_def)
  with assms p g show ?thesis by (auto simp: room_ok_def indices_def)
qed

lemma take_peer_ok:
  assumes "room_ok r" and "take_peer k r = Some (p, r')"
  shows "room_ok r'"
proof -
  let ?e = "\<lparr>rp_pubkey = ap_pubkey p, rp_peer_index = ap_peer_index p\<rparr>"
  let ?r = "r\<lparr>rm_peers := filter (\<lambda>(k', _). k' \<noteq> k) (rm_peers r), rm_guard := release_index (ap_peer_index p) (rm_guard r)\<rparr>"
  have r': "r' = publish None (Some ?e) ?r" and m: "map_of (rm_peers r) k = Some p"
    using assms(2) by (auto simp: take_peer_def split: option.splits)
  obtain xs ys where ps: "rm_peers r = xs @ (k, p) # ys" using m by (meson map_of_SomeD split_list)
  then have "k \<notin> fst ` set xs" "k \<notin> fst ` set ys" using assms(1) by (auto simp: room_ok_def)
  then have f: "filter (\<lambda>(k', _). k' \<noteq> k) (rm_peers r) = xs @ ys" by (simp add: ps filter_other_keys)
  have ix: "index_ok (indices r) (rm_guard r)" using assms(1) by (simp add: room_ok_def)
  then have "ap_peer_index p \<notin> (\<lambda>e. ap_peer_index (snd e)) ` set (xs @ ys)"
    by (simp add: index_ok_def indices_def ps image_Un)
  then have "?e \<notin> roster_entry ` set (xs @ ys)" by (auto simp: roster_entry_def)
  moreover have "roster_entry ` set (rm_peers r) = insert ?e (roster_entry ` set (xs @ ys))"
    by (simp add: ps roster_entry_def)
  ultimately have "roster_entry ` set (xs @ ys) = roster_entry ` set (rm_peers r) - {?e}" by simp
  then have "log_ok r'" unfolding r' using assms(1)
    by (intro log_ok_publish [of r]) (simp_all add: room_ok_def roster_def f release_index_def image_Un)
  with assms(1) f show ?thesis
    using index_ok_release [of "map (\<lambda>e. ap_peer_index (snd e)) xs" "ap_peer_index p" "map (\<lambda>e. ap_peer_index (snd e)) ys"] ix
    by (simp add: room_ok_def r' indices_def ps)
qed

text \<open>Everything but the queues.\<close>

definition shape :: "room \<Rightarrow> (uuid \<times> string \<times> u8) list" where
  "shape r = map (\<lambda>(k, p). (k, ap_pubkey p, ap_peer_index p)) (rm_peers r)"

lemma room_ok_shape:
  assumes "shape r' = shape r" and "rm_roster_log r' = rm_roster_log r" and "ag_next_fresh (rm_guard r') = ag_next_fresh (rm_guard r)"
    and "ag_free (rm_guard r') = ag_free (rm_guard r)" and "ag_roster_revision (rm_guard r') = ag_roster_revision (rm_guard r)"
  shows "room_ok r' = room_ok r"
proof -
  have "map fst (rm_peers r) = map fst (shape r)" "indices r = map (snd \<circ> snd) (shape r)"
    "roster r = (\<lambda>(_, pk, i). \<lparr>rp_pubkey = pk, rp_peer_index = i\<rparr>) ` set (shape r)" "length (rm_peers r) = length (shape r)" for r
    by (simp_all add: shape_def indices_def roster_def roster_entry_def comp_def split_beta image_image)
  with assms show ?thesis by (simp add: room_ok_def log_ok_def index_ok_def)
qed

lemma set_ended_ok [simp]: "room_ok (set_ended b r) = room_ok r"
  by (rule room_ok_shape) (simp_all add: set_ended_def shape_def)

lemma same_shape:
  "shape (broadcast_frame k frame r) = shape r" "shape (deliver_prefixed i frame r) = shape r"
  "shape (broadcast_control json r) = shape r"
  "(\<And>p. ap_pubkey (f p) = ap_pubkey p \<and> ap_peer_index (f p) = ap_peer_index p) \<Longrightarrow> shape (take_queue f k r) = shape r"
  by (auto simp: shape_def broadcast_frame_def deliver_prefixed_def broadcast_control_def take_queue_def send_audio_def
      split: option.splits)

lemma queues_only:
  "rm_guard (broadcast_frame k frame r) = rm_guard r" "rm_roster_log (broadcast_frame k frame r) = rm_roster_log r"
  "rm_guard (deliver_prefixed i frame r) = rm_guard r" "rm_roster_log (deliver_prefixed i frame r) = rm_roster_log r"
  "rm_guard (broadcast_control json r) = rm_guard r" "rm_roster_log (broadcast_control json r) = rm_roster_log r"
  "rm_guard (take_queue f k r) = rm_guard r" "rm_roster_log (take_queue f k r) = rm_roster_log r"
  by (simp_all add: broadcast_frame_def deliver_prefixed_def broadcast_control_def take_queue_def split: option.split)

lemma add_peer_ok:
  assumes "room_ok r" and "k \<notin> fst ` set (rm_peers r)"
  shows "room_ok (snd (add_peer k pk v r))"
proof -
  obtain io g where a: "alloc (rm_guard r) = (io, g)" by fastforce
  show ?thesis
  proof (cases "rm_poisoned r \<or> ag_ended (rm_guard r) \<or> MAX_PEERS_PER_ROOM \<le> length (rm_peers r) \<or>
      version_conflict v (rm_guard r) \<noteq> None")
    case True
    with assms(1) show ?thesis by (auto simp: add_peer_def Let_def split: option.split)
  next
    case False
    show ?thesis
    proof (cases io)
      case None
      with a have "g = rm_guard r" by (auto simp: alloc_def split: if_splits)
      with assms(1) None False a show ?thesis by (auto simp: add_peer_def)
    next
      case (Some i)
      from index_ok_alloc [OF _ a [unfolded Some]] assms(1) have "index_ok (indices r @ [i]) g" by (simp add: room_ok_def)
      moreover have "ag_roster_revision g = ag_roster_revision (rm_guard r)" using a by (auto simp: alloc_def split: if_splits)
      ultimately show ?thesis using admit_ok [OF assms, of i "pin_version v g" pk] Some False a
        by (simp add: add_peer_def not_le)
    qed
  qed
qed

lemma add_peer_at_ok:
  assumes "room_ok r" and "k \<notin> fst ` set (rm_peers r)"
  shows "room_ok (snd (add_peer_at_index k pk v i r))"
proof (cases "rm_poisoned r \<or> ag_ended (rm_guard r) \<or> MAX_PEERS_PER_ROOM \<le> length (rm_peers r) \<or>
    list_ex (\<lambda>(_, p). ap_peer_index p = i) (rm_peers r) \<or> version_conflict v (rm_guard r) \<noteq> None")
  case True
  with assms(1) show ?thesis by (auto simp: add_peer_at_index_def Let_def split: option.split)
next
  case False
  then have "i \<notin> set (indices r)" by (auto simp: indices_def list_ex_iff)
  then have "index_ok (indices r @ [i]) (reserve i (pin_version v (rm_guard r)))"
    using assms(1) by (intro index_ok_reserve) (simp_all add: room_ok_def)
  moreover have "ag_roster_revision (reserve i (pin_version v (rm_guard r))) = ag_roster_revision (rm_guard r)"
    by (simp add: reserve_def pin_version_def Let_def)
  ultimately show ?thesis using admit_ok [OF assms, of i _ pk] False by (simp add: add_peer_at_index_def not_le)
qed

lemma remove_ok:
  assumes "room_ok r"
  shows "room_ok (remove_peer k r)" and "room_ok (snd (remove_peer_and_check_ended k r))"
  using take_peer_ok [OF assms] assms
  by (auto simp: remove_peer_def remove_peer_and_check_ended_def split: option.split)

lemma room_step_ok:
  assumes "room_ok r" and "fresh_uuid op r" and "run_room_op op r = (out, r')"
  shows "room_ok r'"
proof -
  have q: "room_ok r''" if "shape r'' = shape r" "rm_guard r'' = rm_guard r" "rm_roster_log r'' = rm_roster_log r" for r''
    using room_ok_shape [of r'' r] that assms(1) by simp
  show ?thesis
  proof (cases op)
    case (AddPeer k pk v)
    with add_peer_ok [OF assms(1), of k pk v] assms(2,3) show ?thesis by (auto split: prod.splits sum.splits)
  next
    case (AddPeerAt k pk v i)
    with add_peer_at_ok [OF assms(1), of k pk v i] assms(2,3) show ?thesis by (auto split: prod.splits sum.splits)
  next
    case (RemoveAndCheck k)
    with remove_ok(2) [OF assms(1), of k] assms(3) show ?thesis by (auto split: prod.splits option.splits)
  next
    case (Broadcast k frame)
    with assms(3) q [of r'] show ?thesis by (auto simp: same_shape queues_only)
  next
    case (Deliver i frame)
    with assms(3) q [of r'] show ?thesis by (auto simp: same_shape queues_only)
  next
    case (Announce json)
    with assms(3) q [of r'] show ?thesis by (auto simp: same_shape queues_only)
  next
    case (TakeAudio k)
    with assms(3) q [of r'] show ?thesis by (auto simp: same_shape queues_only)
  next
    case (TakeCtrl k)
    with assms(3) q [of r'] show ?thesis by (auto simp: same_shape queues_only)
  next
    case Panicked
    with assms(3) q [of r'] show ?thesis by (auto simp: shape_def)
  qed (use assms(1,3) remove_ok(1) [OF assms(1)] in \<open>auto simp: mark_ended_def clear_ended_def split: if_splits\<close>)
qed

lemma room_run_ok: "room_run c ch h r \<Longrightarrow> room_ok r"
proof (induction rule: room_run.induct)
  case start
  show ?case
    by (simp add: room_ok_def room_new_def guard_new_def indices_def index_ok_def log_ok_def replay_def roster_def
        MAX_PEERS_PER_ROOM_def)
qed (rule room_step_ok)

section \<open>Versions and ends\<close>

fun admitted_version :: "room_op \<times> room_out \<Rightarrow> u8 option" where
  "admitted_version (AddPeer _ _ v, Admitted _) = Some v"
| "admitted_version (AddPeerAt _ _ v _, Admitted _) = Some v"
| "admitted_version _ = None"

lemma pin_simps [simp]:
  "ag_pinned_version (reserve i g) = ag_pinned_version g" "ag_pinned_version (release_index i g) = ag_pinned_version g"
  "ag_ended (reserve i g) = ag_ended g" "ag_ended (release_index i g) = ag_ended g" "ag_ended (pin_version v g) = ag_ended g"
  "rm_guard (insert_peer k pk i r) = rm_guard r" "rm_poisoned (insert_peer k pk i r) = rm_poisoned r"
  by (simp_all add: reserve_def release_index_def pin_version_def insert_peer_def Let_def)

lemma alloc_pin: "alloc g = (io, g') \<Longrightarrow> ag_pinned_version g' = ag_pinned_version g \<and> ag_ended g' = ag_ended g"
  by (auto simp: alloc_def split: if_splits)

lemma take_peer_guard:
  "take_peer k r = Some (p, r') \<Longrightarrow>
   ag_pinned_version (rm_guard r') = ag_pinned_version (rm_guard r) \<and> ag_ended (rm_guard r') = ag_ended (rm_guard r)"
  by (auto simp: take_peer_def split: option.splits)

lemma step_pinned:
  assumes "run_room_op op r = (out, r')"
  shows "admitted_version (op, out) = Some v \<Longrightarrow> ag_pinned_version (rm_guard r') = Some v"
    and "ag_pinned_version (rm_guard r) = Some w \<Longrightarrow> ag_pinned_version (rm_guard r') = Some w"
  using assms
  by (cases op;
      auto simp: add_peer_def add_peer_at_index_def remove_peer_def remove_peer_and_check_ended_def mark_ended_def
        clear_ended_def set_ended_def queues_only version_conflict_def pin_version_def Let_def
        dest!: alloc_pin take_peer_guard split: option.splits prod.splits sum.splits if_splits)+

definition over :: "room \<Rightarrow> bool" where
  "over r \<longleftrightarrow> rm_peers r = [] \<and> (ag_ended (rm_guard r) \<or> rm_poisoned r)"

lemma step_over:
  assumes "over r" and "run_room_op op r = (out, r')" and "op \<noteq> ClearEnded"
  shows "over r' \<and> (\<forall>i. out \<noteq> Admitted i) \<and> (\<forall>k. (op, out) \<noteq> (RemoveAndCheck k, EndedEmpty True))"
proof -
  have "rm_peers r = []" "take_peer k r = None" "ag_ended (rm_guard r) \<or> rm_poisoned r" for k
    using assms(1) by (auto simp: over_def take_peer_def)
  with assms(2,3) show ?thesis
    by (cases op)
      (auto simp: over_def add_peer_def add_peer_at_index_def remove_peer_def remove_peer_and_check_ended_def mark_ended_def
        set_ended_def broadcast_frame_def deliver_prefixed_def broadcast_control_def take_queue_def Let_def split: if_splits)
qed

lemma step_ends:
  assumes "run_room_op op r = (EndedEmpty True, r')"
  shows "over r'"
  using assms
  by (cases op)
    (auto simp: over_def mark_ended_def remove_peer_and_check_ended_def set_ended_def is_empty_def
      split: prod.splits option.splits sum.splits if_splits)

section \<open>The log grows\<close>

lemma step_log:
  assumes "run_room_op op r = (out, r')"
  shows "rm_roster_log r' = rm_roster_log r \<or> (\<exists>d. rm_roster_log r' = rm_roster_log r @ [d])"
  using assms
  by (cases op)
    (auto simp: add_peer_def add_peer_at_index_def remove_peer_def remove_peer_and_check_ended_def take_peer_def
      mark_ended_def clear_ended_def set_ended_def publish_def insert_peer_def queues_only Let_def
      split: option.splits prod.splits sum.splits if_splits)

text \<open>Every prefix of the log is the log of an earlier state.\<close>

lemma log_states:
  assumes "room_run c ch h r" and "n \<le> length (rm_roster_log r)"
  shows "\<exists>h2 h1 r1. h = h2 @ h1 \<and> room_run c ch h1 r1 \<and> rm_roster_log r1 = take n (rm_roster_log r)"
  using assms
proof (induction rule: room_run.induct)
  case start
  with room_run.start [of c ch] show ?case by (intro exI [of _ "[]"] exI [of _ "room_new c ch"]) (simp add: room_new_def)
next
  case (step h r op out r')
  have run: "room_run c ch ((op, out) # h) r'" using step.hyps by (rule room_run.step)
  show ?case
  proof (cases "n \<le> length (rm_roster_log r)")
    case True
    with step.IH obtain h2 h1 r1 where "h = h2 @ h1" "room_run c ch h1 r1" "rm_roster_log r1 = take n (rm_roster_log r)" by blast
    moreover from True step_log [OF step.hyps(3)] have "take n (rm_roster_log r') = take n (rm_roster_log r)" by auto
    ultimately show ?thesis by (metis append_Cons)
  next
    case False
    with step.prems step_log [OF step.hyps(3)] have "n = length (rm_roster_log r')" by auto
    with run show ?thesis by (intro exI [of _ "[]"] exI [of _ "(op, out) # h"] exI [of _ r']) simp
  qed
qed

lemma room_run_unique: "room_run c ch h r \<Longrightarrow> room_run c ch h r' \<Longrightarrow> r' = r"
proof (induction arbitrary: r' rule: room_run.induct)
  case start
  from start.prems show ?case by (cases rule: room_run.cases) simp_all
next
  case (step h r op out r2)
  from step.prems show ?case
  proof (cases rule: room_run.cases)
    case (step r1)
    with \<open>\<And>r'. room_run c ch h r' \<Longrightarrow> r' = r\<close> \<open>run_room_op op r = (out, r2)\<close> show ?thesis by simp
  qed
qed

lemma log_prefix:
  assumes "room_run c ch (h2 @ h1) r" and "room_run c ch h1 r1"
  shows "\<exists>n \<le> length (rm_roster_log r). rm_roster_log r1 = take n (rm_roster_log r)"
  using assms(1)
proof (induction "h2 @ h1" r arbitrary: h2 rule: room_run.induct)
  case start
  with assms(2) have "r1 = room_new c ch" using room_run_unique room_run.start by blast
  then show ?case by (auto simp: room_new_def)
next
  case (step h r op out r')
  show ?case
  proof (cases h2)
    case Nil
    with step.hyps have "room_run c ch h1 r'" by (metis append_Nil room_run.step)
    with assms(2) have "r1 = r'" using room_run_unique by blast
    then show ?thesis by (intro exI [of _ "length (rm_roster_log r')"]) simp
  next
    case (Cons e h2')
    with step.hyps(5) have "h = h2' @ h1" by simp
    from step.hyps(2) [OF this] obtain n where "n \<le> length (rm_roster_log r)" "rm_roster_log r1 = take n (rm_roster_log r)" by blast
    with step_log [OF step.hyps(4)] show ?thesis by (intro exI [of _ n]) auto
  qed
qed

section \<open>Theorems\<close>

text \<open>
  C23. In every reachable room the peers have distinct ids and distinct indices, so the index in
  front of a relayed frame names one speaker; there are at most 25 of them, and everyone who was
  ever admitted speaks the version the room is pinned to.
\<close>

theorem room_invariant:
  assumes "room_run c ch h r"
  shows "distinct (map fst (rm_peers r)) \<and> distinct (map snd (peer_pubkeys r)) \<and> length (rm_peers r) \<le> 25 \<and>
    (\<forall>v \<in> set (List.map_filter admitted_version h). ag_pinned_version (rm_guard r) = Some v)"
proof -
  have "\<forall>v \<in> set (List.map_filter admitted_version h). ag_pinned_version (rm_guard r) = Some v"
    using assms
  proof (induction rule: room_run.induct)
    case (step h r op out r')
    with step_pinned [OF step(3)] show ?case by (auto simp: map_filter_simps split: option.splits)
  qed (simp add: map_filter_simps)
  moreover have "map snd (peer_pubkeys r) = indices r" by (simp add: peer_pubkeys_def indices_def comp_def split_beta)
  ultimately show ?thesis
    using room_run_ok [OF assms] by (simp add: room_ok_def index_ok_def MAX_PEERS_PER_ROOM_def)
qed

text \<open>
  An ended room stays ended: after a call has found the room empty and ended it, nobody is
  admitted and no other call is told to archive it, until the end is taken back explicitly.
\<close>

lemma ended_room_stays_empty:
  assumes "room_run c ch (h2 @ (op, EndedEmpty True) # h1) r" and "\<forall>(op', _) \<in> set h2. op' \<noteq> ClearEnded"
  shows "rm_peers r = [] \<and>
    (\<forall>(op', out) \<in> set h2. (\<forall>i. out \<noteq> Admitted i) \<and> (\<forall>k. (op', out) \<noteq> (RemoveAndCheck k, EndedEmpty True)))"
proof -
  let ?P = "\<lambda>(op', out). (\<forall>i. out \<noteq> Admitted i) \<and> (\<forall>k. (op', out) \<noteq> (RemoveAndCheck k, EndedEmpty True))"
  have "over r \<and> (\<forall>e \<in> set h2. ?P e)"
    using assms(1,2)
  proof (induction "h2 @ (op, EndedEmpty True) # h1" r arbitrary: h2 rule: room_run.induct)
    case (step h r op' out r')
    show ?case
    proof (cases h2)
      case Nil
      with step.hyps(4,5) show ?thesis by (auto dest: step_ends)
    next
      case (Cons e h2')
      with step.hyps(5) have e: "e = (op', out)" "h = h2' @ (op, EndedEmpty True) # h1" by auto
      with Cons step.prems step.hyps(2) [OF e(2)] have ih: "over r \<and> (\<forall>e \<in> set h2'. ?P e)" and "op' \<noteq> ClearEnded" by auto
      with step_over [OF _ step.hyps(4)] Cons e(1) show ?thesis by auto
    qed
  qed simp
  then show ?thesis by (auto simp: over_def)
qed

text \<open>
  C28. The published changes are the roster: in every reachable room the snapshot is what the
  published changes add up to, its revision counts them, and they are numbered from 1 without gaps.
\<close>

theorem roster_log_exact:
  assumes "room_run c ch h r"
  shows "set (rs_peers (roster_snapshot r)) = replay (rm_roster_log r) \<and>
    rs_revision (roster_snapshot r) = of_nat (length (rm_roster_log r)) \<and>
    map rd_revision (rm_roster_log r) = map (\<lambda>n. of_nat (Suc n)) [0..<length (rm_roster_log r)]"
  using room_run_ok [OF assms] by (simp add: room_ok_def log_ok_def roster_snapshot_def roster_def)

text \<open>The level of a parsed header is in range, whatever the sender wrote.\<close>

lemma parse_header_level: "parse_header bs = Some (h, rest) \<Longrightarrow> -127 \<le> fr_level_dbov h \<and> fr_level_dbov h \<le> 0"
  by (auto simp: parse_header_def Let_def split: if_splits)

lemma parse_header_total: "parse_header bs = None \<longleftrightarrow> length bs < 8"
  by (simp add: parse_header_def V2_HEADER_LEN_def Let_def)

text \<open>The mirror of another runtime's room accepts the index 255, outside the documented range.\<close>

lemma index_255_accepted:
  "fst (add_peer_at_index k pk v 255 (room_new c ch)) = Inr k"
  by (simp add: add_peer_at_index_def room_new_def guard_new_def version_conflict_def MAX_PEERS_PER_ROOM_def)

section \<open>A concrete room\<close>

fun run_room_ops :: "room_op list \<Rightarrow> room \<Rightarrow> (room_op \<times> room_out) list \<times> room" where
  "run_room_ops [] r = ([], r)"
| "run_room_ops (op # ops) r =
     (let (h, r1) = run_room_ops ops r; (out, r2) = run_room_op op r1 in ((op, out) # h, r2))"

fun fresh_ops :: "room_op list \<Rightarrow> room \<Rightarrow> bool" where
  "fresh_ops [] r = True"
| "fresh_ops (op # ops) r = (fresh_ops ops r \<and> fresh_uuid op (snd (run_room_ops ops r)))"

lemma run_room_ops_run:
  "fresh_ops ops (room_new c ch) \<Longrightarrow>
   room_run c ch (fst (run_room_ops ops (room_new c ch))) (snd (run_room_ops ops (room_new c ch)))"
  by (induction ops) (auto simp: Let_def split_beta intro: room_run.intros)

definition demo_room_ops :: "room_op list" where
  "demo_room_ops =
     [AddPeer ''p3'' ''carol'' 2, RemoveAndCheck ''p2'', Broadcast ''p2'' [9], RemoveAndCheck ''p1'',
      AddPeer ''p2'' ''bob'' 2, AddPeer ''p1'' ''alice'' 2]"

definition demo_room :: room where
  "demo_room = snd (run_room_ops demo_room_ops (room_new ''c'' ''ch''))"

definition demo_room_history :: "(room_op \<times> room_out) list" where
  "demo_room_history =
     [(AddPeer ''p3'' ''carol'' 2, Rejected Ended), (RemoveAndCheck ''p2'', EndedEmpty True),
      (Broadcast ''p2'' [9], NoResult), (RemoveAndCheck ''p1'', EndedEmpty False),
      (AddPeer ''p2'' ''bob'' 2, Admitted 1), (AddPeer ''p1'' ''alice'' 2, Admitted 0)]"

lemma demo_room_run: "room_run ''c'' ''ch'' demo_room_history demo_room"
proof -
  have "fresh_ops demo_room_ops (room_new ''c'' ''ch'')"
    and "fst (run_room_ops demo_room_ops (room_new ''c'' ''ch'')) = demo_room_history" by code_simp+
  with run_room_ops_run [of demo_room_ops "''c''" "''ch''"] show ?thesis by (simp add: demo_room_def)
qed

theorem room_invariant_witness:
  "distinct (map fst (rm_peers demo_room)) \<and> length (rm_peers demo_room) \<le> 25 \<and>
   ag_pinned_version (rm_guard demo_room) = Some 2"
proof -
  have "2 \<in> set (List.map_filter admitted_version demo_room_history)" by code_simp
  with room_invariant [OF demo_room_run] show ?thesis by blast
qed

lemma ended_room_stays_empty_instance: "rm_peers demo_room = []"
proof -
  have "room_run ''c'' ''ch'' ([(AddPeer ''p3'' ''carol'' 2, Rejected Ended)] @ (RemoveAndCheck ''p2'', EndedEmpty True) #
     [(Broadcast ''p2'' [9], NoResult), (RemoveAndCheck ''p1'', EndedEmpty False),
      (AddPeer ''p2'' ''bob'' 2, Admitted 1), (AddPeer ''p1'' ''alice'' 2, Admitted 0)]) demo_room"
    using demo_room_run by (simp add: demo_room_history_def)
  from ended_room_stays_empty [OF this] show ?thesis by simp
qed

theorem roster_log_exact_witness:
  "set (rs_peers (roster_snapshot demo_room)) = replay (rm_roster_log demo_room) \<and>
   rs_revision (roster_snapshot demo_room) = 4"
proof -
  have "length (rm_roster_log demo_room) = 4" by code_simp
  with roster_log_exact [OF demo_room_run] show ?thesis by simp
qed

end
