(* ===== verification/Huddle_Mesh.thy ===== *)
theory Huddle_Mesh
  imports Audio_Rooms Session_Directory
begin

text \<open>
  Huddles across runtimes: the registry of rooms (\<open>AudioRoomManager\<close> of
  crates/buzz-relay/src/audio/room.rs), the generation floor and the delivery of media datagrams
  (mesh.rs), and the mirror of the owner's roster on another runtime (the control messages and
  \<open>read_owner_control\<close> of join.rs).

  A room behind an \<open>Arc\<close> is a cell of a heap, since a task keeps its room when the registry has
  dropped it. The text a client message prints is represented by its value; postcard is a parameter.
\<close>

section \<open>The registry of rooms\<close>

record room_manager =
  am_rooms :: "uuid \<times> uuid \<rightharpoonup> nat"
  am_heap :: "nat \<rightharpoonup> room"
  am_next :: nat

definition manager_new :: room_manager where
  "manager_new = \<lparr>am_rooms = Map.empty, am_heap = Map.empty, am_next = 0\<rparr>"

definition get_or_create :: "uuid \<Rightarrow> uuid \<Rightarrow> room_manager \<Rightarrow> nat \<times> room_manager" where
  "get_or_create c ch m =
     (case am_rooms m (c, ch) of
        Some a \<Rightarrow> (a, m)
      | None \<Rightarrow> (am_next m, m\<lparr>am_rooms := (am_rooms m)((c, ch) \<mapsto> am_next m),
                            am_heap := (am_heap m)(am_next m \<mapsto> room_new c ch), am_next := am_next m + 1\<rparr>))"

definition get_room :: "uuid \<Rightarrow> uuid \<Rightarrow> room_manager \<Rightarrow> nat option" where
  "get_room c ch m = am_rooms m (c, ch)"

text \<open>\<open>ks\<close> is the order of the iteration over the map.\<close>

definition get_unambiguous_by_channel :: "(uuid \<times> uuid) list \<Rightarrow> uuid \<Rightarrow> room_manager \<Rightarrow> nat option" where
  "get_unambiguous_by_channel ks ch m =
     (case filter (\<lambda>((_, ch'), _). ch' = ch) (entries ks (am_rooms m)) of
        [] \<Rightarrow> None
      | [(_, a)] \<Rightarrow> Some a
      | _ \<Rightarrow> None)"

definition cleanup_if_empty :: "uuid \<Rightarrow> uuid \<Rightarrow> room_manager \<Rightarrow> bool \<times> room_manager" where
  "cleanup_if_empty c ch m =
     (case am_rooms m (c, ch) of
        None \<Rightarrow> (False, m)
      | Some a \<Rightarrow>
          (case am_heap m a of
             Some r \<Rightarrow> if is_empty r then (True, m\<lparr>am_rooms := (am_rooms m)((c, ch) := None)\<rparr>) else (False, m)
           | None \<Rightarrow> (False, m)))"

text \<open>A method of the room at an address.\<close>

definition with_room :: "nat \<Rightarrow> (room \<Rightarrow> 'a \<times> room) \<Rightarrow> room_manager \<Rightarrow> 'a option \<times> room_manager" where
  "with_room a f m =
     (case am_heap m a of
        None \<Rightarrow> (None, m)
      | Some r \<Rightarrow> (let (x, r') = f r in (Some x, m\<lparr>am_heap := (am_heap m)(a \<mapsto> r')\<rparr>)))"

section \<open>The generation floor\<close>

datatype fence_verdict_data = Accept bool | RejectStale u64

type_synonym generation_floor = "uuid \<rightharpoonup> u64"

definition floor_check :: "uuid \<Rightarrow> u64 \<Rightarrow> generation_floor \<Rightarrow> fence_verdict_data \<times> generation_floor" where
  "floor_check session_id generation seen =
     (case seen session_id of
        Some known \<Rightarrow>
          if generation < known then (RejectStale known, seen)
          else (Accept (generation > known), if generation > known then seen(session_id \<mapsto> generation) else seen)
      | None \<Rightarrow> (Accept False, seen(session_id \<mapsto> generation)))"

definition floor_forget :: "uuid \<Rightarrow> generation_floor \<Rightarrow> generation_floor" where
  "floor_forget session_id seen = seen(session_id := None)"

record audio_router =
  ar_rooms :: room_manager
  ar_fence :: generation_floor
  ar_local_runtime_id :: runtime_id

definition on_media_datagram ::
  "(uuid \<times> uuid) list \<Rightarrow> mesh_datagram \<Rightarrow> audio_router \<Rightarrow> fence_verdict_data \<times> audio_router" where
  "on_media_datagram ks dgram router =
     (let session_id = fh_session_id (md_fenced dgram);
          (verdict, fence) = floor_check session_id (fh_generation (md_fenced dgram)) (ar_fence router);
          router = router\<lparr>ar_fence := fence\<rparr> in
      case verdict of
        RejectStale known \<Rightarrow> (verdict, router)
      | Accept _ \<Rightarrow>
          (case get_unambiguous_by_channel ks session_id (ar_rooms router) of
             None \<Rightarrow> (verdict, router)
           | Some a \<Rightarrow>
               (case md_payload dgram of
                  [] \<Rightarrow> (verdict, router)
                | author_index # rest \<Rightarrow>
                    (verdict, router\<lparr>ar_rooms := snd (with_room a
                       (\<lambda>r. ((), deliver_prefixed author_index (author_index # rest) r)) (ar_rooms router))\<rparr>))))"

definition media_datagram :: "u8 \<Rightarrow> fenced_header \<Rightarrow> u64 \<Rightarrow> bytes \<Rightarrow> mesh_datagram" where
  "media_datagram peer_index fenced seq client_frame =
     \<lparr>md_fenced = fenced, md_seq = seq, md_payload = peer_index # client_frame\<rparr>"

section \<open>Control messages\<close>

datatype fence_rejection = FStaleGeneration | FNoActiveLease | FOwnerMismatch | FFutureGeneration

datatype register_rejection = RoomFull | RoomEnded | RVersionMismatch u8 u8 | Fenced fence_rejection

datatype huddle_control_msg =
    RegisterPeer uuid string u8
  | PeerRegistered string u8 roster_snapshot_data
  | RosterSnapshotMsg u64 "roster_peer list"
  | RosterDeltaMsg u64 "roster_peer option" "roster_peer option"
  | RosterResync
  | RegisterRejected string register_rejection
  | UnregisterPeer string

definition from_mesh_error :: "'t mesh_error \<Rightarrow> fence_rejection option" where
  "from_mesh_error e =
     (case e of
        StaleGeneration _ _ _ \<Rightarrow> Some FStaleGeneration
      | NoActiveLease _ _ _ _ \<Rightarrow> Some FNoActiveLease
      | OwnerMismatch _ _ _ _ \<Rightarrow> Some FOwnerMismatch
      | FutureGeneration _ _ _ \<Rightarrow> Some FFutureGeneration
      | _ \<Rightarrow> None)"

fun rejection_code :: "fence_rejection \<Rightarrow> string" where
  "rejection_code FStaleGeneration = ''stale_generation''"
| "rejection_code FNoActiveLease = ''no_active_lease''"
| "rejection_code FOwnerMismatch = ''owner_mismatch''"
| "rejection_code FFutureGeneration = ''future_generation''"

fun admission_to_rejection :: "admission_error \<Rightarrow> register_rejection" where
  "admission_to_rejection Full = RoomFull"
| "admission_to_rejection Ended = RoomEnded"
| "admission_to_rejection (VersionMismatch pinned requested) = RVersionMismatch pinned requested"

definition roster_snapshot_msg :: "room \<Rightarrow> huddle_control_msg" where
  "roster_snapshot_msg r = (let s = roster_snapshot r in RosterSnapshotMsg (rs_revision s) (rs_peers s))"

definition roster_delta_msg :: "roster_delta \<Rightarrow> huddle_control_msg" where
  "roster_delta_msg d = RosterDeltaMsg (rd_revision d) (rd_joined d) (rd_left d)"

section \<open>The mirror of a roster\<close>

datatype huddle_teardown_cause = OwnerLost | OwnerDraining | SessionEndedCause | StreamClosed

fun from_goodbye :: "goodbye_reason \<Rightarrow> huddle_teardown_cause" where
  "from_goodbye StaleGenerationReason = OwnerLost"
| "from_goodbye Draining = OwnerDraining"
| "from_goodbye SessionEnded = SessionEndedCause"

datatype client_msg =
    ClientRoster u64 "roster_peer list"
  | ClientJoined u64 roster_peer
  | ClientLeft u64 roster_peer

text \<open>
  One round of the loop: what \<open>recv_frame\<close> returned, whether the client's queue and the stream
  still accept a message. The state is the revision, the messages sent to the client and the
  number of resync requests sent to the owner; the result is the cause of the teardown, if any.
\<close>

record mirror =
  mi_revision :: u64
  mi_client :: "client_msg list"
  mi_resyncs :: nat

type_synonym round = "(fence_error + mesh_stream_frame option) \<times> bool \<times> bool"

definition tell_client :: "bool \<Rightarrow> client_msg \<Rightarrow> mirror \<Rightarrow> huddle_teardown_cause option \<times> mirror" where
  "tell_client client_up msg mi =
     (if client_up then (None, mi\<lparr>mi_client := mi_client mi @ [msg]\<rparr>) else (Some SessionEndedCause, mi))"

definition on_control ::
  "bool \<Rightarrow> bool \<Rightarrow> huddle_control_msg \<Rightarrow> mirror \<Rightarrow> huddle_teardown_cause option \<times> mirror" where
  "on_control client_up stream_up msg mi =
     (case msg of
        RosterSnapshotMsg next peers \<Rightarrow>
          tell_client client_up (ClientRoster next peers) (mi\<lparr>mi_revision := next\<rparr>)
      | RosterDeltaMsg next joined left \<Rightarrow>
          if next = mi_revision mi + 1 then
            (case joined of
               Some peer \<Rightarrow> tell_client client_up (ClientJoined next peer) (mi\<lparr>mi_revision := next\<rparr>)
             | None \<Rightarrow>
                 (case left of
                    Some peer \<Rightarrow> tell_client client_up (ClientLeft next peer) (mi\<lparr>mi_revision := next\<rparr>)
                  | None \<Rightarrow> (None, mi\<lparr>mi_revision := next\<rparr>)))
          else if next \<le> mi_revision mi then (None, mi)
          else if stream_up then (None, mi\<lparr>mi_resyncs := mi_resyncs mi + 1\<rparr>)
          else (Some StreamClosed, mi)
      | _ \<Rightarrow> (None, mi))"

fun read_owner_control ::
  "(bytes \<Rightarrow> string + huddle_control_msg) \<Rightarrow> round list \<Rightarrow> mirror \<Rightarrow> huddle_teardown_cause option \<times> mirror" where
  "read_owner_control dec [] mi = (None, mi)"
| "read_owner_control dec ((frame, client_up, stream_up) # rounds) mi =
     (case frame of
        Inl _ \<Rightarrow> (Some StreamClosed, mi)
      | Inr None \<Rightarrow> (Some StreamClosed, mi)
      | Inr (Some (GoodbyeFrame _ reason)) \<Rightarrow> (Some (from_goodbye reason), mi)
      | Inr (Some (DataFrame _ payload)) \<Rightarrow>
          (case dec payload of
             Inl _ \<Rightarrow> read_owner_control dec rounds mi
           | Inr msg \<Rightarrow>
               (case on_control client_up stream_up msg mi of
                  (None, mi') \<Rightarrow> read_owner_control dec rounds mi'
                | (Some cause, mi') \<Rightarrow> (Some cause, mi')))
      | Inr (Some _) \<Rightarrow> read_owner_control dec rounds mi)"

section \<open>The mirror shows the owner's roster\<close>

fun view_step :: "roster_peer set \<Rightarrow> client_msg \<Rightarrow> roster_peer set" where
  "view_step S (ClientRoster _ peers) = set peers"
| "view_step S (ClientJoined _ peer) = insert peer S"
| "view_step S (ClientLeft _ peer) = S - {peer}"

text \<open>What a client that starts from the roster \<open>S\<close> sees after its messages.\<close>

definition client_view :: "roster_peer set \<Rightarrow> client_msg list \<Rightarrow> roster_peer set" where
  "client_view S msgs = foldl view_step S msgs"

definition true_msg :: "roster_delta list \<Rightarrow> huddle_control_msg \<Rightarrow> bool" where
  "true_msg log msg \<longleftrightarrow>
     (case msg of
        RosterSnapshotMsg v peers \<Rightarrow> (\<exists>n \<le> length log. v = of_nat n \<and> set peers = replay (take n log))
      | RosterDeltaMsg v j l \<Rightarrow> (\<exists>d \<in> set log. v = rd_revision d \<and> j = rd_joined d \<and> l = rd_left d)
      | _ \<Rightarrow> True)"

definition log_numbered :: "roster_delta list \<Rightarrow> bool" where
  "log_numbered log \<longleftrightarrow>
     map rd_revision log = map (\<lambda>n. of_nat (Suc n)) [0..<length log] \<and> length log < 2 ^ 64 \<and>
     list_all (\<lambda>d. (rd_joined d = None) \<noteq> (rd_left d = None)) log"

definition mirror_ok :: "roster_delta list \<Rightarrow> roster_peer set \<Rightarrow> mirror \<Rightarrow> bool" where
  "mirror_ok log S mi \<longleftrightarrow>
     (\<exists>n \<le> length log. mi_revision mi = of_nat n \<and> client_view S (mi_client mi) = replay (take n log))"

lemma delta_applies:
  assumes "log_numbered log" and "n \<le> length log" and "d \<in> set log" and "rd_revision d = (of_nat n :: u64) + 1"
  shows "n < length log \<and> log ! n = d"
proof -
  obtain m where m: "m < length log" "log ! m = d" using assms(3) by (auto simp: in_set_conv_nth)
  have "map rd_revision log ! m = of_nat (Suc m)" using assms(1) m(1) by (simp add: log_numbered_def)
  then have "rd_revision d = of_nat (Suc m)" using m by simp
  with assms(4) have "unat (of_nat (Suc m) :: u64) = unat (of_nat (Suc n) :: u64)" by simp
  then have e: "Suc m mod 2 ^ 64 = Suc n mod 2 ^ 64" by (simp only: unat_of_nat) simp
  have "length log < 2 ^ 64" using assms(1) by (simp add: log_numbered_def)
  with m(1) assms(2) have b: "Suc m \<le> 2 ^ 64 - 1" "Suc n \<le> 2 ^ 64" by linarith+
  have "m = n"
  proof (cases "Suc n = 2 ^ 64")
    case True
    with e b(1) show ?thesis by simp
  next
    case False
    with e b show ?thesis by simp
  qed
  with m show ?thesis by simp
qed

lemma replay_snoc: "n < length log \<Longrightarrow> replay (take (Suc n) log) = apply_delta (replay (take n log)) (log ! n)"
  by (simp add: replay_def take_Suc_conv_app_nth)

lemma client_view_snoc [simp]: "client_view S (msgs @ [m]) = view_step (client_view S msgs) m"
  by (simp add: client_view_def)

lemma on_control_ok:
  assumes "mirror_ok log S mi" and "log_numbered log" and "true_msg log msg"
    and "on_control client_up stream_up msg mi = (cause, mi')"
  shows "(cause = None \<longrightarrow> mirror_ok log S mi') \<and> (cause \<noteq> None \<longrightarrow> mi_client mi' = mi_client mi)"
proof -
  obtain n where n: "n \<le> length log" "mi_revision mi = of_nat n" "client_view S (mi_client mi) = replay (take n log)"
    using assms(1) by (auto simp: mirror_ok_def)
  show ?thesis
  proof (cases msg)
    case (RosterSnapshotMsg v peers)
    with assms(3,4) show ?thesis
      by (auto simp: on_control_def tell_client_def true_msg_def mirror_ok_def split: if_splits)
  next
    case (RosterDeltaMsg v j l)
    then obtain d where d: "d \<in> set log" "v = rd_revision d" "j = rd_joined d" "l = rd_left d"
      using assms(3) by (auto simp: true_msg_def)
    show ?thesis
    proof (cases "v = mi_revision mi + 1")
      case True
      with d n have a: "n < length log \<and> log ! n = d" by (intro delta_applies [OF assms(2)]) simp_all
      have x: "(rd_joined d = None) \<noteq> (rd_left d = None)" using assms(2) d(1) by (auto simp: log_numbered_def list_all_iff)
      have r: "v = of_nat (Suc n)" using True n(2) by simp
      have "view_step (replay (take n log)) (ClientJoined v p) = replay (take (Suc n) log)" if "j = Some p" for p
        using a x that d by (simp add: replay_snoc apply_delta_def)
      moreover have "view_step (replay (take n log)) (ClientLeft v p) = replay (take (Suc n) log)" if "j = None" "l = Some p" for p
        using a that d by (simp add: replay_snoc apply_delta_def)
      ultimately show ?thesis using RosterDeltaMsg True assms(4) a r n(3) d x
        by (auto simp: on_control_def tell_client_def mirror_ok_def split: option.splits if_splits intro!: exI [of _ "Suc n"])
    next
      case False
      with RosterDeltaMsg assms(1,4) show ?thesis
        by (auto simp: on_control_def mirror_ok_def split: if_splits)
    qed
  qed (use assms(1,4) in \<open>auto simp: on_control_def\<close>)
qed

text \<open>Every message that a round decodes has a property.\<close>

definition decodes_to ::
  "(huddle_control_msg \<Rightarrow> bool) \<Rightarrow> (bytes \<Rightarrow> string + huddle_control_msg) \<Rightarrow> round \<Rightarrow> bool" where
  "decodes_to P dec rnd \<longleftrightarrow>
     (case fst rnd of
        Inr (Some (DataFrame _ payload)) \<Rightarrow> (case dec payload of Inr msg \<Rightarrow> P msg | Inl _ \<Rightarrow> True)
      | _ \<Rightarrow> True)"

lemma decodes_to_mono: "decodes_to P dec rnd \<Longrightarrow> (\<And>msg. P msg \<Longrightarrow> Q msg) \<Longrightarrow> decodes_to Q dec rnd"
  by (simp add: decodes_to_def split: sum.splits option.splits mesh_stream_frame.splits)

lemma read_owner_control_ok:
  assumes "mirror_ok log S mi" and "log_numbered log" and "list_all (decodes_to (true_msg log) dec) rounds"
    and "read_owner_control dec rounds mi = (cause, mi')"
  shows "\<exists>n \<le> length log. client_view S (mi_client mi') = replay (take n log)"
  using assms
proof (induction rounds arbitrary: mi)
  case Nil
  then show ?case by (auto simp: mirror_ok_def)
next
  case (Cons rnd rounds)
  obtain frame client_up stream_up where rnd: "rnd = (frame, client_up, stream_up)" by (cases rnd)
  have rest: "list_all (decodes_to (true_msg log) dec) rounds" using Cons.prems(3) by simp
  show ?case
  proof (cases "\<exists>f payload msg. frame = Inr (Some (DataFrame f payload)) \<and> dec payload = Inr msg")
    case True
    then obtain f payload msg where m: "frame = Inr (Some (DataFrame f payload))" "dec payload = Inr msg" by blast
    obtain k mi1 where c: "on_control client_up stream_up msg mi = (k, mi1)" by fastforce
    have "true_msg log msg" using Cons.prems(3) m rnd by (simp add: decodes_to_def)
    from on_control_ok [OF Cons.prems(1,2) this c]
    have ok: "(k = None \<longrightarrow> mirror_ok log S mi1) \<and> (k \<noteq> None \<longrightarrow> mi_client mi1 = mi_client mi)" .
    show ?thesis
    proof (cases k)
      case None
      with ok Cons.prems(4) m c rnd Cons.IH [OF _ Cons.prems(2) rest] show ?thesis by simp
    next
      case (Some x)
      with ok Cons.prems(1,4) m c rnd show ?thesis by (auto simp: mirror_ok_def)
    qed
  next
    case False
    then have "(\<exists>x. read_owner_control dec (rnd # rounds) mi = (x, mi)) \<or>
        read_owner_control dec (rnd # rounds) mi = read_owner_control dec rounds mi"
      by (auto simp: rnd split: sum.splits option.splits mesh_stream_frame.splits)
    then show ?thesis
    proof
      assume "\<exists>x. read_owner_control dec (rnd # rounds) mi = (x, mi)"
      with Cons.prems(1,4) show ?thesis by (auto simp: mirror_ok_def)
    next
      assume "read_owner_control dec (rnd # rounds) mi = read_owner_control dec rounds mi"
      with Cons.prems(4) have "read_owner_control dec rounds mi = (cause, mi')" by simp
      with Cons.IH [OF Cons.prems(1,2) rest] show ?thesis .
    qed
  qed
qed

section \<open>Theorems\<close>

text \<open>
  What the owner sends: a snapshot of an earlier state of its room, a published change, or a message
  that is not about the roster.
\<close>

definition owner_msg ::
  "uuid \<Rightarrow> uuid \<Rightarrow> (room_op \<times> room_out) list \<Rightarrow> room \<Rightarrow> huddle_control_msg \<Rightarrow> bool" where
  "owner_msg c ch h r msg \<longleftrightarrow>
     (case msg of
        RosterSnapshotMsg _ _ \<Rightarrow> (\<exists>h2 h1 r1. h = h2 @ h1 \<and> room_run c ch h1 r1 \<and> msg = roster_snapshot_msg r1)
      | RosterDeltaMsg _ _ _ \<Rightarrow> (\<exists>d \<in> set (rm_roster_log r). msg = roster_delta_msg d)
      | _ \<Rightarrow> True)"

lemma snapshot_of_log:
  assumes "room_run c ch h r"
  shows "set (rs_peers (roster_snapshot r)) = replay (rm_roster_log r)"
    and "rs_revision (roster_snapshot r) = of_nat (length (rm_roster_log r))"
  using room_run_ok [OF assms] by (simp_all add: room_ok_def log_ok_def roster_snapshot_def roster_def)

lemma earlier_snapshot:
  assumes "room_run c ch (h2 @ h1) r" and "room_run c ch h1 r1"
  shows "\<exists>n \<le> length (rm_roster_log r). rs_revision (roster_snapshot r1) = of_nat n \<and>
    set (rs_peers (roster_snapshot r1)) = replay (take n (rm_roster_log r))"
proof -
  obtain n where n: "n \<le> length (rm_roster_log r)" "rm_roster_log r1 = take n (rm_roster_log r)"
    using log_prefix [OF assms] by blast
  then have "length (rm_roster_log r1) = n" by simp
  with n snapshot_of_log [OF assms(2)] show ?thesis by auto
qed

lemma owner_msg_true:
  assumes "room_run c ch h r" and "owner_msg c ch h r msg"
  shows "true_msg (rm_roster_log r) msg"
proof (cases msg)
  case (RosterSnapshotMsg v peers)
  then obtain h2 h1 r1 where "h = h2 @ h1" "room_run c ch h1 r1" "msg = roster_snapshot_msg r1"
    using assms(2) by (auto simp: owner_msg_def)
  with earlier_snapshot assms(1) show ?thesis by (fastforce simp: true_msg_def roster_snapshot_msg_def Let_def)
qed (use assms(2) in \<open>auto simp: owner_msg_def true_msg_def roster_delta_msg_def\<close>)

text \<open>
  C24. A client on another runtime sees a roster the owner's room really had: whatever messages were
  lost, repeated or reordered on the way, the participants it shows after reading the control stream
  are those of one state in the history of the room.
\<close>

theorem mirror_shows_owner_roster:
  assumes "room_run c ch (h2 @ h0) r" and "room_run c ch h0 r0" and "length (rm_roster_log r) < 2 ^ 64"
    and "list_all (decodes_to (owner_msg c ch (h2 @ h0) r) dec) rounds"
    and "read_owner_control dec rounds \<lparr>mi_revision = rs_revision (roster_snapshot r0), mi_client = [], mi_resyncs = 0\<rparr>
      = (cause, mi')"
  shows "\<exists>h3 h1 r1. h2 @ h0 = h3 @ h1 \<and> room_run c ch h1 r1 \<and>
    client_view (set (rs_peers (roster_snapshot r0))) (mi_client mi') = set (rs_peers (roster_snapshot r1))"
proof -
  let ?log = "rm_roster_log r"
  have "log_numbered ?log" using room_run_ok [OF assms(1)] assms(3) by (simp add: log_numbered_def room_ok_def log_ok_def)
  moreover have "mirror_ok ?log (set (rs_peers (roster_snapshot r0)))
      \<lparr>mi_revision = rs_revision (roster_snapshot r0), mi_client = [], mi_resyncs = 0\<rparr>"
    using earlier_snapshot [OF assms(1,2)] by (simp add: mirror_ok_def client_view_def)
  moreover have "list_all (decodes_to (true_msg ?log) dec) rounds"
    using assms(4) decodes_to_mono [OF _ owner_msg_true [OF assms(1)]] by (auto simp: list_all_iff)
  ultimately obtain n where n: "n \<le> length ?log"
      "client_view (set (rs_peers (roster_snapshot r0))) (mi_client mi') = replay (take n ?log)"
    using read_owner_control_ok assms(5) by blast
  from log_states [OF assms(1) n(1)] obtain h3 h1 r1 where
    "h2 @ h0 = h3 @ h1" "room_run c ch h1 r1" "rm_roster_log r1 = take n ?log" by blast
  with n(2) snapshot_of_log(1) show ?thesis by (metis (no_types))
qed

section \<open>The floor and the registry\<close>

text \<open>The datagrams the floor accepts, in order.\<close>

fun accepted :: "(uuid \<times> u64) list \<Rightarrow> generation_floor \<Rightarrow> (uuid \<times> u64) list" where
  "accepted [] seen = []"
| "accepted ((s, g) # ds) seen =
     (case floor_check s g seen of
        (Accept _, seen') \<Rightarrow> (s, g) # accepted ds seen'
      | (RejectStale _, seen') \<Rightarrow> accepted ds seen')"

definition generations :: "uuid \<Rightarrow> (uuid \<times> u64) list \<Rightarrow> u64 list" where
  "generations s ds = map snd (filter (\<lambda>d. fst d = s) ds)"

text \<open>Once a session has been heard at a generation, no older one of it is accepted.\<close>

lemma floor_accepts: "floor_check s g seen = (Accept b, seen') \<Longrightarrow> seen' = seen(s \<mapsto> g) \<and> (\<forall>known. seen s = Some known \<longrightarrow> known \<le> g)"
  by (auto simp: floor_check_def split: option.splits if_splits)

lemma floor_rejects: "floor_check s g seen = (RejectStale known, seen') \<Longrightarrow> seen' = seen \<and> seen s = Some known \<and> g < known"
  by (auto simp: floor_check_def split: option.splits if_splits)

lemma accepted_monotone:
  "sorted (generations s (accepted ds seen)) \<and>
   (\<forall>known. seen s = Some known \<longrightarrow> (\<forall>g \<in> set (generations s (accepted ds seen)). known \<le> g))"
proof (induction ds arbitrary: seen)
  case (Cons d ds)
  obtain s' g v seen' where d: "d = (s', g)" and c: "floor_check s' g seen = (v, seen')" by (metis surj_pair)
  show ?case
  proof (cases v)
    case (Accept b)
    with c have e: "seen' = seen(s' \<mapsto> g)" "\<forall>known. seen s' = Some known \<longrightarrow> known \<le> g" using floor_accepts by blast+
    show ?thesis
    proof (cases "s' = s")
      case True
      with e(1) have "seen' s = Some g" by simp
      with Cons.IH [of seen'] have "sorted (generations s (accepted ds seen'))"
          "\<forall>h \<in> set (generations s (accepted ds seen')). g \<le> h" by blast+
      with True e(2) d c Accept show ?thesis by (auto simp: generations_def)
    next
      case False
      with e(1) have "seen' s = seen s" by simp
      moreover from False d c Accept have "generations s (accepted (d # ds) seen) = generations s (accepted ds seen')"
        by (simp add: generations_def)
      ultimately show ?thesis using Cons.IH [of seen'] by simp
    qed
  next
    case (RejectStale known)
    with c have "floor_check s' g seen = (RejectStale known, seen)" using floor_rejects by metis
    with Cons.IH [of seen] d show ?thesis by simp
  qed
qed (simp add: generations_def)

text \<open>
  A datagram of a session whose channel two communities share is delivered to neither.
\<close>

lemma ambiguous_channel_undelivered:
  assumes "am_rooms m (c1, ch) = Some a1" and "am_rooms m (c2, ch) = Some a2" and "c1 \<noteq> c2"
    and "(c1, ch) \<in> set ks" and "(c2, ch) \<in> set ks"
  shows "get_unambiguous_by_channel ks ch m = None"
proof -
  let ?xs = "filter (\<lambda>((_, ch'), _). ch' = ch) (entries ks (am_rooms m))"
  have "((c1, ch), a1) \<in> set ?xs" "((c2, ch), a2) \<in> set ?xs"
    using assms by (auto simp: set_entries)
  with assms(3) obtain x y zs where "?xs = x # y # zs"
    by (metis Pair_inject empty_iff list.exhaust list.set(1) list.set_cases set_ConsD)
  then show ?thesis by (simp add: get_unambiguous_by_channel_def)
qed

text \<open>
  Two joins of an empty room: the one that fails drops the room from the registry while the other
  still holds it, so that one is admitted into a room that no later participant will find.
\<close>

lemma orphan_room:
  assumes "get_or_create c ch manager_new = (a, m1)" and "cleanup_if_empty c ch m1 = (dropped, m2)"
    and "with_room a (add_peer p pk v) m2 = (res, m3)" and "get_or_create c ch m3 = (b, m4)"
  shows "res = Some (Inr (p, 0)) \<and> b \<noteq> a \<and> (\<exists>r r'. am_heap m4 a = Some r \<and> \<not> is_empty r \<and> am_heap m4 b = Some r' \<and> is_empty r')"
  using assms
  by (auto simp: get_or_create_def manager_new_def cleanup_if_empty_def is_empty_def room_new_def with_room_def
      add_peer_def guard_new_def version_conflict_def MAX_PEERS_PER_ROOM_def alloc_def publish_def insert_peer_def Let_def)

section \<open>A concrete mirror\<close>

definition demo_history2 :: "(room_op \<times> room_out) list" where
  "demo_history2 = [(AddPeer ''p2'' ''bob'' 2, Admitted 1), (AddPeer ''p1'' ''alice'' 2, Admitted 0)]"

definition demo_room2 :: room where
  "demo_room2 = snd (run_room_ops [AddPeer ''p2'' ''bob'' 2, AddPeer ''p1'' ''alice'' 2] (room_new ''c'' ''ch''))"

lemma demo_room2_run: "room_run ''c'' ''ch'' demo_history2 demo_room2"
proof -
  let ?ops = "[AddPeer ''p2'' ''bob'' 2, AddPeer ''p1'' ''alice'' 2]"
  have "fresh_ops ?ops (room_new ''c'' ''ch'')" and "fst (run_room_ops ?ops (room_new ''c'' ''ch'')) = demo_history2"
    by code_simp+
  with run_room_ops_run [of ?ops "''c''" "''ch''"] show ?thesis by (simp add: demo_room2_def)
qed

text \<open>The change 4 arrives before the change 3.\<close>

definition demo_dec :: "bytes \<Rightarrow> string + huddle_control_msg" where
  "demo_dec payload =
     (if payload = [3] then Inr (roster_delta_msg (rm_roster_log demo_room ! 2))
      else if payload = [4] then Inr (roster_delta_msg (rm_roster_log demo_room ! 3))
      else Inl ''postcard'')"

definition demo_header :: fenced_header where
  "demo_header = \<lparr>fh_session_id = ''ch'', fh_generation = 1, fh_owner_runtime_id = [1]\<rparr>"

definition demo_rounds :: "round list" where
  "demo_rounds = [(Inr (Some (DataFrame demo_header [4])), True, True), (Inr (Some (DataFrame demo_header [3])), True, True)]"

theorem mirror_shows_owner_roster_witness:
  "let mi' = snd (read_owner_control demo_dec demo_rounds
        \<lparr>mi_revision = rs_revision (roster_snapshot demo_room2), mi_client = [], mi_resyncs = 0\<rparr>) in
   mi_client mi' = [ClientLeft 3 \<lparr>rp_pubkey = ''alice'', rp_peer_index = 0\<rparr>] \<and> mi_resyncs mi' = 1 \<and>
   (\<exists>h3 h1 r1. demo_room_history = h3 @ h1 \<and> room_run ''c'' ''ch'' h1 r1 \<and>
    client_view (set (rs_peers (roster_snapshot demo_room2))) (mi_client mi') = set (rs_peers (roster_snapshot r1)))"
proof -
  let ?mi = "\<lparr>mi_revision = rs_revision (roster_snapshot demo_room2), mi_client = [], mi_resyncs = 0\<rparr>"
  obtain cause mi' where run: "read_owner_control demo_dec demo_rounds ?mi = (cause, mi')" by fastforce
  have h: "demo_room_history = take 4 demo_room_history @ demo_history2" by code_simp
  have len: "length (rm_roster_log demo_room) = 4" by code_simp
  have "list_all (decodes_to (owner_msg ''c'' ''ch'' demo_room_history demo_room) demo_dec) demo_rounds"
    using nth_mem [of 2 "rm_roster_log demo_room"] nth_mem [of 3 "rm_roster_log demo_room"] len
    by (auto simp: demo_rounds_def decodes_to_def demo_dec_def owner_msg_def roster_delta_msg_def)
  moreover have "mi_client mi' = [ClientLeft 3 \<lparr>rp_pubkey = ''alice'', rp_peer_index = 0\<rparr>] \<and> mi_resyncs mi' = 1"
  proof -
    have "mi_client (snd (read_owner_control demo_dec demo_rounds ?mi)) = [ClientLeft 3 \<lparr>rp_pubkey = ''alice'', rp_peer_index = 0\<rparr>]"
      and "mi_resyncs (snd (read_owner_control demo_dec demo_rounds ?mi)) = 1" by code_simp+
    with run show ?thesis by simp
  qed
  ultimately show ?thesis
    using mirror_shows_owner_roster [of "''c''" "''ch''" "take 4 demo_room_history" demo_history2 demo_room demo_room2 demo_dec demo_rounds cause mi']
      demo_room_run demo_room2_run run len h by (simp add: Let_def)
qed

end
