(* ===== verification/Sdk_Builders.thy ===== *)
theory Sdk_Builders
  imports Event_Kinds Channel_Roles
begin

text \<open>
  The event builders of the client SDK, crates/buzz-sdk/src/lib.rs and builders.rs: every builder
  with the checks it makes, in the order of the code.

  An event id is its hex text and a \<open>Uuid\<close> its text, as everywhere. A builder of the nostr crate is
  the record of what it was given. Code of other crates is the record \<open>sdk_env\<close>: \<open>Tag::parse\<close>, the
  uuid parser and the printing of a JSON object by serde; \<open>debug\<close> is the quoted form of a text that
  messages print.
\<close>

section \<open>Types\<close>

record sdk_env =
  tag_parse :: "string list \<Rightarrow> string + tag"
  uuid_parse_str :: "string \<Rightarrow> string + uuid"
  json_object_text :: "(string \<times> string) list \<Rightarrow> string"
  debug :: "string \<Rightarrow> string"

record event_builder =
  eb_kind :: u16
  eb_content :: string
  eb_tags :: "tag list"
  eb_allow_self_tagging :: bool

record thread_ref =
  tr_root_event_id :: string
  tr_parent_event_id :: string

record diff_meta =
  dm_repo_url :: string
  dm_commit_sha :: string
  dm_file_path :: "string option"
  dm_parent_commit :: "string option"
  dm_branch :: "(string \<times> string) option"
  dm_pr_number :: "u32 option"
  dm_language :: "string option"
  dm_description :: "string option"
  dm_truncated :: bool
  dm_alt_text :: "string option"

datatype vote_direction = VoteUp | VoteDown

record custom_emoji =
  ce_shortcode :: string
  ce_url :: string

datatype sdk_error =
    ContentTooLarge nat nat
  | InvalidTag string
  | EmojiTooLong
  | TooManyMentions
  | InvalidDiffMeta string
  | InvalidInput string

definition MENTION_CAP :: nat where "MENTION_CAP = 50"
definition MAX_CUSTOM_EMOJI_SHORTCODE_LEN :: nat where "MAX_CUSTOM_EMOJI_SHORTCODE_LEN = 64"
definition MAX_CUSTOM_EMOJI_REACTION_LEN :: nat where
  "MAX_CUSTOM_EMOJI_REACTION_LEN = MAX_CUSTOM_EMOJI_SHORTCODE_LEN + 2"
definition CUSTOM_EMOJI_SET_D_TAG :: string where "CUSTOM_EMOJI_SET_D_TAG = ''buzz:custom-emoji''"
definition MAX_CONTACTS :: nat where "MAX_CONTACTS = 10000"
definition MAX_REASON_BYTES :: nat where "MAX_REASON_BYTES = 64"
definition PROJECT_D_MAX_LEN :: nat where "PROJECT_D_MAX_LEN = 1024"
definition PROJECT_NAME_MAX :: nat where "PROJECT_NAME_MAX = 256"
definition PROJECT_DESCRIPTION_MAX :: nat where "PROJECT_DESCRIPTION_MAX = 2048"
definition PROJECT_CHANNEL_MAX :: nat where "PROJECT_CHANNEL_MAX = 256"
definition PROJECT_VISIBILITY_MAX :: nat where "PROJECT_VISIBILITY_MAX = 256"
definition SDK_PROJECT_MEMBER_CAP :: nat where "SDK_PROJECT_MEMBER_CAP = 64"
definition NIP44_MIN_CONTENT_LEN :: nat where "NIP44_MIN_CONTENT_LEN = 132"
definition NIP44_MAX_CONTENT_LEN :: nat where "NIP44_MAX_CONTENT_LEN = 87472"

section \<open>Checks\<close>

text \<open>\<open>EventBuilder::new(Kind::Custom(kind), content).tags(tags)\<close>.\<close>

definition builder :: "u16 \<Rightarrow> string \<Rightarrow> tag list \<Rightarrow> event_builder" where
  "builder kind content tags =
     \<lparr>eb_kind = kind, eb_content = content, eb_tags = tags, eb_allow_self_tagging = False\<rparr>"

definition sdk_tag :: "sdk_env \<Rightarrow> string list \<Rightarrow> sdk_error + tag" where
  "sdk_tag env parts = map_err InvalidTag (tag_parse env parts)"

text \<open>\<open>tags.push(tag(parts)?)\<close>, and the same for an optional value.\<close>

definition push_tag :: "sdk_env \<Rightarrow> string list \<Rightarrow> tag list \<Rightarrow> sdk_error + tag list" where
  "push_tag env parts tags = and_then (sdk_tag env parts) (\<lambda>t. Inr (tags @ [t]))"

definition push_some ::
  "sdk_env \<Rightarrow> 'a option \<Rightarrow> ('a \<Rightarrow> string list) \<Rightarrow> tag list \<Rightarrow> sdk_error + tag list" where
  "push_some env opt parts tags = (case opt of None \<Rightarrow> Inr tags | Some v \<Rightarrow> push_tag env (parts v) tags)"

text \<open>A loop that may stop with an error.\<close>

fun for_each :: "('a \<Rightarrow> 's \<Rightarrow> 'e + 's) \<Rightarrow> 'a list \<Rightarrow> 's \<Rightarrow> 'e + 's" where
  "for_each f [] s = Inr s"
| "for_each f (x # xs) s = and_then (f x s) (for_each f xs)"

definition check_content :: "string \<Rightarrow> nat \<Rightarrow> sdk_error + unit" where
  "check_content content m = check (length content \<le> m) (ContentTooLarge m (length content))"

definition all_hex :: "string \<Rightarrow> bool" where
  "all_hex s = list_all is_ascii_hexdigit s"

definition check_hex_len :: "sdk_env \<Rightarrow> string \<Rightarrow> nat \<Rightarrow> string \<Rightarrow> sdk_error + unit" where
  "check_hex_len env s min_len field =
     check (\<not> (length s < min_len \<or> \<not> all_hex s))
       (InvalidDiffMeta (field @ '' must be at least '' @ show_nat min_len @ '' hex characters (got '' @ debug env s @ '')''))"

definition check_commit_hex :: "sdk_env \<Rightarrow> string \<Rightarrow> string \<Rightarrow> sdk_error + unit" where
  "check_commit_hex env s field =
     check (\<not> (length s \<noteq> 40 \<and> length s \<noteq> 64 \<or> \<not> all_hex s))
       (InvalidInput (field @
          '' must be a full 40-character (SHA-1) or 64-character (SHA-256) hex commit id (got '' @ debug env s @ '')''))"

definition to_ascii_lowercase :: "string \<Rightarrow> string" where
  "to_ascii_lowercase s = map ascii_lower s"

definition check_hex_exact :: "string \<Rightarrow> nat \<Rightarrow> string \<Rightarrow> sdk_error + string" where
  "check_hex_exact s len field =
     (if length s \<noteq> len \<or> \<not> all_hex s then Inl (InvalidInput (field @ '' must be a '' @ show_nat len @ ''-character hex string''))
      else Inr (to_ascii_lowercase s))"

definition check_pubkey_hex :: "string \<Rightarrow> string \<Rightarrow> sdk_error + string" where
  "check_pubkey_hex s field =
     (if length s \<noteq> 64 \<or> \<not> all_hex s then Inl (InvalidInput (field @ '' must be a 64-character hex pubkey''))
      else Inr (to_ascii_lowercase s))"

fun contains_dots :: "string \<Rightarrow> bool" where
  "contains_dots (a # b # s) = (a = CHR ''.'' \<and> b = CHR ''.'' \<or> contains_dots (b # s))"
| "contains_dots _ = False"

text \<open>A text in single quotes.\<close>

definition quoted :: "string \<Rightarrow> string" where
  "quoted s = CHR 0x27 # s @ [CHR 0x27]"

definition check_repo_id :: "string \<Rightarrow> sdk_error + unit" where
  "check_repo_id repo_id =
     (if repo_id = [] then Inl (InvalidInput ''repo_id must not be empty'')
      else if length repo_id > 64 then Inl (InvalidInput (''repo_id exceeds 64 characters (got '' @ show_nat (length repo_id) @ '')''))
      else if \<not> list_all (\<lambda>c. is_ascii_alphanumeric c \<or> c = CHR ''.'' \<or> c = CHR ''_'' \<or> c = CHR ''-'') repo_id
      then Inl (InvalidInput ''repo_id may only contain [a-zA-Z0-9._-]'')
      else if hd repo_id = CHR ''.'' then Inl (InvalidInput ''repo_id must not start with a dot'')
      else if contains_dots repo_id then Inl (InvalidInput (''repo_id must not contain '' @ quoted ''..''))
      else Inr ())"

definition normalize_custom_emoji_shortcode :: "string \<Rightarrow> sdk_error + string" where
  "normalize_custom_emoji_shortcode shortcode =
     (let trimmed = trim_matches (\<lambda>c. c = '':'') (trim shortcode) in
      if trimmed = [] then Inl (InvalidInput ''emoji shortcode must not be empty'')
      else if length trimmed > MAX_CUSTOM_EMOJI_SHORTCODE_LEN
      then Inl (InvalidInput (''emoji shortcode exceeds 64 bytes (got '' @ show_nat (length trimmed) @ '')''))
      else if \<not> list_all (\<lambda>c. is_ascii_alphanumeric c \<or> c = CHR ''-'' \<or> c = CHR ''_'') trimmed
      then Inl (InvalidInput ''emoji shortcode may only contain ASCII letters, digits, hyphens, and underscores'')
      else Inr (to_ascii_lowercase trimmed))"

definition web_scheme :: "string \<Rightarrow> bool" where
  "web_scheme url = (starts_with url ''http://'' \<or> starts_with url ''https://'')"

definition check_custom_emoji_url :: "string \<Rightarrow> sdk_error + unit" where
  "check_custom_emoji_url url =
     (if url = [] then Inl (InvalidInput ''emoji image URL must not be empty'')
      else if length url > 2048 then Inl (InvalidInput (''emoji image URL exceeds 2048 bytes (got '' @ show_nat (length url) @ '')''))
      else if \<not> web_scheme url then Inl (InvalidInput ''emoji image URL must start with http:// or https://'')
      else Inr ())"

definition thread_tags :: "sdk_env \<Rightarrow> thread_ref \<Rightarrow> tag list \<Rightarrow> sdk_error + tag list" where
  "thread_tags env tr tags =
     (let root = tr_root_event_id tr; parent = tr_parent_event_id tr in
      if root = parent then push_tag env [''e'', root, '''', ''reply''] tags
      else and_then (push_tag env [''e'', root, '''', ''root''] tags)
             (push_tag env [''e'', parent, '''', ''reply'']))"

text \<open>\<open>seen\<close> holds the values of the tags pushed so far.\<close>

definition mention_tags :: "sdk_env \<Rightarrow> string list \<Rightarrow> tag list \<Rightarrow> sdk_error + tag list" where
  "mention_tags env mentions tags =
     (if length mentions > MENTION_CAP then Inl TooManyMentions
      else (and_then
        (for_each (\<lambda>hex (seen, tags).
            let lower = to_ascii_lowercase hex in
            if lower \<in> set seen then Inr (seen, tags)
            else and_then (push_tag env [''p'', lower] tags) (\<lambda>tags. Inr (lower # seen, tags)))
          mentions ([], tags)) (\<lambda>(_, tags). Inr tags)))"

definition imeta_tags :: "sdk_env \<Rightarrow> string list list \<Rightarrow> tag list \<Rightarrow> sdk_error + tag list" where
  "imeta_tags env media_tags tags = for_each (push_tag env) media_tags tags"

section \<open>Messages, votes and reactions\<close>

definition KiB :: nat where "KiB = 1024"

definition build_message ::
  "sdk_env \<Rightarrow> uuid \<Rightarrow> string \<Rightarrow> thread_ref option \<Rightarrow> string list \<Rightarrow> bool \<Rightarrow> string list list
   \<Rightarrow> sdk_error + event_builder" where
  "build_message env channel_id content thread mentions broadcast media_tags =
     and_then (check_content content (64 * KiB)) (\<lambda>_.
     and_then (push_tag env [''h'', channel_id] []) (\<lambda>tags.
     and_then (case thread of None \<Rightarrow> Inr tags | Some tr \<Rightarrow> thread_tags env tr tags) (\<lambda>tags.
     and_then (mention_tags env mentions tags) (\<lambda>tags.
     and_then (if broadcast then push_tag env [''broadcast'', ''1''] tags else Inr tags) (\<lambda>tags.
     and_then (imeta_tags env media_tags tags) (\<lambda>tags.
     Inr (builder 9 content tags)))))))"

definition content_looks_like_nip44 :: "string \<Rightarrow> bool" where
  "content_looks_like_nip44 content =
     (NIP44_MIN_CONTENT_LEN \<le> length content \<and> length content \<le> NIP44_MAX_CONTENT_LEN)"

definition build_agent_observer_frame ::
  "sdk_env \<Rightarrow> string \<Rightarrow> string \<Rightarrow> string \<Rightarrow> string \<Rightarrow> sdk_error + event_builder" where
  "build_agent_observer_frame env recipient_pubkey agent_pubkey frame encrypted_content =
     (if frame \<noteq> ''telemetry'' \<and> frame \<noteq> ''control''
      then Inl (InvalidInput (''observer frame must be '' @ debug env ''telemetry'' @ '' or '' @ debug env ''control''))
      else if \<not> content_looks_like_nip44 encrypted_content
      then Inl (InvalidInput ''observer frame content must be NIP-44 v2 ciphertext'')
      else
        and_then (check_pubkey_hex recipient_pubkey ''recipient_pubkey'') (\<lambda>recipient_pubkey.
        and_then (check_pubkey_hex agent_pubkey ''agent_pubkey'') (\<lambda>agent_pubkey.
        and_then (push_tag env [''p'', recipient_pubkey] []) (\<lambda>tags.
        and_then (push_tag env [''agent'', agent_pubkey] tags) (\<lambda>tags.
        and_then (push_tag env [''frame'', frame] tags) (\<lambda>tags.
        Inr (builder (ucast KIND_AGENT_OBSERVER_FRAME) encrypted_content tags)))))))"

definition build_forum_post ::
  "sdk_env \<Rightarrow> uuid \<Rightarrow> string \<Rightarrow> string list \<Rightarrow> string list list \<Rightarrow> sdk_error + event_builder" where
  "build_forum_post env channel_id content mentions media_tags =
     and_then (check_content content (64 * KiB)) (\<lambda>_.
     and_then (push_tag env [''h'', channel_id] []) (\<lambda>tags.
     and_then (mention_tags env mentions tags) (\<lambda>tags.
     and_then (imeta_tags env media_tags tags) (\<lambda>tags.
     Inr (builder 45001 content tags)))))"

definition build_forum_comment ::
  "sdk_env \<Rightarrow> uuid \<Rightarrow> string \<Rightarrow> thread_ref \<Rightarrow> string list \<Rightarrow> string list list \<Rightarrow> sdk_error + event_builder" where
  "build_forum_comment env channel_id content thread mentions media_tags =
     and_then (check_content content (64 * KiB)) (\<lambda>_.
     and_then (push_tag env [''h'', channel_id] []) (\<lambda>tags.
     and_then (thread_tags env thread tags) (\<lambda>tags.
     and_then (mention_tags env mentions tags) (\<lambda>tags.
     and_then (imeta_tags env media_tags tags) (\<lambda>tags.
     Inr (builder 45003 content tags))))))"

definition build_diff_message ::
  "sdk_env \<Rightarrow> uuid \<Rightarrow> string \<Rightarrow> diff_meta \<Rightarrow> thread_ref option \<Rightarrow> sdk_error + event_builder" where
  "build_diff_message env channel_id content m thread =
     and_then (check_content content (60 * KiB)) (\<lambda>_.
     and_then (check (web_scheme (dm_repo_url m))
       (InvalidDiffMeta ''repo_url must start with http:// or https://'')) (\<lambda>_.
     and_then (check_hex_len env (dm_commit_sha m) 7 ''commit_sha'') (\<lambda>_.
     and_then (case dm_parent_commit m of None \<Rightarrow> Inr () | Some pc \<Rightarrow> check_hex_len env pc 7 ''parent_commit'') (\<lambda>_.
     and_then (case dm_branch m of
         Some (src, tgt) \<Rightarrow> check (\<not> (src = [] \<or> tgt = []))
           (InvalidDiffMeta ''branch requires both source and target to be non-empty'')
       | None \<Rightarrow> Inr ()) (\<lambda>_.
     and_then (case dm_pr_number m of
         Some pr \<Rightarrow> check (pr \<noteq> 0) (InvalidDiffMeta ''pr_number must be positive'') | None \<Rightarrow> Inr ()) (\<lambda>_.
     and_then (push_tag env [''h'', channel_id] []) (\<lambda>tags.
     and_then (push_tag env [''repo'', dm_repo_url m] tags) (\<lambda>tags.
     and_then (push_tag env [''commit'', dm_commit_sha m] tags) (\<lambda>tags.
     and_then (push_some env (dm_file_path m) (\<lambda>fp. [''file'', fp]) tags) (\<lambda>tags.
     and_then (push_some env (dm_parent_commit m) (\<lambda>pc. [''parent-commit'', pc]) tags) (\<lambda>tags.
     and_then (push_some env (dm_branch m) (\<lambda>(src, tgt). [''branch'', src, tgt]) tags) (\<lambda>tags.
     and_then (push_some env (dm_pr_number m) (\<lambda>pr. [''pr'', show_nat (unat pr)]) tags) (\<lambda>tags.
     and_then (push_some env (dm_language m) (\<lambda>l. [''l'', l]) tags) (\<lambda>tags.
     and_then (push_some env (dm_description m) (\<lambda>d. [''description'', d]) tags) (\<lambda>tags.
     and_then (if dm_truncated m then push_tag env [''truncated'', ''true''] tags else Inr tags) (\<lambda>tags.
     and_then (push_some env (dm_alt_text m) (\<lambda>a. [''alt'', a]) tags) (\<lambda>tags.
     and_then (case thread of None \<Rightarrow> Inr tags | Some tr \<Rightarrow> thread_tags env tr tags) (\<lambda>tags.
     Inr (builder 40008 content tags)))))))))))))))))))"

text \<open>An \<open>h\<close> tag and an \<open>e\<close> tag, as several builders start.\<close>

definition channel_and_target :: "sdk_env \<Rightarrow> uuid \<Rightarrow> string \<Rightarrow> sdk_error + tag list" where
  "channel_and_target env channel_id target =
     and_then (push_tag env [''h'', channel_id] []) (push_tag env [''e'', target])"

definition build_edit :: "sdk_env \<Rightarrow> uuid \<Rightarrow> string \<Rightarrow> string \<Rightarrow> sdk_error + event_builder" where
  "build_edit env channel_id target_event_id new_content =
     and_then (check_content new_content (64 * KiB)) (\<lambda>_.
     and_then (channel_and_target env channel_id target_event_id) (\<lambda>tags.
     Inr (builder 40003 new_content tags)))"

record delete_message_options =
  do_action_id :: "uuid option"
  do_reason_code :: "string option"
  do_public_reason :: "string option"

definition build_delete_message_with_options ::
  "sdk_env \<Rightarrow> uuid \<Rightarrow> string \<Rightarrow> delete_message_options \<Rightarrow> sdk_error + event_builder" where
  "build_delete_message_with_options env channel_id target_event_id options =
     and_then (channel_and_target env channel_id target_event_id) (\<lambda>tags.
     and_then (push_some env (do_action_id options) (\<lambda>a. [''action_id'', a]) tags) (\<lambda>tags.
     and_then (push_some env (do_reason_code options) (\<lambda>r. [''reason_code'', r]) tags) (\<lambda>tags.
     and_then (push_some env (do_public_reason options) (\<lambda>r. [''public_reason'', r]) tags) (\<lambda>tags.
     Inr (builder 9005 [] tags)))))"

definition build_delete_message :: "sdk_env \<Rightarrow> uuid \<Rightarrow> string \<Rightarrow> sdk_error + event_builder" where
  "build_delete_message env channel_id target_event_id =
     build_delete_message_with_options env channel_id target_event_id
       \<lparr>do_action_id = None, do_reason_code = None, do_public_reason = None\<rparr>"

definition build_delete_compat :: "sdk_env \<Rightarrow> uuid \<Rightarrow> string \<Rightarrow> sdk_error + event_builder" where
  "build_delete_compat env channel_id target_event_id =
     and_then (channel_and_target env channel_id target_event_id) (\<lambda>tags. Inr (builder 5 [] tags))"

definition build_vote :: "sdk_env \<Rightarrow> uuid \<Rightarrow> string \<Rightarrow> vote_direction \<Rightarrow> sdk_error + event_builder" where
  "build_vote env channel_id target_event_id direction =
     (let content = (case direction of VoteUp \<Rightarrow> ''+'' | VoteDown \<Rightarrow> ''-'') in
      and_then (channel_and_target env channel_id target_event_id) (\<lambda>tags. Inr (builder 45002 content tags)))"

definition build_reaction :: "sdk_env \<Rightarrow> string \<Rightarrow> string \<Rightarrow> sdk_error + event_builder" where
  "build_reaction env target_event_id emoji =
     (if char_count emoji > 64 then Inl EmojiTooLong
      else and_then (push_tag env [''e'', target_event_id] []) (\<lambda>tags. Inr (builder 7 emoji tags)))"

definition build_custom_emoji_reaction ::
  "sdk_env \<Rightarrow> string \<Rightarrow> string \<Rightarrow> string \<Rightarrow> sdk_error + event_builder" where
  "build_custom_emoji_reaction env target_event_id shortcode url =
     and_then (normalize_custom_emoji_shortcode shortcode) (\<lambda>shortcode.
     and_then (check_custom_emoji_url url) (\<lambda>_.
     let content = '':'' @ shortcode @ '':'' in
     and_then (push_tag env [''e'', target_event_id] []) (\<lambda>tags.
     and_then (push_tag env [''emoji'', shortcode, url] tags) (\<lambda>tags.
     Inr (builder 7 content tags)))))"

definition build_remove_reaction :: "sdk_env \<Rightarrow> string \<Rightarrow> sdk_error + event_builder" where
  "build_remove_reaction env reaction_event_id =
     and_then (push_tag env [''e'', reaction_event_id] []) (\<lambda>tags. Inr (builder 5 [] tags))"

definition push_emoji ::
  "sdk_env \<Rightarrow> custom_emoji \<Rightarrow> string list \<times> tag list \<Rightarrow> sdk_error + string list \<times> tag list" where
  "push_emoji env emoji st =
     (let (seen, tags) = st in
      and_then (normalize_custom_emoji_shortcode (ce_shortcode emoji)) (\<lambda>shortcode.
      and_then (check_custom_emoji_url (ce_url emoji)) (\<lambda>_.
      and_then (check (shortcode \<notin> set seen) (InvalidInput (''duplicate emoji shortcode: '' @ shortcode))) (\<lambda>_.
      and_then (push_tag env [''emoji'', shortcode, ce_url emoji] tags) (\<lambda>tags.
      Inr (shortcode # seen, tags))))))"

definition build_custom_emoji_set :: "sdk_env \<Rightarrow> custom_emoji list \<Rightarrow> sdk_error + event_builder" where
  "build_custom_emoji_set env emojis =
     and_then (push_tag env [''d'', CUSTOM_EMOJI_SET_D_TAG] []) (\<lambda>tags.
     and_then (for_each (push_emoji env) emojis ([], tags)) (\<lambda>(_, tags).
     Inr (builder (ucast KIND_EMOJI_SET) [] tags)))"

definition build_set_canvas :: "sdk_env \<Rightarrow> uuid \<Rightarrow> string \<Rightarrow> sdk_error + event_builder" where
  "build_set_canvas env channel_id content =
     and_then (push_tag env [''h'', channel_id] []) (\<lambda>tags. Inr (builder 40100 content tags))"

definition build_profile ::
  "sdk_env \<Rightarrow> string option \<Rightarrow> string option \<Rightarrow> string option \<Rightarrow> string option \<Rightarrow> string option
   \<Rightarrow> sdk_error + event_builder" where
  "build_profile env display_name name picture about nip05 =
     (let field = (\<lambda>k v. case v of None \<Rightarrow> [] | Some v \<Rightarrow> [(k, v)]);
          object = field ''display_name'' display_name @ field ''name'' name @ field ''picture'' picture @
                   field ''about'' about @ field ''nip05'' nip05
      in Inr (builder 0 (json_object_text env object) []))"

section \<open>Channels\<close>

definition build_add_member :: "sdk_env \<Rightarrow> uuid \<Rightarrow> string \<Rightarrow> member_role option \<Rightarrow> sdk_error + event_builder" where
  "build_add_member env channel_id target_pubkey role =
     and_then (check_hex_len env target_pubkey 64 ''target_pubkey'') (\<lambda>_.
     and_then (push_tag env [''h'', channel_id] []) (\<lambda>tags.
     and_then (push_tag env [''p'', to_ascii_lowercase target_pubkey] tags) (\<lambda>tags.
     and_then (push_some env role (\<lambda>r. [''role'', role_as_str r]) tags) (\<lambda>tags.
     Inr (builder 9000 [] tags)))))"

definition build_remove_member :: "sdk_env \<Rightarrow> uuid \<Rightarrow> string \<Rightarrow> sdk_error + event_builder" where
  "build_remove_member env channel_id target_pubkey =
     and_then (check_hex_len env target_pubkey 64 ''target_pubkey'') (\<lambda>_.
     and_then (push_tag env [''h'', channel_id] []) (\<lambda>tags.
     and_then (push_tag env [''p'', to_ascii_lowercase target_pubkey] tags) (\<lambda>tags.
     Inr (builder 9001 [] tags))))"

text \<open>Builders with an \<open>h\<close> tag and at most one further tag.\<close>

definition channel_event :: "sdk_env \<Rightarrow> u16 \<Rightarrow> uuid \<Rightarrow> string list option \<Rightarrow> sdk_error + event_builder" where
  "channel_event env kind channel_id extra =
     and_then (push_tag env [''h'', channel_id] []) (\<lambda>tags.
     and_then (push_some env extra id tags) (\<lambda>tags.
     Inr (builder kind [] tags)))"

definition build_leave :: "sdk_env \<Rightarrow> uuid \<Rightarrow> sdk_error + event_builder" where
  "build_leave env channel_id = channel_event env 9022 channel_id None"

text \<open>An \<open>i32\<close> is an integer; \<open>to_string\<close> prints its sign and digits.\<close>

definition show_i32 :: "int \<Rightarrow> string" where
  "show_i32 i = (if i < 0 then CHR ''-'' # show_nat (nat (- i)) else show_nat (nat i))"

definition build_update_channel ::
  "sdk_env \<Rightarrow> uuid \<Rightarrow> string option \<Rightarrow> string option \<Rightarrow> string option \<Rightarrow> int option option
   \<Rightarrow> sdk_error + event_builder" where
  "build_update_channel env channel_id name about visibility ttl =
     (if name = None \<and> about = None \<and> visibility = None \<and> ttl = None
      then Inl (InvalidTag ''at least one of name, about, visibility, or ttl must be provided'')
      else
        and_then (case visibility of
            Some v \<Rightarrow> check (\<not> (v \<noteq> ''open'' \<and> v \<noteq> ''private''))
              (InvalidTag (''visibility must be '' @ debug env ''open'' @ '' or '' @ debug env ''private''))
          | None \<Rightarrow> Inr ()) (\<lambda>_.
        and_then (case name of
            Some n \<Rightarrow> check (trim (canonical_channel_name n) \<noteq> []) (InvalidTag ''channel name is required'')
          | None \<Rightarrow> Inr ()) (\<lambda>_.
        and_then (push_tag env [''h'', channel_id] []) (\<lambda>tags.
        and_then (push_some env name (\<lambda>n. [''name'', canonical_channel_name n]) tags) (\<lambda>tags.
        and_then (push_some env about (\<lambda>a. [''about'', a]) tags) (\<lambda>tags.
        and_then (push_some env visibility (\<lambda>v. [''visibility'', v]) tags) (\<lambda>tags.
        and_then (push_some env ttl
          (\<lambda>t. [''ttl'', case t of Some secs \<Rightarrow> show_i32 secs | None \<Rightarrow> []]) tags) (\<lambda>tags.
        Inr (builder 9002 [] tags)))))))))"

definition build_set_topic :: "sdk_env \<Rightarrow> uuid \<Rightarrow> string \<Rightarrow> sdk_error + event_builder" where
  "build_set_topic env channel_id topic = channel_event env 9002 channel_id (Some [''topic'', topic])"

definition build_set_purpose :: "sdk_env \<Rightarrow> uuid \<Rightarrow> string \<Rightarrow> sdk_error + event_builder" where
  "build_set_purpose env channel_id purpose = channel_event env 9002 channel_id (Some [''purpose'', purpose])"

definition build_create_channel ::
  "sdk_env \<Rightarrow> uuid \<Rightarrow> string \<Rightarrow> channel_visibility option \<Rightarrow> channel_type option \<Rightarrow> string option \<Rightarrow> int option
   \<Rightarrow> sdk_error + event_builder" where
  "build_create_channel env channel_id name visibility ct about ttl =
     (let name = canonical_channel_name name in
      if trim name = [] then Inl (InvalidTag ''channel name is required'')
      else
        and_then (push_tag env [''h'', channel_id] []) (\<lambda>tags.
        and_then (push_tag env [''name'', name] tags) (\<lambda>tags.
        and_then (push_some env visibility (\<lambda>v. [''visibility'', visibility_as_str v]) tags) (\<lambda>tags.
        and_then (push_some env ct (\<lambda>t. [''channel_type'', channel_type_as_str t]) tags) (\<lambda>tags.
        and_then (push_some env about (\<lambda>a. [''about'', a]) tags) (\<lambda>tags.
        and_then (push_some env ttl (\<lambda>secs. [''ttl'', show_i32 secs]) tags) (\<lambda>tags.
        Inr (builder 9007 [] tags))))))))"

definition build_join :: "sdk_env \<Rightarrow> uuid \<Rightarrow> sdk_error + event_builder" where
  "build_join env channel_id = channel_event env 9021 channel_id None"

definition build_archive :: "sdk_env \<Rightarrow> uuid \<Rightarrow> sdk_error + event_builder" where
  "build_archive env channel_id = channel_event env 9002 channel_id (Some [''archived'', ''true''])"

definition build_unarchive :: "sdk_env \<Rightarrow> uuid \<Rightarrow> sdk_error + event_builder" where
  "build_unarchive env channel_id = channel_event env 9002 channel_id (Some [''archived'', ''false''])"

definition build_delete_channel :: "sdk_env \<Rightarrow> uuid \<Rightarrow> sdk_error + event_builder" where
  "build_delete_channel env channel_id = channel_event env 9008 channel_id None"

section \<open>Notes and contacts\<close>

definition build_note :: "sdk_env \<Rightarrow> string \<Rightarrow> string option \<Rightarrow> sdk_error + event_builder" where
  "build_note env content reply_to_event_id =
     and_then (check_content content (64 * KiB)) (\<lambda>_.
     and_then (push_some env reply_to_event_id (\<lambda>r. [''e'', r, '''', ''reply'']) []) (\<lambda>tags.
     Inr (builder 1 content tags)))"

definition or_empty :: "string option \<Rightarrow> string" where
  "or_empty v = (case v of Some s \<Rightarrow> s | None \<Rightarrow> [])"

definition push_contact ::
  "sdk_env \<Rightarrow> string \<times> string option \<times> string option \<Rightarrow> string list \<times> tag list
   \<Rightarrow> sdk_error + string list \<times> tag list" where
  "push_contact env contact st =
     (let (pubkey_hex, relay_url, petname) = contact; (seen, tags) = st in
      if length pubkey_hex \<noteq> 64 \<or> \<not> all_hex pubkey_hex
      then Inl (InvalidInput (''contact pubkey must be exactly 64 hex chars, got len='' @ show_nat (length pubkey_hex)))
      else
        and_then (case relay_url of
            Some url \<Rightarrow> check (length url \<le> 2048)
              (InvalidInput (''relay_url exceeds 2048 bytes (got '' @ show_nat (length url) @ '')''))
          | None \<Rightarrow> Inr ()) (\<lambda>_.
        and_then (case petname of
            Some name \<Rightarrow> check (length name \<le> 256)
              (InvalidInput (''petname exceeds 256 bytes (got '' @ show_nat (length name) @ '')''))
          | None \<Rightarrow> Inr ()) (\<lambda>_.
        let lower = to_ascii_lowercase pubkey_hex in
        if lower \<in> set seen then Inr (seen, tags)
        else and_then (push_tag env [''p'', lower, or_empty relay_url, or_empty petname] tags) (\<lambda>tags.
          Inr (lower # seen, tags)))))"

definition build_contact_list ::
  "sdk_env \<Rightarrow> (string \<times> string option \<times> string option) list \<Rightarrow> sdk_error + event_builder" where
  "build_contact_list env contacts =
     (if length contacts > MAX_CONTACTS
      then Inl (InvalidInput (''contact list exceeds maximum of 10000 contacts (got '' @ show_nat (length contacts) @ '')''))
      else and_then (for_each (push_contact env) contacts ([], [])) (\<lambda>(_, tags). Inr (builder 3 [] tags)))"

definition sdk_extract_channel_id :: "sdk_env \<Rightarrow> event \<Rightarrow> uuid option" where
  "sdk_extract_channel_id env e =
     find_map (\<lambda>t. case t of
         n # v # _ \<Rightarrow> if n = ''h'' then (case uuid_parse_str env v of Inr u \<Rightarrow> Some u | Inl _ \<Rightarrow> None) else None
       | _ \<Rightarrow> None) (ev_tags e)"

end
