(* ===== verification/Sdk_Commands.thy ===== *)
theory Sdk_Commands
  imports Sdk_Builders
begin

text \<open>
  The other builders of crates/buzz-sdk/src/builders.rs: git repositories, patches, issues, pull
  requests and their status, workflows, direct messages, presence, moderation commands, identity
  archival, projects, and deletion by coordinate.
\<close>

section \<open>Git\<close>

fun check_each :: "('a \<Rightarrow> 'e + unit) \<Rightarrow> 'a list \<Rightarrow> 'e + unit" where
  "check_each f [] = Inr ()"
| "check_each f (x # xs) = and_then (f x) (\<lambda>_. check_each f xs)"

definition check_some :: "('a \<Rightarrow> 'e + unit) \<Rightarrow> 'a option \<Rightarrow> 'e + unit" where
  "check_some f opt = (case opt of None \<Rightarrow> Inr () | Some v \<Rightarrow> f v)"

text \<open>\<open>x exceeds n characters (got m)\<close>.\<close>

definition exceeds :: "string \<Rightarrow> string \<Rightarrow> string \<Rightarrow> sdk_error" where
  "exceeds what bound v = InvalidInput (what @ '' exceeds '' @ bound @ '' characters (got '' @ show_nat (length v) @ '')'')"

definition check_clone_url :: "string \<Rightarrow> sdk_error + unit" where
  "check_clone_url url =
     (if url = [] then Inl (InvalidInput ''clone_url must not be empty'')
      else check (length url \<le> 512) (exceeds ''clone_url'' ''512'' url))"

definition check_web_url :: "sdk_env \<Rightarrow> string \<Rightarrow> sdk_error + unit" where
  "check_web_url env url =
     (if \<not> web_scheme url
      then Inl (InvalidInput (''web_url must start with http:// or https:// (got '' @ debug env url @ '')''))
      else check (length url \<le> 512) (exceeds ''web_url'' ''512'' url))"

definition check_relay :: "sdk_env \<Rightarrow> string \<Rightarrow> sdk_error + unit" where
  "check_relay env relay =
     (if \<not> starts_with relay ''ws://'' \<and> \<not> starts_with relay ''wss://''
      then Inl (InvalidInput (''relay must start with ws:// or wss:// (got '' @ debug env relay @ '')''))
      else check (length relay \<le> 256) (exceeds ''relay'' ''256'' relay))"

definition build_repo_announcement ::
  "sdk_env \<Rightarrow> string \<Rightarrow> string option \<Rightarrow> string option \<Rightarrow> string list \<Rightarrow> string option \<Rightarrow> string list
   \<Rightarrow> sdk_error + event_builder" where
  "build_repo_announcement env repo_id name description clone_urls web_url relays =
     and_then (check_repo_id repo_id) (\<lambda>_.
     and_then (check_some (\<lambda>n. check (length n \<le> 128) (exceeds ''name'' ''128'' n)) name) (\<lambda>_.
     and_then (check_some (\<lambda>d. check (length d \<le> 1024) (exceeds ''description'' ''1024'' d)) description) (\<lambda>_.
     and_then (check (length clone_urls \<le> 5)
       (InvalidInput (''too many clone_urls (max 5, got '' @ show_nat (length clone_urls) @ '')''))) (\<lambda>_.
     and_then (check_each check_clone_url clone_urls) (\<lambda>_.
     and_then (check_some (check_web_url env) web_url) (\<lambda>_.
     and_then (check (length relays \<le> 10)
       (InvalidInput (''too many relays (max 10, got '' @ show_nat (length relays) @ '')''))) (\<lambda>_.
     and_then (check_each (check_relay env) relays) (\<lambda>_.
     and_then (push_tag env [''d'', repo_id] []) (\<lambda>tags.
     and_then (push_some env name (\<lambda>n. [''name'', n]) tags) (\<lambda>tags.
     and_then (push_some env description (\<lambda>d. [''description'', d]) tags) (\<lambda>tags.
     and_then (if clone_urls \<noteq> [] then push_tag env (''clone'' # clone_urls) tags else Inr tags) (\<lambda>tags.
     and_then (push_some env web_url (\<lambda>u. [''web'', u]) tags) (\<lambda>tags.
     and_then (if relays \<noteq> [] then push_tag env (''relays'' # relays) tags else Inr tags) (\<lambda>tags.
     Inr (builder (ucast KIND_GIT_REPO_ANNOUNCEMENT) [] tags)))))))))))))))"

definition build_repo_announcement_with_tags ::
  "sdk_env \<Rightarrow> string \<Rightarrow> string \<Rightarrow> tag list \<Rightarrow> sdk_error + event_builder" where
  "build_repo_announcement_with_tags env repo_id content tags =
     and_then (check_repo_id repo_id) (\<lambda>_.
     and_then (sdk_tag env [''d'', repo_id]) (\<lambda>d.
     Inr (builder (ucast KIND_GIT_REPO_ANNOUNCEMENT) content
       (d # filter (\<lambda>t. tag_name t \<noteq> ''d'') tags))))"

record git_repo_coord =
  gc_owner :: string
  gc_id :: string

definition to_a_tag_value :: "git_repo_coord \<Rightarrow> sdk_error + string" where
  "to_a_tag_value repo =
     and_then (check_pubkey_hex (gc_owner repo) ''repo owner'') (\<lambda>owner.
     and_then (check_repo_id (gc_id repo)) (\<lambda>_.
     Inr (''30617:'' @ owner @ '':'' @ gc_id repo)))"

text \<open>\<open>p\<close> tags for checked public keys.\<close>

definition push_pubkeys :: "sdk_env \<Rightarrow> string \<Rightarrow> string list \<Rightarrow> tag list \<Rightarrow> sdk_error + tag list" where
  "push_pubkeys env field pks tags =
     for_each (\<lambda>pk tags. and_then (check_pubkey_hex pk field) (\<lambda>pk. push_tag env [''p'', pk] tags)) pks tags"

text \<open>A tag for an optional value that is checked first, and an \<open>e\<close> tag for an optional event id.\<close>

definition push_checked ::
  "sdk_env \<Rightarrow> ('a \<Rightarrow> sdk_error + unit) \<Rightarrow> 'a option \<Rightarrow> ('a \<Rightarrow> string list) \<Rightarrow> tag list \<Rightarrow> sdk_error + tag list" where
  "push_checked env chk opt parts tags =
     (case opt of None \<Rightarrow> Inr tags | Some v \<Rightarrow> and_then (chk v) (\<lambda>_. push_tag env (parts v) tags))"

definition push_event_id ::
  "sdk_env \<Rightarrow> string \<Rightarrow> string list \<Rightarrow> string option \<Rightarrow> tag list \<Rightarrow> sdk_error + tag list" where
  "push_event_id env field rest opt tags =
     (case opt of
        None \<Rightarrow> Inr tags
      | Some i \<Rightarrow> and_then (check_hex_exact i 64 field) (\<lambda>i. push_tag env (''e'' # i # rest) tags))"

record git_patch_meta =
  pm_euc :: "string option"
  pm_recipients :: "string list"
  pm_reply_to :: "string option"
  pm_root :: bool
  pm_root_revision :: bool
  pm_commit :: "string option"
  pm_parent_commit :: "string option"
  pm_commit_pgp_sig :: "string option"
  pm_committer :: "(string \<times> string \<times> string \<times> string) option"

definition build_git_patch ::
  "sdk_env \<Rightarrow> git_repo_coord \<Rightarrow> string \<Rightarrow> git_patch_meta \<Rightarrow> sdk_error + event_builder" where
  "build_git_patch env repo content m =
     (if trim content = []
      then Inl (InvalidInput (''patch content must not be empty '' @ [CHR 0xE2, CHR 0x80, CHR 0x94] @
             '' refusing to publish an unappliable patch''))
      else
        and_then (check_content content (60 * KiB)) (\<lambda>_.
        and_then (to_a_tag_value repo) (\<lambda>a_value.
        and_then (check_pubkey_hex (gc_owner repo) ''repo owner'') (\<lambda>owner.
        and_then (push_tag env [''a'', a_value] []) (\<lambda>tags.
        and_then (push_checked env (\<lambda>c. check_commit_hex env c ''euc'') (pm_euc m) (\<lambda>c. [''r'', c, ''euc'']) tags) (\<lambda>tags.
        and_then (push_tag env [''p'', owner] tags) (\<lambda>tags.
        and_then (push_pubkeys env ''recipient'' (pm_recipients m) tags) (\<lambda>tags.
        and_then (push_event_id env ''reply_to'' ['''', ''reply''] (pm_reply_to m) tags) (\<lambda>tags.
        and_then (check (\<not> (pm_root m \<and> pm_root_revision m))
          (InvalidInput ''patch cannot be both --root and --root-revision'')) (\<lambda>_.
        and_then (if pm_root m then push_tag env [''t'', ''root''] tags else Inr tags) (\<lambda>tags.
        and_then (if pm_root_revision m then push_tag env [''t'', ''root-revision''] tags else Inr tags) (\<lambda>tags.
        and_then (push_checked env (\<lambda>c. check_commit_hex env c ''commit'') (pm_commit m) (\<lambda>c. [''commit'', c]) tags) (\<lambda>tags.
        and_then (push_some env (pm_commit m) (\<lambda>c. [''r'', c]) tags) (\<lambda>tags.
        and_then (push_checked env (\<lambda>c. check_commit_hex env c ''parent_commit'') (pm_parent_commit m)
          (\<lambda>c. [''parent-commit'', c]) tags) (\<lambda>tags.
        and_then (push_some env (pm_commit_pgp_sig m) (\<lambda>s. [''commit-pgp-sig'', s]) tags) (\<lambda>tags.
        and_then (push_some env (pm_committer m) (\<lambda>(name, email, ts, tz). [''committer'', name, email, ts, tz]) tags) (\<lambda>tags.
        Inr (builder (ucast KIND_GIT_PATCH) content tags))))))))))))))))))"

record git_issue_meta =
  im_labels :: "string list"
  im_recipients :: "string list"

definition check_subject :: "string \<Rightarrow> sdk_error + unit" where
  "check_subject subject =
     (if subject = [] then Inl (InvalidInput ''subject must not be empty'')
      else check (length subject \<le> 256) (exceeds ''subject'' ''256'' subject))"

definition push_labels :: "sdk_env \<Rightarrow> string list \<Rightarrow> tag list \<Rightarrow> sdk_error + tag list" where
  "push_labels env labels tags = for_each (\<lambda>l. push_tag env [''t'', l]) labels tags"

definition build_git_issue ::
  "sdk_env \<Rightarrow> git_repo_coord \<Rightarrow> string \<Rightarrow> string \<Rightarrow> git_issue_meta \<Rightarrow> sdk_error + event_builder" where
  "build_git_issue env repo subject content m =
     and_then (check_content content (64 * KiB)) (\<lambda>_.
     and_then (check_subject subject) (\<lambda>_.
     and_then (to_a_tag_value repo) (\<lambda>a_value.
     and_then (check_pubkey_hex (gc_owner repo) ''repo owner'') (\<lambda>owner.
     and_then (push_tag env [''a'', a_value] []) (\<lambda>tags.
     and_then (push_tag env [''p'', owner] tags) (\<lambda>tags.
     and_then (push_pubkeys env ''recipient'' (im_recipients m) tags) (\<lambda>tags.
     and_then (push_tag env [''subject'', subject] tags) (\<lambda>tags.
     and_then (push_labels env (im_labels m) tags) (\<lambda>tags.
     Inr (builder (ucast KIND_GIT_ISSUE) content tags))))))))))"

datatype git_status = GitOpen | GitAppliedOrResolved | GitClosed | GitDraft

record git_applied_patch_ref =
  gp_id :: string
  gp_relay :: "string option"
  gp_pubkey :: "string option"

text \<open>\<open>s.rfind(c)\<close> and what stands before and after it.\<close>

definition rsplit_once :: "'a \<Rightarrow> 'a list \<Rightarrow> ('a list \<times> 'a list) option" where
  "rsplit_once c s = map_option (\<lambda>(w, r). (rev r, rev w)) (split_once c (rev s))"

definition applied_patch_parse :: "string \<Rightarrow> sdk_error + git_applied_patch_ref" where
  "applied_patch_parse spec =
     (case split_once CHR '':'' spec of
        None \<Rightarrow> Inr \<lparr>gp_id = spec, gp_relay = None, gp_pubkey = None\<rparr>
      | Some (pid, rest_str) \<Rightarrow>
          (case rsplit_once CHR '':'' rest_str of
             Some (relay, candidate_pubkey) \<Rightarrow>
               if length candidate_pubkey = 64 \<and> all_hex candidate_pubkey
               then Inr \<lparr>gp_id = pid, gp_relay = Some relay, gp_pubkey = Some (to_ascii_lowercase candidate_pubkey)\<rparr>
               else Inr \<lparr>gp_id = pid, gp_relay = Some rest_str, gp_pubkey = None\<rparr>
           | None \<Rightarrow> Inr \<lparr>gp_id = pid, gp_relay = Some rest_str, gp_pubkey = None\<rparr>))"

fun git_status_kind :: "git_status \<Rightarrow> u16" where
  "git_status_kind GitOpen = ucast KIND_GIT_STATUS_OPEN"
| "git_status_kind GitAppliedOrResolved = ucast KIND_GIT_STATUS_MERGED"
| "git_status_kind GitClosed = ucast KIND_GIT_STATUS_CLOSED"
| "git_status_kind GitDraft = ucast KIND_GIT_STATUS_DRAFT"

record git_status_meta =
  gs_root_event :: string
  gs_accepted_revision_root :: "string option"
  gs_repo :: "git_repo_coord option"
  gs_euc :: "string option"
  gs_recipients :: "string list"
  gs_applied_patches :: "git_applied_patch_ref list"
  gs_merge_commit :: "string option"
  gs_applied_as_commits :: "string list"

definition push_patch_ref :: "sdk_env \<Rightarrow> git_applied_patch_ref \<Rightarrow> tag list \<Rightarrow> sdk_error + tag list" where
  "push_patch_ref env p tags =
     and_then (check_hex_exact (gp_id p) 64 ''applied_patch'') (\<lambda>patch_id.
     case (gp_relay p, gp_pubkey p) of
       (None, None) \<Rightarrow> push_tag env [''q'', patch_id] tags
     | (Some relay, None) \<Rightarrow> push_tag env [''q'', patch_id, relay] tags
     | (Some relay, Some pubkey) \<Rightarrow>
         and_then (check_pubkey_hex pubkey ''applied_patch pubkey'') (\<lambda>pubkey.
         push_tag env [''q'', patch_id, relay, pubkey] tags)
     | (None, Some _) \<Rightarrow> Inl (InvalidInput ''applied_patch pubkey hint requires a relay-url hint''))"

definition build_git_status ::
  "sdk_env \<Rightarrow> git_status \<Rightarrow> string \<Rightarrow> git_status_meta \<Rightarrow> sdk_error + event_builder" where
  "build_git_status env status content m =
     and_then (check_content content (64 * KiB)) (\<lambda>_.
     and_then (check_hex_exact (gs_root_event m) 64 ''root_event'') (\<lambda>root.
     and_then (push_tag env [''e'', root, '''', ''root''] []) (\<lambda>tags.
     and_then (push_event_id env ''accepted_revision_root'' ['''', ''reply''] (gs_accepted_revision_root m) tags) (\<lambda>tags.
     and_then (push_pubkeys env ''recipient'' (gs_recipients m) tags) (\<lambda>tags.
     and_then (case gs_repo m of
         None \<Rightarrow> Inr tags
       | Some repo \<Rightarrow> and_then (to_a_tag_value repo) (\<lambda>a_value. push_tag env [''a'', a_value] tags)) (\<lambda>tags.
     and_then (push_checked env (\<lambda>c. check_commit_hex env c ''euc'') (gs_euc m) (\<lambda>c. [''r'', c]) tags) (\<lambda>tags.
     and_then (check (\<not> (status \<noteq> GitAppliedOrResolved \<and>
         (gs_applied_patches m \<noteq> [] \<or> gs_merge_commit m \<noteq> None \<or> gs_applied_as_commits m \<noteq> [])))
       (InvalidInput ''applied_patches/merge_commit/applied_as_commits only apply to the merged/resolved status'')) (\<lambda>_.
     and_then (for_each (push_patch_ref env) (gs_applied_patches m) tags) (\<lambda>tags.
     and_then (push_checked env (\<lambda>c. check_commit_hex env c ''merge_commit'') (gs_merge_commit m)
       (\<lambda>c. [''merge-commit'', c]) tags) (\<lambda>tags.
     and_then (push_some env (gs_merge_commit m) (\<lambda>c. [''r'', c]) tags) (\<lambda>tags.
     and_then (if gs_applied_as_commits m = [] then Inr tags
       else and_then (check_each (\<lambda>c. check_commit_hex env c ''applied_as_commit'') (gs_applied_as_commits m)) (\<lambda>_.
         and_then (push_tag env (''applied-as-commits'' # gs_applied_as_commits m) tags)
           (for_each (\<lambda>c. push_tag env [''r'', c]) (gs_applied_as_commits m)))) (\<lambda>tags.
     Inr (builder (git_status_kind status) content tags)))))))))))))"

record git_pull_request_meta =
  pr_euc :: "string option"
  pr_recipients :: "string list"
  pr_channel_id :: "string option"
  pr_subject :: string
  pr_labels :: "string list"
  pr_commit :: string
  pr_clone_urls :: "string list"
  pr_branch_name :: "string option"
  pr_merge_base :: "string option"
  pr_revision_of :: "string option"

definition build_git_pull_request ::
  "sdk_env \<Rightarrow> git_repo_coord \<Rightarrow> string \<Rightarrow> git_pull_request_meta \<Rightarrow> sdk_error + event_builder" where
  "build_git_pull_request env repo content m =
     and_then (check_content content (64 * KiB)) (\<lambda>_.
     and_then (check_subject (pr_subject m)) (\<lambda>_.
     and_then (check_commit_hex env (pr_commit m) ''commit'') (\<lambda>_.
     and_then (check (pr_clone_urls m \<noteq> [])
       (InvalidInput ''a pull request needs at least one --clone url where the tip commit can be fetched'')) (\<lambda>_.
     and_then (to_a_tag_value repo) (\<lambda>a_value.
     and_then (check_pubkey_hex (gc_owner repo) ''repo owner'') (\<lambda>owner.
     and_then (push_tag env [''a'', a_value] []) (\<lambda>tags.
     and_then (push_checked env (\<lambda>c. check_commit_hex env c ''euc'') (pr_euc m) (\<lambda>c. [''r'', c]) tags) (\<lambda>tags.
     and_then (push_tag env [''p'', owner] tags) (\<lambda>tags.
     and_then (push_pubkeys env ''recipient'' (pr_recipients m) tags) (\<lambda>tags.
     and_then (push_tag env [''subject'', pr_subject m] tags) (\<lambda>tags.
     and_then (push_labels env (pr_labels m) tags) (\<lambda>tags.
     and_then (push_tag env [''c'', pr_commit m] tags) (\<lambda>tags.
     and_then (case pr_channel_id m of
         None \<Rightarrow> Inr tags
       | Some ch \<Rightarrow> and_then (map_err (\<lambda>e. InvalidInput (''channel_id must be a valid UUID: '' @ e)) (uuid_parse_str env ch))
           (\<lambda>ch. push_tag env [''h'', ch] tags)) (\<lambda>tags.
     and_then (push_tag env (''clone'' # pr_clone_urls m) tags) (\<lambda>tags.
     and_then (push_some env (pr_branch_name m) (\<lambda>b. [''branch-name'', b]) tags) (\<lambda>tags.
     and_then (push_checked env (\<lambda>c. check_commit_hex env c ''merge_base'') (pr_merge_base m)
       (\<lambda>c. [''merge-base'', c]) tags) (\<lambda>tags.
     and_then (push_event_id env ''revision_of'' [] (pr_revision_of m) tags) (\<lambda>tags.
     Inr (builder (ucast KIND_GIT_PULL_REQUEST) content tags)))))))))))))))))))"

record git_pr_update_meta =
  pu_euc :: "string option"
  pu_recipients :: "string list"
  pu_pr_event :: string
  pu_pr_author :: string
  pu_commit :: string
  pu_clone_urls :: "string list"
  pu_merge_base :: "string option"

definition build_git_pr_update ::
  "sdk_env \<Rightarrow> git_repo_coord \<Rightarrow> string \<Rightarrow> git_pr_update_meta \<Rightarrow> sdk_error + event_builder" where
  "build_git_pr_update env repo content m =
     and_then (check_content content (64 * KiB)) (\<lambda>_.
     and_then (check_hex_exact (pu_pr_event m) 64 ''pr_event'') (\<lambda>pr_event.
     and_then (check_pubkey_hex (pu_pr_author m) ''pr_author'') (\<lambda>pr_author.
     and_then (check_commit_hex env (pu_commit m) ''commit'') (\<lambda>_.
     and_then (check (pu_clone_urls m \<noteq> [])
       (InvalidInput ''a pull request update needs at least one --clone url where the tip commit can be fetched'')) (\<lambda>_.
     and_then (to_a_tag_value repo) (\<lambda>a_value.
     and_then (check_pubkey_hex (gc_owner repo) ''repo owner'') (\<lambda>owner.
     and_then (push_tag env [''a'', a_value] []) (\<lambda>tags.
     and_then (push_checked env (\<lambda>c. check_commit_hex env c ''euc'') (pu_euc m) (\<lambda>c. [''r'', c]) tags) (\<lambda>tags.
     and_then (push_tag env [''p'', owner] tags) (\<lambda>tags.
     and_then (push_pubkeys env ''recipient'' (pu_recipients m) tags) (\<lambda>tags.
     and_then (push_tag env [''E'', pr_event] tags) (\<lambda>tags.
     and_then (push_tag env [''P'', pr_author] tags) (\<lambda>tags.
     and_then (push_tag env [''c'', pu_commit m] tags) (\<lambda>tags.
     and_then (push_tag env (''clone'' # pu_clone_urls m) tags) (\<lambda>tags.
     and_then (push_checked env (\<lambda>c. check_commit_hex env c ''merge_base'') (pu_merge_base m)
       (\<lambda>c. [''merge-base'', c]) tags) (\<lambda>tags.
     Inr (builder (ucast KIND_GIT_PR_UPDATE) content tags)))))))))))))))))"

section \<open>Projects and deletion by coordinate\<close>

text \<open>\<open>s.splitn(3, c)\<close>, each part read by \<open>next().unwrap_or("")\<close>.\<close>

definition splitn3 :: "'a \<Rightarrow> 'a list \<Rightarrow> 'a list \<times> 'a list \<times> 'a list" where
  "splitn3 c s = (case split_once c s of
       None \<Rightarrow> (s, [], [])
     | Some (a, r) \<Rightarrow> (case split_once c r of None \<Rightarrow> (a, r, []) | Some (b, r') \<Rightarrow> (a, b, r')))"

definition is_ascii_uppercase :: "char \<Rightarrow> bool" where
  "is_ascii_uppercase c = (let n = of_char c :: nat in 65 \<le> n \<and> n \<le> 90)"

record project_member_coord =
  pc_coord :: string
  pc_hint :: "string option"

definition parse_full :: "sdk_env \<Rightarrow> string \<Rightarrow> sdk_error + project_member_coord" where
  "parse_full env coord =
     (case splitn3 CHR '':'' coord of (kind_part, owner_part, rest) \<Rightarrow>
      if kind_part \<noteq> ''30617''
      then Inl (InvalidInput (''member coordinate must start with '' @ quoted ''30617:'' @ '' (got kind '' @ debug env kind_part @ '')''))
      else if length owner_part \<noteq> 64 \<or> \<not> all_hex owner_part
      then Inl (InvalidInput (''member owner must be a 64-character hex pubkey (got '' @ debug env owner_part @ '')''))
      else if list_ex is_ascii_uppercase owner_part
      then Inl (InvalidInput ''member owner hex must be lowercase'')
      else if rest = [] then Inl (InvalidInput ''member coordinate repo-d must not be empty'')
      else Inr \<lparr>pc_coord = ''30617:'' @ owner_part @ '':'' @ rest, pc_hint = None\<rparr>)"

definition to_tag_parts :: "project_member_coord \<Rightarrow> string list" where
  "to_tag_parts m = [''a'', pc_coord m] @ (case pc_hint m of None \<Rightarrow> [] | Some h \<Rightarrow> [h])"

definition sdk_tag_name :: "tag \<Rightarrow> string option" where
  "sdk_tag_name t = (case t of [] \<Rightarrow> None | k # _ \<Rightarrow> Some k)"

definition sdk_tag_value :: "tag \<Rightarrow> string option" where
  "sdk_tag_value t = (case t of k # v # _ \<Rightarrow> Some v | _ \<Rightarrow> None)"

definition named :: "string \<Rightarrow> tag list \<Rightarrow> tag list" where
  "named n tags = filter (\<lambda>t. sdk_tag_name t = Some n) tags"

text \<open>The text of an error, as its \<open>Display\<close> prints it.\<close>

fun sdk_error_text :: "sdk_error \<Rightarrow> string" where
  "sdk_error_text (ContentTooLarge m got) =
     ''content exceeds maximum size of '' @ show_nat m @ '' bytes (got '' @ show_nat got @ '')''"
| "sdk_error_text (InvalidTag m) = ''invalid tag: '' @ m"
| "sdk_error_text EmojiTooLong = ''emoji exceeds maximum length of 64 characters''"
| "sdk_error_text TooManyMentions = ''too many mentions (max 50)''"
| "sdk_error_text (InvalidDiffMeta m) = ''invalid diff metadata: '' @ m"
| "sdk_error_text (InvalidInput m) = ''invalid input: '' @ m"

definition sdk_arity :: "tag \<Rightarrow> sdk_error + unit" where
  "sdk_arity a = (let len = length a - 1 in
     check (1 \<le> len \<and> len \<le> 2)
       (InvalidInput (''member '' @ quoted ''a'' @ '' tag must have 1 or 2 value elements (got '' @ show_nat len @
          '') (rule: member-tag-arity)'')))"

text \<open>One round of the loop over the members, \<open>seen\<close> the coordinates met so far.\<close>

definition sdk_member :: "sdk_env \<Rightarrow> tag \<Rightarrow> string list \<Rightarrow> sdk_error + string list" where
  "sdk_member env a seen =
     (let coord_val = unwrap_or '''' (sdk_tag_value a) in
      and_then (map_err (\<lambda>e. InvalidInput (sdk_error_text e @ '' (rule: member-coordinate-malformed)''))
         (parse_full env coord_val)) (\<lambda>_.
      if coord_val \<in> set seen
      then Inl (InvalidInput (''duplicate member coordinate '' @ debug env coord_val @ '' (rule: member-duplicate)''))
      else Inr (coord_val # seen)))"

definition sdk_singleton :: "tag list \<Rightarrow> string \<times> nat \<Rightarrow> sdk_error + unit" where
  "sdk_singleton tags = (\<lambda>(field, max_bytes).
     if length (named field tags) > 1
     then Inl (InvalidInput (''project must have at most one '' @ quoted field @ '' tag (rule: metadata-cardinality)''))
     else case named field tags of
       [] \<Rightarrow> Inr ()
     | t # _ \<Rightarrow> check (length (unwrap_or '''' (sdk_tag_value t)) \<le> max_bytes)
         (InvalidInput (quoted field @ '' tag exceeds '' @ show_nat max_bytes @ '' bytes (rule: metadata-length)'')))"

definition singleton_fields :: "(string \<times> nat) list" where
  "singleton_fields =
     [(''name'', PROJECT_NAME_MAX), (''description'', PROJECT_DESCRIPTION_MAX),
      (''buzz-channel'', PROJECT_CHANNEL_MAX), (''buzz-visibility'', PROJECT_VISIBILITY_MAX)]"

definition sdk_validate_project_envelope :: "sdk_env \<Rightarrow> tag list \<Rightarrow> sdk_error + unit" where
  "sdk_validate_project_envelope env tags =
     (let d_tags = named ''d'' tags; a_tags = named ''a'' tags in
      and_then (check (length d_tags = 1)
        (InvalidInput (''project must have exactly one '' @ quoted ''d'' @ '' tag (rule: d-cardinality)''))) (\<lambda>_.
      let d_val = unwrap_or '''' (sdk_tag_value (hd d_tags)) in
      and_then (check (d_val \<noteq> [])
        (InvalidInput (''project '' @ quoted ''d'' @ '' tag must not be empty (rule: d-empty)''))) (\<lambda>_.
      and_then (check (length d_val \<le> PROJECT_D_MAX_LEN)
        (InvalidInput (''project '' @ quoted ''d'' @ '' tag exceeds '' @ show_nat PROJECT_D_MAX_LEN @ '' bytes (rule: d-empty)''))) (\<lambda>_.
      and_then (check (length a_tags \<le> SDK_PROJECT_MEMBER_CAP)
        (InvalidInput (''project exceeds member cap of '' @ show_nat SDK_PROJECT_MEMBER_CAP @ '' (got '' @
           show_nat (length a_tags) @ '') (rule: member-cap)''))) (\<lambda>_.
      and_then (check_each sdk_arity a_tags) (\<lambda>_.
      and_then (for_each (sdk_member env) a_tags []) (\<lambda>_.
      check_each (sdk_singleton tags) singleton_fields)))))))"

definition build_project_with_tags :: "sdk_env \<Rightarrow> string \<Rightarrow> tag list \<Rightarrow> sdk_error + event_builder" where
  "build_project_with_tags env content tags =
     and_then (sdk_validate_project_envelope env tags) (\<lambda>_.
     Inr (builder (ucast KIND_PROJECT) content tags))"

definition build_project ::
  "sdk_env \<Rightarrow> string \<Rightarrow> string option \<Rightarrow> string option \<Rightarrow> project_member_coord list \<Rightarrow> string option \<Rightarrow> string option
   \<Rightarrow> sdk_error + event_builder" where
  "build_project env slug name description members channel visibility =
     and_then (check (slug \<noteq> []) (InvalidInput ''project slug must not be empty'')) (\<lambda>_.
     and_then (check (length slug \<le> PROJECT_D_MAX_LEN)
       (InvalidInput (''project slug must not exceed '' @ show_nat PROJECT_D_MAX_LEN @ '' bytes (got '' @ show_nat (length slug) @ '')''))) (\<lambda>_.
     and_then (check_some (\<lambda>ch. and_then (map_err
         (\<lambda>_. InvalidInput (''buzz-channel must be a valid UUID (got '' @ debug env ch @ '')'')) (uuid_parse_str env ch)) (\<lambda>_. Inr ()))
       channel) (\<lambda>_.
     and_then (check_some (\<lambda>vis. check (vis = ''listed'' \<or> vis = ''unlisted'')
         (InvalidInput (''buzz-visibility must be '' @ quoted ''listed'' @ '' or '' @ quoted ''unlisted'' @ '' (got '' @ debug env vis @ '')'')))
       visibility) (\<lambda>_.
     and_then (push_tag env [''d'', slug] []) (\<lambda>tags.
     and_then (push_some env name (\<lambda>n. [''name'', n]) tags) (\<lambda>tags.
     and_then (push_some env description (\<lambda>d. [''description'', d]) tags) (\<lambda>tags.
     and_then (for_each (\<lambda>m. push_tag env (to_tag_parts m)) members tags) (\<lambda>tags.
     and_then (push_some env channel (\<lambda>ch. [''buzz-channel'', ch]) tags) (\<lambda>tags.
     and_then (push_some env visibility (\<lambda>vis. [''buzz-visibility'', vis]) tags) (\<lambda>tags.
     build_project_with_tags env [] tags))))))))))"

definition build_delete_addressable :: "sdk_env \<Rightarrow> u32 \<Rightarrow> string \<Rightarrow> string \<Rightarrow> sdk_error + event_builder" where
  "build_delete_addressable env kind pubkey d =
     and_then (check (10000 \<le> kind \<and> kind < 20000 \<or> 30000 \<le> kind \<and> kind < 40000)
       (InvalidInput (''kind '' @ show_nat (unat kind) @ '' is not an addressable kind (must be 10000'' @
          [CHR 0xE2, CHR 0x80, CHR 0x93] @ ''19999 or 30000'' @ [CHR 0xE2, CHR 0x80, CHR 0x93] @ ''39999)''))) (\<lambda>_.
     and_then (check_pubkey_hex pubkey ''pubkey'') (\<lambda>pk.
     and_then (check (d \<noteq> []) (InvalidInput ''d must not be empty'')) (\<lambda>_.
     and_then (push_tag env [''a'', show_nat (unat kind) @ '':'' @ pk @ '':'' @ d] []) (\<lambda>tags.
     Inr (builder (ucast KIND_DELETION) [] tags)))))"

section \<open>Workflows, direct messages and presence\<close>

definition build_workflow_def :: "sdk_env \<Rightarrow> uuid \<Rightarrow> uuid \<Rightarrow> string \<Rightarrow> sdk_error + event_builder" where
  "build_workflow_def env channel_id workflow_id yaml =
     and_then (check_content yaml (64 * KiB)) (\<lambda>_.
     and_then (push_tag env [''d'', workflow_id] []) (\<lambda>tags.
     and_then (push_tag env [''h'', channel_id] tags) (\<lambda>tags.
     Inr (builder (ucast KIND_WORKFLOW_DEF) yaml tags))))"

definition build_workflow_update :: "sdk_env \<Rightarrow> uuid \<Rightarrow> uuid \<Rightarrow> string \<Rightarrow> sdk_error + event_builder" where
  "build_workflow_update env channel_id workflow_id yaml =
     and_then (check_content yaml (64 * KiB)) (\<lambda>_.
     and_then (push_tag env [''d'', workflow_id] []) (\<lambda>tags.
     and_then (push_tag env [''h'', channel_id] tags) (\<lambda>tags.
     Inr (builder (ucast KIND_WORKFLOW_DEF) yaml tags))))"

definition build_workflow_delete :: "sdk_env \<Rightarrow> string \<Rightarrow> uuid \<Rightarrow> sdk_error + event_builder" where
  "build_workflow_delete env author_pubkey workflow_id =
     build_delete_addressable env KIND_WORKFLOW_DEF author_pubkey workflow_id"

definition build_workflow_trigger :: "sdk_env \<Rightarrow> uuid \<Rightarrow> sdk_error + event_builder" where
  "build_workflow_trigger env workflow_id =
     and_then (push_tag env [''d'', workflow_id] []) (\<lambda>tags. Inr (builder (ucast KIND_WORKFLOW_TRIGGER) [] tags))"

definition build_workflow_approval :: "sdk_env \<Rightarrow> string \<Rightarrow> bool \<Rightarrow> string \<Rightarrow> sdk_error + event_builder" where
  "build_workflow_approval env token_hash approved note_text =
     and_then (check (\<not> (length token_hash \<noteq> 64 \<or> \<not> all_hex token_hash))
       (InvalidInput ''token_hash must be a 64-character hex SHA-256 digest'')) (\<lambda>_.
     let kind = (if approved then KIND_APPROVAL_GRANT else KIND_APPROVAL_DENY) in
     and_then (push_tag env [''d'', token_hash] []) (\<lambda>tags. Inr (builder (ucast kind) note_text tags)))"

definition build_dm_open :: "sdk_env \<Rightarrow> string list \<Rightarrow> sdk_error + event_builder" where
  "build_dm_open env pubkeys =
     and_then (check (\<not> (pubkeys = [] \<or> length pubkeys > 8)) (InvalidInput ''dm open requires 1-8 pubkeys'')) (\<lambda>_.
     and_then (push_pubkeys env ''pubkey'' pubkeys []) (\<lambda>tags.
     Inr (builder (ucast KIND_DM_OPEN) [] tags)))"

definition build_dm_add_member :: "sdk_env \<Rightarrow> uuid \<Rightarrow> string \<Rightarrow> sdk_error + event_builder" where
  "build_dm_add_member env channel_id pubkey =
     and_then (check_pubkey_hex pubkey ''pubkey'') (\<lambda>pk.
     and_then (push_tag env [''h'', channel_id] []) (\<lambda>tags.
     and_then (push_tag env [''p'', pk] tags) (\<lambda>tags.
     Inr (builder (ucast KIND_DM_ADD_MEMBER) [] tags))))"

definition build_presence_update :: "sdk_env \<Rightarrow> string \<Rightarrow> sdk_error + event_builder" where
  "build_presence_update env status =
     and_then (check (status \<in> set [''online'', ''away'', ''offline''])
       (InvalidInput (''status must be online, away, or offline (got: '' @ status @ '')''))) (\<lambda>_.
     and_then (push_tag env [''status'', status] []) (\<lambda>tags.
     Inr (builder (ucast KIND_PRESENCE_UPDATE) status tags)))"

definition build_user_status :: "sdk_env \<Rightarrow> string \<Rightarrow> string option \<Rightarrow> sdk_error + event_builder" where
  "build_user_status env txt emoji =
     (let txt = trim txt in
      and_then (check_content txt (64 * KiB)) (\<lambda>_.
      and_then (push_tag env [''d'', ''general''] []) (\<lambda>tags.
      and_then (push_some env (case map_option trim emoji of None \<Rightarrow> None | Some e \<Rightarrow> if e = [] then None else Some e)
        (\<lambda>e. [''emoji'', e]) tags) (\<lambda>tags.
      Inr (builder (ucast KIND_USER_STATUS) txt tags)))))"

section \<open>Moderation commands\<close>

definition build_moderation_ban :: "sdk_env \<Rightarrow> string \<Rightarrow> u64 option \<Rightarrow> string option \<Rightarrow> sdk_error + event_builder" where
  "build_moderation_ban env target_pubkey expires_at reason =
     and_then (check_pubkey_hex target_pubkey ''target_pubkey'') (\<lambda>target_pubkey.
     and_then (push_tag env [''p'', target_pubkey] []) (\<lambda>tags.
     and_then (push_some env expires_at (\<lambda>x. [''expiration'', show_nat (unat x)]) tags) (\<lambda>tags.
     and_then (push_some env reason (\<lambda>r. [''reason'', r]) tags) (\<lambda>tags.
     Inr (builder (ucast KIND_MODERATION_BAN) [] tags)))))"

definition build_moderation_unban :: "sdk_env \<Rightarrow> string \<Rightarrow> sdk_error + event_builder" where
  "build_moderation_unban env target_pubkey =
     and_then (check_pubkey_hex target_pubkey ''target_pubkey'') (\<lambda>target_pubkey.
     and_then (push_tag env [''p'', target_pubkey] []) (\<lambda>tags.
     Inr (builder (ucast KIND_MODERATION_UNBAN) [] tags)))"

definition build_moderation_timeout :: "sdk_env \<Rightarrow> string \<Rightarrow> u64 \<Rightarrow> string option \<Rightarrow> sdk_error + event_builder" where
  "build_moderation_timeout env target_pubkey expires_at reason =
     and_then (check_pubkey_hex target_pubkey ''target_pubkey'') (\<lambda>target_pubkey.
     and_then (push_tag env [''p'', target_pubkey] []) (\<lambda>tags.
     and_then (push_tag env [''expiration'', show_nat (unat expires_at)] tags) (\<lambda>tags.
     and_then (push_some env reason (\<lambda>r. [''reason'', r]) tags) (\<lambda>tags.
     Inr (builder (ucast KIND_MODERATION_TIMEOUT) [] tags)))))"

definition build_moderation_untimeout :: "sdk_env \<Rightarrow> string \<Rightarrow> sdk_error + event_builder" where
  "build_moderation_untimeout env target_pubkey =
     and_then (check_pubkey_hex target_pubkey ''target_pubkey'') (\<lambda>target_pubkey.
     and_then (push_tag env [''p'', target_pubkey] []) (\<lambda>tags.
     Inr (builder (ucast KIND_MODERATION_UNTIMEOUT) [] tags)))"

definition build_moderation_resolve_report ::
  "sdk_env \<Rightarrow> string \<Rightarrow> string \<Rightarrow> string \<Rightarrow> string option \<Rightarrow> sdk_error + event_builder" where
  "build_moderation_resolve_report env report_event_id status action reason =
     and_then (check_hex_exact report_event_id 64 ''report_event_id'') (\<lambda>report_event_id.
     and_then (check (status \<in> set [''resolved'', ''dismissed''])
       (InvalidInput (''status must be resolved or dismissed (got: '' @ status @ '')''))) (\<lambda>_.
     and_then (check (action \<in> set [''delete'', ''kick'', ''ban'', ''timeout'', ''dismiss'', ''escalate''])
       (InvalidInput (''action must be delete, kick, ban, timeout, dismiss, or escalate (got: '' @ action @ '')''))) (\<lambda>_.
     and_then (push_tag env [''report'', report_event_id] []) (\<lambda>tags.
     and_then (push_tag env [''status'', status] tags) (\<lambda>tags.
     and_then (push_tag env [''action'', action] tags) (\<lambda>tags.
     and_then (push_some env reason (\<lambda>r. [''reason'', r]) tags) (\<lambda>tags.
     Inr (builder (ucast KIND_MODERATION_RESOLVE_REPORT) [] tags))))))))"

section \<open>Identity archival\<close>

definition check_reason :: "string \<Rightarrow> sdk_error + unit" where
  "check_reason reason =
     and_then (check (length reason \<le> MAX_REASON_BYTES)
       (InvalidInput (''reason code exceeds maximum length of '' @ show_nat MAX_REASON_BYTES @ '' UTF-8 bytes (got '' @
          show_nat (length reason) @ '')''))) (\<lambda>_.
     check (\<not> list_ex is_control (chars reason)) (InvalidInput ''reason code must not contain control characters''))"

type_synonym auth_tag = "string \<times> string \<times> string \<times> string"

definition check_auth_tag_shape :: "sdk_env \<Rightarrow> auth_tag \<Rightarrow> sdk_error + unit" where
  "check_auth_tag_shape env = (\<lambda>(label, owner, cond, sig).
     and_then (check (label = ''auth'')
       (InvalidInput (''auth tag label must be '' @ CHR 0x22 # ''auth'' @ CHR 0x22 # '' (got '' @ CHR 0x22 # label @ CHR 0x22 # '')''))) (\<lambda>_.
     and_then (check_pubkey_hex owner ''auth tag owner pubkey'') (\<lambda>_.
     check (\<not> (length sig \<noteq> 128 \<or> \<not> all_hex sig)) (InvalidInput ''auth tag signature must be 128-character hex''))))"

definition identity_archive_tags ::
  "sdk_env \<Rightarrow> string \<Rightarrow> string option \<Rightarrow> string option \<Rightarrow> auth_tag option \<Rightarrow> sdk_error + tag list" where
  "identity_archive_tags env target_pubkey reason replaced_by auth =
     and_then (check_pubkey_hex target_pubkey ''target_pubkey'') (\<lambda>target_lower.
     and_then (push_tag env [''-''] []) (\<lambda>tags.
     and_then (push_tag env [''p'', target_lower] tags) (\<lambda>tags.
     and_then (case reason of None \<Rightarrow> Inr tags
       | Some r \<Rightarrow> and_then (check_reason r) (\<lambda>_. push_tag env [''reason'', r] tags)) (\<lambda>tags.
     and_then (case replaced_by of None \<Rightarrow> Inr tags
       | Some rb \<Rightarrow> and_then (check_pubkey_hex rb ''replaced_by'') (\<lambda>rb_lower.
           and_then (check (rb_lower \<noteq> target_lower) (InvalidInput ''replaced-by must differ from the target'')) (\<lambda>_.
           push_tag env [''replaced-by'', rb_lower] tags))) (\<lambda>tags.
     case auth of None \<Rightarrow> Inr tags
       | Some (label, owner, cond, sig) \<Rightarrow>
           and_then (check_auth_tag_shape env (label, owner, cond, sig)) (\<lambda>_.
           push_tag env [''auth'', owner, cond, sig] tags))))))"

definition build_archive_identity_request ::
  "sdk_env \<Rightarrow> string \<Rightarrow> string \<Rightarrow> string option \<Rightarrow> string option \<Rightarrow> auth_tag option \<Rightarrow> sdk_error + event_builder" where
  "build_archive_identity_request env target_pubkey content reason replaced_by auth =
     and_then (check_content content (64 * KiB)) (\<lambda>_.
     and_then (identity_archive_tags env target_pubkey reason replaced_by auth) (\<lambda>tags.
     Inr ((builder (ucast KIND_IA_ARCHIVE_REQUEST) content tags)\<lparr>eb_allow_self_tagging := True\<rparr>)))"

definition build_unarchive_identity_request ::
  "sdk_env \<Rightarrow> string \<Rightarrow> string \<Rightarrow> string option \<Rightarrow> auth_tag option \<Rightarrow> sdk_error + event_builder" where
  "build_unarchive_identity_request env target_pubkey content reason auth =
     and_then (check_content content (64 * KiB)) (\<lambda>_.
     and_then (identity_archive_tags env target_pubkey reason None auth) (\<lambda>tags.
     Inr ((builder (ucast KIND_IA_UNARCHIVE_REQUEST) content tags)\<lparr>eb_allow_self_tagging := True\<rparr>)))"

end
