(* ===== verification/Ingest_Rules.thy ===== *)
theory Ingest_Rules
  imports Sdk_Commands Auth_Scopes
begin

text \<open>
  The rules of the write path, crates/buzz-relay/src/handlers/ingest.rs: the authentication context
  of a submission, the scope a kind needs, which kinds carry a channel, and the validators of single
  kinds.

  Event ids and public keys are lower-case hex text, so \<open>hex::decode\<close> of an id is its lower-case
  form. The rules that look rows up take the services they call from \<open>rule_env\<close>: the lookups of the
  database and its caches, the uuid parser, chrono's range of timestamps (a \<open>DateTime\<close> is its number
  of seconds), the clocks, the environment variable of the reminder horizon as it parses, the key of
  the relay, and the debug forms of texts in messages.
\<close>

section \<open>Types\<close>

datatype http_auth_method = Nip98 | DevPubkey

datatype ingest_auth =
    Nip42 string "scope list" "uuid list option" uuid
  | Http string "scope list" http_auth_method

fun auth_pubkey :: "ingest_auth \<Rightarrow> string" where
  "auth_pubkey (Nip42 pubkey _ _ _) = pubkey"
| "auth_pubkey (Http pubkey _ _) = pubkey"

definition principal_pubkey_bytes :: "ingest_auth \<Rightarrow> string" where
  "principal_pubkey_bytes auth = auth_pubkey auth"

fun auth_scopes :: "ingest_auth \<Rightarrow> scope list" where
  "auth_scopes (Nip42 _ scopes _ _) = scopes"
| "auth_scopes (Http _ scopes _) = scopes"

fun auth_conn_id :: "ingest_auth \<Rightarrow> uuid option" where
  "auth_conn_id (Nip42 _ _ _ conn_id) = Some conn_id"
| "auth_conn_id (Http _ _ _) = None"

fun auth_channel_ids :: "ingest_auth \<Rightarrow> uuid list option" where
  "auth_channel_ids (Nip42 _ _ (Some ids) _) = Some ids"
| "auth_channel_ids _ = None"

fun auth_is_http :: "ingest_auth \<Rightarrow> bool" where
  "auth_is_http (Http _ _ _) = True"
| "auth_is_http _ = False"

record ingest_result =
  ir_event_id :: string
  ir_accepted :: bool
  ir_message :: string

datatype ingest_error = Rejected string | AuthFailed string | Internal string

datatype relay_admin_error = AdminBanned | AdminRejected string | AdminInternal string

fun map_relay_admin_error :: "relay_admin_error \<Rightarrow> ingest_error" where
  "map_relay_admin_error AdminBanned = AuthFailed ''blocked: you are banned from this community''"
| "map_relay_admin_error (AdminRejected reason) = Rejected (''invalid: '' @ reason)"
| "map_relay_admin_error (AdminInternal reason) = Internal (''error: '' @ reason)"

datatype push_accept_error = PushValidation string | PushInternal string

fun map_push_accept_error :: "push_accept_error \<Rightarrow> ingest_error" where
  "map_push_accept_error (PushValidation reason) = Rejected (''invalid: '' @ reason)"
| "map_push_accept_error (PushInternal reason) = Internal reason"

record thread_metadata_record =
  tm_root_event_id :: "string option"
  tm_depth :: int

record channel_record =
  ch_visibility :: string
  ch_archived_at :: "nat option"

record rule_env =
  get_event_by_id :: "uuid \<Rightarrow> string \<Rightarrow> string + stored_event option"
  get_thread_metadata_by_event :: "uuid \<Rightarrow> string \<Rightarrow> string + thread_metadata_record option"
  is_member_cached :: "uuid \<Rightarrow> uuid \<Rightarrow> string \<Rightarrow> string + bool"
  get_channel :: "uuid \<Rightarrow> uuid \<Rightarrow> string + channel_record"
  is_agent_owner :: "uuid \<Rightarrow> string \<Rightarrow> string \<Rightarrow> string + bool"
  parse_uuid :: "string \<Rightarrow> uuid option"
  from_timestamp :: "int \<Rightarrow> bool"
  utc_now :: int
  unix_now :: u64
  max_not_before_delta :: "u64 option"
  relay_pubkey :: string
  debug_text :: "string \<Rightarrow> string"
  debug_list :: "string list \<Rightarrow> string"

section \<open>Custom emoji\<close>

definition check_emoji_tag :: "tag \<Rightarrow> ingest_error + unit" where
  "check_emoji_tag parts =
     (if sdk_tag_name parts \<noteq> Some ''emoji'' then Inr ()
      else case sdk_tag_value parts of
        None \<Rightarrow> Inl (Rejected ''invalid: emoji tag must include a shortcode'')
      | Some shortcode \<Rightarrow>
          and_then (map_err (\<lambda>e. Rejected (''invalid: '' @ sdk_error_text e)) (normalize_custom_emoji_shortcode shortcode))
            (\<lambda>_. Inr ()))"

definition validate_custom_emoji_tags :: "event \<Rightarrow> ingest_error + unit" where
  "validate_custom_emoji_tags e = check_each check_emoji_tag (ev_tags e)"

definition strip_suffix :: "'a list \<Rightarrow> 'a list \<Rightarrow> 'a list option" where
  "strip_suffix p s = map_option rev (strip_prefix (rev p) (rev s))"

definition emoji_too_long :: "nat \<Rightarrow> ingest_error" where
  "emoji_too_long n = Rejected (''invalid: reaction emoji exceeds 64 characters (got '' @ show_nat n @ '')'')"

definition validate_reaction_emoji :: "event \<Rightarrow> string \<Rightarrow> ingest_error + unit" where
  "validate_reaction_emoji e emoji =
     (let emoji_char_count = char_count emoji in
      if emoji_char_count \<le> 64 then Inr ()
      else case Option.bind (strip_prefix '':'' emoji) (strip_suffix '':'') of
        None \<Rightarrow> Inl (emoji_too_long emoji_char_count)
      | Some shortcode \<Rightarrow>
          and_then (map_err (\<lambda>e. Rejected (''invalid: '' @ sdk_error_text e)) (normalize_custom_emoji_shortcode shortcode))
            (\<lambda>normalized.
          if shortcode \<noteq> normalized
          then Inl (Rejected ''invalid: long custom emoji reaction shortcode must be canonical lowercase'')
          else if \<not> list_ex (\<lambda>parts. sdk_tag_name parts = Some ''emoji'' \<and> sdk_tag_value parts = Some shortcode) (ev_tags e) \<or>
                  emoji_char_count > MAX_CUSTOM_EMOJI_REACTION_LEN
          then Inl (emoji_too_long emoji_char_count)
          else Inr ()))"

section \<open>Scopes and channels\<close>

definition required_scope_for_kind :: "u32 \<Rightarrow> event \<Rightarrow> string + scope" where
  "required_scope_for_kind kind e =
     (if kind = KIND_PROFILE then Inr UsersWrite
      else if kind \<in> set [KIND_TEXT_NOTE, KIND_LONG_FORM] then Inr MessagesWrite
      else if kind \<in> set [KIND_CONTACT_LIST, KIND_READ_STATE, KIND_USER_STATUS, KIND_AGENT_ENGRAM,
        KIND_EVENT_REMINDER, KIND_PERSONA, KIND_TEAM, KIND_MANAGED_AGENT, KIND_TEAM_CATALOG, KIND_PUSH_LEASE]
      then Inr UsersWrite
      else if kind = KIND_AGENT_TURN_METRIC then Inr MessagesWrite
      else if kind \<in> set [KIND_REPORT, KIND_PRODUCT_FEEDBACK] then Inr MessagesWrite
      else if is_moderation_command_kind kind then Inr MessagesWrite
      else if kind \<in> set [KIND_MUTE_LIST, KIND_PIN_LIST, KIND_NIP65_RELAY_LIST_METADATA, KIND_BOOKMARK_LIST,
        KIND_FOLLOW_SET, KIND_BOOKMARK_SET, KIND_EMOJI_SET, KIND_EMOJI_LIST, KIND_AGENT_PROFILE]
      then Inr UsersWrite
      else if kind \<in> set [KIND_DELETION, KIND_REACTION, KIND_GIFT_WRAP, KIND_STREAM_MESSAGE, KIND_STREAM_MESSAGE_V2,
        KIND_NIP29_DELETE_EVENT, KIND_STREAM_MESSAGE_EDIT, KIND_STREAM_MESSAGE_PINNED,
        KIND_STREAM_MESSAGE_BOOKMARKED, KIND_STREAM_MESSAGE_SCHEDULED, KIND_STREAM_REMINDER,
        KIND_STREAM_MESSAGE_DIFF, KIND_FORUM_POST, KIND_FORUM_VOTE, KIND_FORUM_COMMENT]
      then Inr MessagesWrite
      else if kind \<in> set [KIND_NIP29_PUT_USER, KIND_NIP29_REMOVE_USER, KIND_NIP29_DELETE_GROUP] then Inr AdminChannels
      else if kind \<in> set [RELAY_ADMIN_ADD_MEMBER, RELAY_ADMIN_REMOVE_MEMBER, RELAY_ADMIN_CHANGE_ROLE,
        RELAY_ADMIN_SET_WORKSPACE_PROFILE]
      then Inr AdminUsers
      else if kind \<in> set [KIND_IA_ARCHIVE_REQUEST, KIND_IA_UNARCHIVE_REQUEST] then Inr UsersWrite
      else if kind = KIND_NIP29_EDIT_METADATA
      then Inr (if list_ex (\<lambda>t. tag_name t = ''archived'') (ev_tags e) then AdminChannels else ChannelsWrite)
      else if kind \<in> set [KIND_NIP29_CREATE_GROUP, KIND_CANVAS] then Inr ChannelsWrite
      else if kind \<in> set [KIND_NIP29_JOIN_REQUEST, KIND_NIP29_LEAVE_REQUEST, KIND_NIP43_LEAVE_REQUEST]
      then Inr ChannelsRead
      else if kind \<in> set [KIND_HUDDLE_STARTED, KIND_HUDDLE_PARTICIPANT_JOINED, KIND_HUDDLE_PARTICIPANT_LEFT,
        KIND_HUDDLE_ENDED, KIND_HUDDLE_GUIDELINES]
      then Inr ChannelsWrite
      else if kind \<in> set [KIND_GIT_REPO_ANNOUNCEMENT, KIND_GIT_REPO_STATE] then Inr ReposWrite
      else if kind = KIND_PROJECT then Inr ReposWrite
      else if kind \<in> set [KIND_GIT_PATCH, KIND_GIT_PULL_REQUEST, KIND_GIT_PR_UPDATE, KIND_GIT_ISSUE,
        KIND_GIT_STATUS_OPEN, KIND_GIT_STATUS_MERGED, KIND_GIT_STATUS_CLOSED, KIND_GIT_STATUS_DRAFT]
      then Inr MessagesWrite
      else if kind \<in> set [KIND_DM_OPEN, KIND_DM_ADD_MEMBER, KIND_DM_HIDE] then Inr MessagesWrite
      else if kind \<in> set [KIND_WORKFLOW_DEF, KIND_WORKFLOW_TRIGGER] then Inr MessagesWrite
      else if kind \<in> set [KIND_APPROVAL_GRANT, KIND_APPROVAL_DENY] then Inr MessagesWrite
      else Inl ''restricted: unknown event kind'')"

definition extract_channel_id :: "rule_env \<Rightarrow> event \<Rightarrow> uuid option" where
  "extract_channel_id env e =
     find_map (\<lambda>t. if tag_name t = ''h'' then Option.bind (tag_content t) (parse_uuid env) else None) (ev_tags e)"

text \<open>\<open>v.len() == 64 && v.chars().all(is_ascii_hexdigit)\<close>, and the id such a text decodes to.\<close>

definition id_hex :: "string \<Rightarrow> bool" where
  "id_hex v = (length v = 64 \<and> all_hex v)"

definition hex_id :: "string \<Rightarrow> string option" where
  "hex_id v = (if id_hex v then Some (to_ascii_lowercase v) else None)"

definition target_of_tag :: "tag \<Rightarrow> string option" where
  "target_of_tag t =
     (if tag_name t = ''e''
      then Option.bind (tag_content t) (\<lambda>v. if id_hex v then Some (to_ascii_lowercase v) else None)
      else None)"

datatype reaction_channel_result =
    ReactionChannel uuid | ReactionNoChannel | ReactionNotFound | ReactionNoTarget | ReactionDbError string

definition derive_reaction_channel :: "rule_env \<Rightarrow> uuid \<Rightarrow> event \<Rightarrow> reaction_channel_result" where
  "derive_reaction_channel env community_id e =
     (case find_map target_of_tag (rev (ev_tags e)) of
        None \<Rightarrow> ReactionNoTarget
      | Some id_bytes \<Rightarrow>
          (case get_event_by_id env community_id id_bytes of
             Inr (Some target) \<Rightarrow>
               (case se_channel_id target of Some ch_id \<Rightarrow> ReactionChannel ch_id | None \<Rightarrow> ReactionNoChannel)
           | Inr None \<Rightarrow> ReactionNotFound
           | Inl e \<Rightarrow> ReactionDbError e))"

definition is_global_only_kind :: "u32 \<Rightarrow> bool" where
  "is_global_only_kind kind =
     (kind \<in> set [KIND_PROFILE, KIND_TEXT_NOTE, KIND_CONTACT_LIST, KIND_LONG_FORM, KIND_USER_STATUS, KIND_READ_STATE,
        KIND_MUTE_LIST, KIND_PIN_LIST, KIND_NIP65_RELAY_LIST_METADATA, KIND_BOOKMARK_LIST, KIND_FOLLOW_SET,
        KIND_BOOKMARK_SET, KIND_EMOJI_SET, KIND_EMOJI_LIST, KIND_AGENT_ENGRAM, KIND_EVENT_REMINDER,
        KIND_AGENT_PROFILE, KIND_PERSONA, KIND_TEAM, KIND_MANAGED_AGENT, KIND_TEAM_CATALOG,
        KIND_GIT_REPO_ANNOUNCEMENT, KIND_GIT_REPO_STATE, KIND_GIT_PATCH, KIND_GIT_PULL_REQUEST,
        KIND_GIT_PR_UPDATE, KIND_GIT_ISSUE, KIND_GIT_STATUS_OPEN, KIND_GIT_STATUS_MERGED,
        KIND_GIT_STATUS_CLOSED, KIND_GIT_STATUS_DRAFT, KIND_PROJECT, KIND_MODERATION_BAN,
        KIND_MODERATION_UNBAN, KIND_MODERATION_TIMEOUT, KIND_MODERATION_UNTIMEOUT,
        KIND_MODERATION_RESOLVE_REPORT, RELAY_ADMIN_ADD_MEMBER, RELAY_ADMIN_REMOVE_MEMBER,
        RELAY_ADMIN_CHANGE_ROLE, RELAY_ADMIN_SET_WORKSPACE_PROFILE, KIND_NIP43_LEAVE_REQUEST,
        KIND_IA_ARCHIVE_REQUEST, KIND_IA_UNARCHIVE_REQUEST, KIND_AGENT_TURN_METRIC, KIND_PUSH_LEASE])"

definition requires_h_channel_scope :: "u32 \<Rightarrow> bool" where
  "requires_h_channel_scope kind =
     (kind \<in> set [KIND_STREAM_MESSAGE, KIND_STREAM_MESSAGE_V2, KIND_STREAM_MESSAGE_EDIT, KIND_STREAM_MESSAGE_PINNED,
        KIND_STREAM_MESSAGE_BOOKMARKED, KIND_STREAM_MESSAGE_SCHEDULED, KIND_STREAM_REMINDER,
        KIND_STREAM_MESSAGE_DIFF, KIND_CANVAS, KIND_FORUM_POST, KIND_FORUM_VOTE, KIND_FORUM_COMMENT,
        KIND_NIP29_PUT_USER, KIND_NIP29_REMOVE_USER, KIND_NIP29_EDIT_METADATA, KIND_NIP29_DELETE_EVENT,
        KIND_NIP29_DELETE_GROUP, KIND_NIP29_LEAVE_REQUEST, KIND_HUDDLE_STARTED,
        KIND_HUDDLE_PARTICIPANT_JOINED, KIND_HUDDLE_PARTICIPANT_LEFT, KIND_HUDDLE_ENDED,
        KIND_HUDDLE_GUIDELINES])"

text \<open>\<open>get_channel(..).map(|ch| ch.visibility == "open").unwrap_or(false)\<close>.\<close>

definition channel_is_open :: "rule_env \<Rightarrow> uuid \<Rightarrow> uuid \<Rightarrow> bool" where
  "channel_is_open env community ch_id =
     (case get_channel env community ch_id of Inr ch \<Rightarrow> ch_visibility ch = ''open'' | Inl _ \<Rightarrow> False)"

definition check_channel_membership ::
  "rule_env \<Rightarrow> uuid \<Rightarrow> uuid \<Rightarrow> string \<Rightarrow> channel_record option \<Rightarrow> string + unit" where
  "check_channel_membership env community ch_id pubkey channel =
     (case is_member_cached env community ch_id pubkey of
        Inl e \<Rightarrow> Inl (''error: database error: '' @ e)
      | Inr True \<Rightarrow> Inr ()
      | Inr False \<Rightarrow>
          (let is_open = (case channel of
               Some ch \<Rightarrow> ch_visibility ch = ''open''
             | None \<Rightarrow> channel_is_open env community ch_id)
           in check is_open ''restricted: not a channel member''))"

definition check_token_channel_access :: "ingest_auth \<Rightarrow> uuid \<Rightarrow> string + unit" where
  "check_token_channel_access auth channel_id =
     (case auth_channel_ids auth of
        Some allowed \<Rightarrow> check (channel_id \<in> set allowed) ''restricted: token does not have access to this channel''
      | None \<Rightarrow> Inr ())"

section \<open>Threads\<close>

record thread_metadata_owned =
  to_event_id :: string
  to_event_created_at :: int
  to_channel_id :: uuid
  to_parent_event_id :: string
  to_parent_event_created_at :: int
  to_root_event_id :: string
  to_root_event_created_at :: int
  to_depth :: int
  to_broadcast :: bool

text \<open>\<open>as_secs() as i64\<close>, and the timestamp it stands for if chrono accepts it.\<close>

definition as_i64 :: "nat \<Rightarrow> int" where
  "as_i64 n = sint (of_nat n :: u64)"

definition timestamp_or :: "rule_env \<Rightarrow> int \<Rightarrow> event \<Rightarrow> int" where
  "timestamp_or env d e = (if from_timestamp env (as_i64 (ev_created_at e)) then as_i64 (ev_created_at e) else d)"

text \<open>The loop over the tags: the last valid \<open>root\<close> and \<open>reply\<close> markers.\<close>

definition thread_marker :: "tag \<Rightarrow> string option \<times> string option \<Rightarrow> string option \<times> string option" where
  "thread_marker parts = (\<lambda>(root_hex, reply_hex).
     if length parts \<ge> 4 \<and> parts ! 0 = ''e'' \<and> id_hex (parts ! 1)
     then (if parts ! 3 = ''root'' then (Some (parts ! 1), reply_hex)
           else if parts ! 3 = ''reply'' then (root_hex, Some (parts ! 1))
           else (root_hex, reply_hex))
     else (root_hex, reply_hex))"

definition nip10_refs :: "event \<Rightarrow> (string \<times> string) option" where
  "nip10_refs e =
     (case fold thread_marker (ev_tags e) (None, None) of
        (Some r, Some p) \<Rightarrow> Some (r, p)
      | (None, Some p) \<Rightarrow> Some (p, p)
      | _ \<Rightarrow> None)"

definition marked :: "string \<Rightarrow> event \<Rightarrow> string option" where
  "marked marker e =
     find_map (\<lambda>parts. if length parts \<ge> 4 \<and> parts ! 0 = ''e'' \<and> parts ! 3 = marker then hex_id (parts ! 1) else None)
       (ev_tags e)"

definition root_timestamp :: "rule_env \<Rightarrow> uuid \<Rightarrow> string \<Rightarrow> int \<Rightarrow> int" where
  "root_timestamp env community_id root parent_created =
     (case get_event_by_id env community_id root of
        Inr (Some root_ev) \<Rightarrow> timestamp_or env parent_created (se_event root_ev)
      | _ \<Rightarrow> parent_created)"

definition thread_root ::
  "rule_env \<Rightarrow> uuid \<Rightarrow> string \<Rightarrow> string \<Rightarrow> event \<Rightarrow> int \<Rightarrow> thread_metadata_record option
   \<Rightarrow> string + (string \<times> int \<times> int)" where
  "thread_root env community_id client_root parent_bytes parent parent_created parent_meta =
     (case parent_meta of
        Some meta \<Rightarrow>
          (let effective_root = unwrap_or parent_bytes (tm_root_event_id meta) in
           if client_root \<noteq> effective_root then Inl ''root tag does not match thread ancestry''
           else
             (let root_ts = root_timestamp env community_id effective_root parent_created;
                  depth = tm_depth meta + 1
              in if depth > 100 then Inl ''thread depth limit exceeded''
                 else Inr (effective_root, root_ts, depth)))
      | None \<Rightarrow>
          (let parent_root = (case marked ''root'' parent of
                 Some r \<Rightarrow> r | None \<Rightarrow> unwrap_or parent_bytes (marked ''reply'' parent))
           in if client_root \<noteq> parent_root then Inl ''root tag does not match thread ancestry''
              else Inr (parent_root,
                     if parent_root \<noteq> parent_bytes then root_timestamp env community_id parent_root parent_created
                     else parent_created,
                     if parent_root = parent_bytes then 1 else 2)))"

definition is_broadcast :: "event \<Rightarrow> bool" where
  "is_broadcast e = list_ex (\<lambda>parts. length parts \<ge> 2 \<and> parts ! 0 = ''broadcast'' \<and> parts ! 1 = ''1'') (ev_tags e)"

definition resolve_nip10_thread_meta ::
  "rule_env \<Rightarrow> uuid \<Rightarrow> event \<Rightarrow> uuid \<Rightarrow> string + thread_metadata_owned option" where
  "resolve_nip10_thread_meta env community_id e channel_id =
     (case nip10_refs e of
        None \<Rightarrow> Inr None
      | Some (root_hex, parent_hex) \<Rightarrow>
          (let parent_bytes = to_ascii_lowercase parent_hex; client_root_bytes = to_ascii_lowercase root_hex in
           and_then (map_err (\<lambda>e. ''db error looking up parent: '' @ e) (get_event_by_id env community_id parent_bytes)) (\<lambda>found.
           and_then (ok_or found ''reply parent not found'') (\<lambda>parent_event.
           and_then (case se_channel_id parent_event of
               Some parent_ch \<Rightarrow> check (parent_ch = channel_id) ''parent event belongs to a different channel''
             | None \<Rightarrow> Inl ''parent event has no channel association'') (\<lambda>_.
           let parent_created = timestamp_or env (utc_now env) (se_event parent_event) in
           and_then (map_err (\<lambda>e. ''db error looking up thread metadata: '' @ e)
             (get_thread_metadata_by_event env community_id parent_bytes)) (\<lambda>parent_meta.
           and_then (thread_root env community_id client_root_bytes parent_bytes (se_event parent_event) parent_created parent_meta)
             (\<lambda>(final_root, root_created, depth).
           Inr (Some \<lparr>to_event_id = ev_id e, to_event_created_at = timestamp_or env (utc_now env) e,
             to_channel_id = channel_id, to_parent_event_id = parent_bytes,
             to_parent_event_created_at = parent_created, to_root_event_id = final_root,
             to_root_event_created_at = root_created, to_depth = depth, to_broadcast = is_broadcast e\<rparr>))))))))"

section \<open>Authors and targets\<close>

definition count_e_tags :: "event \<Rightarrow> nat" where
  "count_e_tags e = length (filter (\<lambda>t. tag_name t = ''e'') (ev_tags e))"

text \<open>\<open>hex::decode\<close> to 32 bytes of the content of a tag.\<close>

definition effective_message_author :: "event \<Rightarrow> string \<Rightarrow> string" where
  "effective_message_author e relay_pk =
     (if ev_pubkey e = relay_pk
      then (case Option.bind (find_map (\<lambda>t. if tag_name t = ''actor'' then tag_content t else None) (ev_tags e)) hex_id of
              Some actor \<Rightarrow> actor
            | None \<Rightarrow> unwrap_or (ev_pubkey e)
                (find_map (\<lambda>t. if tag_name t = ''p'' then Option.bind (tag_content t) hex_id else None) (ev_tags e)))
      else ev_pubkey e)"

text \<open>The channel of a command against the channel of its target.\<close>

definition same_channel :: "uuid option \<Rightarrow> uuid option \<Rightarrow> string + unit" where
  "same_channel own target =
     (case (own, target) of
        (Some own_ch, Some target_ch) \<Rightarrow> check (own_ch = target_ch) ''target event belongs to a different channel''
      | (Some _, None) \<Rightarrow> Inl ''target event has no channel''
      | _ \<Rightarrow> Inr ())"

definition lookup_target :: "rule_env \<Rightarrow> uuid \<Rightarrow> string \<Rightarrow> event \<Rightarrow> string + stored_event" where
  "lookup_target env community_id what e =
     and_then (ok_or (find_map target_of_tag (ev_tags e)) (''missing e tag for '' @ what @ '' target'')) (\<lambda>target_bytes.
     and_then (map_err (\<lambda>m. ''db error: '' @ m) (get_event_by_id env community_id target_bytes)) (\<lambda>found.
     ok_or found (what @ '' target event not found'')))"

definition validate_edit_ownership :: "rule_env \<Rightarrow> uuid \<Rightarrow> event \<Rightarrow> string + unit" where
  "validate_edit_ownership env community_id e =
     and_then (lookup_target env community_id ''edit'' e) (\<lambda>target_event.
     and_then (same_channel (extract_channel_id env e) (se_channel_id target_event)) (\<lambda>_.
     let author = effective_message_author (se_event target_event) (relay_pubkey env); actor = ev_pubkey e in
     if author = actor
     then (case se_channel_id target_event of
             None \<Rightarrow> Inr ()
           | Some ch_id \<Rightarrow>
               and_then (map_err (\<lambda>m. ''db error checking membership: '' @ m) (is_member_cached env community_id ch_id actor))
                 (\<lambda>member. check (member \<or> channel_is_open env community_id ch_id) ''restricted: not a channel member''))
     else
       and_then (map_err (\<lambda>m. ''db error checking agent ownership: '' @ m) (is_agent_owner env community_id author actor))
         (\<lambda>is_owner. check is_owner ''must be event author to edit'')))"

definition validate_forum_vote_target :: "rule_env \<Rightarrow> uuid \<Rightarrow> event \<Rightarrow> string + unit" where
  "validate_forum_vote_target env community_id e =
     and_then (lookup_target env community_id ''vote'' e) (\<lambda>target_event.
     let target_kind = event_kind_u32 (se_event target_event) in
     and_then (check (target_kind = KIND_FORUM_POST \<or> target_kind = KIND_FORUM_COMMENT)
       ''vote target must be a forum post or comment'') (\<lambda>_.
     same_channel (extract_channel_id env e) (se_channel_id target_event)))"

end
