(* ===== verification/Ingest_Envelopes.thy ===== *)
theory Ingest_Envelopes
  imports Ingest_Rules
begin

text \<open>
  The validators of tag envelopes, crates/buzz-relay/src/handlers/ingest.rs: diffs, engrams, personas,
  team catalogs, projects, turn metrics and reminders. The loops over the tags are folds over the tag
  list that carry what the loop's variables hold.
\<close>

section \<open>Diffs\<close>

definition short_hex :: "string \<Rightarrow> bool" where
  "short_hex sha = (length sha < 7 \<or> \<not> all_hex sha)"

definition diff_tag :: "tag \<Rightarrow> bool \<times> bool \<Rightarrow> string + bool \<times> bool" where
  "diff_tag parts = (\<lambda>(has_repo, has_commit).
     if length parts < 2 then Inr (has_repo, has_commit)
     else if parts ! 0 = ''repo''
     then (if \<not> starts_with (parts ! 1) ''http://'' \<and> \<not> starts_with (parts ! 1) ''https://''
           then Inl ''repo URL must be http or https'' else Inr (True, has_commit))
     else if parts ! 0 = ''commit''
     then (if short_hex (parts ! 1) then Inl ''commit SHA must be at least 7 hex characters'' else Inr (has_repo, True))
     else if parts ! 0 = ''parent-commit''
     then (if short_hex (parts ! 1) then Inl ''parent-commit SHA must be at least 7 hex characters''
           else Inr (has_repo, has_commit))
     else if parts ! 0 = ''branch'' \<and> (length parts < 3 \<or> parts ! 1 = [] \<or> parts ! 2 = [])
     then Inl ''branch tag requires both source and target''
     else if parts ! 0 = ''pr'' \<and> (case parse_u32 (parts ! 1) of Some n \<Rightarrow> n = 0 | None \<Rightarrow> True)
     then Inl ''pr number must be a positive integer''
     else Inr (has_repo, has_commit))"

definition validate_diff_event :: "event \<Rightarrow> string + unit" where
  "validate_diff_event e =
     and_then (check (length (ev_content e) \<le> 61440)
       (''diff content exceeds 60KB limit (got '' @ show_nat (length (ev_content e)) @ '' bytes)'')) (\<lambda>_.
     and_then (for_each diff_tag (ev_tags e) (False, False)) (\<lambda>(has_repo, has_commit).
     and_then (check has_repo ''diff event requires a repo tag'') (\<lambda>_.
     check has_commit ''diff event requires a commit tag'')))"

section \<open>NIP-44 content\<close>

definition in_range :: "char \<Rightarrow> char \<Rightarrow> char \<Rightarrow> bool" where
  "in_range lo hi c = (of_char lo \<le> (of_char c :: nat) \<and> of_char c \<le> (of_char hi :: nat))"

definition b64_alphabet :: "char \<Rightarrow> bool" where
  "b64_alphabet b = (in_range CHR ''A'' CHR ''Z'' b \<or> in_range CHR ''a'' CHR ''z'' b \<or>
     in_range CHR ''0'' CHR ''9'' b \<or> b = CHR ''+'' \<or> b = CHR ''/'')"

definition not_base64 :: string where
  "not_base64 = ''agent-engram content is not valid base64''"

text \<open>The loop over the bytes, from index \<open>i\<close> on, with the padding met so far.\<close>

fun scan_base64 :: "nat \<Rightarrow> nat \<Rightarrow> nat \<Rightarrow> string \<Rightarrow> string + nat" where
  "scan_base64 len i pad_count [] = Inr pad_count"
| "scan_base64 len i pad_count (b # bs) =
     (if b64_alphabet b
      then (if pad_count > 0 then Inl not_base64 else scan_base64 len (i + 1) pad_count bs)
      else if b = CHR ''=''
      then (if i < len - 2 then Inl not_base64
            else if pad_count + 1 > 2 then Inl not_base64
            else scan_base64 len (i + 1) (pad_count + 1) bs)
      else Inl not_base64)"

definition byte_of :: "char \<Rightarrow> u8" where
  "byte_of c = of_char c"

definition b64_val :: "char \<Rightarrow> u8 option" where
  "b64_val c =
     (if in_range CHR ''A'' CHR ''Z'' c then Some (byte_of c - byte_of CHR ''A'')
      else if in_range CHR ''a'' CHR ''z'' c then Some (byte_of c - byte_of CHR ''a'' + 26)
      else if in_range CHR ''0'' CHR ''9'' c then Some (byte_of c - byte_of CHR ''0'' + 52)
      else if c = CHR ''+'' then Some 62
      else if c = CHR ''/'' then Some 63
      else None)"

definition first_byte :: "u8 \<Rightarrow> u8 \<Rightarrow> u8" where
  "first_byte v0 v1 = or (push_bit 2 v0) (drop_bit 4 v1)"

definition validate_engram_nip44_content :: "string \<Rightarrow> string + unit" where
  "validate_engram_nip44_content content =
     (let len = length content in
      and_then (check (content \<noteq> []) ''agent-engram content must not be empty (NIP-44 ciphertext)'') (\<lambda>_.
      and_then (check (len mod 4 = 0) ''agent-engram content is not valid base64 (length)'') (\<lambda>_.
      and_then (scan_base64 len 0 0 content) (\<lambda>pad_count.
      let decoded_len = (len div 4) * 3 - pad_count in
      and_then (check (decoded_len \<ge> 99) ''agent-engram content too short for NIP-44 v2'') (\<lambda>_.
      and_then (ok_or (b64_val (content ! 0)) not_base64) (\<lambda>v0.
      and_then (ok_or (b64_val (content ! 1)) not_base64) (\<lambda>v1.
      check (first_byte v0 v1 = 2) ''agent-engram content is not NIP-44 v2 (expected 0x02 version prefix)'')))))))"

section \<open>Engrams and turn metrics\<close>

text \<open>The second parts of the tags of one name that have a second part.\<close>

definition valued :: "string \<Rightarrow> event \<Rightarrow> string list" where
  "valued n e = List.map_filter (\<lambda>parts. if length parts \<ge> 2 \<and> parts ! 0 = n then Some (parts ! 1) else None) (ev_tags e)"

definition lower_hex64 :: "string \<Rightarrow> bool" where
  "lower_hex64 s = (length s = 64 \<and> list_all (\<lambda>b. is_ascii_hexdigit b \<and> \<not> is_ascii_uppercase b) s)"

definition validate_engram_envelope :: "event \<Rightarrow> string + unit" where
  "validate_engram_envelope e =
     (let d_tags = valued ''d'' e; p_tags = valued ''p'' e in
      and_then (check (length d_tags = 1)
        (''agent-engram event must have exactly one `d` tag (got '' @ show_nat (length d_tags) @ '')'')) (\<lambda>_.
      and_then (check (length p_tags = 1)
        (''agent-engram event must have exactly one `p` tag (got '' @ show_nat (length p_tags) @ '')'')) (\<lambda>_.
      and_then (check (lower_hex64 (hd d_tags)) ''agent-engram `d` tag must be 64 lowercase hex chars'') (\<lambda>_.
      and_then (check (lower_hex64 (hd p_tags)) ''agent-engram `p` tag must be 64 lowercase hex chars (pubkey)'') (\<lambda>_.
      validate_engram_nip44_content (ev_content e))))))"

text \<open>\<open>s.replace(p, r)\<close> for a non-empty pattern.\<close>

function str_replace :: "string \<Rightarrow> string \<Rightarrow> string \<Rightarrow> string" where
  "str_replace p r [] = []"
| "str_replace p r (c # s) =
     (if starts_with (c # s) p then r @ str_replace p r (drop (length p - 1) s) else c # str_replace p r s)"
  by pat_completeness auto
termination by (relation "measure (\<lambda>(p, r, s). length s)") auto

definition validate_agent_turn_metric_envelope :: "event \<Rightarrow> string + unit" where
  "validate_agent_turn_metric_envelope e =
     (let p_tags = valued ''p'' e; agent_tags = valued ''agent'' e in
      and_then (check (valued ''h'' e = [])
        ''agent-turn-metric event must not have an `h` tag (channel identity belongs inside the encrypted payload)'') (\<lambda>_.
      and_then (check (length p_tags = 1)
        (''agent-turn-metric event must have exactly one `p` tag (got '' @ show_nat (length p_tags) @ '')'')) (\<lambda>_.
      and_then (check (lower_hex64 (hd p_tags)) ''agent-turn-metric `p` tag must be 64 lowercase hex chars'') (\<lambda>_.
      and_then (check (length agent_tags = 1)
        (''agent-turn-metric event must have exactly one `agent` tag (got '' @ show_nat (length agent_tags) @ '')'')) (\<lambda>_.
      and_then (check (lower_hex64 (hd agent_tags)) ''agent-turn-metric `agent` tag must be 64 lowercase hex chars'') (\<lambda>_.
      and_then (check (hd agent_tags = ev_pubkey e) ''agent-turn-metric `agent` tag must equal event pubkey'') (\<lambda>_.
      map_err (str_replace ''agent-engram'' ''agent-turn-metric'') (validate_engram_nip44_content (ev_content e)))))))))"

section \<open>Personas and team catalogs\<close>

definition shared_tag :: "rule_env \<Rightarrow> string \<Rightarrow> tag \<Rightarrow> nat \<Rightarrow> string + nat" where
  "shared_tag env label parts shared_count =
     (if parts \<noteq> [] \<and> parts ! 0 = ''shared''
      then (if length parts \<noteq> 2 \<or> parts ! 1 \<noteq> ''true''
            then Inl (label @ '' `shared` tag must be exactly ['' @ CHR 0x22 # ''shared'' @ CHR 0x22 # '','' @
                   CHR 0x22 # ''true'' @ CHR 0x22 # ''] (got '' @ debug_list env parts @ '')'')
            else Inr (shared_count + 1))
      else Inr shared_count)"

definition validate_shared_tag :: "rule_env \<Rightarrow> event \<Rightarrow> string \<Rightarrow> string + unit" where
  "validate_shared_tag env e label =
     and_then (for_each (shared_tag env label) (ev_tags e) 0) (\<lambda>shared_count.
     check (shared_count \<le> 1) (label @ '' must have at most one `shared` tag (got '' @ show_nat shared_count @ '')''))"

definition single_bounded_d_tag :: "event \<Rightarrow> string \<Rightarrow> string + string" where
  "single_bounded_d_tag e label =
     (let d_tags = map sdk_tag_value (named ''d'' (ev_tags e)) in
      and_then (check (length d_tags = 1)
        (label @ '' must have exactly one `d` tag (got '' @ show_nat (length d_tags) @ '')'')) (\<lambda>_.
      let d = unwrap_or [] (hd d_tags) in
      and_then (check (d \<noteq> []) (label @ '' `d` tag must not be empty'')) (\<lambda>_.
      and_then (check (char_count d \<le> 64) (label @ '' `d` tag too long ('' @ show_nat (char_count d) @ '' chars, max 64)'')) (\<lambda>_.
      and_then (check (\<not> list_ex (\<lambda>c. is_control c \<or> white_space c) (chars d))
        (label @ '' `d` tag must not contain control characters or whitespace'')) (\<lambda>_.
      Inr d)))))"

definition is_ascii_lowercase :: "char \<Rightarrow> bool" where
  "is_ascii_lowercase c = in_range CHR ''a'' CHR ''z'' c"

definition persona_label :: string where "persona_label = ''persona event''"

definition validate_persona_envelope :: "rule_env \<Rightarrow> event \<Rightarrow> string + unit" where
  "validate_persona_envelope env e =
     and_then (validate_shared_tag env e persona_label) (\<lambda>_.
     and_then (single_bounded_d_tag e persona_label) (\<lambda>d.
     and_then (check (is_ascii_lowercase (d ! 0) \<or> is_ascii_digit (d ! 0))
       (persona_label @ '' `d` tag must start with a lowercase letter or digit'')) (\<lambda>_.
     check (list_all (\<lambda>b. is_ascii_lowercase b \<or> is_ascii_digit b \<or> b = CHR ''_'' \<or> b = CHR ''-'') (drop 1 d))
       (persona_label @ '' `d` tag must match [a-z0-9_-] after the first character''))))"

definition catalog_label :: string where "catalog_label = ''team-catalog event''"

definition validate_team_catalog_envelope :: "rule_env \<Rightarrow> event \<Rightarrow> string + unit" where
  "validate_team_catalog_envelope env e =
     and_then (validate_shared_tag env e catalog_label) (\<lambda>_.
     and_then (single_bounded_d_tag e catalog_label) (\<lambda>_. Inr ()))"

section \<open>Projects\<close>

definition PROJECT_MEMBER_CAP :: nat where "PROJECT_MEMBER_CAP = 64"
definition PROJECT_NAME_MAX_LEN :: nat where "PROJECT_NAME_MAX_LEN = 256"
definition PROJECT_DESCRIPTION_MAX_LEN :: nat where "PROJECT_DESCRIPTION_MAX_LEN = 2048"
definition PROJECT_METADATA_TAG_MAX_LEN :: nat where "PROJECT_METADATA_TAG_MAX_LEN = 256"
definition PROJECT_SINGLETON_METADATA_TAGS :: "string list" where
  "PROJECT_SINGLETON_METADATA_TAGS = [''name'', ''description'', ''buzz-channel'', ''buzz-visibility'']"
definition PROJECT_MEMBER_KIND_SEGMENT :: string where "PROJECT_MEMBER_KIND_SEGMENT = ''30617''"

record project_rejection =
  rj_rule :: string
  rj_message :: string

definition reject_project :: "string \<Rightarrow> string \<Rightarrow> project_rejection" where
  "reject_project rule message = \<lparr>rj_rule = rule, rj_message = message\<rparr>"

definition project_rejection_text :: "project_rejection \<Rightarrow> string" where
  "project_rejection_text r = ''['' @ rj_rule r @ ''] '' @ rj_message r"

definition parse_project_member_coordinate :: "rule_env \<Rightarrow> string \<Rightarrow> project_rejection + unit" where
  "parse_project_member_coordinate env coordinate =
     (let malformed = reject_project ''member-coordinate-malformed''
            (''project event member `a` tag must be `'' @ PROJECT_MEMBER_KIND_SEGMENT @
             '':<lowercase-64-hex-owner>:<repo-d>` (got '' @ debug_text env coordinate @ '')'')
      in case split_once CHR '':'' coordinate of
           None \<Rightarrow> Inl malformed
         | Some (kind, rest) \<Rightarrow>
             (case split_once CHR '':'' rest of
                None \<Rightarrow> Inl malformed
              | Some (owner, repo_d) \<Rightarrow>
                  if kind \<noteq> PROJECT_MEMBER_KIND_SEGMENT then Inl malformed
                  else if \<not> lower_hex64 owner then Inl malformed
                  else if repo_d = [] then Inl malformed
                  else Inr ()))"

text \<open>The variables of the loop over the tags.\<close>

record project_scan =
  ps_d_tags :: "string list"
  ps_members :: "string list"
  ps_values :: "string \<rightharpoonup> string"
  ps_counts :: "string \<Rightarrow> nat"

definition project_scan_tag :: "tag \<Rightarrow> project_scan \<Rightarrow> project_scan" where
  "project_scan_tag parts s =
     (case sdk_tag_name parts of
        None \<Rightarrow> s
      | Some n \<Rightarrow>
          (let v = unwrap_or [] (sdk_tag_value parts) in
           if n = ''d'' then s\<lparr>ps_d_tags := ps_d_tags s @ [v]\<rparr>
           else if n = ''a'' then s\<lparr>ps_members := ps_members s @ [v]\<rparr>
           else if n \<in> set PROJECT_SINGLETON_METADATA_TAGS
           then s\<lparr>ps_counts := (ps_counts s)(n := ps_counts s n + 1), ps_values := (ps_values s)(n \<mapsto> v)\<rparr>
           else s))"

definition project_scan_empty :: project_scan where
  "project_scan_empty = \<lparr>ps_d_tags = [], ps_members = [], ps_values = Map.empty, ps_counts = (\<lambda>_. 0)\<rparr>"

definition member_arity :: "tag \<Rightarrow> project_rejection + unit" where
  "member_arity parts =
     check (\<not> (sdk_tag_name parts = Some ''a'' \<and> \<not> (2 \<le> length parts \<and> length parts \<le> 3)))
       (reject_project ''member-tag-arity''
          (''project event member `a` tag must have exactly 2 or 3 elements (got '' @ show_nat (length parts) @ '')''))"

definition project_member :: "rule_env \<Rightarrow> string \<Rightarrow> string list \<Rightarrow> project_rejection + string list" where
  "project_member env member seen =
     and_then (parse_project_member_coordinate env member) (\<lambda>_.
     if member \<in> set seen
     then Inl (reject_project ''member-duplicate''
            (''project event has duplicate member coordinate '' @ debug_text env member))
     else Inr (member # seen))"

definition singleton_count :: "project_scan \<Rightarrow> string \<Rightarrow> project_rejection + unit" where
  "singleton_count s n =
     check (ps_counts s n \<le> 1) (reject_project ''metadata-cardinality''
       (''project event must have at most one `'' @ n @ ''` tag (got '' @ show_nat (ps_counts s n) @ '')''))"

definition metadata_length :: "project_scan \<Rightarrow> string \<times> nat \<Rightarrow> project_rejection + unit" where
  "metadata_length s = (\<lambda>(n, bound).
     check_some (\<lambda>v. check (length v \<le> bound) (reject_project ''metadata-length''
       (''project event `'' @ n @ ''` tag too long ('' @ show_nat (length v) @ '' bytes, max '' @ show_nat bound @ '')'')))
       (ps_values s n))"

definition validate_project_envelope :: "rule_env \<Rightarrow> event \<Rightarrow> project_rejection + unit" where
  "validate_project_envelope env e =
     (let s = fold project_scan_tag (ev_tags e) project_scan_empty in
      and_then (check (length (ps_d_tags s) = 1) (reject_project ''d-cardinality''
        (''project event must have exactly one `d` tag (got '' @ show_nat (length (ps_d_tags s)) @ '')''))) (\<lambda>_.
      and_then (check (hd (ps_d_tags s) \<noteq> []) (reject_project ''d-empty'' ''project event `d` tag must not be empty'')) (\<lambda>_.
      and_then (check (length (ps_members s) \<le> PROJECT_MEMBER_CAP) (reject_project ''member-cap''
        (''project event must have at most '' @ show_nat PROJECT_MEMBER_CAP @ '' member `a` tags (got '' @
         show_nat (length (ps_members s)) @ '')''))) (\<lambda>_.
      and_then (check_each member_arity (ev_tags e)) (\<lambda>_.
      and_then (for_each (project_member env) (ps_members s) []) (\<lambda>_.
      and_then (check_each (singleton_count s) PROJECT_SINGLETON_METADATA_TAGS) (\<lambda>_.
      check_each (metadata_length s)
        [(''name'', PROJECT_NAME_MAX_LEN), (''description'', PROJECT_DESCRIPTION_MAX_LEN),
         (''buzz-channel'', PROJECT_METADATA_TAG_MAX_LEN), (''buzz-visibility'', PROJECT_METADATA_TAG_MAX_LEN)])))))))"

section \<open>Reminders\<close>

definition MAX_NOT_BEFORE :: u64 where "MAX_NOT_BEFORE = 9007199254740991"

definition validate_not_before :: "string \<Rightarrow> string + u64" where
  "validate_not_before tag_value =
     (if tag_value = [] \<or> \<not> list_all is_ascii_digit tag_value then Inl ''malformed not_before''
      else if length tag_value > 1 \<and> starts_with tag_value ''0'' then Inl ''malformed not_before''
      else case parse_u64 tag_value of
        None \<Rightarrow> Inl ''malformed not_before''
      | Some v \<Rightarrow> if v > MAX_NOT_BEFORE then Inl ''malformed not_before'' else Inr v)"

record reminder_scan =
  rs_not_before :: "u64 option"
  rs_expiration :: "string option"
  rs_d_count :: nat
  rs_d_empty :: bool

definition reminder_tag :: "tag \<Rightarrow> reminder_scan \<Rightarrow> string + reminder_scan" where
  "reminder_tag parts s =
     (if length parts < 2 then Inr s
      else if parts ! 0 = ''not_before''
      then (if rs_not_before s \<noteq> None then Inl ''malformed not_before''
            else and_then (validate_not_before (parts ! 1)) (\<lambda>v. Inr (s\<lparr>rs_not_before := Some v\<rparr>)))
      else if parts ! 0 = ''expiration'' then Inr (s\<lparr>rs_expiration := Some (parts ! 1)\<rparr>)
      else if parts ! 0 = ''d''
      then Inr (s\<lparr>rs_d_count := min 255 (rs_d_count s + 1), rs_d_empty := (rs_d_empty s \<or> parts ! 1 = [])\<rparr>)
      else Inr s)"

text \<open>The horizon \<open>now + max_delta\<close> is computed in 64 bits.\<close>

definition validate_event_reminder :: "rule_env \<Rightarrow> event \<Rightarrow> string + unit" where
  "validate_event_reminder env e =
     and_then (for_each reminder_tag (ev_tags e)
       \<lparr>rs_not_before = None, rs_expiration = None, rs_d_count = 0, rs_d_empty = False\<rparr>) (\<lambda>s.
     if rs_d_count s = 0 then Inl ''missing d tag''
     else if rs_d_count s > 1 then Inl ''duplicate d tag''
     else if rs_d_empty s then Inl ''empty d tag''
     else case rs_not_before s of
       None \<Rightarrow> Inr ()
     | Some nb \<Rightarrow>
         and_then (check (nb \<le> unix_now env + unwrap_or 31536000 (max_not_before_delta env))
           ''not_before too far in future'') (\<lambda>_.
         case Option.bind (rs_expiration s) parse_u64 of
           Some ex \<Rightarrow> check (ex > nb) ''expiration before not_before''
         | None \<Rightarrow> Inr ()))"

end
