(* ===== verification/Ingest_Laws.thy ===== *)
theory Ingest_Laws
  imports Ingest_Envelopes
begin

text \<open>
  What the validators of the write path accept: the content check against a base64 decoder, the
  canonical form of \<open>not_before\<close>, the project envelope against the rules of NIP-MP, and what the
  shape of tags says about the stored columns.
\<close>

section \<open>Base64\<close>

fun base64_decode :: "string \<Rightarrow> u8 list option" where
  "base64_decode [] = Some []"
| "base64_decode (a # b # c # d # rest) =
     (if rest = [] \<and> c = CHR ''='' \<and> d = CHR ''=''
      then (case (b64_val a, b64_val b) of (Some x, Some y) \<Rightarrow> Some [first_byte x y] | _ \<Rightarrow> None)
      else if rest = [] \<and> d = CHR ''=''
      then (case (b64_val a, b64_val b, b64_val c) of
              (Some x, Some y, Some z) \<Rightarrow> Some [first_byte x y, or (push_bit 4 y) (drop_bit 2 z)]
            | _ \<Rightarrow> None)
      else (case (b64_val a, b64_val b, b64_val c, b64_val d, base64_decode rest) of
              (Some x, Some y, Some z, Some w, Some bs) \<Rightarrow>
                Some (first_byte x y # or (push_bit 4 y) (drop_bit 2 z) # or (push_bit 6 z) w # bs)
            | _ \<Rightarrow> None))"
| "base64_decode _ = None"

lemma b64_alphabet_val: "b64_alphabet c \<longleftrightarrow> (\<exists>x. b64_val c = Some x)"
  by (auto simp: b64_alphabet_def b64_val_def)

lemma b64_val_None: "b64_val c = None \<longleftrightarrow> \<not> b64_alphabet c"
  by (auto simp: b64_alphabet_val)

lemma b64_pad [simp]: "\<not> b64_alphabet CHR ''=''" "b64_val CHR ''='' = None"
  by (simp_all add: b64_alphabet_def b64_val_def in_range_def)

lemma case_b64: "(case b64_val c of None \<Rightarrow> n | Some x \<Rightarrow> f x) = (if b64_alphabet c then f (the (b64_val c)) else n)"
  by (cases "b64_val c") (auto simp: b64_alphabet_val)

lemma scan_decode:
  "length bs mod 4 = 0 \<Longrightarrow> len = i + length bs \<Longrightarrow>
   (case base64_decode bs of
      None \<Rightarrow> (\<exists>m. scan_base64 len i 0 bs = Inl m)
    | Some out \<Rightarrow> scan_base64 len i 0 bs = Inr (length bs div 4 * 3 - length out) \<and> length out \<le> length bs div 4 * 3)"
proof (induction bs arbitrary: i rule: base64_decode.induct)
  case (2 a b c d rest)
  show ?case
  proof (cases "rest = []")
    case True
    then have "len - 2 = i + 2" using "2.prems" by simp
    with True show ?thesis
      by (cases "b64_alphabet a"; cases "b64_alphabet b"; cases "b64_alphabet c"; cases "b64_alphabet d";
          cases "c = CHR ''=''"; cases "d = CHR ''=''") (simp_all add: case_b64)
  next
    case False
    then have len: "4 \<le> length rest" using "2.prems" by (cases rest) (auto simp: mod_Suc split: if_splits)
    show ?thesis
    proof (cases "\<exists>x y z w. b64_val a = Some x \<and> b64_val b = Some y \<and> b64_val c = Some z \<and> b64_val d = Some w")
      case True
      have "scan_base64 len i 0 (a # b # c # d # rest) = scan_base64 len (i + 4) 0 rest"
        using True by (auto simp: b64_alphabet_val eval_nat_numeral)
      with 2 False True len show ?thesis
        by (auto simp: add.commute [of 4 i] split: option.splits)
    next
      case no: False
      then have "\<not> (b64_alphabet a \<and> b64_alphabet b \<and> b64_alphabet c \<and> b64_alphabet d)"
        by (auto simp: b64_alphabet_val)
      moreover have "i < len - 2" "i + 1 < len - 2" "i + 1 + 1 < len - 2" "i + 1 + 1 + 1 < len - 2"
        using len False "2.prems" by simp_all
      ultimately have "\<exists>m. scan_base64 len i 0 (a # b # c # d # rest) = Inl m"
        by (cases "b64_alphabet a"; cases "b64_alphabet b"; cases "b64_alphabet c"; cases "b64_alphabet d") simp_all
      moreover have "base64_decode (a # b # c # d # rest) = None"
        using no False by (auto split: option.splits)
      ultimately show ?thesis by simp
    qed
  qed
qed (auto)

lemma decode_hd:
  "base64_decode bs = Some out \<Longrightarrow> bs \<noteq> [] \<Longrightarrow>
   \<exists>x y. b64_val (bs ! 0) = Some x \<and> b64_val (bs ! 1) = Some y \<and> out \<noteq> [] \<and> hd out = first_byte x y"
  by (cases bs rule: base64_decode.cases) (auto split: if_splits option.splits)

lemma nip44_content_exact:
  "validate_engram_nip44_content content = Inr () \<longleftrightarrow>
     (case base64_decode content of None \<Rightarrow> False | Some bs \<Rightarrow> length bs \<ge> 99 \<and> hd bs = 2)"
proof (cases "content = [] \<or> length content mod 4 \<noteq> 0")
  case True
  have "base64_decode bs = Some out \<Longrightarrow> length bs mod 4 = 0" for bs out
    by (induction bs arbitrary: out rule: base64_decode.induct) (auto split: if_splits option.splits)
  with True show ?thesis
    by (auto simp: validate_engram_nip44_content_def Let_def and_then_Inr split: option.splits)
next
  case False
  show ?thesis
  proof (cases "base64_decode content")
    case None
    with False scan_decode [of content "length content" 0] show ?thesis
      by (auto simp: validate_engram_nip44_content_def Let_def)
  next
    case (Some out)
    with False scan_decode [of content "length content" 0] decode_hd [OF Some] show ?thesis
      by (auto simp: validate_engram_nip44_content_def Let_def and_then_Inr)
  qed
qed

section \<open>not_before\<close>

lemma not_before_exact:
  "validate_not_before s = Inr v \<longleftrightarrow> v \<le> MAX_NOT_BEFORE \<and> s = show_nat (unat v)"
proof
  assume *: "validate_not_before s = Inr v"
  then have s: "s \<noteq> []" "list_all is_ascii_digit s" "\<not> (length s > 1 \<and> starts_with s ''0'')"
    "parse_u64 s = Some v" "v \<le> MAX_NOT_BEFORE"
    by (auto simp: validate_not_before_def split: if_splits option.splits)
  have "show_nat (digits_value 0 s) = s"
    using s by (intro show_digits_value) (auto simp: starts_with_iff, metis append_Cons append_Nil list.collapse)
  then obtain n where n: "s = show_nat n" by metis
  with s have "n < 2 ^ 64" "v = of_nat n"
    by (auto simp: parse_u64_def parse_unsigned_show split: if_splits)
  with n s show "v \<le> MAX_NOT_BEFORE \<and> s = show_nat (unat v)"
    by (simp add: unat_of_nat)
next
  assume *: "v \<le> MAX_NOT_BEFORE \<and> s = show_nat (unat v)"
  have "unat v < 2 ^ 64" using unsigned_less [of v] by simp
  then have "parse_u64 s = Some v" using * by (simp add: parse_u64_show)
  moreover have "\<not> (length s > 1 \<and> starts_with s ''0'')"
  proof (cases "unat v = 0")
    case True
    with * show ?thesis by (simp add: show_nat.simps [of 0])
  next
    case False
    with hd_show_nat [of "unat v"] * show ?thesis by (auto simp: starts_with_iff)
  qed
  ultimately show "validate_not_before s = Inr v"
    using * show_nat_digits [of "unat v"] by (auto simp: validate_not_before_def)
qed

section \<open>Loops\<close>

lemma check_each_Inr [simp]: "check_each f xs = Inr () \<longleftrightarrow> (\<forall>x \<in> set xs. f x = Inr ())"
  by (induction xs) (auto simp: and_then_Inr)

lemma and_then_check [simp]: "and_then (check p e) f = Inr b \<longleftrightarrow> p \<and> f () = Inr b"
  by (cases p) simp_all

lemma and_then_check_each [simp]:
  "and_then (check_each f xs) g = Inr b \<longleftrightarrow> (\<forall>x \<in> set xs. f x = Inr ()) \<and> g () = Inr b"
  by (auto simp: and_then_Inr simp flip: check_each_Inr)

lemma for_each_distinct:
  assumes "\<And>x seen s. f x seen = Inr s \<longleftrightarrow> P x \<and> k x \<notin> set seen \<and> s = k x # seen"
  shows "(\<exists>s. for_each f xs seen = Inr s) \<longleftrightarrow>
    (\<forall>x \<in> set xs. P x) \<and> distinct (map k xs) \<and> k ` set xs \<inter> set seen = {}"
proof (induction xs arbitrary: seen)
  case (Cons x xs)
  have "(\<exists>s. for_each f (x # xs) seen = Inr s) \<longleftrightarrow>
      P x \<and> k x \<notin> set seen \<and> (\<exists>s. for_each f xs (k x # seen) = Inr s)"
    by (auto simp: and_then_Inr assms)
  then show ?case by (auto simp: Cons.IH)
qed simp

section \<open>Projects\<close>

definition tag_val :: "tag \<Rightarrow> string" where
  "tag_val t = unwrap_or [] (sdk_tag_value t)"

text \<open>The coordinate of a member: a repository announcement, a lower-case owner, a non-empty \<open>d\<close>.\<close>

definition coordinate_ok :: "string \<Rightarrow> bool" where
  "coordinate_ok c \<longleftrightarrow> (\<exists>owner d. c = ''30617:'' @ owner @ '':'' @ d \<and> lower_hex64 owner \<and> d \<noteq> [])"

definition project_ok :: "tag list \<Rightarrow> bool" where
  "project_ok tags \<longleftrightarrow>
     (\<exists>t. named ''d'' tags = [t] \<and> tag_val t \<noteq> []) \<and>
     length (named ''a'' tags) \<le> 64 \<and>
     (\<forall>t \<in> set (named ''a'' tags). length t \<in> {2, 3} \<and> coordinate_ok (tag_val t)) \<and>
     distinct (map tag_val (named ''a'' tags)) \<and>
     (\<forall>(n, bound) \<in> {(''name'', 256), (''description'', 2048), (''buzz-channel'', 256), (''buzz-visibility'', 256)}.
        length (named n tags) \<le> 1 \<and> (\<forall>t \<in> set (named n tags). length (tag_val t) \<le> bound))"

lemma colon_notin_lower_hex: "lower_hex64 owner \<Longrightarrow> CHR '':'' \<notin> set owner"
  by (auto simp: lower_hex64_def list_all_iff is_ascii_hexdigit_def)

lemma lower_hex64_iff: "lower_hex64 owner \<longleftrightarrow> length owner = 64 \<and> all_hex owner \<and> \<not> list_ex is_ascii_uppercase owner"
  by (auto simp: lower_hex64_def all_hex_def list_all_iff list_ex_iff)

lemma coordinate_split:
  "coordinate_ok c \<longleftrightarrow>
     (\<exists>rest owner d. split_once CHR '':'' c = Some (''30617'', rest) \<and> split_once CHR '':'' rest = Some (owner, d) \<and>
        lower_hex64 owner \<and> d \<noteq> [])"
proof
  assume "coordinate_ok c"
  then obtain owner d where c: "c = ''30617'' @ CHR '':'' # owner @ CHR '':'' # d" "lower_hex64 owner" "d \<noteq> []"
    by (auto simp: coordinate_ok_def)
  have "split_once CHR '':'' c = Some (''30617'', owner @ CHR '':'' # d)"
    unfolding c(1) by (rule split_once_append) simp
  with c colon_notin_lower_hex show
    "\<exists>rest owner d. split_once CHR '':'' c = Some (''30617'', rest) \<and> split_once CHR '':'' rest = Some (owner, d) \<and>
        lower_hex64 owner \<and> d \<noteq> []"
    by fastforce
next
  assume "\<exists>rest owner d. split_once CHR '':'' c = Some (''30617'', rest) \<and> split_once CHR '':'' rest = Some (owner, d) \<and>
        lower_hex64 owner \<and> d \<noteq> []"
  then show "coordinate_ok c" by (auto simp: coordinate_ok_def dest!: split_once_Some) blast
qed

lemma relay_coordinate: "parse_project_member_coordinate env c = Inr () \<longleftrightarrow> coordinate_ok c"
  by (auto simp: parse_project_member_coordinate_def coordinate_split Let_def PROJECT_MEMBER_KIND_SEGMENT_def
      split: option.splits if_splits)

lemma sdk_coordinate: "(\<exists>m. parse_full env c = Inr m) \<longleftrightarrow> coordinate_ok c"
  by (auto simp: parse_full_def splitn3_def coordinate_split lower_hex64_iff split: option.splits if_splits)

lemma sdk_members:
  "(\<exists>s. for_each (sdk_member env) ts [] = Inr s) \<longleftrightarrow>
     (\<forall>t \<in> set ts. coordinate_ok (tag_val t)) \<and> distinct (map tag_val ts)"
  by (subst for_each_distinct [where k = tag_val and P = "\<lambda>t. coordinate_ok (tag_val t)"])
    (auto simp: sdk_member_def tag_val_def Let_def and_then_Inr sdk_coordinate [of env, symmetric])

lemma relay_members:
  "(\<exists>s. for_each (project_member env) ms [] = Inr s) \<longleftrightarrow> (\<forall>m \<in> set ms. coordinate_ok m) \<and> distinct ms"
  by (subst for_each_distinct [where k = "\<lambda>m. m" and P = coordinate_ok])
    (auto simp: project_member_def and_then_Inr relay_coordinate)

lemma sdk_singleton_Inr:
  "sdk_singleton tags (n, bound) = Inr () \<longleftrightarrow>
     length (named n tags) \<le> 1 \<and> (\<forall>t \<in> set (named n tags). length (tag_val t) \<le> bound)"
  by (cases "named n tags") (auto simp: sdk_singleton_def tag_val_def)

lemma sdk_arity_Inr: "t \<in> set (named ''a'' tags) \<Longrightarrow> sdk_arity t = Inr () \<longleftrightarrow> length t \<in> {2, 3}"
  by (cases t) (auto simp: sdk_arity_def named_def Let_def)

lemma sdk_project:
  "sdk_validate_project_envelope env tags = Inr () \<longleftrightarrow>
     project_ok tags \<and> (\<forall>t \<in> set (named ''d'' tags). length (tag_val t) \<le> 1024)"
proof -
  have "(\<exists>s. for_each (sdk_member env) (named ''a'' tags) [] = Inr s \<and> X) \<longleftrightarrow>
     ((\<forall>t \<in> set (named ''a'' tags). coordinate_ok (tag_val t)) \<and> distinct (map tag_val (named ''a'' tags))) \<and> X" for X
    using sdk_members [of env "named ''a'' tags"] by auto
  then show ?thesis
    by (cases "named ''d'' tags"; cases "tl (named ''d'' tags)")
      (auto simp: sdk_validate_project_envelope_def Let_def and_then_Inr project_ok_def singleton_fields_def
        sdk_singleton_Inr sdk_arity_Inr tag_val_def [symmetric] PROJECT_D_MAX_LEN_def SDK_PROJECT_MEMBER_CAP_def
        PROJECT_NAME_MAX_def PROJECT_DESCRIPTION_MAX_def PROJECT_CHANNEL_MAX_def PROJECT_VISIBILITY_MAX_def)
qed

lemma named_append: "named n (ts @ us) = named n ts @ named n us"
  by (simp add: named_def)

lemma project_scan:
  defines "s tags \<equiv> fold project_scan_tag tags project_scan_empty"
  shows "ps_d_tags (s tags) = map tag_val (named ''d'' tags)"
    and "ps_members (s tags) = map tag_val (named ''a'' tags)"
    and "n \<in> set PROJECT_SINGLETON_METADATA_TAGS \<Longrightarrow> ps_counts (s tags) n = length (named n tags)"
    and "n \<in> set PROJECT_SINGLETON_METADATA_TAGS \<Longrightarrow>
      ps_values (s tags) n = (if named n tags = [] then None else Some (tag_val (last (named n tags))))"
  unfolding s_def
  by (induction tags rule: rev_induct)
    (auto simp: project_scan_empty_def project_scan_tag_def named_append named_def tag_val_def Let_def
      PROJECT_SINGLETON_METADATA_TAGS_def split: option.splits)

lemma relay_project: "validate_project_envelope env e = Inr () \<longleftrightarrow> project_ok (ev_tags e)"
proof -
  let ?tags = "ev_tags e"
  have m: "and_then (for_each (project_member env) ms []) (\<lambda>_. g) = Inr b \<longleftrightarrow>
     ((\<forall>m \<in> set ms. coordinate_ok m) \<and> distinct ms) \<and> g = Inr b" for g b ms
    using relay_members [of env ms] by (auto simp: and_then_Inr)
  have a: "(\<forall>t \<in> set ?tags. member_arity t = Inr ()) \<longleftrightarrow> (\<forall>t \<in> set (named ''a'' ?tags). length t \<in> {2, 3})"
    by (auto simp: member_arity_def named_def)
  let ?s = "fold project_scan_tag ?tags project_scan_empty"
  have k: "length (named k ?tags) \<le> 1 \<and> (\<forall>t \<in> set (named k ?tags). length (tag_val t) \<le> b) \<longleftrightarrow>
      singleton_count ?s k = Inr () \<and> metadata_length ?s (k, b) = Inr ()"
    if "k \<in> set PROJECT_SINGLETON_METADATA_TAGS" for k b
    using project_scan(3,4) [OF that, of ?tags]
    by (cases "named k ?tags") (auto simp: singleton_count_def metadata_length_def check_some_def)
  have names: "''name'' \<in> set PROJECT_SINGLETON_METADATA_TAGS" "''description'' \<in> set PROJECT_SINGLETON_METADATA_TAGS"
    "''buzz-channel'' \<in> set PROJECT_SINGLETON_METADATA_TAGS" "''buzz-visibility'' \<in> set PROJECT_SINGLETON_METADATA_TAGS"
    by (simp_all add: PROJECT_SINGLETON_METADATA_TAGS_def)
  have s: "(\<forall>k \<in> set PROJECT_SINGLETON_METADATA_TAGS. singleton_count ?s k = Inr ()) \<and>
      (\<forall>p \<in> set [(''name'', PROJECT_NAME_MAX_LEN), (''description'', PROJECT_DESCRIPTION_MAX_LEN),
         (''buzz-channel'', PROJECT_METADATA_TAG_MAX_LEN), (''buzz-visibility'', PROJECT_METADATA_TAG_MAX_LEN)].
         metadata_length ?s p = Inr ()) \<longleftrightarrow>
      (\<forall>(n, bound) \<in> {(''name'', 256), (''description'', 2048), (''buzz-channel'', 256), (''buzz-visibility'', 256)}.
        length (named n ?tags) \<le> 1 \<and> (\<forall>t \<in> set (named n ?tags). length (tag_val t) \<le> bound))"
    by (simp only: PROJECT_SINGLETON_METADATA_TAGS_def PROJECT_NAME_MAX_LEN_def PROJECT_DESCRIPTION_MAX_LEN_def
        PROJECT_METADATA_TAG_MAX_LEN_def list.set ball_simps split_conv
        names [THEN k]) blast
  have d: "length (map tag_val (named ''d'' ?tags)) = 1 \<and> hd (map tag_val (named ''d'' ?tags)) \<noteq> [] \<longleftrightarrow>
      (\<exists>t. named ''d'' ?tags = [t] \<and> tag_val t \<noteq> [])"
    by (cases "named ''d'' ?tags") auto
  show ?thesis
    unfolding project_ok_def s [symmetric] d [symmetric]
    by (simp only: validate_project_envelope_def Let_def and_then_check and_then_check_each m
        project_scan check_each_Inr PROJECT_MEMBER_CAP_def a length_map set_map ball_simps) blast
qed

end
