(* ===== verification/Sdk_Contract.thy ===== *)
theory Sdk_Contract
  imports Ingest_Laws Event_Store
begin

text \<open>
  The client SDK against the relay: events built by crates/buzz-sdk/src/builders.rs pass the validators
  of crates/buzz-relay/src/handlers/ingest.rs, and what the builder put into the tags is what the
  relay reads from them. \<open>tag_law\<close> is the behaviour of the nostr crate's \<open>Tag::parse\<close> the builders
  rely on: it keeps the strings of a non-empty list and refuses the empty one.
\<close>

section \<open>Tags of a builder\<close>

definition tag_law :: "sdk_env \<Rightarrow> bool" where
  "tag_law env \<longleftrightarrow> (\<exists>m. tag_parse env [] = Inl m) \<and> (\<forall>parts. parts \<noteq> [] \<longrightarrow> tag_parse env parts = Inr parts)"

lemma push_tag_law:
  assumes "tag_law env"
  shows "push_tag env parts tags = Inr tags' \<longleftrightarrow> parts \<noteq> [] \<and> tags' = tags @ [parts]"
  using assms by (cases parts) (auto simp: push_tag_def sdk_tag_def tag_law_def and_then_Inr)

lemma push_some_law:
  "tag_law env \<Longrightarrow> push_some env opt parts tags = Inr tags' \<longleftrightarrow>
     (case opt of None \<Rightarrow> tags' = tags | Some v \<Rightarrow> parts v \<noteq> [] \<and> tags' = tags @ [parts v])"
  by (auto simp: push_some_def push_tag_law split: option.splits)

lemma imeta_tags_law: "tag_law env \<Longrightarrow> imeta_tags env media tags = Inr tags' \<Longrightarrow> tags' = tags @ media"
  by (induction media arbitrary: tags) (fastforce simp: imeta_tags_def and_then_Inr push_tag_law)+

lemma mention_loop:
  assumes "tag_law env"
  shows "for_each (\<lambda>hex (seen, tags).
            let lower = to_ascii_lowercase hex in
            if lower \<in> set seen then Inr (seen, tags)
            else and_then (push_tag env [''p'', lower] tags) (\<lambda>tags. Inr (lower # seen, tags))) ms (seen, tags) = Inr (seen', tags') \<Longrightarrow>
     \<exists>ps. tags' = tags @ ps \<and> (\<forall>t \<in> set ps. tag_name t = ''p'')"
proof (induction ms arbitrary: seen tags)
  case (Cons m ms)
  then show ?case
    by (cases "to_ascii_lowercase m \<in> set seen")
      (force simp: Let_def and_then_Inr push_tag_law [OF assms] tag_name_def)+
qed simp

lemma mention_tags_law:
  assumes "tag_law env" "mention_tags env ms tags = Inr tags'"
  obtains ps where "tags' = tags @ ps" "\<And>t. t \<in> set ps \<Longrightarrow> tag_name t = ''p''"
  using assms mention_loop [OF assms(1), of ms "[]" tags]
  by (auto simp: mention_tags_def and_then_Inr split: if_splits)

definition thread_list :: "thread_ref option \<Rightarrow> tag list" where
  "thread_list thread = (case thread of None \<Rightarrow> []
     | Some tr \<Rightarrow>
         if tr_root_event_id tr = tr_parent_event_id tr then [[''e'', tr_root_event_id tr, '''', ''reply'']]
         else [[''e'', tr_root_event_id tr, '''', ''root''], [''e'', tr_parent_event_id tr, '''', ''reply'']])"

lemma thread_law:
  "tag_law env \<Longrightarrow> (case thread of None \<Rightarrow> Inr tags | Some tr \<Rightarrow> thread_tags env tr tags) = Inr tags' \<longleftrightarrow>
     tags' = tags @ thread_list thread"
  by (auto simp: thread_list_def thread_tags_def Let_def and_then_Inr push_tag_law split: option.splits)

lemma fold_thread_marker_other:
  "(\<And>t. t \<in> set ts \<Longrightarrow> tag_name t \<noteq> ''e'') \<Longrightarrow> fold thread_marker ts s = s"
proof (induction ts arbitrary: s)
  case (Cons t ts)
  then have "tag_name t \<noteq> ''e''" by simp
  then have "thread_marker t s = s"
    by (cases t; cases s) (auto simp: thread_marker_def tag_name_def)
  with Cons show ?case by simp
qed simp

lemma find_map_other: "(\<And>t. t \<in> set ts \<Longrightarrow> f t = None) \<Longrightarrow> find_map f (ts @ us) = find_map f us"
  by (induction ts) auto

lemma thread_roundtrip:
  assumes law: "tag_law env"
    and b: "build_message env channel_id content (Some tr) mentions broadcast media = Inr b"
    and ids: "id_hex (tr_root_event_id tr)" "id_hex (tr_parent_event_id tr)"
    and media: "\<forall>t \<in> set media. tag_name t = ''imeta''"
    and ch: "parse_uuid renv channel_id = Some channel_id"
    and e: "ev_tags e = eb_tags b"
  shows "nip10_refs e = Some (tr_root_event_id tr, tr_parent_event_id tr) \<and>
    extract_channel_id renv e = Some channel_id \<and> is_broadcast e = broadcast"
proof (intro conjI)
  obtain ps where tags: "ev_tags e = [''h'', channel_id] # thread_list (Some tr) @ ps @
      (if broadcast then [[''broadcast'', ''1'']] else []) @ media"
    and ps: "\<And>t. t \<in> set ps \<Longrightarrow> tag_name t = ''p''"
    using b e law
    by (auto simp: build_message_def and_then_Inr push_tag_law thread_law [OF law, where thread = "Some tr", simplified] builder_def split: if_splits
        elim!: mention_tags_law dest!: imeta_tags_law [OF law])
  have "fold thread_marker (ps @ (if broadcast then [[''broadcast'', ''1'']] else []) @ media) s = s" for s
    using ps media by (intro fold_thread_marker_other) (auto simp: tag_name_def)
  with ids show "nip10_refs e = Some (tr_root_event_id tr, tr_parent_event_id tr)"
    unfolding nip10_refs_def tags by (simp add: thread_list_def thread_marker_def numeral_eq_Suc)
  show "extract_channel_id renv e = Some channel_id"
    unfolding extract_channel_id_def tags using ch by (simp add: tag_name_def tag_content_def)
  have "t \<in> set (ps @ media) \<Longrightarrow> \<not> (length t \<ge> 2 \<and> t ! 0 = ''broadcast'')" for t
    using ps media by (cases t) (force simp: tag_name_def)+
  then show "is_broadcast e = broadcast"
    unfolding is_broadcast_def tags by (auto simp: list_ex_iff thread_list_def)
qed


section \<open>Diffs\<close>

lemma parse_u32_show: "parse_u32 (show_nat (unat n)) = Some n"
  using unsigned_less [of n] by (simp add: parse_u32_def parse_unsigned_show)

definition opt_tag :: "('a \<Rightarrow> tag) \<Rightarrow> 'a option \<Rightarrow> tag list" where
  "opt_tag parts opt = (case opt of None \<Rightarrow> [] | Some v \<Rightarrow> [parts v])"

lemma push_opt_tag:
  "tag_law env \<Longrightarrow> (\<And>v. parts v \<noteq> []) \<Longrightarrow> push_some env opt parts tags = Inr tags' \<longleftrightarrow> tags' = tags @ opt_tag parts opt"
  by (auto simp: push_some_law opt_tag_def split: option.splits)

lemma for_each_append: "for_each f (xs @ ys) s = and_then (for_each f xs s) (for_each f ys)"
  by (induction xs arbitrary: s) (auto simp: and_then_def split: sum.splits)

definition diff_tags :: "uuid \<Rightarrow> diff_meta \<Rightarrow> tag list" where
  "diff_tags channel_id m =
     [[''h'', channel_id], [''repo'', dm_repo_url m], [''commit'', dm_commit_sha m]] @
       opt_tag (\<lambda>fp. [''file'', fp]) (dm_file_path m) @ opt_tag (\<lambda>pc. [''parent-commit'', pc]) (dm_parent_commit m) @
       opt_tag (\<lambda>(src, tgt). [''branch'', src, tgt]) (dm_branch m) @
       opt_tag (\<lambda>pr. [''pr'', show_nat (unat pr)]) (dm_pr_number m) @
       opt_tag (\<lambda>l. [''l'', l]) (dm_language m) @ opt_tag (\<lambda>d. [''description'', d]) (dm_description m) @
       (if dm_truncated m then [[''truncated'', ''true'']] else []) @ opt_tag (\<lambda>a. [''alt'', a]) (dm_alt_text m)"

lemma diff_built:
  assumes law: "tag_law env" and b: "build_diff_message env channel_id content m thread = Inr b"
  shows "eb_tags b = diff_tags channel_id m @ thread_list thread"
    and "eb_content b = content" and "length content \<le> 60 * KiB" and "web_scheme (dm_repo_url m)"
    and "\<not> short_hex (dm_commit_sha m)" and "\<And>pc. dm_parent_commit m = Some pc \<Longrightarrow> \<not> short_hex pc"
    and "\<And>src tgt. dm_branch m = Some (src, tgt) \<Longrightarrow> src \<noteq> [] \<and> tgt \<noteq> []"
    and "\<And>pr. dm_pr_number m = Some pr \<Longrightarrow> pr \<noteq> 0"
proof -
  have br: "push_some env opt (\<lambda>(src, tgt). [''branch'', src, tgt]) tags = Inr tags' \<longleftrightarrow>
      tags' = tags @ opt_tag (\<lambda>(src, tgt). [''branch'', src, tgt]) opt" for opt tags tags'
    by (rule push_opt_tag [OF law]) (auto split: prod.splits)
  have pc: "(case opt of None \<Rightarrow> Inr () | Some pc \<Rightarrow> check_hex_len env pc 7 f) = Inr u \<longleftrightarrow>
      (\<forall>pc. opt = Some pc \<longrightarrow> \<not> short_hex pc)" for opt f and u :: unit
    by (cases opt) (auto simp: check_hex_len_def short_hex_def)
  have bc: "(case opt of Some (src, tgt) \<Rightarrow> check (\<not> (src = [] \<or> tgt = [])) m | None \<Rightarrow> Inr ()) = Inr u \<longleftrightarrow>
      (\<forall>src tgt. opt = Some (src, tgt) \<longrightarrow> src \<noteq> [] \<and> tgt \<noteq> [])"
    for opt :: "(string \<times> string) option" and m :: sdk_error and u
    by (cases opt) (auto split: prod.splits)
  have rc: "(case opt of Some pr \<Rightarrow> check (pr \<noteq> 0) m | None \<Rightarrow> Inr ()) = Inr u \<longleftrightarrow>
      (\<forall>pr. opt = Some pr \<longrightarrow> pr \<noteq> 0)" for opt :: "u32 option" and m :: sdk_error and u
    by (cases opt) auto
  have tc: "(if p then push_tag env [''truncated'', ''true''] tags else Inr tags) = Inr tags' \<longleftrightarrow>
      tags' = tags @ (if p then [[''truncated'', ''true'']] else [])" for p tags tags'
    by (auto simp: push_tag_law [OF law])
  note laws = push_tag_law [OF law] br push_opt_tag [OF law] pc bc rc tc thread_law [OF law]
  have "length content \<le> 60 * KiB \<and> web_scheme (dm_repo_url m) \<and> \<not> short_hex (dm_commit_sha m) \<and>
    (\<forall>pc. dm_parent_commit m = Some pc \<longrightarrow> \<not> short_hex pc) \<and>
    (\<forall>src tgt. dm_branch m = Some (src, tgt) \<longrightarrow> src \<noteq> [] \<and> tgt \<noteq> []) \<and> (\<forall>pr. dm_pr_number m = Some pr \<longrightarrow> pr \<noteq> 0) \<and>
    b = builder 40008 content (diff_tags channel_id m @ thread_list thread)"
    using b by (auto simp: build_diff_message_def and_then_Inr laws check_content_def check_hex_len_def short_hex_def
        diff_tags_def)
  then show "eb_tags b = diff_tags channel_id m @ thread_list thread"
    and "eb_content b = content" and "length content \<le> 60 * KiB" and "web_scheme (dm_repo_url m)"
    and "\<not> short_hex (dm_commit_sha m)" and "\<And>pc. dm_parent_commit m = Some pc \<Longrightarrow> \<not> short_hex pc"
    and "\<And>src tgt. dm_branch m = Some (src, tgt) \<Longrightarrow> src \<noteq> [] \<and> tgt \<noteq> []"
    and "\<And>pr. dm_pr_number m = Some pr \<Longrightarrow> pr \<noteq> 0"
    by (auto simp: builder_def)
qed

lemma sdk_diff_accepted:
  assumes law: "tag_law env" and b: "build_diff_message env channel_id content m thread = Inr b"
    and e: "ev_tags e = eb_tags b" "ev_content e = eb_content b"
  shows "validate_diff_event e = Inr ()"
proof -
  note built = diff_built [OF law b]
  let ?ok = "\<lambda>ts. for_each diff_tag ts (True, True) = Inr (True, True)"
  have "for_each diff_tag [[''h'', channel_id], [''repo'', dm_repo_url m], [''commit'', dm_commit_sha m]] (False, False) = Inr (True, True)"
    using built(4,5) by (simp add: diff_tag_def web_scheme_def)
  moreover have "?ok (opt_tag (\<lambda>fp. [''file'', fp]) (dm_file_path m))" "?ok (opt_tag (\<lambda>l. [''l'', l]) (dm_language m))"
    "?ok (opt_tag (\<lambda>d. [''description'', d]) (dm_description m))" "?ok (opt_tag (\<lambda>a. [''alt'', a]) (dm_alt_text m))"
    "?ok (if dm_truncated m then [[''truncated'', ''true'']] else [])"
    by (auto simp: opt_tag_def diff_tag_def split: option.splits)
  moreover have "?ok (opt_tag (\<lambda>pc. [''parent-commit'', pc]) (dm_parent_commit m))"
    using built(6) by (auto simp: opt_tag_def diff_tag_def split: option.splits)
  moreover have "?ok (opt_tag (\<lambda>(src, tgt). [''branch'', src, tgt]) (dm_branch m))"
    using built(7) by (auto simp: opt_tag_def diff_tag_def split: option.splits)
  moreover have "?ok (opt_tag (\<lambda>pr. [''pr'', show_nat (unat pr)]) (dm_pr_number m))"
    using built(8) by (auto simp: opt_tag_def diff_tag_def parse_u32_show split: option.splits)
  moreover have "?ok (thread_list thread)"
    by (auto simp: thread_list_def diff_tag_def split: option.splits)
  ultimately have "for_each diff_tag (eb_tags b) (False, False) = Inr (True, True)"
    unfolding built(1) diff_tags_def by (simp only: for_each_append and_then_simps append_assoc)
  with built(2,3) e show ?thesis by (simp add: validate_diff_event_def KiB_def)
qed

section \<open>Custom emoji\<close>

lemma shortcode_char:
  assumes "is_ascii_alphanumeric c \<or> c = CHR ''-'' \<or> c = CHR ''_''"
  shows "(of_char (ascii_lower c) :: nat) < 128" and "\<not> white_space [ascii_lower c]" and "ascii_lower c \<noteq> CHR '':''"
    and "is_ascii_alphanumeric (ascii_lower c) \<or> ascii_lower c = CHR ''-'' \<or> ascii_lower c = CHR ''_''"
    and "ascii_lower (ascii_lower c) = ascii_lower c"
proof -
  define n where "n = (of_char c :: nat)"
  have c: "c = char_of n" by (simp add: n_def)
  have n: "48 \<le> n \<and> n \<le> 57 \<or> 65 \<le> n \<and> n \<le> 90 \<or> 97 \<le> n \<and> n \<le> 122 \<or> n = 45 \<or> n = 95"
    using assms by (auto simp: is_ascii_alphanumeric_def Let_def n_def)
  define k where "k = (if 65 \<le> n \<and> n \<le> 90 then n + 32 else n)"
  have k: "ascii_lower c = char_of k" "k < 128" "48 \<le> k \<and> k \<le> 57 \<or> 97 \<le> k \<and> k \<le> 122 \<or> k = 45 \<or> k = 95"
    using n by (auto simp: ascii_lower_def Let_def n_def [symmetric] c k_def)
  then have o: "of_char (ascii_lower c) = k" by simp
  show "(of_char (ascii_lower c) :: nat) < 128" using k o by simp
  show "\<not> white_space [ascii_lower c]" using k o by (auto simp: white_space_def Let_def)
  show "ascii_lower c \<noteq> CHR '':''"
  proof
    assume "ascii_lower c = CHR '':''"
    with o have "k = 58" by simp
    with k(3) show False by simp
  qed
  show "is_ascii_alphanumeric (ascii_lower c) \<or> ascii_lower c = CHR ''-'' \<or> ascii_lower c = CHR ''_''"
  proof -
    have "char_of (45 :: nat) = CHR ''-''" "char_of (95 :: nat) = CHR ''_''" by code_simp+
    with k o show ?thesis by (auto simp: is_ascii_alphanumeric_def Let_def)
  qed
  show "ascii_lower (ascii_lower c) = ascii_lower c" using k(3) by (auto simp: ascii_lower_def [of "ascii_lower c"] Let_def o)
qed

lemma shortcode_normal:
  assumes "normalize_custom_emoji_shortcode sc = Inr s"
  shows "normalize_custom_emoji_shortcode s = Inr s" and "ascii_text s" and "length s \<le> 64" and "s \<noteq> []"
proof -
  obtain r where r: "s = map ascii_lower r" "r \<noteq> []" "length r \<le> 64"
    "\<And>c. c \<in> set r \<Longrightarrow> is_ascii_alphanumeric c \<or> c = CHR ''-'' \<or> c = CHR ''_''"
    using assms by (auto simp: normalize_custom_emoji_shortcode_def Let_def list_all_iff to_ascii_lowercase_def
        MAX_CUSTOM_EMOJI_SHORTCODE_LEN_def split: if_splits)
  note c = shortcode_char [OF r(4)]
  show a: "ascii_text s" using c(1) by (auto simp: ascii_text_def list_all_iff r(1))
  have "trim s = s" unfolding trim_def using c(2) by (intro trim_matches_id [OF a]) (auto simp: r(1))
  moreover have "trim_matches (\<lambda>c. c = '':'') s = s" using c(3) by (intro trim_matches_id [OF a]) (auto simp: r(1))
  moreover have "to_ascii_lowercase s = s" using c(5) by (simp add: to_ascii_lowercase_def r(1))
  moreover have "list_all (\<lambda>c. is_ascii_alphanumeric c \<or> c = CHR ''-'' \<or> c = CHR ''_'') s"
    using c(4) by (auto simp: list_all_iff r(1))
  ultimately show "normalize_custom_emoji_shortcode s = Inr s"
    using r(2,3) by (simp add: normalize_custom_emoji_shortcode_def MAX_CUSTOM_EMOJI_SHORTCODE_LEN_def r(1))
  show "length s \<le> 64" "s \<noteq> []" using r by simp_all
qed


lemma sdk_emoji_accepted:
  assumes law: "tag_law env" and b: "build_custom_emoji_reaction env target shortcode url = Inr b"
    and e: "ev_tags e = eb_tags b"
  shows "validate_reaction_emoji e (eb_content b) = Inr () \<and> validate_custom_emoji_tags e = Inr ()"
proof (intro conjI)
  obtain s where s: "normalize_custom_emoji_shortcode shortcode = Inr s"
    and t: "ev_tags e = [[''e'', target], [''emoji'', s, url]]" "eb_content b = '':'' @ s @ '':''"
    using b e by (auto simp: build_custom_emoji_reaction_def and_then_Inr push_tag_law [OF law] builder_def)
  note n = shortcode_normal [OF s]
  have "ascii_text ('':'' @ s @ '':'')" using n(2) by (simp add: ascii_text_def)
  then have c: "char_count ('':'' @ s @ '':'') = length s + 2" by (simp add: char_count_ascii)
  have "Option.bind (strip_prefix '':'' ('':'' @ s @ '':'')) (strip_suffix '':'') = Some s"
    by (simp add: strip_prefix_def strip_suffix_def starts_with_def)
  then show "validate_reaction_emoji e (eb_content b) = Inr ()"
    using n c t by (simp add: validate_reaction_emoji_def Let_def sdk_tag_name_def sdk_tag_value_def
        MAX_CUSTOM_EMOJI_REACTION_LEN_def MAX_CUSTOM_EMOJI_SHORTCODE_LEN_def)
  show "validate_custom_emoji_tags e = Inr ()"
    using n t by (simp add: validate_custom_emoji_tags_def check_emoji_tag_def sdk_tag_name_def sdk_tag_value_def)
qed

section \<open>Projects\<close>

lemma named_Cons: "named n (t # ts) = (if sdk_tag_name t = Some n then t # named n ts else named n ts)"
  by (simp add: named_def)

lemma find_d_tag:
  "named ''d'' tags = [t] \<Longrightarrow> tag_val t \<noteq> [] \<Longrightarrow>
     find_map (\<lambda>parts. if length parts \<ge> 2 \<and> parts ! 0 = ''d'' then Some (parts ! 1) else None) tags = Some (tag_val t)"
proof (induction tags)
  case (Cons u tags)
  show ?case
  proof (cases "sdk_tag_name u = Some ''d''")
    case True
    with Cons.prems have "u = t" by (simp add: named_Cons)
    with Cons.prems(2) True show ?thesis
      by (auto simp: tag_val_def sdk_tag_value_def sdk_tag_name_def unwrap_or_def split: list.splits)
  next
    case False
    then have "\<not> (length u \<ge> 2 \<and> u ! 0 = ''d'')" by (cases u) (auto simp: sdk_tag_name_def)
    with Cons False show ?thesis by (auto simp: named_Cons)
  qed
qed (simp add: named_def)

lemma project_validators_agree:
  assumes "event_kind_u32 e = KIND_PROJECT"
  shows "sdk_validate_project_envelope senv (ev_tags e) = Inr () \<longleftrightarrow>
    validate_project_envelope renv e = Inr () \<and> length (unwrap_or [] (extract_d_tag e)) \<le> D_TAG_MAX_LEN"
proof -
  have "is_parameterized_replaceable KIND_PROJECT" by code_simp
  then have "extract_d_tag e = Some (tag_val t)" if "named ''d'' (ev_tags e) = [t]" "tag_val t \<noteq> []" for t
    using find_d_tag [OF that] by (simp add: extract_d_tag_def assms)
  then show ?thesis
    unfolding sdk_project relay_project by (auto simp: project_ok_def D_TAG_MAX_LEN_def unwrap_or_def)
qed

end
