(* ===== verification/Event_Replacement.thy ===== *)
theory Event_Replacement
  imports Event_Store
begin

text \<open>
  Replaceable events, crates/buzz-db/src/lib.rs: \<open>replace_addressable_event\<close> (one live event per kind,
  author and channel) and \<open>replace_parameterized_event\<close> (one per kind, author and \<open>d\<close> tag), with the
  watermarks of read-state coordinates, and the single-event lookups of crates/buzz-db/src/event.rs.

  A transaction is one step: the advisory lock of a coordinate orders its writers, and a rollback
  gives the state before. The lock key and the transaction-local setting of the delete trigger have
  no other effect and are left out. \<open>from_timestamp\<close> is chrono's range of timestamps, as in the
  event store.
\<close>

section \<open>Heads\<close>

record head_store =
  hs_db :: event_db
  hs_watermarks :: "uuid \<times> int \<times> string \<times> string \<rightharpoonup> int \<times> string"

text \<open>\<open>created_at < accepted_ts || (created_at == accepted_ts && incoming_id >= accepted_id)\<close>.\<close>

definition dominated_by :: "int \<Rightarrow> string \<Rightarrow> int \<times> string \<Rightarrow> bool" where
  "dominated_by created_at incoming_id = (\<lambda>(accepted_ts, accepted_id).
     created_at < accepted_ts \<or> created_at = accepted_ts \<and> accepted_id \<le> incoming_id)"

text \<open>\<open>SELECT created_at, id .. ORDER BY created_at DESC, id ASC LIMIT 1\<close> over the live rows.\<close>

definition live_head :: "(event_row \<Rightarrow> bool) \<Rightarrow> event_db \<Rightarrow> (int \<times> string) option" where
  "live_head p db =
     (case newest_first (filter (\<lambda>r. p r \<and> row_deleted_at r = None) (db_events db)) of
        [] \<Rightarrow> None | r # _ \<Rightarrow> Some (row_created_at r, row_id r))"

definition replacement_row :: "nat \<Rightarrow> uuid \<Rightarrow> event \<Rightarrow> uuid option \<Rightarrow> string option \<Rightarrow> int option \<Rightarrow> event_row" where
  "replacement_row now community_id e channel_id d_tag not_before =
     \<lparr>row_community_id = community_id, row_id = ev_id e, row_pubkey = ev_pubkey e,
      row_created_at = secs_as_i64 (ev_created_at e), row_kind = event_kind_i32 e,
      row_tags = ev_tags e, row_content = ev_content e, row_received_at = now,
      row_channel_id = channel_id, row_d_tag = d_tag, row_not_before = not_before, row_deleted_at = None\<rparr>"

text \<open>\<open>INSERT .. ON CONFLICT DO NOTHING\<close>, with whether a row was inserted.\<close>

definition insert_row :: "event_row \<Rightarrow> event_db \<Rightarrow> (event_db) option" where
  "insert_row row db =
     (if list_ex (same_key row) (db_events db) then None else Some (db\<lparr>db_events := db_events db @ [row]\<rparr>))"

text \<open>The mentions are indexed after the commit; a failure is only logged.\<close>

definition index_mentions :: "(int \<Rightarrow> bool) \<Rightarrow> uuid \<Rightarrow> event \<Rightarrow> uuid option \<Rightarrow> event_db \<Rightarrow> event_db" where
  "index_mentions from_timestamp community_id e channel_id db =
     (case insert_mentions from_timestamp db community_id e channel_id of Inr db' \<Rightarrow> db' | Inl _ \<Rightarrow> db)"

text \<open>With the number of rows marked.\<close>

definition soft_delete_discovery_events :: "nat \<Rightarrow> event_db \<Rightarrow> uuid \<Rightarrow> uuid \<Rightarrow> string \<Rightarrow> nat \<times> event_db" where
  "soft_delete_discovery_events now db community_id channel_id relay_pubkey =
     (let p = (\<lambda>r. row_community_id r = community_id \<and> row_channel_id r = Some channel_id \<and>
                row_pubkey r = relay_pubkey \<and> row_kind r \<in> set [39000, 39001, 39002])
      in (length (filter (\<lambda>r. p r \<and> row_deleted_at r = None) (db_events db)), snd (soft_delete_where now p db)))"

text \<open>The key of the advisory lock of a coordinate: a 64-bit FNV hash, read as a signed number.\<close>

definition fnv_step :: "u8 \<Rightarrow> u64 \<Rightarrow> u64" where
  "fnv_step byte hash = xor hash (ucast byte) * 0x100000001b3"

definition le_bytes :: "u32 \<Rightarrow> bytes" where
  "le_bytes k = map (\<lambda>i. ucast (drop_bit (8 * i) k)) [0, 1, 2, 3]"

definition event_replacement_lock_key :: "bytes \<Rightarrow> u32 \<Rightarrow> bytes \<Rightarrow> bytes option \<Rightarrow> int" where
  "event_replacement_lock_key community_id kind pubkey coordinate =
     (let hash = fold (fold fnv_step) [community_id, le_bytes kind, pubkey] 0xcbf29ce484222325;
          hash = (case coordinate of None \<Rightarrow> hash | Some cs \<Rightarrow> fold fnv_step cs hash)
      in sint hash)"

definition replace_addressable_event ::
  "(int \<Rightarrow> bool) \<Rightarrow> nat \<Rightarrow> event_db \<Rightarrow> uuid \<Rightarrow> event \<Rightarrow> uuid option \<Rightarrow> db_error + (stored_event \<times> bool) \<times> event_db" where
  "replace_addressable_event from_timestamp now db community_id e channel_id =
     (let created_at = secs_as_i64 (ev_created_at e);
          same = (\<lambda>r. row_community_id r = community_id \<and> row_kind r = event_kind_i32 e \<and>
                      row_pubkey r = ev_pubkey e \<and> row_channel_id r = channel_id);
          refused = Inr ((with_received_at e now channel_id False, False), db)
      in if \<not> from_timestamp created_at then Inl (InvalidTimestamp created_at)
         else if (case live_head same db of None \<Rightarrow> False | Some h \<Rightarrow> dominated_by created_at (ev_id e) h) then refused
         else
           (case insert_row (replacement_row now community_id e channel_id (extract_d_tag e) None)
                   (snd (soft_delete_where now same db)) of
              None \<Rightarrow> refused
            | Some db' \<Rightarrow>
                Inr ((with_received_at e now channel_id True, True),
                     index_mentions from_timestamp community_id e channel_id db')))"

section \<open>Parameterized events\<close>

definition read_state_slot :: "string \<Rightarrow> bool" where
  "read_state_slot d_tag =
     (case strip_prefix ''read-state:'' d_tag of
        None \<Rightarrow> False
      | Some slot \<Rightarrow> length slot = 32 \<and>
          list_all (\<lambda>b. is_ascii_hexdigit b \<and> \<not> (65 \<le> (of_char b :: nat) \<and> (of_char b :: nat) \<le> 90)) slot)"

definition is_nip_rs :: "event \<Rightarrow> string \<Rightarrow> bool" where
  "is_nip_rs e d_tag =
     (event_kind_i32 e = uint KIND_READ_STATE \<and>
      length (filter (\<lambda>parts. parts \<noteq> [] \<and> parts ! 0 = ''d'') (ev_tags e)) = 1 \<and>
      list_ex (\<lambda>parts. length parts \<ge> 2 \<and> parts ! 0 = ''d'' \<and> parts ! 1 = d_tag) (ev_tags e) \<and>
      read_state_slot d_tag \<and>
      length (filter (\<lambda>parts. parts = [''t'', ''read-state'']) (ev_tags e)) = 1)"

definition is_buzz_mesh_status :: "event \<Rightarrow> string \<Rightarrow> bool" where
  "is_buzz_mesh_status e d_tag =
     (event_kind_i32 e = uint KIND_BOOKMARK_SET \<and> starts_with d_tag ''buzz-mesh-member-status:'' \<and>
      list_ex (\<lambda>parts. parts = [''k'', ''buzz-mesh-status'']) (ev_tags e))"

definition at_coordinate :: "uuid \<times> int \<times> string \<times> string \<Rightarrow> event_row \<Rightarrow> bool" where
  "at_coordinate = (\<lambda>(community_id, kind, pubkey, d_tag) r.
     row_community_id r = community_id \<and> row_kind r = kind \<and> row_pubkey r = pubkey \<and> row_d_tag r = Some d_tag)"

text \<open>The superseded rows: deleted for good with the mentions of the head, or marked deleted.\<close>

definition retire :: "bool \<Rightarrow> nat \<Rightarrow> uuid \<times> int \<times> string \<times> string \<Rightarrow> string \<Rightarrow> event_db \<Rightarrow> event_db" where
  "retire hard now coord existing_id db =
     (if hard
      then db\<lparr>db_events := filter (\<lambda>r. \<not> (at_coordinate coord r \<and> row_deleted_at r = None)) (db_events db),
              db_mentions := filter (\<lambda>m. \<not> (m_community_id m = fst coord \<and> m_event_id m = existing_id)) (db_mentions db)\<rparr>
      else snd (soft_delete_where now (at_coordinate coord) db))"

definition replace_parameterized_event ::
  "(int \<Rightarrow> bool) \<Rightarrow> nat \<Rightarrow> head_store \<Rightarrow> uuid \<Rightarrow> event \<Rightarrow> string \<Rightarrow> uuid option
   \<Rightarrow> db_error + (stored_event \<times> bool) \<times> head_store" where
  "replace_parameterized_event from_timestamp now hs community_id e d_tag channel_id =
     (let created_at = secs_as_i64 (ev_created_at e);
          coord = (community_id, event_kind_i32 e, ev_pubkey e, d_tag);
          nip_rs = is_nip_rs e d_tag;
          hard = nip_rs \<or> is_buzz_mesh_status e d_tag;
          existing = live_head (at_coordinate coord) (hs_db hs);
          watermark = (if nip_rs then hs_watermarks hs coord else None);
          refused = Inr ((with_received_at e now channel_id False, False), hs)
      in if \<not> from_timestamp created_at then Inl (InvalidTimestamp created_at)
         else if (case existing of None \<Rightarrow> False | Some h \<Rightarrow> dominated_by created_at (ev_id e) h) \<or>
                 (case watermark of None \<Rightarrow> False | Some h \<Rightarrow> dominated_by created_at (ev_id e) h) then refused
         else
           (let db = (case existing of None \<Rightarrow> hs_db hs | Some (_, existing_id) \<Rightarrow> retire hard now coord existing_id (hs_db hs))
            in case insert_row (replacement_row now community_id e channel_id (Some d_tag) (extract_not_before e)) db of
                 None \<Rightarrow> refused
               | Some db' \<Rightarrow>
                   Inr ((with_received_at e now channel_id True, True),
                     \<lparr>hs_db = index_mentions from_timestamp community_id e channel_id db',
                      hs_watermarks = (if nip_rs then (hs_watermarks hs)(coord \<mapsto> (created_at, ev_id e))
                                       else hs_watermarks hs)\<rparr>)))"

section \<open>Single events\<close>

definition first_row :: "event_decoder \<Rightarrow> event_row list \<Rightarrow> db_error + stored_event option" where
  "first_row event_from_json rows =
     (case rows of [] \<Rightarrow> Inr None | r # _ \<Rightarrow> row_to_stored_event event_from_json r)"

text \<open>\<open>ORDER BY created_at DESC LIMIT 1\<close>; the order of equal timestamps is left open by SQL.\<close>

definition db_get_event_by_id :: "event_decoder \<Rightarrow> event_db \<Rightarrow> uuid \<Rightarrow> string \<Rightarrow> db_error + stored_event option" where
  "db_get_event_by_id event_from_json db community_id i =
     first_row event_from_json (sort_key (\<lambda>r. - row_created_at r)
       (filter (\<lambda>r. row_community_id r = community_id \<and> row_id r = i \<and> row_deleted_at r = None) (db_events db)))"

definition db_get_event_by_id_including_deleted ::
  "event_decoder \<Rightarrow> event_db \<Rightarrow> uuid \<Rightarrow> string \<Rightarrow> db_error + stored_event option" where
  "db_get_event_by_id_including_deleted event_from_json db community_id i =
     first_row event_from_json (sort_key (\<lambda>r. - row_created_at r)
       (filter (\<lambda>r. row_community_id r = community_id \<and> row_id r = i) (db_events db)))"

definition get_latest_global_replaceable ::
  "event_decoder \<Rightarrow> event_db \<Rightarrow> uuid \<Rightarrow> int \<Rightarrow> string \<Rightarrow> db_error + stored_event option" where
  "get_latest_global_replaceable event_from_json db community_id kind pubkey =
     first_row event_from_json (newest_first
       (filter (\<lambda>r. row_community_id r = community_id \<and> row_kind r = kind \<and> row_pubkey r = pubkey \<and>
                    row_channel_id r = None \<and> row_deleted_at r = None) (db_events db)))"

section \<open>The order of heads\<close>

definition head_key :: "int \<times> string \<Rightarrow> int \<times> string" where
  "head_key = (\<lambda>(t, i). (- t, i))"

lemma dominated_iff: "dominated_by t i h \<longleftrightarrow> head_key h \<le> head_key (t, i)"
  by (cases h) (auto simp: dominated_by_def head_key_def less_eq_prod_def)

lemma inj_head_key: "head_key h = head_key h' \<longleftrightarrow> h = h'"
  by (cases h; cases h') (auto simp: head_key_def)

definition row_head :: "event_row \<Rightarrow> int \<times> string" where
  "row_head r = (row_created_at r, row_id r)"

definition live_at :: "(event_row \<Rightarrow> bool) \<Rightarrow> event_db \<Rightarrow> event_row list" where
  "live_at p db = filter (\<lambda>r. p r \<and> row_deleted_at r = None) (db_events db)"

lemma live_head_single: "map row_head (live_at p db) = [h] \<Longrightarrow> live_head p db = Some h"
  by (auto simp: live_at_def live_head_def newest_first_def row_head_def map_eq_Cons_conv)

lemma live_head_empty: "live_at p db = [] \<longleftrightarrow> live_head p db = None"
  by (auto simp: live_at_def live_head_def newest_first_def split: list.splits)
    (metis set_empty set_sort)+

lemma index_mentions_events [simp]: "db_events (index_mentions valid c e ch db) = db_events db"
  by (auto simp: index_mentions_def insert_mentions_def Let_def split: sum.splits if_splits)

lemma live_at_index [simp]: "live_at p (index_mentions valid c e ch db) = live_at p db"
  by (simp add: live_at_def)

type_synonym coordinate = "uuid \<times> int \<times> string \<times> string"

lemma live_at_retire_same: "live_at (at_coordinate C) (retire hard now C i db) = []"
  by (auto simp: live_at_def retire_def soft_delete_where_def filter_empty_conv)

lemma at_coordinate_deleted [simp]: "at_coordinate C (r\<lparr>row_deleted_at := x\<rparr>) = at_coordinate C r"
  by (cases C) (simp add: at_coordinate_def)

lemma at_coordinate_unique: "at_coordinate C r \<Longrightarrow> at_coordinate D r \<Longrightarrow> C = D"
  by (cases C; cases D) (auto simp: at_coordinate_def)

lemma live_at_retire_other:
  assumes "C \<noteq> D"
  shows "map row_head (live_at (at_coordinate D) (retire hard now C i db)) = map row_head (live_at (at_coordinate D) db)"
proof -
  have no: "\<not> (at_coordinate C r \<and> at_coordinate D r)" for r
    using at_coordinate_unique assms by blast
  have "filter (\<lambda>r. at_coordinate D r \<and> row_deleted_at r = None)
      (map (\<lambda>r. if at_coordinate C r \<and> row_deleted_at r = None then r\<lparr>row_deleted_at := Some now\<rparr> else r) rs) =
      filter (\<lambda>r. at_coordinate D r \<and> row_deleted_at r = None) rs" for rs
    by (induction rs) (use no in auto)
  moreover have "filter (\<lambda>r. at_coordinate D r \<and> row_deleted_at r = None)
      (filter (\<lambda>r. \<not> (at_coordinate C r \<and> row_deleted_at r = None)) rs) =
      filter (\<lambda>r. at_coordinate D r \<and> row_deleted_at r = None) rs" for rs
    using no by (auto simp: filter_filter intro: filter_cong)
  ultimately show ?thesis
    by (simp add: live_at_def retire_def soft_delete_where_def)
qed

text \<open>Rows that differ in nothing the coordinate and the key say.\<close>

definition same_place :: "event_row \<Rightarrow> event_row \<Rightarrow> bool" where
  "same_place r s \<longleftrightarrow> row_community_id r = row_community_id s \<and> row_kind r = row_kind s \<and> row_pubkey r = row_pubkey s \<and>
     row_d_tag r = row_d_tag s \<and> row_created_at r = row_created_at s \<and> row_id r = row_id s"

lemma same_place_laws:
  assumes "same_place r s"
  shows "at_coordinate C r = at_coordinate C s" "row_head r = row_head s" "same_key x r = same_key x s"
  using assms by (simp_all add: same_place_def at_coordinate_def row_head_def same_key_def split_def)

lemma same_place_refl: "same_place r r"
  by (simp add: same_place_def)

lemma retire_from_old:
  "r \<in> set (db_events (retire hard now C i db)) \<Longrightarrow> \<exists>r' \<in> set (db_events db). same_place r r'"
  by (auto simp: retire_def soft_delete_where_def same_place_def split: if_splits)

section \<open>Convergence\<close>

text \<open>A submission: the clock, the community, the event and its channel.\<close>

type_synonym submission = "nat \<times> uuid \<times> event \<times> uuid option"

definition d_of :: "event \<Rightarrow> string" where
  "d_of e = unwrap_or [] (extract_d_tag e)"

definition submit :: "(int \<Rightarrow> bool) \<Rightarrow> submission \<Rightarrow> head_store \<Rightarrow> head_store" where
  "submit valid = (\<lambda>(now, c, e, ch) hs.
     case replace_parameterized_event valid now hs c e (d_of e) ch of Inr (_, hs') \<Rightarrow> hs' | Inl _ \<Rightarrow> hs)"

definition no_heads :: head_store where
  "no_heads = \<lparr>hs_db = db_empty, hs_watermarks = Map.empty\<rparr>"

definition coordinate_of :: "submission \<Rightarrow> coordinate" where
  "coordinate_of = (\<lambda>(now, c, e, ch). (c, event_kind_i32 e, ev_pubkey e, d_of e))"

definition submitted_head :: "submission \<Rightarrow> int \<times> string" where
  "submitted_head = (\<lambda>(now, c, e, ch). (secs_as_i64 (ev_created_at e), ev_id e))"

definition keys_at :: "(int \<Rightarrow> bool) \<Rightarrow> submission list \<Rightarrow> coordinate \<Rightarrow> (int \<times> string) set" where
  "keys_at valid subs C =
     head_key ` submitted_head ` {s \<in> set subs. coordinate_of s = C \<and> valid (fst (submitted_head s))}"

definition ids_determine :: "submission list \<Rightarrow> bool" where
  "ids_determine subs \<longleftrightarrow>
     (\<forall>(_, _, e, _) \<in> set subs. \<forall>(_, _, e', _) \<in> set subs. ev_id e = ev_id e' \<longrightarrow> e = e')"

definition heads_ok :: "(int \<Rightarrow> bool) \<Rightarrow> submission list \<Rightarrow> head_store \<Rightarrow> bool" where
  "heads_ok valid subs hs \<longleftrightarrow>
     (\<forall>C. map (head_key \<circ> row_head) (live_at (at_coordinate C) (hs_db hs)) =
        (if keys_at valid subs C = {} then [] else [Min (keys_at valid subs C)])) \<and>
     (\<forall>r \<in> set (db_events (hs_db hs)). \<exists>s \<in> set subs. at_coordinate (coordinate_of s) r \<and>
        row_head r = submitted_head s \<and> valid (fst (submitted_head s))) \<and>
     (\<forall>C h. hs_watermarks hs C = Some h \<longrightarrow> head_key h \<in> keys_at valid subs C)"

lemma heads_ok_live:
  "heads_ok valid subs hs \<Longrightarrow> map (head_key \<circ> row_head) (live_at (at_coordinate C) (hs_db hs)) =
     (if keys_at valid subs C = {} then [] else [Min (keys_at valid subs C)])"
  unfolding heads_ok_def by blast

lemma heads_ok_watermark: "heads_ok valid subs hs \<Longrightarrow> hs_watermarks hs C = Some h \<Longrightarrow> head_key h \<in> keys_at valid subs C"
  unfolding heads_ok_def by blast

lemma keys_at_snoc:
  "keys_at valid (subs @ [s]) C =
     (if coordinate_of s = C \<and> valid (fst (submitted_head s)) then insert (head_key (submitted_head s)) (keys_at valid subs C)
      else keys_at valid subs C)"
  by (auto simp: keys_at_def)

lemma finite_keys_at [simp]: "finite (keys_at valid subs C)"
  by (simp add: keys_at_def)

lemma heads_ok_refused:
  assumes "heads_ok valid subs hs"
    and "\<not> valid (fst (submitted_head s)) \<or>
      (\<exists>k \<in> keys_at valid subs (coordinate_of s). k \<le> head_key (submitted_head s))"
  shows "heads_ok valid (subs @ [s]) hs"
proof -
  have "(keys_at valid (subs @ [s]) C = {}) = (keys_at valid subs C = {}) \<and>
     (keys_at valid subs C \<noteq> {} \<longrightarrow> Min (keys_at valid (subs @ [s]) C) = Min (keys_at valid subs C))" for C
  proof (cases "coordinate_of s = C \<and> valid (fst (submitted_head s))")
    case True
    with assms(2) obtain k where "k \<in> keys_at valid subs C" "k \<le> head_key (submitted_head s)" by auto
    moreover from this have "Min (keys_at valid subs C) \<le> head_key (submitted_head s)"
      by (meson Min_le finite_keys_at order_trans)
    ultimately show ?thesis using True by (auto simp: keys_at_snoc Min_insert min_absorb2)
  qed (auto simp: keys_at_snoc)
  then show ?thesis
    using assms(1) unfolding heads_ok_def by (fastforce simp: keys_at_snoc)
qed


lemma heads_ok_accepted:
  assumes ok: "heads_ok valid subs hs" and v: "valid (fst (submitted_head s))"
    and best: "\<And>k. k \<in> keys_at valid subs (coordinate_of s) \<Longrightarrow> head_key (submitted_head s) < k"
    and row: "at_coordinate (coordinate_of s) row" "row_head row = submitted_head s" "row_deleted_at row = None"
    and events: "db_events (hs_db hs') = db_events db @ [row]"
    and same: "live_at (at_coordinate (coordinate_of s)) db = []"
    and other: "\<And>C. C \<noteq> coordinate_of s \<Longrightarrow>
      map row_head (live_at (at_coordinate C) db) = map row_head (live_at (at_coordinate C) (hs_db hs))"
    and from_old: "\<And>r. r \<in> set (db_events db) \<Longrightarrow> \<exists>r' \<in> set (db_events (hs_db hs)). same_place r r'"
    and wm: "\<And>C h. hs_watermarks hs' C = Some h \<Longrightarrow>
      hs_watermarks hs C = Some h \<or> C = coordinate_of s \<and> h = submitted_head s"
  shows "heads_ok valid (subs @ [s]) hs'"
  unfolding heads_ok_def
proof (intro conjI allI ballI impI)
  fix C
  let ?k = "head_key (submitted_head s)"
  have min: "Min (insert ?k (keys_at valid subs (coordinate_of s))) = ?k"
    by (rule Min_eqI) (auto dest!: best)
  have new: "map (head_key \<circ> row_head) (live_at (at_coordinate C) (hs_db hs')) =
      map head_key (map row_head (live_at (at_coordinate C) db)) @ (if C = coordinate_of s then [?k] else [])"
    using row by (auto simp: live_at_def events dest: at_coordinate_unique)
  show "map (head_key \<circ> row_head) (live_at (at_coordinate C) (hs_db hs')) =
      (if keys_at valid (subs @ [s]) C = {} then [] else [Min (keys_at valid (subs @ [s]) C)])"
  proof (cases "C = coordinate_of s")
    case True
    with new same v min show ?thesis by (simp add: keys_at_snoc)
  next
    case False
    with new other [OF False] heads_ok_live [OF ok, of C] show ?thesis by (simp add: keys_at_snoc)
  qed
next
  fix r assume "r \<in> set (db_events (hs_db hs'))"
  then consider "r = row" | "r \<in> set (db_events db)" by (auto simp: events)
  then show "\<exists>s \<in> set (subs @ [s]). at_coordinate (coordinate_of s) r \<and> row_head r = submitted_head s \<and> valid (fst (submitted_head s))"
  proof cases
    case 2
    from from_old [OF 2] obtain r' where r': "r' \<in> set (db_events (hs_db hs))" "same_place r r'" by blast
    with ok obtain s' where "s' \<in> set subs" "at_coordinate (coordinate_of s') r'" "row_head r' = submitted_head s'"
      "valid (fst (submitted_head s'))" unfolding heads_ok_def by blast
    with same_place_laws [OF r'(2)] show ?thesis by auto
  qed (use row v in auto)
next
  fix C h assume "hs_watermarks hs' C = Some h"
  with wm [OF this] heads_ok_watermark [OF ok, of C h] v show "head_key h \<in> keys_at valid (subs @ [s]) C"
    by (auto simp: keys_at_snoc)
qed

lemma replacement_row_facts:
  "at_coordinate (c, event_kind_i32 e, ev_pubkey e, d) (replacement_row now c e ch (Some d) nb)"
  "row_head (replacement_row now c e ch d' nb) = (secs_as_i64 (ev_created_at e), ev_id e)"
  "row_deleted_at (replacement_row now c e ch d' nb) = None"
  by (simp_all add: at_coordinate_def replacement_row_def row_head_def)

lemma no_conflict:
  assumes ok: "heads_ok valid subs hs" and ids: "ids_determine (subs @ [s])"
    and s: "s = (now, c, e, ch)"
    and best: "\<And>k. k \<in> keys_at valid subs (coordinate_of s) \<Longrightarrow> head_key (submitted_head s) < k"
    and r: "r \<in> set (db_events (hs_db hs))"
  shows "\<not> same_key (replacement_row now' c e ch' d nb) r"
proof
  assume key: "same_key (replacement_row now' c e ch' d nb) r"
  obtain now1 c1 e1 ch1 where old: "(now1, c1, e1, ch1) \<in> set subs" "at_coordinate (coordinate_of (now1, c1, e1, ch1)) r"
    "row_head r = submitted_head (now1, c1, e1, ch1)" "valid (fst (submitted_head (now1, c1, e1, ch1)))"
    using ok r unfolding heads_ok_def by fast
  with key have "ev_id e1 = ev_id e" "c1 = c"
    by (auto simp: same_key_def replacement_row_def row_head_def submitted_head_def at_coordinate_def coordinate_of_def)
  with ids old(1) have "e1 = e" by (fastforce simp: ids_determine_def s)
  with \<open>c1 = c\<close> old have "head_key (submitted_head s) \<in> keys_at valid subs (coordinate_of s)"
    by (force simp: keys_at_def s coordinate_of_def submitted_head_def)
  with best show False by blast
qed

lemma submit_refused:
  assumes ok: "heads_ok valid subs hs"
    and "\<not> valid (fst (submitted_head s)) \<or>
      (\<exists>k \<in> keys_at valid subs (coordinate_of s). k \<le> head_key (submitted_head s))"
  shows "submit valid s hs = hs"
proof -
  obtain now c e ch where s: "s = (now, c, e, ch)" by (cases s)
  let ?C = "coordinate_of s" and ?k = "head_key (submitted_head s)"
  have C: "?C = (c, event_kind_i32 e, ev_pubkey e, d_of e)" and h: "submitted_head s = (secs_as_i64 (ev_created_at e), ev_id e)"
    by (simp_all add: s coordinate_of_def submitted_head_def)
  show ?thesis
  proof (cases "valid (fst (submitted_head s))")
    case valid: True
    with assms obtain k where k: "k \<in> keys_at valid subs ?C" "k \<le> ?k" by blast
    then have "Min (keys_at valid subs ?C) \<le> ?k" by (meson Min_le finite_keys_at order_trans)
    moreover have "map (head_key \<circ> row_head) (live_at (at_coordinate ?C) (hs_db hs)) = [Min (keys_at valid subs ?C)]"
      using heads_ok_live [OF ok] k by auto
    ultimately obtain r where "live_at (at_coordinate ?C) (hs_db hs) = [r]" "head_key (row_head r) \<le> ?k"
      by (auto simp: map_eq_Cons_conv)
    then have "live_head (at_coordinate ?C) (hs_db hs) = Some (row_head r)" "head_key (row_head r) \<le> ?k"
      by (auto intro: live_head_single)
    then show ?thesis
      by (simp add: submit_def s replace_parameterized_event_def Let_def C [unfolded s] h [unfolded s] dominated_iff)
  qed (simp add: submit_def s replace_parameterized_event_def h [unfolded s] Let_def)
qed

text \<open>The live head of a coordinate is one of the submitted keys.\<close>

lemma live_head_submitted:
  assumes ok: "heads_ok valid subs hs" and old: "live_head (at_coordinate C) (hs_db hs) = Some m"
  shows "head_key m \<in> keys_at valid subs C"
proof -
  have "live_at (at_coordinate C) (hs_db hs) \<noteq> []" using old live_head_empty by fastforce
  with heads_ok_live [OF ok, of C] have K: "keys_at valid subs C \<noteq> {}"
    "map (head_key \<circ> row_head) (live_at (at_coordinate C) (hs_db hs)) = [Min (keys_at valid subs C)]"
    by (auto split: if_splits)
  then obtain r where r: "live_at (at_coordinate C) (hs_db hs) = [r]" "head_key (row_head r) = Min (keys_at valid subs C)"
    by (auto simp: map_eq_Cons_conv)
  then have "head_key (row_head r) \<in> keys_at valid subs C" using K(1) by (simp add: Min_in)
  with r(1) old show ?thesis using live_head_single [of "at_coordinate C"] by auto
qed

definition retired :: "submission \<Rightarrow> head_store \<Rightarrow> event_db" where
  "retired s hs = (case s of (now, c, e, ch) \<Rightarrow>
     case live_head (at_coordinate (coordinate_of s)) (hs_db hs) of
       None \<Rightarrow> hs_db hs
     | Some (_, i) \<Rightarrow> retire (is_nip_rs e (d_of e) \<or> is_buzz_mesh_status e (d_of e)) now (coordinate_of s) i (hs_db hs))"

lemma retired_laws:
  "live_at (at_coordinate (coordinate_of s)) (retired s hs) = []"
  "C \<noteq> coordinate_of s \<Longrightarrow>
     map row_head (live_at (at_coordinate C) (retired s hs)) = map row_head (live_at (at_coordinate C) (hs_db hs))"
  "r \<in> set (db_events (retired s hs)) \<Longrightarrow> \<exists>r' \<in> set (db_events (hs_db hs)). same_place r r'"
  using live_head_empty [of "at_coordinate (coordinate_of s)" "hs_db hs"]
  by (auto simp: retired_def live_at_retire_same live_at_retire_other split: prod.splits option.splits
      intro: same_place_refl dest: retire_from_old)

lemma submit_accepted:
  assumes ok: "heads_ok valid subs hs" and ids: "ids_determine (subs @ [s])" and s: "s = (now, c, e, ch)"
    and v: "valid (fst (submitted_head s))"
    and best: "\<And>k. k \<in> keys_at valid subs (coordinate_of s) \<Longrightarrow> head_key (submitted_head s) < k"
  obtains "db_events (hs_db (submit valid s hs)) =
      db_events (retired s hs) @ [replacement_row now c e ch (Some (d_of e)) (extract_not_before e)]"
    "hs_watermarks (submit valid s hs) = hs_watermarks hs \<or>
     hs_watermarks (submit valid s hs) = (hs_watermarks hs)(coordinate_of s \<mapsto> submitted_head s)"
proof -
  let ?C = "coordinate_of s" and ?row = "replacement_row now c e ch (Some (d_of e)) (extract_not_before e)"
  have C: "?C = (c, event_kind_i32 e, ev_pubkey e, d_of e)" and h: "submitted_head s = (secs_as_i64 (ev_created_at e), ev_id e)"
    by (simp_all add: s coordinate_of_def submitted_head_def)
  have fresh: "\<not> dominated_by (secs_as_i64 (ev_created_at e)) (ev_id e) m"
    if "live_head (at_coordinate ?C) (hs_db hs) = Some m \<or> hs_watermarks hs ?C = Some m" for m
    using that live_head_submitted [OF ok, of ?C m] heads_ok_watermark [OF ok, of ?C m] best [of "head_key m"]
    by (auto simp: dominated_iff h [symmetric] not_le)
  have "insert_row ?row (retired s hs) = Some ((retired s hs)\<lparr>db_events := db_events (retired s hs) @ [?row]\<rparr>)"
    using no_conflict [OF ok ids s best] by (auto simp: insert_row_def list_ex_iff same_place_laws(3) dest!: retired_laws(3))
  with fresh v show thesis
    by (intro that) (auto simp: submit_def s replace_parameterized_event_def Let_def C [unfolded s] h [unfolded s]
        retired_def split: option.splits)
qed

lemma heads_ok_submit:
  assumes ok: "heads_ok valid subs hs" and ids: "ids_determine (subs @ [s])"
  shows "heads_ok valid (subs @ [s]) (submit valid s hs)"
proof (cases "\<not> valid (fst (submitted_head s)) \<or>
    (\<exists>k \<in> keys_at valid subs (coordinate_of s). k \<le> head_key (submitted_head s))")
  case True
  with heads_ok_refused [OF ok True] submit_refused [OF ok True] show ?thesis by simp
next
  case False
  then have v: "valid (fst (submitted_head s))"
    and best: "\<And>k. k \<in> keys_at valid subs (coordinate_of s) \<Longrightarrow> head_key (submitted_head s) < k"
    by (auto simp: not_le)
  obtain now c e ch where s: "s = (now, c, e, ch)" by (cases s)
  from submit_accepted [OF ok ids s v best] obtain
    ev: "db_events (hs_db (submit valid s hs)) =
      db_events (retired s hs) @ [replacement_row now c e ch (Some (d_of e)) (extract_not_before e)]"
    and wm: "hs_watermarks (submit valid s hs) = hs_watermarks hs \<or>
      hs_watermarks (submit valid s hs) = (hs_watermarks hs)(coordinate_of s \<mapsto> submitted_head s)" .
  show ?thesis
    by (rule heads_ok_accepted [OF ok v best _ _ _ ev retired_laws(1,2,3)])
      (use wm in \<open>auto simp: s coordinate_of_def submitted_head_def replacement_row_facts split: if_splits\<close>)
qed

definition submit_all :: "(int \<Rightarrow> bool) \<Rightarrow> submission list \<Rightarrow> head_store" where
  "submit_all valid subs = fold (submit valid) subs no_heads"

lemma heads_ok_all: "ids_determine subs \<Longrightarrow> heads_ok valid subs (submit_all valid subs)"
proof (induction subs rule: rev_induct)
  case Nil
  show ?case by (simp add: submit_all_def heads_ok_def no_heads_def db_empty_def live_at_def keys_at_def)
next
  case (snoc s subs)
  then have "ids_determine subs" by (auto simp: ids_determine_def)
  with snoc heads_ok_submit show ?case by (simp add: submit_all_def)
qed

text \<open>
  C5. Replaceable state converges: after any sequence of submissions of parameterized replaceable
  events, in any order and with duplicates, the live rows of each coordinate (community, kind, author,
  \<open>d\<close> tag) are exactly one row, the newest submitted event, the smallest id among equals; events whose
  timestamp is out of range do not count. The result does not depend on the order of the submissions.
  Distinct events have distinct ids.
\<close>

theorem replacement_converges:
  assumes "ids_determine subs"
  shows "map (head_key \<circ> row_head) (live_at (at_coordinate C) (hs_db (submit_all valid subs))) =
    (if keys_at valid subs C = {} then [] else [Min (keys_at valid subs C)])"
  by (rule heads_ok_live [OF heads_ok_all [OF assms]])


section \<open>Read state\<close>

text \<open>What may happen to the tables: replacements, insertions and deletions, in any order.\<close>

inductive store_step :: "(int \<Rightarrow> bool) \<Rightarrow> head_store \<Rightarrow> head_store \<Rightarrow> bool" for valid where
  replaced: "replace_parameterized_event valid now hs c e d ch = Inr (res, hs') \<Longrightarrow> store_step valid hs hs'"
| addressed: "replace_addressable_event valid now (hs_db hs) c e ch = Inr (res, db') \<Longrightarrow>
    store_step valid hs (hs\<lparr>hs_db := db'\<rparr>)"
| inserted: "insert_event valid now (hs_db hs) c e ch = Inr (res, db') \<Longrightarrow> store_step valid hs (hs\<lparr>hs_db := db'\<rparr>)"
| deleted: "store_step valid hs (hs\<lparr>hs_db := snd (soft_delete_where now p (hs_db hs))\<rparr>)"

text \<open>A watermark at least as new as a head.\<close>

definition watermark_reached :: "uuid \<times> int \<times> string \<times> string \<Rightarrow> int \<times> string \<Rightarrow> head_store \<Rightarrow> bool" where
  "watermark_reached C h hs \<longleftrightarrow> (\<exists>w. hs_watermarks hs C = Some w \<and> head_key w \<le> head_key h)"

lemma watermark_kept: "store_step valid hs hs' \<Longrightarrow> watermark_reached C h hs \<Longrightarrow> watermark_reached C h hs'"
proof (induction rule: store_step.induct)
  case (replaced now hs c e d ch res hs')
  then show ?case
    by (auto simp: replace_parameterized_event_def Let_def watermark_reached_def dominated_iff not_le
        split: if_splits option.splits intro: order_trans less_imp_le)
qed (simp_all add: watermark_reached_def)

lemma watermark_kept_rtrancl:
  "(store_step valid)\<^sup>*\<^sup>* hs hs' \<Longrightarrow> watermark_reached C h hs \<Longrightarrow> watermark_reached C h hs'"
  by (induction rule: rtranclp_induct) (auto intro: watermark_kept)

text \<open>
  C6. An accepted read state is never overtaken by an older one: once a read-state event was stored,
  after any further replacements, insertions and deletions (also of its own coordinate), an event of
  the same slot that is not newer is refused and changes nothing, although the superseded rows are
  deleted for good.
\<close>

theorem read_state_never_returns:
  assumes "replace_parameterized_event valid now hs c e d ch = Inr ((stored, True), hs1)" and "is_nip_rs e d"
    and "(store_step valid)\<^sup>*\<^sup>* hs1 hs2"
    and "is_nip_rs e' d" and "ev_pubkey e' = ev_pubkey e"
    and "dominated_by (secs_as_i64 (ev_created_at e')) (ev_id e') (secs_as_i64 (ev_created_at e), ev_id e)"
    and "valid (secs_as_i64 (ev_created_at e'))"
  shows "\<exists>stored'. replace_parameterized_event valid now' hs2 c e' d ch' = Inr ((stored', False), hs2)"
proof -
  let ?C = "(c, event_kind_i32 e, ev_pubkey e, d)" and ?h = "(secs_as_i64 (ev_created_at e), ev_id e)"
  have "hs_watermarks hs1 ?C = Some ?h"
    using assms(1,2) by (auto simp: replace_parameterized_event_def Let_def split: if_splits option.splits)
  then have "watermark_reached ?C ?h hs1" by (simp add: watermark_reached_def)
  with assms(3) have "watermark_reached ?C ?h hs2" by (rule watermark_kept_rtrancl)
  then obtain w where "hs_watermarks hs2 ?C = Some w" "head_key w \<le> head_key ?h" by (auto simp: watermark_reached_def)
  moreover have "event_kind_i32 e' = event_kind_i32 e" using assms(2,4) by (simp add: is_nip_rs_def)
  ultimately show ?thesis
    using assms(4-7) by (auto simp: replace_parameterized_event_def Let_def dominated_iff)
qed

section \<open>Examples\<close>

definition demo_head :: "string \<Rightarrow> nat \<Rightarrow> submission" where
  "demo_head i t = (1, ''c'', \<lparr>ev_id = i, ev_pubkey = ''pk'', ev_created_at = t, ev_kind = 30078,
     ev_tags = [[''d'', ''read-state:0123456789abcdef0123456789abcdef''], [''t'', ''read-state'']], ev_content = ''x''\<rparr>, None)"

definition demo_coordinate :: coordinate where
  "demo_coordinate = (''c'', 30078, ''pk'', ''read-state:0123456789abcdef0123456789abcdef'')"

lemma demo_head_facts:
  "coordinate_of (demo_head i t) = demo_coordinate"
  "submitted_head (demo_head i 7) = (7, i)" "submitted_head (demo_head i 5) = (5, i)"
proof -
  have "is_parameterized_replaceable 30078" by code_simp
  then show "coordinate_of (demo_head i t) = demo_coordinate"
    by (simp add: coordinate_of_def demo_head_def demo_coordinate_def d_of_def extract_d_tag_def event_kind_u32_def
        event_kind_i32_eq)
  have "secs_as_i64 7 = 7" "secs_as_i64 5 = 5" by code_simp+
  then show "submitted_head (demo_head i 7) = (7, i)" "submitted_head (demo_head i 5) = (5, i)"
    by (simp_all add: submitted_head_def demo_head_def)
qed

theorem replacement_converges_witness:
  "ids_determine [demo_head ''bb'' 7, demo_head ''aa'' 7, demo_head ''cc'' 5] \<and>
   map (head_key \<circ> row_head) (live_at (at_coordinate demo_coordinate)
     (hs_db (submit_all (\<lambda>_. True) [demo_head ''bb'' 7, demo_head ''aa'' 7, demo_head ''cc'' 5]))) = [(-7, ''aa'')]"
proof -
  let ?subs = "[demo_head ''bb'' 7, demo_head ''aa'' 7, demo_head ''cc'' 5]"
  have ids: "ids_determine ?subs" by (simp add: ids_determine_def demo_head_def)
  have "keys_at (\<lambda>_. True) ?subs demo_coordinate = {(-7, ''bb''), (-7, ''aa''), (-5, ''cc'')}"
  proof -
    have "{s \<in> set ?subs. coordinate_of s = demo_coordinate} = set ?subs" by (auto simp: demo_head_facts)
    then show ?thesis by (simp add: keys_at_def demo_head_facts head_key_def)
  qed
  with replacement_converges [OF ids, of demo_coordinate "\<lambda>_. True"] ids show ?thesis
    by (simp add: less_eq_prod_def min_def)
qed

definition demo_read_state :: "string \<Rightarrow> nat \<Rightarrow> event" where
  "demo_read_state i t = fst (snd (snd (demo_head i t)))"

abbreviation demo_slot :: string where
  "demo_slot \<equiv> ''read-state:0123456789abcdef0123456789abcdef''"

lemma demo_read_state_nip_rs: "is_nip_rs (demo_read_state i t) demo_slot"
proof -
  have "event_kind_i32 (demo_read_state i t) = uint KIND_READ_STATE"
    by (simp add: event_kind_i32_eq demo_read_state_def demo_head_def KIND_READ_STATE_def)
  moreover have "read_state_slot demo_slot" by code_simp
  ultimately show ?thesis by (simp add: is_nip_rs_def demo_read_state_def demo_head_def)
qed

theorem read_state_never_returns_witness:
  "\<exists>stored hs. replace_parameterized_event (\<lambda>_. True) 1 no_heads ''c'' (demo_read_state ''bb'' 7) demo_slot None = Inr ((stored, True), hs) \<and>
     (\<exists>stored'. replace_parameterized_event (\<lambda>_. True) 3 (hs\<lparr>hs_db := snd (soft_delete_where 2 (\<lambda>_. True) (hs_db hs))\<rparr>) ''c''
        (demo_read_state ''cc'' 5) demo_slot None =
        Inr ((stored', False), hs\<lparr>hs_db := snd (soft_delete_where 2 (\<lambda>_. True) (hs_db hs))\<rparr>))"
proof -
  obtain stored hs where e: "replace_parameterized_event (\<lambda>_. True) 1 no_heads ''c'' (demo_read_state ''bb'' 7) demo_slot None =
      Inr ((stored, True), hs)"
    by (simp add: replace_parameterized_event_def demo_read_state_nip_rs no_heads_def db_empty_def live_head_def
        newest_first_def insert_row_def Let_def)
  let ?hs = "hs\<lparr>hs_db := snd (soft_delete_where 2 (\<lambda>_. True) (hs_db hs))\<rparr>"
  have "(store_step (\<lambda>_. True))\<^sup>*\<^sup>* hs ?hs" by (blast intro: store_step.deleted)
  moreover have "dominated_by (secs_as_i64 5) ''cc'' (secs_as_i64 7, ''bb'')" by code_simp
  ultimately have "\<exists>stored'. replace_parameterized_event (\<lambda>_. True) 3 ?hs ''c'' (demo_read_state ''cc'' 5) demo_slot None =
      Inr ((stored', False), ?hs)"
    by (intro read_state_never_returns [OF e demo_read_state_nip_rs _ demo_read_state_nip_rs])
      (simp_all add: demo_read_state_def demo_head_def)
  with e show ?thesis by blast
qed

end
