(* ===== verification/Thread_Store.thy ===== *)
theory Thread_Store
  imports Event_Replacement
begin

text \<open>
  Threads and reactions, crates/buzz-db/src/thread.rs, reaction.rs and the transactions of event.rs that
  store an event together with its thread metadata or its reaction row. The tables are lists of rows;
  an \<open>UPDATE\<close> maps over the rows its \<open>WHERE\<close> clause selects, \<open>ON CONFLICT DO NOTHING\<close> looks at the
  primary key of the migrations. \<open>LIMIT 1\<close> without an order takes the first row of the table.
\<close>

section \<open>Tables\<close>

record thread_row =
  th_community_id :: uuid
  th_event_created_at :: int
  th_event_id :: string
  th_channel_id :: uuid
  th_parent_event_id :: "string option"
  th_parent_event_created_at :: "int option"
  th_root_event_id :: "string option"
  th_root_event_created_at :: "int option"
  th_depth :: int
  th_reply_count :: int
  th_descendant_count :: int
  th_last_reply_at :: "nat option"
  th_broadcast :: bool

record thread_params =
  tp_event_id :: string
  tp_event_created_at :: int
  tp_channel_id :: uuid
  tp_parent_event_id :: "string option"
  tp_parent_event_created_at :: "int option"
  tp_root_event_id :: "string option"
  tp_root_event_created_at :: "int option"
  tp_depth :: int
  tp_broadcast :: bool

record reaction_row =
  rx_community_id :: uuid
  rx_event_created_at :: int
  rx_event_id :: string
  rx_pubkey :: string
  rx_emoji :: string
  rx_created_at :: nat
  rx_removed_at :: "nat option"
  rx_reaction_event_id :: "string option"

record thread_db =
  td_events :: event_db
  td_threads :: "thread_row list"
  td_reactions :: "reaction_row list"

section \<open>Thread rows\<close>

definition thread_key :: "thread_row \<Rightarrow> uuid \<times> int \<times> string" where
  "thread_key t = (th_community_id t, th_event_created_at t, th_event_id t)"

text \<open>\<open>INSERT .. ON CONFLICT DO NOTHING\<close>, with \<open>rows_affected() > 0\<close>.\<close>

definition add_thread_row :: "thread_row \<Rightarrow> thread_row list \<Rightarrow> bool \<times> thread_row list" where
  "add_thread_row t ts = (if list_ex (\<lambda>u. thread_key u = thread_key t) ts then (False, ts) else (True, ts @ [t]))"

definition params_row :: "uuid \<Rightarrow> thread_params \<Rightarrow> thread_row" where
  "params_row c m =
     \<lparr>th_community_id = c, th_event_created_at = tp_event_created_at m, th_event_id = tp_event_id m,
      th_channel_id = tp_channel_id m, th_parent_event_id = tp_parent_event_id m,
      th_parent_event_created_at = tp_parent_event_created_at m, th_root_event_id = tp_root_event_id m,
      th_root_event_created_at = tp_root_event_created_at m, th_depth = tp_depth m, th_reply_count = 0,
      th_descendant_count = 0, th_last_reply_at = None, th_broadcast = tp_broadcast m\<rparr>"

definition stub_row :: "uuid \<Rightarrow> int \<Rightarrow> string \<Rightarrow> uuid \<Rightarrow> thread_row" where
  "stub_row c created_at i channel_id =
     \<lparr>th_community_id = c, th_event_created_at = created_at, th_event_id = i, th_channel_id = channel_id,
      th_parent_event_id = None, th_parent_event_created_at = None, th_root_event_id = None,
      th_root_event_created_at = None, th_depth = 0, th_reply_count = 0, th_descendant_count = 0,
      th_last_reply_at = None, th_broadcast = False\<rparr>"

text \<open>\<open>UPDATE thread_metadata SET .. WHERE community_id = .. AND event_id = ..\<close>.\<close>

definition update_thread :: "uuid \<Rightarrow> string \<Rightarrow> (thread_row \<Rightarrow> thread_row) \<Rightarrow> thread_row list \<Rightarrow> thread_row list" where
  "update_thread c i f ts = map (\<lambda>t. if th_community_id t = c \<and> th_event_id t = i then f t else t) ts"

definition bump_reply :: "nat \<Rightarrow> thread_row \<Rightarrow> thread_row" where
  "bump_reply now t = t\<lparr>th_reply_count := th_reply_count t + 1, th_last_reply_at := Some now\<rparr>"

definition bump_descendant :: "thread_row \<Rightarrow> thread_row" where
  "bump_descendant t = t\<lparr>th_descendant_count := th_descendant_count t + 1\<rparr>"

definition drop_reply :: "thread_row \<Rightarrow> thread_row" where
  "drop_reply t = t\<lparr>th_reply_count := max (th_reply_count t - 1) 0\<rparr>"

definition drop_descendant :: "thread_row \<Rightarrow> thread_row" where
  "drop_descendant t = t\<lparr>th_descendant_count := max (th_descendant_count t - 1) 0\<rparr>"

definition update_root :: "uuid \<Rightarrow> string option \<Rightarrow> (thread_row \<Rightarrow> thread_row) \<Rightarrow> thread_row list \<Rightarrow> thread_row list" where
  "update_root c root f ts = (case root of None \<Rightarrow> ts | Some r \<Rightarrow> update_thread c r f ts)"

definition increment_reply_count :: "nat \<Rightarrow> uuid \<Rightarrow> string \<Rightarrow> string option \<Rightarrow> thread_row list \<Rightarrow> thread_row list" where
  "increment_reply_count now c parent root ts = update_root c root bump_descendant (update_thread c parent (bump_reply now) ts)"

definition decrement_reply_count :: "uuid \<Rightarrow> string \<Rightarrow> string option \<Rightarrow> thread_row list \<Rightarrow> thread_row list" where
  "decrement_reply_count c parent root ts = update_root c root drop_descendant (update_thread c parent drop_reply ts)"

text \<open>The rows of the parent and of the root exist before the counters are raised.\<close>

definition add_stubs :: "uuid \<Rightarrow> thread_params \<Rightarrow> string \<Rightarrow> thread_row list \<Rightarrow> thread_row list" where
  "add_stubs c m pid ts =
     (let parent_ts = unwrap_or (tp_event_created_at m) (tp_parent_event_created_at m);
          ts = snd (add_thread_row (stub_row c parent_ts pid (tp_channel_id m)) ts)
      in case tp_root_event_id m of
           None \<Rightarrow> ts
         | Some root_id \<Rightarrow>
             if root_id \<noteq> pid
             then (let root_ts = unwrap_or (tp_event_created_at m) (tp_root_event_created_at m)
                   in snd (add_thread_row (stub_row c root_ts root_id (tp_channel_id m)) ts))
             else ts)"

definition insert_thread_metadata :: "nat \<Rightarrow> uuid \<Rightarrow> thread_params \<Rightarrow> thread_row list \<Rightarrow> thread_row list" where
  "insert_thread_metadata now c m ts =
     (case add_thread_row (params_row c m) ts of (added, ts) \<Rightarrow>
        if \<not> added then ts
        else case tp_parent_event_id m of
          None \<Rightarrow> ts
        | Some pid \<Rightarrow> increment_reply_count now c pid (tp_root_event_id m) (add_stubs c m pid ts))"

definition get_thread_metadata_by_event :: "thread_db \<Rightarrow> uuid \<Rightarrow> string \<Rightarrow> thread_row option" where
  "get_thread_metadata_by_event db c i =
     find (\<lambda>t. th_community_id t = c \<and> th_event_id t = i) (td_threads db)"

section \<open>Events with their threads\<close>

definition insert_event_with_thread_metadata_tx ::
  "(int \<Rightarrow> bool) \<Rightarrow> nat \<Rightarrow> thread_db \<Rightarrow> uuid \<Rightarrow> event \<Rightarrow> uuid option \<Rightarrow> thread_params option
   \<Rightarrow> db_error + (stored_event \<times> bool) \<times> thread_db" where
  "insert_event_with_thread_metadata_tx from_timestamp now db c e channel_id thread_meta =
     and_then (insert_event from_timestamp now (td_events db) c e channel_id) (\<lambda>((stored, was_inserted), events).
     Inr ((stored, was_inserted),
       db\<lparr>td_events := events,
          td_threads := (if was_inserted
            then (case thread_meta of None \<Rightarrow> td_threads db | Some m \<Rightarrow> insert_thread_metadata now c m (td_threads db))
            else td_threads db)\<rparr>))"

definition insert_event_with_thread_metadata ::
  "(int \<Rightarrow> bool) \<Rightarrow> nat \<Rightarrow> thread_db \<Rightarrow> uuid \<Rightarrow> event \<Rightarrow> uuid option \<Rightarrow> thread_params option
   \<Rightarrow> db_error + (stored_event \<times> bool) \<times> thread_db" where
  "insert_event_with_thread_metadata from_timestamp now db c e channel_id thread_meta =
     insert_event_with_thread_metadata_tx from_timestamp now db c e channel_id thread_meta"

definition soft_delete_event_and_update_thread ::
  "nat \<Rightarrow> thread_db \<Rightarrow> uuid \<Rightarrow> string \<Rightarrow> string option \<Rightarrow> string option \<Rightarrow> bool \<times> thread_db" where
  "soft_delete_event_and_update_thread now db c event_id parent root =
     (case soft_delete_event now (td_events db) c event_id of (deleted, events) \<Rightarrow>
        (deleted, db\<lparr>td_events := events,
           td_threads := (if deleted
             then (case parent of None \<Rightarrow> td_threads db | Some pid \<Rightarrow> decrement_reply_count c pid root (td_threads db))
             else td_threads db)\<rparr>))"

definition live_in_channel :: "event_db \<Rightarrow> uuid \<Rightarrow> uuid \<Rightarrow> event_row list" where
  "live_in_channel db c ch =
     filter (\<lambda>r. row_community_id r = c \<and> row_channel_id r = Some ch \<and> row_deleted_at r = None) (db_events db)"

definition get_last_message_at :: "event_db \<Rightarrow> uuid \<Rightarrow> uuid \<Rightarrow> int option" where
  "get_last_message_at db c ch =
     (case sort_key (\<lambda>t. - t) (map row_created_at (live_in_channel db c ch)) of [] \<Rightarrow> None | t # _ \<Rightarrow> Some t)"

definition get_last_message_at_bulk :: "event_db \<Rightarrow> uuid \<Rightarrow> uuid list \<Rightarrow> uuid \<rightharpoonup> int" where
  "get_last_message_at_bulk db c chs =
     (\<lambda>ch. if ch \<in> set chs \<and> live_in_channel db c ch \<noteq> []
           then Some (Max (set (map row_created_at (live_in_channel db c ch)))) else None)"

section \<open>Reactions\<close>

definition same_reaction :: "uuid \<Rightarrow> int \<Rightarrow> string \<Rightarrow> string \<Rightarrow> string \<Rightarrow> reaction_row \<Rightarrow> bool" where
  "same_reaction c created_at event_id pubkey emoji x =
     (rx_community_id x = c \<and> rx_event_created_at x = created_at \<and> rx_event_id x = event_id \<and>
      rx_pubkey x = pubkey \<and> rx_emoji x = emoji)"

text \<open>
  \<open>ADD_REACTION_SQL\<close>: a new row, or a removed row made active again; an active row is left alone. The
  unique index on the source event makes the statement fail when another row already has it.
\<close>

definition add_reaction ::
  "nat \<Rightarrow> reaction_row list \<Rightarrow> uuid \<Rightarrow> string \<Rightarrow> int \<Rightarrow> string \<Rightarrow> string \<Rightarrow> string option
   \<Rightarrow> db_error + bool \<times> reaction_row list" where
  "add_reaction now xs c event_id created_at pubkey emoji source =
     (let same = same_reaction c created_at event_id pubkey emoji;
          clash = (source \<noteq> None \<and> list_ex (\<lambda>x. \<not> same x \<and> rx_community_id x = c \<and> rx_reaction_event_id x = source) xs)
      in if \<not> list_ex same xs
         then (if clash then Inl (Sqlx ''duplicate key value violates unique constraint'')
               else Inr (True, xs @ [\<lparr>rx_community_id = c, rx_event_created_at = created_at, rx_event_id = event_id,
                    rx_pubkey = pubkey, rx_emoji = emoji, rx_created_at = now, rx_removed_at = None,
                    rx_reaction_event_id = source\<rparr>]))
         else if list_ex (\<lambda>x. same x \<and> rx_removed_at x \<noteq> None) xs
         then (if clash then Inl (Sqlx ''duplicate key value violates unique constraint'')
               else Inr (True, map (\<lambda>x. if same x \<and> rx_removed_at x \<noteq> None
                 then x\<lparr>rx_created_at := now, rx_removed_at := None,
                        rx_reaction_event_id := (case source of None \<Rightarrow> rx_reaction_event_id x | Some s \<Rightarrow> Some s)\<rparr>
                 else x) xs))
         else Inr (False, xs))"

definition remove_where :: "nat \<Rightarrow> (reaction_row \<Rightarrow> bool) \<Rightarrow> reaction_row list \<Rightarrow> bool \<times> reaction_row list" where
  "remove_where now p xs =
     (list_ex (\<lambda>x. p x \<and> rx_removed_at x = None) xs,
      map (\<lambda>x. if p x \<and> rx_removed_at x = None then x\<lparr>rx_removed_at := Some now\<rparr> else x) xs)"

definition remove_reaction ::
  "nat \<Rightarrow> reaction_row list \<Rightarrow> uuid \<Rightarrow> string \<Rightarrow> int \<Rightarrow> string \<Rightarrow> string \<Rightarrow> bool \<times> reaction_row list" where
  "remove_reaction now xs c event_id created_at pubkey emoji =
     remove_where now (same_reaction c created_at event_id pubkey emoji) xs"

definition remove_reaction_by_source_event_id :: "nat \<Rightarrow> reaction_row list \<Rightarrow> uuid \<Rightarrow> string \<Rightarrow> bool \<times> reaction_row list" where
  "remove_reaction_by_source_event_id now xs c source =
     remove_where now (\<lambda>x. rx_community_id x = c \<and> rx_reaction_event_id x = Some source) xs"

definition get_active_reaction_record ::
  "reaction_row list \<Rightarrow> uuid \<Rightarrow> string \<Rightarrow> int \<Rightarrow> string \<Rightarrow> string \<Rightarrow> string option option" where
  "get_active_reaction_record xs c event_id created_at pubkey emoji =
     map_option rx_reaction_event_id
       (find (\<lambda>x. same_reaction c created_at event_id pubkey emoji x \<and> rx_removed_at x = None) xs)"

datatype reaction_insert_outcome = TargetMissing | DuplicateReaction | ReactionInserted stored_event bool

definition insert_reaction_event_with_thread_metadata ::
  "(int \<Rightarrow> bool) \<Rightarrow> nat \<Rightarrow> thread_db \<Rightarrow> uuid \<Rightarrow> event \<Rightarrow> uuid option \<Rightarrow> thread_params option \<Rightarrow> string \<Rightarrow> string \<Rightarrow> string
   \<Rightarrow> db_error + reaction_insert_outcome \<times> thread_db" where
  "insert_reaction_event_with_thread_metadata from_timestamp now db c e channel_id thread_meta target actor emoji =
     (case sort_key (\<lambda>t. - t) (map row_created_at
             (filter (\<lambda>r. row_community_id r = c \<and> row_id r = target \<and> row_deleted_at r = None) (db_events (td_events db)))) of
        [] \<Rightarrow> Inr (TargetMissing, db)
      | target_created_at # _ \<Rightarrow>
          and_then (add_reaction now (td_reactions db) c target target_created_at actor emoji (Some (ev_id e))) (\<lambda>(added, xs).
          if \<not> added then Inr (DuplicateReaction, db)
          else
            and_then (insert_event_with_thread_metadata_tx from_timestamp now (db\<lparr>td_reactions := xs\<rparr>) c e channel_id thread_meta)
              (\<lambda>((stored, was_inserted), db'). Inr (ReactionInserted stored was_inserted, db'))))"

end
