(* ===== verification/Thread_Counters.thy ===== *)
theory Thread_Counters
  imports Thread_Store "HOL-Library.Multiset"
begin

text \<open>
  The reply and descendant counters of \<open>thread_metadata\<close>. The transactions of crates/buzz-db/src/event.rs
  raise them when a reply is stored and lower them when an event is deleted; here they are shown to
  be the number of live replies below an event in every database these transactions build.
\<close>

section \<open>Counters\<close>

text \<open>The rows of a community that link to an event and whose own event is live.\<close>

definition linked :: "(thread_row \<Rightarrow> string option) \<Rightarrow> (uuid \<times> int \<times> string) set \<Rightarrow> thread_row list \<Rightarrow> uuid \<Rightarrow> string \<Rightarrow> int" where
  "linked sel live ts c i =
     int (length (filter (\<lambda>t. th_community_id t = c \<and> sel t = Some i \<and> thread_key t \<in> live) ts))"

definition live_keys :: "event_db \<Rightarrow> (uuid \<times> int \<times> string) set" where
  "live_keys db = row_key ` {r \<in> set (db_events db). row_deleted_at r = None}"

definition counts_exact :: "(uuid \<times> int \<times> string) set \<Rightarrow> thread_row list \<Rightarrow> bool" where
  "counts_exact live ts \<longleftrightarrow> (\<forall>t \<in> set ts.
     th_reply_count t = linked th_parent_event_id live ts (th_community_id t) (th_event_id t) \<and>
     th_descendant_count t = linked th_root_event_id live ts (th_community_id t) (th_event_id t))"

lemma linked_append: "linked sel live (ts @ us) c i = linked sel live ts c i + linked sel live us c i"
  by (simp add: linked_def)

lemma linked_Nil [simp]: "linked sel live [] c i = 0"
  by (simp add: linked_def)

lemma linked_nonneg: "0 \<le> linked sel live ts c i"
  by (simp add: linked_def)

lemma linked_single: "linked sel live [t] c i = (if th_community_id t = c \<and> sel t = Some i \<and> thread_key t \<in> live then 1 else 0)"
  by (simp add: linked_def)

lemma linked_cong:
  "(\<And>t. t \<in> set ts \<Longrightarrow> sel t \<noteq> None \<Longrightarrow> thread_key t \<in> live \<longleftrightarrow> thread_key t \<in> live') \<Longrightarrow> linked sel live ts c i = linked sel live' ts c i"
  unfolding linked_def by (intro arg_cong [where f = "\<lambda>xs. int (length xs)"] filter_cong) auto

lemma linked_zero: "(\<And>t. t \<in> set ts \<Longrightarrow> th_community_id t = c \<Longrightarrow> sel t \<noteq> Some i) \<Longrightarrow> linked sel live ts c i = 0"
  by (auto simp: linked_def filter_empty_conv)

text \<open>Changes of the counters only.\<close>

definition counter_update :: "(thread_row \<Rightarrow> thread_row) \<Rightarrow> bool" where
  "counter_update f \<longleftrightarrow> (\<forall>t. th_community_id (f t) = th_community_id t \<and> th_event_id (f t) = th_event_id t \<and>
     th_event_created_at (f t) = th_event_created_at t \<and>
     th_parent_event_id (f t) = th_parent_event_id t \<and> th_root_event_id (f t) = th_root_event_id t)"

lemma counter_updates [simp]:
  "counter_update (bump_reply now)" "counter_update bump_descendant"
  "counter_update drop_reply" "counter_update drop_descendant"
  by (simp_all add: counter_update_def bump_reply_def bump_descendant_def drop_reply_def drop_descendant_def)

lemma counter_update_map:
  assumes "counter_update f"
  shows "map thread_key (update_thread c i f ts) = map thread_key ts"
    and "linked th_parent_event_id live (update_thread c i f ts) d j = linked th_parent_event_id live ts d j"
    and "linked th_root_event_id live (update_thread c i f ts) d j = linked th_root_event_id live ts d j"
  using assms
  by (induction ts) (auto simp: counter_update_def update_thread_def thread_key_def linked_def)

lemma counts_exact_adjust:
  assumes "counts_exact live ts"
    and parent: "\<And>c i. linked th_parent_event_id live' us c i = linked th_parent_event_id live ts c i + (if c = cc \<and> i = p then k else 0)"
    and root: "\<And>c i. linked th_root_event_id live' us c i = linked th_root_event_id live ts c i + (if c = cc \<and> i = r then k else 0)"
    and us: "\<And>u. u \<in> set us \<Longrightarrow> \<exists>t \<in> set ts. th_community_id u = th_community_id t \<and> th_event_id u = th_event_id t \<and>
       th_reply_count u = th_reply_count t + (if th_community_id t = cc \<and> th_event_id t = p then k else 0) \<and>
       th_descendant_count u = th_descendant_count t + (if th_community_id t = cc \<and> th_event_id t = r then k else 0)"
  shows "counts_exact live' us"
  unfolding counts_exact_def
proof
  fix u assume "u \<in> set us"
  from us [OF this] obtain t where "t \<in> set ts" "th_community_id u = th_community_id t" "th_event_id u = th_event_id t"
    "th_reply_count u = th_reply_count t + (if th_community_id t = cc \<and> th_event_id t = p then k else 0)"
    "th_descendant_count u = th_descendant_count t + (if th_community_id t = cc \<and> th_event_id t = r then k else 0)" by blast
  with assms(1) show "th_reply_count u = linked th_parent_event_id live' us (th_community_id u) (th_event_id u) \<and>
     th_descendant_count u = linked th_root_event_id live' us (th_community_id u) (th_event_id u)"
    by (simp add: counts_exact_def parent root)
qed

lemma linked_increment:
  "linked th_parent_event_id live (increment_reply_count now c p (Some r) ts) d i = linked th_parent_event_id live ts d i"
  "linked th_root_event_id live (increment_reply_count now c p (Some r) ts) d i = linked th_root_event_id live ts d i"
  "map thread_key (increment_reply_count now c p (Some r) ts) = map thread_key ts"
  by (simp_all add: increment_reply_count_def update_root_def counter_update_map)

lemma linked_decrement:
  "linked th_parent_event_id live (decrement_reply_count c p (Some r) ts) d i = linked th_parent_event_id live ts d i"
  "linked th_root_event_id live (decrement_reply_count c p (Some r) ts) d i = linked th_root_event_id live ts d i"
  "map thread_key (decrement_reply_count c p (Some r) ts) = map thread_key ts"
  by (simp_all add: decrement_reply_count_def update_root_def counter_update_map)

lemma increment_row:
  assumes "u \<in> set (increment_reply_count now c p (Some r) ts)"
  shows "\<exists>t \<in> set ts. th_community_id u = th_community_id t \<and> th_event_id u = th_event_id t \<and>
       th_reply_count u = th_reply_count t + (if th_community_id t = c \<and> th_event_id t = p then 1 else 0) \<and>
       th_descendant_count u = th_descendant_count t + (if th_community_id t = c \<and> th_event_id t = r then 1 else 0)"
proof -
  from assms obtain t where t: "t \<in> set ts" "u = (let t' = (if th_community_id t = c \<and> th_event_id t = p then bump_reply now t else t)
      in if th_community_id t' = c \<and> th_event_id t' = r then bump_descendant t' else t')"
    by (auto simp: increment_reply_count_def update_root_def update_thread_def Let_def)
  show ?thesis
    by (rule bexI [OF _ t(1)]) (simp add: t(2) Let_def bump_reply_def bump_descendant_def)
qed

lemma decrement_row:
  assumes "u \<in> set (decrement_reply_count c p (Some r) ts)"
    and pos: "\<And>t. t \<in> set ts \<Longrightarrow> th_community_id t = c \<Longrightarrow> th_event_id t = p \<Longrightarrow> 0 < th_reply_count t"
      "\<And>t. t \<in> set ts \<Longrightarrow> th_community_id t = c \<Longrightarrow> th_event_id t = r \<Longrightarrow> 0 < th_descendant_count t"
  shows "\<exists>t \<in> set ts. th_community_id u = th_community_id t \<and> th_event_id u = th_event_id t \<and>
       th_reply_count u = th_reply_count t + (if th_community_id t = c \<and> th_event_id t = p then -1 else 0) \<and>
       th_descendant_count u = th_descendant_count t + (if th_community_id t = c \<and> th_event_id t = r then -1 else 0)"
proof -
  from assms obtain t where t: "t \<in> set ts" "u = (let t' = (if th_community_id t = c \<and> th_event_id t = p then drop_reply t else t)
      in if th_community_id t' = c \<and> th_event_id t' = r then drop_descendant t' else t')"
    by (auto simp: decrement_reply_count_def update_root_def update_thread_def Let_def)
  show ?thesis
    by (rule bexI [OF _ t(1)]) (use pos [OF t(1)] in \<open>auto simp: t(2) Let_def drop_reply_def drop_descendant_def\<close>)
qed


section \<open>The invariant\<close>

definition ids_once :: "event_row list \<Rightarrow> bool" where
  "ids_once rows \<longleftrightarrow> (\<forall>r \<in> set rows. \<forall>s \<in> set rows.
     row_community_id r = row_community_id s \<longrightarrow> row_id r = row_id s \<longrightarrow> row_created_at r = row_created_at s)"

definition has_row :: "thread_row list \<Rightarrow> uuid \<Rightarrow> string \<Rightarrow> bool" where
  "has_row ts c i \<longleftrightarrow> (\<exists>u \<in> set ts. th_community_id u = c \<and> th_event_id u = i)"

definition links_ok :: "thread_row list \<Rightarrow> bool" where
  "links_ok ts \<longleftrightarrow> (\<forall>t \<in> set ts. (th_parent_event_id t = None \<longleftrightarrow> th_root_event_id t = None) \<and>
     (\<forall>i. th_parent_event_id t = Some i \<longrightarrow> has_row ts (th_community_id t) i) \<and>
     (\<forall>i. th_root_event_id t = Some i \<longrightarrow> has_row ts (th_community_id t) i))"

definition threads_ok :: "thread_db \<Rightarrow> bool" where
  "threads_ok db \<longleftrightarrow>
     distinct (map thread_key (td_threads db)) \<and>
     thread_key ` set (td_threads db) \<subseteq> row_key ` set (db_events (td_events db)) \<and>
     ids_once (db_events (td_events db)) \<and> links_ok (td_threads db) \<and>
     counts_exact (live_keys (td_events db)) (td_threads db)"

lemma threads_okD:
  assumes "threads_ok db"
  shows "distinct (map thread_key (td_threads db))"
    and "thread_key ` set (td_threads db) \<subseteq> row_key ` set (db_events (td_events db))"
    and "ids_once (db_events (td_events db))" and "links_ok (td_threads db)"
    and "counts_exact (live_keys (td_events db)) (td_threads db)"
  using assms by (simp_all add: threads_ok_def)

lemma ids_onceD:
  assumes "ids_once rows" "r \<in> set rows" "s \<in> set rows" "row_community_id r = row_community_id s" "row_id r = row_id s"
  shows "row_key r = row_key s"
proof -
  have "row_created_at r = row_created_at s" using assms unfolding ids_once_def by blast
  then show ?thesis by (simp add: row_key_def assms(4,5))
qed

lemma ids_once_keys: "ids_once rows \<longleftrightarrow> (\<forall>k \<in> row_key ` set rows. \<forall>l \<in> row_key ` set rows.
    fst k = fst l \<longrightarrow> snd (snd k) = snd (snd l) \<longrightarrow> fst (snd k) = fst (snd l))"
  by (simp add: ids_once_def row_key_def)

lemma row_key_parts: "row_key r = (c, t, i) \<longleftrightarrow> row_community_id r = c \<and> row_created_at r = t \<and> row_id r = i"
  by (auto simp: row_key_def)

lemma image_subset_obtain: "f ` A \<subseteq> g ` B \<Longrightarrow> a \<in> A \<Longrightarrow> \<exists>b \<in> B. g b = f a"
  by (metis imageE imageI subsetD)

lemma threads_ok_key:
  assumes "threads_ok db" "t \<in> set (td_threads db)"
  obtains r where "r \<in> set (db_events (td_events db))" "row_key r = thread_key t"
proof -
  have "thread_key t \<in> row_key ` set (db_events (td_events db))" using threads_okD(2) [OF assms(1)] assms(2) by blast
  then show thesis by (rule imageE) (simp add: that)
qed

lemma threads_ok_created:
  assumes "threads_ok db" "t \<in> set (td_threads db)" "r \<in> set (db_events (td_events db))"
    "row_community_id r = th_community_id t" "row_id r = th_event_id t"
  shows "row_key r = thread_key t"
proof -
  obtain s where s: "s \<in> set (db_events (td_events db))" "row_key s = thread_key t" by (rule threads_ok_key [OF assms(1,2)])
  then have "row_community_id s = th_community_id t" "row_id s = th_event_id t" by (simp_all add: row_key_def thread_key_def)
  with s assms show ?thesis using ids_onceD [OF threads_okD(3) [OF assms(1)] assms(3) s(1)] by simp
qed

text \<open>Nothing links to an event of the community that has no row of its own.\<close>

lemma links_ok_unlinked:
  assumes "links_ok ts" and "\<not> has_row ts c i"
  shows "linked th_parent_event_id live ts c i = 0" "linked th_root_event_id live ts c i = 0"
  using assms unfolding links_ok_def by (metis (mono_tags, lifting) linked_zero)+

lemma live_keys_insert:
  assumes "insert_event valid now db c e ch = Inr ((s, ins), db')"
  shows "live_keys db' = (if ins then insert (c, secs_as_i64 (ev_created_at e), ev_id e) (live_keys db) else live_keys db)"
    and "row_key ` set (db_events db') =
      (if ins then insert (c, secs_as_i64 (ev_created_at e), ev_id e) (row_key ` set (db_events db)) else row_key ` set (db_events db))"
    and "ins \<Longrightarrow> (c, secs_as_i64 (ev_created_at e), ev_id e) \<notin> row_key ` set (db_events db)"
    and "r \<in> set (db_events db') \<Longrightarrow> r \<in> set (db_events db) \<or> row_key r = (c, secs_as_i64 (ev_created_at e), ev_id e)"
proof -
  from assms obtain row where row: "row_key row = (c, secs_as_i64 (ev_created_at e), ev_id e)" "row_deleted_at row = None"
    "ins \<longleftrightarrow> row_key row \<notin> row_key ` set (db_events db)"
    "db' = (if ins then db\<lparr>db_events := db_events db @ [row]\<rparr> else db)"
    by (rule insert_event_Inr) simp
  show "live_keys db' = (if ins then insert (c, secs_as_i64 (ev_created_at e), ev_id e) (live_keys db) else live_keys db)"
  proof -
    have "{r \<in> set (db_events db @ [row]). row_deleted_at r = None} = insert row {r \<in> set (db_events db). row_deleted_at r = None}"
      using row(2) by auto
    then show ?thesis using row(1) by (simp add: row(4) live_keys_def)
  qed
  show "row_key ` set (db_events db') =
      (if ins then insert (c, secs_as_i64 (ev_created_at e), ev_id e) (row_key ` set (db_events db)) else row_key ` set (db_events db))"
    using row(1) unfolding row(4) by simp
  show "ins \<Longrightarrow> (c, secs_as_i64 (ev_created_at e), ev_id e) \<notin> row_key ` set (db_events db)" using row(1,3) by simp
  show "r \<in> set (db_events db') \<Longrightarrow> r \<in> set (db_events db) \<or> row_key r = (c, secs_as_i64 (ev_created_at e), ev_id e)"
    using row(1) unfolding row(4) by (auto split: if_splits)
qed

text \<open>The id of an event determines when it was created.\<close>

definition same_created :: "thread_db \<Rightarrow> uuid \<Rightarrow> event \<Rightarrow> bool" where
  "same_created db c e \<longleftrightarrow> (\<forall>r \<in> set (db_events (td_events db)).
     row_community_id r = c \<and> row_id r = ev_id e \<longrightarrow> row_created_at r = secs_as_i64 (ev_created_at e))"

definition event_at :: "thread_db \<Rightarrow> uuid \<Rightarrow> int \<Rightarrow> string \<Rightarrow> bool" where
  "event_at db c created_at i \<longleftrightarrow> (c, created_at, i) \<in> row_key ` set (db_events (td_events db))"

inductive thread_step :: "(int \<Rightarrow> bool) \<Rightarrow> thread_db \<Rightarrow> thread_db \<Rightarrow> bool" for valid where
  posted: "insert_event_with_thread_metadata valid now db c e ch None = Inr (res, db') \<Longrightarrow> same_created db c e \<Longrightarrow>
    thread_step valid db db'"
| replied: "insert_event_with_thread_metadata valid now db c e ch (Some m) = Inr (res, db') \<Longrightarrow> same_created db c e \<Longrightarrow>
    tp_event_id m = ev_id e \<Longrightarrow> tp_event_created_at m = secs_as_i64 (ev_created_at e) \<Longrightarrow>
    tp_parent_event_id m = Some p \<Longrightarrow> tp_parent_event_created_at m = Some pt \<Longrightarrow> event_at db c pt p \<Longrightarrow>
    tp_root_event_id m = Some r \<Longrightarrow> tp_root_event_created_at m = Some rt \<Longrightarrow> event_at db c rt r \<Longrightarrow>
    thread_step valid db db'"
| reacted: "insert_reaction_event_with_thread_metadata valid now db c e ch None target actor emoji = Inr (outcome, db') \<Longrightarrow>
    same_created db c e \<Longrightarrow> thread_step valid db db'"
| deleted: "meta = get_thread_metadata_by_event db c i \<Longrightarrow>
    soft_delete_event_and_update_thread now db c i (Option.bind meta th_parent_event_id) (Option.bind meta th_root_event_id) = (hit, db') \<Longrightarrow>
    thread_step valid db db'"

lemma ids_insert:
  assumes ok: "threads_ok db" and ins: "insert_event valid now (td_events db) c e ch = Inr ((s, ins), ev')"
    and sc: "same_created db c e"
  shows "ids_once (db_events ev')"
  unfolding ids_once_def
proof (intro ballI impI)
  fix r s assume rs: "r \<in> set (db_events ev')" "s \<in> set (db_events ev')"
    and same: "row_community_id r = row_community_id s" "row_id r = row_id s"
  let ?old = "\<lambda>x. x \<in> set (db_events (td_events db))" and ?new = "\<lambda>x. row_key x = (c, secs_as_i64 (ev_created_at e), ev_id e)"
  consider "?old r" "?old s" | "?old r" "?new s" | "?new r" "?old s" | "?new r" "?new s"
    using live_keys_insert(4) [OF ins rs(1)] live_keys_insert(4) [OF ins rs(2)] by blast
  then show "row_created_at r = row_created_at s"
  proof cases
    case 1
    with same threads_okD(3) [OF ok] show ?thesis unfolding ids_once_def by blast
  qed (use same sc in \<open>simp_all add: row_key_parts same_created_def\<close>)
qed

lemma threads_ok_posted:
  assumes ok: "threads_ok db" and ins: "insert_event valid now (td_events db) c e ch = Inr ((s, ins), ev')"
    and sc: "same_created db c e"
  shows "threads_ok (db\<lparr>td_events := ev'\<rparr>)"
proof -
  have "thread_key t \<in> live_keys ev' \<longleftrightarrow> thread_key t \<in> live_keys (td_events db)" if "t \<in> set (td_threads db)" for t
    using threads_okD(2) [OF ok] that live_keys_insert(1,3) [OF ins] by (metis image_subset_iff insert_iff)
  then have "linked sel (live_keys ev') (td_threads db) d i = linked sel (live_keys (td_events db)) (td_threads db) d i" for sel d i
    by (intro linked_cong)
  moreover have "thread_key ` set (td_threads db) \<subseteq> row_key ` set (db_events ev')"
    using threads_okD(2) [OF ok] live_keys_insert(2) [OF ins] by auto
  ultimately show ?thesis
    using threads_okD [OF ok] ids_insert [OF ok ins sc] by (simp add: threads_ok_def counts_exact_def)
qed


lemma add_thread_row_laws:
  assumes "add_thread_row t ts = (added, us)"
  shows "us = (if added then ts @ [t] else ts)" and "added \<longleftrightarrow> thread_key t \<notin> thread_key ` set ts"
proof -
  have "list_ex (\<lambda>u. thread_key u = thread_key t) ts \<longleftrightarrow> thread_key t \<in> thread_key ` set ts"
    by (induction ts) auto
  then show "us = (if added then ts @ [t] else ts)" "added \<longleftrightarrow> thread_key t \<notin> thread_key ` set ts"
    using assms by (auto simp: add_thread_row_def split: if_splits)
qed

lemma stub_row_facts [simp]:
  "thread_key (stub_row c t i ch) = (c, t, i)" "th_parent_event_id (stub_row c t i ch) = None"
  "th_root_event_id (stub_row c t i ch) = None" "th_reply_count (stub_row c t i ch) = 0"
  "th_descendant_count (stub_row c t i ch) = 0" "th_community_id (stub_row c t i ch) = c" "th_event_id (stub_row c t i ch) = i"
  by (simp_all add: stub_row_def thread_key_def)

text \<open>Adding a stub for an event that is there keeps what the thread rows promise.\<close>

definition rows_ok :: "event_row list \<Rightarrow> (uuid \<times> int \<times> string) set \<Rightarrow> thread_row list \<Rightarrow> bool" where
  "rows_ok rows live ts \<longleftrightarrow> distinct (map thread_key ts) \<and> thread_key ` set ts \<subseteq> row_key ` set rows \<and> links_ok ts \<and>
     counts_exact live ts"

lemma no_row:
  assumes rows: "thread_key ` set ts \<subseteq> row_key ` set rows" and ids: "ids_once rows"
    and key: "(c, t, i) \<in> row_key ` set rows" "(c, t, i) \<notin> thread_key ` set ts"
  shows "\<not> has_row ts c i"
proof
  assume "has_row ts c i"
  then obtain u where u: "u \<in> set ts" "th_community_id u = c" "th_event_id u = i" by (auto simp: has_row_def)
  from image_subset_obtain [OF rows u(1)] obtain r where r: "r \<in> set rows" "row_key r = thread_key u" by blast
  from key(1) obtain s where s: "s \<in> set rows" "row_key s = (c, t, i)" by (metis imageE)
  have "row_community_id r = row_community_id s" "row_id r = row_id s"
    using r s u by (simp_all add: row_key_def thread_key_def)
  then have "row_key r = row_key s" by (rule ids_onceD [OF ids r(1) s(1)])
  with r s u key(2) show False by (metis imageI)
qed

lemma rows_ok_stub:
  assumes ok: "rows_ok rows live ts" and ids: "ids_once rows" and key: "(c, t, i) \<in> row_key ` set rows"
  shows "rows_ok rows live (snd (add_thread_row (stub_row c t i ch) ts))"
    and "has_row (snd (add_thread_row (stub_row c t i ch) ts)) c i"
    and "has_row ts d j \<Longrightarrow> has_row (snd (add_thread_row (stub_row c t i ch) ts)) d j"
proof -
  obtain added us where a: "add_thread_row (stub_row c t i ch) ts = (added, us)" by fastforce
  note l = add_thread_row_laws [OF a]
  have sub: "set ts \<subseteq> set us" using l(1) by auto
  show hr: "has_row ts d j \<Longrightarrow> has_row (snd (add_thread_row (stub_row c t i ch) ts)) d j" for d j
    using sub by (auto simp: a has_row_def)
  show "has_row (snd (add_thread_row (stub_row c t i ch) ts)) c i"
  proof (cases added)
    case False
    then obtain u where "u \<in> set ts" "thread_key u = (c, t, i)" using l(2) by (auto simp: image_iff)
    then have "has_row ts c i" by (auto simp: has_row_def thread_key_def)
    with hr show ?thesis by blast
  qed (simp add: a l(1) has_row_def)
  show "rows_ok rows live (snd (add_thread_row (stub_row c t i ch) ts))"
  proof (cases added)
    case True
    then have new: "(c, t, i) \<notin> thread_key ` set ts" "us = ts @ [stub_row c t i ch]" using l by simp_all
    have none: "\<not> has_row ts c i"
      using ok ids key new(1) by (intro no_row [of ts rows]) (simp_all add: rows_ok_def)
    have "links_ok us"
      using ok hr unfolding links_ok_def rows_ok_def a new(2) by (auto simp: has_row_def)
    moreover have "counts_exact live us"
      using ok links_ok_unlinked [OF _ none, of live] unfolding counts_exact_def rows_ok_def new(2)
      by (simp add: linked_append linked_single)
    ultimately show ?thesis using ok new key by (auto simp: rows_ok_def a)
  qed (use ok a l in simp)
qed


text \<open>The order of the rows does not matter.\<close>

lemma linked_mset:
  assumes "mset ts = mset us"
  shows "linked sel live ts c i = linked sel live us c i"
proof -
  have "size (mset (filter P ts)) = size (mset (filter P us))" for P using assms by (simp only: mset_filter)
  then show ?thesis by (simp only: linked_def size_mset)
qed

lemma rows_ok_mset:
  assumes "rows_ok rows live ts" and eq: "mset ts = mset us"
  shows "rows_ok rows live us"
proof -
  have set: "set us = set ts" by (rule mset_eq_setD [OF eq [symmetric]])
  have "distinct (map thread_key us) \<longleftrightarrow> distinct (map thread_key ts)"
    using eq by (metis mset_eq_imp_distinct_iff mset_map)
  with assms(1) show ?thesis
    unfolding rows_ok_def links_ok_def counts_exact_def has_row_def set linked_mset [OF eq] by blast
qed

lemma add_thread_row_commute:
  "thread_key s \<noteq> thread_key n \<Longrightarrow> mset ts = mset us + {#n#} \<Longrightarrow>
     mset (snd (add_thread_row s ts)) = mset (snd (add_thread_row s us)) + {#n#}"
proof -
  assume ne: "thread_key s \<noteq> thread_key n" and eq: "mset ts = mset us + {#n#}"
  have "set ts = insert n (set us)" by (metis eq set_mset_mset add_mset_add_single set_mset_add_mset_insert)
  with ne have "list_ex (\<lambda>u. thread_key u = thread_key s) ts = list_ex (\<lambda>u. thread_key u = thread_key s) us"
    unfolding list_ex_iff by (metis insert_iff)
  with eq show ?thesis by (simp add: add_thread_row_def)
qed

lemma add_stubs_laws:
  assumes ok: "rows_ok rows live ts" and ids: "ids_once rows"
    and m: "tp_parent_event_created_at m = Some pt" "tp_root_event_id m = Some r" "tp_root_event_created_at m = Some rt"
    and keys: "(c, pt, p) \<in> row_key ` set rows" "(c, rt, r) \<in> row_key ` set rows"
  shows "rows_ok rows live (add_stubs c m p ts)" and "has_row (add_stubs c m p ts) c p" and "has_row (add_stubs c m p ts) c r"
proof -
  let ?us = "snd (add_thread_row (stub_row c pt p (tp_channel_id m)) ts)"
  note a = rows_ok_stub [OF ok ids keys(1), where ch = "tp_channel_id m"]
  note b = rows_ok_stub [OF a(1) ids keys(2), where ch = "tp_channel_id m"]
  have st: "add_stubs c m p ts = (if r = p then ?us else snd (add_thread_row (stub_row c rt r (tp_channel_id m)) ?us))"
    by (simp add: add_stubs_def m Let_def)
  show "rows_ok rows live (add_stubs c m p ts)" using a(1) b(1) by (simp add: st)
  show "has_row (add_stubs c m p ts) c p" using a(2) b(3) by (simp add: st)
  show "has_row (add_stubs c m p ts) c r" using a(2) b(2) by (cases "r = p") (simp_all add: st)
qed

lemma add_stubs_commute:
  assumes m: "tp_parent_event_created_at m = Some pt" "tp_root_event_id m = Some r" "tp_root_event_created_at m = Some rt"
    and "thread_key n \<noteq> (c, pt, p)" "thread_key n \<noteq> (c, rt, r)"
  shows "mset (add_stubs c m p (ts @ [n])) = mset (add_stubs c m p ts @ [n])"
proof -
  let ?s = "stub_row c pt p (tp_channel_id m)" and ?t = "stub_row c rt r (tp_channel_id m)"
  have a: "mset (snd (add_thread_row ?s (ts @ [n]))) = mset (snd (add_thread_row ?s ts)) + {#n#}"
    using assms(4) by (intro add_thread_row_commute) auto
  have "mset (snd (add_thread_row ?t (snd (add_thread_row ?s (ts @ [n]))))) = mset (snd (add_thread_row ?t (snd (add_thread_row ?s ts)))) + {#n#}"
    using assms(5) by (intro add_thread_row_commute a) auto
  with a show ?thesis by (simp add: add_stubs_def m Let_def)
qed

lemma rows_ok_reply:
  assumes ok: "rows_ok rows live ts" and ids: "ids_once rows" and sub: "live \<subseteq> row_key ` set rows"
    and n: "thread_key n \<notin> row_key ` set rows" "th_reply_count n = 0" "th_descendant_count n = 0"
      "th_parent_event_id n = Some p" "th_root_event_id n = Some r" "th_community_id n = c"
    and fresh: "\<not> has_row ts c (th_event_id n)" and pr: "has_row ts c p" "has_row ts c r"
    and rows': "row_key ` set rows' = insert (thread_key n) (row_key ` set rows)"
  shows "rows_ok rows' live (ts @ [n])"
proof -
  have "thread_key n \<notin> live" using sub n(1) by blast
  then have l: "linked sel live [n] d i = 0" for sel d i by (simp add: linked_single)
  have "links_ok ts" using ok by (simp add: rows_ok_def)
  then have "links_ok (ts @ [n])" using pr unfolding links_ok_def has_row_def by (auto simp: n)
  moreover have "counts_exact live (ts @ [n])"
    using ok links_ok_unlinked [OF \<open>links_ok ts\<close> fresh, of live] unfolding counts_exact_def rows_ok_def
    by (simp add: linked_append l n)
  ultimately show ?thesis using ok n(1) rows' by (auto simp: rows_ok_def)
qed


lemma links_ok_update:
  assumes "counter_update f"
  shows "links_ok (update_thread c i f ts) = links_ok ts"
proof -
  let ?g = "\<lambda>t. if th_community_id t = c \<and> th_event_id t = i then f t else t"
  have g: "th_community_id (?g t) = th_community_id t" "th_event_id (?g t) = th_event_id t"
    "th_parent_event_id (?g t) = th_parent_event_id t" "th_root_event_id (?g t) = th_root_event_id t" for t
    using assms by (simp_all add: counter_update_def)
  have "has_row (map ?g ts) d j = has_row ts d j" for d j by (simp only: has_row_def set_map bex_simps g)
  then show ?thesis by (simp only: update_thread_def links_ok_def set_map ball_simps g)
qed

lemma links_ok_counts:
  "links_ok (increment_reply_count now c p (Some r) ts) = links_ok ts"
  "links_ok (decrement_reply_count c p (Some r) ts) = links_ok ts"
  by (simp_all add: increment_reply_count_def decrement_reply_count_def update_root_def links_ok_update)

lemma threads_ok_rows: "threads_ok db \<longleftrightarrow> ids_once (db_events (td_events db)) \<and>
    rows_ok (db_events (td_events db)) (live_keys (td_events db)) (td_threads db)"
  by (auto simp: threads_ok_def rows_ok_def)

lemma live_keys_sub: "live_keys db \<subseteq> row_key ` set (db_events db)"
  by (auto simp: live_keys_def)

lemma rows_ok_increment:
  assumes ok: "rows_ok rows live us" and eq: "mset us = mset (vs @ [n])"
    and n: "thread_key n \<notin> live" "thread_key n \<notin> thread_key ` set vs"
      "th_parent_event_id n = Some p" "th_root_event_id n = Some r" "th_community_id n = c"
  shows "rows_ok rows (insert (thread_key n) live) (increment_reply_count now c p (Some r) us)"
proof -
  let ?live = "insert (thread_key n) live" and ?us = "increment_reply_count now c p (Some r) us"
  have vs: "linked sel ?live vs d i = linked sel live vs d i" for sel d i
    by (rule linked_cong) (metis n(2) imageI insert_iff)
  have add: "linked sel ?live us d i = linked sel live us d i + linked sel ?live [n] d i" for sel d i
    using n(1) by (simp add: linked_mset [OF eq] linked_append vs linked_single)
  have "counts_exact ?live ?us"
  proof (rule counts_exact_adjust [where ts = us and k = 1 and cc = c and p = p and r = r and live = live])
    show "counts_exact live us" using ok by (simp add: rows_ok_def)
    fix u assume "u \<in> set ?us"
    then show "\<exists>t \<in> set us. th_community_id u = th_community_id t \<and> th_event_id u = th_event_id t \<and>
       th_reply_count u = th_reply_count t + (if th_community_id t = c \<and> th_event_id t = p then 1 else 0) \<and>
       th_descendant_count u = th_descendant_count t + (if th_community_id t = c \<and> th_event_id t = r then 1 else 0)"
      by (rule increment_row)
  qed (auto simp: linked_increment add linked_single n)
  moreover have "thread_key ` set ?us = thread_key ` set us" by (metis linked_increment(3) set_map)
  ultimately show ?thesis using ok by (simp add: rows_ok_def linked_increment links_ok_counts)
qed

lemma threads_ok_replied:
  assumes ok: "threads_ok db" and ins: "insert_event valid now (td_events db) c e ch = Inr ((s, True), ev')"
    and sc: "same_created db c e"
    and m: "tp_event_id m = ev_id e" "tp_event_created_at m = secs_as_i64 (ev_created_at e)"
      "tp_parent_event_id m = Some p" "tp_parent_event_created_at m = Some pt" "event_at db c pt p"
      "tp_root_event_id m = Some r" "tp_root_event_created_at m = Some rt" "event_at db c rt r"
  shows "threads_ok (db\<lparr>td_events := ev', td_threads := insert_thread_metadata now c m (td_threads db)\<rparr>)"
proof -
  let ?ts = "td_threads db" and ?rows = "db_events (td_events db)" and ?live = "live_keys (td_events db)"
  let ?n = "params_row c m" and ?vs = "add_stubs c m p (td_threads db)"
  have n: "thread_key ?n = (c, secs_as_i64 (ev_created_at e), ev_id e)" "th_reply_count ?n = 0" "th_descendant_count ?n = 0"
    "th_parent_event_id ?n = Some p" "th_root_event_id ?n = Some r" "th_community_id ?n = c" "th_event_id ?n = ev_id e"
    by (simp_all add: params_row_def thread_key_def m)
  note new = live_keys_insert [OF ins, simplified, folded n(1)]
  have ids: "ids_once ?rows" and rok: "rows_ok ?rows ?live ?ts" using ok by (simp_all add: threads_ok_rows)
  have at: "(c, pt, p) \<in> row_key ` set ?rows" "(c, rt, r) \<in> row_key ` set ?rows" using m(5,8) by (simp_all add: event_at_def)
  note st = add_stubs_laws [OF rok ids m(4,6,7) at]
  have keys: "thread_key ?n \<noteq> (c, pt, p)" "thread_key ?n \<noteq> (c, rt, r)" using at new(3) by metis+
  have vs: "mset (add_stubs c m p (?ts @ [?n])) = mset (?vs @ [?n])"
    by (rule add_stubs_commute [OF m(4,6,7) keys])
  have sub: "thread_key ` set ?vs \<subseteq> row_key ` set ?rows" using st(1) by (simp add: rows_ok_def)
  have fresh: "\<not> has_row ?vs c (ev_id e)"
  proof
    assume "has_row ?vs c (ev_id e)"
    then obtain t where t: "t \<in> set ?vs" "th_community_id t = c" "th_event_id t = ev_id e" by (auto simp: has_row_def)
    from image_subset_obtain [OF sub t(1)] obtain x where x: "x \<in> set ?rows" "row_key x = thread_key t" by blast
    with t have at: "row_community_id x = c" "row_id x = ev_id e" by (simp_all add: row_key_def thread_key_def)
    with sc x(1) have "row_created_at x = secs_as_i64 (ev_created_at e)" unfolding same_created_def by blast
    with at have "row_key x = thread_key ?n" by (simp add: row_key_def n(1))
    with x(1) new(3) show False by (metis imageI)
  qed
  have "rows_ok (db_events ev') ?live (?vs @ [?n])"
    by (rule rows_ok_reply [OF st(1) ids live_keys_sub new(3) n(2-6) _ st(2,3) new(2)]) (simp add: n fresh)
  then have "rows_ok (db_events ev') ?live (add_stubs c m p (?ts @ [?n]))" by (rule rows_ok_mset) (rule vs [symmetric])
  then have "rows_ok (db_events ev') (live_keys ev') (increment_reply_count now c p (Some r) (add_stubs c m p (?ts @ [?n])))"
    unfolding new(1) by (rule rows_ok_increment [OF _ vs _ _ n(4-6)]) ((rule contra_subsetD [OF live_keys_sub new(3)]), rule contra_subsetD [OF sub new(3)])
  moreover have "add_thread_row ?n ?ts = (True, ?ts @ [?n])"
  proof -
    obtain added us where a: "add_thread_row ?n ?ts = (added, us)" by fastforce
    have "thread_key ?n \<notin> thread_key ` set ?ts" using threads_okD(2) [OF ok] new(3) by blast
    then show ?thesis using add_thread_row_laws [OF a] by (simp add: a)
  qed
  ultimately show ?thesis
    using ids_insert [OF ok ins sc] by (simp add: threads_ok_rows insert_thread_metadata_def m)
qed


lemma live_keys_delete:
  assumes del: "soft_delete_event now db c i = (hit, db')" and ids: "ids_once (db_events db)"
  shows "map row_key (db_events db') = map row_key (db_events db)" and "ids_once (db_events db')"
    and "\<not> hit \<Longrightarrow> db' = db"
    and "hit \<Longrightarrow> \<exists>t. (c, t, i) \<in> live_keys db \<and> live_keys db' = live_keys db - {(c, t, i)}"
proof -
  let ?hit = "\<lambda>r. (row_community_id r = c \<and> row_id r = i) \<and> row_deleted_at r = None"
  let ?f = "\<lambda>r. if ?hit r then r\<lparr>row_deleted_at := Some now\<rparr> else r"
  have ev: "db_events db' = map ?f (db_events db)" and h: "hit = list_ex ?hit (db_events db)"
    and db': "db' = db\<lparr>db_events := map ?f (db_events db)\<rparr>"
    using del by (auto simp: soft_delete_event_def soft_delete_where_def)
  have key: "row_key (?f r) = row_key r" for r by (simp add: row_key_def)
  show keys: "map row_key (db_events db') = map row_key (db_events db)" by (simp add: ev row_key_def)
  show "ids_once (db_events db')" using ids by (simp only: ids_once_keys keys flip: set_map)
  show "db' = db" if "\<not> hit"
  proof -
    have "map ?f (db_events db) = db_events db" using that h by (intro map_idI) (auto simp: list_ex_iff)
    then show ?thesis by (simp add: db')
  qed
  assume hit
  then obtain r where r: "r \<in> set (db_events db)" "?hit r" using h by (auto simp: list_ex_iff)
  have uniq: "row_key s = row_key r" if "s \<in> set (db_events db)" "row_community_id s = c" "row_id s = i" for s
    using ids_onceD [OF ids that(1) r(1)] that r(2) by simp
  have "live_keys db' = row_key ` {s \<in> set (db_events db). row_deleted_at s = None \<and> \<not> ?hit s}"
    by (auto simp: live_keys_def ev key image_iff split: if_splits)
  also have "\<dots> = live_keys db - {row_key r}"
    using uniq r(2) by (auto simp: live_keys_def image_iff row_key_def)
  finally show "\<exists>t. (c, t, i) \<in> live_keys db \<and> live_keys db' = live_keys db - {(c, t, i)}"
    using r by (intro exI [of _ "row_created_at r"]) (auto simp: live_keys_def row_key_def)
qed

lemma linked_remove:
  assumes "n \<in> set ts" and "distinct (map thread_key ts)"
  shows "linked sel (live - {thread_key n}) ts d j = linked sel live ts d j - linked sel live [n] d j"
proof -
  obtain as bs where ts: "ts = as @ n # bs" using assms(1) by (metis split_list)
  have "linked sel (live - {thread_key n}) us d j = linked sel live us d j" if "us = as \<or> us = bs" for us
  proof -
    have "thread_key n \<notin> thread_key ` set us" using that assms(2) ts by auto
    then show ?thesis by (intro linked_cong) (metis Diff_iff imageI singletonD)
  qed
  moreover have "linked sel live' (as @ n # bs) d j = linked sel live' as d j + linked sel live' [n] d j + linked sel live' bs d j" for live'
    using linked_append [of sel live' as "[n] @ bs" d j] linked_append [of sel live' "[n]" bs d j] by simp
  ultimately show ?thesis by (simp add: ts linked_single)
qed


lemma threads_ok_deleted_row:
  assumes ok: "threads_ok db" and n: "n \<in> set (td_threads db)" "th_parent_event_id n = Some p" "th_root_event_id n = Some r"
    and live: "thread_key n \<in> live_keys (td_events db)"
    and live': "live_keys ev' = live_keys (td_events db) - {thread_key n}"
  shows "counts_exact (live_keys ev') (decrement_reply_count (th_community_id n) p (Some r) (td_threads db))"
proof -
  let ?live = "live_keys (td_events db)" and ?ts = "td_threads db" and ?c = "th_community_id n"
  note rm = linked_remove [OF n(1) threads_okD(1) [OF ok], of _ ?live]
  have pos: "1 \<le> linked sel ?live ?ts ?c i" if "sel n = Some i" for sel i
    using rm [of sel ?c i] linked_nonneg [of sel "?live - {thread_key n}" ?ts ?c i] live that by (simp add: linked_single)
  have ce: "counts_exact ?live ?ts" by (rule threads_okD(5) [OF ok])
  have "0 < th_reply_count t" if "t \<in> set ?ts" "th_community_id t = ?c" "th_event_id t = p" for t
    using ce that pos [of th_parent_event_id, OF n(2)] by (force simp: counts_exact_def)
  moreover have "0 < th_descendant_count t" if "t \<in> set ?ts" "th_community_id t = ?c" "th_event_id t = r" for t
    using ce that pos [of th_root_event_id, OF n(3)] by (force simp: counts_exact_def)
  ultimately show ?thesis
    by (intro counts_exact_adjust [where ts = ?ts and k = "-1" and cc = ?c and p = p and r = r, OF ce] decrement_row)
      (use live in \<open>auto simp: linked_decrement live' rm linked_single n\<close>)
qed

lemma live_thread_key:
  assumes ok: "threads_ok db" and live: "(c, t, i) \<in> live_keys (td_events db)"
    and n: "n \<in> set (td_threads db)" "th_community_id n = c" "th_event_id n = i"
  shows "thread_key n = (c, t, i)"
proof -
  obtain x where x: "x \<in> set (db_events (td_events db))" "row_key x = (c, t, i)" using live by (auto simp: live_keys_def)
  then have "row_community_id x = th_community_id n" "row_id x = th_event_id n" using n by (simp_all add: row_key_def)
  with threads_ok_created [OF ok n(1) x(1)] x(2) show ?thesis by simp
qed

lemma counts_exact_unlinked:
  assumes "counts_exact live ts"
    and none: "\<And>n. n \<in> set ts \<Longrightarrow> thread_key n = k \<Longrightarrow> th_parent_event_id n = None \<and> th_root_event_id n = None"
  shows "counts_exact (live - {k}) ts"
proof -
  have "linked sel (live - {k}) ts d j = linked sel live ts d j"
    if "sel = th_parent_event_id \<or> sel = th_root_event_id" for sel d j
    by (rule linked_cong) (use that none in auto)
  then show ?thesis using assms(1) by (simp add: counts_exact_def)
qed

lemma links_okD:
  assumes "links_ok ts" "t \<in> set ts"
  shows "th_parent_event_id t = None \<longleftrightarrow> th_root_event_id t = None"
  using assms unfolding links_ok_def by blast

lemma counts_exact_deleted:
  assumes ok: "threads_ok db" and live: "(c, t, i) \<in> live_keys (td_events db)"
    and live': "live_keys ev' = live_keys (td_events db) - {(c, t, i)}"
    and meta: "meta = get_thread_metadata_by_event db c i"
  shows "counts_exact (live_keys ev') (case Option.bind meta th_parent_event_id of None \<Rightarrow> td_threads db
     | Some p \<Rightarrow> decrement_reply_count c p (Option.bind meta th_root_event_id) (td_threads db))"
proof (cases meta)
  case None
  then have "\<not> (th_community_id n = c \<and> th_event_id n = i)" if "n \<in> set (td_threads db)" for n
    using meta that by (simp add: get_thread_metadata_by_event_def find_None_iff)
  then have "counts_exact (live_keys ev') (td_threads db)"
    unfolding live' by (intro counts_exact_unlinked threads_okD(5) [OF ok]) (auto simp: thread_key_def)
  then show ?thesis by (simp add: None)
next
  case (Some n)
  then have n: "n \<in> set (td_threads db)" "th_community_id n = c" "th_event_id n = i"
    using meta by (auto simp: get_thread_metadata_by_event_def find_Some_iff)
  have key: "thread_key n = (c, t, i)" by (rule live_thread_key [OF ok live n])
  show ?thesis
  proof (cases "th_parent_event_id n")
    case None
    then have "th_root_event_id n = None" using links_okD [OF threads_okD(4) [OF ok] n(1)] by simp
    moreover have "n' = n" if "n' \<in> set (td_threads db)" "thread_key n' = (c, t, i)" for n'
      using threads_okD(1) [OF ok] n(1) that key by (metis distinct_map inj_onD)
    ultimately have "counts_exact (live_keys ev') (td_threads db)"
      unfolding live' using None by (intro counts_exact_unlinked threads_okD(5) [OF ok]) auto
    then show ?thesis by (simp add: Some None)
  next
    case (Some p)
    then obtain r where r: "th_root_event_id n = Some r" using links_okD [OF threads_okD(4) [OF ok] n(1)] by auto
    have "counts_exact (live_keys ev') (decrement_reply_count c p (Some r) (td_threads db))"
      using threads_ok_deleted_row [OF ok n(1) Some r, of ev'] live live' by (simp add: key n(2))
    then show ?thesis by (simp add: \<open>meta = Some n\<close> Some r)
  qed
qed

lemma decrement_keeps:
  "map thread_key (decrement_reply_count c p root ts) = map thread_key ts"
  "links_ok (decrement_reply_count c p root ts) = links_ok ts"
  by (cases root; simp add: decrement_reply_count_def update_root_def counter_update_map links_ok_update)+

lemma threads_ok_deleted:
  assumes ok: "threads_ok db" and meta: "meta = get_thread_metadata_by_event db c i"
    and del: "soft_delete_event_and_update_thread now db c i (Option.bind meta th_parent_event_id) (Option.bind meta th_root_event_id) = (hit, db')"
  shows "threads_ok db'"
proof -
  let ?ts = "case Option.bind meta th_parent_event_id of None \<Rightarrow> td_threads db
     | Some p \<Rightarrow> decrement_reply_count c p (Option.bind meta th_root_event_id) (td_threads db)"
  obtain ev' where sd: "soft_delete_event now (td_events db) c i = (hit, ev')"
    using del by (auto simp: soft_delete_event_and_update_thread_def split: prod.splits)
  note d = live_keys_delete [OF sd threads_okD(3) [OF ok]]
  show ?thesis
  proof (cases hit)
    case False
    with del sd d(3) ok show ?thesis by (simp add: soft_delete_event_and_update_thread_def)
  next
    case True
    have ts: "map thread_key ?ts = map thread_key (td_threads db)" "links_ok ?ts = links_ok (td_threads db)"
      by (simp_all add: decrement_keeps split: option.split)
    have "counts_exact (live_keys ev') ?ts"
      using d(4) [OF True] counts_exact_deleted [OF ok _ _ meta] by blast
    moreover have "thread_key ` set ?ts \<subseteq> row_key ` set (db_events ev')"
      using threads_okD(2) [OF ok] d(1) ts(1) by (metis set_map)
    ultimately have "threads_ok (db\<lparr>td_events := ev', td_threads := ?ts\<rparr>)"
      using threads_okD [OF ok] ts d(2) by (simp add: threads_ok_def)
    then show ?thesis using del sd True by (simp add: soft_delete_event_and_update_thread_def)
  qed
qed


lemma threads_ok_with_reactions [simp]: "threads_ok (db\<lparr>td_reactions := xs\<rparr>) = threads_ok db"
  by (simp add: threads_ok_def)

lemma threads_ok_tx_none:
  assumes "threads_ok db" "same_created db c e"
    and "insert_event_with_thread_metadata_tx valid now db c e ch None = Inr (res, db')"
  shows "threads_ok db'"
  using assms(3) threads_ok_posted [OF assms(1) _ assms(2)]
  by (auto simp: insert_event_with_thread_metadata_tx_def and_then_Inr)

lemma threads_ok_reacted:
  assumes "threads_ok db" "same_created db c e"
    and "insert_reaction_event_with_thread_metadata valid now db c e ch None target actor emoji = Inr (outcome, db')"
  shows "threads_ok db'"
proof -
  have "same_created (db\<lparr>td_reactions := xs\<rparr>) c e" for xs using assms(2) by (simp add: same_created_def)
  then show ?thesis
    using assms(1,3) threads_ok_tx_none [of "db\<lparr>td_reactions := xs\<rparr>" for xs]
    by (fastforce simp: insert_reaction_event_with_thread_metadata_def and_then_Inr split: list.splits if_splits)
qed

lemma threads_ok_step: "thread_step valid db db' \<Longrightarrow> threads_ok db \<Longrightarrow> threads_ok db'"
proof (induction rule: thread_step.induct)
  case (posted now db c e ch res db')
  then show ?case by (auto simp: insert_event_with_thread_metadata_def intro: threads_ok_tx_none)
next
  case (replied now db c e ch m res db' p pt r rt)
  from replied(1) obtain s ins ev' where ins: "insert_event valid now (td_events db) c e ch = Inr ((s, ins), ev')"
    and db': "db' = db\<lparr>td_events := ev', td_threads := (if ins then insert_thread_metadata now c m (td_threads db) else td_threads db)\<rparr>"
    by (auto simp: insert_event_with_thread_metadata_def insert_event_with_thread_metadata_tx_def and_then_Inr)
  show ?case
  proof (cases ins)
    case True
    with ins db' threads_ok_replied [OF replied(11) _ replied(2-10)] show ?thesis by simp
  next
    case False
    with ins db' threads_ok_posted [OF replied(11) ins replied(2)] show ?thesis by simp
  qed
qed (auto intro: threads_ok_reacted threads_ok_deleted)

definition no_threads :: thread_db where
  "no_threads = \<lparr>td_events = db_empty, td_threads = [], td_reactions = []\<rparr>"

inductive threads_reachable :: "(int \<Rightarrow> bool) \<Rightarrow> thread_db \<Rightarrow> bool" for valid where
  start: "threads_reachable valid no_threads"
| step: "threads_reachable valid db \<Longrightarrow> thread_step valid db db' \<Longrightarrow> threads_reachable valid db'"

lemma threads_reachable_ok: "threads_reachable valid db \<Longrightarrow> threads_ok db"
proof (induction rule: threads_reachable.induct)
  case start
  show ?case by (simp add: no_threads_def threads_ok_def db_empty_def ids_once_def links_ok_def counts_exact_def)
qed (rule threads_ok_step)

section \<open>Counters are exact\<close>

text \<open>
  C4. In every thread database that is built from empty tables by posts, reactions, deletions and replies that
  name a parent and a root stored at the times the reply gives, under ids that determine their creation time,
  the reply counter of a row is the number of rows whose event is live and whose parent it is, and the descendant
  counter the number of those whose root it is: no counter drifts and the floor at zero is never what keeps it
  non-negative. Excluded is the relay's fallback to the time of the parent when the root is gone: there the root
  may get a second row (\<open>root_row_duplicated\<close>).
\<close>

theorem thread_counters_exact:
  assumes "threads_reachable valid db" and "t \<in> set (td_threads db)"
  shows "th_reply_count t = linked th_parent_event_id (live_keys (td_events db)) (td_threads db) (th_community_id t) (th_event_id t) \<and>
    th_descendant_count t = linked th_root_event_id (live_keys (td_events db)) (td_threads db) (th_community_id t) (th_event_id t)"
  using threads_okD(5) [OF threads_reachable_ok [OF assms(1)]] assms(2) by (simp add: counts_exact_def)


definition demo_thread :: thread_params where
  "demo_thread =
     \<lparr>tp_event_id = ''02'', tp_event_created_at = 7, tp_channel_id = ''room'', tp_parent_event_id = Some ''01'',
      tp_parent_event_created_at = Some 5, tp_root_event_id = Some ''01'', tp_root_event_created_at = Some 5,
      tp_depth = 1, tp_broadcast = False\<rparr>"

definition demo_posted :: thread_db where
  "demo_posted = snd (projr (insert_event_with_thread_metadata (\<lambda>_. True) 0 no_threads ''c1'' (demo_event ''01'' 5) (Some ''room'') None))"

definition demo_replied :: thread_db where
  "demo_replied = snd (projr (insert_event_with_thread_metadata (\<lambda>_. True) 0 demo_posted ''c1'' (demo_event ''02'' 7) (Some ''room'')
     (Some demo_thread)))"

lemma demo_replied_reachable: "threads_reachable (\<lambda>_. True) demo_replied"
proof -
  have Inr: "\<not> isl r \<Longrightarrow> r = Inr (fst (projr r), snd (projr r))" for r :: "'x + 'y \<times> 'z" by (cases r) simp_all
  have "thread_step (\<lambda>_. True) no_threads demo_posted"
    unfolding demo_posted_def by (rule thread_step.posted [OF Inr]) code_simp+
  moreover have "thread_step (\<lambda>_. True) demo_posted demo_replied"
    unfolding demo_replied_def
    by (rule thread_step.replied [OF Inr, where m = demo_thread and p = "''01''" and pt = 5 and r = "''01''" and rt = 5]; code_simp)
  ultimately show ?thesis by (blast intro: threads_reachable.intros)
qed

theorem thread_counters_exact_witness:
  "threads_reachable (\<lambda>_. True) demo_replied \<and> th_event_id (td_threads demo_replied ! 1) = ''01'' \<and>
   linked th_parent_event_id (live_keys (td_events demo_replied)) (td_threads demo_replied) ''c1'' ''01'' = 1 \<and>
   linked th_root_event_id (live_keys (td_events demo_replied)) (td_threads demo_replied) ''c1'' ''01'' = 1"
proof -
  let ?t = "td_threads demo_replied ! 1"
  have t: "?t \<in> set (td_threads demo_replied)" by (rule nth_mem) code_simp
  have "th_reply_count ?t = 1" "th_descendant_count ?t = 1" "th_event_id ?t = ''01''" "th_community_id ?t = ''c1''"
    by code_simp+
  with thread_counters_exact [OF demo_replied_reachable t] demo_replied_reachable show ?thesis by simp
qed

text \<open>
  The root of a nested reply is not always stored at the time the reply gives: when the root is gone, the
  relay falls back to the time of the parent (crates/buzz-relay/src/handlers/ingest.rs,
  \<open>resolve_nip10_thread_meta\<close>), and the primary key, which has the time in it, then admits a second row for
  the same root.
\<close>

definition demo_nested :: thread_params where
  "demo_nested =
     \<lparr>tp_event_id = ''03'', tp_event_created_at = 9, tp_channel_id = ''room'', tp_parent_event_id = Some ''02'',
      tp_parent_event_created_at = Some 7, tp_root_event_id = Some ''01'', tp_root_event_created_at = Some 7,
      tp_depth = 2, tp_broadcast = False\<rparr>"

lemma root_row_duplicated:
  "map thread_key (filter (\<lambda>t. th_event_id t = ''01'')
     (td_threads (snd (projr (insert_event_with_thread_metadata (\<lambda>_. True) 0 demo_replied ''c1'' (demo_event ''03'' 9) (Some ''room'')
        (Some demo_nested)))))) = [(''c1'', 5, ''01''), (''c1'', 7, ''01'')]"
  by code_simp

end
