(* ===== verification/Conformance.thy ===== *)
theory Conformance
  imports Ingest_Rules "HOL-Library.Char_ord" "HOL-Library.List_Lexorder"
begin

text \<open>
  The conformance traces of the relay: the schema, the transition rules and the replay checker of
  crates/buzz-conformance/src (lib.rs, transitions.rs, checker.rs), and the emitters and the coverage
  guard of crates/buzz-relay/src/conformance/mod.rs. A tracer is the list of the steps recorded so far.

  Event ids are lower-case hex text. The debug forms of texts and of lists of texts in the error
  messages come from \<open>debug_forms\<close>; a uuid prints as itself. \<open>HashSet\<close>s are lists without a promise on
  their order, a \<open>HashMap\<close> is a map.
\<close>

section \<open>Schema\<close>

datatype verdict = Allow | Deny

datatype sanitized_reason = Restricted | Invalid | ServerError

record abstract_state =
  resolved_community :: uuid
  bound_host :: string
  actor :: string

datatype trace_action =
    WriteInsert string uuid "uuid option"
  | WriteInsertGlobal string "uuid option"
  | WriteDuplicate string uuid "uuid option"
  | SanitizedError sanitized_reason
  | AuthCheck uuid "uuid option" verdict
  | ReadMessageRows "uuid option" "uuid list"
  | ReadByIdRows "uuid option" "uuid list"
  | ReadHostFeedRows "uuid list"
  | ImplBug string

definition SCHEMA_VERSION :: u32 where
  "SCHEMA_VERSION = 1"

record trace_step =
  schema_version :: u32
  action :: trace_action
  state_after :: abstract_state

definition trace_step_new :: "trace_action \<Rightarrow> abstract_state \<Rightarrow> trace_step" where
  "trace_step_new a s = \<lparr>schema_version = SCHEMA_VERSION, action = a, state_after = s\<rparr>"

fun action_kind :: "trace_action \<Rightarrow> string" where
  "action_kind (WriteInsert _ _ _) = ''write_insert''"
| "action_kind (WriteInsertGlobal _ _) = ''write_insert_global''"
| "action_kind (WriteDuplicate _ _ _) = ''write_duplicate''"
| "action_kind (SanitizedError _) = ''sanitized_error''"
| "action_kind (AuthCheck _ _ _) = ''auth_check''"
| "action_kind (ReadMessageRows _ _) = ''read_message_rows''"
| "action_kind (ReadByIdRows _ _) = ''read_by_id_rows''"
| "action_kind (ReadHostFeedRows _) = ''read_host_feed_rows''"
| "action_kind (ImplBug _) = ''impl_bug''"

fun action_channel :: "trace_action \<Rightarrow> uuid option" where
  "action_channel (WriteInsert _ channel _) = Some channel"
| "action_channel (WriteDuplicate _ channel _) = Some channel"
| "action_channel (AuthCheck channel _ _) = Some channel"
| "action_channel (ReadMessageRows channel _) = channel"
| "action_channel (ReadByIdRows channel _) = channel"
| "action_channel (WriteInsertGlobal _ _) = None"
| "action_channel (ReadHostFeedRows _) = None"
| "action_channel (SanitizedError _) = None"
| "action_channel (ImplBug _) = None"

section \<open>Transitions\<close>

datatype transition_error =
    IllegalTransition nat string
  | StateMismatch nat string
  | NonInterference nat string
  | CoverageBreach string

record model_state =
  mo_resolved_community :: uuid
  mo_bound_host :: string
  mo_actor :: string

definition bootstrap :: "abstract_state \<Rightarrow> model_state" where
  "bootstrap first =
     \<lparr>mo_resolved_community = resolved_community first, mo_bound_host = bound_host first, mo_actor = actor first\<rparr>"

record debug_forms =
  df_text :: "string \<Rightarrow> string"
  df_list :: "string list \<Rightarrow> string"

definition community_debug :: "uuid \<Rightarrow> string" where
  "community_debug c = ''CommunityLabel('' @ c @ '')''"

definition label_debug :: "debug_forms \<Rightarrow> string \<Rightarrow> string \<Rightarrow> string" where
  "label_debug df name s = name @ ''('' @ df_text df s @ '')''"

definition check_row_labels :: "nat \<Rightarrow> model_state \<Rightarrow> uuid list \<Rightarrow> transition_error + unit" where
  "check_row_labels step_index model row_communities =
     (case find (\<lambda>c. c \<noteq> mo_resolved_community model) row_communities of
        Some foreign \<Rightarrow> Inl (NonInterference step_index
          (''row labeled '' @ community_debug foreign @ '' returned in observation scoped to '' @
           community_debug (mo_resolved_community model) @
           '' '' @ [CHR 0xE2, CHR 0x80, CHR 0x94] @ '' Inv_NonInterference breach (foreign row leaked through tenant fence)''))
      | None \<Rightarrow> Inr ())"

fun check_action :: "debug_forms \<Rightarrow> nat \<Rightarrow> model_state \<Rightarrow> trace_action \<Rightarrow> transition_error + unit" where
  "check_action df i model (WriteInsert _ _ _) = Inr ()"
| "check_action df i model (WriteInsertGlobal _ _) = Inr ()"
| "check_action df i model (WriteDuplicate _ _ _) = Inr ()"
| "check_action df i model (SanitizedError reason) =
     (case reason of Restricted \<Rightarrow> Inr () | Invalid \<Rightarrow> Inr () | ServerError \<Rightarrow> Inr ())"
| "check_action df i model (AuthCheck _ claimed_community verdict) =
     (case (verdict, claimed_community) of
        (Allow, Some c) \<Rightarrow>
          if c \<noteq> mo_resolved_community model
          then Inl (IllegalTransition i
            (''AuthCheck verdict=Allow with claimed_community='' @ community_debug c @ '' != resolved='' @
             community_debug (mo_resolved_community model) @ '' '' @ [CHR 0xE2, CHR 0x80, CHR 0x94] @ '' M2/M8 (claim or host driving verdict) bite''))
          else Inr ()
      | _ \<Rightarrow> Inr ())"
| "check_action df i model (ReadMessageRows _ row_communities) = check_row_labels i model row_communities"
| "check_action df i model (ReadByIdRows _ row_communities) = check_row_labels i model row_communities"
| "check_action df i model (ReadHostFeedRows row_communities) = check_row_labels i model row_communities"
| "check_action df i model (ImplBug kind) =
     Inl (CoverageBreach (''ImplBug action emitted by Drop guard: kind='' @ df_text df kind))"

definition check_step :: "debug_forms \<Rightarrow> nat \<Rightarrow> model_state \<Rightarrow> trace_step \<Rightarrow> transition_error + unit" where
  "check_step df i model step =
     (let after = state_after step in
      if resolved_community after \<noteq> mo_resolved_community model
      then Inl (StateMismatch i (''resolved_community changed mid-request: bootstrap='' @
             community_debug (mo_resolved_community model) @ '', step='' @ community_debug (resolved_community after)))
      else if bound_host after \<noteq> mo_bound_host model
      then Inl (StateMismatch i (''bound_host changed mid-request: bootstrap='' @
             label_debug df ''HostLabel'' (mo_bound_host model) @ '', step='' @ label_debug df ''HostLabel'' (bound_host after)))
      else if actor after \<noteq> mo_actor model
      then Inl (StateMismatch i (''actor changed mid-request: bootstrap='' @
             label_debug df ''ActorLabel'' (mo_actor model) @ '', step='' @ label_debug df ''ActorLabel'' (actor after)))
      else check_action df i model (action step))"

section \<open>Replay\<close>

record scenario =
  sc_trace :: "trace_step list"
  required_critical_actions :: "string list"

definition unstructured :: "trace_step list \<Rightarrow> scenario" where
  "unstructured steps = \<lparr>sc_trace = steps, required_critical_actions = []\<rparr>"

definition scenario_require :: "scenario \<Rightarrow> string \<Rightarrow> scenario" where
  "scenario_require sc kind = sc\<lparr>required_critical_actions := List.insert kind (required_critical_actions sc)\<rparr>"

definition check_version :: "nat \<Rightarrow> trace_step \<Rightarrow> transition_error + unit" where
  "check_version i step =
     (if schema_version step \<noteq> SCHEMA_VERSION
      then Inl (IllegalTransition i (''trace schema_version='' @ show_nat (unat (schema_version step)) @
             '' but checker schema_version='' @ show_nat (unat SCHEMA_VERSION)))
      else Inr ())"

fun check_steps :: "debug_forms \<Rightarrow> model_state \<Rightarrow> nat \<Rightarrow> trace_step list \<Rightarrow> transition_error + unit" where
  "check_steps df model i [] = Inr ()"
| "check_steps df model i (step # steps) =
     and_then (check_version i step) (\<lambda>_. and_then (check_step df i model step) (\<lambda>_. check_steps df model (Suc i) steps))"

definition check_trace :: "debug_forms \<Rightarrow> scenario \<Rightarrow> transition_error + unit" where
  "check_trace df sc =
     (case sc_trace sc of
        [] \<Rightarrow> Inl (CoverageBreach (''trace is empty '' @ [CHR 0xE2, CHR 0x80, CHR 0x94] @ '' seam reached without emitting any action; this is the no-trace coverage breach''))
      | first # _ \<Rightarrow>
          and_then (check_version 0 first) (\<lambda>_.
          and_then (check_steps df (bootstrap (state_after first)) 0 (sc_trace sc)) (\<lambda>_.
            let seen = map (\<lambda>step. action_kind (action step)) (sc_trace sc);
                missing = filter (\<lambda>k. k \<notin> set seen) (required_critical_actions sc)
            in if missing \<noteq> []
               then Inl (CoverageBreach (''scenario required actions never emitted: '' @ df_list df (sort missing)))
               else Inr ())))"

section \<open>Emitters\<close>

type_synonym tracer = "trace_step list"

definition actor_label :: "string \<Rightarrow> string" where
  "actor_label pubkey_hex = (let n = min (length pubkey_hex) 16 in take n pubkey_hex)"

definition state_for_request :: "uuid \<Rightarrow> string \<Rightarrow> string \<Rightarrow> abstract_state" where
  "state_for_request community host pubkey =
     \<lparr>resolved_community = community, bound_host = host, actor = actor_label pubkey\<rparr>"

definition msg_id_label :: "string \<Rightarrow> string" where
  "msg_id_label event_id = take 16 event_id"

definition channel_label :: "uuid \<Rightarrow> uuid" where
  "channel_label ch = ch"

fun claimed_from_tags :: "(string \<Rightarrow> uuid option) \<Rightarrow> string list list \<Rightarrow> uuid option" where
  "claimed_from_tags parse [] = None"
| "claimed_from_tags parse (raw # tags) =
     (if raw \<noteq> [] \<and> hd raw = ''h''
      then (case tl raw of [] \<Rightarrow> None | val # _ \<Rightarrow> parse val)
      else claimed_from_tags parse tags)"

definition claimed_community_from_event :: "rule_env \<Rightarrow> event \<Rightarrow> uuid option" where
  "claimed_community_from_event env e = claimed_from_tags (parse_uuid env) (ev_tags e)"

definition emit :: "tracer \<Rightarrow> trace_action \<Rightarrow> abstract_state \<Rightarrow> tracer" where
  "emit tracer a s = tracer @ [trace_step_new a s]"

definition record_req_authcheck :: "tracer \<Rightarrow> abstract_state \<Rightarrow> uuid \<Rightarrow> bool \<Rightarrow> tracer" where
  "record_req_authcheck tracer s channel_id member =
     emit tracer (AuthCheck (channel_label channel_id) None (if member then Allow else Deny)) s"

definition project_row_community :: "uuid option \<Rightarrow> uuid \<Rightarrow> (uuid \<rightharpoonup> uuid) \<Rightarrow> uuid option" where
  "project_row_community row_channel_id resolved channel_communities =
     (case row_channel_id of None \<Rightarrow> Some resolved | Some ch \<Rightarrow> channel_communities ch)"

datatype row_community_projection = ProjectedRows "uuid list" | MissingLookup string uuid

fun project_rows :: "uuid list \<Rightarrow> uuid option list \<Rightarrow> uuid \<Rightarrow> (uuid \<rightharpoonup> uuid) \<Rightarrow> row_community_projection" where
  "project_rows out [] resolved m = ProjectedRows out"
| "project_rows out (row # rows) resolved m =
     (case project_row_community row resolved m of
        Some label \<Rightarrow> project_rows (out @ [label]) rows resolved m
      | None \<Rightarrow> MissingLookup ''row_community_lookup_missing'' (the row))"

definition project_row_communities :: "uuid option list \<Rightarrow> uuid \<Rightarrow> (uuid \<rightharpoonup> uuid) \<Rightarrow> row_community_projection" where
  "project_row_communities rows resolved m = project_rows [] rows resolved m"

definition record_read_message_rows ::
  "tracer \<Rightarrow> abstract_state \<Rightarrow> uuid option \<Rightarrow> uuid option list \<Rightarrow> (uuid \<rightharpoonup> uuid) \<Rightarrow> tracer" where
  "record_read_message_rows tracer s filter_channel rows m =
     (case project_row_communities rows (resolved_community s) m of
        ProjectedRows labels \<Rightarrow> emit tracer (ReadMessageRows (map_option channel_label filter_channel) labels) s
      | MissingLookup kind _ \<Rightarrow> emit tracer (ImplBug kind) s)"

definition record_read_by_id_rows ::
  "tracer \<Rightarrow> abstract_state \<Rightarrow> uuid option \<Rightarrow> uuid option list \<Rightarrow> (uuid \<rightharpoonup> uuid) \<Rightarrow> tracer" where
  "record_read_by_id_rows tracer s filter_channel rows m =
     (case project_row_communities rows (resolved_community s) m of
        ProjectedRows labels \<Rightarrow> emit tracer (ReadByIdRows (map_option channel_label filter_channel) labels) s
      | MissingLookup kind _ \<Rightarrow> emit tracer (ImplBug kind) s)"

text \<open>Dropping the guard of a request that recorded \<open>steps\<close> on its counting tracer.\<close>

definition drop_guard :: "string \<Rightarrow> abstract_state \<Rightarrow> tracer \<Rightarrow> tracer" where
  "drop_guard kind s steps = (if length steps = 0 then steps @ [trace_step_new (ImplBug kind) s] else steps)"

fun sanitized_reason_for :: "ingest_error \<Rightarrow> sanitized_reason" where
  "sanitized_reason_for (Rejected _) = Invalid"
| "sanitized_reason_for (AuthFailed _) = Restricted"
| "sanitized_reason_for (Internal _) = ServerError"

section \<open>What the checker accepts\<close>

text \<open>The reference: what an action may be in a request resolved to a community.\<close>

fun action_confined :: "uuid \<Rightarrow> trace_action \<Rightarrow> bool" where
  "action_confined c (AuthCheck _ claim Allow) = (claim = None \<or> claim = Some c)"
| "action_confined c (ReadMessageRows _ labels) = list_all ((=) c) labels"
| "action_confined c (ReadByIdRows _ labels) = list_all ((=) c) labels"
| "action_confined c (ReadHostFeedRows labels) = list_all ((=) c) labels"
| "action_confined c (ImplBug _) = False"
| "action_confined c _ = True"

definition step_conforms :: "abstract_state \<Rightarrow> trace_step \<Rightarrow> bool" where
  "step_conforms s step \<longleftrightarrow>
     schema_version step = SCHEMA_VERSION \<and> state_after step = s \<and> action_confined (resolved_community s) (action step)"

lemma check_row_labels_Inr: "check_row_labels i model labels = Inr () \<longleftrightarrow> list_all ((=) (mo_resolved_community model)) labels"
proof (cases "find (\<lambda>c. c \<noteq> mo_resolved_community model) labels")
  case None
  then have "\<forall>c \<in> set labels. mo_resolved_community model = c" by (auto simp: find_None_iff)
  then show ?thesis by (simp add: check_row_labels_def None list_all_iff)
next
  case (Some c)
  then have "c \<in> set labels" "c \<noteq> mo_resolved_community model" by (auto simp: find_Some_iff)
  then have "\<not> list_all ((=) (mo_resolved_community model)) labels" unfolding list_all_iff by metis
  with Some show ?thesis by (simp add: check_row_labels_def)
qed

lemma check_action_Inr: "check_action df i model a = Inr () \<longleftrightarrow> action_confined (mo_resolved_community model) a"
proof (cases a)
  case (AuthCheck ch claim v)
  then show ?thesis by (cases v; cases claim) auto
next
  case (SanitizedError reason)
  then show ?thesis by (cases reason) auto
qed (auto simp: check_row_labels_Inr)

lemma check_step_Inr:
  "check_step df i (bootstrap s) step = Inr () \<longleftrightarrow> state_after step = s \<and> action_confined (resolved_community s) (action step)"
  by (auto simp: check_step_def Let_def check_action_Inr bootstrap_def)

lemma check_steps_Inr: "check_steps df (bootstrap s) i steps = Inr () \<longleftrightarrow> list_all (step_conforms s) steps"
  by (induction steps arbitrary: i) (auto simp: and_then_Inr check_version_def check_step_Inr step_conforms_def)

lemma check_trace_Inr:
  "check_trace df sc = Inr () \<longleftrightarrow> sc_trace sc \<noteq> [] \<and> list_all (step_conforms (state_after (hd (sc_trace sc)))) (sc_trace sc) \<and>
     set (required_critical_actions sc) \<subseteq> (\<lambda>step. action_kind (action step)) ` set (sc_trace sc)"
proof (cases "sc_trace sc")
  case (Cons first steps)
  have "check_trace df sc = Inr () \<longleftrightarrow> schema_version first = SCHEMA_VERSION \<and>
      check_steps df (bootstrap (state_after first)) 0 (first # steps) = Inr () \<and>
      set (required_critical_actions sc) \<subseteq> (\<lambda>step. action_kind (action step)) ` set (first # steps)"
    by (auto simp: check_trace_def Cons and_then_Inr check_version_def filter_empty_conv Let_def simp del: check_steps.simps)
  then show ?thesis by (auto simp: check_steps_Inr Cons step_conforms_def simp del: check_steps.simps)
qed (simp add: check_trace_def)

section \<open>Properties\<close>

text \<open>
  C7. The replay checker accepts a scenario exactly when its trace is not empty, every step has the
  schema version and the state of the first step, no row label, and no claim an allowed check was given,
  names another community than the resolved one, no step is a coverage breach, and every action the
  scenario requires occurs.
\<close>

theorem check_trace_exact:
  "check_trace df sc = Inr () \<longleftrightarrow> sc_trace sc \<noteq> [] \<and> list_all (step_conforms (state_after (hd (sc_trace sc)))) (sc_trace sc) \<and>
     set (required_critical_actions sc) \<subseteq> (\<lambda>step. action_kind (action step)) ` set (sc_trace sc)"
  by (rule check_trace_Inr)

lemma project_rows_law:
  "project_rows out rows resolved m =
     (case find (\<lambda>row. project_row_community row resolved m = None) rows of
        None \<Rightarrow> ProjectedRows (out @ map (\<lambda>row. the (project_row_community row resolved m)) rows)
      | Some row \<Rightarrow> MissingLookup ''row_community_lookup_missing'' (the row))"
  by (induction rows arbitrary: out) (auto split: option.split)

definition row_in_community :: "(uuid \<rightharpoonup> uuid) \<Rightarrow> uuid \<Rightarrow> uuid option \<Rightarrow> bool" where
  "row_in_community m c row \<longleftrightarrow> (case row of None \<Rightarrow> True | Some ch \<Rightarrow> m ch = Some c)"

lemma recorded_rows_confined:
  "(case project_row_communities rows c m of ProjectedRows labels \<Rightarrow> list_all ((=) c) labels | MissingLookup _ _ \<Rightarrow> False) \<longleftrightarrow>
     list_all (row_in_community m c) rows"
proof -
  have row: "row_in_community m c row \<longleftrightarrow> project_row_community row c m = Some c" for row
    by (cases row) (auto simp: row_in_community_def project_row_community_def)
  show ?thesis
  proof (cases "find (\<lambda>row. project_row_community row c m = None) rows")
    case None
    then have "\<forall>row \<in> set rows. project_row_community row c m \<noteq> None" by (auto simp: find_None_iff)
    then have "list_all (\<lambda>row. c = the (project_row_community row c m)) rows \<longleftrightarrow> list_all (row_in_community m c) rows"
      unfolding list_all_iff row by (metis option.collapse option.sel)
    then show ?thesis by (simp add: project_row_communities_def project_rows_law None list_all_iff)
  next
    case (Some row)
    then have "row \<in> set rows" "project_row_community row c m = None" by (auto simp: find_Some_iff)
    then have "\<not> list_all (row_in_community m c) rows" unfolding list_all_iff row by (metis option.distinct(1))
    then show ?thesis by (simp add: project_row_communities_def project_rows_law Some)
  qed
qed

text \<open>
  C8. The trace of a read is honest about tenancy: the step recorded for the rows of a query, in either
  lane, conforms to the request's state exactly when every row is channel-less or lies in a channel that
  the server-side map assigns to the resolved community. A row of a foreign channel, and a row whose
  channel has no entry, both make the checker fail.
\<close>

theorem recorded_reads_conform:
  "step_conforms s (last (record_read_message_rows tracer s ch rows m)) = list_all (row_in_community m (resolved_community s)) rows \<and>
   step_conforms s (last (record_read_by_id_rows tracer s ch rows m)) = list_all (row_in_community m (resolved_community s)) rows"
  unfolding recorded_rows_confined [symmetric]
  by (simp add: record_read_message_rows_def record_read_by_id_rows_def emit_def trace_step_new_def step_conforms_def
      split: row_community_projection.split)

end
