(* ===== verification/Ingest_Pipeline.thy ===== *)
theory Ingest_Pipeline
  imports Ingest_Envelopes Conformance Thread_Store
begin

text \<open>
  The write pipeline, \<open>ingest_event\<close> and \<open>ingest_event_inner\<close> of
  crates/buzz-relay/src/handlers/ingest.rs, in the order of its checks.

  A request works on \<open>ingest_state\<close>: the event tables with their replacement watermarks, the thread and
  reaction rows, the trace of the request, and the list of the calls it made to the handlers that live in
  other modules. What those handlers answer comes from \<open>ingest_env\<close>, with the clocks the request reads, the
  signature check, the lookups of \<open>rule_env\<close>, and the configuration; a handler's own writes stand behind its
  entry in the list of calls. A step returns a value or stops, by an error that the client is told or by
  a panic. Arithmetic on \<open>i64\<close> wraps, as in the release build. Metrics and log lines are left out.
\<close>

section \<open>State\<close>

datatype stop = Failed ingest_error | Panicked string

text \<open>The end of a time-out is in nanoseconds, like the clock it is compared with; its text is in seconds.\<close>

record restriction_state =
  re_banned :: bool
  re_muted_until :: "int option"

datatype remove_result = MemberRemoved | MemberIsOwner | MemberNotPresent | MemberRoleMismatch

datatype accept_lease_outcome =
    LeaseAccepted | StaleEvent | StaleGeneration | EndpointAlreadyLeased | LeaseQuotaExceeded
  | SourceEventCollision | ConstraintViolation

record new_channel =
  nc_id :: uuid
  nc_name :: string
  nc_type :: channel_type
  nc_visibility :: channel_visibility
  nc_description :: "string option"
  nc_created_by :: string
  nc_ttl_seconds :: "int option"

record threaded_visibility =
  tv_community_id :: uuid
  tv_channel_id :: uuid
  tv_visibility :: string

datatype call =
    HandleCommand
  | HandleProductFeedback
  | HandleReport
  | HandleModerationCommand
  | HandleRelayAdmin
  | RemoveRelayMember string
  | PublishMemberRemoved string
  | PublishMembershipList
  | HandleIdentityArchive
  | CreateChannel new_channel
  | SoftDeleteChannel uuid
  | InvalidateChannelDeleted
  | AcceptLease
  | HandleSideEffects u32
  | EmitThreadSummary uuid string
  | DispatchPersistentEvent stored_event u32 string "threaded_visibility option"

record ingest_state =
  is_heads :: head_store
  is_threads :: "thread_row list"
  is_reactions :: "reaction_row list"
  is_trace :: tracer
  is_calls :: "call list"

record ingest_env =
  ie_rules :: rule_env
  ie_community :: uuid
  ie_host :: string
  verify_event :: "event \<Rightarrow> (string + unit) option"
  now_checked :: int
  now_restricted :: int
  now_leaving :: int
  db_now :: nat
  db_error_text :: "db_error \<Rightarrow> string"
  handle_command :: "event \<Rightarrow> ingest_auth \<Rightarrow> ingest_error + ingest_result"
  product_feedback_handle :: "event \<Rightarrow> string + unit"
  handle_report_event :: "event \<Rightarrow> string + unit"
  handle_moderation_command :: "event \<Rightarrow> string + unit"
  moderation_restriction_state :: "uuid \<Rightarrow> string \<Rightarrow> string + restriction_state"
  channel_visibility_cached :: "uuid \<Rightarrow> uuid \<Rightarrow> channel_record \<Rightarrow> string + string"
  handle_relay_admin_event :: "event \<Rightarrow> relay_admin_error + unit"
  require_relay_membership :: bool
  remove_relay_member :: "uuid \<Rightarrow> string \<Rightarrow> string + remove_result"
  validate_admin_event :: "u32 \<Rightarrow> event \<Rightarrow> string + unit"
  handle_identity_archive_event :: "event \<Rightarrow> string + unit"
  validate_standard_deletion_event :: "event \<Rightarrow> string + unit"
  ephemeral_ttl_override :: "int option"
  create_channel_with_id :: "uuid \<Rightarrow> new_channel \<Rightarrow> string + bool"
  push_lease_accept :: "event \<Rightarrow> int \<Rightarrow> push_accept_error + accept_lease_outcome"
  config_relay_url :: string
  validate_imeta_tags :: "string list list \<Rightarrow> string \<Rightarrow> string + unit"
  verify_imeta_blobs :: "string list list \<Rightarrow> string + unit"
  is_json :: "string \<Rightarrow> bool"

section \<open>Steps\<close>

type_synonym 'a step = "ingest_state \<Rightarrow> (stop + 'a) \<times> ingest_state"

definition st_return :: "'a \<Rightarrow> 'a step" where
  "st_return x = (\<lambda>s. (Inr x, s))"

definition st_bind :: "'a step \<Rightarrow> ('a \<Rightarrow> 'b step) \<Rightarrow> 'b step" where
  "st_bind m f = (\<lambda>s. case m s of (Inl e, s') \<Rightarrow> (Inl e, s') | (Inr x, s') \<Rightarrow> f x s')"

text \<open>A check that reads only what the environment holds.\<close>

definition gate :: "ingest_error + 'a \<Rightarrow> 'a step" where
  "gate r = (\<lambda>s. (map_err Failed r, s))"

definition reject :: "string + 'a \<Rightarrow> ingest_error + 'a" where
  "reject r = map_err Rejected r"

definition invalid :: "string + 'a \<Rightarrow> ingest_error + 'a" where
  "invalid r = map_err (\<lambda>e. Rejected (''invalid: '' @ e)) r"

definition called :: "call \<Rightarrow> unit step" where
  "called c = (\<lambda>s. (Inr (), s\<lparr>is_calls := is_calls s @ [c]\<rparr>))"

definition traced :: "ingest_env \<Rightarrow> ingest_auth \<Rightarrow> trace_action \<Rightarrow> unit step" where
  "traced env auth a =
     (\<lambda>s. (Inr (), s\<lparr>is_trace := emit (is_trace s) a (state_for_request (ie_community env) (ie_host env) (auth_pubkey auth))\<rparr>))"

definition accepted :: "event \<Rightarrow> string \<Rightarrow> ingest_result step" where
  "accepted e message = st_return \<lparr>ir_event_id = ev_id e, ir_accepted = True, ir_message = message\<rparr>"

definition not_accepted :: "event \<Rightarrow> string \<Rightarrow> ingest_result step" where
  "not_accepted e message = st_return \<lparr>ir_event_id = ev_id e, ir_accepted = False, ir_message = message\<rparr>"

section \<open>Admission\<close>

text \<open>Subtraction and \<open>abs\<close> on \<open>i64\<close>.\<close>

definition i64_sub :: "int \<Rightarrow> int \<Rightarrow> int" where
  "i64_sub a b = sint (word_of_int (a - b) :: u64)"

definition i64_abs :: "int \<Rightarrow> int" where
  "i64_abs a = sint (word_of_int \<bar>a\<bar> :: u64)"

definition MAX_TIMESTAMP_DRIFT_SECS :: int where
  "MAX_TIMESTAMP_DRIFT_SECS = 900"

definition MAX_EVENT_CONTENT_BYTES :: nat where
  "MAX_EVENT_CONTENT_BYTES = 256 * 1024"

definition check_drift :: "int \<Rightarrow> event \<Rightarrow> ingest_error + unit" where
  "check_drift now e =
     check (\<not> i64_abs (i64_sub (as_i64 (ev_created_at e)) now) > MAX_TIMESTAMP_DRIFT_SECS)
       (Rejected ''invalid: event timestamp too far from server time'')"

definition check_signature :: "ingest_env \<Rightarrow> event \<Rightarrow> ingest_error + unit" where
  "check_signature env e =
     (case verify_event env e of
        Some (Inr _) \<Rightarrow> Inr ()
      | Some (Inl err) \<Rightarrow> Inl (Rejected (''invalid: '' @ err))
      | None \<Rightarrow> Inl (Internal ''error: internal verification error''))"

definition check_scope :: "event \<Rightarrow> ingest_auth \<Rightarrow> ingest_error + unit" where
  "check_scope e auth =
     (let kind = event_kind_u32 e in
      and_then (reject (required_scope_for_kind kind e)) (\<lambda>required.
      and_then (check (\<not> (is_relay_admin_kind kind \<and> auth_channel_ids auth \<noteq> None))
        (AuthFailed ''restricted: relay admin commands require a global token, not a channel-scoped token'')) (\<lambda>_.
      and_then (check (\<not> (kind = KIND_NIP43_LEAVE_REQUEST \<and> auth_channel_ids auth \<noteq> None))
        (AuthFailed ''restricted: leave requests require a global token'')) (\<lambda>_.
      check (required \<in> set (auth_scopes auth))
        (AuthFailed (''restricted: insufficient scope (need '' @ scope_as_str required @ '')''))))))"

definition admit :: "ingest_env \<Rightarrow> event \<Rightarrow> ingest_auth \<Rightarrow> ingest_error + unit" where
  "admit env e auth =
     (let kind = event_kind_u32 e in
      and_then (check (kind \<noteq> KIND_AUTH) (Rejected ''invalid: AUTH events cannot be submitted'')) (\<lambda>_.
      and_then (check (\<not> (kind = KIND_MEMBER_ADDED_NOTIFICATION \<or> kind = KIND_MEMBER_REMOVED_NOTIFICATION))
        (Rejected ''invalid: membership notifications are relay-signed only'')) (\<lambda>_.
      and_then (check (\<not> (auth_is_http auth \<and> (kind = KIND_GIFT_WRAP \<or> kind = KIND_PRESENCE_UPDATE)))
        (Rejected (''invalid: kind '' @ show_nat (unat kind) @ '' is only accepted via WebSocket''))) (\<lambda>_.
      and_then (check (\<not> is_relay_only_kind kind) (Rejected ''restricted: relay-only kind'')) (\<lambda>_.
      and_then (check_signature env e) (\<lambda>_.
      and_then (check_drift (now_checked env) e) (\<lambda>_.
      and_then (check (\<not> length (ev_content e) > MAX_EVENT_CONTENT_BYTES)
        (Rejected (''invalid: content exceeds maximum size of '' @ show_nat MAX_EVENT_CONTENT_BYTES @ '' bytes (got '' @
           show_nat (length (ev_content e)) @ '')''))) (\<lambda>_.
      and_then (check (\<not> (ev_pubkey e \<noteq> auth_pubkey auth \<and> kind \<noteq> KIND_GIFT_WRAP))
        (AuthFailed ''invalid: event pubkey does not match authenticated identity'')) (\<lambda>_.
      check_scope e auth)))))))))"

section \<open>Restrictions, channel and membership\<close>

definition check_restriction :: "ingest_env \<Rightarrow> u32 \<Rightarrow> ingest_auth \<Rightarrow> ingest_error + unit" where
  "check_restriction env kind auth =
     (if \<not> is_moderation_command_kind kind \<and> \<not> is_relay_admin_kind kind
      then (case moderation_restriction_state env (ie_community env) (auth_pubkey auth) of
              Inr r \<Rightarrow>
                if re_banned r then Inl (AuthFailed ''blocked: you are banned from this community'')
                else (case re_muted_until r of
                        Some until \<Rightarrow>
                          if until > now_restricted env
                          then Inl (AuthFailed (''restricted: you are timed out until '' @ show_i32 (until div 10 ^ 9)))
                          else Inr ()
                      | None \<Rightarrow> Inr ())
            | Inl e \<Rightarrow> Inl (Internal (''error: internal error checking restriction state: '' @ e)))
      else Inr ())"

definition deletion_channel :: "rule_env \<Rightarrow> uuid \<Rightarrow> event \<Rightarrow> ingest_error + uuid option" where
  "deletion_channel rules community e =
     (case find_map target_of_tag (ev_tags e) of
        Some target_bytes \<Rightarrow>
          (case get_event_by_id rules community target_bytes of
             Inr (Some target) \<Rightarrow> Inr (se_channel_id target)
           | Inr None \<Rightarrow> Inr None
           | Inl err \<Rightarrow> Inl (Internal (''error: looking up deletion target: '' @ err)))
      | None \<Rightarrow> Inr None)"

definition raw_channel :: "rule_env \<Rightarrow> uuid \<Rightarrow> event \<Rightarrow> ingest_error + uuid option" where
  "raw_channel rules community e =
     (let kind = event_kind_u32 e in
      if kind = KIND_REACTION
      then (case derive_reaction_channel rules community e of
              ReactionChannel ch_id \<Rightarrow> Inr (Some ch_id)
            | ReactionNoChannel \<Rightarrow> Inr None
            | ReactionNotFound \<Rightarrow> Inl (Rejected ''invalid: reaction target event not found'')
            | ReactionNoTarget \<Rightarrow> Inl (Rejected ''invalid: reaction must reference a target event via e tag'')
            | ReactionDbError err \<Rightarrow> Inl (Internal (''error: internal error looking up reaction target: '' @ err)))
      else if kind = KIND_GIFT_WRAP then Inr None
      else if kind = KIND_DELETION then deletion_channel rules community e
      else Inr (extract_channel_id rules e))"

definition request_channel :: "ingest_env \<Rightarrow> event \<Rightarrow> ingest_auth \<Rightarrow> ingest_error + uuid option" where
  "request_channel env e auth =
     (let kind = event_kind_u32 e in
      and_then (raw_channel (ie_rules env) (ie_community env) e) (\<lambda>raw.
      let channel_id = (if is_global_only_kind kind then None else raw) in
      and_then (check (\<not> (requires_h_channel_scope kind \<and> channel_id = None))
        (Rejected ''invalid: channel-scoped events must include an h tag'')) (\<lambda>_.
      and_then (case channel_id of
          Some ch_id \<Rightarrow> map_err AuthFailed (check_token_channel_access auth ch_id)
        | None \<Rightarrow> check (auth_channel_ids auth = None)
            (AuthFailed ''restricted: channel-scoped tokens cannot publish global events'')) (\<lambda>_.
      Inr channel_id))))"

definition fetch_channel :: "ingest_env \<Rightarrow> uuid option \<Rightarrow> channel_record option" where
  "fetch_channel env channel_id =
     (case channel_id of
        Some ch_id \<Rightarrow> (case get_channel (ie_rules env) (ie_community env) ch_id of Inr ch \<Rightarrow> Some ch | Inl _ \<Rightarrow> None)
      | None \<Rightarrow> None)"

definition thread_visibility :: "ingest_env \<Rightarrow> uuid option \<Rightarrow> channel_record option \<Rightarrow> threaded_visibility option" where
  "thread_visibility env channel_id channel_row =
     (case (channel_id, channel_row) of
        (Some ch_id, Some row) \<Rightarrow>
          (case channel_visibility_cached env (ie_community env) ch_id row of
             Inr v \<Rightarrow> Some \<lparr>tv_community_id = ie_community env, tv_channel_id = ch_id, tv_visibility = v\<rparr>
           | Inl _ \<Rightarrow> None)
      | _ \<Rightarrow> None)"

definition skip_membership :: "u32 \<Rightarrow> bool" where
  "skip_membership kind =
     (kind = KIND_NIP29_JOIN_REQUEST \<or> kind = KIND_NIP29_CREATE_GROUP \<or> kind = KIND_STREAM_MESSAGE_EDIT \<or>
      kind = KIND_NIP29_EDIT_METADATA \<or> kind = KIND_NIP29_DELETE_EVENT \<or> kind = KIND_NIP29_DELETE_GROUP)"

definition check_membership ::
  "ingest_env \<Rightarrow> event \<Rightarrow> ingest_auth \<Rightarrow> uuid option \<Rightarrow> channel_record option \<Rightarrow> unit step" where
  "check_membership env e auth channel_id channel_row =
     (case channel_id of
        Some ch_id \<Rightarrow>
          if \<not> skip_membership (event_kind_u32 e)
          then (let auth_result = check_channel_membership (ie_rules env) (ie_community env) ch_id (auth_pubkey auth) channel_row;
                    claimed = claimed_community_from_event (ie_rules env) e;
                    verdict = (case auth_result of Inr _ \<Rightarrow> Allow | Inl _ \<Rightarrow> Deny)
                in st_bind (traced env auth (AuthCheck (channel_label ch_id) claimed verdict)) (\<lambda>_.
                   gate (reject auth_result)))
          else st_return ()
      | None \<Rightarrow> st_return ())"

section \<open>Leaving the relay\<close>

definition check_leave :: "ingest_env \<Rightarrow> event \<Rightarrow> ingest_error + unit" where
  "check_leave env e =
     and_then (check (require_relay_membership env) (Rejected ''invalid: relay membership is not enabled'')) (\<lambda>_.
     let delta = i64_sub (as_i64 (ev_created_at e)) (now_leaving env) in
     and_then (check (\<not> i64_abs delta > 120)
       (Rejected (''invalid: leave request timestamp out of range (delta='' @ show_i32 delta @ ''s, max '' @
          [CHR 0xC2, CHR 0xB1] @ ''120s)''))) (\<lambda>_.
     check (list_ex (\<lambda>t. t \<noteq> [] \<and> hd t = ''-'') (ev_tags e))
       (Rejected (''invalid: leave request must include NIP-70 protected event tag ['' @ CHR 0x22 # ''-'' @ CHR 0x22 # '']''))))"

definition removal_result :: "remove_result \<Rightarrow> ingest_error + unit" where
  "removal_result r =
     (case r of
        MemberRemoved \<Rightarrow> Inr ()
      | MemberNotPresent \<Rightarrow> Inl (Rejected ''invalid: you are not a relay member'')
      | MemberIsOwner \<Rightarrow> Inl (Rejected ''invalid: relay owner cannot leave'')
      | MemberRoleMismatch \<Rightarrow> Inl (Internal ''unexpected RoleMismatch from remove_relay_member''))"

definition leave_relay :: "ingest_env \<Rightarrow> event \<Rightarrow> ingest_result step" where
  "leave_relay env e =
     st_bind (gate (check_leave env e)) (\<lambda>_.
     let sender_hex = ev_pubkey e in
     st_bind (called (RemoveRelayMember sender_hex)) (\<lambda>_.
     st_bind (gate (map_err (\<lambda>err. Internal (''database error: '' @ err))
       (remove_relay_member env (ie_community env) sender_hex))) (\<lambda>r.
     st_bind (gate (removal_result r)) (\<lambda>_.
     st_bind (called (PublishMemberRemoved sender_hex)) (\<lambda>_.
     st_bind (called PublishMembershipList) (\<lambda>_.
     accepted e ''info: you have left this relay''))))))"

section \<open>Validation by kind\<close>

definition is_admin_kind :: "u32 \<Rightarrow> bool" where
  "is_admin_kind kind = (9000 \<le> kind \<and> kind \<le> 9022)"

definition is_side_effect_kind :: "u32 \<Rightarrow> bool" where
  "is_side_effect_kind kind =
     (kind = 0 \<or> kind = 5 \<or> (9000 \<le> kind \<and> kind \<le> 9022) \<or> kind = KIND_GIT_REPO_ANNOUNCEMENT \<or>
      kind = KIND_AGENT_PROFILE \<or> (41001 \<le> kind \<and> kind \<le> 41003) \<or> kind = 40099)"

definition archive_identity :: "ingest_env \<Rightarrow> event \<Rightarrow> unit step" where
  "archive_identity env e =
     (if is_identity_archive_request_kind (event_kind_u32 e)
      then st_bind (called HandleIdentityArchive) (\<lambda>_. gate (invalid (handle_identity_archive_event env e)))
      else st_return ())"

definition is_unarchive :: "event \<Rightarrow> bool" where
  "is_unarchive e =
     (event_kind_u32 e = KIND_NIP29_EDIT_METADATA \<and>
      list_ex (\<lambda>parts. length parts \<ge> 2 \<and> parts ! 0 = ''archived'' \<and> parts ! 1 = ''false'') (ev_tags e))"

definition check_archived :: "event \<Rightarrow> uuid option \<Rightarrow> channel_record option \<Rightarrow> ingest_error + unit" where
  "check_archived e channel_id channel_row =
     (if channel_id \<noteq> None \<and> \<not> is_unarchive e
      then (case channel_row of
              Some channel \<Rightarrow> check (ch_archived_at channel = None) (Rejected ''invalid: channel is archived'')
            | None \<Rightarrow> Inr ())
      else Inr ())"

definition check_single_target :: "event \<Rightarrow> ingest_error + unit" where
  "check_single_target e =
     (if event_kind_u32 e = KIND_NIP29_DELETE_EVENT \<or> event_kind_u32 e = KIND_DELETION
      then (let e_count = count_e_tags e; a_count = length (filter (\<lambda>t. tag_name t = ''a'') (ev_tags e))
            in check (e_count + a_count = 1)
                 (Rejected (''invalid: deletion events must reference exactly one target via e or a tag (got e='' @
                    show_nat e_count @ '', a='' @ show_nat a_count @ '')'')))
      else Inr ())"

text \<open>The two \<open>expect\<close>s cannot fire: the envelope check leaves one \<open>p\<close> tag of 64 hex digits.\<close>

definition check_metric_owner :: "rule_env \<Rightarrow> uuid \<Rightarrow> event \<Rightarrow> ingest_error + unit" where
  "check_metric_owner rules community e =
     (let owner_hex = the (find_map (\<lambda>parts. if length parts \<ge> 2 \<and> parts ! 0 = ''p'' then Some (parts ! 1) else None) (ev_tags e))
      in and_then (map_err (\<lambda>err. Internal (''error: db error checking agent-turn-metric ownership: '' @ err))
           (is_agent_owner rules community (ev_pubkey e) owner_hex)) (\<lambda>is_owner.
         check is_owner
           (AuthFailed ''restricted: agent-turn-metric `p` tag must be the registered owner of this agent'')))"

definition on_kind :: "event \<Rightarrow> u32 \<Rightarrow> ingest_error + unit \<Rightarrow> ingest_error + unit" where
  "on_kind e kind r = (if event_kind_u32 e = kind then r else Inr ())"

definition check_kind :: "rule_env \<Rightarrow> uuid \<Rightarrow> event \<Rightarrow> ingest_error + unit" where
  "check_kind rules community e =
     and_then (on_kind e KIND_STREAM_MESSAGE_EDIT (invalid (validate_edit_ownership rules community e))) (\<lambda>_.
     and_then (on_kind e KIND_FORUM_VOTE (invalid (validate_forum_vote_target rules community e))) (\<lambda>_.
     and_then (on_kind e KIND_STREAM_MESSAGE_DIFF (invalid (validate_diff_event e))) (\<lambda>_.
     and_then (on_kind e KIND_AGENT_ENGRAM (invalid (validate_engram_envelope e))) (\<lambda>_.
     and_then (on_kind e KIND_AGENT_TURN_METRIC
       (and_then (invalid (validate_agent_turn_metric_envelope e)) (\<lambda>_. check_metric_owner rules community e))) (\<lambda>_.
     and_then (on_kind e KIND_EVENT_REMINDER (invalid (validate_event_reminder rules e))) (\<lambda>_.
     and_then (on_kind e KIND_PERSONA (invalid (validate_persona_envelope rules e))) (\<lambda>_.
     and_then (on_kind e KIND_TEAM_CATALOG (invalid (validate_team_catalog_envelope rules e))) (\<lambda>_.
     on_kind e KIND_PROJECT (invalid (map_err project_rejection_text (validate_project_envelope rules e)))))))))))"

section \<open>Creating a channel\<close>

definition first_content :: "string \<Rightarrow> event \<Rightarrow> string option" where
  "first_content name e = find_map (\<lambda>t. if tag_name t = name then tag_content t else None) (ev_tags e)"

definition parse_i32 :: "string \<Rightarrow> int option" where
  "parse_i32 s = (case parse_i64 s of Some v \<Rightarrow> if - (2 ^ 31) \<le> v \<and> v < 2 ^ 31 then Some v else None | None \<Rightarrow> None)"

definition resolve_ttl :: "event \<Rightarrow> int option \<Rightarrow> int option" where
  "resolve_ttl e ttl_override =
     (let from_tag = find_map (\<lambda>t. if tag_name t = ''ttl'' then Option.bind (tag_content t) parse_i32 else None) (ev_tags e)
      in case (from_tag, ttl_override) of
           (Some original, Some ovr) \<Rightarrow> Some ovr
         | (ttl, _) \<Rightarrow> ttl)"

definition channel_request :: "ingest_env \<Rightarrow> event \<Rightarrow> uuid \<Rightarrow> ingest_error + new_channel" where
  "channel_request env e client_uuid =
     (let visibility_str = unwrap_or ''open'' (first_content ''visibility'' e);
          channel_type_str = unwrap_or ''stream'' (first_content ''channel_type'' e);
          quote = debug_text (ie_rules env)
      in and_then (check (\<not> (case first_content ''name'' e of None \<Rightarrow> True | Some n \<Rightarrow> trim (canonical_channel_name n) = []))
           (Rejected ''invalid: channel name is required'')) (\<lambda>_.
         and_then (map_err (\<lambda>_. Rejected (''invalid visibility: '' @ visibility_str)) (visibility_from_str quote visibility_str)) (\<lambda>visibility.
         and_then (map_err (\<lambda>_. Rejected (''invalid channel_type: '' @ channel_type_str)) (channel_type_from_str quote channel_type_str)) (\<lambda>channel_type.
         Inr \<lparr>nc_id = client_uuid, nc_name = canonical_channel_name (unwrap_or [] (first_content ''name'' e)),
              nc_type = channel_type, nc_visibility = visibility, nc_description = first_content ''about'' e,
              nc_created_by = ev_pubkey e, nc_ttl_seconds = resolve_ttl e (ephemeral_ttl_override env)\<rparr>))))"

text \<open>The result is the answer when the channel exists already, else the channel that was created.\<close>

definition create_group :: "ingest_env \<Rightarrow> event \<Rightarrow> uuid option \<Rightarrow> (ingest_result + uuid option) step" where
  "create_group env e channel_id =
     (if event_kind_u32 e = KIND_NIP29_CREATE_GROUP
      then st_bind (gate (channel_request env e (unwrap_or [] channel_id))) (\<lambda>request.
           case channel_id of
             Some client_uuid \<Rightarrow>
               st_bind (called (CreateChannel request)) (\<lambda>_.
               st_bind (gate (map_err (\<lambda>err. Internal (''error: '' @ err)) (create_channel_with_id env (ie_community env) request))) (\<lambda>was_created.
               if \<not> was_created
               then st_bind (not_accepted e ''duplicate: channel already exists'') (\<lambda>r. st_return (Inl r))
               else st_return (Inr (Some client_uuid))))
           | None \<Rightarrow> st_return (Inr None))
      else st_return (Inr None))"

definition check_join :: "event \<Rightarrow> uuid option \<Rightarrow> channel_record option \<Rightarrow> ingest_error + unit" where
  "check_join e channel_id channel_row =
     (if event_kind_u32 e = KIND_NIP29_JOIN_REQUEST
      then and_then (check (channel_id \<noteq> None) (Rejected ''invalid: join request must include an h tag'')) (\<lambda>_.
           case channel_row of
             Some ch \<Rightarrow> check (ch_visibility ch \<noteq> ''private'') (Rejected ''restricted: channel is private'')
           | None \<Rightarrow> Inl (Rejected ''invalid: channel not found''))
      else Inr ())"

section \<open>Push leases\<close>

definition lease_result :: "accept_lease_outcome \<Rightarrow> ingest_error + unit" where
  "lease_result outcome =
     (case outcome of
        LeaseAccepted \<Rightarrow> Inr ()
      | StaleEvent \<Rightarrow> Inl (Rejected ''invalid: stale replacement'')
      | StaleGeneration \<Rightarrow> Inl (Rejected ''invalid: stale generation'')
      | EndpointAlreadyLeased \<Rightarrow> Inl (Rejected ''invalid: endpoint already leased'')
      | LeaseQuotaExceeded \<Rightarrow> Inl (Rejected ''invalid: lease quota exceeded'')
      | SourceEventCollision \<Rightarrow> Inl (Rejected ''invalid: source event collision'')
      | ConstraintViolation \<Rightarrow> Inl (Rejected ''invalid: lease constraint violation''))"

definition accept_push_lease :: "ingest_env \<Rightarrow> event \<Rightarrow> ingest_auth \<Rightarrow> ingest_result step" where
  "accept_push_lease env e auth =
     st_bind (called AcceptLease) (\<lambda>_.
     st_bind (gate (map_err map_push_accept_error (push_lease_accept env e (now_checked env)))) (\<lambda>outcome.
     st_bind (gate (lease_result outcome)) (\<lambda>_.
     st_bind (traced env auth (WriteInsertGlobal (msg_id_label (ev_id e)) (claimed_community_from_event (ie_rules env) e))) (\<lambda>_.
     accepted e []))))"

section \<open>Content\<close>

definition media_base_url_for_tenant :: "string \<Rightarrow> string \<Rightarrow> string" where
  "media_base_url_for_tenant config_url tenant_host =
     (let url = trim_start_matches white_space config_url;
          scheme = (if starts_with url ''wss://'' \<or> starts_with url ''https://'' then ''https'' else ''http'')
      in scheme @ ''://'' @ tenant_host @ ''/media'')"

definition check_imeta :: "ingest_env \<Rightarrow> event \<Rightarrow> ingest_error + unit" where
  "check_imeta env e =
     (let imeta_tags = filter (\<lambda>t. tag_name t = ''imeta'') (ev_tags e) in
      if imeta_tags \<noteq> []
      then and_then (invalid (validate_imeta_tags env imeta_tags (media_base_url_for_tenant (config_relay_url env) (ie_host env)))) (\<lambda>_.
           invalid (verify_imeta_blobs env imeta_tags))
      else Inr ())"

definition thread_meta :: "rule_env \<Rightarrow> uuid \<Rightarrow> event \<Rightarrow> uuid option \<Rightarrow> ingest_error + thread_metadata_owned option" where
  "thread_meta rules community e channel_id =
     (if requires_h_channel_scope (event_kind_u32 e)
      then (case channel_id of
              Some ch_id \<Rightarrow> invalid (resolve_nip10_thread_meta rules community e ch_id)
            | None \<Rightarrow> Inr None)
      else Inr None)"

definition check_content_by_kind :: "ingest_env \<Rightarrow> event \<Rightarrow> ingest_error + unit" where
  "check_content_by_kind env e =
     (let kind = event_kind_u32 e in
      and_then (check (\<not> (kind = KIND_PROFILE \<and> \<not> is_json env (ev_content e)))
        (Rejected ''invalid: kind:0 content must be valid JSON'')) (\<lambda>_.
      if kind = KIND_EMOJI_SET \<or> kind = KIND_EMOJI_LIST then validate_custom_emoji_tags e else Inr ()))"

definition as_params :: "thread_metadata_owned \<Rightarrow> thread_params" where
  "as_params m =
     \<lparr>tp_event_id = to_event_id m, tp_event_created_at = to_event_created_at m, tp_channel_id = to_channel_id m,
      tp_parent_event_id = Some (to_parent_event_id m),
      tp_parent_event_created_at = Some (to_parent_event_created_at m),
      tp_root_event_id = Some (to_root_event_id m), tp_root_event_created_at = Some (to_root_event_created_at m),
      tp_depth = to_depth m, tp_broadcast = to_broadcast m\<rparr>"

section \<open>Storage\<close>

definition thread_view :: "ingest_state \<Rightarrow> thread_db" where
  "thread_view s = \<lparr>td_events = hs_db (is_heads s), td_threads = is_threads s, td_reactions = is_reactions s\<rparr>"

definition put_threads :: "thread_db \<Rightarrow> ingest_state \<Rightarrow> ingest_state" where
  "put_threads db s =
     s\<lparr>is_heads := (is_heads s)\<lparr>hs_db := td_events db\<rparr>, is_threads := td_threads db, is_reactions := td_reactions db\<rparr>"

definition transact :: "(thread_db \<Rightarrow> db_error + 'a \<times> thread_db) \<Rightarrow> (db_error + 'a) step" where
  "transact f = (\<lambda>s. case f (thread_view s) of Inl err \<Rightarrow> (Inr (Inl err), s) | Inr (x, db) \<Rightarrow> (Inr (Inr x), put_threads db s))"

text \<open>The entry points of the \<open>Db\<close> handle index the mentions of a new event; a failure there is only logged.\<close>

definition index_new :: "(int \<Rightarrow> bool) \<Rightarrow> uuid \<Rightarrow> event \<Rightarrow> uuid option \<Rightarrow> bool \<Rightarrow> thread_db \<Rightarrow> thread_db" where
  "index_new valid c e channel_id is_new db =
     (if is_new then db\<lparr>td_events := index_mentions valid c e channel_id (td_events db)\<rparr> else db)"

definition db_insert_event_with_thread_metadata ::
  "(int \<Rightarrow> bool) \<Rightarrow> nat \<Rightarrow> thread_db \<Rightarrow> uuid \<Rightarrow> event \<Rightarrow> uuid option \<Rightarrow> thread_params option
   \<Rightarrow> db_error + (stored_event \<times> bool) \<times> thread_db" where
  "db_insert_event_with_thread_metadata valid now db c e channel_id meta =
     and_then (insert_event_with_thread_metadata valid now db c e channel_id meta) (\<lambda>(result, db').
     Inr (result, index_new valid c e channel_id (snd result) db'))"

definition db_insert_reaction_event_with_thread_metadata ::
  "(int \<Rightarrow> bool) \<Rightarrow> nat \<Rightarrow> thread_db \<Rightarrow> uuid \<Rightarrow> event \<Rightarrow> uuid option \<Rightarrow> thread_params option \<Rightarrow> string \<Rightarrow> string \<Rightarrow> string
   \<Rightarrow> db_error + reaction_insert_outcome \<times> thread_db" where
  "db_insert_reaction_event_with_thread_metadata valid now db c e channel_id meta target reactor emoji =
     and_then (insert_reaction_event_with_thread_metadata valid now db c e channel_id meta target reactor emoji) (\<lambda>(outcome, db').
     Inr (outcome, index_new valid c e channel_id
       (case outcome of ReactionInserted _ was_inserted \<Rightarrow> was_inserted | _ \<Rightarrow> False) db'))"

definition db_failure :: "ingest_env \<Rightarrow> db_error + 'a \<Rightarrow> ingest_error + 'a" where
  "db_failure env r = map_err (\<lambda>err. Internal (''error: '' @ db_error_text env err)) r"

definition expect_channel :: "uuid option \<Rightarrow> uuid step" where
  "expect_channel channel_id =
     (\<lambda>s. case channel_id of Some ch \<Rightarrow> (Inr ch, s) | None \<Rightarrow> (Inl (Panicked ''reaction path has channel''), s))"

definition dispatch ::
  "stored_event \<Rightarrow> u32 \<Rightarrow> ingest_auth \<Rightarrow> threaded_visibility option \<Rightarrow> unit step" where
  "dispatch stored kind auth visibility = called (DispatchPersistentEvent stored kind (auth_pubkey auth) visibility)"

definition finish_reaction ::
  "ingest_env \<Rightarrow> event \<Rightarrow> ingest_auth \<Rightarrow> uuid option \<Rightarrow> threaded_visibility option \<Rightarrow> stored_event \<Rightarrow> bool \<Rightarrow> ingest_result step" where
  "finish_reaction env e auth channel_id visibility stored was_inserted =
     (let claimed = claimed_community_from_event (ie_rules env) e; msg = msg_id_label (ev_id e) in
      st_bind (expect_channel channel_id) (\<lambda>ch.
      st_bind (traced env auth (if was_inserted then WriteInsert msg (channel_label ch) claimed
                                else WriteDuplicate msg (channel_label ch) claimed)) (\<lambda>_.
      st_bind (dispatch stored (event_kind_u32 e) auth visibility) (\<lambda>_.
      accepted e []))))"

definition store_reaction ::
  "ingest_env \<Rightarrow> event \<Rightarrow> ingest_auth \<Rightarrow> uuid option \<Rightarrow> thread_metadata_owned option \<Rightarrow> threaded_visibility option
   \<Rightarrow> ingest_result step" where
  "store_reaction env e auth channel_id meta visibility =
     st_bind (gate (ok_or (find_map target_of_tag (rev (ev_tags e)))
       (Rejected ''invalid: reaction must reference a target event via e tag''))) (\<lambda>target_id.
     let actor = effective_message_author e (relay_pubkey (ie_rules env));
         emoji = (if ev_content e = [] then ''+'' else ev_content e)
     in st_bind (gate (validate_reaction_emoji e emoji)) (\<lambda>_.
        st_bind (transact (\<lambda>db. db_insert_reaction_event_with_thread_metadata (from_timestamp (ie_rules env)) (db_now env) db
          (ie_community env) e channel_id (map_option as_params meta) target_id actor emoji)) (\<lambda>r.
        st_bind (gate (db_failure env r)) (\<lambda>outcome.
        case outcome of
          TargetMissing \<Rightarrow> gate (Inl (Rejected ''invalid: reaction target event not found''))
        | DuplicateReaction \<Rightarrow> not_accepted e ''duplicate: reaction already exists''
        | ReactionInserted stored was_inserted \<Rightarrow> finish_reaction env e auth channel_id visibility stored was_inserted))))"

text \<open>Replacement on the event tables and the watermarks.\<close>

definition replace_event ::
  "ingest_env \<Rightarrow> event \<Rightarrow> uuid option \<Rightarrow> (stored_event \<times> bool) step" where
  "replace_event env e channel_id =
     (\<lambda>s. case replace_addressable_event (from_timestamp (ie_rules env)) (db_now env) (hs_db (is_heads s)) (ie_community env) e channel_id of
        Inl err \<Rightarrow> (Inl (Failed (Internal (''error: '' @ db_error_text env err))), s)
      | Inr (r, db) \<Rightarrow> (Inr r, s\<lparr>is_heads := (is_heads s)\<lparr>hs_db := db\<rparr>\<rparr>))"

definition replace_parameterized ::
  "ingest_env \<Rightarrow> event \<Rightarrow> uuid option \<Rightarrow> (stored_event \<times> bool) step" where
  "replace_parameterized env e channel_id =
     (let d_tag = unwrap_or [] (extract_d_tag e) in
      st_bind (gate (check (\<not> length d_tag > D_TAG_MAX_LEN)
        (Rejected (''invalid: d tag too long ('' @ show_nat (length d_tag) @ '' bytes, max '' @ show_nat D_TAG_MAX_LEN @ '')'')))) (\<lambda>_ s.
      case replace_parameterized_event (from_timestamp (ie_rules env)) (db_now env) (is_heads s) (ie_community env) e d_tag channel_id of
        Inl err \<Rightarrow> (Inl (Failed (Internal (''error: '' @ db_error_text env err))), s)
      | Inr (r, heads) \<Rightarrow> (Inr r, s\<lparr>is_heads := heads\<rparr>)))"

definition insert_failure :: "ingest_env \<Rightarrow> db_error \<Rightarrow> ingest_error" where
  "insert_failure env err =
     (case err of
        AuthEventRejected \<Rightarrow> Rejected ''invalid: AUTH events cannot be stored''
      | other \<Rightarrow> Internal (''error: database error: '' @ db_error_text env other))"

definition compensate :: "uuid option \<Rightarrow> unit step" where
  "compensate pre_created_channel =
     (case pre_created_channel of
        Some ch_id \<Rightarrow> st_bind (called (SoftDeleteChannel ch_id)) (\<lambda>_. called InvalidateChannelDeleted)
      | None \<Rightarrow> st_return ())"

definition insert_event_step ::
  "ingest_env \<Rightarrow> event \<Rightarrow> uuid option \<Rightarrow> thread_metadata_owned option \<Rightarrow> uuid option \<Rightarrow> (stored_event \<times> bool) step" where
  "insert_event_step env e channel_id meta pre_created_channel =
     st_bind (transact (\<lambda>db. db_insert_event_with_thread_metadata (from_timestamp (ie_rules env)) (db_now env) db (ie_community env) e
       channel_id (map_option as_params meta))) (\<lambda>r.
     case r of
       Inr result \<Rightarrow> st_return result
     | Inl err \<Rightarrow> st_bind (compensate pre_created_channel) (\<lambda>_. gate (Inl (insert_failure env err))))"

definition persist ::
  "ingest_env \<Rightarrow> event \<Rightarrow> uuid option \<Rightarrow> thread_metadata_owned option \<Rightarrow> uuid option \<Rightarrow> (stored_event \<times> bool) step" where
  "persist env e channel_id meta pre_created_channel =
     (let kind = event_kind_u32 e in
      if is_replaceable kind then replace_event env e channel_id
      else if is_parameterized_replaceable kind then replace_parameterized env e channel_id
      else insert_event_step env e channel_id meta pre_created_channel)"

definition write_action :: "ingest_env \<Rightarrow> event \<Rightarrow> uuid option \<Rightarrow> bool \<Rightarrow> trace_action" where
  "write_action env e channel_id was_inserted =
     (let claimed = claimed_community_from_event (ie_rules env) e; msg = msg_id_label (ev_id e) in
      case (channel_id, was_inserted) of
        (Some ch, True) \<Rightarrow> WriteInsert msg (channel_label ch) claimed
      | (Some ch, False) \<Rightarrow> WriteDuplicate msg (channel_label ch) claimed
      | (None, _) \<Rightarrow> WriteInsertGlobal msg claimed)"

definition store_event ::
  "ingest_env \<Rightarrow> event \<Rightarrow> ingest_auth \<Rightarrow> uuid option \<Rightarrow> thread_metadata_owned option \<Rightarrow> threaded_visibility option
   \<Rightarrow> uuid option \<Rightarrow> ingest_result step" where
  "store_event env e auth channel_id meta visibility pre_created_channel =
     (let kind = event_kind_u32 e in
      st_bind (persist env e channel_id meta pre_created_channel) (\<lambda>(stored, was_inserted).
      if \<not> was_inserted then accepted e ''duplicate:''
      else
        st_bind (if is_side_effect_kind kind then called (HandleSideEffects kind) else st_return ()) (\<lambda>_.
        st_bind (case meta of Some m \<Rightarrow> called (EmitThreadSummary (to_channel_id m) (to_root_event_id m)) | None \<Rightarrow> st_return ()) (\<lambda>_.
        st_bind (traced env auth (write_action env e channel_id was_inserted)) (\<lambda>_.
        st_bind (dispatch stored kind auth visibility) (\<lambda>_.
        accepted e []))))))"

section \<open>The pipeline\<close>

text \<open>After the membership check, for the events that may be stored.\<close>

definition ingest_content ::
  "ingest_env \<Rightarrow> event \<Rightarrow> ingest_auth \<Rightarrow> uuid option \<Rightarrow> threaded_visibility option \<Rightarrow> uuid option \<Rightarrow> ingest_result step" where
  "ingest_content env e auth channel_id visibility pre_created_channel =
     st_bind (gate (check_imeta env e)) (\<lambda>_.
     st_bind (gate (thread_meta (ie_rules env) (ie_community env) e channel_id)) (\<lambda>meta.
     st_bind (gate (check_content_by_kind env e)) (\<lambda>_.
     if event_kind_u32 e = KIND_REACTION then store_reaction env e auth channel_id meta visibility
     else store_event env e auth channel_id meta visibility pre_created_channel)))"

definition ingest_validated ::
  "ingest_env \<Rightarrow> event \<Rightarrow> ingest_auth \<Rightarrow> uuid option \<Rightarrow> channel_record option \<Rightarrow> threaded_visibility option \<Rightarrow> ingest_result step" where
  "ingest_validated env e auth channel_id channel_row visibility =
     (let kind = event_kind_u32 e in
      st_bind (gate (if is_admin_kind kind then invalid (validate_admin_event env kind e) else Inr ())) (\<lambda>_.
      st_bind (archive_identity env e) (\<lambda>_.
      st_bind (gate (on_kind e KIND_DELETION (invalid (validate_standard_deletion_event env e)))) (\<lambda>_.
      st_bind (gate (check_archived e channel_id channel_row)) (\<lambda>_.
      st_bind (gate (check_single_target e)) (\<lambda>_.
      st_bind (gate (check_kind (ie_rules env) (ie_community env) e)) (\<lambda>_.
      st_bind (create_group env e channel_id) (\<lambda>created.
      case created of
        Inl result \<Rightarrow> st_return result
      | Inr pre_created_channel \<Rightarrow>
          st_bind (gate (check_join e channel_id channel_row)) (\<lambda>_.
          if kind = KIND_PUSH_LEASE then accept_push_lease env e auth
          else ingest_content env e auth channel_id visibility pre_created_channel)))))))))"

definition ingest_member :: "ingest_env \<Rightarrow> event \<Rightarrow> ingest_auth \<Rightarrow> ingest_result step" where
  "ingest_member env e auth =
     (let kind = event_kind_u32 e in
      st_bind (gate (check_restriction env kind auth)) (\<lambda>_.
      st_bind (gate (request_channel env e auth)) (\<lambda>channel_id.
      let channel_row = fetch_channel env channel_id; visibility = thread_visibility env channel_id channel_row in
      st_bind (check_membership env e auth channel_id channel_row) (\<lambda>_.
      if is_relay_admin_kind kind
      then st_bind (called HandleRelayAdmin) (\<lambda>_.
           st_bind (gate (map_err map_relay_admin_error (handle_relay_admin_event env e))) (\<lambda>_.
           accepted e []))
      else if kind = KIND_NIP43_LEAVE_REQUEST then leave_relay env e
      else ingest_validated env e auth channel_id channel_row visibility))))"

definition handled :: "event \<Rightarrow> call \<Rightarrow> string + unit \<Rightarrow> ingest_result step" where
  "handled e c r = st_bind (called c) (\<lambda>_. st_bind (gate (reject r)) (\<lambda>_. accepted e []))"

definition ingest_event_inner :: "ingest_env \<Rightarrow> event \<Rightarrow> ingest_auth \<Rightarrow> ingest_result step" where
  "ingest_event_inner env e auth =
     (let kind = event_kind_u32 e in
      st_bind (gate (admit env e auth)) (\<lambda>_.
      if is_command_kind kind
      then st_bind (called HandleCommand) (\<lambda>_. gate (handle_command env e auth))
      else if kind = KIND_PRODUCT_FEEDBACK
      then st_bind (called HandleProductFeedback) (\<lambda>_.
           st_bind (gate (reject (product_feedback_handle env e))) (\<lambda>_.
           st_bind (traced env auth (WriteInsertGlobal (msg_id_label (ev_id e)) (claimed_community_from_event (ie_rules env) e))) (\<lambda>_.
           accepted e [])))
      else if kind = KIND_REPORT then handled e HandleReport (handle_report_event env e)
      else if is_moderation_command_kind kind then handled e HandleModerationCommand (handle_moderation_command env e)
      else ingest_member env e auth))"

text \<open>
  The wrapper: the guard is armed on an empty trace, an error is reported to the trace as its class, and
  dropping the guard records a breach when nothing was recorded. A panic unwinds past the report.
\<close>

definition ingest_event :: "ingest_env \<Rightarrow> event \<Rightarrow> ingest_auth \<Rightarrow> ingest_result step" where
  "ingest_event env e auth s =
     (let abstract = state_for_request (ie_community env) (ie_host env) (auth_pubkey auth);
          (result, s') = ingest_event_inner env e auth (s\<lparr>is_trace := []\<rparr>);
          steps = (case result of
             Inl (Failed err) \<Rightarrow> emit (is_trace s') (SanitizedError (sanitized_reason_for err)) abstract
           | _ \<Rightarrow> is_trace s')
      in (result, s'\<lparr>is_trace := is_trace s @ drop_guard ''ingest_event_exited_without_trace'' abstract steps\<rparr>))"

end
