(* ===== verification/Ingest_Frame.thy ===== *)
theory Ingest_Frame
  imports Ingest_Pipeline
begin

text \<open>
  Reasoning about the steps of the write pipeline. \<open>always R\<close> says that a step relates the state before to
  the state after, whatever it returns; \<open>guarded\<close>, that a part of the state changes only under a condition;
  \<open>yields\<close>, what holds where a step returns a value. The locale \<open>request_relation\<close> takes a reflexive and
  transitive relation that calls and trace records respect, and shows it of every handler that stores
  no rows; \<open>request_storage\<close> adds the four storage steps and shows it of a whole request.
\<close>

section \<open>Steps as relations\<close>

definition always :: "(ingest_state \<Rightarrow> ingest_state \<Rightarrow> bool) \<Rightarrow> 'a step \<Rightarrow> bool" where
  "always R m \<longleftrightarrow> (\<forall>s. R s (snd (m s)))"

abbreviation keeps :: "(ingest_state \<Rightarrow> 'k) \<Rightarrow> 'a step \<Rightarrow> bool" where
  "keeps view \<equiv> always (\<lambda>s s'. view s' = view s)"

lemma alwaysI: "(\<And>s. R s (snd (m s))) \<Longrightarrow> always R m"
  by (simp add: always_def)

lemma alwaysD: "always R m \<Longrightarrow> m s = (r, s') \<Longrightarrow> R s s'"
  by (metis always_def snd_conv)

lemma bind_gate: "st_bind (gate r) f s = (case r of Inl err \<Rightarrow> (Inl (Failed err), s) | Inr x \<Rightarrow> f x s)"
  by (simp add: st_bind_def gate_def map_err_def split: sum.split)

lemma bind_called: "st_bind (called c) f s = f () (s\<lparr>is_calls := is_calls s @ [c]\<rparr>)"
  by (simp add: st_bind_def called_def)

lemma bind_Inr: "st_bind m f s = (Inr y, s') \<longleftrightarrow> (\<exists>x s1. m s = (Inr x, s1) \<and> f x s1 = (Inr y, s'))"
  by (auto simp: st_bind_def split: prod.split sum.split)

locale request_relation =
  fixes env :: ingest_env and auth :: ingest_auth
    and R :: "ingest_state \<Rightarrow> ingest_state \<Rightarrow> bool"
  assumes same: "R s s"
    and next_step: "R s s1 \<Longrightarrow> R s1 s2 \<Longrightarrow> R s s2"
    and calls: "R s (s\<lparr>is_calls := cs\<rparr>)"
    and recorded: "R s (snd (traced env auth a s))"
begin

lemma of_return: "always R (st_return x)"
  by (simp add: always_def st_return_def same)

lemma of_gate: "always R (gate r)"
  by (simp add: always_def gate_def same)

lemma of_bind:
  assumes "always R m" and "\<And>x. always R (f x)"
  shows "always R (st_bind m f)"
proof (rule alwaysI)
  fix s
  obtain r s1 where m: "m s = (r, s1)" by fastforce
  have "R s s1" by (rule alwaysD [OF assms(1) m])
  moreover have "R s1 (snd (f x s1))" for x using assms(2) by (simp add: always_def)
  ultimately show "R s (snd (st_bind m f s))"
    using next_step by (cases r) (auto simp: st_bind_def m)
qed

lemma of_if: "always R m \<Longrightarrow> always R n \<Longrightarrow> always R (if b then m else n)"
  by simp

lemma of_accepted: "always R (accepted e message)"
  unfolding accepted_def by (rule of_return)

lemma of_not_accepted: "always R (not_accepted e message)"
  unfolding not_accepted_def by (rule of_return)

lemma of_called: "always R (called c)"
  by (simp add: always_def called_def calls)

lemma of_traced: "always R (traced env auth a)"
  by (simp add: always_def recorded)

lemmas framed = of_bind of_return of_gate of_if of_accepted of_not_accepted of_called of_traced

lemma of_membership: "always R (check_membership env e auth channel_id channel_row)"
  unfolding check_membership_def Let_def by (auto split: option.split intro!: framed)

lemma of_leave: "always R (leave_relay env e)"
  unfolding leave_relay_def Let_def by (intro framed)

lemma of_archive: "always R (archive_identity env e)"
  unfolding archive_identity_def by (intro framed)

lemma of_create: "always R (create_group env e channel_id)"
  unfolding create_group_def by (auto split: option.split intro!: framed)

lemma of_lease: "always R (accept_push_lease env e auth)"
  unfolding accept_push_lease_def by (intro framed)

lemma of_handled: "always R (handled e c r)"
  unfolding handled_def by (intro framed)

lemma of_compensate: "always R (compensate ch)"
  unfolding compensate_def by (auto split: option.split intro!: framed)

lemma of_dispatch: "always R (dispatch stored kind auth' visibility)"
  unfolding dispatch_def by (rule of_called)

lemma of_expect: "always R (expect_channel channel_id)"
  by (simp add: always_def expect_channel_def same split: option.split)

lemma of_finish: "always R (finish_reaction env e auth channel_id visibility stored was_inserted)"
  unfolding finish_reaction_def Let_def by (intro framed of_expect of_dispatch)

lemma of_command: "always R (st_bind (called c) (\<lambda>_. gate r))"
  by (intro framed)

lemma of_recorded:
  "always R (st_bind (called c) (\<lambda>_. st_bind (gate r) (\<lambda>_. st_bind (traced env auth a) (\<lambda>_. accepted e msg))))"
  by (intro framed)

lemma of_administered: "always R (st_bind (called c) (\<lambda>_. st_bind (gate r) (\<lambda>_. accepted e msg)))"
  by (intro framed)

lemmas handlers = of_membership of_leave of_archive of_create of_lease of_handled of_command of_recorded of_administered

lemma of_summary:
  "always R (case meta of Some m \<Rightarrow> called (EmitThreadSummary (to_channel_id m) (to_root_event_id m)) | None \<Rightarrow> st_return ())"
  by (simp add: of_called of_return split: option.split)

lemma of_announcement:
  "always R (st_bind (if is_side_effect_kind kind then called (HandleSideEffects kind) else st_return ()) (\<lambda>_.
     st_bind (case meta of Some m \<Rightarrow> called (EmitThreadSummary (to_channel_id m) (to_root_event_id m)) | None \<Rightarrow> st_return ()) (\<lambda>_.
     st_bind (traced env auth a) (\<lambda>_.
     st_bind (dispatch stored kind auth' visibility) (\<lambda>_. accepted e msg)))))"
  by (intro framed of_dispatch of_summary)

end

locale request_storage = request_relation +
  assumes replaced: "is_replaceable (event_kind_u32 e) \<Longrightarrow> always R (replace_event env e channel_id)"
    and replaced_parameterized: "is_parameterized_replaceable (event_kind_u32 e) \<Longrightarrow> always R (replace_parameterized env e channel_id)"
    and inserted: "always R (transact (\<lambda>db. db_insert_event_with_thread_metadata (from_timestamp (ie_rules env))
      (db_now env) db (ie_community env) e channel_id meta))"
    and reacted: "always R (transact (\<lambda>db. db_insert_reaction_event_with_thread_metadata (from_timestamp (ie_rules env))
      (db_now env) db (ie_community env) e channel_id meta target reactor emoji))"
begin

lemma of_persist: "always R (persist env e channel_id meta created)"
proof -
  have "always R (insert_event_step env e channel_id meta created)"
    unfolding insert_event_step_def
    by (rule of_bind [OF inserted]) (auto split: sum.split intro!: framed of_compensate)
  then show ?thesis
    by (simp add: persist_def Let_def replaced replaced_parameterized)
qed

lemma of_store: "always R (store_event env e auth channel_id meta visibility created)"
  unfolding store_event_def Let_def
  by (rule of_bind [OF of_persist]) (simp only: case_prod_beta, intro of_if of_announcement of_accepted)

lemma of_reaction: "always R (store_reaction env e auth channel_id meta visibility)"
proof -
  have outcome: "always R
      (case out of TargetMissing \<Rightarrow> gate (Inl err) | DuplicateReaction \<Rightarrow> not_accepted e msg
       | ReactionInserted stored new \<Rightarrow> finish_reaction env e auth channel_id visibility stored new)" for out err msg
    by (cases out) (simp_all add: framed of_finish)
  show ?thesis
    unfolding store_reaction_def Let_def by (rule outcome reacted of_bind of_gate)+
qed

lemma of_content: "always R (ingest_content env e auth channel_id visibility created)"
  unfolding ingest_content_def by (intro framed of_store of_reaction)

lemma of_validated: "always R (ingest_validated env e auth channel_id row visibility)"
proof -
  have created: "always R (case x of Inl r \<Rightarrow> st_return r | Inr c \<Rightarrow> f c)"
    if "\<And>c. always R (f c)" for x :: "ingest_result + uuid option" and f
    using that by (cases x) (simp_all add: of_return)
  show ?thesis
    unfolding ingest_validated_def Let_def by (rule created of_content handlers of_bind of_gate of_if)+
qed

lemma of_inner: "always R (ingest_event_inner env e auth)"
proof -
  have "always R (ingest_member env e auth)"
    unfolding ingest_member_def Let_def by (rule handlers of_validated of_bind of_gate of_if)+
  then show ?thesis
    unfolding ingest_event_inner_def Let_def by - (rule handlers of_bind of_gate of_if | assumption)+
qed

end

section \<open>The tables\<close>

text \<open>A reaction transaction either leaves the tables alone or adds its reaction and its event.\<close>

lemma reaction_tx_cases:
  assumes "insert_reaction_event_with_thread_metadata valid now db c e ch meta target reactor em = Inr (out, db')"
  obtains (Same) "db' = db"
  | (Stored) t xs r where "add_reaction now (td_reactions db) c target t reactor em (Some (ev_id e)) = Inr (True, xs)"
      "insert_event_with_thread_metadata_tx valid now (db\<lparr>td_reactions := xs\<rparr>) c e ch meta = Inr (r, db')"
  using assms by (auto simp: insert_reaction_event_with_thread_metadata_def and_then_Inr split: list.splits if_splits)

definition tables :: "ingest_state \<Rightarrow> head_store \<times> thread_row list \<times> reaction_row list" where
  "tables s = (is_heads s, is_threads s, is_reactions s)"

interpretation stored: request_relation env auth "\<lambda>s s'. tables s' = tables s"
  by unfold_locales (simp_all add: tables_def traced_def)

section \<open>Guards\<close>

text \<open>A step changes a part of the state only when a condition holds: then every check in front of the change was passed.\<close>

definition guarded :: "(ingest_state \<Rightarrow> 'k) \<Rightarrow> bool \<Rightarrow> 'a step \<Rightarrow> bool" where
  "guarded view P m \<longleftrightarrow> (\<forall>s. view (snd (m s)) \<noteq> view s \<longrightarrow> P)"

lemma guardedD: "guarded view P m \<Longrightarrow> m s = (r, s') \<Longrightarrow> view s' \<noteq> view s \<Longrightarrow> P"
  unfolding guarded_def by (metis snd_conv)

definition succeeds :: "'a step \<Rightarrow> 'a \<Rightarrow> bool" where
  "succeeds m x \<longleftrightarrow> (\<exists>s s'. m s = (Inr x, s'))"

lemma guarded_holds: "P \<Longrightarrow> guarded view P m"
  by (simp add: guarded_def)

lemma guarded_keeps: "keeps view m \<Longrightarrow> guarded view P m"
  by (simp add: guarded_def always_def)

lemma guarded_gate:
  assumes "\<And>x. r = Inr x \<Longrightarrow> guarded view P (f x)"
  shows "guarded view P (st_bind (gate r) f)"
  using assms by (cases r) (auto simp: guarded_def bind_gate)

lemma guarded_bind:
  assumes "keeps view m" and "\<And>x. succeeds m x \<Longrightarrow> guarded view P (f x)"
  shows "guarded view P (st_bind m f)"
  unfolding guarded_def
proof (intro allI impI)
  fix s assume ch: "view (snd (st_bind m f s)) \<noteq> view s"
  obtain r s1 where m: "m s = (r, s1)" by fastforce
  have eq: "view s1 = view s" by (rule alwaysD [OF assms(1) m])
  show P
  proof (cases r)
    case Inl
    with ch m eq show P by (simp add: st_bind_def)
  next
    case (Inr x)
    with m have "succeeds m x" by (auto simp: succeeds_def)
    moreover have "view (snd (f x s1)) \<noteq> view s1" using ch m eq Inr by (simp add: st_bind_def)
    ultimately show P using assms(2) by (auto simp: guarded_def)
  qed
qed

lemma guarded_if:
  assumes "b \<Longrightarrow> guarded view P m" and "\<not> b \<Longrightarrow> guarded view P n"
  shows "guarded view P (if b then m else n)"
  using assms by simp

lemma guarded_created:
  assumes "\<And>x. r = Inr x \<Longrightarrow> guarded view P (f x)"
  shows "guarded view P (case r of Inl result \<Rightarrow> st_return result | Inr x \<Rightarrow> f x)"
  using assms by (cases r) (simp_all add: guarded_def st_return_def)

section \<open>Results\<close>

definition yields :: "'a step \<Rightarrow> ('a \<Rightarrow> ingest_state \<Rightarrow> bool) \<Rightarrow> bool" where
  "yields m Q \<longleftrightarrow> (\<forall>s x s'. m s = (Inr x, s') \<longrightarrow> Q x s')"

lemma yieldsD: "yields m Q \<Longrightarrow> m s = (Inr x, s') \<Longrightarrow> Q x s'"
  by (simp add: yields_def)

lemma yields_bind: "(\<And>x. succeeds m x \<Longrightarrow> yields (f x) Q) \<Longrightarrow> yields (st_bind m f) Q"
  by (auto simp: yields_def bind_Inr succeeds_def)

lemma yields_gate: "(\<And>x. r = Inr x \<Longrightarrow> yields (f x) Q) \<Longrightarrow> yields (st_bind (gate r) f) Q"
  by (auto simp: yields_def bind_gate split: sum.splits)

lemma yields_if: "(b \<Longrightarrow> yields m Q) \<Longrightarrow> (\<not> b \<Longrightarrow> yields n Q) \<Longrightarrow> yields (if b then m else n) Q"
  by simp

end
