(* ===== verification/Ingest_Sample.thy ===== *)
theory Ingest_Sample
  imports Ingest_Frame
begin

text \<open>
  A request to run the theorems of the write pipeline on: a member posts to an open channel of an empty
  store, and every other module agrees to what it is asked.
\<close>

section \<open>The request\<close>

definition sample_rules :: rule_env where
  "sample_rules = \<lparr>get_event_by_id = (\<lambda>_ _. Inr None), get_thread_metadata_by_event = (\<lambda>_ _. Inr None),
     is_member_cached = (\<lambda>_ _ _. Inr True), get_channel = (\<lambda>_ _. Inr \<lparr>ch_visibility = ''open'', ch_archived_at = None\<rparr>),
     is_agent_owner = (\<lambda>_ _ _. Inr False), parse_uuid = Some, from_timestamp = (\<lambda>_. True), utc_now = 1000, unix_now = 1000,
     max_not_before_delta = None, relay_pubkey = ''relay'', debug_text = (\<lambda>x. x), debug_list = concat\<rparr>"

definition sample_env :: ingest_env where
  "sample_env = \<lparr>ie_rules = sample_rules, ie_community = ''acme'', ie_host = ''acme.example'',
     verify_event = (\<lambda>_. Some (Inr ())), now_checked = 1000, now_restricted = 1000, now_leaving = 1000, db_now = 1000,
     db_error_text = (\<lambda>_. ''db''), handle_command = (\<lambda>_ _. Inl (Rejected ''command'')),
     product_feedback_handle = (\<lambda>_. Inr ()), handle_report_event = (\<lambda>_. Inr ()), handle_moderation_command = (\<lambda>_. Inr ()),
     moderation_restriction_state = (\<lambda>_ _. Inr \<lparr>re_banned = False, re_muted_until = None\<rparr>),
     channel_visibility_cached = (\<lambda>_ _ ch. Inr (ch_visibility ch)), handle_relay_admin_event = (\<lambda>_. Inr ()),
     require_relay_membership = False, remove_relay_member = (\<lambda>_ _. Inr MemberRemoved), validate_admin_event = (\<lambda>_ _. Inr ()),
     handle_identity_archive_event = (\<lambda>_. Inr ()), validate_standard_deletion_event = (\<lambda>_. Inr ()), ephemeral_ttl_override = None,
     create_channel_with_id = (\<lambda>_ _. Inr True), push_lease_accept = (\<lambda>_ _. Inr LeaseAccepted), config_relay_url = ''wss://acme.example'',
     validate_imeta_tags = (\<lambda>_ _. Inr ()), verify_imeta_blobs = (\<lambda>_. Inr ()), is_json = (\<lambda>_. True)\<rparr>"

definition sample_event :: event where
  "sample_event = \<lparr>ev_id = ''e1'', ev_pubkey = ''alice'', ev_created_at = 1000, ev_kind = 9, ev_tags = [[''h'', ''general'']], ev_content = ''hello''\<rparr>"

definition sample_auth :: ingest_auth where
  "sample_auth = Nip42 ''alice'' [MessagesWrite] None ''conn''"

definition sample_state :: ingest_state where
  "sample_state = \<lparr>is_heads = \<lparr>hs_db = db_empty, hs_watermarks = Map.empty\<rparr>, is_threads = [], is_reactions = [], is_trace = [], is_calls = []\<rparr>"

section \<open>Its run\<close>

lemma sample_kind: "event_kind_u32 sample_event = KIND_STREAM_MESSAGE"
  by code_simp

lemma sample_admit: "admit sample_env sample_event sample_auth = Inr ()"
proof -
  have scope: "check_scope sample_event sample_auth = Inr ()" by code_simp
  have drift: "check_drift 1000 sample_event = Inr ()" by code_simp
  have kinds: "KIND_STREAM_MESSAGE \<noteq> KIND_AUTH" "KIND_STREAM_MESSAGE \<noteq> KIND_MEMBER_ADDED_NOTIFICATION"
    "KIND_STREAM_MESSAGE \<noteq> KIND_MEMBER_REMOVED_NOTIFICATION" "\<not> is_relay_only_kind KIND_STREAM_MESSAGE" "\<not> auth_is_http sample_auth"
    by code_simp+
  show ?thesis
    unfolding admit_def Let_def sample_kind scope
    by (simp add: kinds drift [unfolded sample_event_def] sample_event_def sample_env_def sample_auth_def check_signature_def MAX_EVENT_CONTENT_BYTES_def)
qed

lemma sample_restriction: "check_restriction sample_env KIND_STREAM_MESSAGE sample_auth = Inr ()"
  by code_simp

lemma sample_channel: "request_channel sample_env sample_event sample_auth = Inr (Some ''general'')"
  by code_simp

lemma sample_checks:
  "check_archived sample_event (Some ''general'') (fetch_channel sample_env (Some ''general'')) = Inr ()"
  "check_single_target sample_event = Inr ()"
  "check_kind (ie_rules sample_env) (ie_community sample_env) sample_event = Inr ()"
  "check_join sample_event (Some ''general'') (fetch_channel sample_env (Some ''general'')) = Inr ()"
  "check_imeta sample_env sample_event = Inr ()"
  "thread_meta (ie_rules sample_env) (ie_community sample_env) sample_event (Some ''general'') = Inr None"
  "check_content_by_kind sample_env sample_event = Inr ()"
proof -
  have "KIND_STREAM_MESSAGE \<noteq> KIND_STREAM_MESSAGE_EDIT" "KIND_STREAM_MESSAGE \<noteq> KIND_FORUM_VOTE" "KIND_STREAM_MESSAGE \<noteq> KIND_STREAM_MESSAGE_DIFF"
    "KIND_STREAM_MESSAGE \<noteq> KIND_AGENT_ENGRAM" "KIND_STREAM_MESSAGE \<noteq> KIND_AGENT_TURN_METRIC" "KIND_STREAM_MESSAGE \<noteq> KIND_EVENT_REMINDER"
    "KIND_STREAM_MESSAGE \<noteq> KIND_PERSONA" "KIND_STREAM_MESSAGE \<noteq> KIND_TEAM_CATALOG" "KIND_STREAM_MESSAGE \<noteq> KIND_PROJECT"
    by code_simp+
  then show "check_kind (ie_rules sample_env) (ie_community sample_env) sample_event = Inr ()"
    by (simp add: check_kind_def on_kind_def sample_kind)
qed code_simp+

lemma sample_routes:
  "is_command_kind KIND_STREAM_MESSAGE \<longleftrightarrow> False" "KIND_STREAM_MESSAGE = KIND_PRODUCT_FEEDBACK \<longleftrightarrow> False"
  "KIND_STREAM_MESSAGE = KIND_REPORT \<longleftrightarrow> False" "is_moderation_command_kind KIND_STREAM_MESSAGE \<longleftrightarrow> False"
  "is_relay_admin_kind KIND_STREAM_MESSAGE \<longleftrightarrow> False" "KIND_STREAM_MESSAGE = KIND_NIP43_LEAVE_REQUEST \<longleftrightarrow> False"
  "is_admin_kind KIND_STREAM_MESSAGE \<longleftrightarrow> False" "is_identity_archive_request_kind KIND_STREAM_MESSAGE \<longleftrightarrow> False"
  "KIND_STREAM_MESSAGE = KIND_DELETION \<longleftrightarrow> False" "KIND_STREAM_MESSAGE = KIND_NIP29_CREATE_GROUP \<longleftrightarrow> False"
  "KIND_STREAM_MESSAGE = KIND_PUSH_LEASE \<longleftrightarrow> False" "KIND_STREAM_MESSAGE = KIND_REACTION \<longleftrightarrow> False"
  "is_replaceable KIND_STREAM_MESSAGE \<longleftrightarrow> False" "is_parameterized_replaceable KIND_STREAM_MESSAGE \<longleftrightarrow> False"
  "is_side_effect_kind KIND_STREAM_MESSAGE \<longleftrightarrow> False" "skip_membership KIND_STREAM_MESSAGE \<longleftrightarrow> False"
  by code_simp+

lemma bind_return: "st_bind (st_return x) f = f x"
  by (simp add: st_bind_def st_return_def)

definition sample_visibility :: "threaded_visibility option" where
  "sample_visibility = thread_visibility sample_env (Some ''general'') (fetch_channel sample_env (Some ''general''))"

definition sample_post :: "ingest_result step" where
  "sample_post = st_bind (check_membership sample_env sample_event sample_auth (Some ''general'') (fetch_channel sample_env (Some ''general'')))
     (\<lambda>_. store_event sample_env sample_event sample_auth (Some ''general'') None sample_visibility None)"

lemma sample_inner: "ingest_event_inner sample_env sample_event sample_auth s = sample_post s"
  unfolding ingest_event_inner_def ingest_member_def ingest_validated_def ingest_content_def archive_identity_def create_group_def
    on_kind_def Let_def sample_kind sample_routes if_False bind_gate sample_admit sample_restriction sample_channel sample_checks sum.case
    bind_return sample_post_def sample_visibility_def ..

lemma sample_result:
  "fst (sample_post sample_state) = Inr \<lparr>ir_event_id = ''e1'', ir_accepted = True, ir_message = []\<rparr>"
  by code_simp

lemma sample_stored:
  "map row_id (db_events (hs_db (is_heads (snd (sample_post sample_state))))) = [''e1'']"
  by code_simp

lemma sample_run:
  "\<exists>s'. ingest_event sample_env sample_event sample_auth sample_state =
     (Inr \<lparr>ir_event_id = ''e1'', ir_accepted = True, ir_message = []\<rparr>, s') \<and> tables s' \<noteq> tables sample_state"
proof -
  obtain s' where post: "sample_post sample_state = (Inr \<lparr>ir_event_id = ''e1'', ir_accepted = True, ir_message = []\<rparr>, s')"
    using sample_result by (metis prod.collapse)
  have "sample_state\<lparr>is_trace := []\<rparr> = sample_state" by (simp add: sample_state_def)
  moreover have "tables s' \<noteq> tables sample_state"
  proof -
    have "db_events (hs_db (is_heads s')) \<noteq> []" using sample_stored by (auto simp: post)
    moreover have "db_events (hs_db (is_heads sample_state)) = []" by (simp add: sample_state_def db_empty_def)
    ultimately show ?thesis by (auto simp: tables_def)
  qed
  ultimately show ?thesis
    by (simp add: ingest_event_def Let_def sample_inner post) (simp add: tables_def)
qed

end
