(* ===== verification/Ingest_Authority.thy ===== *)
theory Ingest_Authority
  imports Ingest_Sample
begin

text \<open>
  Who may write. A request changes the event, thread or reaction tables, or calls a handler of another module that
  may write, only after the checks of the pipeline have passed: signature, size, authorship and scope for
  every kind, and restriction, token, membership and archival for the kinds that are not routed to their handler before.
\<close>

section \<open>What a request that changes the tables passed\<close>

definition channel_ok :: "ingest_env \<Rightarrow> event \<Rightarrow> ingest_auth \<Rightarrow> uuid option \<Rightarrow> bool" where
  "channel_ok env e auth channel_id \<longleftrightarrow>
     (case channel_id of
        None \<Rightarrow> auth_channel_ids auth = None
      | Some ch \<Rightarrow> check_token_channel_access auth ch = Inr () \<and>
          (skip_membership (event_kind_u32 e) \<or>
           check_channel_membership (ie_rules env) (ie_community env) ch (auth_pubkey auth) (fetch_channel env channel_id) = Inr ()))"

lemma membership_succeeds:
  "succeeds (check_membership env e auth channel_id row) x \<Longrightarrow>
     (case channel_id of None \<Rightarrow> True | Some ch \<Rightarrow> skip_membership (event_kind_u32 e) \<or>
        check_channel_membership (ie_rules env) (ie_community env) ch (auth_pubkey auth) row = Inr ())"
  by (auto simp: succeeds_def check_membership_def Let_def st_bind_def traced_def gate_def reject_def map_err_def
      split: option.splits if_splits sum.splits)

lemma request_channel_Inr:
  assumes "request_channel env e auth = Inr channel_id"
  shows "(requires_h_channel_scope (event_kind_u32 e) \<longrightarrow> channel_id \<noteq> None) \<and>
     (is_global_only_kind (event_kind_u32 e) \<longrightarrow> channel_id = None) \<and>
     (case channel_id of None \<Rightarrow> auth_channel_ids auth = None | Some ch \<Rightarrow> check_token_channel_access auth ch = Inr ())"
proof -
  have err: "map_err AuthFailed r = Inr u \<longleftrightarrow> r = Inr u" for r :: "string + unit" and u
    by (cases r) (simp_all add: map_err_def)
  obtain raw where raw: "raw_channel (ie_rules env) (ie_community env) e = Inr raw"
    and id: "channel_id = (if is_global_only_kind (event_kind_u32 e) then None else raw)"
    using assms by (auto simp: request_channel_def Let_def and_then_Inr)
  show ?thesis
    using assms unfolding request_channel_def Let_def raw id [symmetric]
    by (cases channel_id) (auto simp: id and_then_Inr check_def err split: if_splits)
qed

definition passed :: "ingest_env \<Rightarrow> event \<Rightarrow> ingest_auth \<Rightarrow> bool" where
  "passed env e auth \<longleftrightarrow>
     admit env e auth = Inr () \<and> check_restriction env (event_kind_u32 e) auth = Inr () \<and>
     (\<exists>channel_id. request_channel env e auth = Inr channel_id \<and> channel_ok env e auth channel_id \<and>
        check_archived e channel_id (fetch_channel env channel_id) = Inr () \<and>
        check_single_target e = Inr () \<and> check_kind (ie_rules env) (ie_community env) e = Inr () \<and>
        check_imeta env e = Inr () \<and> check_content_by_kind env e = Inr ())"

lemma guarded_content:
  assumes "check_imeta env e = Inr () \<Longrightarrow> check_content_by_kind env e = Inr () \<Longrightarrow> P"
  shows "guarded view P (ingest_content env e auth channel_id visibility created)"
  unfolding ingest_content_def
  by (intro guarded_gate guarded_holds assms) simp_all

lemma guarded_validated:
  assumes "check_archived e channel_id row = Inr () \<Longrightarrow> check_single_target e = Inr () \<Longrightarrow>
      check_kind (ie_rules env) (ie_community env) e = Inr () \<Longrightarrow>
      check_imeta env e = Inr () \<Longrightarrow> check_content_by_kind env e = Inr () \<Longrightarrow> P"
  shows "guarded tables P (ingest_validated env e auth channel_id row visibility)"
  unfolding ingest_validated_def Let_def
  by (rule guarded_gate guarded_bind stored.handlers guarded_created guarded_if guarded_content assms
      guarded_keeps [OF stored.of_lease] | simp)+

lemma guarded_member:
  assumes "\<And>channel_id. check_restriction env (event_kind_u32 e) auth = Inr () \<Longrightarrow>
      request_channel env e auth = Inr channel_id \<Longrightarrow> channel_ok env e auth channel_id \<Longrightarrow>
      check_archived e channel_id (fetch_channel env channel_id) = Inr () \<Longrightarrow> check_single_target e = Inr () \<Longrightarrow>
      check_kind (ie_rules env) (ie_community env) e = Inr () \<Longrightarrow>
      check_imeta env e = Inr () \<Longrightarrow> check_content_by_kind env e = Inr () \<Longrightarrow> P"
  shows "guarded tables P (ingest_member env e auth)"
proof -
  have ok: "channel_ok env e auth channel_id"
    if "request_channel env e auth = Inr channel_id"
      and "succeeds (check_membership env e auth channel_id (fetch_channel env channel_id)) x" for channel_id x
    using request_channel_Inr [OF that(1)] membership_succeeds [OF that(2)]
    by (auto simp: channel_ok_def split: option.splits)
  show ?thesis
    unfolding ingest_member_def Let_def
    by (rule guarded_gate guarded_bind [OF stored.of_membership] guarded_if guarded_validated
        guarded_keeps [OF stored.of_administered] guarded_keeps [OF stored.of_leave])+
      (use assms ok in simp_all)
qed

lemma guarded_inner: "guarded tables (passed env e auth) (ingest_event_inner env e auth)"
  unfolding ingest_event_inner_def Let_def
  by (rule guarded_gate guarded_if guarded_member guarded_keeps [OF stored.of_command]
      guarded_keeps [OF stored.of_recorded] guarded_keeps [OF stored.of_handled])+
    (auto simp: passed_def)

lemma ingest_event_tables:
  assumes "ingest_event env e auth s = (r, s')"
  shows "tables s' = tables (snd (ingest_event_inner env e auth (s\<lparr>is_trace := []\<rparr>)))"
  using assms by (auto simp: ingest_event_def Let_def tables_def split: prod.splits)

lemma admit_Inr:
  assumes "admit env e auth = Inr ()"
  shows "verify_event env e = Some (Inr ()) \<and>
    i64_abs (i64_sub (as_i64 (ev_created_at e)) (now_checked env)) \<le> MAX_TIMESTAMP_DRIFT_SECS \<and>
    length (ev_content e) \<le> MAX_EVENT_CONTENT_BYTES \<and>
    (ev_pubkey e = auth_pubkey auth \<or> event_kind_u32 e = KIND_GIFT_WRAP) \<and>
    \<not> is_relay_only_kind (event_kind_u32 e) \<and>
    (\<exists>scope \<in> set (auth_scopes auth). required_scope_for_kind (event_kind_u32 e) e = Inr scope)"
proof -
  have sig: "check_signature env e = Inr () \<longleftrightarrow> verify_event env e = Some (Inr ())"
    by (auto simp: check_signature_def split: option.splits sum.splits)
  have scope: "\<exists>scope \<in> set (auth_scopes auth). required_scope_for_kind (event_kind_u32 e) e = Inr scope"
    if "check_scope e auth = Inr ()"
    using that by (auto simp: check_scope_def Let_def and_then_Inr reject_def map_err_Inr check_Inr)
  show ?thesis
    using assms scope by (auto simp: admit_def Let_def and_then_Inr check_Inr sig check_drift_def)
qed

text \<open>The author is not kept out by a ban or a running time-out.\<close>

definition unrestricted :: "ingest_env \<Rightarrow> ingest_auth \<Rightarrow> bool" where
  "unrestricted env auth \<longleftrightarrow>
     (\<exists>r. moderation_restriction_state env (ie_community env) (auth_pubkey auth) = Inr r \<and> \<not> re_banned r \<and>
        (case re_muted_until r of None \<Rightarrow> True | Some until \<Rightarrow> until \<le> now_restricted env))"

lemma unrestrictedI:
  "check_restriction env kind auth = Inr () \<Longrightarrow> \<not> is_moderation_command_kind kind \<Longrightarrow> \<not> is_relay_admin_kind kind \<Longrightarrow>
     unrestricted env auth"
  by (auto simp: unrestricted_def check_restriction_def split: sum.splits if_splits option.splits)

lemma archived_Inr:
  "check_archived e channel_id row = Inr () \<Longrightarrow> channel_id \<noteq> None \<Longrightarrow> row = Some ch \<Longrightarrow>
     is_unarchive e \<or> ch_archived_at ch = None"
  by (auto simp: check_archived_def check_Inr split: if_splits)

section \<open>Property\<close>

text \<open>The kinds that go to their own handler before the ban, the channel and the membership are looked at.\<close>

definition routed_early :: "u32 \<Rightarrow> bool" where
  "routed_early kind \<longleftrightarrow>
     is_command_kind kind \<or> kind = KIND_PRODUCT_FEEDBACK \<or> kind = KIND_REPORT \<or> is_moderation_command_kind kind"

text \<open>What a request does to the outside: its tables, and the handlers it calls.\<close>

definition outside :: "ingest_state \<Rightarrow> (head_store \<times> thread_row list \<times> reaction_row list) \<times> call list" where
  "outside s = (tables s, is_calls s)"

lemma membership_outside: "keeps outside (check_membership env e auth channel_id row)"
  by (auto simp: always_def check_membership_def Let_def st_bind_def traced_def gate_def st_return_def outside_def tables_def
      map_err_def split: option.split sum.split)

lemma outside_member:
  "guarded outside (check_restriction env (event_kind_u32 e) auth = Inr () \<and>
     (\<exists>channel_id. request_channel env e auth = Inr channel_id \<and> channel_ok env e auth channel_id)) (ingest_member env e auth)"
proof -
  have ok: "channel_ok env e auth channel_id"
    if "request_channel env e auth = Inr channel_id"
      and "succeeds (check_membership env e auth channel_id (fetch_channel env channel_id)) x" for channel_id x
    using request_channel_Inr [OF that(1)] membership_succeeds [OF that(2)]
    by (auto simp: channel_ok_def split: option.splits)
  show ?thesis
    unfolding ingest_member_def Let_def
    by (rule guarded_gate guarded_bind [OF membership_outside] guarded_holds)+ (use ok in auto)
qed

lemma outside_inner:
  "guarded outside (admit env e auth = Inr () \<and> (routed_early (event_kind_u32 e) \<or>
     check_restriction env (event_kind_u32 e) auth = Inr () \<and>
     (\<exists>channel_id. request_channel env e auth = Inr channel_id \<and> channel_ok env e auth channel_id))) (ingest_event_inner env e auth)"
proof (cases "routed_early (event_kind_u32 e)")
  case True
  show ?thesis
    unfolding ingest_event_inner_def Let_def by (rule guarded_gate, rule guarded_holds) (use True in simp)
next
  case False
  then have "ingest_event_inner env e auth = st_bind (gate (admit env e auth)) (\<lambda>_. ingest_member env e auth)"
    by (simp add: ingest_event_inner_def Let_def routed_early_def)
  moreover have "guarded outside (admit env e auth = Inr () \<and> (routed_early (event_kind_u32 e) \<or>
      check_restriction env (event_kind_u32 e) auth = Inr () \<and>
      (\<exists>channel_id. request_channel env e auth = Inr channel_id \<and> channel_ok env e auth channel_id)))
      (st_bind (gate (admit env e auth)) (\<lambda>_. ingest_member env e auth))"
  proof (rule guarded_gate)
    fix u assume "admit env e auth = Inr u"
    with outside_member [of env e auth] show "guarded outside (admit env e auth = Inr () \<and> (routed_early (event_kind_u32 e) \<or>
      check_restriction env (event_kind_u32 e) auth = Inr () \<and>
      (\<exists>channel_id. request_channel env e auth = Inr channel_id \<and> channel_ok env e auth channel_id))) (ingest_member env e auth)"
      by (auto simp: guarded_def)
  qed
  ultimately show ?thesis by simp
qed

lemma ingest_event_outside:
  assumes "ingest_event env e auth s = (r, s')"
  shows "outside s' = outside (snd (ingest_event_inner env e auth (s\<lparr>is_trace := []\<rparr>)))"
  using assms by (auto simp: ingest_event_def Let_def outside_def tables_def split: prod.splits)



end
