(* ===== verification/Ingest_Effects.thy ===== *)
theory Ingest_Effects
  imports Ingest_Sample
begin

text \<open>
  The rows a request of the write pipeline leaves behind. No row of another community changes; an accepted event
  of a stored kind has a live row and is handed to the dispatcher; the steps a request records carry
  the request's own state, an error ends them with its class.
\<close>

section \<open>Other tenants\<close>

definition other_events :: "uuid \<Rightarrow> event_db \<Rightarrow> event_row list \<times> mention_row list" where
  "other_events c db = (filter (\<lambda>r. row_community_id r \<noteq> c) (db_events db), filter (\<lambda>m. m_community_id m \<noteq> c) (db_mentions db))"

definition other_threads :: "uuid \<Rightarrow> thread_row list \<Rightarrow> thread_row list" where
  "other_threads c ts = filter (\<lambda>t. th_community_id t \<noteq> c) ts"

definition other_reactions :: "uuid \<Rightarrow> reaction_row list \<Rightarrow> reaction_row list" where
  "other_reactions c xs = filter (\<lambda>x. rx_community_id x \<noteq> c) xs"

definition other_watermarks :: "uuid \<Rightarrow> (uuid \<times> 'k \<rightharpoonup> 'v) \<Rightarrow> (uuid \<times> 'k \<rightharpoonup> 'v)" where
  "other_watermarks c ws = ws |` {k. fst k \<noteq> c}"

definition other_rows ::
  "uuid \<Rightarrow> ingest_state \<Rightarrow> (event_row list \<times> mention_row list) \<times> (uuid \<times> int \<times> string \<times> string \<rightharpoonup> int \<times> string) \<times>
   thread_row list \<times> reaction_row list" where
  "other_rows c s = (other_events c (hs_db (is_heads s)), other_watermarks c (hs_watermarks (is_heads s)),
     other_threads c (is_threads s), other_reactions c (is_reactions s))"

lemma other_insert: "insert_event valid now db c e ch = Inr (res, db') \<Longrightarrow> other_events c db' = other_events c db"
  by (auto simp: insert_event_def Let_def other_events_def split: if_splits)

lemma add_mention_other: "m_community_id m = c \<Longrightarrow>
    filter (\<lambda>m. m_community_id m \<noteq> c) (add_mention m ms) = filter (\<lambda>m. m_community_id m \<noteq> c) ms"
  by (simp add: add_mention_def)

lemma add_mentions_other: "(\<And>m. m \<in> set new \<Longrightarrow> m_community_id m = c) \<Longrightarrow>
    filter (\<lambda>m. m_community_id m \<noteq> c) (fold add_mention new ms) = filter (\<lambda>m. m_community_id m \<noteq> c) ms"
  by (induction new arbitrary: ms) (simp_all add: add_mention_other)

lemma other_index [simp]: "other_events c (index_mentions valid c e ch db) = other_events c db"
proof -
  have "filter (\<lambda>m. m_community_id m \<noteq> c) (db_mentions (index_mentions valid c e ch db)) = filter (\<lambda>m. m_community_id m \<noteq> c) (db_mentions db)"
    unfolding index_mentions_def insert_mentions_def Let_def by (auto intro!: add_mentions_other)
  then show ?thesis by (simp add: other_events_def)
qed

lemma other_soft_delete:
  assumes "\<And>r. p r \<Longrightarrow> row_community_id r = c"
  shows "other_events c (snd (soft_delete_where now p db)) = other_events c db"
proof -
  have "filter (\<lambda>r. row_community_id r \<noteq> c) (map (\<lambda>r. if p r \<and> row_deleted_at r = None then r\<lparr>row_deleted_at := Some now\<rparr> else r) rs) =
     filter (\<lambda>r. row_community_id r \<noteq> c) rs" for rs
    by (induction rs) (use assms in auto)
  then show ?thesis by (simp add: other_events_def soft_delete_where_def)
qed

lemma other_insert_row: "insert_row row db = Some db' \<Longrightarrow> row_community_id row = c \<Longrightarrow> other_events c db' = other_events c db"
  by (auto simp: insert_row_def other_events_def split: if_splits)

lemma other_replace:
  assumes "replace_addressable_event valid now db c e ch = Inr (res, db')"
  shows "other_events c db' = other_events c db"
proof (cases "db' = db")
  case False
  define same where "same r \<longleftrightarrow> row_community_id r = c \<and> row_kind r = event_kind_i32 e \<and>
    row_pubkey r = ev_pubkey e \<and> row_channel_id r = ch" for r :: event_row
  obtain db1 where "insert_row (replacement_row now c e ch (extract_d_tag e) None) (snd (soft_delete_where now same db)) = Some db1"
    and "db' = index_mentions valid c e ch db1"
    using assms False unfolding replace_addressable_event_def Let_def same_def [symmetric]
    by (auto split: if_splits option.splits)
  moreover have "other_events c (snd (soft_delete_where now same db)) = other_events c db"
    by (rule other_soft_delete) (simp add: same_def)
  ultimately show ?thesis
    using other_insert_row by (fastforce simp: replacement_row_def)
qed simp

lemma other_retire: "other_events (fst C) (retire hard now C i db) = other_events (fst C) db"
proof -
  have at: "at_coordinate C r \<Longrightarrow> row_community_id r = fst C" for r
    by (cases C) (simp add: at_coordinate_def)
  then have "filter (\<lambda>r. row_community_id r \<noteq> fst C) (filter (\<lambda>r. \<not> (at_coordinate C r \<and> row_deleted_at r = None)) rs) =
     filter (\<lambda>r. row_community_id r \<noteq> fst C) rs" for rs
    by (induction rs) auto
  moreover have "filter (\<lambda>m. m_community_id m \<noteq> fst C) (filter (\<lambda>m. \<not> (m_community_id m = fst C \<and> m_event_id m = i)) ms) =
     filter (\<lambda>m. m_community_id m \<noteq> fst C) ms" for ms
    by (induction ms) auto
  ultimately have "other_events (fst C) (retire True now C i db) = other_events (fst C) db"
    by (simp add: retire_def other_events_def)
  moreover have "other_events (fst C) (retire False now C i db) = other_events (fst C) db"
    by (simp add: retire_def other_soft_delete at)
  ultimately show ?thesis by (cases hard) simp_all
qed

lemma other_replace_parameterized:
  assumes "replace_parameterized_event valid now hs c e d ch = Inr (res, hs')"
  shows "other_events c (hs_db hs') = other_events c (hs_db hs)"
    and "other_watermarks c (hs_watermarks hs') = other_watermarks c (hs_watermarks hs)"
proof -
  define C where "C = (c, event_kind_i32 e, ev_pubkey e, d)"
  define db0 where "db0 = (case live_head (at_coordinate C) (hs_db hs) of None \<Rightarrow> hs_db hs
      | Some (t, i) \<Rightarrow> retire (is_nip_rs e d \<or> is_buzz_mesh_status e d) now C i (hs_db hs))"
  have wm: "other_watermarks c ((hs_watermarks hs)(C \<mapsto> v)) = other_watermarks c (hs_watermarks hs)" for v
    by (auto simp: other_watermarks_def C_def restrict_map_def)
  have before: "other_events c db0 = other_events c (hs_db hs)"
    using other_retire [of C] by (auto simp: db0_def C_def split: option.splits)
  consider "hs' = hs"
    | db1 where "insert_row (replacement_row now c e ch (Some d) (extract_not_before e)) db0 = Some db1"
      "hs_db hs' = index_mentions valid c e ch db1"
      "other_watermarks c (hs_watermarks hs') = other_watermarks c (hs_watermarks hs)"
    using assms wm unfolding replace_parameterized_event_def Let_def C_def [symmetric] db0_def [symmetric]
    by (auto split: if_splits option.splits)
  then have "other_events c (hs_db hs') = other_events c (hs_db hs) \<and>
      other_watermarks c (hs_watermarks hs') = other_watermarks c (hs_watermarks hs)"
  proof cases
    case (2 db1)
    then show ?thesis
      using other_insert_row [OF 2(1)] before by (simp add: replacement_row_def)
  qed simp
  then show "other_events c (hs_db hs') = other_events c (hs_db hs)"
    and "other_watermarks c (hs_watermarks hs') = other_watermarks c (hs_watermarks hs)" by simp_all
qed

lemma other_add_thread: "th_community_id t = c \<Longrightarrow> other_threads c (snd (add_thread_row t ts)) = other_threads c ts"
  by (simp add: add_thread_row_def other_threads_def)

lemma other_update_thread:
  assumes "\<And>t. th_community_id (f t) = th_community_id t"
  shows "other_threads c (update_thread c i f ts) = other_threads c ts"
  by (induction ts) (use assms in \<open>auto simp: other_threads_def update_thread_def\<close>)

lemma other_increment: "other_threads c (increment_reply_count now c parent root ts) = other_threads c ts"
  by (simp add: increment_reply_count_def update_root_def other_update_thread bump_reply_def bump_descendant_def split: option.split)

lemma other_stubs: "other_threads c (add_stubs c m pid ts) = other_threads c ts"
  by (simp add: add_stubs_def Let_def other_add_thread stub_row_def split: option.split)

lemma other_thread_metadata: "other_threads c (insert_thread_metadata now c m ts) = other_threads c ts"
proof -
  obtain added ts' where row: "add_thread_row (params_row c m) ts = (added, ts')" by fastforce
  then have "other_threads c ts' = other_threads c ts"
    using other_add_thread [of "params_row c m" c ts] by (simp add: params_row_def)
  then show ?thesis
    by (simp add: insert_thread_metadata_def row other_increment other_stubs split: option.split)
qed

lemma other_add_reaction:
  assumes "add_reaction now xs c i t pk em src = Inr (added, xs')"
  shows "other_reactions c xs' = other_reactions c xs"
proof -
  have "filter (\<lambda>x. rx_community_id x \<noteq> c) (map (\<lambda>x. if same_reaction c t i pk em x \<and> q x then g x else x) xs) =
      filter (\<lambda>x. rx_community_id x \<noteq> c) xs" if "\<And>x. rx_community_id (g x) = rx_community_id x" for q g
    by (induction xs) (use that in \<open>auto simp: same_reaction_def\<close>)
  then show ?thesis
    using assms unfolding add_reaction_def Let_def other_reactions_def
    by (auto split: if_splits)
qed

definition other_db :: "uuid \<Rightarrow> thread_db \<Rightarrow> (event_row list \<times> mention_row list) \<times> thread_row list \<times> reaction_row list" where
  "other_db c db = (other_events c (td_events db), other_threads c (td_threads db), other_reactions c (td_reactions db))"

lemma other_insert_tx:
  assumes "insert_event_with_thread_metadata_tx valid now db c e ch meta = Inr (res, db')"
  shows "other_db c db' = other_db c db"
  using assms
  by (auto simp: insert_event_with_thread_metadata_tx_def and_then_Inr other_db_def other_insert other_thread_metadata
      split: option.splits)

lemma other_index_new [simp]: "other_db c (index_new valid c e ch is_new db) = other_db c db"
  by (simp add: index_new_def other_db_def)

lemma other_insert_wrapped:
  assumes "db_insert_event_with_thread_metadata valid now db c e ch meta = Inr (res, db')"
  shows "other_db c db' = other_db c db"
  using assms other_insert_tx
  by (fastforce simp: db_insert_event_with_thread_metadata_def insert_event_with_thread_metadata_def and_then_Inr)

lemma other_reaction_tx:
  assumes "insert_reaction_event_with_thread_metadata valid now db c e ch meta target reactor em = Inr (res, db')"
  shows "other_db c db' = other_db c db"
  using assms
proof (cases rule: reaction_tx_cases)
  case (Stored t xs r)
  show ?thesis
    using other_add_reaction [OF Stored(1)] other_insert_tx [OF Stored(2)] by (simp add: other_db_def)
qed simp

lemma other_reaction_wrapped:
  assumes "db_insert_reaction_event_with_thread_metadata valid now db c e ch meta target reactor em = Inr (res, db')"
  shows "other_db c db' = other_db c db"
  using assms other_reaction_tx
  by (fastforce simp: db_insert_reaction_event_with_thread_metadata_def and_then_Inr)

lemma others_plain [simp]:
  "other_rows c (s\<lparr>is_trace := steps\<rparr>) = other_rows c s" "other_rows c (s\<lparr>is_calls := cs\<rparr>) = other_rows c s"
  by (simp_all add: other_rows_def)

lemma others_transact:
  assumes "\<And>db x db'. f db = Inr (x, db') \<Longrightarrow> other_db c db' = other_db c db"
  shows "keeps (other_rows c) (transact f)"
proof (rule alwaysI)
  fix s
  have "other_rows c (put_threads db' s) = other_rows c s" if "f (thread_view s) = Inr (x, db')" for x db'
    using assms [OF that] by (simp add: other_rows_def other_db_def thread_view_def put_threads_def)
  then show "other_rows c (snd (transact f s)) = other_rows c s"
    by (auto simp: transact_def split: sum.split)
qed

lemma others_replace: "keeps (other_rows (ie_community env)) (replace_event env e channel_id)"
  by (auto simp: always_def replace_event_def other_rows_def other_replace split: sum.split)

lemma others_parameterized: "keeps (other_rows (ie_community env)) (replace_parameterized env e channel_id)"
  by (auto simp: always_def replace_parameterized_def Let_def bind_gate other_rows_def other_replace_parameterized split: sum.split)

interpretation others: request_storage env auth "\<lambda>s s'. other_rows (ie_community env) s' = other_rows (ie_community env) s"
proof unfold_locales
  show "keeps (other_rows (ie_community env)) (transact (\<lambda>db. db_insert_event_with_thread_metadata
      (from_timestamp (ie_rules env)) (db_now env) db (ie_community env) e channel_id meta))" for e channel_id meta
    by (rule others_transact) (rule other_insert_wrapped)
  show "keeps (other_rows (ie_community env)) (transact (\<lambda>db. db_insert_reaction_event_with_thread_metadata
      (from_timestamp (ie_rules env)) (db_now env) db (ie_community env) e channel_id meta target reactor emoji))"
    for e channel_id meta target reactor emoji
    by (rule others_transact) (rule other_reaction_wrapped)
qed (simp_all add: others_replace others_parameterized traced_def)

text \<open>
  C2. Whatever event a request sends and however it ends, every event row, mention, watermark, thread row and
  reaction row of any community other than the request's own is the same after it as before.
\<close>

theorem ingest_isolates_tenants:
  "other_rows (ie_community env) (snd (ingest_event env e auth s)) = other_rows (ie_community env) s"
proof -
  have "other_rows (ie_community env) (snd (ingest_event_inner env e auth (s\<lparr>is_trace := []\<rparr>))) = other_rows (ie_community env) s"
    using others.of_inner [of env e auth] by (simp add: always_def)
  then show ?thesis by (auto simp: ingest_event_def Let_def split: prod.split)
qed

section \<open>What an accepted event leaves behind\<close>

definition live_row :: "uuid \<Rightarrow> event \<Rightarrow> uuid option \<Rightarrow> event_db \<Rightarrow> bool" where
  "live_row c e channel_id db \<longleftrightarrow>
     (\<exists>row \<in> set (db_events db). row_community_id row = c \<and> row_id row = ev_id e \<and> row_pubkey row = ev_pubkey e \<and>
        row_created_at row = secs_as_i64 (ev_created_at e) \<and> row_kind row = event_kind_i32 e \<and> row_tags row = ev_tags e \<and>
        row_content row = ev_content e \<and> row_channel_id row = channel_id \<and> row_deleted_at row = None)"

lemma live_row_index [simp]: "live_row c e channel_id (index_mentions valid c' e' ch' db) = live_row c e channel_id db"
  by (simp add: live_row_def)

lemma live_row_insert: "insert_event valid now db c e ch = Inr ((stored, True), db') \<Longrightarrow> live_row c e ch db'"
  by (auto simp: insert_event_def Let_def live_row_def split: if_splits)

lemma live_row_insert_row:
  "insert_row (replacement_row now c e ch d nb) db = Some db' \<Longrightarrow> live_row c e ch db'"
  by (auto simp: insert_row_def live_row_def replacement_row_def split: if_splits)

lemma live_row_replace:
  "replace_addressable_event valid now db c e ch = Inr ((stored, True), db') \<Longrightarrow> live_row c e ch db'"
  unfolding replace_addressable_event_def Let_def
  by (auto split: if_splits option.splits dest: live_row_insert_row)

lemma live_row_replace_parameterized:
  "replace_parameterized_event valid now hs c e d ch = Inr ((stored, True), hs') \<Longrightarrow> live_row c e ch (hs_db hs')"
  unfolding replace_parameterized_event_def Let_def
  by (auto split: if_splits option.splits dest: live_row_insert_row)

lemma live_row_insert_wrapped:
  "db_insert_event_with_thread_metadata valid now db c e ch meta = Inr ((stored, True), db') \<Longrightarrow> live_row c e ch (td_events db')"
  by (auto simp: db_insert_event_with_thread_metadata_def insert_event_with_thread_metadata_def
      insert_event_with_thread_metadata_tx_def and_then_Inr index_new_def dest: live_row_insert)

lemma insert_event_step_Inr:
  assumes "insert_event_step env e channel_id meta created s = (Inr res, s')"
  obtains db where "db_insert_event_with_thread_metadata (from_timestamp (ie_rules env)) (db_now env) (thread_view s)
      (ie_community env) e channel_id (map_option as_params meta) = Inr (res, db)" and "s' = put_threads db s"
proof -
  let ?r = "db_insert_event_with_thread_metadata (from_timestamp (ie_rules env)) (db_now env) (thread_view s)
      (ie_community env) e channel_id (map_option as_params meta)"
  have "\<exists>db. ?r = Inr (res, db) \<and> s' = put_threads db s"
  proof (cases ?r)
    case (Inl err)
    with assms show ?thesis
      by (auto simp: insert_event_step_def bind_Inr transact_def gate_def map_err_def)
  next
    case (Inr p)
    with assms show ?thesis
      by (cases p) (simp add: insert_event_step_def st_bind_def transact_def st_return_def)
  qed
  with that show thesis by blast
qed

lemma persist_live:
  assumes "persist env e channel_id meta created s = (Inr (stored, True), s')"
  shows "live_row (ie_community env) e channel_id (hs_db (is_heads s'))"
proof -
  have "live_row (ie_community env) e channel_id (hs_db (is_heads s'))"
    if "replace_event env e channel_id s = (Inr (stored, True), s')"
    using that by (auto simp: replace_event_def live_row_replace split: sum.splits)
  moreover have "live_row (ie_community env) e channel_id (hs_db (is_heads s'))"
    if "replace_parameterized env e channel_id s = (Inr (stored, True), s')"
    using that by (auto simp: replace_parameterized_def Let_def bind_gate live_row_replace_parameterized split: sum.splits)
  moreover have "live_row (ie_community env) e channel_id (hs_db (is_heads s'))"
    if "insert_event_step env e channel_id meta created s = (Inr (stored, True), s')"
    using that by (rule insert_event_step_Inr) (simp add: put_threads_def live_row_insert_wrapped)
  ultimately show ?thesis
    using assms by (auto simp: persist_def Let_def split: if_splits)
qed

definition announced :: "event \<Rightarrow> ingest_auth \<Rightarrow> uuid option \<Rightarrow> call list \<Rightarrow> bool" where
  "announced e auth channel_id calls \<longleftrightarrow>
     (\<exists>stored visibility. calls \<noteq> [] \<and> last calls = DispatchPersistentEvent stored (event_kind_u32 e) (auth_pubkey auth) visibility \<and>
        se_event stored = e \<and> se_channel_id stored = channel_id)"

lemma persist_stored:
  assumes "persist env e channel_id meta created s = (Inr (stored, new), s')"
  shows "se_event stored = e \<and> se_channel_id stored = channel_id"
proof -
  note defs = with_received_at_def
  have "se_event stored = e \<and> se_channel_id stored = channel_id"
    if "replace_event env e channel_id s = (Inr (stored, new), s')"
    using that by (auto simp: replace_event_def replace_addressable_event_def Let_def defs split: sum.splits if_splits option.splits)
  moreover have "se_event stored = e \<and> se_channel_id stored = channel_id"
    if "replace_parameterized env e channel_id s = (Inr (stored, new), s')"
    using that
    by (auto simp: replace_parameterized_def bind_gate replace_parameterized_event_def Let_def defs
        split: sum.splits if_splits option.splits)
  moreover have "se_event stored = e \<and> se_channel_id stored = channel_id"
    if "insert_event_step env e channel_id meta created s = (Inr (stored, new), s')"
    using that
    by (rule insert_event_step_Inr)
      (auto simp: db_insert_event_with_thread_metadata_def insert_event_with_thread_metadata_def
        insert_event_with_thread_metadata_tx_def insert_event_def Let_def and_then_Inr defs split: if_splits)
  ultimately show ?thesis
    using assms by (auto simp: persist_def Let_def split: if_splits)
qed

lemma store_event_accepted:
  assumes "store_event env e auth channel_id meta visibility created s = (Inr r, s')" and "ir_message r = []"
  shows "live_row (ie_community env) e channel_id (hs_db (is_heads s'))" and "announced e auth channel_id (is_calls s')"
proof -
  let ?tail = "\<lambda>stored new. st_bind (if is_side_effect_kind (event_kind_u32 e) then called (HandleSideEffects (event_kind_u32 e)) else st_return ()) (\<lambda>_.
        st_bind (case meta of Some m \<Rightarrow> called (EmitThreadSummary (to_channel_id m) (to_root_event_id m)) | None \<Rightarrow> st_return ()) (\<lambda>_.
        st_bind (traced env auth (write_action env e channel_id new)) (\<lambda>_.
        st_bind (dispatch stored (event_kind_u32 e) auth visibility) (\<lambda>_.
        accepted e []))))"
  obtain stored new s1 where p: "persist env e channel_id meta created s = (Inr (stored, new), s1)"
    and rest: "(if \<not> new then accepted e ''duplicate:'' else ?tail stored new) s1 = (Inr r, s')"
    using assms(1) by (auto simp: store_event_def Let_def bind_Inr)
  have new: "new"
    using rest assms(2) by (auto simp: accepted_def st_return_def split: if_splits)
  have "tables s' = tables s1"
    using alwaysD [OF stored.of_announcement] rest new by simp
  then show "live_row (ie_community env) e channel_id (hs_db (is_heads s'))"
    using persist_live p new by (auto simp: tables_def)
  show "announced e auth channel_id (is_calls s')"
    using rest new persist_stored [OF p]
    by (auto simp: bind_Inr announced_def dispatch_def called_def accepted_def st_return_def)
qed

text \<open>The kinds that end in the event table by \<open>store_event\<close>.\<close>

definition stored_kind :: "u32 \<Rightarrow> bool" where
  "stored_kind kind =
     (\<not> is_command_kind kind \<and> kind \<noteq> KIND_PRODUCT_FEEDBACK \<and> kind \<noteq> KIND_REPORT \<and> \<not> is_moderation_command_kind kind \<and>
      \<not> is_relay_admin_kind kind \<and> kind \<noteq> KIND_NIP43_LEAVE_REQUEST \<and> kind \<noteq> KIND_PUSH_LEASE \<and> kind \<noteq> KIND_REACTION)"

definition kept :: "ingest_env \<Rightarrow> event \<Rightarrow> ingest_auth \<Rightarrow> uuid option \<Rightarrow> ingest_result \<Rightarrow> ingest_state \<Rightarrow> bool" where
  "kept env e auth channel_id r s \<longleftrightarrow>
     (ir_accepted r \<and> ir_message r = [] \<longrightarrow>
        live_row (ie_community env) e channel_id (hs_db (is_heads s)) \<and> announced e auth channel_id (is_calls s))"

lemma yields_content:
  assumes "event_kind_u32 e \<noteq> KIND_REACTION"
  shows "yields (ingest_content env e auth channel_id visibility created) (kept env e auth channel_id)"
  unfolding ingest_content_def
  by (rule yields_gate)+ (auto simp: yields_def kept_def assms dest: store_event_accepted)

lemma yields_validated:
  assumes "stored_kind (event_kind_u32 e)"
  shows "yields (ingest_validated env e auth channel_id row visibility) (kept env e auth channel_id)"
proof -
  have answered: "yields (case x of Inl r \<Rightarrow> st_return r | Inr c \<Rightarrow> f c) (kept env e auth channel_id)"
    if "succeeds (create_group env e channel_id) x" and "\<And>c. yields (f c) (kept env e auth channel_id)" for x f
    using that
    by (cases x) (auto simp: succeeds_def create_group_def yields_def kept_def st_return_def not_accepted_def bind_Inr
        split: if_splits option.splits)
  have content: "yields (ingest_content env e auth channel_id visibility c) (kept env e auth channel_id)" for c
    using assms by (intro yields_content) (simp add: stored_kind_def)
  have lease: "event_kind_u32 e \<noteq> KIND_PUSH_LEASE"
    using assms by (simp add: stored_kind_def)
  show ?thesis
    unfolding ingest_validated_def Let_def if_not_P [OF lease]
    by (rule answered yields_gate yields_bind content | assumption)+
qed



section \<open>What a request records\<close>

definition own_step :: "ingest_env \<Rightarrow> ingest_auth \<Rightarrow> trace_step \<Rightarrow> bool" where
  "own_step env auth step \<longleftrightarrow> schema_version step = SCHEMA_VERSION \<and>
     state_after step = state_for_request (ie_community env) (ie_host env) (auth_pubkey auth)"

definition logs :: "ingest_env \<Rightarrow> ingest_auth \<Rightarrow> ingest_state \<Rightarrow> ingest_state \<Rightarrow> bool" where
  "logs env auth s s' \<longleftrightarrow> (\<exists>steps. is_trace s' = is_trace s @ steps \<and> list_all (own_step env auth) steps)"

lemma logs_same: "is_trace s' = is_trace s \<Longrightarrow> logs env auth s s'"
  by (simp add: logs_def)

lemma logs_trans: "logs env auth s s1 \<Longrightarrow> logs env auth s1 s2 \<Longrightarrow> logs env auth s s2"
  unfolding logs_def by (metis append_assoc list_all_append)

lemma own_step_new: "own_step env auth (trace_step_new a (state_for_request (ie_community env) (ie_host env) (auth_pubkey auth)))"
  by (simp add: own_step_def trace_step_new_def)

lemma logs_transact: "always (logs env auth) (transact f)"
  by (auto simp: always_def transact_def put_threads_def intro!: logs_same split: sum.split)

interpretation logged: request_storage env auth "logs env auth"
proof unfold_locales
  show "logs env auth s (snd (traced env auth a s))" for s a
    by (auto simp: logs_def traced_def emit_def own_step_new)
  show "always (logs env auth) (replace_event env e channel_id)" for e channel_id
    by (auto simp: always_def replace_event_def intro!: logs_same split: sum.split)
  show "always (logs env auth) (replace_parameterized env e channel_id)" for e channel_id
    by (auto simp: always_def replace_parameterized_def Let_def bind_gate intro!: logs_same split: sum.split)
qed (auto intro: logs_same logs_trans logs_transact)

text \<open>
  C20. Every request leaves at least one trace step; all of its steps have the request's own community,
  host and actor; and a request that ends in an error ends its trace with the sanitized class of that error.
\<close>

theorem requests_are_recorded:
  "\<exists>steps. is_trace (snd (ingest_event env e auth s)) = is_trace s @ steps \<and> steps \<noteq> [] \<and> list_all (own_step env auth) steps \<and>
     (case fst (ingest_event env e auth s) of
        Inl (Failed err) \<Rightarrow> action (last steps) = SanitizedError (sanitized_reason_for err)
      | _ \<Rightarrow> True)"
proof -
  obtain r s1 where inner: "ingest_event_inner env e auth (s\<lparr>is_trace := []\<rparr>) = (r, s1)" by fastforce
  have own: "list_all (own_step env auth) (is_trace s1)"
    using alwaysD [OF logged.of_inner inner] by (simp add: logs_def)
  show ?thesis
  proof (cases r)
    case (Inl x)
    then show ?thesis
      using own by (cases x)
        (auto simp: ingest_event_def Let_def inner drop_guard_def emit_def own_step_new, simp add: trace_step_new_def)
  next
    case (Inr x)
    then show ?thesis
      using own by (auto simp: ingest_event_def Let_def inner drop_guard_def own_step_new)
  qed
qed

section \<open>Corner cases\<close>

text \<open>A channel's \<open>h\<close> tag is read as the claimed community, so the replay checker refuses the check that lets a member post.\<close>

lemma member_post_flagged:
  assumes "check_restriction env (event_kind_u32 e) auth = Inr ()" and "request_channel env e auth = Inr (Some ch)"
    and "\<not> skip_membership (event_kind_u32 e)"
    and "check_channel_membership (ie_rules env) (ie_community env) ch (auth_pubkey auth) (fetch_channel env (Some ch)) = Inr ()"
    and "claimed_community_from_event (ie_rules env) e = Some c" and "c \<noteq> ie_community env"
  shows "\<exists>step \<in> set (is_trace (snd (ingest_member env e auth s))). \<not> action_confined (ie_community env) (action step)"
proof -
  let ?step = "trace_step_new (AuthCheck (channel_label ch) (Some c) Allow) (state_for_request (ie_community env) (ie_host env) (auth_pubkey auth))"
  let ?s = "s\<lparr>is_trace := is_trace s @ [?step]\<rparr>"
  let ?row = "fetch_channel env (Some ch)"
  let ?rest = "if is_relay_admin_kind (event_kind_u32 e)
      then st_bind (called HandleRelayAdmin) (\<lambda>_.
           st_bind (gate (map_err map_relay_admin_error (handle_relay_admin_event env e))) (\<lambda>_. accepted e []))
      else if event_kind_u32 e = KIND_NIP43_LEAVE_REQUEST then leave_relay env e
      else ingest_validated env e auth (Some ch) ?row (thread_visibility env (Some ch) ?row)"
  have check: "check_membership env e auth (Some ch) ?row s = (Inr (), ?s)"
    using assms(3-5)
    by (simp add: check_membership_def Let_def st_bind_def traced_def emit_def gate_def reject_def map_err_def)
  have run: "ingest_member env e auth s = ?rest ?s"
    unfolding ingest_member_def Let_def bind_gate assms(1,2) sum.case by (simp add: st_bind_def [of "check_membership env e auth i r" for i r] check)
  have "always (logs env auth) ?rest"
    by (intro logged.of_if logged.of_administered logged.of_leave logged.of_validated)
  then have "logs env auth ?s (snd (?rest ?s))" by (simp add: always_def)
  then have "?step \<in> set (is_trace (snd (ingest_member env e auth s)))"
    unfolding run logs_def by auto
  then show ?thesis
    using assms(6) by (intro bexI [of _ ?step]) (simp_all add: trace_step_new_def)
qed

text \<open>A handled report answers the client but records nothing, so the guard reports a breach.\<close>

lemma report_unrecorded:
  assumes "event_kind_u32 e = KIND_REPORT" and "admit env e auth = Inr ()" and "handle_report_event env e = Inr ()"
  shows "fst (ingest_event env e auth s) = Inr \<lparr>ir_event_id = ev_id e, ir_accepted = True, ir_message = []\<rparr>"
    and "map action (is_trace (snd (ingest_event env e auth s))) = map action (is_trace s) @ [ImplBug ''ingest_event_exited_without_trace'']"
proof -
  have kinds: "\<not> is_command_kind KIND_REPORT" "KIND_REPORT \<noteq> KIND_PRODUCT_FEEDBACK"
    by code_simp+
  have "ingest_event_inner env e auth (s\<lparr>is_trace := []\<rparr>) =
      (Inr \<lparr>ir_event_id = ev_id e, ir_accepted = True, ir_message = []\<rparr>, s\<lparr>is_trace := [], is_calls := is_calls s @ [HandleReport]\<rparr>)"
    unfolding ingest_event_inner_def handled_def Let_def bind_gate bind_called assms sum.case reject_def map_err_def
    by (simp add: kinds accepted_def st_return_def)
  then show "fst (ingest_event env e auth s) = Inr \<lparr>ir_event_id = ev_id e, ir_accepted = True, ir_message = []\<rparr>"
    and "map action (is_trace (snd (ingest_event env e auth s))) = map action (is_trace s) @ [ImplBug ''ingest_event_exited_without_trace'']"
    by (simp_all add: ingest_event_def Let_def drop_guard_def trace_step_new_def)
qed

text \<open>A stored duplicate is answered before the step that would record it.\<close>

lemma duplicate_unrecorded:
  assumes "persist env e channel_id meta created s = (Inr (stored, False), s')"
  shows "store_event env e auth channel_id meta visibility created s =
    (Inr \<lparr>ir_event_id = ev_id e, ir_accepted = True, ir_message = ''duplicate:''\<rparr>, s')"
  by (simp add: store_event_def Let_def st_bind_def [of "persist env e channel_id meta created"] assms accepted_def st_return_def)

text \<open>A reaction to an event without a channel is stored, then the request panics and nothing is dispatched.\<close>

lemma reaction_without_channel_panics:
  "finish_reaction env e auth None visibility stored new s = (Inl (Panicked ''reaction path has channel''), s)"
  by (simp add: finish_reaction_def Let_def st_bind_def expect_channel_def)

text \<open>A timestamp half the range of \<open>u64\<close> away has no absolute value in \<open>i64\<close> and passes the drift check.\<close>

lemma drift_wraps:
  assumes "now_checked env = int n" and "ev_created_at e = 2 ^ 63 + n"
  shows "check_drift (now_checked env) e = Inr ()"
proof -
  have "i64_sub (as_i64 (ev_created_at e)) (now_checked env) = - (2 ^ 63)"
  proof -
    have "(word_of_int (sint (of_nat (2 ^ 63 + n) :: u64) - int n) :: u64) = 2 ^ 63"
      by simp
    moreover have "sint (2 ^ 63 :: u64) = - (2 ^ 63)"
      by simp
    ultimately show ?thesis
      unfolding i64_sub_def as_i64_def assms by simp
  qed
  then show ?thesis
    by (simp add: check_drift_def i64_abs_def MAX_TIMESTAMP_DRIFT_SECS_def)
qed

end
