(* ===== verification/Ingest_Tables.thy ===== *)
theory Ingest_Tables
  imports Ingest_Sample
begin

text \<open>
  The tables stay well-formed: the keys of their rows are distinct, and each event row holds a kind that may be
  stored with the \<open>d\<close> tag of its event. The storage steps keep this, so every request does.
\<close>

section \<open>Events and mentions\<close>

lemma db_ok_index: "db_ok db \<Longrightarrow> db_ok (index_mentions valid c e ch db)"
  by (auto simp: index_mentions_def db_ok_insert_mentions split: sum.split)

lemma row_stored_replacement:
  assumes "event_kind_u32 e \<noteq> KIND_AUTH" and "\<not> is_ephemeral (event_kind_u32 e)" and "d = extract_d_tag e"
  shows "row_stored (replacement_row now c e ch d nb)"
proof -
  let ?e = "row_event (replacement_row now c e ch d nb)"
  have k: "ev_kind ?e = ev_kind e" "ev_tags ?e = ev_tags e"
    by (simp_all add: row_event_def event_kind_i32_eq replacement_row_def)
  then have "extract_d_tag ?e = extract_d_tag e" "event_kind_u32 ?e = event_kind_u32 e" "event_kind_i32 ?e = event_kind_i32 e"
    by (auto intro: extract_d_tag_cong simp: event_kind_u32_def event_kind_i32_eq)
  then show ?thesis
    unfolding row_stored_def using assms by (simp add: replacement_row_def)
qed

lemma db_ok_insert_row: "db_ok db \<Longrightarrow> row_stored row \<Longrightarrow> insert_row row db = Some db' \<Longrightarrow> db_ok db'"
  by (auto simp: insert_row_def db_ok_def list_ex_iff same_key_iff split: if_splits)

lemma db_ok_retire: "db_ok db \<Longrightarrow> db_ok (retire hard now C i db)"
  by (cases hard) (auto simp: retire_def db_ok_soft_delete, auto simp: db_ok_def distinct_map_filter list_all_iff)

lemma storable_kinds:
  "is_replaceable k \<Longrightarrow> k \<noteq> KIND_AUTH \<and> \<not> is_ephemeral k"
  "is_parameterized_replaceable k \<Longrightarrow> k \<noteq> KIND_AUTH \<and> \<not> is_ephemeral k"
proof -
  have auth: "\<not> is_replaceable KIND_AUTH" "\<not> is_parameterized_replaceable KIND_AUTH" by code_simp+
  show "is_replaceable k \<Longrightarrow> k \<noteq> KIND_AUTH \<and> \<not> is_ephemeral k"
    and "is_parameterized_replaceable k \<Longrightarrow> k \<noteq> KIND_AUTH \<and> \<not> is_ephemeral k"
    using auth classes_disjoint by auto
qed

lemma db_ok_replace:
  assumes "db_ok db" and "is_replaceable (event_kind_u32 e)" and "replace_addressable_event valid now db c e ch = Inr (res, db')"
  shows "db_ok db'"
proof -
  have "row_stored (replacement_row now c e ch (extract_d_tag e) None)"
    using storable_kinds(1) [OF assms(2)] by (simp add: row_stored_replacement)
  then show ?thesis
    using assms(1,3) unfolding replace_addressable_event_def Let_def
    by (auto split: if_splits option.splits intro!: db_ok_index elim!: db_ok_insert_row [rotated 2] intro: db_ok_soft_delete)
qed

lemma db_ok_replace_parameterized:
  assumes "db_ok (hs_db hs)" and "is_parameterized_replaceable (event_kind_u32 e)"
    and "replace_parameterized_event valid now hs c e (unwrap_or [] (extract_d_tag e)) ch = Inr (res, hs')"
  shows "db_ok (hs_db hs')"
proof -
  have "Some (unwrap_or [] (extract_d_tag e)) = extract_d_tag e"
    using assms(2) by (simp add: extract_d_tag_def)
  then have "row_stored (replacement_row now c e ch (Some (unwrap_or [] (extract_d_tag e))) nb)" for nb
    using storable_kinds(2) [OF assms(2)] by (simp add: row_stored_replacement)
  then show ?thesis
    using assms(1,3) unfolding replace_parameterized_event_def Let_def
    by (auto split: if_splits option.splits intro!: db_ok_index elim!: db_ok_insert_row [rotated 2] intro: db_ok_retire)
qed

section \<open>Threads and reactions\<close>

definition reaction_key :: "reaction_row \<Rightarrow> uuid \<times> int \<times> string \<times> string \<times> string" where
  "reaction_key x = (rx_community_id x, rx_event_created_at x, rx_event_id x, rx_pubkey x, rx_emoji x)"

definition rows_ok :: "thread_db \<Rightarrow> bool" where
  "rows_ok db \<longleftrightarrow> db_ok (td_events db) \<and> distinct (map thread_key (td_threads db)) \<and> distinct (map reaction_key (td_reactions db))"

lemma distinct_add_thread: "distinct (map thread_key ts) \<Longrightarrow> distinct (map thread_key (snd (add_thread_row t ts)))"
  by (auto simp: add_thread_row_def list_ex_iff image_iff)

lemma keys_update_thread:
  "(\<And>t. thread_key (f t) = thread_key t) \<Longrightarrow> map thread_key (update_thread c i f ts) = map thread_key ts"
  by (simp add: update_thread_def)

lemma keys_increment: "map thread_key (increment_reply_count now c p r ts) = map thread_key ts"
  by (auto simp: increment_reply_count_def update_root_def keys_update_thread bump_reply_def bump_descendant_def thread_key_def
      split: option.split)

lemma distinct_thread_metadata:
  assumes "distinct (map thread_key ts)"
  shows "distinct (map thread_key (insert_thread_metadata now c m ts))"
proof -
  obtain added us where row: "add_thread_row (params_row c m) ts = (added, us)" by fastforce
  then have "distinct (map thread_key us)" using distinct_add_thread [OF assms, of "params_row c m"] by simp
  then show ?thesis
    using assms by (simp add: insert_thread_metadata_def row keys_increment add_stubs_def Let_def distinct_add_thread split: option.split)
qed

lemma distinct_add_reaction:
  assumes "distinct (map reaction_key xs)" and "add_reaction now xs c i t pk em src = Inr (added, ys)"
  shows "distinct (map reaction_key ys)"
proof -
  have same: "same_reaction c t i pk em x \<longleftrightarrow> reaction_key x = (c, t, i, pk, em)" for x
    by (auto simp: same_reaction_def reaction_key_def)
  have kept: "reaction_key (if b then x\<lparr>rx_created_at := now, rx_removed_at := None, rx_reaction_event_id := s\<rparr> else x) = reaction_key x"
    for b x s by (simp add: reaction_key_def)
  have new: "reaction_key \<lparr>rx_community_id = c, rx_event_created_at = t, rx_event_id = i, rx_pubkey = pk, rx_emoji = em,
      rx_created_at = now, rx_removed_at = None, rx_reaction_event_id = s\<rparr> = (c, t, i, pk, em)" for s
    by (simp add: reaction_key_def)
  have mem: "list_ex (\<lambda>x. reaction_key x = k) xs \<longleftrightarrow> k \<in> reaction_key ` set xs" for k
    by (auto simp: list_ex_iff)
  show ?thesis
    using assms unfolding add_reaction_def Let_def same
    by (auto simp: mem kept new comp_def split: if_splits)
qed

lemma rows_ok_insert_tx:
  "rows_ok db \<Longrightarrow> insert_event_with_thread_metadata_tx valid now db c e ch meta = Inr (res, db') \<Longrightarrow> rows_ok db'"
  by (auto simp: insert_event_with_thread_metadata_tx_def and_then_Inr rows_ok_def distinct_thread_metadata
      dest: db_ok_insert_event split: option.splits)

lemma rows_ok_index_new: "rows_ok db \<Longrightarrow> rows_ok (index_new valid c e ch b db)"
  by (simp add: index_new_def rows_ok_def db_ok_index)

lemma rows_ok_insert:
  "rows_ok db \<Longrightarrow> db_insert_event_with_thread_metadata valid now db c e ch meta = Inr (res, db') \<Longrightarrow> rows_ok db'"
  by (auto simp: db_insert_event_with_thread_metadata_def insert_event_with_thread_metadata_def and_then_Inr
      intro: rows_ok_index_new rows_ok_insert_tx)

lemma rows_ok_reaction:
  assumes "rows_ok db" and "db_insert_reaction_event_with_thread_metadata valid now db c e ch meta target reactor em = Inr (res, db')"
  shows "rows_ok db'"
proof -
  have "rows_ok db1" if out: "insert_reaction_event_with_thread_metadata valid now db c e ch meta target reactor em = Inr (out, db1)" for out db1
    using out
  proof (cases rule: reaction_tx_cases)
    case (Stored t xs r)
    have "rows_ok (db\<lparr>td_reactions := xs\<rparr>)"
      using assms(1) distinct_add_reaction [OF _ Stored(1)] by (simp add: rows_ok_def)
    then show ?thesis using Stored(2) by (rule rows_ok_insert_tx)
  qed (simp add: assms(1))
  then show ?thesis
    using assms(2) by (auto simp: db_insert_reaction_event_with_thread_metadata_def and_then_Inr intro: rows_ok_index_new)
qed

section \<open>Requests\<close>

definition state_ok :: "ingest_state \<Rightarrow> bool" where
  "state_ok s = rows_ok (thread_view s)"

abbreviation stays_ok :: "ingest_state \<Rightarrow> ingest_state \<Rightarrow> bool" where
  "stays_ok s s' \<equiv> state_ok s \<longrightarrow> state_ok s'"

lemma state_ok_plain [simp]:
  "state_ok (s\<lparr>is_trace := steps\<rparr>) = state_ok s" "state_ok (s\<lparr>is_calls := cs\<rparr>) = state_ok s"
  by (simp_all add: state_ok_def thread_view_def)

lemma ok_transact:
  assumes "\<And>db x db'. rows_ok db \<Longrightarrow> f db = Inr (x, db') \<Longrightarrow> rows_ok db'"
  shows "always stays_ok (transact f)"
proof (rule alwaysI)
  fix s
  show "stays_ok s (snd (transact f s))"
  proof (cases "f (thread_view s)")
    case (Inr p)
    then show ?thesis
      using assms by (cases p) (auto simp: transact_def state_ok_def put_threads_def thread_view_def)
  qed (simp add: transact_def)
qed

interpretation wellformed: request_storage env auth stays_ok
proof unfold_locales
  show "always stays_ok (replace_event env e channel_id)" if "is_replaceable (event_kind_u32 e)" for e channel_id
    using db_ok_replace [OF _ that]
    by (auto simp: always_def replace_event_def state_ok_def rows_ok_def thread_view_def split: sum.split)
  show "always stays_ok (replace_parameterized env e channel_id)" if "is_parameterized_replaceable (event_kind_u32 e)" for e channel_id
    using db_ok_replace_parameterized [OF _ that]
    by (auto simp: always_def replace_parameterized_def Let_def bind_gate state_ok_def rows_ok_def thread_view_def split: sum.split)
qed (auto simp: traced_def intro: ok_transact rows_ok_insert rows_ok_reaction)

text \<open>
  C19. A request on well-formed tables (distinct primary keys of events, mentions, threads and reactions; no row of an
  AUTH or an ephemeral event; the \<open>d\<close> tag column of every row that of its event) leaves them well-formed,
  whatever it sends and however it ends.
\<close>

theorem tables_stay_wellformed:
  assumes "state_ok s"
  shows "state_ok (snd (ingest_event env e auth s))"
proof -
  have "state_ok (snd (ingest_event_inner env e auth (s\<lparr>is_trace := []\<rparr>)))"
    using wellformed.of_inner [of env e auth] assms by (simp add: always_def)
  then show ?thesis by (auto simp: ingest_event_def Let_def split: prod.split)
qed

theorem tables_stay_wellformed_witness:
  "state_ok sample_state \<and> state_ok (snd (ingest_event sample_env sample_event sample_auth sample_state))"
proof -
  have "state_ok sample_state"
    by (simp add: state_ok_def rows_ok_def thread_view_def sample_state_def db_ok_empty)
  then show ?thesis using tables_stay_wellformed by blast
qed

end
