(* ===== verification/Relay_Roster.thy ===== *)
theory Relay_Roster
  imports Ingest_Pipeline
begin

text \<open>
  The roster of a relay: crates/buzz-db/src/relay_members.rs (members, roles, ownership), relay_invite.rs and
  buzz-core/src/invite.rs (use-limited invites), and the community rows of buzz-db/src/lib.rs that go with
  them. A table is a list of rows, a transaction one step. The time is in nanoseconds. \<open>lower\<close> on host names and keys, both
  ASCII, is \<open>ascii_lower\<close>; a community id is one that the tenant resolution has returned.
\<close>

section \<open>Tables\<close>

record member_row =
  rm_community_id :: uuid
  rm_pubkey :: string
  rm_member_role :: string
  rm_added_by :: "string option"
  rm_created_at :: nat
  rm_updated_at :: nat

record acceptance_row =
  ja_community_id :: uuid
  ja_pubkey :: string
  ja_policy_version :: string

record invite_row =
  iv_community_id :: uuid
  iv_id :: uuid
  iv_token_hash :: bytes
  iv_max_uses :: "int option"
  iv_use_count :: int
  iv_expires_at :: nat
  iv_created_by :: string

record community_row =
  co_id :: uuid
  co_host :: string
  co_icon :: "string option"
  co_archived_at :: "nat option"

record roster_db =
  ro_members :: "member_row list"
  ro_acceptances :: "acceptance_row list"
  ro_invites :: "invite_row list"
  ro_communities :: "community_row list"
  ro_allowlist :: "(uuid \<times> string \<times> nat) list option"

definition ROLES :: "string list" where
  "ROLES = [''owner'', ''admin'', ''member'']"

definition member_at :: "uuid \<Rightarrow> string \<Rightarrow> member_row \<Rightarrow> bool" where
  "member_at c pk r = (rm_community_id r = c \<and> rm_pubkey r = pk)"

section \<open>Reading\<close>

definition is_relay_member :: "roster_db \<Rightarrow> uuid \<Rightarrow> string \<Rightarrow> bool" where
  "is_relay_member db c pk = list_ex (member_at c pk) (ro_members db)"

definition has_admin_or_owner :: "roster_db \<Rightarrow> uuid \<Rightarrow> bool" where
  "has_admin_or_owner db c =
     list_ex (\<lambda>r. rm_community_id r = c \<and> rm_member_role r \<in> set [''admin'', ''owner'']) (ro_members db)"

definition get_relay_member :: "roster_db \<Rightarrow> uuid \<Rightarrow> string \<Rightarrow> member_row option" where
  "get_relay_member db c pk = find (member_at c pk) (ro_members db)"

definition list_relay_members :: "roster_db \<Rightarrow> uuid \<Rightarrow> member_row list" where
  "list_relay_members db c = sort_key rm_created_at (filter (\<lambda>r. rm_community_id r = c) (ro_members db))"

definition has_join_policy_acceptance :: "roster_db \<Rightarrow> uuid \<Rightarrow> string \<Rightarrow> string \<Rightarrow> bool" where
  "has_join_policy_acceptance db c pk version =
     list_ex (\<lambda>a. ja_community_id a = c \<and> ja_pubkey a = pk \<and> ja_policy_version a = version) (ro_acceptances db)"

section \<open>Members\<close>

text \<open>\<open>INSERT .. ON CONFLICT DO NOTHING\<close> under the check on the role column.\<close>

definition add_relay_member ::
  "nat \<Rightarrow> roster_db \<Rightarrow> uuid \<Rightarrow> string \<Rightarrow> string \<Rightarrow> string option \<Rightarrow> db_error + bool \<times> roster_db" where
  "add_relay_member now db c pk role added_by =
     (if role \<notin> set ROLES then Inl (Sqlx ''violates check constraint'')
      else if is_relay_member db c pk then Inr (False, db)
      else Inr (True, db\<lparr>ro_members := ro_members db @
        [\<lparr>rm_community_id = c, rm_pubkey = pk, rm_member_role = role, rm_added_by = added_by, rm_created_at = now, rm_updated_at = now\<rparr>]\<rparr>))"

text \<open>The acceptance row is checked for its length and belongs to a member row.\<close>

definition accept_policy :: "roster_db \<Rightarrow> uuid \<Rightarrow> string \<Rightarrow> string option \<Rightarrow> db_error + roster_db" where
  "accept_policy db c pk policy_version =
     (case policy_version of
        None \<Rightarrow> Inr db
      | Some version \<Rightarrow>
          if length version \<noteq> 64 then Inl (Sqlx ''violates check constraint'')
          else if has_join_policy_acceptance db c pk version then Inr db
          else Inr (db\<lparr>ro_acceptances := ro_acceptances db @
            [\<lparr>ja_community_id = c, ja_pubkey = pk, ja_policy_version = version\<rparr>]\<rparr>))"

definition claim_relay_membership ::
  "nat \<Rightarrow> roster_db \<Rightarrow> uuid \<Rightarrow> string \<Rightarrow> string \<Rightarrow> string option \<Rightarrow> db_error + bool \<times> roster_db" where
  "claim_relay_membership now db c pk role policy_version =
     and_then (add_relay_member now db c pk role (Some ''invite'')) (\<lambda>(inserted, db').
     and_then (accept_policy db' c pk policy_version) (\<lambda>db''. Inr (inserted, db'')))"

text \<open>A deleted member row takes its acceptances with it.\<close>

definition delete_members :: "(member_row \<Rightarrow> bool) \<Rightarrow> roster_db \<Rightarrow> bool \<times> roster_db" where
  "delete_members p db =
     (list_ex p (ro_members db),
      db\<lparr>ro_members := filter (\<lambda>r. \<not> p r) (ro_members db),
         ro_acceptances := filter (\<lambda>a. \<not> list_ex (\<lambda>r. p r \<and> member_at (ja_community_id a) (ja_pubkey a) r) (ro_members db))
           (ro_acceptances db)\<rparr>)"

definition db_remove_relay_member :: "roster_db \<Rightarrow> uuid \<Rightarrow> string \<Rightarrow> remove_result \<times> roster_db" where
  "db_remove_relay_member db c pk =
     (case delete_members (\<lambda>r. member_at c pk r \<and> rm_member_role r \<noteq> ''owner'') db of (removed, db') \<Rightarrow>
        (if removed then MemberRemoved else if is_relay_member db' c pk then MemberIsOwner else MemberNotPresent, db'))"

definition remove_relay_member_if_role :: "roster_db \<Rightarrow> uuid \<Rightarrow> string \<Rightarrow> string \<Rightarrow> remove_result \<times> roster_db" where
  "remove_relay_member_if_role db c pk expected_role =
     (case delete_members (\<lambda>r. member_at c pk r \<and> rm_member_role r = expected_role) db of (removed, db') \<Rightarrow>
        (if removed then MemberRemoved
         else (case get_relay_member db' c pk of
                 None \<Rightarrow> MemberNotPresent
               | Some r \<Rightarrow> if rm_member_role r = ''owner'' then MemberIsOwner else MemberRoleMismatch), db'))"

definition set_role :: "nat \<Rightarrow> string \<Rightarrow> (member_row \<Rightarrow> bool) \<Rightarrow> roster_db \<Rightarrow> roster_db" where
  "set_role now role p db =
     db\<lparr>ro_members := map (\<lambda>r. if p r then r\<lparr>rm_member_role := role, rm_updated_at := now\<rparr> else r) (ro_members db)\<rparr>"

definition update_relay_member_role ::
  "nat \<Rightarrow> roster_db \<Rightarrow> uuid \<Rightarrow> string \<Rightarrow> string \<Rightarrow> db_error + bool \<times> roster_db" where
  "update_relay_member_role now db c pk new_role =
     (let p = (\<lambda>r. member_at c pk r \<and> rm_member_role r \<noteq> ''owner'') in
      if \<not> list_ex p (ro_members db) then Inr (False, db)
      else if new_role \<notin> set ROLES then Inl (Sqlx ''violates check constraint'')
      else Inr (True, set_role now new_role p db))"

section \<open>Ownership\<close>

text \<open>\<open>INSERT .. 'owner' .. ON CONFLICT DO UPDATE SET role = 'owner'\<close>.\<close>

definition upsert_owner :: "nat \<Rightarrow> uuid \<Rightarrow> string \<Rightarrow> roster_db \<Rightarrow> roster_db" where
  "upsert_owner now c pk db =
     (if is_relay_member db c pk then set_role now ''owner'' (member_at c pk) db
      else db\<lparr>ro_members := ro_members db @
        [\<lparr>rm_community_id = c, rm_pubkey = pk, rm_member_role = ''owner'', rm_added_by = None, rm_created_at = now, rm_updated_at = now\<rparr>]\<rparr>)"

definition other_owner :: "uuid \<Rightarrow> string \<Rightarrow> member_row \<Rightarrow> bool" where
  "other_owner c pk r = (rm_community_id r = c \<and> rm_member_role r = ''owner'' \<and> rm_pubkey r \<noteq> pk)"

definition bootstrap_owner :: "nat \<Rightarrow> roster_db \<Rightarrow> uuid \<Rightarrow> string \<Rightarrow> roster_db" where
  "bootstrap_owner now db c owner_pubkey =
     (let pk = map ascii_lower owner_pubkey in set_role now ''admin'' (other_owner c pk) (upsert_owner now c pk db))"

datatype transfer_result =
    Transferred "string option" | AlreadyOwner | NoOwner | OwnerConflict | TransferLimitReached

definition MAX_COMMUNITIES_PER_OWNER :: int where
  "MAX_COMMUNITIES_PER_OWNER = 5"

definition effective_owner_limit :: "string option \<Rightarrow> int" where
  "effective_owner_limit raw =
     (case Option.bind raw (\<lambda>value. parse_i64 (trim value)) of
        Some limit \<Rightarrow> if limit > 0 then limit else MAX_COMMUNITIES_PER_OWNER
      | None \<Rightarrow> MAX_COMMUNITIES_PER_OWNER)"

definition owner_count_advisory_lock_key :: "bytes \<Rightarrow> int" where
  "owner_count_advisory_lock_key pubkey_hex = sint (fold fnv_step pubkey_hex 0xcbf29ce484222325)"

definition owned_count :: "roster_db \<Rightarrow> string \<Rightarrow> int" where
  "owned_count db pk = int (length (filter (\<lambda>r. rm_pubkey r = pk \<and> rm_member_role r = ''owner'') (ro_members db)))"

definition owners_of :: "roster_db \<Rightarrow> uuid \<Rightarrow> string list" where
  "owners_of db c = map rm_pubkey (filter (\<lambda>r. rm_community_id r = c \<and> rm_member_role r = ''owner'') (ro_members db))"

definition transfer_ownership ::
  "int \<Rightarrow> nat \<Rightarrow> roster_db \<Rightarrow> uuid \<Rightarrow> string \<Rightarrow> string \<Rightarrow> transfer_result \<times> roster_db" where
  "transfer_ownership limit now db c new_owner_pubkey expected_owner_pubkey =
     (let pk = map ascii_lower new_owner_pubkey;
          expected_owner = map ascii_lower expected_owner_pubkey;
          existing_owners = owners_of db c
      in if existing_owners = [] then (NoOwner, db)
         else if \<not> list_ex (\<lambda>p. p = expected_owner) existing_owners then (OwnerConflict, db)
         else if length existing_owners = 1 \<and> hd existing_owners = pk then (AlreadyOwner, db)
         else
           (let previous_owner = (if length existing_owners = 1 then Some (hd existing_owners)
                                  else find (\<lambda>p. p \<noteq> pk) existing_owners)
            in if owned_count db pk \<ge> limit then (TransferLimitReached, db)
               else (Transferred previous_owner, set_role now ''member'' (other_owner c pk) (upsert_owner now c pk db))))"

definition backfill_row :: "nat \<Rightarrow> uuid \<Rightarrow> uuid \<times> string \<times> nat \<Rightarrow> member_row list \<Rightarrow> member_row list" where
  "backfill_row now c = (\<lambda>(_, pk, added_at) ms. if list_ex (member_at c pk) ms then ms
     else ms @ [\<lparr>rm_community_id = c, rm_pubkey = pk, rm_member_role = ''member'', rm_added_by = None,
                 rm_created_at = added_at, rm_updated_at = now\<rparr>])"

definition backfill_from_allowlist :: "nat \<Rightarrow> roster_db \<Rightarrow> uuid \<Rightarrow> nat \<times> roster_db" where
  "backfill_from_allowlist now db c =
     (case ro_allowlist db of
        None \<Rightarrow> (0, db)
      | Some allowed \<Rightarrow>
          if list_ex (\<lambda>r. rm_community_id r = c) (ro_members db) then (0, db)
          else
            (let new = fold (backfill_row now c) (filter (\<lambda>(ac, _, _). ac = c) allowed) []
             in (length new, db\<lparr>ro_members := ro_members db @ new\<rparr>)))"

section \<open>Communities\<close>

datatype create_community_result = CommunityCreated uuid string | HostExists | CreateLimitReached

definition create_community_with_owner ::
  "int \<Rightarrow> nat \<Rightarrow> uuid \<Rightarrow> roster_db \<Rightarrow> string \<Rightarrow> string \<Rightarrow> create_community_result \<times> roster_db" where
  "create_community_with_owner limit now new_id db normalized_host owner =
     (let pk = map ascii_lower owner in
      case find (\<lambda>co. eq_ignore_ascii_case (co_host co) normalized_host) (ro_communities db) of
        None \<Rightarrow>
          if owned_count db pk \<ge> limit then (CreateLimitReached, db)
          else (CommunityCreated new_id normalized_host,
                db\<lparr>ro_communities := ro_communities db @ [\<lparr>co_id = new_id, co_host = normalized_host, co_icon = None, co_archived_at = None\<rparr>],
                   ro_members := ro_members db @ [\<lparr>rm_community_id = new_id, rm_pubkey = pk, rm_member_role = ''owner'', rm_added_by = None,
                     rm_created_at = now, rm_updated_at = now\<rparr>]\<rparr>)
      | Some co \<Rightarrow>
          if co_archived_at co = None \<and>
             list_ex (\<lambda>r. rm_community_id r = co_id co \<and> eq_ignore_ascii_case (rm_pubkey r) pk \<and> rm_member_role r = ''owner'') (ro_members db)
          then (CommunityCreated (co_id co) (co_host co), db)
          else (HostExists, db))"

definition set_community_icon :: "roster_db \<Rightarrow> uuid \<Rightarrow> string option \<Rightarrow> roster_db" where
  "set_community_icon db c icon =
     db\<lparr>ro_communities := map (\<lambda>co. if co_id co = c then co\<lparr>co_icon := icon\<rparr> else co) (ro_communities db)\<rparr>"

definition owned_by_pubkey :: "roster_db \<Rightarrow> string \<Rightarrow> community_row \<Rightarrow> bool" where
  "owned_by_pubkey db pk co =
     list_ex (\<lambda>r. rm_community_id r = co_id co \<and> eq_ignore_ascii_case (rm_pubkey r) pk \<and> rm_member_role r = ''owner'') (ro_members db)"

definition archive_community_owned_by ::
  "nat \<Rightarrow> roster_db \<Rightarrow> string \<Rightarrow> string \<Rightarrow> string \<Rightarrow> (uuid \<times> string \<times> nat) option \<times> roster_db" where
  "archive_community_owned_by now db normalized_host pk protected_deployment_host =
     (let p = (\<lambda>co. eq_ignore_ascii_case (co_host co) normalized_host \<and> owned_by_pubkey db pk co \<and>
                \<not> eq_ignore_ascii_case (co_host co) protected_deployment_host);
          at = (\<lambda>co. unwrap_or now (co_archived_at co))
      in (map_option (\<lambda>co. (co_id co, co_host co, at co)) (find p (ro_communities db)),
          db\<lparr>ro_communities := map (\<lambda>co. if p co then co\<lparr>co_archived_at := Some (at co)\<rparr> else co) (ro_communities db)\<rparr>))"

definition unarchive_community_owned_by :: "roster_db \<Rightarrow> string \<Rightarrow> string \<Rightarrow> (uuid \<times> string) option \<times> roster_db" where
  "unarchive_community_owned_by db normalized_host pk =
     (let p = (\<lambda>co. eq_ignore_ascii_case (co_host co) normalized_host \<and> owned_by_pubkey db pk co)
      in (map_option (\<lambda>co. (co_id co, co_host co)) (find p (ro_communities db)),
          db\<lparr>ro_communities := map (\<lambda>co. if p co then co\<lparr>co_archived_at := None\<rparr> else co) (ro_communities db)\<rparr>))"

section \<open>Invites\<close>

definition MIN_INVITE_TTL_SECS :: nat where "MIN_INVITE_TTL_SECS = 60"
definition MAX_INVITE_TTL_SECS :: nat where "MAX_INVITE_TTL_SECS = 30 * 24 * 60 * 60"
definition MAX_INVITE_USES :: int where "MAX_INVITE_USES = 10000"
definition V2_PREFIX :: string where "V2_PREFIX = ''v2.''"
definition V2_SECRET_LEN :: nat where "V2_SECRET_LEN = 32"
definition RETENTION_SWEEP_BATCH_SIZE :: nat where "RETENTION_SWEEP_BATCH_SIZE = 1000"

text \<open>The base64 and SHA-2 crates.\<close>

record invite_crypto =
  b64_encode :: "bytes \<Rightarrow> string"
  b64_decode :: "string \<Rightarrow> bytes option"
  sha256_text :: "string \<Rightarrow> bytes"

definition encode_v2_code :: "invite_crypto \<Rightarrow> bytes \<Rightarrow> string" where
  "encode_v2_code cr secret = V2_PREFIX @ b64_encode cr secret"

definition validate_v2_code :: "invite_crypto \<Rightarrow> string \<Rightarrow> bool" where
  "validate_v2_code cr code =
     (case strip_prefix V2_PREFIX code of
        None \<Rightarrow> False
      | Some encoded \<Rightarrow>
          (case b64_decode cr encoded of
             None \<Rightarrow> False
           | Some secret \<Rightarrow> \<not> (length secret \<noteq> V2_SECRET_LEN \<or> b64_encode cr secret \<noteq> encoded)))"

definition hash_v2_code :: "invite_crypto \<Rightarrow> string \<Rightarrow> bytes" where
  "hash_v2_code cr code = sha256_text cr code"

record minted_invite =
  mi_code :: string
  mi_expires_at :: nat
  mi_max_uses :: "int option"
  mi_uses_remaining :: "int option"
  mi_invite_id :: uuid

datatype claim_outcome =
    Joined int "int option" | AlreadyMember int "int option" | InviteExpired | InviteExhausted | InviteInvalid

definition validate_mint_inputs :: "nat \<Rightarrow> int option \<Rightarrow> db_error + unit" where
  "validate_mint_inputs ttl_secs max_uses =
     and_then (check (MIN_INVITE_TTL_SECS \<le> ttl_secs \<and> ttl_secs \<le> MAX_INVITE_TTL_SECS)
       (InvalidData (''ttl_secs must be between '' @ show_nat MIN_INVITE_TTL_SECS @ '' and '' @ show_nat MAX_INVITE_TTL_SECS))) (\<lambda>_.
     case max_uses of
       None \<Rightarrow> Inr ()
     | Some n \<Rightarrow> check (1 \<le> n \<and> n \<le> MAX_INVITE_USES)
         (InvalidData (''max_uses must be between 1 and '' @ show_i32 MAX_INVITE_USES)))"

text \<open>The secret and the row id are drawn at random; the token hash is unique in its community.\<close>

definition mint_relay_invite ::
  "invite_crypto \<Rightarrow> bytes \<Rightarrow> uuid \<Rightarrow> nat \<Rightarrow> roster_db \<Rightarrow> uuid \<Rightarrow> string \<Rightarrow> nat \<Rightarrow> int option
   \<Rightarrow> db_error + minted_invite \<times> roster_db" where
  "mint_relay_invite cr secret new_id now db c created_by ttl_secs max_uses =
     and_then (validate_mint_inputs ttl_secs max_uses) (\<lambda>_.
     let code = encode_v2_code cr secret;
         token_hash = hash_v2_code cr code;
         expires_at = now + ttl_secs * 10 ^ 9
     in if length token_hash \<noteq> 32 then Inl (Sqlx ''violates check constraint'')
        else if list_ex (\<lambda>i. iv_community_id i = c \<and> (iv_token_hash i = token_hash \<or> iv_id i = new_id)) (ro_invites db)
        then Inl (Sqlx ''duplicate key value violates unique constraint'')
        else Inr (\<lparr>mi_code = code, mi_expires_at = expires_at, mi_max_uses = max_uses, mi_uses_remaining = max_uses, mi_invite_id = new_id\<rparr>,
          db\<lparr>ro_invites := ro_invites db @
            [\<lparr>iv_community_id = c, iv_id = new_id, iv_token_hash = token_hash, iv_max_uses = max_uses, iv_use_count = 0,
              iv_expires_at = expires_at, iv_created_by = created_by\<rparr>]\<rparr>))"

definition reap_expired_relay_invites :: "nat \<Rightarrow> roster_db \<Rightarrow> nat \<times> roster_db" where
  "reap_expired_relay_invites cutoff db =
     (let key = (\<lambda>i. (iv_community_id i, iv_id i));
          old = take RETENTION_SWEEP_BATCH_SIZE (sort_key iv_expires_at (filter (\<lambda>i. iv_expires_at i < cutoff) (ro_invites db)))
      in (length (filter (\<lambda>i. key i \<in> set (map key old)) (ro_invites db)),
          db\<lparr>ro_invites := filter (\<lambda>i. key i \<notin> set (map key old)) (ro_invites db)\<rparr>))"

definition use_invite :: "uuid \<Rightarrow> uuid \<Rightarrow> int \<Rightarrow> roster_db \<Rightarrow> roster_db" where
  "use_invite c invite_id use_count db =
     db\<lparr>ro_invites := map (\<lambda>i. if iv_community_id i = c \<and> iv_id i = invite_id then i\<lparr>iv_use_count := use_count\<rparr> else i) (ro_invites db)\<rparr>"

definition claim_relay_invite ::
  "nat \<Rightarrow> roster_db \<Rightarrow> uuid \<Rightarrow> bytes \<Rightarrow> string \<Rightarrow> string option \<Rightarrow> db_error + claim_outcome \<times> roster_db" where
  "claim_relay_invite now db c token_hash claimer policy_version =
     (case find (\<lambda>i. iv_community_id i = c \<and> iv_token_hash i = token_hash) (ro_invites db) of
        None \<Rightarrow> Inr (InviteInvalid, db)
      | Some invite \<Rightarrow>
          (let max_uses = iv_max_uses invite; use_count = iv_use_count invite;
               remaining = (\<lambda>n. map_option (\<lambda>mu. mu - n) max_uses)
           in if iv_expires_at invite \<le> now then Inr (InviteExpired, db)
              else if is_relay_member db c claimer
              then and_then (accept_policy db c claimer policy_version) (\<lambda>db'. Inr (AlreadyMember use_count (remaining use_count), db'))
              else if (case max_uses of None \<Rightarrow> False | Some mu \<Rightarrow> use_count \<ge> mu) then Inr (InviteExhausted, db)
              else
                and_then (add_relay_member now db c claimer ''member'' (Some ''invite'')) (\<lambda>(inserted, db').
                and_then (accept_policy db' c claimer policy_version) (\<lambda>db''.
                if \<not> inserted then Inr (AlreadyMember use_count (remaining use_count), db'')
                else (let new_use_count = use_count + 1
                      in Inr (Joined new_use_count (remaining new_use_count), use_invite c (iv_id invite) new_use_count db''))))))"

section \<open>Administration\<close>

text \<open>
  crates/buzz-relay/src/handlers/relay_admin.rs. \<open>ae_fails\<close> tells which database call of a command, in their order, fails.
  What a command publishes is listed with its result.
\<close>

record admin_env =
  ae_community :: uuid
  ae_now_secs :: int
  ae_now :: nat
  ae_require_relay_membership :: bool
  ae_fails :: "nat \<Rightarrow> string option"

datatype roster_notice = NoticeAdded string | NoticeRemoved string | NoticeList

definition db_call :: "admin_env \<Rightarrow> nat \<Rightarrow> string \<Rightarrow> 'a \<Rightarrow> string + 'a" where
  "db_call env n what r = (case ae_fails env n of Some e \<Rightarrow> Inl (what @ e) | None \<Rightarrow> Inr r)"

definition extract_p_tag_hex :: "event \<Rightarrow> string option" where
  "extract_p_tag_hex e =
     find_map (\<lambda>parts. if length parts \<ge> 2 \<and> parts ! 0 = ''p'' \<and> length (parts ! 1) = 64 \<and> list_all is_ascii_hexdigit (parts ! 1)
       then Some (parts ! 1) else None) (ev_tags e)"

definition extract_tag_value :: "event \<Rightarrow> string \<Rightarrow> string option" where
  "extract_tag_value e name =
     (case find (\<lambda>parts. parts \<noteq> [] \<and> parts ! 0 = name) (ev_tags e) of
        None \<Rightarrow> None
      | Some parts \<Rightarrow> if length parts \<ge> 2 then Some (parts ! 1) else None)"

definition MAX_WORKSPACE_ICON_URL_LEN :: nat where "MAX_WORKSPACE_ICON_URL_LEN = 2048"
definition MAX_WORKSPACE_ICON_DATA_URL_LEN :: nat where "MAX_WORKSPACE_ICON_DATA_URL_LEN = 98304"

definition validate_workspace_icon :: "string \<Rightarrow> string + unit" where
  "validate_workspace_icon icon =
     (if icon = [] then Inr ()
      else if list_ex (\<lambda>c. is_control c \<or> white_space c) (chars icon) then Inl ''icon contains invalid characters''
      else if starts_with icon ''data:image/''
      then check (\<not> length icon > MAX_WORKSPACE_ICON_DATA_URL_LEN)
        (''icon data URL too long: '' @ show_nat (length icon) @ '' bytes (max '' @ show_nat MAX_WORKSPACE_ICON_DATA_URL_LEN @ '')'')
      else if \<not> starts_with icon ''https://'' \<and> \<not> starts_with icon ''http://''
      then Inl ''icon must be an http(s) URL or data:image/* URL''
      else check (\<not> length icon > MAX_WORKSPACE_ICON_URL_LEN)
        (''icon URL too long: '' @ show_nat (length icon) @ '' bytes (max '' @ show_nat MAX_WORKSPACE_ICON_URL_LEN @ '')''))"

definition may_set_workspace_profile :: "string \<Rightarrow> bool \<Rightarrow> bool \<Rightarrow> bool" where
  "may_set_workspace_profile sender_role membership_enforced community_has_steward =
     (if \<not> membership_enforced \<and> \<not> community_has_steward then True
      else sender_role = ''admin'' \<or> sender_role = ''owner'')"

definition admits_relay_admin_command :: "restriction_state \<Rightarrow> relay_admin_error + unit" where
  "admits_relay_admin_command restriction = (if re_banned restriction then Inl AdminBanned else Inr ())"

definition check_fresh :: "int \<Rightarrow> event \<Rightarrow> string + unit" where
  "check_fresh now e =
     (let event_ts = as_i64 (ev_created_at e); delta = i64_sub event_ts now in
      check (\<not> i64_abs delta > 120)
        (''event timestamp out of range: created_at='' @ show_i32 event_ts @ '', now='' @ show_i32 now @ '', delta='' @ show_i32 delta @
         ''s (max '' @ [CHR 0xC2, CHR 0xB1] @ ''120s)''))"

definition set_profile :: "admin_env \<Rightarrow> roster_db \<Rightarrow> event \<Rightarrow> string \<Rightarrow> string + roster_db \<times> roster_notice list" where
  "set_profile env db e sender_role =
     and_then (if ae_require_relay_membership env then Inr True
               else db_call env 1 ''database error: '' (has_admin_or_owner db (ae_community env))) (\<lambda>steward.
     and_then (check (may_set_workspace_profile sender_role (ae_require_relay_membership env) steward)
       ''actor not authorized: must be admin or owner'') (\<lambda>_.
     let icon = unwrap_or [] (extract_tag_value e ''icon'') in
     and_then (validate_workspace_icon icon) (\<lambda>_.
     db_call env 2 ''failed to store workspace icon: ''
       (set_community_icon db (ae_community env) (if icon = [] then None else Some icon), []))))"

definition add_member :: "admin_env \<Rightarrow> roster_db \<Rightarrow> event \<Rightarrow> string \<Rightarrow> string \<Rightarrow> string + roster_db \<times> roster_notice list" where
  "add_member env db e sender_role target_hex =
     and_then (check (\<not> (sender_role \<noteq> ''admin'' \<and> sender_role \<noteq> ''owner'')) ''actor not authorized: must be admin or owner'') (\<lambda>_.
     let role = unwrap_or ''member'' (extract_tag_value e ''role'') in
     and_then (check (role \<noteq> ''owner'') ''invalid role: use kind:9032 to promote to owner'') (\<lambda>_.
     and_then (check (\<not> (role = ''admin'' \<and> sender_role \<noteq> ''owner'')) ''actor not authorized: only owner can grant admin role'') (\<lambda>_.
     and_then (check (\<not> (role \<noteq> ''admin'' \<and> role \<noteq> ''member'')) (''invalid role: '' @ role)) (\<lambda>_.
     and_then (db_call env 1 ''database error: '' ()) (\<lambda>_.
     case add_relay_member (ae_now env) db (ae_community env) target_hex role (Some (ev_pubkey e)) of
       Inl err \<Rightarrow> Inl ''database error: constraint''
     | Inr (was_inserted, db') \<Rightarrow> Inr (db', if was_inserted then [NoticeAdded target_hex, NoticeList] else []))))))"

definition removal_error :: "remove_result \<Rightarrow> string \<Rightarrow> string + unit" where
  "removal_error r target_hex =
     (case r of
        MemberRemoved \<Rightarrow> Inr ()
      | MemberIsOwner \<Rightarrow> Inl ''cannot remove the relay owner''
      | MemberNotPresent \<Rightarrow> Inl (''member not found: '' @ target_hex)
      | MemberRoleMismatch \<Rightarrow> Inl ''actor not authorized: admins can only remove members'')"

definition remove_member :: "admin_env \<Rightarrow> roster_db \<Rightarrow> event \<Rightarrow> string \<Rightarrow> string \<Rightarrow> string + roster_db \<times> roster_notice list" where
  "remove_member env db e sender_role target_hex =
     and_then (check (\<not> (sender_role \<noteq> ''admin'' \<and> sender_role \<noteq> ''owner'')) ''actor not authorized: must be admin or owner'') (\<lambda>_.
     and_then (check (target_hex \<noteq> ev_pubkey e) ''cannot remove yourself'') (\<lambda>_.
     and_then (db_call env 1 ''database error: ''
       (if sender_role = ''admin'' then remove_relay_member_if_role db (ae_community env) target_hex ''member''
        else db_remove_relay_member db (ae_community env) target_hex)) (\<lambda>(r, db').
     and_then (removal_error r target_hex) (\<lambda>_.
     Inr (db', [NoticeRemoved target_hex, NoticeList])))))"

definition change_role :: "admin_env \<Rightarrow> roster_db \<Rightarrow> event \<Rightarrow> string \<Rightarrow> string \<Rightarrow> string + roster_db \<times> roster_notice list" where
  "change_role env db e sender_role target_hex =
     and_then (check (sender_role = ''owner'') ''actor not authorized: must be owner'') (\<lambda>_.
     and_then (check (target_hex \<noteq> ev_pubkey e) ''cannot change your own role'') (\<lambda>_.
     and_then (ok_or (extract_tag_value e ''role'') ''missing role tag'') (\<lambda>new_role.
     and_then (check (new_role \<noteq> ''owner'') ''cannot set role to owner'') (\<lambda>_.
     and_then (check (\<not> (new_role \<noteq> ''admin'' \<and> new_role \<noteq> ''member'')) (''invalid role: '' @ new_role)) (\<lambda>_.
     and_then (db_call env 1 ''database error: '' ()) (\<lambda>_.
     case update_relay_member_role (ae_now env) db (ae_community env) target_hex new_role of
       Inl err \<Rightarrow> Inl ''database error: constraint''
     | Inr (updated, db') \<Rightarrow>
         if \<not> updated
         then and_then (db_call env 2 ''database error: '' (get_relay_member db' (ae_community env) target_hex)) (\<lambda>exists.
              Inl (if exists \<noteq> None then ''cannot change the relay owner'' @ [CHR 0x27] @ ''s role'' else ''member not found: '' @ target_hex))
         else Inr (db', [NoticeList])))))))"

definition execute_relay_admin_command :: "admin_env \<Rightarrow> roster_db \<Rightarrow> event \<Rightarrow> string + roster_db \<times> roster_notice list" where
  "execute_relay_admin_command env db e =
     (let kind = event_kind_u32 e in
      and_then (check_fresh (ae_now_secs env) e) (\<lambda>_.
      and_then (db_call env 0 ''database error: '' (get_relay_member db (ae_community env) (ev_pubkey e))) (\<lambda>sender_member.
      let sender_role = (case sender_member of None \<Rightarrow> [] | Some m \<Rightarrow> rm_member_role m) in
      if kind = RELAY_ADMIN_SET_WORKSPACE_PROFILE then set_profile env db e sender_role
      else
        and_then (ok_or (extract_p_tag_hex e) ''missing or invalid p tag'') (\<lambda>p.
        let target_hex = map ascii_lower p in
        if kind = RELAY_ADMIN_ADD_MEMBER then add_member env db e sender_role target_hex
        else if kind = RELAY_ADMIN_REMOVE_MEMBER then remove_member env db e sender_role target_hex
        else if kind = RELAY_ADMIN_CHANGE_ROLE then change_role env db e sender_role target_hex
        else Inl (''unexpected relay admin kind: '' @ show_nat (unat kind))))))"

definition run_relay_admin ::
  "admin_env \<Rightarrow> string + restriction_state \<Rightarrow> roster_db \<Rightarrow> event \<Rightarrow> relay_admin_error + roster_db \<times> roster_notice list" where
  "run_relay_admin env restriction db e =
     and_then (map_err (\<lambda>err. AdminInternal (''internal error checking restriction state: '' @ err)) restriction) (\<lambda>r.
     and_then (admits_relay_admin_command r) (\<lambda>_.
     map_err AdminRejected (execute_relay_admin_command env db e)))"

end
