(* ===== verification/Roster_Laws.thy ===== *)
theory Roster_Laws
  imports Relay_Roster
begin

text \<open>
  What the roster guarantees: its rows as a map from members to roles, the one owner of a community over every
  history of operations, what an administration command can change, and the budget of an invite.
\<close>

section \<open>The roster as a map\<close>

definition role_of :: "roster_db \<Rightarrow> uuid \<Rightarrow> string \<Rightarrow> string option" where
  "role_of db c pk = map_option rm_member_role (get_relay_member db c pk)"

definition member_key :: "member_row \<Rightarrow> uuid \<times> string" where
  "member_key r = (rm_community_id r, rm_pubkey r)"

definition keys_ok :: "roster_db \<Rightarrow> bool" where
  "keys_ok db \<longleftrightarrow> distinct (map member_key (ro_members db))"

lemma member_at_key: "member_at c pk r \<longleftrightarrow> member_key r = (c, pk)"
  by (simp add: member_at_def member_key_def)

lemma get_member_find: "get_relay_member db c pk = find (\<lambda>r. member_key r = (c, pk)) (ro_members db)"
proof -
  have "member_at c pk = (\<lambda>r. member_key r = (c, pk))" by (rule ext) (rule member_at_key)
  then show ?thesis by (simp add: get_relay_member_def)
qed

lemma is_relay_member_role: "is_relay_member db c pk \<longleftrightarrow> role_of db c pk \<noteq> None"
  by (auto simp: is_relay_member_def role_of_def get_member_find find_None_iff list_ex_iff member_at_key)

lemma find_append: "find p (xs @ ys) = (case find p xs of None \<Rightarrow> find p ys | Some x \<Rightarrow> Some x)"
  by (induction xs) auto

lemma find_map_keep: "(\<And>x. p (f x) = p x) \<Longrightarrow> find p (map f xs) = map_option f (find p xs)"
  by (induction xs) auto

lemma role_of_members: "ro_members db' = ro_members db \<Longrightarrow> role_of db' c pk = role_of db c pk"
  by (simp add: role_of_def get_relay_member_def)

lemma role_of_added:
  assumes "ro_members db' = ro_members db @ [row]"
  shows "role_of db' c pk =
    (case role_of db c pk of Some r \<Rightarrow> Some r | None \<Rightarrow> if member_key row = (c, pk) then Some (rm_member_role row) else None)"
  using assms by (simp add: role_of_def get_member_find find_append split: option.split)

lemma role_of_set_role:
  "role_of (set_role now role p db) c pk =
     (case get_relay_member db c pk of None \<Rightarrow> None | Some r \<Rightarrow> Some (if p r then role else rm_member_role r))"
proof -
  have "member_key (if p r then r\<lparr>rm_member_role := role, rm_updated_at := now\<rparr> else r) = member_key r" for r
    by (simp add: member_key_def)
  then show ?thesis
    by (cases "get_relay_member db c pk") (simp_all add: role_of_def get_member_find set_role_def find_map_keep)
qed

lemma find_filter_distinct:
  assumes "distinct (map k xs)"
  shows "find (\<lambda>x. k x = a) (filter q xs) = (case find (\<lambda>x. k x = a) xs of None \<Rightarrow> None | Some x \<Rightarrow> if q x then Some x else None)"
  using assms
proof (induction xs)
  case (Cons x xs)
  have "find (\<lambda>y. k y = a) (filter q xs) = None" if "k x = a"
    unfolding find_None_iff using Cons.prems that by (auto intro: rev_image_eqI)
  with Cons show ?case by auto
qed simp

lemma role_of_delete:
  assumes "keys_ok db"
  shows "role_of (snd (delete_members p db)) c pk =
    (case get_relay_member db c pk of None \<Rightarrow> None | Some r \<Rightarrow> if p r then None else Some (rm_member_role r))"
  using find_filter_distinct [of member_key "ro_members db" "(c, pk)" "\<lambda>r. \<not> p r"] assms
  by (simp add: role_of_def get_member_find delete_members_def keys_ok_def split: option.split)

lemma get_member_Some: "get_relay_member db c pk = Some r \<Longrightarrow> r \<in> set (ro_members db) \<and> member_key r = (c, pk)"
  unfolding get_member_find by (auto simp: find_Some_iff)

lemma get_member_of_row:
  assumes "keys_ok db" and "r \<in> set (ro_members db)"
  shows "get_relay_member db (rm_community_id r) (rm_pubkey r) = Some r"
proof -
  have "find (\<lambda>x. member_key x = member_key r) xs = Some r" if "distinct (map member_key xs)" "r \<in> set xs" for xs
    using that by (induction xs) (auto simp: image_iff)
  from this [OF _ assms(2)] assms(1) have "find (\<lambda>x. member_key x = member_key r) (ro_members db) = Some r"
    by (simp add: keys_ok_def)
  then show ?thesis by (simp add: get_member_find member_key_def [of r])
qed

text \<open>For a condition on the columns.\<close>

lemma role_of_set_role_at:
  "role_of (set_role now role (\<lambda>r. Q (rm_community_id r) (rm_pubkey r) (rm_member_role r)) db) c pk =
     map_option (\<lambda>x. if Q c pk x then role else x) (role_of db c pk)"
  unfolding role_of_set_role
  by (cases "get_relay_member db c pk") (auto simp: role_of_def member_key_def dest: get_member_Some)

lemma role_of_delete_at:
  assumes "keys_ok db"
  shows "role_of (snd (delete_members (\<lambda>r. Q (rm_community_id r) (rm_pubkey r) (rm_member_role r)) db)) c pk =
     (case role_of db c pk of None \<Rightarrow> None | Some x \<Rightarrow> if Q c pk x then None else Some x)"
  unfolding role_of_delete [OF assms]
  by (cases "get_relay_member db c pk") (auto simp: role_of_def member_key_def dest: get_member_Some)

section \<open>Keys\<close>

lemma keys_ok_members: "ro_members db' = ro_members db \<Longrightarrow> keys_ok db' = keys_ok db"
  by (simp add: keys_ok_def)

lemma keys_ok_added:
  assumes "keys_ok db" and "ro_members db' = ro_members db @ [row]" and "\<not> is_relay_member db (rm_community_id row) (rm_pubkey row)"
  shows "keys_ok db'"
proof -
  have "member_key row \<notin> member_key ` set (ro_members db)"
    using assms(3) by (auto simp: is_relay_member_def list_ex_iff member_at_key member_key_def [of row] image_iff)
  then show ?thesis using assms(1,2) by (simp add: keys_ok_def)
qed

lemma keys_ok_set_role: "keys_ok (set_role now role p db) = keys_ok db"
proof -
  have "member_key (if p r then r\<lparr>rm_member_role := role, rm_updated_at := now\<rparr> else r) = member_key r" for r
    by (simp add: member_key_def)
  then show ?thesis by (simp add: keys_ok_def set_role_def comp_def)
qed

lemma keys_ok_delete: "keys_ok db \<Longrightarrow> keys_ok (snd (delete_members p db))"
  by (simp add: keys_ok_def delete_members_def distinct_map_filter)

section \<open>Effects of the operations\<close>

lemma add_effect:
  assumes "add_relay_member now db c pk role by_key = Inr (b, db')"
  shows "role_of db' c' pk' = (if (c', pk') = (c, pk) \<and> role_of db c pk = None then Some role else role_of db c' pk')"
    and "keys_ok db \<Longrightarrow> keys_ok db'" and "b \<longleftrightarrow> role_of db c pk = None" and "role \<in> set ROLES"
    and "ro_invites db' = ro_invites db" and "ro_communities db' = ro_communities db"
proof -
  consider (Old) "db' = db" "role_of db c pk \<noteq> None" "\<not> b"
    | (New) row where "ro_members db' = ro_members db @ [row]" "member_key row = (c, pk)" "rm_member_role row = role" "role_of db c pk = None" "b"
    using assms by (auto simp: add_relay_member_def is_relay_member_role member_key_def split: if_splits)
  then show "role_of db' c' pk' = (if (c', pk') = (c, pk) \<and> role_of db c pk = None then Some role else role_of db c' pk')"
    and "b \<longleftrightarrow> role_of db c pk = None"
    by (cases; auto simp: role_of_added split: option.split)+
  show "keys_ok db'" if "keys_ok db"
    using assms that keys_ok_added [OF that]
    by (auto simp: add_relay_member_def split: if_splits)
  show "role \<in> set ROLES" "ro_invites db' = ro_invites db" "ro_communities db' = ro_communities db"
    using assms by (auto simp: add_relay_member_def split: if_splits)
qed

lemma accept_policy_effect:
  "accept_policy db c pk v = Inr db' \<Longrightarrow> ro_members db' = ro_members db \<and> ro_invites db' = ro_invites db \<and> ro_communities db' = ro_communities db"
  by (auto simp: accept_policy_def split: option.splits if_splits)

lemma delete_at_effect:
  assumes "keys_ok db"
  shows "role_of (snd (delete_members (\<lambda>r. member_at c pk r \<and> q (rm_member_role r)) db)) c' pk' =
    (if (c', pk') = (c, pk) \<and> (\<exists>r. role_of db c pk = Some r \<and> q r) then None else role_of db c' pk')"
  using role_of_delete_at [OF assms, of "\<lambda>c1 pk1 x. c1 = c \<and> pk1 = pk \<and> q x" c' pk']
  by (simp add: member_at_def split: option.splits)

lemma delete_found:
  "fst (delete_members (\<lambda>r. member_at c pk r \<and> q (rm_member_role r)) db) \<Longrightarrow> keys_ok db \<Longrightarrow> \<exists>r. role_of db c pk = Some r \<and> q r"
proof -
  assume "fst (delete_members (\<lambda>r. member_at c pk r \<and> q (rm_member_role r)) db)" and ok: "keys_ok db"
  then obtain r where "r \<in> set (ro_members db)" "member_key r = (c, pk)" "q (rm_member_role r)"
    by (auto simp: delete_members_def list_ex_iff member_at_key)
  then show ?thesis
    using get_member_of_row [OF ok] by (auto simp: role_of_def member_key_def)
qed

lemma remove_effect:
  assumes "db_remove_relay_member db c pk = (res, db')" and "keys_ok db"
  shows "role_of db' c' pk' = (if (c', pk') = (c, pk) \<and> role_of db c pk \<noteq> Some ''owner'' then None else role_of db c' pk')"
    and "keys_ok db'" and "res = MemberRemoved \<Longrightarrow> role_of db c pk \<noteq> None"
    and "ro_invites db' = ro_invites db" and "ro_communities db' = ro_communities db"
proof -
  let ?d = "delete_members (\<lambda>r. member_at c pk r \<and> rm_member_role r \<noteq> ''owner'') db"
  have db': "db' = snd ?d" and res: "res = MemberRemoved \<Longrightarrow> fst ?d"
    using assms(1) by (auto simp: db_remove_relay_member_def split: prod.splits if_splits)
  show "role_of db' c' pk' = (if (c', pk') = (c, pk) \<and> role_of db c pk \<noteq> Some ''owner'' then None else role_of db c' pk')"
    using delete_at_effect [OF assms(2), of c pk "\<lambda>r. r \<noteq> ''owner''"] by (cases "role_of db c pk") (auto simp: db')
  show "keys_ok db'" using keys_ok_delete [OF assms(2)] by (simp add: db')
  show "role_of db c pk \<noteq> None" if "res = MemberRemoved"
    using delete_found [of c pk "\<lambda>r. r \<noteq> ''owner''"] res [OF that] assms(2) by auto
  show "ro_invites db' = ro_invites db" "ro_communities db' = ro_communities db"
    by (simp_all add: db' delete_members_def)
qed

lemma remove_if_effect:
  assumes "remove_relay_member_if_role db c pk role = (res, db')" and "keys_ok db"
  shows "role_of db' c' pk' = (if (c', pk') = (c, pk) \<and> role_of db c pk = Some role then None else role_of db c' pk')"
    and "keys_ok db'" and "ro_invites db' = ro_invites db" and "ro_communities db' = ro_communities db"
proof -
  let ?d = "delete_members (\<lambda>r. member_at c pk r \<and> rm_member_role r = role) db"
  have db': "db' = snd ?d"
    using assms(1) by (auto simp: remove_relay_member_if_role_def split: prod.splits if_splits)
  show "role_of db' c' pk' = (if (c', pk') = (c, pk) \<and> role_of db c pk = Some role then None else role_of db c' pk')"
    using delete_at_effect [OF assms(2), of c pk "\<lambda>r. r = role"] by (auto simp: db')
  show "keys_ok db'" using keys_ok_delete [OF assms(2)] by (simp add: db')
  show "ro_invites db' = ro_invites db" "ro_communities db' = ro_communities db"
    by (simp_all add: db' delete_members_def)
qed

lemma update_effect:
  assumes "update_relay_member_role now db c pk new_role = Inr (b, db')"
  shows "role_of db' c' pk' =
    (if b \<and> (c', pk') = (c, pk) \<and> role_of db c pk \<noteq> None \<and> role_of db c pk \<noteq> Some ''owner'' then Some new_role else role_of db c' pk')"
    and "keys_ok db \<Longrightarrow> keys_ok db'" and "b \<Longrightarrow> new_role \<in> set ROLES"
    and "ro_invites db' = ro_invites db" and "ro_communities db' = ro_communities db"
proof -
  let ?p = "\<lambda>r. member_at c pk r \<and> rm_member_role r \<noteq> ''owner''"
  have db': "db' = (if b then set_role now new_role ?p db else db)"
    using assms by (auto simp: update_relay_member_role_def Let_def split: if_splits)
  show "role_of db' c' pk' =
    (if b \<and> (c', pk') = (c, pk) \<and> role_of db c pk \<noteq> None \<and> role_of db c pk \<noteq> Some ''owner'' then Some new_role else role_of db c' pk')"
    using role_of_set_role_at [of now new_role "\<lambda>c1 pk1 x. (c1 = c \<and> pk1 = pk) \<and> x \<noteq> ''owner''" db c' pk']
    by (cases "role_of db c' pk'") (auto simp: db' member_at_def)
  show "keys_ok db \<Longrightarrow> keys_ok db'" by (simp add: db' keys_ok_set_role)
  show "b \<Longrightarrow> new_role \<in> set ROLES"
    using assms by (auto simp: update_relay_member_role_def Let_def split: if_splits)
  show "ro_invites db' = ro_invites db" "ro_communities db' = ro_communities db"
    by (simp_all add: db' set_role_def)
qed

lemma appoint_effect:
  "role_of (set_role now role (other_owner c pk) (upsert_owner now c pk db)) c' pk' =
     (if (c', pk') = (c, pk) then Some ''owner''
      else if c' = c \<and> role_of db c' pk' = Some ''owner'' then Some role else role_of db c' pk')"
  "keys_ok db \<Longrightarrow> keys_ok (set_role now role (other_owner c pk) (upsert_owner now c pk db))"
proof -
  have up: "role_of (upsert_owner now c pk db) c' pk' = (if (c', pk') = (c, pk) then Some ''owner'' else role_of db c' pk')" for c' pk'
  proof (cases "is_relay_member db c pk")
    case True
    then show ?thesis
      using role_of_set_role_at [of now "''owner''" "\<lambda>c1 pk1 x. c1 = c \<and> pk1 = pk" db c' pk']
      by (cases "role_of db c' pk'") (auto simp: upsert_owner_def member_at_def [abs_def] is_relay_member_role)
  next
    case False
    let ?row = "\<lparr>rm_community_id = c, rm_pubkey = pk, rm_member_role = ''owner'', rm_added_by = None, rm_created_at = now, rm_updated_at = now\<rparr>"
    have "role_of (upsert_owner now c pk db) c' pk' =
        (case role_of db c' pk' of Some r \<Rightarrow> Some r | None \<Rightarrow> if member_key ?row = (c', pk') then Some (rm_member_role ?row) else None)"
      by (rule role_of_added) (use False in \<open>simp add: upsert_owner_def\<close>)
    with False show ?thesis by (auto simp: member_key_def is_relay_member_role split: option.splits)
  qed
  have "role_of (set_role now role (other_owner c pk) db1) c' pk' =
      (if c' = c \<and> pk' \<noteq> pk \<and> role_of db1 c' pk' = Some ''owner'' then Some role else role_of db1 c' pk')" for db1
    using role_of_set_role_at [of now role "\<lambda>c1 pk1 x. c1 = c \<and> x = ''owner'' \<and> pk1 \<noteq> pk" db1 c' pk']
    by (cases "role_of db1 c' pk'") (auto simp: other_owner_def [abs_def])
  then show "role_of (set_role now role (other_owner c pk) (upsert_owner now c pk db)) c' pk' =
     (if (c', pk') = (c, pk) then Some ''owner''
      else if c' = c \<and> role_of db c' pk' = Some ''owner'' then Some role else role_of db c' pk')"
    by (auto simp: up)
  show "keys_ok db \<Longrightarrow> keys_ok (set_role now role (other_owner c pk) (upsert_owner now c pk db))"
    using keys_ok_added by (fastforce simp: keys_ok_set_role upsert_owner_def)
qed

section \<open>Administration commands\<close>

definition admin_may :: "string option \<Rightarrow> string option \<Rightarrow> string option \<Rightarrow> bool" where
  "admin_may sender old new \<longleftrightarrow>
     old \<noteq> Some ''owner'' \<and> new \<noteq> Some ''owner'' \<and>
     (sender = Some ''owner'' \<or>
      sender = Some ''admin'' \<and> old \<in> {None, Some ''member''} \<and> new \<in> {None, Some ''member''})"

definition permitted :: "admin_env \<Rightarrow> event \<Rightarrow> roster_db \<Rightarrow> roster_db \<Rightarrow> bool" where
  "permitted env e db db' \<longleftrightarrow>
     keys_ok db' \<and> ro_invites db' = ro_invites db \<and>
     (\<forall>c pk. role_of db' c pk \<noteq> role_of db c pk \<longrightarrow>
        c = ae_community env \<and> pk \<noteq> ev_pubkey e \<and>
        admin_may (role_of db c (ev_pubkey e)) (role_of db c pk) (role_of db' c pk))"

lemma db_call_Inr: "db_call env n what r = Inr x \<longleftrightarrow> ae_fails env n = None \<and> x = r"
  by (auto simp: db_call_def split: option.splits)

lemma set_profile_permitted:
  assumes "keys_ok db" and "set_profile env db e role = Inr (db', ns)"
  shows "permitted env e db db'"
proof -
  have "ro_members db' = ro_members db" "ro_invites db' = ro_invites db"
    using assms(2) unfolding set_profile_def and_then_Inr db_call_Inr Let_def by (auto simp only: prod.inject, simp_all add: set_community_icon_def)
  then show ?thesis
    using assms(1) role_of_members [of db' db] keys_ok_members [of db' db] by (simp add: permitted_def)
qed

lemma add_member_permitted:
  assumes "keys_ok db" and "add_member env db e role target = Inr (db', ns)"
    and sender: "role = unwrap_or [] (role_of db (ae_community env) (ev_pubkey e))"
  shows "permitted env e db db'"
proof -
  let ?new = "unwrap_or ''member'' (extract_tag_value e ''role'')"
  have "\<exists>b. add_relay_member (ae_now env) db (ae_community env) target ?new (Some (ev_pubkey e)) = Inr (b, db')"
    using assms(2)
    by (cases "add_relay_member (ae_now env) db (ae_community env) target ?new (Some (ev_pubkey e))")
      (simp_all add: add_member_def and_then_Inr Let_def split: prod.splits)
  then obtain b where add: "add_relay_member (ae_now env) db (ae_community env) target ?new (Some (ev_pubkey e)) = Inr (b, db')" ..
  have roles: "role = ''admin'' \<or> role = ''owner''" "?new \<noteq> ''owner''" "?new = ''admin'' \<longrightarrow> role = ''owner''"
      "?new = ''admin'' \<or> ?new = ''member''"
    using assms(2) unfolding add_member_def Let_def and_then_Inr check_Inr by blast+
  have "role_of db (ae_community env) (ev_pubkey e) = Some role"
    using roles(1) sender by (cases "role_of db (ae_community env) (ev_pubkey e)") auto
  then show ?thesis
    unfolding permitted_def
    using add_effect [OF add] assms(1) roles by (auto simp: admin_may_def split: if_splits)
qed

lemma remove_member_permitted:
  assumes "keys_ok db" and "remove_member env db e role target = Inr (db', ns)"
    and sender: "role = unwrap_or [] (role_of db (ae_community env) (ev_pubkey e))"
  shows "permitted env e db db'"
proof -
  have roles: "role = ''admin'' \<or> role = ''owner''" and other: "target \<noteq> ev_pubkey e"
    using assms(2) by (auto simp: remove_member_def and_then_Inr)
  have sender': "role_of db (ae_community env) (ev_pubkey e) = Some role"
    using roles sender by (cases "role_of db (ae_community env) (ev_pubkey e)") auto
  show ?thesis
  proof (cases "role = ''admin''")
    case True
    obtain r db1 where rm1: "remove_relay_member_if_role db (ae_community env) target ''member'' = (r, db1)" by fastforce
    with True assms(2) have rm: "remove_relay_member_if_role db (ae_community env) target ''member'' = (r, db')"
      by (simp add: remove_member_def and_then_Inr db_call_Inr)
    show ?thesis
      unfolding permitted_def
      using remove_if_effect [OF rm assms(1)] True sender' other by (auto simp: admin_may_def split: if_splits)
  next
    case False
    obtain r db1 where rm1: "db_remove_relay_member db (ae_community env) target = (r, db1)" by fastforce
    with False assms(2) have rm: "db_remove_relay_member db (ae_community env) target = (r, db')"
      by (simp add: remove_member_def and_then_Inr db_call_Inr)
    show ?thesis
      unfolding permitted_def
      using remove_effect [OF rm assms(1)] False roles sender' other by (auto simp: admin_may_def split: if_splits)
  qed
qed

lemma change_role_permitted:
  assumes "keys_ok db" and "change_role env db e role target = Inr (db', ns)"
    and sender: "role = unwrap_or [] (role_of db (ae_community env) (ev_pubkey e))"
  shows "permitted env e db db'"
proof -
  obtain new where new: "extract_tag_value e ''role'' = Some new"
    and roles: "role = ''owner''" "target \<noteq> ev_pubkey e" "new \<noteq> ''owner''"
    using assms(2) by (cases "extract_tag_value e ''role''") (simp_all add: change_role_def and_then_Inr)
  have "\<exists>b. update_relay_member_role (ae_now env) db (ae_community env) target new = Inr (b, db')"
    using assms(2)
    by (cases "update_relay_member_role (ae_now env) db (ae_community env) target new")
      (simp_all add: change_role_def and_then_Inr new db_call_def split: prod.splits if_splits)
  then obtain b where up: "update_relay_member_role (ae_now env) db (ae_community env) target new = Inr (b, db')" ..
  have "role_of db (ae_community env) (ev_pubkey e) = Some role"
    using roles(1) sender by (cases "role_of db (ae_community env) (ev_pubkey e)") auto
  then show ?thesis
    unfolding permitted_def
    using update_effect [OF up] assms(1) roles by (auto simp: admin_may_def split: if_splits)
qed

lemma execute_permitted:
  assumes "keys_ok db" and "execute_relay_admin_command env db e = Inr (db', ns)"
  shows "permitted env e db db'"
proof -
  have role: "(case get_relay_member db (ae_community env) (ev_pubkey e) of None \<Rightarrow> [] | Some m \<Rightarrow> rm_member_role m) =
      unwrap_or [] (role_of db (ae_community env) (ev_pubkey e))"
    by (simp add: role_of_def split: option.split)
  show ?thesis
    using assms(2) unfolding execute_relay_admin_command_def Let_def
    by (auto simp: and_then_Inr db_call_Inr role split: if_splits
        intro: set_profile_permitted [OF assms(1)] add_member_permitted [OF assms(1)]
          remove_member_permitted [OF assms(1)] change_role_permitted [OF assms(1)])
qed

end
