(* ===== verification/Roster_Owners.thy ===== *)
theory Roster_Owners
  imports Roster_Laws
begin

text \<open>
  The histories of the roster: every operation that changes it as a step, the one owner of a community over all of
  them, and what an administration command may change.
\<close>

section \<open>Histories\<close>

datatype roster_label = Silent | Minted uuid bytes "int option" | JoinedBy uuid bytes

definition claim_label :: "uuid \<Rightarrow> bytes \<Rightarrow> claim_outcome \<Rightarrow> roster_label" where
  "claim_label c h out = (case out of Joined _ _ \<Rightarrow> JoinedBy c h | _ \<Rightarrow> Silent)"

definition community_fresh :: "roster_db \<Rightarrow> uuid \<Rightarrow> bool" where
  "community_fresh db c \<longleftrightarrow> (\<forall>pk. \<not> is_relay_member db c pk)"

text \<open>
  The operations of the running relay, of its command line and of its start. The command line adds and removes
  only members and admins, a signed invite token grants only the role of a member.
\<close>

inductive roster_step :: "roster_db \<Rightarrow> roster_label \<Rightarrow> roster_db \<Rightarrow> bool" where
  Command: "execute_relay_admin_command env db e = Inr (db', ns) \<Longrightarrow> roster_step db Silent db'"
| Leave: "db_remove_relay_member db c pk = (r, db') \<Longrightarrow> roster_step db Silent db'"
| Cli_add: "role = ''member'' \<or> role = ''admin'' \<Longrightarrow> add_relay_member now db c pk role None = Inr (b, db') \<Longrightarrow> roster_step db Silent db'"
| Cli_remove: "role = ''member'' \<or> role = ''admin'' \<Longrightarrow> remove_relay_member_if_role db c pk role = (r, db') \<Longrightarrow> roster_step db Silent db'"
| Claim_token: "claim_relay_membership now db c pk ''member'' v = Inr (b, db') \<Longrightarrow> roster_step db Silent db'"
| Bootstrap: "roster_step db Silent (bootstrap_owner now db c pk)"
| Transfer: "transfer_ownership limit now db c new expected = (t, db') \<Longrightarrow> roster_step db Silent db'"
| Create: "create_community_with_owner limit now new_id db host owner = (cr, db') \<Longrightarrow> community_fresh db new_id \<Longrightarrow> roster_step db Silent db'"
| Backfill: "backfill_from_allowlist now db c = (n, db') \<Longrightarrow> roster_step db Silent db'"
| Archive: "archive_community_owned_by now db host pk protected = (a, db') \<Longrightarrow> roster_step db Silent db'"
| Unarchive: "unarchive_community_owned_by db host pk = (u, db') \<Longrightarrow> roster_step db Silent db'"
| Reap: "reap_expired_relay_invites cutoff db = (n, db') \<Longrightarrow> roster_step db Silent db'"
| Mint: "mint_relay_invite cr secret new_id now db c by_key ttl uses = Inr (m, db') \<Longrightarrow>
    roster_step db (Minted c (hash_v2_code cr (mi_code m)) uses) db'"
| Claim: "claim_relay_invite now db c h pk v = Inr (out, db') \<Longrightarrow> roster_step db (claim_label c h out) db'"

inductive roster_run :: "roster_db \<Rightarrow> roster_label list \<Rightarrow> roster_db \<Rightarrow> bool" where
  Stop: "roster_run db [] db"
| Go: "roster_run db ls db1 \<Longrightarrow> roster_step db1 l db2 \<Longrightarrow> roster_run db (ls @ [l]) db2"

text \<open>A new relay: no rows but those of the allowlist that an earlier version may have left.\<close>

definition roster_empty :: "(uuid \<times> string \<times> nat) list option \<Rightarrow> roster_db" where
  "roster_empty allowed = \<lparr>ro_members = [], ro_acceptances = [], ro_invites = [], ro_communities = [], ro_allowlist = allowed\<rparr>"

section \<open>One owner\<close>

definition one_owner :: "roster_db \<Rightarrow> bool" where
  "one_owner db \<longleftrightarrow> (\<forall>c pk pk'. role_of db c pk = Some ''owner'' \<longrightarrow> role_of db c pk' = Some ''owner'' \<longrightarrow> pk = pk')"

definition roster_ok :: "roster_db \<Rightarrow> bool" where
  "roster_ok db \<longleftrightarrow> keys_ok db \<and> one_owner db"

text \<open>Steps that appoint nobody and dismiss no owner.\<close>

definition owners_kept :: "roster_db \<Rightarrow> roster_db \<Rightarrow> bool" where
  "owners_kept db db' \<longleftrightarrow> keys_ok db' \<and> (\<forall>c pk. role_of db' c pk = Some ''owner'' \<longleftrightarrow> role_of db c pk = Some ''owner'')"

definition owner_step :: "roster_db \<Rightarrow> roster_db \<Rightarrow> bool" where
  "owner_step db db' \<longleftrightarrow>
     keys_ok db' \<and> (one_owner db \<longrightarrow> one_owner db') \<and>
     (\<forall>c pk. role_of db c pk = Some ''owner'' \<longrightarrow> (\<exists>pk'. role_of db' c pk' = Some ''owner''))"

lemma owners_keptD: "owners_kept db db' \<Longrightarrow> owner_step db db'"
  unfolding owners_kept_def owner_step_def one_owner_def by blast

lemma owners_kept_members: "keys_ok db \<Longrightarrow> ro_members db' = ro_members db \<Longrightarrow> owners_kept db db'"
  using role_of_members [of db' db] keys_ok_members [of db' db] by (simp add: owners_kept_def)

lemma owners_kept_add:
  "keys_ok db \<Longrightarrow> role \<noteq> ''owner'' \<Longrightarrow> add_relay_member now db c pk role by_key = Inr (b, db') \<Longrightarrow> owners_kept db db'"
  using add_effect [of now db c pk role by_key b db'] by (auto simp: owners_kept_def)

lemma owners_kept_trans: "owners_kept db db1 \<Longrightarrow> owners_kept db1 db2 \<Longrightarrow> owners_kept db db2"
  by (simp add: owners_kept_def)

lemma owners_kept_accept:
  "keys_ok db \<Longrightarrow> accept_policy db c pk v = Inr db' \<Longrightarrow> owners_kept db db'"
  using accept_policy_effect by (auto intro: owners_kept_members)

lemma owners_keptI:
  "keys_ok db' \<Longrightarrow> (\<And>c pk. role_of db' c pk \<noteq> role_of db c pk \<Longrightarrow> role_of db c pk \<noteq> Some ''owner'' \<and> role_of db' c pk \<noteq> Some ''owner'') \<Longrightarrow>
   owners_kept db db'"
  unfolding owners_kept_def by metis

lemma owners_kept_claim:
  assumes "keys_ok db" and "claim_relay_membership now db c pk ''member'' v = Inr (b, db')"
  shows "owners_kept db db'"
proof -
  obtain b1 db1 where add: "add_relay_member now db c pk ''member'' (Some ''invite'') = Inr (b1, db1)" and acc: "accept_policy db1 c pk v = Inr db'"
    using assms(2) by (auto simp: claim_relay_membership_def and_then_Inr)
  have 1: "owners_kept db db1" by (rule owners_kept_add [OF assms(1) _ add]) simp
  moreover have "owners_kept db1 db'"
    by (rule owners_kept_accept [OF _ acc]) (use 1 in \<open>simp add: owners_kept_def\<close>)
  ultimately show ?thesis by (rule owners_kept_trans)
qed

lemma claim_invite_cases:
  assumes "claim_relay_invite now db c h pk v = Inr (out, db')"
  obtains (Refused) "db' = db" "claim_label c h out = Silent"
  | (Member) "accept_policy db c pk v = Inr db'" "claim_label c h out = Silent"
  | (Joins) invite b db1 db2 where "find (\<lambda>i. iv_community_id i = c \<and> iv_token_hash i = h) (ro_invites db) = Some invite"
      "iv_expires_at invite > now" "role_of db c pk = None" "\<forall>n. iv_max_uses invite = Some n \<longrightarrow> iv_use_count invite < n"
      "add_relay_member now db c pk ''member'' (Some ''invite'') = Inr (b, db1)" "accept_policy db1 c pk v = Inr db2"
      "db' = use_invite c (iv_id invite) (iv_use_count invite + 1) db2" "claim_label c h out = JoinedBy c h"
proof (cases "find (\<lambda>i. iv_community_id i = c \<and> iv_token_hash i = h) (ro_invites db)")
  case None
  then show ?thesis using assms by (auto simp: claim_relay_invite_def claim_label_def intro: Refused)
next
  case (Some invite)
  consider (Late) "iv_expires_at invite \<le> now" | (Known) "\<not> iv_expires_at invite \<le> now" "is_relay_member db c pk"
    | (Spent) n where "\<not> iv_expires_at invite \<le> now" "\<not> is_relay_member db c pk" "iv_max_uses invite = Some n" "iv_use_count invite \<ge> n"
    | (Open) "\<not> iv_expires_at invite \<le> now" "\<not> is_relay_member db c pk" "\<forall>n. iv_max_uses invite = Some n \<longrightarrow> iv_use_count invite < n"
    by (cases "iv_max_uses invite"; force)
  then show ?thesis
  proof cases
    case Late
    with Some assms show ?thesis by (auto simp: claim_relay_invite_def claim_label_def Let_def intro: Refused)
  next
    case Known
    with Some assms show ?thesis by (auto simp: claim_relay_invite_def claim_label_def Let_def and_then_Inr intro: Member)
  next
    case Spent
    with Some assms show ?thesis by (auto simp: claim_relay_invite_def claim_label_def Let_def intro: Refused)
  next
    case Open
    then have open_uses: "(case iv_max_uses invite of None \<Rightarrow> False | Some n \<Rightarrow> iv_use_count invite \<ge> n) = False"
      by (auto split: option.split)
    obtain b db1 db2 where add: "add_relay_member now db c pk ''member'' (Some ''invite'') = Inr (b, db1)"
      and acc: "accept_policy db1 c pk v = Inr db2"
      and res: "(if \<not> b then Inr (AlreadyMember (iv_use_count invite) (map_option (\<lambda>mu. mu - iv_use_count invite) (iv_max_uses invite)), db2)
        else Inr (Joined (iv_use_count invite + 1) (map_option (\<lambda>mu. mu - (iv_use_count invite + 1)) (iv_max_uses invite)),
          use_invite c (iv_id invite) (iv_use_count invite + 1) db2)) = (Inr (out, db') :: db_error + _)"
      using assms Open(1,2) Some open_uses unfolding claim_relay_invite_def Let_def by (auto simp: and_then_Inr simp del: if_split)
    have none: "role_of db c pk = None" using Open(2) by (simp add: is_relay_member_role)
    then have b using add_effect(3) [OF add] by simp
    with res have "db' = use_invite c (iv_id invite) (iv_use_count invite + 1) db2" "claim_label c h out = JoinedBy c h"
      by (auto simp: claim_label_def)
    from Joins [OF Some _ none Open(3) add acc this] Open(1) show ?thesis by simp
  qed
qed

lemma owners_kept_claim_invite:
  assumes "keys_ok db" and "claim_relay_invite now db c h pk v = Inr (out, db')"
  shows "owners_kept db db'"
  using assms(2)
proof (cases rule: claim_invite_cases)
  case Refused
  then show ?thesis using assms(1) by (simp add: owners_kept_def)
next
  case Member
  then show ?thesis using owners_kept_accept [OF assms(1)] by blast
next
  case (Joins invite b db1 db2)
  have 1: "owners_kept db db1" by (rule owners_kept_add [OF assms(1) _ Joins(5)]) simp
  have "owners_kept db1 db'"
    by (rule owners_kept_members)
      (use 1 accept_policy_effect [OF Joins(6)] Joins(7) in \<open>simp_all add: owners_kept_def use_invite_def\<close>)
  with 1 show ?thesis by (rule owners_kept_trans)
qed

lemma owners_kept_command:
  assumes "keys_ok db" and "execute_relay_admin_command env db e = Inr (db', ns)"
  shows "owners_kept db db'"
  by (rule owners_keptI) (use execute_permitted [OF assms] in \<open>auto simp: permitted_def admin_may_def\<close>)

lemma owner_step_appoint:
  assumes "keys_ok db" and "role \<noteq> ''owner''"
  shows "owner_step db (set_role now role (other_owner c pk) (upsert_owner now c pk db))"
  unfolding owner_step_def
proof (intro conjI impI allI)
  show "keys_ok (set_role now role (other_owner c pk) (upsert_owner now c pk db))"
    by (rule appoint_effect(2) [OF assms(1)])
  show "one_owner (set_role now role (other_owner c pk) (upsert_owner now c pk db))" if "one_owner db"
    using that assms(2) by (auto simp: one_owner_def appoint_effect(1) split: if_splits)
  show "\<exists>pk'. role_of (set_role now role (other_owner c pk) (upsert_owner now c pk db)) c' pk' = Some ''owner''"
    if "role_of db c' pk0 = Some ''owner''" for c' pk0
  proof (cases "c' = c")
    case True
    then show ?thesis by (auto simp: appoint_effect(1) intro: exI [of _ pk])
  next
    case False
    then show ?thesis using that by (auto simp: appoint_effect(1) intro: exI [of _ pk0])
  qed
qed

lemma role_of_founded:
  assumes "community_fresh db (rm_community_id row)" and "ro_members db' = ro_members db @ [row]"
  shows "role_of db' c pk = (if (c, pk) = member_key row then Some (rm_member_role row) else role_of db c pk)"
  using assms(1) role_of_added [OF assms(2), of c pk]
  by (auto simp: community_fresh_def is_relay_member_role member_key_def split: option.splits)

lemma owner_step_create:
  assumes "keys_ok db" and "create_community_with_owner limit now new_id db host owner = (cr, db')" and fresh: "community_fresh db new_id"
  shows "owner_step db db'"
proof -
  consider (Old) "db' = db"
    | (New) row where "ro_members db' = ro_members db @ [row]" "rm_community_id row = new_id" "rm_member_role row = ''owner''"
    using assms(2) by (auto simp: create_community_with_owner_def Let_def split: option.splits if_splits)
  then show ?thesis
  proof cases
    case Old
    then show ?thesis using assms(1) by (auto simp: owner_step_def)
  next
    case New
    have role: "role_of db' c pk = (if (c, pk) = member_key row then Some ''owner'' else role_of db c pk)" for c pk
      using role_of_founded [of db row db' c pk] fresh New by simp
    have none: "role_of db new_id pk = None" for pk
      using fresh by (simp add: community_fresh_def is_relay_member_role)
    have "keys_ok db'"
      using keys_ok_added [OF assms(1) New(1)] fresh New(2) by (simp add: community_fresh_def)
    moreover have "one_owner db'" if "one_owner db"
      unfolding one_owner_def
    proof (intro allI impI)
      fix c pk pk'
      assume "role_of db' c pk = Some ''owner''" "role_of db' c pk' = Some ''owner''"
      then show "pk = pk'"
        using that none New(2) unfolding role one_owner_def member_key_def
        by (cases "c = new_id") (auto split: if_splits)
    qed
    moreover have "\<exists>pk'. role_of db' c pk' = Some ''owner''" if "role_of db c pk = Some ''owner''" for c pk
      using that by (intro exI [of _ pk]) (simp add: role)
    ultimately show ?thesis by (simp add: owner_step_def)
  qed
qed

lemma backfill_rows:
  assumes "distinct (map member_key ms)" and "\<forall>r \<in> set ms. rm_community_id r = c \<and> rm_member_role r = ''member''"
  shows "distinct (map member_key (fold (backfill_row now c) allowed ms)) \<and>
    (\<forall>r \<in> set (fold (backfill_row now c) allowed ms). rm_community_id r = c \<and> rm_member_role r = ''member'')"
  using assms
proof (induction allowed arbitrary: ms)
  case (Cons a allowed)
  obtain ac pk at where a: "a = (ac, pk, at)" by (cases a)
  have "distinct (map member_key (backfill_row now c a ms)) \<and>
      (\<forall>r \<in> set (backfill_row now c a ms). rm_community_id r = c \<and> rm_member_role r = ''member'')"
  proof (cases "list_ex (member_at c pk) ms")
    case True
    then show ?thesis using Cons.prems by (simp add: backfill_row_def a)
  next
    case False
    then have "(c, pk) \<notin> member_key ` set ms" by (auto simp: list_ex_iff member_at_key)
    then show ?thesis using Cons.prems False by (simp add: backfill_row_def a member_key_def [of "\<lparr>rm_community_id = _, rm_pubkey = _, rm_member_role = _, rm_added_by = _, rm_created_at = _, rm_updated_at = _\<rparr>"])
  qed
  with Cons.IH [of "backfill_row now c a ms"] show ?case by simp
qed simp

lemma backfill_cases:
  assumes "backfill_from_allowlist now db c = (n, db')"
  obtains (Old) "db' = db"
  | (New) new where "db' = db\<lparr>ro_members := ro_members db @ new\<rparr>" "distinct (map member_key new)"
      "\<forall>r \<in> set new. rm_community_id r = c \<and> rm_member_role r = ''member''" "\<forall>r \<in> set (ro_members db). rm_community_id r \<noteq> c"
proof (cases "ro_allowlist db")
  case None
  with assms Old show ?thesis by (simp add: backfill_from_allowlist_def)
next
  case (Some allowed)
  let ?new = "fold (backfill_row now c) (filter (\<lambda>(ac, _, _). ac = c) allowed) []"
  show ?thesis
  proof (cases "list_ex (\<lambda>r. rm_community_id r = c) (ro_members db)")
    case True
    with assms Some Old show ?thesis by (simp add: backfill_from_allowlist_def)
  next
    case False
    have "db' = db\<lparr>ro_members := ro_members db @ ?new\<rparr>"
      using assms Some False by (simp add: backfill_from_allowlist_def Let_def)
    moreover have "\<forall>r \<in> set (ro_members db). rm_community_id r \<noteq> c"
      using False by (auto simp: list_ex_iff)
    moreover have "distinct (map member_key ?new) \<and> (\<forall>r \<in> set ?new. rm_community_id r = c \<and> rm_member_role r = ''member'')"
      by (rule backfill_rows) simp_all
    ultimately show ?thesis using New by blast
  qed
qed

lemma owners_kept_backfill:
  assumes "keys_ok db" and "backfill_from_allowlist now db c = (n, db')"
  shows "owners_kept db db'"
  using assms(2)
proof (cases rule: backfill_cases)
  case Old
  then show ?thesis using assms(1) by (simp add: owners_kept_def)
next
  case (New new)
  have "member_key ` set (ro_members db) \<inter> member_key ` set new = {}"
    using New(3,4) by (auto simp: member_key_def)
  then have "keys_ok db'"
    using assms(1) New(1,2) by (simp add: keys_ok_def)
  moreover have "role_of db c' pk = None \<and> role_of db' c' pk = Some ''member''" if "role_of db' c' pk \<noteq> role_of db c' pk" for c' pk
  proof (cases "find (\<lambda>r. member_key r = (c', pk)) (ro_members db)")
    case None
    with that obtain r where "find (\<lambda>r. member_key r = (c', pk)) new = Some r"
      by (cases "find (\<lambda>r. member_key r = (c', pk)) new") (simp_all add: role_of_def get_member_find New(1) find_append)
    moreover from this have "rm_member_role r = ''member''" using New(3) by (auto simp: find_Some_iff)
    ultimately show ?thesis using None by (simp add: role_of_def get_member_find New(1) find_append)
  next
    case (Some r)
    with that show ?thesis by (simp add: role_of_def get_member_find New(1) find_append)
  qed
  ultimately show ?thesis by (intro owners_keptI) fastforce+
qed

lemma transfer_cases:
  assumes "transfer_ownership limit now db c new expected = (t, db')"
  obtains (Kept) "db' = db"
  | (Moved) "db' = set_role now ''member'' (other_owner c (map ascii_lower new)) (upsert_owner now c (map ascii_lower new) db)"
      "map ascii_lower expected \<in> set (owners_of db c)" "owned_count db (map ascii_lower new) < limit"
  using assms by (auto simp: transfer_ownership_def Let_def list_ex_iff split: if_splits)

lemma step_owner_step:
  assumes "roster_step db l db'" and "keys_ok db"
  shows "owner_step db db'"
  using assms
proof (induction rule: roster_step.induct)
  case (Command env db e db' ns)
  then show ?case by (blast intro: owners_keptD owners_kept_command)
next
  case (Leave db c pk r db')
  have "owners_kept db db'"
    by (rule owners_keptI) (use remove_effect [OF Leave] in \<open>auto split: if_splits\<close>)
  then show ?case by (rule owners_keptD)
next
  case (Cli_add role now db c pk b db')
  then have "role \<noteq> ''owner''" by auto
  from owners_kept_add [OF Cli_add(3) this Cli_add(2)] show ?case by (rule owners_keptD)
next
  case (Cli_remove role db c pk r db')
  have "owners_kept db db'"
    by (rule owners_keptI) (use remove_if_effect [OF Cli_remove(2,3)] Cli_remove(1) in \<open>auto split: if_splits\<close>)
  then show ?case by (rule owners_keptD)
next
  case (Claim_token now db c pk v b db')
  then show ?case by (blast intro: owners_keptD owners_kept_claim)
next
  case (Bootstrap db now c pk)
  then show ?case by (simp add: bootstrap_owner_def Let_def owner_step_appoint)
next
  case (Transfer limit now db c new expected t db')
  from Transfer(1) show ?case
    by (cases rule: transfer_cases) (use Transfer(2) in \<open>auto simp: owner_step_appoint owner_step_def [of db db]\<close>)
next
  case (Create limit now new_id db host owner cr db')
  then show ?case by (blast intro: owner_step_create)
next
  case (Backfill now db c n db')
  then show ?case by (blast intro: owners_keptD owners_kept_backfill)
next
  case (Archive now db host pk protected a db')
  then show ?case by (auto simp: archive_community_owned_by_def Let_def intro!: owners_keptD owners_kept_members)
next
  case (Unarchive db host pk u db')
  then show ?case by (auto simp: unarchive_community_owned_by_def Let_def intro!: owners_keptD owners_kept_members)
next
  case (Reap cutoff db n db')
  then show ?case by (auto simp: reap_expired_relay_invites_def Let_def intro!: owners_keptD owners_kept_members)
next
  case (Mint cr secret new_id now db c by_key ttl uses m db')
  have "ro_members db' = ro_members db"
    using Mint(1) by (auto simp: mint_relay_invite_def Let_def and_then_Inr split: if_splits)
  with Mint(2) show ?case by (blast intro: owners_keptD owners_kept_members)
next
  case (Claim now db c h pk v out db')
  then show ?case by (blast intro: owners_keptD owners_kept_claim_invite)
qed

lemma run_roster_ok:
  "roster_run db0 ls db \<Longrightarrow> roster_ok db0 \<Longrightarrow> roster_ok db"
  by (induction rule: roster_run.induct) (use step_owner_step in \<open>auto simp: roster_ok_def owner_step_def\<close>)

lemma roster_ok_empty: "roster_ok (roster_empty allowed)"
  by (simp add: roster_ok_def keys_ok_def one_owner_def roster_empty_def role_of_def get_relay_member_def)

lemma run_keeps_owner:
  "roster_run db0 ls db \<Longrightarrow> roster_ok db0 \<Longrightarrow> role_of db0 c pk = Some ''owner'' \<Longrightarrow> \<exists>pk'. role_of db c pk' = Some ''owner''"
proof (induction rule: roster_run.induct)
  case (Go db ls db1 l db2)
  then have "owner_step db1 db2"
    using run_roster_ok [OF Go(1)] step_owner_step [OF Go(2)] by (simp add: roster_ok_def)
  with Go show ?case unfolding owner_step_def by blast
qed blast

text \<open>
  C36. From tables without members, through every sequence of administration commands, leaves, invite claims,
  command-line changes, ownership transfers, bootstraps, backfills, community creations (under a fresh id) and
  sweeps, each run as one step, a community that has an owner has exactly one, and after any further operations
  it still has exactly one, the same or another.
\<close>

theorem one_owner_always:
  assumes "roster_run (roster_empty allowed) ls db" and "role_of db c pk = Some ''owner''" and "roster_run db ls' db'"
  shows "\<exists>!pk'. role_of db' c pk' = Some ''owner''"
proof -
  have ok: "roster_ok db" by (rule run_roster_ok [OF assms(1) roster_ok_empty])
  then have "one_owner db'" using run_roster_ok [OF assms(3)] by (simp add: roster_ok_def)
  with run_keeps_owner [OF assms(3) ok assms(2)] show ?thesis by (auto simp: one_owner_def)
qed

section \<open>Privileges\<close>

text \<open>
  When a relay administration command is carried out, its sender is not banned, every membership it changes is
  in the community of the request and another one than the sender's own, no owner is made or unmade, and the sender
  is the owner, or is an admin and the change adds or removes a plain member.
\<close>

lemma relay_admin_privileges:
  assumes "keys_ok db" and "run_relay_admin env restriction db e = Inr (db', ns)" and "role_of db' c pk \<noteq> role_of db c pk"
  shows "(\<exists>r. restriction = Inr r \<and> \<not> re_banned r) \<and> c = ae_community env \<and> pk \<noteq> ev_pubkey e \<and>
    admin_may (role_of db c (ev_pubkey e)) (role_of db c pk) (role_of db' c pk)"
proof -
  obtain r where "restriction = Inr r" "admits_relay_admin_command r = Inr ()"
    and ex: "execute_relay_admin_command env db e = Inr (db', ns)"
    using assms(2) by (auto simp: run_relay_admin_def and_then_Inr)
  moreover from this have "\<not> re_banned r" by (simp add: admits_relay_admin_command_def split: if_splits)
  ultimately show ?thesis
    using execute_permitted [OF assms(1) ex] assms(3) by (auto simp: permitted_def)
qed

text \<open>The command that adds members refers to kind 9032 for promoting an owner, which refuses to.\<close>

lemma owner_promotion_refused:
  assumes "event_kind_u32 e = RELAY_ADMIN_CHANGE_ROLE" and "extract_tag_value e ''role'' = Some ''owner''"
  shows "\<exists>msg. execute_relay_admin_command env db e = Inl msg"
proof -
  have kinds: "RELAY_ADMIN_CHANGE_ROLE \<noteq> RELAY_ADMIN_SET_WORKSPACE_PROFILE" "RELAY_ADMIN_CHANGE_ROLE \<noteq> RELAY_ADMIN_ADD_MEMBER"
    "RELAY_ADMIN_CHANGE_ROLE \<noteq> RELAY_ADMIN_REMOVE_MEMBER"
    by code_simp+
  have "execute_relay_admin_command env db e \<noteq> Inr r" for r
    by (cases r) (simp add: execute_relay_admin_command_def Let_def and_then_Inr assms kinds change_role_def)
  then show ?thesis by (cases "execute_relay_admin_command env db e") auto
qed

section \<open>A relay with one community\<close>

definition sample_founded :: roster_db where
  "sample_founded = snd (create_community_with_owner 5 1 ''c1'' (roster_empty None) ''relay.example'' ''owner-key'')"

definition sample_transferred :: roster_db where
  "sample_transferred = snd (transfer_ownership 5 2 sample_founded ''c1'' ''other-key'' ''owner-key'')"

lemma sample_founded_run: "roster_run (roster_empty None) [Silent] sample_founded"
proof -
  obtain cr db' where cr: "create_community_with_owner 5 1 ''c1'' (roster_empty None) ''relay.example'' ''owner-key'' = (cr, db')"
    by (metis surj_pair)
  have "community_fresh (roster_empty None) ''c1''" by (simp add: community_fresh_def roster_empty_def is_relay_member_def)
  from Go [OF Stop Create [OF cr this]] cr show ?thesis by (simp add: sample_founded_def)
qed

lemma sample_transferred_run: "roster_run sample_founded [Silent] sample_transferred"
proof -
  obtain t db' where t: "transfer_ownership 5 2 sample_founded ''c1'' ''other-key'' ''owner-key'' = (t, db')"
    by (metis surj_pair)
  from Go [OF Stop Transfer [OF this]] t show ?thesis by (simp add: sample_transferred_def)
qed

lemma one_owner_always_witness:
  "role_of sample_founded ''c1'' ''owner-key'' = Some ''owner'' \<and>
   (\<exists>!pk. role_of sample_transferred ''c1'' pk = Some ''owner'') \<and>
   role_of sample_transferred ''c1'' ''other-key'' = Some ''owner''"
proof (intro conjI)
  show founded: "role_of sample_founded ''c1'' ''owner-key'' = Some ''owner''" by code_simp
  show "\<exists>!pk. role_of sample_transferred ''c1'' pk = Some ''owner''"
    by (rule one_owner_always [OF sample_founded_run founded sample_transferred_run])
  show "role_of sample_transferred ''c1'' ''other-key'' = Some ''owner''" by code_simp
qed

text \<open>An owner adds a member.\<close>

definition sample_key :: string where
  "sample_key = replicate 64 (CHR ''a'')"

definition sample_command :: event where
  "sample_command = \<lparr>ev_id = ''e1'', ev_pubkey = ''owner-key'', ev_created_at = 1000, ev_kind = 9030, ev_tags = [[''p'', sample_key]], ev_content = []\<rparr>"

definition sample_admin_env :: admin_env where
  "sample_admin_env = \<lparr>ae_community = ''c1'', ae_now_secs = 1000, ae_now = 3, ae_require_relay_membership = True, ae_fails = (\<lambda>_. None)\<rparr>"

definition sample_added :: roster_db where
  "sample_added = (case add_relay_member 3 sample_founded ''c1'' sample_key ''member'' (Some ''owner-key'') of
     Inr (_, db) \<Rightarrow> db | Inl _ \<Rightarrow> sample_founded)"

lemma relay_admin_privileges_instance:
  "run_relay_admin sample_admin_env (Inr \<lparr>re_banned = False, re_muted_until = None\<rparr>) sample_founded sample_command =
     Inr (sample_added, [NoticeAdded sample_key, NoticeList]) \<and>
   role_of sample_added ''c1'' sample_key = Some ''member'' \<and>
   admin_may (role_of sample_founded ''c1'' ''owner-key'') (role_of sample_founded ''c1'' sample_key) (role_of sample_added ''c1'' sample_key)"
proof (intro conjI)
  show run: "run_relay_admin sample_admin_env (Inr \<lparr>re_banned = False, re_muted_until = None\<rparr>) sample_founded sample_command =
     Inr (sample_added, [NoticeAdded sample_key, NoticeList])" by code_simp
  show new: "role_of sample_added ''c1'' sample_key = Some ''member''" by code_simp
  have "keys_ok sample_founded" using run_roster_ok [OF sample_founded_run roster_ok_empty] by (simp add: roster_ok_def)
  moreover have "role_of sample_founded ''c1'' sample_key = None" by code_simp
  with new have "role_of sample_added ''c1'' sample_key \<noteq> role_of sample_founded ''c1'' sample_key" by simp
  ultimately show "admin_may (role_of sample_founded ''c1'' ''owner-key'') (role_of sample_founded ''c1'' sample_key) (role_of sample_added ''c1'' sample_key)"
    using relay_admin_privileges [OF _ run, of "''c1''" sample_key] by (simp add: sample_command_def sample_admin_env_def)
qed

end
