(* ===== verification/Roster_Invites.thy ===== *)
theory Roster_Invites
  imports Roster_Owners
begin

text \<open>
  The budget of an invite over the histories of the roster: what a mint gives, a claim takes and a sweep forfeits.
\<close>

section \<open>Invite budgets\<close>

definition joins :: "uuid \<Rightarrow> bytes \<Rightarrow> roster_label list \<Rightarrow> int" where
  "joins c h ls = int (length (filter (\<lambda>l. l = JoinedBy c h) ls))"

fun budget_of :: "uuid \<Rightarrow> bytes \<Rightarrow> roster_label \<Rightarrow> int" where
  "budget_of c h (Minted c' h' (Some n)) = (if c' = c \<and> h' = h then n else 0)"
| "budget_of c h _ = 0"

definition minted :: "uuid \<Rightarrow> bytes \<Rightarrow> roster_label list \<Rightarrow> int" where
  "minted c h ls = sum_list (map (budget_of c h) ls)"

definition invite_at :: "roster_db \<Rightarrow> uuid \<Rightarrow> bytes \<Rightarrow> invite_row option" where
  "invite_at db c h = find (\<lambda>i. iv_community_id i = c \<and> iv_token_hash i = h) (ro_invites db)"

definition uses_left :: "roster_db \<Rightarrow> uuid \<Rightarrow> bytes \<Rightarrow> int" where
  "uses_left db c h = (case invite_at db c h of None \<Rightarrow> 0 | Some i \<Rightarrow> (case iv_max_uses i of None \<Rightarrow> 0 | Some n \<Rightarrow> n - iv_use_count i))"

definition unlimited :: "roster_db \<Rightarrow> uuid \<Rightarrow> bytes \<Rightarrow> bool" where
  "unlimited db c h \<longleftrightarrow> (\<exists>i. invite_at db c h = Some i \<and> iv_max_uses i = None)"

text \<open>Ids and token hashes are unique in a community, and no invite is overdrawn.\<close>

definition invites_ok :: "roster_db \<Rightarrow> bool" where
  "invites_ok db \<longleftrightarrow>
     distinct (map (\<lambda>i. (iv_community_id i, iv_id i)) (ro_invites db)) \<and>
     distinct (map (\<lambda>i. (iv_community_id i, iv_token_hash i)) (ro_invites db)) \<and>
     (\<forall>i \<in> set (ro_invites db). \<forall>n. iv_max_uses i = Some n \<longrightarrow> iv_use_count i \<le> n)"

text \<open>What a step does to the budget of every invite.\<close>

definition budget_step :: "roster_db \<Rightarrow> roster_label \<Rightarrow> roster_db \<Rightarrow> bool" where
  "budget_step db l db' \<longleftrightarrow> invites_ok db' \<and>
     (\<forall>c h. l \<noteq> Minted c h None \<longrightarrow> \<not> unlimited db c h \<longrightarrow>
        \<not> unlimited db' c h \<and> uses_left db' c h + joins c h [l] \<le> uses_left db c h + minted c h [l])"

lemma budget_step_silent:
  assumes "invites_ok db" and "ro_invites db' = ro_invites db"
  shows "budget_step db Silent db'"
  using assms by (simp add: budget_step_def invites_ok_def unlimited_def uses_left_def invite_at_def joins_def minted_def)

lemma invite_at_pair: "invite_at db c h = find (\<lambda>i. (iv_community_id i, iv_token_hash i) = (c, h)) (ro_invites db)"
  by (simp add: invite_at_def)

lemma uses_left_nonneg: "invites_ok db \<Longrightarrow> 0 \<le> uses_left db c h"
  by (auto simp: uses_left_def invites_ok_def invite_at_def find_Some_iff split: option.split)

lemma budget_step_reap:
  assumes "invites_ok db" and "reap_expired_relay_invites cutoff db = (n, db')"
  shows "budget_step db Silent db'"
proof -
  obtain q where q: "ro_invites db' = filter q (ro_invites db)"
    using assms(2) by (auto simp: reap_expired_relay_invites_def Let_def)
  have at: "invite_at db' c h = (case invite_at db c h of None \<Rightarrow> None | Some i \<Rightarrow> if q i then Some i else None)" for c h
    unfolding invite_at_pair q by (rule find_filter_distinct) (use assms(1) in \<open>simp add: invites_ok_def\<close>)
  have "invites_ok db'"
    using assms(1) by (auto simp: invites_ok_def q distinct_map_filter)
  moreover have "\<not> unlimited db' c h" if "\<not> unlimited db c h" for c h
    using that by (auto simp: unlimited_def at split: option.splits if_splits)
  moreover have "uses_left db' c h \<le> uses_left db c h" for c h
  proof (cases "invite_at db' c h")
    case None
    then show ?thesis using uses_left_nonneg [OF assms(1)] by (simp add: uses_left_def)
  next
    case (Some i)
    then have "invite_at db c h = Some i" by (simp add: at split: option.splits if_splits)
    with Some show ?thesis by (simp add: uses_left_def)
  qed
  ultimately show ?thesis by (simp add: budget_step_def joins_def minted_def)
qed

lemma budget_step_mint:
  assumes "invites_ok db" and "mint_relay_invite cr secret new_id now db c by_key ttl uses = Inr (m, db')"
  shows "budget_step db (Minted c (hash_v2_code cr (mi_code m)) uses) db'"
proof -
  let ?h = "hash_v2_code cr (mi_code m)"
  obtain row where rows: "ro_invites db' = ro_invites db @ [row]"
    and row: "iv_community_id row = c" "iv_token_hash row = ?h" "iv_max_uses row = uses" "iv_use_count row = 0" "iv_id row = new_id"
    and fresh: "\<forall>i \<in> set (ro_invites db). iv_community_id i = c \<longrightarrow> iv_token_hash i \<noteq> ?h \<and> iv_id i \<noteq> new_id"
    and valid: "validate_mint_inputs ttl uses = Inr ()"
    using assms(2) by (auto simp: mint_relay_invite_def Let_def and_then_Inr list_ex_iff split: if_splits)
  have pos: "0 \<le> n" if "uses = Some n" for n
    using valid that by (auto simp: validate_mint_inputs_def and_then_Inr)
  have none: "invite_at db c ?h = None" using fresh by (auto simp: invite_at_def find_None_iff)
  have "invite_at db' c' h' = (case invite_at db c' h' of None \<Rightarrow> if c' = c \<and> h' = ?h then Some row else None | Some i \<Rightarrow> Some i)" for c' h'
    using row(1,2) by (auto simp: invite_at_def rows find_append split: option.split)
  then have at: "invite_at db' c' h' = (if c' = c \<and> h' = ?h then Some row else invite_at db c' h')" for c' h'
    using none by (simp split: option.split)
  have "invites_ok db'"
    using assms(1) fresh row pos by (auto simp: invites_ok_def rows)
  moreover have "\<not> unlimited db' c' h'" if "\<not> unlimited db c' h'" "(c', h', uses) \<noteq> (c, ?h, None)" for c' h'
    using that row(3) by (auto simp: unlimited_def at split: if_splits)
  moreover have "uses_left db' c' h' \<le> uses_left db c' h' + minted c' h' [Minted c ?h uses]" for c' h'
  proof (cases "c' = c \<and> h' = ?h")
    case True
    then show ?thesis using row(3,4) none by (cases uses) (simp_all add: uses_left_def at minted_def)
  next
    case False
    then show ?thesis by (cases uses) (auto simp: uses_left_def at minted_def)
  qed
  ultimately show ?thesis by (simp add: budget_step_def joins_def)
qed

lemma budget_step_join:
  assumes ok: "invites_ok db" and inv: "invite_at db c h = Some invite"
    and room: "\<forall>n. iv_max_uses invite = Some n \<longrightarrow> iv_use_count invite < n"
    and rows: "ro_invites db1 = ro_invites db" and db': "db' = use_invite c (iv_id invite) (iv_use_count invite + 1) db1"
  shows "budget_step db (JoinedBy c h) db'"
proof -
  let ?f = "\<lambda>i. if iv_community_id i = c \<and> iv_id i = iv_id invite then i\<lparr>iv_use_count := iv_use_count invite + 1\<rparr> else i"
  have rows': "ro_invites db' = map ?f (ro_invites db)" by (simp add: db' use_invite_def rows)
  have mem: "invite \<in> set (ro_invites db)" "iv_community_id invite = c" "iv_token_hash invite = h"
    using inv by (auto simp: invite_at_def find_Some_iff)
  have only: "i = invite" if "i \<in> set (ro_invites db)" "iv_community_id i = c" "iv_id i = iv_id invite" for i
    using that mem ok by (auto simp: invites_ok_def distinct_map inj_on_def)
  have at: "invite_at db' c' h' = map_option ?f (invite_at db c' h')" for c' h'
    unfolding invite_at_def rows' by (rule find_map_keep) simp
  have row: "i = invite \<or> ?f i = i" if "invite_at db c' h' = Some i" for c' h' i
    using that only by (auto simp: invite_at_def find_Some_iff)
  have key: "(\<lambda>i. (iv_community_id i, g i)) \<circ> ?f = (\<lambda>i. (iv_community_id i, g i))" if "\<And>i n. g (i\<lparr>iv_use_count := n\<rparr>) = g i" for g :: "invite_row \<Rightarrow> 'a"
    by (rule ext) (simp add: that)
  have "iv_use_count (?f i) \<le> n" if "i \<in> set (ro_invites db)" "iv_max_uses (?f i) = Some n" for i n
    using that ok room only [OF that(1)] by (cases "iv_community_id i = c \<and> iv_id i = iv_id invite") (auto simp: invites_ok_def)
  then have "\<forall>i \<in> set (ro_invites db'). \<forall>n. iv_max_uses i = Some n \<longrightarrow> iv_use_count i \<le> n"
    unfolding rows' set_map ball_simps by blast
  moreover have "distinct (map (\<lambda>i. (iv_community_id i, iv_id i)) (ro_invites db'))"
      "distinct (map (\<lambda>i. (iv_community_id i, iv_token_hash i)) (ro_invites db'))"
    using ok by (simp_all add: invites_ok_def rows' key)
  ultimately have "invites_ok db'" by (simp only: invites_ok_def simp_thms)
  moreover have "\<not> unlimited db' c' h'" if "\<not> unlimited db c' h'" for c' h'
    using that by (auto simp: unlimited_def at)
  moreover have "uses_left db' c' h' + joins c' h' [JoinedBy c h] \<le> uses_left db c' h'" if "\<not> unlimited db c' h'" for c' h'
  proof (cases "invite_at db c' h'")
    case None
    then have "(c', h') \<noteq> (c, h)" using inv by auto
    then show ?thesis using None by (auto simp: uses_left_def at joins_def)
  next
    case (Some i)
    show ?thesis
    proof (cases "i = invite")
      case True
      with that Some obtain n where "iv_max_uses invite = Some n" by (auto simp: unlimited_def)
      then show ?thesis using Some True mem by (simp add: uses_left_def at joins_def)
    next
      case False
      then have "(c', h') \<noteq> (c, h)" using Some inv by auto
      then show ?thesis using Some row [OF Some] False by (auto simp: uses_left_def at joins_def)
    qed
  qed
  ultimately show ?thesis by (simp add: budget_step_def minted_def)
qed

lemma step_budget_step:
  assumes "roster_step db l db'" and "keys_ok db" and "invites_ok db"
  shows "budget_step db l db'"
  using assms
proof (induction rule: roster_step.induct)
  case (Command env db e db' ns)
  then show ?case using execute_permitted by (auto simp: permitted_def intro: budget_step_silent)
next
  case (Leave db c pk r db')
  then show ?case using remove_effect(4) by (auto intro: budget_step_silent)
next
  case (Cli_add role now db c pk b db')
  from add_effect(5) [OF Cli_add(2)] Cli_add(4) show ?case by (simp add: budget_step_silent)
next
  case (Cli_remove role db c pk r db')
  from remove_if_effect(3) [OF Cli_remove(2,3)] Cli_remove(4) show ?case by (simp add: budget_step_silent)
next
  case (Claim_token now db c pk v b db')
  then obtain b1 db1 where "add_relay_member now db c pk ''member'' (Some ''invite'') = Inr (b1, db1)" "accept_policy db1 c pk v = Inr db'"
    by (auto simp: claim_relay_membership_def and_then_Inr)
  then have "ro_invites db' = ro_invites db" using add_effect(5) accept_policy_effect by fastforce
  with Claim_token(3) show ?case by (simp add: budget_step_silent)
next
  case (Bootstrap db now c pk)
  have "ro_invites (bootstrap_owner now db c pk) = ro_invites db"
    by (simp add: bootstrap_owner_def Let_def set_role_def upsert_owner_def)
  with Bootstrap show ?case by (simp add: budget_step_silent)
next
  case (Transfer limit now db c new expected t db')
  from Transfer(1) have "ro_invites db' = ro_invites db"
    by (cases rule: transfer_cases) (simp_all add: set_role_def upsert_owner_def)
  with Transfer show ?case by (simp add: budget_step_silent)
next
  case (Create limit now new_id db host owner cr db')
  then have "ro_invites db' = ro_invites db"
    by (auto simp: create_community_with_owner_def Let_def split: option.splits if_splits)
  with Create show ?case by (simp add: budget_step_silent)
next
  case (Backfill now db c n db')
  from Backfill(1) have "ro_invites db' = ro_invites db" by (cases rule: backfill_cases) simp_all
  with Backfill show ?case by (simp add: budget_step_silent)
next
  case (Archive now db host pk protected a db')
  then show ?case by (auto simp: archive_community_owned_by_def Let_def intro!: budget_step_silent)
next
  case (Unarchive db host pk u db')
  then show ?case by (auto simp: unarchive_community_owned_by_def Let_def intro!: budget_step_silent)
next
  case (Reap cutoff db n db')
  then show ?case by (blast intro: budget_step_reap)
next
  case (Mint cr secret new_id now db c by_key ttl uses m db')
  then show ?case by (blast intro: budget_step_mint)
next
  case (Claim now db c h pk v out db')
  from Claim(1) show ?case
  proof (cases rule: claim_invite_cases)
    case Refused
    then show ?thesis using Claim(3) by (simp add: budget_step_silent)
  next
    case Member
    then show ?thesis using accept_policy_effect Claim(3) by (simp add: budget_step_silent)
  next
    case (Joins invite b db1 db2)
    have "ro_invites db2 = ro_invites db" using accept_policy_effect [OF Joins(6)] add_effect(5) [OF Joins(5)] by simp
    from budget_step_join [OF Claim(3) _ Joins(4) this Joins(7)] Joins(1,8) show ?thesis by (simp add: invite_at_def)
  qed
qed

lemma joins_append: "joins c h (ls @ ls') = joins c h ls + joins c h ls'"
  and minted_append: "minted c h (ls @ ls') = minted c h ls + minted c h ls'"
  by (simp_all add: joins_def minted_def)

lemma run_budget:
  "roster_run (roster_empty allowed) ls db \<Longrightarrow>
   invites_ok db \<and> (\<forall>c h. Minted c h None \<notin> set ls \<longrightarrow> \<not> unlimited db c h \<and> joins c h ls + uses_left db c h \<le> minted c h ls)"
proof (induction "roster_empty allowed" ls db rule: roster_run.induct)
  case Stop
  then show ?case
    by (simp add: invites_ok_def unlimited_def uses_left_def invite_at_def joins_def minted_def roster_empty_def)
next
  case (Go ls db1 l db2)
  have "keys_ok db1" using run_roster_ok [OF Go(1) roster_ok_empty] by (simp add: roster_ok_def)
  with Go have st: "budget_step db1 l db2" by (blast intro: step_budget_step)
  have "\<not> unlimited db2 c h \<and> joins c h (ls @ [l]) + uses_left db2 c h \<le> minted c h (ls @ [l])" if "Minted c h None \<notin> set (ls @ [l])" for c h
  proof -
    from that Go(2) have "\<not> unlimited db1 c h" "joins c h ls + uses_left db1 c h \<le> minted c h ls" by auto
    moreover from st that this(1) have "\<not> unlimited db2 c h" "uses_left db2 c h + joins c h [l] \<le> uses_left db1 c h + minted c h [l]"
      by (auto simp: budget_step_def)
    ultimately show ?thesis by (simp add: joins_append minted_append)
  qed
  with st show ?case by (simp add: budget_step_def)
qed

text \<open>
  C37. Over every history of the roster from tables without members and invites, with the transactions one after
  another, the number of claims that joined a community by an invite code never exceeds the uses the code was minted
  with, unless it was minted without a limit: neither repeated claims, nor members that leave and claim again,
  nor the sweep of old invites let one more in.
\<close>

theorem invite_budget_kept:
  assumes "roster_run (roster_empty allowed) ls db" and "Minted c h None \<notin> set ls"
  shows "joins c h ls \<le> minted c h ls"
proof -
  from run_budget [OF assms(1)] assms(2) have "invites_ok db" "joins c h ls + uses_left db c h \<le> minted c h ls" by auto
  with uses_left_nonneg [of db c h] show ?thesis by simp
qed


section \<open>An invite for one use, claimed\<close>

definition sample_crypto :: invite_crypto where
  "sample_crypto = \<lparr>b64_encode = (\<lambda>_. ''AAAA''), b64_decode = (\<lambda>_. None), sha256_text = (\<lambda>_. replicate 32 7)\<rparr>"

definition sample_hash :: bytes where
  "sample_hash = replicate 32 7"

definition sample_minted :: "minted_invite \<times> roster_db" where
  "sample_minted = projr (mint_relay_invite sample_crypto [] ''i1'' 5 sample_founded ''c1'' ''owner-key'' 60 (Some 1))"

definition sample_claimed :: "claim_outcome \<times> roster_db" where
  "sample_claimed = projr (claim_relay_invite 6 (snd sample_minted) ''c1'' sample_hash ''joiner'' None)"

lemma sample_invites_none: "ro_invites sample_founded = []"
  by code_simp

lemma sample_stranger: "is_relay_member sample_founded ''c1'' ''joiner'' = False"
  by code_simp

lemma sample_mint:
  "mint_relay_invite sample_crypto [] ''i1'' 5 sample_founded ''c1'' ''owner-key'' 60 (Some 1) = Inr sample_minted"
  "find (\<lambda>i. iv_community_id i = ''c1'' \<and> iv_token_hash i = sample_hash) (ro_invites (snd sample_minted)) =
     Some \<lparr>iv_community_id = ''c1'', iv_id = ''i1'', iv_token_hash = sample_hash, iv_max_uses = Some 1, iv_use_count = 0,
       iv_expires_at = 5 + 60 * 10 ^ 9, iv_created_by = ''owner-key''\<rparr>"
  "ro_members (snd sample_minted) = ro_members sample_founded"
  by (simp_all add: sample_minted_def mint_relay_invite_def validate_mint_inputs_def and_then_def check_def Let_def
      MIN_INVITE_TTL_SECS_def MAX_INVITE_TTL_SECS_def MAX_INVITE_USES_def hash_v2_code_def sample_crypto_def sample_invites_none sample_hash_def)

lemma sample_claim:
  "claim_relay_invite 6 (snd sample_minted) ''c1'' sample_hash ''joiner'' None = Inr sample_claimed"
  "claim_label ''c1'' sample_hash (fst sample_claimed) = JoinedBy ''c1'' sample_hash"
proof -
  have new: "is_relay_member (snd sample_minted) ''c1'' ''joiner'' = False"
    using sample_stranger by (simp add: is_relay_member_def sample_mint(3))
  show "claim_relay_invite 6 (snd sample_minted) ''c1'' sample_hash ''joiner'' None = Inr sample_claimed"
    "claim_label ''c1'' sample_hash (fst sample_claimed) = JoinedBy ''c1'' sample_hash"
    by (simp_all add: sample_claimed_def claim_relay_invite_def sample_mint(2) new add_relay_member_def ROLES_def accept_policy_def
        and_then_def Let_def claim_label_def)
qed

lemma invite_budget_kept_witness:
  "roster_run (roster_empty None) [Silent, Minted ''c1'' sample_hash (Some 1), JoinedBy ''c1'' sample_hash] (snd sample_claimed) \<and>
   joins ''c1'' sample_hash [Silent, Minted ''c1'' sample_hash (Some 1), JoinedBy ''c1'' sample_hash] \<le> 1"
proof -
  obtain m db1 where m: "sample_minted = (m, db1)" by (cases sample_minted)
  obtain out db2 where out: "sample_claimed = (out, db2)" by (cases sample_claimed)
  have h: "hash_v2_code sample_crypto (mi_code m) = sample_hash" by (simp add: hash_v2_code_def sample_crypto_def sample_hash_def)
  from Go [OF sample_founded_run Mint [OF sample_mint(1) [unfolded m]]]
  have "roster_run (roster_empty None) [Silent, Minted ''c1'' sample_hash (Some 1)] db1" by (simp add: h)
  from Go [OF this Claim [OF sample_claim(1) [unfolded m out snd_conv]]] sample_claim(2)
  have run: "roster_run (roster_empty None) [Silent, Minted ''c1'' sample_hash (Some 1), JoinedBy ''c1'' sample_hash] db2" by (simp add: out)
  with invite_budget_kept [OF run, of "''c1''" sample_hash] show ?thesis by (simp add: minted_def out)
qed

end
