(* ===== verification/Moderation.thy ===== *)
theory Moderation
  imports Relay_Roster
begin

text \<open>
  Moderation of a community: the tables of crates/buzz-db/src/moderation.rs, the capabilities of
  crates/buzz-relay/src/handlers/moderation_authz.rs, the commands of moderation_commands.rs and the reports of
  report.rs. Keys, event ids and digests are written as their lower-case hex text, so \<open>hex::decode\<close> is
  \<open>ascii_lower\<close> on a text of hex digits and \<open>hex::encode\<close> the identity. The time is in nanoseconds.

  A command works on \<open>mod_state\<close>, the tables and the list of what it sent; what it has written stays when a later
  call fails. \<open>me_fails\<close> tells which database calls fail and with what text. The ranges of \<open>chrono\<close>, the event and
  media lookups and the channel roles come from \<open>mod_env\<close>.
\<close>

section \<open>Tables\<close>

datatype report_target = ReportEvent string | ReportPubkey string | ReportBlob string

record report_row =
  mr_community_id :: uuid
  mr_id :: uuid
  mr_report_event_id :: string
  mr_reporter_pubkey :: string
  mr_target_kind :: string
  mr_target_event_id :: "string option"
  mr_target_pubkey :: "string option"
  mr_target_blob_sha256 :: "string option"
  mr_channel_id :: "uuid option"
  mr_report_type :: string
  mr_note :: "string option"
  mr_status :: string
  mr_resolved_by :: "string option"
  mr_resolved_at :: "int option"
  mr_action_id :: "uuid option"
  mr_created_at :: int

record new_report =
  nr_report_event_id :: string
  nr_reporter_pubkey :: string
  nr_target :: report_target
  nr_channel_id :: "uuid option"
  nr_report_type :: string
  nr_note :: "string option"

record report_record =
  rr_id :: uuid
  rr_report_event_id :: string
  rr_reporter_pubkey :: string
  rr_target :: report_target
  rr_channel_id :: "uuid option"
  rr_report_type :: string
  rr_note :: "string option"
  rr_status :: string
  rr_resolved_by :: "string option"
  rr_resolved_at :: "int option"
  rr_action_id :: "uuid option"
  rr_created_at :: int

record ban_row =
  bn_community_id :: uuid
  bn_pubkey :: string
  bn_banned :: bool
  bn_ban_expires_at :: "int option"
  bn_ban_reason :: "string option"
  bn_muted_until :: "int option"
  bn_mute_reason :: "string option"
  bn_actor_pubkey :: string
  bn_created_at :: int
  bn_updated_at :: int

record ban_record =
  br_pubkey :: string
  br_banned :: bool
  br_ban_expires_at :: "int option"
  br_ban_reason :: "string option"
  br_muted_until :: "int option"
  br_mute_reason :: "string option"
  br_actor_pubkey :: string
  br_updated_at :: int

definition MODERATION_ACTION_CHECK_VOCAB :: "string list" where
  "MODERATION_ACTION_CHECK_VOCAB =
     [''delete_message'', ''kick'', ''ban'', ''unban'', ''timeout'', ''untimeout'', ''dismiss_report'', ''escalate'',
      ''resolve:delete'', ''resolve:kick'', ''resolve:ban'', ''resolve:timeout'']"

record new_action =
  na_actor_pubkey :: string
  na_action :: string
  na_target_pubkey :: "string option"
  na_target_event_id :: "string option"
  na_channel_id :: "uuid option"
  na_reason_code :: "string option"
  na_public_reason :: "string option"
  na_private_reason :: "string option"
  na_matched_principal :: "string option"

record action_record =
  ac_id :: uuid
  ac_fields :: new_action
  ac_created_at :: int

record action_row =
  at_community_id :: uuid
  at_record :: action_record

record moderation_db =
  md_reports :: "report_row list"
  md_bans :: "ban_row list"
  md_actions :: "action_row list"

section \<open>Reports\<close>

definition target_columns :: "report_target \<Rightarrow> string \<times> string option \<times> string option \<times> string option" where
  "target_columns t =
     (case t of
        ReportEvent i \<Rightarrow> (''event'', Some i, None, None)
      | ReportPubkey pk \<Rightarrow> (''pubkey'', None, Some pk, None)
      | ReportBlob sha \<Rightarrow> (''blob'', None, None, Some sha))"

definition report_at :: "uuid \<Rightarrow> uuid \<Rightarrow> report_row \<Rightarrow> bool" where
  "report_at c i r = (mr_community_id r = c \<and> mr_id r = i)"

definition report_of :: "uuid \<Rightarrow> string \<Rightarrow> report_row \<Rightarrow> bool" where
  "report_of c event_id r = (mr_community_id r = c \<and> mr_report_event_id r = event_id)"

definition insert_report :: "uuid \<Rightarrow> int \<Rightarrow> moderation_db \<Rightarrow> uuid \<Rightarrow> new_report \<Rightarrow> db_error + uuid \<times> moderation_db" where
  "insert_report new_id now db c report =
     (case target_columns (nr_target report) of (target_kind, target_event_id, target_pubkey, target_blob_sha256) \<Rightarrow>
        (case find (report_of c (nr_report_event_id report)) (md_reports db) of
           Some r \<Rightarrow> Inr (mr_id r, db)
         | None \<Rightarrow>
             if list_ex (report_at c new_id) (md_reports db) then Inl (Sqlx ''duplicate key value violates unique constraint'')
             else Inr (new_id, db\<lparr>md_reports := md_reports db @
               [\<lparr>mr_community_id = c, mr_id = new_id, mr_report_event_id = nr_report_event_id report,
                 mr_reporter_pubkey = nr_reporter_pubkey report, mr_target_kind = target_kind, mr_target_event_id = target_event_id,
                 mr_target_pubkey = target_pubkey, mr_target_blob_sha256 = target_blob_sha256, mr_channel_id = nr_channel_id report,
                 mr_report_type = nr_report_type report, mr_note = nr_note report, mr_status = ''open'', mr_resolved_by = None,
                 mr_resolved_at = None, mr_action_id = None, mr_created_at = now\<rparr>]\<rparr>)))"

definition row_to_report :: "report_row \<Rightarrow> db_error + report_record" where
  "row_to_report row =
     (let column = (\<lambda>v. ok_or v (Sqlx ''unexpected null''))
      in and_then
        (if mr_target_kind row = ''event'' then and_then (column (mr_target_event_id row)) (\<lambda>i. Inr (ReportEvent i))
         else if mr_target_kind row = ''pubkey'' then and_then (column (mr_target_pubkey row)) (\<lambda>pk. Inr (ReportPubkey pk))
         else if mr_target_kind row = ''blob'' then and_then (column (mr_target_blob_sha256 row)) (\<lambda>sha. Inr (ReportBlob sha))
         else Inl (InvalidData (''invalid report target_kind: '' @ mr_target_kind row))) (\<lambda>target.
        Inr \<lparr>rr_id = mr_id row, rr_report_event_id = mr_report_event_id row, rr_reporter_pubkey = mr_reporter_pubkey row,
          rr_target = target, rr_channel_id = mr_channel_id row, rr_report_type = mr_report_type row, rr_note = mr_note row,
          rr_status = mr_status row, rr_resolved_by = mr_resolved_by row, rr_resolved_at = mr_resolved_at row,
          rr_action_id = mr_action_id row, rr_created_at = mr_created_at row\<rparr>))"

text \<open>\<open>row.map(row_to_report).transpose()\<close>, and the \<open>collect\<close> of a list of rows.\<close>

definition report_row_opt :: "report_row option \<Rightarrow> db_error + report_record option" where
  "report_row_opt r = (case r of None \<Rightarrow> Inr None | Some row \<Rightarrow> and_then (row_to_report row) (\<lambda>x. Inr (Some x)))"

fun collect_results :: "('e + 'a) list \<Rightarrow> 'e + 'a list" where
  "collect_results [] = Inr []"
| "collect_results (r # rs) = and_then r (\<lambda>x. and_then (collect_results rs) (\<lambda>xs. Inr (x # xs)))"

definition latest_first :: "('a \<Rightarrow> int) \<Rightarrow> int \<Rightarrow> 'a list \<Rightarrow> db_error + 'a list" where
  "latest_first created_at limit rows =
     (if limit < 0 then Inl (Sqlx ''LIMIT must not be negative'')
      else Inr (take (nat limit) (sort_key (\<lambda>r. - created_at r) rows)))"

definition list_reports :: "moderation_db \<Rightarrow> uuid \<Rightarrow> string option \<Rightarrow> int \<Rightarrow> db_error + report_record list" where
  "list_reports db c status limit =
     and_then (latest_first mr_created_at limit
       (filter (\<lambda>r. mr_community_id r = c \<and> (case status of None \<Rightarrow> True | Some s \<Rightarrow> mr_status r = s)) (md_reports db))) (\<lambda>rows.
     collect_results (map row_to_report rows))"

definition get_report :: "moderation_db \<Rightarrow> uuid \<Rightarrow> uuid \<Rightarrow> db_error + report_record option" where
  "get_report db c report_id = report_row_opt (find (report_at c report_id) (md_reports db))"

definition get_report_by_event :: "moderation_db \<Rightarrow> uuid \<Rightarrow> string \<Rightarrow> db_error + report_record option" where
  "get_report_by_event db c report_event_id = report_row_opt (find (report_of c report_event_id) (md_reports db))"

text \<open>The status column is checked for its vocabulary.\<close>

definition REPORT_STATUS :: "string list" where
  "REPORT_STATUS = [''open'', ''resolved'', ''dismissed'', ''escalated'']"

definition resolve_report ::
  "int \<Rightarrow> moderation_db \<Rightarrow> uuid \<Rightarrow> uuid \<Rightarrow> string \<Rightarrow> string \<Rightarrow> uuid option \<Rightarrow> db_error + bool \<times> moderation_db" where
  "resolve_report now db c report_id status resolved_by action_id =
     (let p = (\<lambda>r. report_at c report_id r \<and> mr_status r = ''open'') in
      if \<not> list_ex p (md_reports db) then Inr (False, db)
      else if status \<notin> set REPORT_STATUS then Inl (Sqlx ''violates check constraint'')
      else Inr (True, db\<lparr>md_reports := map (\<lambda>r. if p r
        then r\<lparr>mr_status := status, mr_resolved_by := Some resolved_by, mr_resolved_at := Some now, mr_action_id := action_id\<rparr>
        else r) (md_reports db)\<rparr>))"

section \<open>Bans and time-outs\<close>

definition ban_at :: "uuid \<Rightarrow> string \<Rightarrow> ban_row \<Rightarrow> bool" where
  "ban_at c pk r = (bn_community_id r = c \<and> bn_pubkey r = pk)"

definition change_bans :: "(ban_row \<Rightarrow> bool) \<Rightarrow> (ban_row \<Rightarrow> ban_row) \<Rightarrow> moderation_db \<Rightarrow> moderation_db" where
  "change_bans p f db = db\<lparr>md_bans := map (\<lambda>r. if p r then f r else r) (md_bans db)\<rparr>"

definition new_ban :: "int \<Rightarrow> uuid \<Rightarrow> string \<Rightarrow> string \<Rightarrow> ban_row" where
  "new_ban now c pk moderator =
     \<lparr>bn_community_id = c, bn_pubkey = pk, bn_banned = False, bn_ban_expires_at = None, bn_ban_reason = None, bn_muted_until = None,
      bn_mute_reason = None, bn_actor_pubkey = moderator, bn_created_at = now, bn_updated_at = now\<rparr>"

text \<open>\<open>INSERT .. ON CONFLICT DO UPDATE\<close>: both set the same columns.\<close>

definition upsert_ban :: "int \<Rightarrow> uuid \<Rightarrow> string \<Rightarrow> string \<Rightarrow> (ban_row \<Rightarrow> ban_row) \<Rightarrow> moderation_db \<Rightarrow> moderation_db" where
  "upsert_ban now c pk moderator f db =
     (if list_ex (ban_at c pk) (md_bans db)
      then change_bans (ban_at c pk) (\<lambda>r. (f r)\<lparr>bn_actor_pubkey := moderator, bn_updated_at := now\<rparr>) db
      else db\<lparr>md_bans := md_bans db @ [f (new_ban now c pk moderator)]\<rparr>)"

definition ban_member :: "int \<Rightarrow> moderation_db \<Rightarrow> uuid \<Rightarrow> string \<Rightarrow> string \<Rightarrow> string option \<Rightarrow> int option \<Rightarrow> moderation_db" where
  "ban_member now db c pk moderator reason expires_at =
     upsert_ban now c pk moderator (\<lambda>r. r\<lparr>bn_banned := True, bn_ban_expires_at := expires_at, bn_ban_reason := reason\<rparr>) db"

definition unban_member :: "int \<Rightarrow> moderation_db \<Rightarrow> uuid \<Rightarrow> string \<Rightarrow> string \<Rightarrow> bool \<times> moderation_db" where
  "unban_member now db c pk moderator =
     (let p = (\<lambda>r. ban_at c pk r \<and> bn_banned r)
      in (list_ex p (md_bans db),
          change_bans p (\<lambda>r. r\<lparr>bn_banned := False, bn_ban_expires_at := None, bn_ban_reason := None, bn_actor_pubkey := moderator,
            bn_updated_at := now\<rparr>) db))"

definition timeout_member :: "int \<Rightarrow> moderation_db \<Rightarrow> uuid \<Rightarrow> string \<Rightarrow> string \<Rightarrow> int \<Rightarrow> string option \<Rightarrow> moderation_db" where
  "timeout_member now db c pk moderator muted_until reason =
     upsert_ban now c pk moderator (\<lambda>r. r\<lparr>bn_muted_until := Some muted_until, bn_mute_reason := reason\<rparr>) db"

definition muted_at :: "int \<Rightarrow> ban_row \<Rightarrow> bool" where
  "muted_at now r = (case bn_muted_until r of None \<Rightarrow> False | Some until \<Rightarrow> until > now)"

definition untimeout_member :: "int \<Rightarrow> moderation_db \<Rightarrow> uuid \<Rightarrow> string \<Rightarrow> string \<Rightarrow> bool \<times> moderation_db" where
  "untimeout_member now db c pk moderator =
     (let p = (\<lambda>r. ban_at c pk r \<and> muted_at now r)
      in (list_ex p (md_bans db),
          change_bans p (\<lambda>r. r\<lparr>bn_muted_until := None, bn_mute_reason := None, bn_actor_pubkey := moderator, bn_updated_at := now\<rparr>) db))"

definition banned_at :: "int \<Rightarrow> ban_row \<Rightarrow> bool" where
  "banned_at now r = (bn_banned r \<and> (case bn_ban_expires_at r of None \<Rightarrow> True | Some expires \<Rightarrow> expires > now))"

definition db_restriction_state :: "int \<Rightarrow> moderation_db \<Rightarrow> uuid \<Rightarrow> string \<Rightarrow> restriction_state" where
  "db_restriction_state now db c pk =
     (case find (ban_at c pk) (md_bans db) of
        Some row \<Rightarrow> \<lparr>re_banned = banned_at now row, re_muted_until = (if muted_at now row then bn_muted_until row else None)\<rparr>
      | None \<Rightarrow> \<lparr>re_banned = False, re_muted_until = None\<rparr>)"

definition row_to_ban :: "int \<Rightarrow> ban_row \<Rightarrow> ban_record" where
  "row_to_ban now r =
     \<lparr>br_pubkey = bn_pubkey r, br_banned = banned_at now r, br_ban_expires_at = bn_ban_expires_at r, br_ban_reason = bn_ban_reason r,
      br_muted_until = bn_muted_until r, br_mute_reason = bn_mute_reason r, br_actor_pubkey = bn_actor_pubkey r, br_updated_at = bn_updated_at r\<rparr>"

definition get_ban :: "int \<Rightarrow> moderation_db \<Rightarrow> uuid \<Rightarrow> string \<Rightarrow> ban_record option" where
  "get_ban now db c pk = map_option (row_to_ban now) (find (ban_at c pk) (md_bans db))"

definition list_restricted :: "int \<Rightarrow> moderation_db \<Rightarrow> uuid \<Rightarrow> ban_record list" where
  "list_restricted now db c =
     map (row_to_ban now) (sort_key (\<lambda>r. - bn_updated_at r)
       (filter (\<lambda>r. bn_community_id r = c \<and> (banned_at now r \<or> muted_at now r)) (md_bans db)))"

section \<open>The audit trail\<close>

definition insert_action :: "uuid \<Rightarrow> int \<Rightarrow> moderation_db \<Rightarrow> uuid \<Rightarrow> new_action \<Rightarrow> db_error + uuid \<times> moderation_db" where
  "insert_action new_id now db c act =
     (if na_action act \<notin> set MODERATION_ACTION_CHECK_VOCAB then Inl (Sqlx ''violates check constraint'')
      else if list_ex (\<lambda>r. at_community_id r = c \<and> ac_id (at_record r) = new_id) (md_actions db)
      then Inl (Sqlx ''duplicate key value violates unique constraint'')
      else Inr (new_id, db\<lparr>md_actions := md_actions db @
        [\<lparr>at_community_id = c, at_record = \<lparr>ac_id = new_id, ac_fields = act, ac_created_at = now\<rparr>\<rparr>]\<rparr>))"

definition list_actions :: "moderation_db \<Rightarrow> uuid \<Rightarrow> int \<Rightarrow> db_error + action_record list" where
  "list_actions db c limit =
     latest_first ac_created_at limit (map at_record (filter (\<lambda>r. at_community_id r = c) (md_actions db)))"

section \<open>Capabilities\<close>

datatype moderation_action = DeleteMessage | Kick | Ban | Unban | Timeout | Untimeout | ResolveReport | ViewQueue

datatype moderation_target = TargetEvent string | TargetPubkey string | TargetNone

datatype moderation_authority = CommunityOwner | CommunityAdmin | ChannelRole

datatype mod_call =
    CallRestriction | CallActorRole | CallTargetRole | CallChannelRole | CallBan | CallUnban | CallTimeout | CallUntimeout
  | CallAudit | CallGetReport | CallResolve | CallInsertReport

record mod_env =
  me_community :: uuid
  me_now_secs :: int
  me_now :: int
  me_roster :: roster_db
  me_channel_role :: "uuid \<Rightarrow> string \<Rightarrow> string option"
  me_timestamp :: "int \<Rightarrow> int option"
  me_new_id :: uuid
  me_event_by_id :: "uuid \<Rightarrow> string \<Rightarrow> string + stored_event option"
  me_sidecar :: "string \<Rightarrow> string + unit"
  me_error_text :: "db_error \<Rightarrow> string"
  me_fails :: "mod_call \<Rightarrow> string option"

definition me_call :: "mod_env \<Rightarrow> mod_call \<Rightarrow> 'a \<Rightarrow> string + 'a" where
  "me_call env call r = (case me_fails env call of Some e \<Rightarrow> Inl e | None \<Rightarrow> Inr r)"

definition decide_authority ::
  "string option \<Rightarrow> string option \<Rightarrow> string option \<Rightarrow> moderation_action \<Rightarrow> string + moderation_authority" where
  "decide_authority actor_role target_role channel_role act =
     (if actor_role = Some ''owner'' then Inr CommunityOwner
      else if actor_role = Some ''admin''
      then (if (act = Ban \<or> act = Timeout) \<and> (target_role = Some ''owner'' \<or> target_role = Some ''admin'')
            then Inl ''an admin cannot ban or time out a community owner or fellow admin''
            else Inr CommunityAdmin)
      else if (act = DeleteMessage \<or> act = Kick) \<and> (channel_role = Some ''owner'' \<or> channel_role = Some ''admin'')
      then Inr ChannelRole
      else Inl ''moderator access required'')"

definition relay_role :: "mod_env \<Rightarrow> string \<Rightarrow> string option" where
  "relay_role env pk = map_option rm_member_role (get_relay_member (me_roster env) (me_community env) pk)"

definition authorize_moderation_action ::
  "mod_env \<Rightarrow> string \<Rightarrow> uuid option \<Rightarrow> moderation_target \<Rightarrow> moderation_action \<Rightarrow> string + moderation_authority" where
  "authorize_moderation_action env moderator channel_id target act =
     and_then (me_call env CallActorRole (relay_role env moderator)) (\<lambda>actor_role.
     and_then (if actor_role = Some ''admin'' \<and> (act = Ban \<or> act = Timeout)
               then (case target of TargetPubkey pk \<Rightarrow> me_call env CallTargetRole (relay_role env pk) | _ \<Rightarrow> Inr None)
               else Inr None) (\<lambda>target_role.
     and_then (if actor_role = Some ''owner'' \<or> actor_role = Some ''admin'' then Inr None
               else (case channel_id of
                       Some ch \<Rightarrow> if act = DeleteMessage \<or> act = Kick
                         then me_call env CallChannelRole (me_channel_role env ch moderator) else Inr None
                     | None \<Rightarrow> Inr None)) (\<lambda>channel_role.
     decide_authority actor_role target_role channel_role act)))"

section \<open>Commands\<close>

datatype mod_notice = Restriction uuid string string | ReportResolved uuid string string

datatype mod_effect = DisconnectPubkey string string string | SendNotice string mod_notice

record mod_state =
  ms_db :: moderation_db
  ms_sent :: "mod_effect list"

type_synonym 'a mod_step = "mod_state \<Rightarrow> (string + 'a) \<times> mod_state"

definition mo_bind :: "'a mod_step \<Rightarrow> ('a \<Rightarrow> 'b mod_step) \<Rightarrow> 'b mod_step" where
  "mo_bind m f = (\<lambda>s. case m s of (Inl e, s') \<Rightarrow> (Inl e, s') | (Inr x, s') \<Rightarrow> f x s')"

definition mo_gate :: "string + 'a \<Rightarrow> 'a mod_step" where
  "mo_gate r = (\<lambda>s. (r, s))"

definition mo_send :: "mod_effect \<Rightarrow> unit mod_step" where
  "mo_send x = (\<lambda>s. (Inr (), s\<lparr>ms_sent := ms_sent s @ [x]\<rparr>))"

definition cmd_invalid :: "string \<Rightarrow> string" where "cmd_invalid m = ''invalid: '' @ m"
definition cmd_error :: "string \<Rightarrow> string" where "cmd_error m = ''error: '' @ m"
definition authz_denial :: "string \<Rightarrow> string" where "authz_denial m = ''restricted: '' @ m"

text \<open>A database write: its failure leaves the tables as they are.\<close>

definition mo_write :: "mod_env \<Rightarrow> mod_call \<Rightarrow> string \<Rightarrow> (moderation_db \<Rightarrow> db_error + 'a \<times> moderation_db) \<Rightarrow> 'a mod_step" where
  "mo_write env call what f =
     (\<lambda>s. case me_fails env call of
        Some e \<Rightarrow> (Inl (cmd_error (what @ e)), s)
      | None \<Rightarrow>
          (case f (ms_db s) of
             Inl e \<Rightarrow> (Inl (cmd_error (what @ me_error_text env e)), s)
           | Inr (x, db) \<Rightarrow> (Inr x, s\<lparr>ms_db := db\<rparr>)))"

definition is_hex_64 :: "string \<Rightarrow> bool" where
  "is_hex_64 v = (length v = 64 \<and> list_all is_ascii_hexdigit v)"

definition hex_tag :: "string \<Rightarrow> event \<Rightarrow> string option" where
  "hex_tag name e =
     find_map (\<lambda>parts. if length parts \<ge> 2 \<and> parts ! 0 = name \<and> is_hex_64 (parts ! 1) then Some (map ascii_lower (parts ! 1)) else None) (ev_tags e)"

definition extract_p_tag_bytes :: "event \<Rightarrow> string option" where
  "extract_p_tag_bytes e = hex_tag ''p'' e"

definition extract_report_tag :: "event \<Rightarrow> string option" where
  "extract_report_tag e = hex_tag ''report'' e"

definition extract_expiration :: "mod_env \<Rightarrow> event \<Rightarrow> string + int option" where
  "extract_expiration env e =
     (case extract_tag_value e ''expiration'' of
        None \<Rightarrow> Inr None
      | Some raw \<Rightarrow>
          (case parse_i64 raw of
             None \<Rightarrow> Inl (cmd_invalid (''invalid expiration tag: '' @ raw))
           | Some secs \<Rightarrow>
               (case me_timestamp env secs of
                  Some ts \<Rightarrow> Inr (Some ts)
                | None \<Rightarrow> Inl (cmd_invalid (''expiration out of range: '' @ show_i32 secs)))))"

definition insert_audit ::
  "mod_env \<Rightarrow> string \<Rightarrow> string \<Rightarrow> string option \<Rightarrow> string option \<Rightarrow> string option \<Rightarrow> uuid mod_step" where
  "insert_audit env moderator act target_pubkey target_event_id public_reason =
     mo_write env CallAudit ''failed to write audit row: '' (\<lambda>db. insert_action (me_new_id env) (me_now env) db (me_community env)
       \<lparr>na_actor_pubkey = moderator, na_action = act, na_target_pubkey = target_pubkey, na_target_event_id = target_event_id,
        na_channel_id = None, na_reason_code = None, na_public_reason = public_reason, na_private_reason = None, na_matched_principal = None\<rparr>)"

definition command_target :: "event \<Rightarrow> string mod_step" where
  "command_target e = mo_gate (ok_or (extract_p_tag_bytes e) (cmd_invalid ''missing or invalid p tag''))"

definition authorized :: "mod_env \<Rightarrow> string \<Rightarrow> moderation_target \<Rightarrow> moderation_action \<Rightarrow> moderation_authority mod_step" where
  "authorized env moderator target act = mo_gate (map_err authz_denial (authorize_moderation_action env moderator None target act))"

definition handle_ban :: "mod_env \<Rightarrow> event \<Rightarrow> string \<Rightarrow> unit mod_step" where
  "handle_ban env e moderator =
     mo_bind (command_target e) (\<lambda>target.
     mo_bind (mo_gate (extract_expiration env e)) (\<lambda>expires_at.
     let reason = extract_tag_value e ''reason'' in
     mo_bind (authorized env moderator (TargetPubkey target) Ban) (\<lambda>_.
     mo_bind (mo_write env CallBan ''database error: ''
       (\<lambda>db. Inr ((), ban_member (me_now env) db (me_community env) target moderator reason expires_at))) (\<lambda>_.
     mo_bind (insert_audit env moderator ''ban'' (Some target) None reason) (\<lambda>action_id.
     mo_bind (mo_send (DisconnectPubkey target (ev_id e) ''blocked: you are banned from this community'')) (\<lambda>_.
     mo_send (SendNotice target (Restriction action_id ''ban'' (unwrap_or [] reason)))))))))"

definition handle_unban :: "mod_env \<Rightarrow> event \<Rightarrow> string \<Rightarrow> unit mod_step" where
  "handle_unban env e moderator =
     mo_bind (command_target e) (\<lambda>target.
     mo_bind (authorized env moderator (TargetPubkey target) Unban) (\<lambda>_.
     mo_bind (mo_write env CallUnban ''database error: '' (\<lambda>db. Inr (unban_member (me_now env) db (me_community env) target moderator))) (\<lambda>lifted.
     mo_bind (mo_gate (check lifted (cmd_invalid ''member is not banned''))) (\<lambda>_.
     mo_bind (insert_audit env moderator ''unban'' (Some target) None None) (\<lambda>_. mo_gate (Inr ()))))))"

definition handle_timeout :: "mod_env \<Rightarrow> event \<Rightarrow> string \<Rightarrow> unit mod_step" where
  "handle_timeout env e moderator =
     mo_bind (command_target e) (\<lambda>target.
     mo_bind (mo_gate (extract_expiration env e)) (\<lambda>expires_at.
     mo_bind (mo_gate (ok_or expires_at (cmd_invalid ''timeout requires an expiration tag''))) (\<lambda>muted_until.
     let reason = extract_tag_value e ''reason'' in
     mo_bind (authorized env moderator (TargetPubkey target) Timeout) (\<lambda>_.
     mo_bind (mo_write env CallTimeout ''database error: ''
       (\<lambda>db. Inr ((), timeout_member (me_now env) db (me_community env) target moderator muted_until reason))) (\<lambda>_.
     mo_bind (insert_audit env moderator ''timeout'' (Some target) None reason) (\<lambda>action_id.
     mo_send (SendNotice target (Restriction action_id ''timeout'' (unwrap_or [] reason)))))))))"

definition handle_untimeout :: "mod_env \<Rightarrow> event \<Rightarrow> string \<Rightarrow> unit mod_step" where
  "handle_untimeout env e moderator =
     mo_bind (command_target e) (\<lambda>target.
     mo_bind (authorized env moderator (TargetPubkey target) Untimeout) (\<lambda>_.
     mo_bind (mo_write env CallUntimeout ''database error: ''
       (\<lambda>db. Inr (untimeout_member (me_now env) db (me_community env) target moderator))) (\<lambda>cleared.
     mo_bind (mo_gate (check cleared (cmd_invalid ''member is not timed out''))) (\<lambda>_.
     mo_bind (insert_audit env moderator ''untimeout'' (Some target) None None) (\<lambda>_. mo_gate (Inr ()))))))"

definition resolution_audit_action :: "string \<Rightarrow> string" where
  "resolution_audit_action act =
     (if act = ''dismiss'' then ''dismiss_report''
      else if act = ''escalate'' then ''escalate''
      else if act = ''delete'' then ''resolve:delete''
      else if act = ''kick'' then ''resolve:kick''
      else if act = ''ban'' then ''resolve:ban''
      else if act = ''timeout'' then ''resolve:timeout''
      else ''resolve:unknown'')"

definition RESOLVE_ACTIONS :: "string list" where
  "RESOLVE_ACTIONS = [''delete'', ''kick'', ''ban'', ''timeout'', ''dismiss'', ''escalate'']"

definition backquote :: "string \<Rightarrow> string" where
  "backquote s = CHR 0x60 # s @ [CHR 0x60]"

definition check_resolution :: "string \<Rightarrow> string \<Rightarrow> string + unit" where
  "check_resolution status act =
     and_then (check (status = ''resolved'' \<or> status = ''dismissed'')
       (cmd_invalid (''invalid status: '' @ status @ '' (expect resolved|dismissed)''))) (\<lambda>_.
     and_then (check (act \<in> set RESOLVE_ACTIONS)
       (cmd_invalid (''invalid action: '' @ act @ '' (expect delete|kick|ban|timeout|dismiss|escalate)''))) (\<lambda>_.
     check ((act = ''dismiss'') = (status = ''dismissed''))
       (cmd_invalid (''action '' @ backquote ''dismiss'' @ '' pairs only with status '' @ backquote ''dismissed''))))"

definition mo_read :: "mod_env \<Rightarrow> mod_call \<Rightarrow> string \<Rightarrow> (moderation_db \<Rightarrow> db_error + 'a) \<Rightarrow> 'a mod_step" where
  "mo_read env call what f =
     (\<lambda>s. (case me_fails env call of
             Some e \<Rightarrow> Inl (cmd_error (what @ e))
           | None \<Rightarrow> map_err (\<lambda>e. cmd_error (what @ me_error_text env e)) (f (ms_db s)), s))"

definition NOT_OPEN :: string where
  "NOT_OPEN = cmd_invalid ''report is not open (already resolved or dismissed)''"

text \<open>
  The resolution of a report reads it and writes the audit row, and then closes it. In between, another
  moderator may close it.
\<close>

record resolution =
  rs_report :: report_record
  rs_status :: string
  rs_reason :: "string option"
  rs_action_id :: uuid

definition resolve_begin :: "mod_env \<Rightarrow> event \<Rightarrow> string \<Rightarrow> resolution mod_step" where
  "resolve_begin env e moderator =
     mo_bind (mo_gate (ok_or (extract_report_tag e) (cmd_invalid ''missing or invalid report tag (expect 64-hex event id)''))) (\<lambda>report_event_id.
     mo_bind (mo_gate (ok_or (extract_tag_value e ''status'') (cmd_invalid ''missing status tag''))) (\<lambda>status.
     mo_bind (mo_gate (ok_or (extract_tag_value e ''action'') (cmd_invalid ''missing action tag''))) (\<lambda>act.
     let reason = extract_tag_value e ''reason'' in
     mo_bind (mo_gate (check_resolution status act)) (\<lambda>_.
     mo_bind (authorized env moderator (TargetEvent report_event_id) ResolveReport) (\<lambda>_.
     mo_bind (mo_read env CallGetReport ''database error: '' (\<lambda>db. get_report_by_event db (me_community env) report_event_id)) (\<lambda>found.
     mo_bind (mo_gate (ok_or found (cmd_invalid ''report not found in this community''))) (\<lambda>report.
     mo_bind (mo_gate (check (rr_status report = ''open'') NOT_OPEN)) (\<lambda>_.
     mo_bind (insert_audit env moderator (resolution_audit_action act)
       (case rr_target report of ReportPubkey pk \<Rightarrow> Some pk | _ \<Rightarrow> None)
       (case rr_target report of ReportEvent i \<Rightarrow> Some i | _ \<Rightarrow> None) reason) (\<lambda>action_id.
     mo_gate (Inr \<lparr>rs_report = report, rs_status = status, rs_reason = reason, rs_action_id = action_id\<rparr>))))))))))"

definition resolve_finish :: "mod_env \<Rightarrow> string \<Rightarrow> resolution \<Rightarrow> unit mod_step" where
  "resolve_finish env moderator r =
     mo_bind (mo_write env CallResolve ''database error: '' (\<lambda>db.
       resolve_report (me_now env) db (me_community env) (rr_id (rs_report r)) (rs_status r) moderator (Some (rs_action_id r)))) (\<lambda>resolved.
     mo_bind (mo_gate (check resolved NOT_OPEN)) (\<lambda>_.
     mo_send (SendNotice (rr_reporter_pubkey (rs_report r)) (ReportResolved (rr_id (rs_report r)) (rs_status r)
       (unwrap_or (if rs_status r = ''dismissed'' then ''Your report was reviewed and dismissed.''
                   else ''Your report was reviewed and acted on.'') (rs_reason r))))))"

definition handle_resolve :: "mod_env \<Rightarrow> event \<Rightarrow> string \<Rightarrow> unit mod_step" where
  "handle_resolve env e moderator = mo_bind (resolve_begin env e moderator) (resolve_finish env moderator)"

definition ensure_actor_not_banned :: "restriction_state \<Rightarrow> string + unit" where
  "ensure_actor_not_banned restriction = check (\<not> re_banned restriction) ''blocked: you are banned from this community''"

definition MAX_COMMAND_SKEW_SECS :: int where
  "MAX_COMMAND_SKEW_SECS = 120"

definition check_skew :: "int \<Rightarrow> event \<Rightarrow> string + unit" where
  "check_skew now e =
     (let event_ts = as_i64 (ev_created_at e); delta = i64_sub event_ts now in
      check (\<not> i64_abs delta > MAX_COMMAND_SKEW_SECS)
        (cmd_invalid (''event timestamp out of range: created_at='' @ show_i32 event_ts @ '', now='' @ show_i32 now @ '', delta='' @
           show_i32 delta @ ''s (max '' @ [CHR 0xC2, CHR 0xB1] @ show_i32 MAX_COMMAND_SKEW_SECS @ ''s)'')))"

text \<open>The checks of every command, its restriction read from the tables.\<close>

definition admit_command :: "mod_env \<Rightarrow> event \<Rightarrow> unit mod_step" where
  "admit_command env e =
     mo_bind (mo_read env CallRestriction ''database error checking restriction state: ''
       (\<lambda>db. Inr (db_restriction_state (me_now env) db (me_community env) (ev_pubkey e)))) (\<lambda>restriction.
     mo_bind (mo_gate (ensure_actor_not_banned restriction)) (\<lambda>_.
     mo_gate (check_skew (me_now_secs env) e)))"

definition run_moderation_command :: "mod_env \<Rightarrow> event \<Rightarrow> unit mod_step" where
  "run_moderation_command env e =
     (let kind = event_kind_u32 e; moderator = ev_pubkey e in
      mo_bind (admit_command env e) (\<lambda>_.
      if kind = KIND_MODERATION_BAN then handle_ban env e moderator
      else if kind = KIND_MODERATION_UNBAN then handle_unban env e moderator
      else if kind = KIND_MODERATION_TIMEOUT then handle_timeout env e moderator
      else if kind = KIND_MODERATION_UNTIMEOUT then handle_untimeout env e moderator
      else if kind = KIND_MODERATION_RESOLVE_REPORT then handle_resolve env e moderator
      else mo_gate (Inl (cmd_invalid (''unexpected moderation command kind: '' @ show_nat (unat kind))))))"

section \<open>Filing a report\<close>

definition REPORT_TYPES :: "string list" where
  "REPORT_TYPES = [''illegal'', ''nudity'', ''malware'', ''spam'', ''impersonation'', ''profanity'', ''other'']"

datatype parsed_report_target = ParsedEvent string string | ParsedBlob string string | ParsedPubkey string

record parsed_report =
  pr_target :: parsed_report_target
  pr_report_type :: string

record report_tag =
  rt_value :: string
  rt_report_type :: "string option"

definition collect_report_tags :: "event \<Rightarrow> string \<Rightarrow> report_tag list" where
  "collect_report_tags e name =
     List.map_filter (\<lambda>fields. if length fields \<ge> 2 \<and> fields ! 0 = name
       then Some \<lparr>rt_value = fields ! 1, rt_report_type = (if length fields > 2 then Some (fields ! 2) else None)\<rparr> else None) (ev_tags e)"

definition parse_report_type :: "string option \<Rightarrow> string + string" where
  "parse_report_type value =
     (case value of
        None \<Rightarrow> Inl ''invalid: report target tag missing report type''
      | Some v \<Rightarrow> if v \<in> set REPORT_TYPES then Inr v else Inl (''invalid: unsupported report type: '' @ v))"

definition decode_32_byte_hex :: "string \<Rightarrow> string \<Rightarrow> string + string" where
  "decode_32_byte_hex value label =
     (if \<not> is_hex_64 value then Inl (''invalid: malformed '' @ label) else Inr (map ascii_lower value))"

definition parse_report :: "event \<Rightarrow> string + parsed_report" where
  "parse_report e =
     (let p_tags = collect_report_tags e ''p''; e_tags = collect_report_tags e ''e''; x_tags = collect_report_tags e ''x'' in
      and_then (check (p_tags \<noteq> []) ''invalid: report must include a p tag'') (\<lambda>_.
      and_then (check (\<not> length p_tags > 1) ''invalid: report must include exactly one p tag'') (\<lambda>_.
      and_then (decode_32_byte_hex (rt_value (p_tags ! 0)) ''p tag pubkey'') (\<lambda>reported_pubkey.
      and_then (check (\<not> (e_tags \<noteq> [] \<and> x_tags \<noteq> [])) ''invalid: report must target only one of e or x'') (\<lambda>_.
      and_then (check (\<not> length e_tags > 1) ''invalid: report must include at most one e tag'') (\<lambda>_.
      and_then (check (\<not> length x_tags > 1) ''invalid: report must include at most one x tag'') (\<lambda>_.
      case e_tags of
        tag # _ \<Rightarrow>
          and_then (parse_report_type (rt_report_type tag)) (\<lambda>report_type.
          and_then (decode_32_byte_hex (rt_value tag) ''e tag event id'') (\<lambda>event_id.
          Inr \<lparr>pr_target = ParsedEvent event_id reported_pubkey, pr_report_type = report_type\<rparr>))
      | [] \<Rightarrow>
          (case x_tags of
             tag # _ \<Rightarrow>
               and_then (parse_report_type (rt_report_type tag)) (\<lambda>report_type.
               and_then (decode_32_byte_hex (rt_value tag) ''x tag sha256'') (\<lambda>sha256.
               Inr \<lparr>pr_target = ParsedBlob sha256 reported_pubkey, pr_report_type = report_type\<rparr>))
           | [] \<Rightarrow>
               and_then (parse_report_type (rt_report_type (p_tags ! 0))) (\<lambda>report_type.
               Inr \<lparr>pr_target = ParsedPubkey reported_pubkey, pr_report_type = report_type\<rparr>)))))))))"

definition report_note :: "event \<Rightarrow> string option" where
  "report_note e = (if ev_content e = [] then None else Some (ev_content e))"

definition resolve_target :: "mod_env \<Rightarrow> parsed_report_target \<Rightarrow> string + report_target \<times> uuid option" where
  "resolve_target env target =
     (case target of
        ParsedEvent event_id _ \<Rightarrow>
          and_then (map_err (\<lambda>err. ''error: database error resolving report target: '' @ err)
            (me_event_by_id env (me_community env) event_id)) (\<lambda>found.
          and_then (ok_or found ''invalid: report target event not found'') (\<lambda>stored.
          Inr (ReportEvent event_id, se_channel_id stored)))
      | ParsedBlob sha256 _ \<Rightarrow>
          and_then (map_err (\<lambda>_. ''invalid: report target blob not found'') (me_sidecar env sha256)) (\<lambda>_.
          Inr (ReportBlob sha256, None))
      | ParsedPubkey pubkey \<Rightarrow> Inr (ReportPubkey pubkey, None))"

definition run_report :: "mod_env \<Rightarrow> event \<Rightarrow> unit mod_step" where
  "run_report env e =
     mo_bind (mo_gate (parse_report e)) (\<lambda>parsed.
     mo_bind (mo_gate (resolve_target env (pr_target parsed))) (\<lambda>(target, channel_id).
     mo_bind (mo_write env CallInsertReport ''database error inserting report: '' (\<lambda>db.
       insert_report (me_new_id env) (me_now env) db (me_community env)
         \<lparr>nr_report_event_id = ev_id e, nr_reporter_pubkey = ev_pubkey e, nr_target = target, nr_channel_id = channel_id,
          nr_report_type = pr_report_type parsed, nr_note = report_note e\<rparr>)) (\<lambda>_. mo_gate (Inr ()))))"

end
