(* ===== verification/Moderation_Laws.thy ===== *)
theory Moderation_Laws
  imports Moderation Roster_Owners
begin

text \<open>
  What a moderation command guarantees: who may restrict whom, what a restriction is at every later time, and
  the audit row that goes with it.
\<close>

section \<open>Running a command\<close>

lemma mo_bind_gate [simp]:
  "mo_bind (mo_gate (Inl err)) f s = (Inl err, s)" "mo_bind (mo_gate (Inr x)) f s = f x s"
  by (simp_all add: mo_bind_def mo_gate_def)

lemma mo_bind_pair:
  "mo_bind m f s = (r, s') \<longleftrightarrow>
     (\<exists>err. m s = (Inl err, s') \<and> r = Inl err) \<or> (\<exists>x s1. m s = (Inr x, s1) \<and> f x s1 = (r, s'))"
  by (cases "m s"; cases "fst (m s)") (auto simp: mo_bind_def)

lemma mo_gate_pair: "mo_gate r s = (r', s') \<longleftrightarrow> r' = r \<and> s' = s"
  by (auto simp: mo_gate_def)

lemma mo_send_pair: "mo_send x s = (r, s') \<longleftrightarrow> r = Inr () \<and> s' = s\<lparr>ms_sent := ms_sent s @ [x]\<rparr>"
  by (auto simp: mo_send_def)

lemma mo_read_pair:
  "mo_read env call what f s = (r, s') \<longleftrightarrow> s' = s \<and>
     r = (case me_fails env call of Some e \<Rightarrow> Inl (cmd_error (what @ e)) | None \<Rightarrow> map_err (\<lambda>e. cmd_error (what @ me_error_text env e)) (f (ms_db s)))"
  by (auto simp: mo_read_def)

lemma mo_write_pair:
  "mo_write env call what f s = (r, s') \<longleftrightarrow>
     (\<exists>err. r = Inl (cmd_error (what @ err)) \<and> s' = s \<and> (me_fails env call = Some err \<or> me_fails env call = None \<and> (\<exists>e. f (ms_db s) = Inl e \<and> err = me_error_text env e))) \<or>
     (\<exists>x db. me_fails env call = None \<and> f (ms_db s) = Inr (x, db) \<and> r = Inr x \<and> s' = s\<lparr>ms_db := db\<rparr>)"
  by (cases "me_fails env call"; cases "f (ms_db s)") (auto simp: mo_write_def split: prod.splits)

lemmas mo_pairs = mo_bind_pair mo_gate_pair mo_send_pair mo_read_pair mo_write_pair

section \<open>The rows of the tables\<close>

definition ban_of :: "moderation_db \<Rightarrow> uuid \<Rightarrow> string \<Rightarrow> ban_row option" where
  "ban_of db c pk = find (ban_at c pk) (md_bans db)"

lemma restriction_ban_of:
  "db_restriction_state now db c pk =
     (case ban_of db c pk of
        Some row \<Rightarrow> \<lparr>re_banned = banned_at now row, re_muted_until = (if muted_at now row then bn_muted_until row else None)\<rparr>
      | None \<Rightarrow> \<lparr>re_banned = False, re_muted_until = None\<rparr>)"
  by (simp add: db_restriction_state_def ban_of_def)

text \<open>A change of columns that keeps the key of a row.\<close>

definition keeps_key :: "(ban_row \<Rightarrow> ban_row) \<Rightarrow> bool" where
  "keeps_key f \<longleftrightarrow> (\<forall>r. bn_community_id (f r) = bn_community_id r \<and> bn_pubkey (f r) = bn_pubkey r)"

lemma ban_of_change:
  assumes "keeps_key f"
  shows "ban_of (change_bans (\<lambda>r. ban_at c pk r \<and> q r) f db) c' pk' =
    (if c' = c \<and> pk' = pk then map_option (\<lambda>r. if q r then f r else r) (ban_of db c pk) else ban_of db c' pk')"
proof -
  let ?g = "\<lambda>r. if ban_at c pk r \<and> q r then f r else r"
  have "ban_at c' pk' (?g r) = ban_at c' pk' r" for r
    using assms by (simp add: keeps_key_def ban_at_def)
  then have "ban_of (change_bans (\<lambda>r. ban_at c pk r \<and> q r) f db) c' pk' = map_option ?g (ban_of db c' pk')"
    by (simp add: ban_of_def change_bans_def find_map_keep)
  moreover have "ban_at c' pk' r" if "ban_of db c' pk' = Some r" for r
    using that by (auto simp: ban_of_def find_Some_iff)
  ultimately show ?thesis by (cases "ban_of db c' pk'") (auto simp: ban_at_def)
qed

lemma ban_of_upsert:
  assumes "keeps_key f"
  shows "ban_of (upsert_ban now c pk m f db) c' pk' =
    (if c' = c \<and> pk' = pk
     then Some (case ban_of db c pk of Some r \<Rightarrow> (f r)\<lparr>bn_actor_pubkey := m, bn_updated_at := now\<rparr> | None \<Rightarrow> f (new_ban now c pk m))
     else ban_of db c' pk')"
proof (cases "list_ex (ban_at c pk) (md_bans db)")
  case True
  then obtain r where r: "ban_of db c pk = Some r"
    by (cases "ban_of db c pk") (auto simp: ban_of_def find_None_iff list_ex_iff)
  have "keeps_key (\<lambda>r. (f r)\<lparr>bn_actor_pubkey := m, bn_updated_at := now\<rparr>)"
    using assms by (simp add: keeps_key_def)
  from ban_of_change [OF this, of c pk "\<lambda>_. True" db c' pk'] True r show ?thesis by (simp add: upsert_ban_def)
next
  case False
  then have none: "find (ban_at c pk) (md_bans db) = None" by (auto simp: find_None_iff list_ex_iff)
  have "ban_at c' pk' (f (new_ban now c pk m)) = (c' = c \<and> pk' = pk)"
    using assms by (auto simp: keeps_key_def ban_at_def new_ban_def)
  with False none show ?thesis by (auto simp: upsert_ban_def ban_of_def find_append split: option.split)
qed

lemma upsert_ban_rest: "md_reports (upsert_ban now c pk m f db) = md_reports db" "md_actions (upsert_ban now c pk m f db) = md_actions db"
  by (simp_all add: upsert_ban_def change_bans_def)

definition action_row_of :: "mod_env \<Rightarrow> string \<Rightarrow> string \<Rightarrow> string option \<Rightarrow> string option \<Rightarrow> string option \<Rightarrow> action_row" where
  "action_row_of env m act tp te reason =
     \<lparr>at_community_id = me_community env, at_record = \<lparr>ac_id = me_new_id env, ac_fields =
        \<lparr>na_actor_pubkey = m, na_action = act, na_target_pubkey = tp, na_target_event_id = te, na_channel_id = None, na_reason_code = None,
         na_public_reason = reason, na_private_reason = None, na_matched_principal = None\<rparr>, ac_created_at = me_now env\<rparr>\<rparr>"

lemma insert_audit_pair:
  assumes "insert_audit env m act tp te reason s = (r, s')"
  obtains (Failed) err where "r = Inl err" "s' = s"
  | (Written) "r = Inr (me_new_id env)" "s' = s\<lparr>ms_db := (ms_db s)\<lparr>md_actions := md_actions (ms_db s) @ [action_row_of env m act tp te reason]\<rparr>\<rparr>"
      "\<forall>a \<in> set (md_actions (ms_db s)). at_community_id a = me_community env \<longrightarrow> ac_id (at_record a) \<noteq> me_new_id env"
  using assms
  by (auto simp: insert_audit_def mo_write_pair insert_action_def action_row_of_def list_ex_iff split: if_splits)

section \<open>Authority\<close>

definition moderator_may :: "string option \<Rightarrow> string option \<Rightarrow> moderation_action \<Rightarrow> bool" where
  "moderator_may role target_role act \<longleftrightarrow>
     role = Some ''owner'' \<or>
     role = Some ''admin'' \<and> (act \<in> {Ban, Timeout} \<longrightarrow> target_role \<notin> {Some ''owner'', Some ''admin''})"

lemma me_call_Inr: "me_call env call r = Inr x \<longleftrightarrow> me_fails env call = None \<and> x = r"
  by (auto simp: me_call_def split: option.splits)

lemma authorized_on_key:
  "authorize_moderation_action env m None (TargetPubkey pk) act = Inr a \<Longrightarrow> moderator_may (relay_role env m) (relay_role env pk) act"
  by (auto simp: authorize_moderation_action_def and_then_Inr me_call_Inr decide_authority_def moderator_may_def split: if_splits)

lemma authorized_on_event:
  "authorize_moderation_action env m None (TargetEvent i) ResolveReport = Inr a \<Longrightarrow> relay_role env m = Some ''owner'' \<or> relay_role env m = Some ''admin''"
  by (auto simp: authorize_moderation_action_def and_then_Inr me_call_Inr decide_authority_def split: if_splits)

section \<open>The commands on a member\<close>

datatype restriction_change = SetBan "int option" "string option" | LiftBan | SetMute int "string option" | LiftMute

fun change_row :: "restriction_change \<Rightarrow> ban_row \<Rightarrow> ban_row" where
  "change_row (SetBan expires reason) r = r\<lparr>bn_banned := True, bn_ban_expires_at := expires, bn_ban_reason := reason\<rparr>"
| "change_row LiftBan r = r\<lparr>bn_banned := False, bn_ban_expires_at := None, bn_ban_reason := None\<rparr>"
| "change_row (SetMute until reason) r = r\<lparr>bn_muted_until := Some until, bn_mute_reason := reason\<rparr>"
| "change_row LiftMute r = r\<lparr>bn_muted_until := None, bn_mute_reason := None\<rparr>"

fun change_action :: "restriction_change \<Rightarrow> moderation_action" where
  "change_action (SetBan _ _) = Ban" | "change_action LiftBan = Unban" | "change_action (SetMute _ _) = Timeout" | "change_action LiftMute = Untimeout"

fun change_name :: "restriction_change \<Rightarrow> string" where
  "change_name (SetBan _ _) = ''ban''" | "change_name LiftBan = ''unban''" | "change_name (SetMute _ _) = ''timeout''" | "change_name LiftMute = ''untimeout''"

fun change_reason :: "restriction_change \<Rightarrow> string option" where
  "change_reason (SetBan _ reason) = reason" | "change_reason (SetMute _ reason) = reason" | "change_reason _ = None"

text \<open>What an event asks for.\<close>

definition asked_change :: "mod_env \<Rightarrow> event \<Rightarrow> restriction_change option" where
  "asked_change env e =
     (let kind = event_kind_u32 e; reason = extract_tag_value e ''reason'' in
      if kind = KIND_MODERATION_BAN
      then (case extract_expiration env e of Inr expires \<Rightarrow> Some (SetBan expires reason) | Inl _ \<Rightarrow> None)
      else if kind = KIND_MODERATION_UNBAN then Some LiftBan
      else if kind = KIND_MODERATION_TIMEOUT
      then (case extract_expiration env e of Inr (Some until) \<Rightarrow> Some (SetMute until reason) | _ \<Rightarrow> None)
      else if kind = KIND_MODERATION_UNTIMEOUT then Some LiftMute
      else None)"

text \<open>The primary key of the ban rows.\<close>

definition bans_ok :: "moderation_db \<Rightarrow> bool" where
  "bans_ok db \<longleftrightarrow> distinct (map (\<lambda>r. (bn_community_id r, bn_pubkey r)) (md_bans db))"

lemma keys_map: "keeps_key f \<Longrightarrow> map (\<lambda>r. (bn_community_id r, bn_pubkey r)) (map (\<lambda>r. if p r then f r else r) rs) = map (\<lambda>r. (bn_community_id r, bn_pubkey r)) rs"
  by (simp add: keeps_key_def)

lemma bans_ok_change: "keeps_key f \<Longrightarrow> bans_ok db \<Longrightarrow> bans_ok (change_bans p f db)"
proof -
  have "md_bans (change_bans p f db) = map (\<lambda>r. if p r then f r else r) (md_bans db)" by (simp add: change_bans_def)
  then show "keeps_key f \<Longrightarrow> bans_ok db \<Longrightarrow> bans_ok (change_bans p f db)" by (simp only: bans_ok_def keys_map)
qed

lemma bans_ok_upsert:
  assumes "keeps_key f" and "bans_ok db"
  shows "bans_ok (upsert_ban now c pk m f db)"
proof (cases "list_ex (ban_at c pk) (md_bans db)")
  case True
  have "keeps_key (\<lambda>r. (f r)\<lparr>bn_actor_pubkey := m, bn_updated_at := now\<rparr>)" using assms(1) by (simp add: keeps_key_def)
  with True assms(2) show ?thesis by (simp add: upsert_ban_def bans_ok_change)
next
  case False
  then have "(c, pk) \<notin> (\<lambda>r. (bn_community_id r, bn_pubkey r)) ` set (md_bans db)" by (auto simp: list_ex_iff ban_at_def)
  with False assms show ?thesis by (simp add: upsert_ban_def bans_ok_def keeps_key_def new_ban_def)
qed

text \<open>One row is replaced, and nothing else changes.\<close>

definition ban_changed :: "mod_env \<Rightarrow> event \<Rightarrow> string \<Rightarrow> restriction_change \<Rightarrow> moderation_db \<Rightarrow> moderation_db \<Rightarrow> bool" where
  "ban_changed env e pk ch db db' \<longleftrightarrow>
     (\<exists>r. (ban_of db (me_community env) pk = Some r \<or> ban_of db (me_community env) pk = None \<and> r = new_ban (me_now env) (me_community env) pk (ev_pubkey e)) \<and>
        ban_of db' (me_community env) pk = Some ((change_row ch r)\<lparr>bn_actor_pubkey := ev_pubkey e, bn_updated_at := me_now env\<rparr>)) \<and>
     (\<forall>c' pk'. (c', pk') \<noteq> (me_community env, pk) \<longrightarrow> ban_of db' c' pk' = ban_of db c' pk') \<and>
     md_reports db' = md_reports db \<and> (bans_ok db \<longrightarrow> bans_ok db')"

definition carried_out ::
  "mod_env \<Rightarrow> event \<Rightarrow> restriction_change \<Rightarrow> (string + unit) \<Rightarrow> moderation_db \<Rightarrow> moderation_db \<Rightarrow> bool" where
  "carried_out env e ch r db db' \<longleftrightarrow>
     (\<exists>pk. extract_p_tag_bytes e = Some pk \<and> moderator_may (relay_role env (ev_pubkey e)) (relay_role env pk) (change_action ch) \<and>
        ban_changed env e pk ch db db' \<and>
        (if r = Inr ()
         then md_actions db' = md_actions db @ [action_row_of env (ev_pubkey e) (change_name ch) (Some pk) None (change_reason ch)] \<and>
           (\<forall>a \<in> set (md_actions db). at_community_id a = me_community env \<longrightarrow> ac_id (at_record a) \<noteq> me_new_id env)
         else md_actions db' = md_actions db))"

lemma keeps_key_change: "keeps_key (change_row ch)"
  by (cases ch) (simp_all add: keeps_key_def)

lemma ban_changed_upsert:
  "ban_changed env e pk ch db (upsert_ban (me_now env) (me_community env) pk (ev_pubkey e) (change_row ch) db)"
proof -
  have "(change_row ch (new_ban now c pk m))\<lparr>bn_actor_pubkey := m, bn_updated_at := now\<rparr> = change_row ch (new_ban now c pk m)" for now c m
    by (cases ch) (simp_all add: new_ban_def)
  then show ?thesis
    by (auto simp: ban_changed_def ban_of_upsert [OF keeps_key_change] upsert_ban_rest bans_ok_upsert [OF keeps_key_change] split: option.split)
qed

definition no_effect :: "string + 'a \<Rightarrow> moderation_db \<Rightarrow> moderation_db \<Rightarrow> bool" where
  "no_effect r db db' \<longleftrightarrow> db' = db \<and> (\<exists>err. r = Inl err)"

text \<open>A write to the row of the target, followed by its audit row.\<close>

definition audits :: "mod_env \<Rightarrow> event \<Rightarrow> string \<Rightarrow> restriction_change \<Rightarrow> mod_state \<Rightarrow> (string + unit) \<Rightarrow> mod_state \<Rightarrow> bool" where
  "audits env e pk ch s r s' \<longleftrightarrow>
     (\<exists>ra s2. insert_audit env (ev_pubkey e) (change_name ch) (Some pk) None (change_reason ch) s = (ra, s2) \<and>
        ms_db s' = ms_db s2 \<and> ((\<exists>x. ra = Inr x) \<longleftrightarrow> r = Inr ()))"

lemma change_then_audit:
  assumes may: "moderator_may (relay_role env (ev_pubkey e)) (relay_role env pk) (change_action ch)" and "extract_p_tag_bytes e = Some pk"
    and db1: "ban_changed env e pk ch db (ms_db s1)" "md_actions (ms_db s1) = md_actions db" and "audits env e pk ch s1 r s'"
  shows "carried_out env e ch r db (ms_db s')"
proof -
  obtain ra s2 where audit: "insert_audit env (ev_pubkey e) (change_name ch) (Some pk) None (change_reason ch) s1 = (ra, s2)"
    and rest: "ms_db s' = ms_db s2" "(\<exists>x. ra = Inr x) \<longleftrightarrow> r = Inr ()"
    using assms(5) by (auto simp: audits_def)
  from audit show ?thesis
  proof (cases rule: insert_audit_pair)
    case (Failed err)
    then show ?thesis using assms rest by (auto simp: carried_out_def)
  next
    case Written
    have "ban_of ((ms_db s1)\<lparr>md_actions := as\<rparr>) c k = ban_of (ms_db s1) c k" for as c k by (simp add: ban_of_def)
    then have "ban_changed env e pk ch db ((ms_db s1)\<lparr>md_actions := as\<rparr>)" for as
      using db1(1) by (simp add: ban_changed_def bans_ok_def)
    with Written rest assms(2) may db1(2) show ?thesis by (simp add: carried_out_def)
  qed
qed

lemma restrict_member:
  assumes run: "mo_bind (authorized env (ev_pubkey e) (TargetPubkey pk) (change_action ch))
      (\<lambda>_. mo_bind (mo_write env call what (\<lambda>db. Inr (W db))) K) s = (r, s')"
    and pk: "extract_p_tag_bytes e = Some pk"
    and cont: "\<And>s1. K (fst (W (ms_db s))) s1 = (r, s') \<Longrightarrow> ms_db s1 = snd (W (ms_db s)) \<Longrightarrow>
      no_effect r (ms_db s) (ms_db s') \<or>
      ban_changed env e pk ch (ms_db s) (ms_db s1) \<and> md_actions (ms_db s1) = md_actions (ms_db s) \<and> audits env e pk ch s1 r s'"
  shows "no_effect r (ms_db s) (ms_db s') \<or> carried_out env e ch r (ms_db s) (ms_db s')"
proof (cases "authorize_moderation_action env (ev_pubkey e) None (TargetPubkey pk) (change_action ch)")
  case (Inl err)
  with run show ?thesis by (auto simp: authorized_def no_effect_def)
next
  case (Inr a)
  then have run': "mo_bind (mo_write env call what (\<lambda>db. Inr (W db))) K s = (r, s')"
    using run by (simp add: authorized_def)
  show ?thesis
  proof (cases "me_fails env call")
    case (Some err)
    with run' show ?thesis by (auto simp: mo_pairs no_effect_def)
  next
    case None
    with run' have "K (fst (W (ms_db s))) (s\<lparr>ms_db := snd (W (ms_db s))\<rparr>) = (r, s')"
      by (auto simp: mo_pairs)
    from cont [OF this] change_then_audit [OF authorized_on_key [OF Inr] pk] show ?thesis by fastforce
  qed
qed

lemma command_target_pair:
  assumes "mo_bind (command_target e) f s = (r, s')"
  obtains (No_target) "no_effect r (ms_db s) (ms_db s')" | (Target) pk where "extract_p_tag_bytes e = Some pk" "f pk s = (r, s')"
  using assms by (cases "extract_p_tag_bytes e") (auto simp: command_target_def no_effect_def)

lemma gate_pair:
  assumes "mo_bind (mo_gate g) f s = (r, s')"
  obtains (Stopped) "no_effect r (ms_db s) (ms_db s')" | (Passed) x where "g = Inr x" "f x s = (r, s')"
  using assms by (cases g) (auto simp: no_effect_def)

text \<open>After the audit row only messages are sent.\<close>

definition only_sends :: "(uuid \<Rightarrow> unit mod_step) \<Rightarrow> bool" where
  "only_sends T \<longleftrightarrow> (\<forall>i s. ms_db (snd (T i s)) = ms_db s \<and> fst (T i s) = Inr ())"

lemma only_sendsI:
  "only_sends (\<lambda>i. mo_send (x i))" "only_sends (\<lambda>i. mo_bind (mo_send (x i)) (\<lambda>_. mo_send (y i)))" "only_sends (\<lambda>_. mo_gate (Inr ()))"
  by (simp_all add: only_sends_def mo_send_def mo_gate_def mo_bind_def)

lemma audits_then:
  assumes "mo_bind (insert_audit env (ev_pubkey e) (change_name ch) (Some pk) None (change_reason ch)) T s = (r, s')" and "only_sends T"
  shows "audits env e pk ch s r s'"
proof -
  obtain ra s2 where ra: "insert_audit env (ev_pubkey e) (change_name ch) (Some pk) None (change_reason ch) s = (ra, s2)" by fastforce
  show ?thesis
  proof (cases ra)
    case (Inl err)
    with assms(1) ra show ?thesis by (auto simp: audits_def mo_bind_def)
  next
    case (Inr i)
    with assms(1) ra have "T i s2 = (r, s')" by (simp add: mo_bind_def)
    with assms(2) have "ms_db s' = ms_db s2" "r = Inr ()" unfolding only_sends_def by (metis fst_conv snd_conv)+
    with Inr ra show ?thesis by (auto simp: audits_def)
  qed
qed

lemma list_ex_ban:
  assumes "bans_ok db"
  shows "list_ex (\<lambda>r. ban_at c pk r \<and> q r) (md_bans db) \<longleftrightarrow> (\<exists>r. ban_of db c pk = Some r \<and> q r)"
proof -
  have "list_ex (\<lambda>r. ban_at c pk r \<and> q r) rs \<longleftrightarrow> (\<exists>r. find (ban_at c pk) rs = Some r \<and> q r)"
    if "distinct (map (\<lambda>r. (bn_community_id r, bn_pubkey r)) rs)" for rs
    using that by (induction rs) (auto simp: ban_at_def list_ex_iff image_iff)
  with assms show ?thesis by (simp add: bans_ok_def ban_of_def)
qed

lemma change_bans_none: "\<not> list_ex p (md_bans db) \<Longrightarrow> change_bans p f db = db"
  by (simp add: change_bans_def list_ex_iff cong: map_cong)

lemma lifted_change:
  assumes "bans_ok db" and f: "f = (\<lambda>r. (change_row ch r)\<lparr>bn_actor_pubkey := ev_pubkey e, bn_updated_at := me_now env\<rparr>)"
    and p: "p = (\<lambda>r. ban_at (me_community env) pk r \<and> q r)"
  shows "if list_ex p (md_bans db)
    then ban_changed env e pk ch db (change_bans p f db) \<and> md_actions (change_bans p f db) = md_actions db
    else change_bans p f db = db"
proof (cases "list_ex p (md_bans db)")
  case True
  then obtain r where r: "ban_of db (me_community env) pk = Some r" "q r" using list_ex_ban [OF assms(1)] p by auto
  have "keeps_key f" using keeps_key_change [of ch] by (simp add: f keeps_key_def)
  from ban_of_change [OF this, of "me_community env" pk q db] bans_ok_change [OF this assms(1), of p] r True show ?thesis
    unfolding ban_changed_def p by (auto simp: f change_bans_def)
next
  case False
  then show ?thesis by (simp add: change_bans_none)
qed

lemma lift_ban:
  assumes "bans_ok db" and "unban_member (me_now env) db (me_community env) pk (ev_pubkey e) = (lifted, db')"
  shows "if lifted then ban_changed env e pk LiftBan db db' \<and> md_actions db' = md_actions db else db' = db"
  using assms(2) lifted_change [OF assms(1) refl refl, where ch = LiftBan and e = e and env = env and pk = pk and q = bn_banned]
  by (auto simp: unban_member_def Let_def)

lemma lift_mute:
  assumes "bans_ok db" and "untimeout_member (me_now env) db (me_community env) pk (ev_pubkey e) = (lifted, db')"
  shows "if lifted then ban_changed env e pk LiftMute db db' \<and> md_actions db' = md_actions db else db' = db"
  using assms(2) lifted_change [OF assms(1) refl refl, where ch = LiftMute and e = e and env = env and pk = pk and q = "muted_at (me_now env)"]
  by (auto simp: untimeout_member_def Let_def)

lemma change_row_set:
  "change_row (SetBan expires reason) = (\<lambda>r. r\<lparr>bn_banned := True, bn_ban_expires_at := expires, bn_ban_reason := reason\<rparr>)"
  "change_row (SetMute until reason) = (\<lambda>r. r\<lparr>bn_muted_until := Some until, bn_mute_reason := reason\<rparr>)"
  by (rule ext, simp)+

lemma ban_outcome:
  assumes "handle_ban env e (ev_pubkey e) s = (r, s')"
  shows "no_effect r (ms_db s) (ms_db s') \<or>
    (\<exists>expires. extract_expiration env e = Inr expires \<and>
       carried_out env e (SetBan expires (extract_tag_value e ''reason'')) r (ms_db s) (ms_db s'))"
  using assms unfolding handle_ban_def Let_def
proof (cases rule: command_target_pair)
  case (Target pk)
  from Target(2) show ?thesis
  proof (cases rule: gate_pair)
    case (Passed expires)
    let ?ch = "SetBan expires (extract_tag_value e ''reason'')"
    have "no_effect r (ms_db s) (ms_db s') \<or> carried_out env e ?ch r (ms_db s) (ms_db s')"
    proof (rule restrict_member [OF Passed(2) [folded change_action.simps(1) [of expires "extract_tag_value e ''reason''"]] Target(1)], goal_cases)
      case (1 s1)
      then show ?case
        using ban_changed_upsert [of env e pk ?ch "ms_db s"] audits_then [of env e ?ch pk _ s1 r s', OF _ only_sendsI(2)]
        by (simp add: ban_member_def upsert_ban_rest change_row_set)
    qed
    with Passed(1) show ?thesis by blast
  qed simp
qed simp

lemma timeout_outcome:
  assumes "handle_timeout env e (ev_pubkey e) s = (r, s')"
  shows "no_effect r (ms_db s) (ms_db s') \<or>
    (\<exists>until. extract_expiration env e = Inr (Some until) \<and>
       carried_out env e (SetMute until (extract_tag_value e ''reason'')) r (ms_db s) (ms_db s'))"
  using assms unfolding handle_timeout_def Let_def
proof (cases rule: command_target_pair)
  case (Target pk)
  from Target(2) show ?thesis
  proof (cases rule: gate_pair)
    case (Passed expires)
    from Passed(2) show ?thesis
    proof (cases rule: gate_pair)
      case (Passed until)
      let ?ch = "SetMute until (extract_tag_value e ''reason'')"
      have "no_effect r (ms_db s) (ms_db s') \<or> carried_out env e ?ch r (ms_db s) (ms_db s')"
      proof (rule restrict_member [OF Passed(2) [folded change_action.simps(3) [of until "extract_tag_value e ''reason''"]] Target(1)], goal_cases)
        case (1 s1)
        then show ?case
          using ban_changed_upsert [of env e pk ?ch "ms_db s"] audits_then [of env e ?ch pk _ s1 r s', OF _ only_sendsI(1)]
          by (simp add: timeout_member_def upsert_ban_rest change_row_set)
      qed
      with Passed(1) \<open>extract_expiration env e = Inr expires\<close> show ?thesis by (cases expires) auto
    qed simp
  qed simp
qed simp

lemma unban_outcome:
  assumes "bans_ok (ms_db s)" and "handle_unban env e (ev_pubkey e) s = (r, s')"
  shows "no_effect r (ms_db s) (ms_db s') \<or> carried_out env e LiftBan r (ms_db s) (ms_db s')"
  using assms(2) unfolding handle_unban_def
proof (cases rule: command_target_pair)
  case (Target pk)
  show ?thesis
  proof (rule restrict_member [OF Target(2) [folded change_action.simps(2)] Target(1)], goal_cases)
    case (1 s1)
    obtain lifted db' where w: "unban_member (me_now env) (ms_db s) (me_community env) pk (ev_pubkey e) = (lifted, db')" by fastforce
    show ?case
      using 1 lift_ban [OF assms(1) w] audits_then [of env e LiftBan pk _ s1 r s', OF _ only_sendsI(3)]
      by (cases lifted) (auto simp: w no_effect_def)
  qed
qed simp

lemma untimeout_outcome:
  assumes "bans_ok (ms_db s)" and "handle_untimeout env e (ev_pubkey e) s = (r, s')"
  shows "no_effect r (ms_db s) (ms_db s') \<or> carried_out env e LiftMute r (ms_db s) (ms_db s')"
  using assms(2) unfolding handle_untimeout_def
proof (cases rule: command_target_pair)
  case (Target pk)
  show ?thesis
  proof (rule restrict_member [OF Target(2) [folded change_action.simps(4)] Target(1)], goal_cases)
    case (1 s1)
    obtain lifted db' where w: "untimeout_member (me_now env) (ms_db s) (me_community env) pk (ev_pubkey e) = (lifted, db')" by fastforce
    show ?case
      using 1 lift_mute [OF assms(1) w] audits_then [of env e LiftMute pk _ s1 r s', OF _ only_sendsI(3)]
      by (cases lifted) (auto simp: w no_effect_def)
  qed
qed simp


section \<open>Whole commands\<close>

lemma read_gate_pair:
  assumes "mo_bind (mo_read env call what f) g s = (r, s')"
  obtains (Stopped) "no_effect r (ms_db s) (ms_db s')" | (Passed) x where "f (ms_db s) = Inr x" "g x s = (r, s')"
  using assms
  by (cases "me_fails env call"; cases "f (ms_db s)") (auto simp: mo_read_def mo_bind_def no_effect_def)

definition admitted :: "mod_env \<Rightarrow> event \<Rightarrow> moderation_db \<Rightarrow> bool" where
  "admitted env e db \<longleftrightarrow>
     \<not> re_banned (db_restriction_state (me_now env) db (me_community env) (ev_pubkey e)) \<and> check_skew (me_now_secs env) e = Inr ()"

lemma admit_pair:
  assumes "mo_bind (admit_command env e) f s = (r, s')"
  obtains (Stopped) "no_effect r (ms_db s) (ms_db s')" | (Passed) "admitted env e (ms_db s)" "f () s = (r, s')"
proof -
  obtain r1 s1 where adm: "admit_command env e s = (r1, s1)" by fastforce
  have s1: "s1 = s" and ok: "r1 = Inr () \<Longrightarrow> admitted env e (ms_db s)"
    using adm by (auto simp: admit_command_def mo_pairs ensure_actor_not_banned_def admitted_def map_err_Inr split: option.splits)
  show ?thesis
  proof (cases r1)
    case (Inl err)
    with adm assms s1 show ?thesis by (auto simp: mo_bind_def no_effect_def intro: Stopped)
  next
    case (Inr u)
    with adm assms s1 ok show ?thesis by (auto simp: mo_bind_def intro: Passed)
  qed
qed

lemma command_outcome:
  assumes "bans_ok (ms_db s)" and "run_moderation_command env e s = (r, s')"
  obtains (Nothing) "no_effect r (ms_db s) (ms_db s')"
  | (Change) ch where "admitted env e (ms_db s)" "asked_change env e = Some ch" "carried_out env e ch r (ms_db s) (ms_db s')"
  | (Resolve) "admitted env e (ms_db s)" "event_kind_u32 e = KIND_MODERATION_RESOLVE_REPORT" "handle_resolve env e (ev_pubkey e) s = (r, s')"
  using assms(2) unfolding run_moderation_command_def Let_def
proof (cases rule: admit_pair)
  case Stopped
  then show ?thesis by (rule Nothing)
next
  case Passed
  consider "event_kind_u32 e = KIND_MODERATION_BAN" "handle_ban env e (ev_pubkey e) s = (r, s')"
    | "event_kind_u32 e \<noteq> KIND_MODERATION_BAN" "event_kind_u32 e = KIND_MODERATION_UNBAN" "handle_unban env e (ev_pubkey e) s = (r, s')"
    | "event_kind_u32 e \<noteq> KIND_MODERATION_BAN" "event_kind_u32 e \<noteq> KIND_MODERATION_UNBAN"
        "event_kind_u32 e = KIND_MODERATION_TIMEOUT" "handle_timeout env e (ev_pubkey e) s = (r, s')"
    | "event_kind_u32 e \<noteq> KIND_MODERATION_BAN" "event_kind_u32 e \<noteq> KIND_MODERATION_UNBAN" "event_kind_u32 e \<noteq> KIND_MODERATION_TIMEOUT"
        "event_kind_u32 e = KIND_MODERATION_UNTIMEOUT" "handle_untimeout env e (ev_pubkey e) s = (r, s')"
    | "event_kind_u32 e = KIND_MODERATION_RESOLVE_REPORT" "handle_resolve env e (ev_pubkey e) s = (r, s')"
    | "no_effect r (ms_db s) (ms_db s')"
    using Passed(2) by (auto simp: mo_gate_pair no_effect_def split: if_splits)
  then show ?thesis
  proof cases
    case 1
    from ban_outcome [OF 1(2)] show ?thesis using Passed(1) 1(1) Nothing Change by (auto simp: asked_change_def)
  next
    case 2
    from unban_outcome [OF assms(1) 2(3)] show ?thesis using Passed(1) 2 Nothing Change by (auto simp: asked_change_def)
  next
    case 3
    from timeout_outcome [OF 3(4)] show ?thesis using Passed(1) 3 Nothing Change by (auto simp: asked_change_def)
  next
    case 4
    from untimeout_outcome [OF assms(1) 4(5)] show ?thesis using Passed(1) 4 Nothing Change by (auto simp: asked_change_def)
  next
    case 5
    then show ?thesis using Passed(1) Resolve by blast
  qed (rule Nothing)
qed

section \<open>Resolving a report\<close>

definition resolution_row :: "uuid \<Rightarrow> string \<Rightarrow> resolution \<Rightarrow> action_row \<Rightarrow> bool" where
  "resolution_row c m res a \<longleftrightarrow>
     at_community_id a = c \<and> ac_id (at_record a) = rs_action_id res \<and> na_actor_pubkey (ac_fields (at_record a)) = m \<and>
     (rs_status res = ''resolved'' \<or> rs_status res = ''dismissed'') \<and>
     (na_action (ac_fields (at_record a)) = ''dismiss_report'' \<longleftrightarrow> rs_status res = ''dismissed'')"

lemma resolution_name:
  "check_resolution status act = Inr () \<Longrightarrow>
     (status = ''resolved'' \<or> status = ''dismissed'') \<and> (resolution_audit_action act = ''dismiss_report'' \<longleftrightarrow> status = ''dismissed'')"
  by (auto simp: check_resolution_def and_then_Inr RESOLVE_ACTIONS_def resolution_audit_action_def)

definition begun :: "mod_env \<Rightarrow> string \<Rightarrow> moderation_db \<Rightarrow> resolution \<Rightarrow> moderation_db \<Rightarrow> bool" where
  "begun env m db res db' \<longleftrightarrow>
     (\<exists>a. db' = db\<lparr>md_actions := md_actions db @ [a]\<rparr> \<and> resolution_row (me_community env) m res a) \<and>
     (relay_role env m = Some ''owner'' \<or> relay_role env m = Some ''admin'') \<and>
     (\<forall>a \<in> set (md_actions db). at_community_id a = me_community env \<longrightarrow> ac_id (at_record a) \<noteq> rs_action_id res)"

lemma resolve_audit_outcome:
  assumes "mo_bind (insert_audit env m (resolution_audit_action act) tp te reason)
      (\<lambda>i. mo_gate (Inr \<lparr>rs_report = report, rs_status = status, rs_reason = reason, rs_action_id = i\<rparr>)) s = (r, s1)"
    and status: "check_resolution status act = Inr u" and role: "relay_role env m = Some ''owner'' \<or> relay_role env m = Some ''admin''"
  shows "no_effect r (ms_db s) (ms_db s1) \<or> (\<exists>res. r = Inr res \<and> begun env m (ms_db s) res (ms_db s1))"
proof -
  obtain ra s2 where audit: "insert_audit env m (resolution_audit_action act) tp te reason s = (ra, s2)" by fastforce
  from audit show ?thesis
  proof (cases rule: insert_audit_pair)
    case (Failed err)
    with assms(1) audit show ?thesis by (auto simp: mo_bind_def no_effect_def)
  next
    case Written
    let ?res = "\<lparr>rs_report = report, rs_status = status, rs_reason = reason, rs_action_id = me_new_id env\<rparr>"
    have "resolution_row (me_community env) m ?res (action_row_of env m (resolution_audit_action act) tp te reason)"
      using resolution_name [of status act] status by (simp add: resolution_row_def action_row_of_def)
    with Written role have "begun env m (ms_db s) ?res (ms_db s2)" by (auto simp: begun_def)
    moreover have "r = Inr ?res" "s1 = s2" using assms(1) audit Written(1) by (simp_all add: mo_bind_def mo_gate_def)
    ultimately show ?thesis by blast
  qed
qed

lemma resolver_role:
  "map_err authz_denial (authorize_moderation_action env m None (TargetEvent i) ResolveReport) = Inr a \<Longrightarrow>
   relay_role env m = Some ''owner'' \<or> relay_role env m = Some ''admin''"
  using authorized_on_event by (auto simp: map_err_Inr)

lemma resolve_begin_outcome:
  assumes "resolve_begin env e m s = (r, s1)"
  shows "no_effect r (ms_db s) (ms_db s1) \<or> (\<exists>res. r = Inr res \<and> begun env m (ms_db s) res (ms_db s1))"
  using assms unfolding resolve_begin_def Let_def authorized_def
  by (elim gate_pair read_gate_pair) (blast | rule resolve_audit_outcome, assumption, assumption, erule resolver_role)+

lemma resolve_finish_outcome:
  assumes "resolve_finish env m res s = (r, s')"
  shows "no_effect r (ms_db s) (ms_db s') \<or>
    r = Inr () \<and> resolve_report (me_now env) (ms_db s) (me_community env) (rr_id (rs_report res)) (rs_status res) m (Some (rs_action_id res)) = Inr (True, ms_db s')"
proof -
  let ?u = "resolve_report (me_now env) (ms_db s) (me_community env) (rr_id (rs_report res)) (rs_status res) m (Some (rs_action_id res))"
  have same: "?u = Inr (False, db) \<Longrightarrow> db = ms_db s" for db
    by (auto simp: resolve_report_def Let_def split: if_splits)
  obtain rw s1 where w: "mo_write env CallResolve ''database error: '' (\<lambda>db.
      resolve_report (me_now env) db (me_community env) (rr_id (rs_report res)) (rs_status res) m (Some (rs_action_id res))) s = (rw, s1)"
    by fastforce
  show ?thesis
  proof (cases rw)
    case (Inl err)
    then have "s1 = s" using w by (auto simp: mo_write_pair)
    moreover have "r = Inl err" "s' = s1" using assms w Inl by (simp_all add: resolve_finish_def mo_bind_def)
    ultimately show ?thesis by (simp add: no_effect_def)
  next
    case (Inr resolved)
    with w have u: "?u = Inr (resolved, ms_db s1)" by (auto simp: mo_write_pair)
    from assms w Inr have "mo_bind (mo_gate (check resolved NOT_OPEN)) (\<lambda>_. mo_send (SendNotice (rr_reporter_pubkey (rs_report res))
        (ReportResolved (rr_id (rs_report res)) (rs_status res)
       (unwrap_or (if rs_status res = ''dismissed'' then ''Your report was reviewed and dismissed.''
                   else ''Your report was reviewed and acted on.'') (rs_reason res))))) s1 = (r, s')"
      by (simp add: resolve_finish_def mo_bind_def)
    then show ?thesis
      using u same by (cases resolved) (auto simp: mo_send_pair no_effect_def)
  qed
qed

text \<open>What the second half of a resolution does to the tables.\<close>

definition close_row :: "int \<Rightarrow> uuid \<Rightarrow> string \<Rightarrow> resolution \<Rightarrow> report_row \<Rightarrow> report_row" where
  "close_row at c m res r =
     (if report_at c (rr_id (rs_report res)) r \<and> mr_status r = ''open''
      then r\<lparr>mr_status := rs_status res, mr_resolved_by := Some m, mr_resolved_at := Some at, mr_action_id := Some (rs_action_id res)\<rparr>
      else r)"

definition closes :: "uuid \<Rightarrow> string \<Rightarrow> resolution \<Rightarrow> moderation_db \<Rightarrow> moderation_db \<Rightarrow> bool" where
  "closes c m res db db' \<longleftrightarrow> (\<exists>at. db' = db\<lparr>md_reports := map (close_row at c m res) (md_reports db)\<rparr>)"

lemma resolve_report_closes:
  "resolve_report now db c (rr_id (rs_report res)) (rs_status res) m (Some (rs_action_id res)) = Inr (True, db') \<Longrightarrow> closes c m res db db'"
  unfolding closes_def
  by (rule exI [of _ now]) (auto simp: resolve_report_def close_row_def [abs_def] Let_def split: if_splits)

lemma resolve_finish_closes:
  assumes "resolve_finish env m res s = (r, s')"
  shows "ms_db s' = ms_db s \<or> closes (me_community env) m res (ms_db s) (ms_db s')"
  using resolve_finish_outcome [OF assms] resolve_report_closes by (auto simp: no_effect_def)

lemma resolve_outcome:
  assumes "handle_resolve env e m s = (r, s')"
  shows "no_effect r (ms_db s) (ms_db s') \<or>
    (\<exists>res db1. begun env m (ms_db s) res db1 \<and> (ms_db s' = db1 \<or> closes (me_community env) m res db1 (ms_db s')))"
proof -
  obtain rb s1 where b: "resolve_begin env e m s = (rb, s1)" by fastforce
  from resolve_begin_outcome [OF b] show ?thesis
  proof
    assume "no_effect rb (ms_db s) (ms_db s1)"
    with assms b show ?thesis by (auto simp: handle_resolve_def mo_bind_def no_effect_def)
  next
    assume "\<exists>res. rb = Inr res \<and> begun env m (ms_db s) res (ms_db s1)"
    then obtain res where res: "rb = Inr res" "begun env m (ms_db s) res (ms_db s1)" by blast
    with assms b have "resolve_finish env m res s1 = (r, s')" by (simp add: handle_resolve_def mo_bind_def)
    from resolve_finish_closes [OF this] res(2) show ?thesis by blast
  qed
qed

section \<open>Who may restrict whom\<close>

text \<open>
  C38. Whenever a moderation command changes the tables, its sender is not banned from the community of the request, its
  timestamp is fresh, and the sender is an owner or admin there. A restriction it changes is that of the member the
  event names, in that community, and an admin never bans or times out an owner or a fellow admin.
\<close>

theorem moderation_authority:
  assumes "bans_ok (ms_db s)" and "run_moderation_command env e s = (r, s')" and "ms_db s' \<noteq> ms_db s"
  shows "admitted env e (ms_db s) \<and>
    (relay_role env (ev_pubkey e) = Some ''owner'' \<or> relay_role env (ev_pubkey e) = Some ''admin'') \<and>
    (\<forall>c pk. ban_of (ms_db s') c pk \<noteq> ban_of (ms_db s) c pk \<longrightarrow>
       c = me_community env \<and> extract_p_tag_bytes e = Some pk \<and>
       (\<exists>ch. asked_change env e = Some ch \<and> moderator_may (relay_role env (ev_pubkey e)) (relay_role env pk) (change_action ch)))"
  using assms(1,2)
proof (cases rule: command_outcome)
  case Nothing
  with assms(3) show ?thesis by (simp add: no_effect_def)
next
  case (Change ch)
  then obtain pk where pk: "extract_p_tag_bytes e = Some pk" "moderator_may (relay_role env (ev_pubkey e)) (relay_role env pk) (change_action ch)"
    "ban_changed env e pk ch (ms_db s) (ms_db s')"
    by (auto simp: carried_out_def)
  then have "c = me_community env \<and> k = pk" if "ban_of (ms_db s') c k \<noteq> ban_of (ms_db s) c k" for c k
    using that by (auto simp: ban_changed_def)
  with Change pk show ?thesis by (auto simp: moderator_may_def)
next
  case Resolve
  with assms(3) resolve_outcome have "md_bans (ms_db s') = md_bans (ms_db s)"
      "relay_role env (ev_pubkey e) = Some ''owner'' \<or> relay_role env (ev_pubkey e) = Some ''admin''"
    by (fastforce simp: no_effect_def begun_def closes_def)+
  then show ?thesis using Resolve(1) by (simp add: ban_of_def)
qed

section \<open>What a command does to a member\<close>

fun restriction_after :: "restriction_change \<Rightarrow> int \<Rightarrow> restriction_state \<Rightarrow> restriction_state" where
  "restriction_after (SetBan expires _) t st = st\<lparr>re_banned := (case expires of None \<Rightarrow> True | Some x \<Rightarrow> x > t)\<rparr>"
| "restriction_after LiftBan t st = st\<lparr>re_banned := False\<rparr>"
| "restriction_after (SetMute until _) t st = st\<lparr>re_muted_until := (if until > t then Some until else None)\<rparr>"
| "restriction_after LiftMute t st = st\<lparr>re_muted_until := None\<rparr>"

lemma changed_restriction:
  assumes "ban_changed env e pk ch db db'"
  shows "db_restriction_state t db' (me_community env) pk = restriction_after ch t (db_restriction_state t db (me_community env) pk)"
proof -
  obtain r where r: "ban_of db (me_community env) pk = Some r \<or> ban_of db (me_community env) pk = None \<and> r = new_ban (me_now env) (me_community env) pk (ev_pubkey e)"
    and r': "ban_of db' (me_community env) pk = Some ((change_row ch r)\<lparr>bn_actor_pubkey := ev_pubkey e, bn_updated_at := me_now env\<rparr>)"
    using assms by (auto simp: ban_changed_def)
  have old: "db_restriction_state t db (me_community env) pk =
      \<lparr>re_banned = banned_at t r, re_muted_until = (if muted_at t r then bn_muted_until r else None)\<rparr>"
    using r by (auto simp: restriction_ban_of new_ban_def banned_at_def muted_at_def)
  show ?thesis
    unfolding old by (cases ch) (simp_all add: restriction_ban_of r' banned_at_def muted_at_def split: option.split)
qed

text \<open>
  C39. A ban, unban, time-out or lift that succeeds changes the restriction of its target as it says, at every later
  time: a ban holds until it expires or for good, a time-out until its end, and the other of the two stays as it
  was. Nobody else's restriction changes, and one audit row is added that names the moderator, the action and the target.
\<close>

theorem moderation_command_effect:
  assumes "bans_ok (ms_db s)" and "run_moderation_command env e s = (Inr (), s')"
    and "asked_change env e = Some ch" and "extract_p_tag_bytes e = Some pk"
  shows "db_restriction_state t (ms_db s') c k =
      (if (c, k) = (me_community env, pk) then restriction_after ch t (db_restriction_state t (ms_db s) c k) else db_restriction_state t (ms_db s) c k) \<and>
    md_actions (ms_db s') = md_actions (ms_db s) @ [action_row_of env (ev_pubkey e) (change_name ch) (Some pk) None (change_reason ch)]"
  using assms(1,2)
proof (cases rule: command_outcome)
  case Nothing
  then show ?thesis by (simp add: no_effect_def)
next
  case (Change ch')
  with assms(3,4) have ch: "ban_changed env e pk ch (ms_db s) (ms_db s')"
      "md_actions (ms_db s') = md_actions (ms_db s) @ [action_row_of env (ev_pubkey e) (change_name ch) (Some pk) None (change_reason ch)]"
    by (auto simp: carried_out_def)
  have "db_restriction_state t (ms_db s') c k = db_restriction_state t (ms_db s) c k" if "(c, k) \<noteq> (me_community env, pk)"
  proof -
    have "ban_of (ms_db s') c k = ban_of (ms_db s) c k" using ch(1) that unfolding ban_changed_def by blast
    then show ?thesis by (simp add: restriction_ban_of)
  qed
  with ch changed_restriction [OF ch(1)] show ?thesis by auto
next
  case Resolve
  have "asked_change env e = None" unfolding asked_change_def Resolve(2) Let_def by (simp, code_simp)
  with assms(3) show ?thesis by simp
qed

section \<open>A ban\<close>

definition sample_ban_event :: event where
  "sample_ban_event =
     \<lparr>ev_id = ''e2'', ev_pubkey = ''owner-key'', ev_created_at = 1000, ev_kind = 9040, ev_tags = [[''p'', sample_key]], ev_content = []\<rparr>"

definition sample_mod_env :: mod_env where
  "sample_mod_env =
     \<lparr>me_community = ''c1'', me_now_secs = 1000, me_now = 7, me_roster = sample_founded, me_channel_role = (\<lambda>_ _. None),
      me_timestamp = Some, me_new_id = ''a1'', me_event_by_id = (\<lambda>_ _. Inr None), me_sidecar = (\<lambda>_. Inr ()),
      me_error_text = (\<lambda>_. []), me_fails = (\<lambda>_. None)\<rparr>"

definition sample_mod_state :: mod_state where
  "sample_mod_state = \<lparr>ms_db = \<lparr>md_reports = [], md_bans = [], md_actions = []\<rparr>, ms_sent = []\<rparr>"

definition sample_banned :: mod_state where
  "sample_banned = snd (run_moderation_command sample_mod_env sample_ban_event sample_mod_state)"

lemma sample_ban_run: "run_moderation_command sample_mod_env sample_ban_event sample_mod_state = (Inr (), sample_banned)"
proof -
  have "fst (run_moderation_command sample_mod_env sample_ban_event sample_mod_state) = Inr ()" by code_simp
  then show ?thesis by (simp add: sample_banned_def prod_eq_iff)
qed

lemma sample_ban_asked:
  "asked_change sample_mod_env sample_ban_event = Some (SetBan None None)" "extract_p_tag_bytes sample_ban_event = Some sample_key"
  "bans_ok (ms_db sample_mod_state)"
  by (code_simp, code_simp, simp add: bans_ok_def sample_mod_state_def)

lemma moderation_authority_witness:
  "ms_db sample_banned \<noteq> ms_db sample_mod_state \<and> admitted sample_mod_env sample_ban_event (ms_db sample_mod_state) \<and>
   relay_role sample_mod_env ''owner-key'' = Some ''owner''"
proof -
  have changed: "ms_db sample_banned \<noteq> ms_db sample_mod_state" by code_simp
  moreover have "relay_role sample_mod_env ''owner-key'' = Some ''owner''" by code_simp
  ultimately show ?thesis
    using moderation_authority [OF sample_ban_asked(3) sample_ban_run changed] by (simp add: sample_ban_event_def)
qed

lemma moderation_command_effect_witness:
  "db_restriction_state 1000 (ms_db sample_banned) ''c1'' sample_key = \<lparr>re_banned = True, re_muted_until = None\<rparr> \<and>
   length (md_actions (ms_db sample_banned)) = 1"
proof -
  have "me_community sample_mod_env = ''c1''" "db_restriction_state 1000 (ms_db sample_mod_state) ''c1'' sample_key = \<lparr>re_banned = False, re_muted_until = None\<rparr>"
      "md_actions (ms_db sample_mod_state) = []"
    by (simp_all add: sample_mod_env_def sample_mod_state_def db_restriction_state_def)
  with moderation_command_effect [OF sample_ban_asked(3) sample_ban_run sample_ban_asked(1,2), of 1000 "''c1''" sample_key]
  show ?thesis by simp
qed

section \<open>What the comments leave out\<close>

text \<open>
  The audit row of a ban is written after the ban. When that write fails, the command reports an error, but the
  ban stays, without an audit row, and the sessions of the member are not closed.
\<close>

lemma ban_without_audit:
  assumes "extract_p_tag_bytes e = Some pk" and "extract_expiration env e = Inr expires"
    and "authorize_moderation_action env m None (TargetPubkey pk) Ban = Inr a"
    and "me_fails env CallBan = None" and "me_fails env CallAudit = Some err"
  shows "handle_ban env e m s =
    (Inl (cmd_error (''failed to write audit row: '' @ err)),
     s\<lparr>ms_db := ban_member (me_now env) (ms_db s) (me_community env) pk m (extract_tag_value e ''reason'') expires\<rparr>)"
  using assms
  by (simp add: handle_ban_def command_target_def authorized_def insert_audit_def Let_def map_err_def mo_bind_def mo_gate_def mo_write_def)

text \<open>A token that is bound to channels is admitted for a moderation command like one that is not.\<close>

lemma moderation_token_unbound:
  assumes "is_moderation_command_kind (event_kind_u32 e)"
  shows "admit env e (Nip42 pk scopes (Some chs) conn) = admit env e (Nip42 pk scopes None conn)"
proof -
  have "\<not> is_relay_admin_kind (event_kind_u32 e)" "event_kind_u32 e \<noteq> KIND_NIP43_LEAVE_REQUEST"
    using assms unfolding is_moderation_command_kind_def by (auto simp: is_relay_admin_kind_def kind_consts)
  then show ?thesis by (simp add: admit_def check_scope_def Let_def)
qed

end
