(* ===== verification/Moderation_History.thy ===== *)
theory Moderation_History
  imports Moderation_Laws Ingest_Authority
begin

text \<open>
  Moderation over time: the audit trail of the reports while the commands of several moderators interleave, and
  the force of a ban on the write pipeline.
\<close>

section \<open>The audit trail of the reports\<close>

text \<open>
  Commands of several moderators interleave: a resolution that has read its report and written its audit row is
  pending, with its community and its moderator, until it closes the report.
\<close>

type_synonym moderation_world = "moderation_db \<times> (uuid \<times> string \<times> resolution) list"

inductive mod_move :: "moderation_world \<Rightarrow> moderation_world \<Rightarrow> bool" where
  Command: "run_moderation_command env e s = (r, s') \<Longrightarrow> mod_move (ms_db s, ps) (ms_db s', ps)"
| File_report: "run_report env e s = (r, s') \<Longrightarrow> mod_move (ms_db s, ps) (ms_db s', ps)"
| Begin: "admit_command env e s = (Inr (), s) \<Longrightarrow> resolve_begin env e (ev_pubkey e) s = (Inr res, s') \<Longrightarrow>
    mod_move (ms_db s, ps) (ms_db s', (me_community env, ev_pubkey e, res) # ps)"
| Finish: "(me_community env, m, res) \<in> set ps \<Longrightarrow> resolve_finish env m res s = (r, s') \<Longrightarrow>
    mod_move (ms_db s, ps) (ms_db s', remove1 (me_community env, m, res) ps)"

definition moderation_empty :: moderation_db where
  "moderation_empty = \<lparr>md_reports = [], md_bans = [], md_actions = []\<rparr>"

text \<open>A closed report points to the audit row of its closing.\<close>

definition report_sound :: "moderation_db \<Rightarrow> report_row \<Rightarrow> bool" where
  "report_sound db r \<longleftrightarrow>
     (if mr_status r = ''open'' then mr_resolved_by r = None \<and> mr_resolved_at r = None \<and> mr_action_id r = None
      else mr_status r \<in> {''resolved'', ''dismissed''} \<and>
        (\<exists>a \<in> set (md_actions db). at_community_id a = mr_community_id r \<and> mr_action_id r = Some (ac_id (at_record a)) \<and>
           mr_resolved_by r = Some (na_actor_pubkey (ac_fields (at_record a))) \<and>
           (na_action (ac_fields (at_record a)) = ''dismiss_report'' \<longleftrightarrow> mr_status r = ''dismissed'')))"

definition action_ids_ok :: "moderation_db \<Rightarrow> bool" where
  "action_ids_ok db \<longleftrightarrow> distinct (map (\<lambda>a. (at_community_id a, ac_id (at_record a))) (md_actions db))"

definition world_ok :: "moderation_world \<Rightarrow> bool" where
  "world_ok w \<longleftrightarrow> bans_ok (fst w) \<and> action_ids_ok (fst w) \<and> (\<forall>r \<in> set (md_reports (fst w)). report_sound (fst w) r) \<and>
     (\<forall>(c, m, res) \<in> set (snd w). \<exists>a \<in> set (md_actions (fst w)). resolution_row c m res a)"

text \<open>What later moves keep: audit rows are only added, and a closed report stays as it is.\<close>

definition world_kept :: "moderation_db \<Rightarrow> moderation_db \<Rightarrow> bool" where
  "world_kept db db' \<longleftrightarrow>
     (\<exists>as. md_actions db' = md_actions db @ as) \<and> (\<forall>r \<in> set (md_reports db). mr_status r \<noteq> ''open'' \<longrightarrow> r \<in> set (md_reports db'))"

lemma world_kept_refl [simp]: "world_kept db db"
  by (simp add: world_kept_def)

lemma world_kept_trans: "world_kept db db1 \<Longrightarrow> world_kept db1 db2 \<Longrightarrow> world_kept db db2"
  unfolding world_kept_def by fastforce

lemma report_sound_mono: "report_sound db r \<Longrightarrow> set (md_actions db) \<subseteq> set (md_actions db') \<Longrightarrow> report_sound db' r"
  unfolding report_sound_def by (auto split: if_splits)

lemma begun_ok:
  assumes "world_ok (db, ps)" and "begun env m db res db'"
  shows "world_ok (db', (me_community env, m, res) # ps) \<and> world_kept db db'"
proof -
  obtain a where a: "db' = db\<lparr>md_actions := md_actions db @ [a]\<rparr>" "resolution_row (me_community env) m res a"
    and fresh: "\<forall>a \<in> set (md_actions db). at_community_id a = me_community env \<longrightarrow> ac_id (at_record a) \<noteq> rs_action_id res"
    using assms(2) by (auto simp: begun_def)
  have "report_sound db' r" if "r \<in> set (md_reports db)" for r
    using that assms(1) report_sound_mono [of db r db'] a(1) by (auto simp: world_ok_def)
  moreover have "action_ids_ok db'"
    using assms(1) fresh a by (auto simp: world_ok_def action_ids_ok_def resolution_row_def)
  ultimately show ?thesis
    using assms(1) a by (auto simp: world_ok_def world_kept_def bans_ok_def)
qed

lemma closes_ok:
  assumes "world_ok (db, ps)" and "closes c m res db db'" and "a \<in> set (md_actions db)" "resolution_row c m res a"
  shows "world_ok (db', ps) \<and> world_kept db db'"
proof -
  obtain at where db': "db' = db\<lparr>md_reports := map (close_row at c m res) (md_reports db)\<rparr>" using assms(2) by (auto simp: closes_def)
  have "report_sound db' (close_row at c m res r)" if "r \<in> set (md_reports db)" for r
  proof (cases "report_at c (rr_id (rs_report res)) r \<and> mr_status r = ''open''")
    case True
    then show ?thesis
      using assms(3,4) by (auto simp: close_row_def report_sound_def db' report_at_def resolution_row_def)
  next
    case False
    moreover have "report_sound db r" using that assms(1) by (simp add: world_ok_def)
    ultimately show ?thesis by (auto simp: close_row_def db' intro: report_sound_mono)
  qed
  moreover have "r \<in> set (md_reports db')" if "r \<in> set (md_reports db)" "mr_status r \<noteq> ''open''" for r
    using that by (auto simp: db' close_row_def image_iff)
  ultimately show ?thesis
    using assms(1) by (auto simp: world_ok_def world_kept_def bans_ok_def action_ids_ok_def db')
qed

lemma carried_out_ok:
  assumes "world_ok (db, ps)" and "carried_out env e ch r db db'"
  shows "world_ok (db', ps) \<and> world_kept db db'"
proof -
  obtain pk where ch: "md_reports db' = md_reports db" "bans_ok db'"
    and act: "md_actions db' = md_actions db \<or>
      md_actions db' = md_actions db @ [action_row_of env (ev_pubkey e) (change_name ch) (Some pk) None (change_reason ch)] \<and>
      (\<forall>a \<in> set (md_actions db). at_community_id a = me_community env \<longrightarrow> ac_id (at_record a) \<noteq> me_new_id env)"
    using assms by (auto simp: carried_out_def ban_changed_def world_ok_def split: if_splits)
  have sub: "set (md_actions db) \<subseteq> set (md_actions db')" using act by auto
  have "action_ids_ok db'"
    using act
  proof (elim disjE conjE)
    assume "md_actions db' = md_actions db @ [action_row_of env (ev_pubkey e) (change_name ch) (Some pk) None (change_reason ch)]"
      and "\<forall>a \<in> set (md_actions db). at_community_id a = me_community env \<longrightarrow> ac_id (at_record a) \<noteq> me_new_id env"
    moreover from this(2) have "(me_community env, me_new_id env) \<notin> (\<lambda>a. (at_community_id a, ac_id (at_record a))) ` set (md_actions db)"
      by (auto simp: image_iff)
    ultimately show ?thesis using assms(1) by (simp add: world_ok_def action_ids_ok_def action_row_of_def)
  qed (use assms(1) in \<open>simp add: world_ok_def action_ids_ok_def\<close>)
  moreover have "report_sound db' r" if "r \<in> set (md_reports db)" for r
    using that assms(1) report_sound_mono [OF _ sub] by (simp add: world_ok_def)
  ultimately show ?thesis
    using assms(1) ch sub act by (fastforce simp: world_ok_def world_kept_def)
qed

lemma insert_report_rows:
  assumes "insert_report new_id now db c report = Inr (i, db')"
  shows "db' = db \<or> (\<exists>row. db' = db\<lparr>md_reports := md_reports db @ [row]\<rparr> \<and> mr_status row = ''open'' \<and> mr_resolved_by row = None \<and>
    mr_resolved_at row = None \<and> mr_action_id row = None)"
proof (cases "db' = db")
  case False
  obtain k ei pk sha where cols: "target_columns (nr_target report) = (k, ei, pk, sha)" by (metis prod_cases4)
  from False assms cols show ?thesis
    by (cases "find (report_of c (nr_report_event_id report)) (md_reports db)") (auto simp: insert_report_def split: if_splits)
qed simp

lemma run_report_rows:
  assumes "run_report env e s = (r, s')"
  shows "ms_db s' = ms_db s \<or>
    (\<exists>row. ms_db s' = (ms_db s)\<lparr>md_reports := md_reports (ms_db s) @ [row]\<rparr> \<and> mr_status row = ''open'' \<and> mr_resolved_by row = None \<and>
       mr_resolved_at row = None \<and> mr_action_id row = None)"
  using assms unfolding run_report_def
proof (cases rule: gate_pair)
  case (Passed parsed)
  from Passed(2) show ?thesis
  proof (cases rule: gate_pair)
    case (Passed target)
    obtain t ch where tc: "target = (t, ch)" by fastforce
    let ?w = "\<lambda>db. insert_report (me_new_id env) (me_now env) db (me_community env)
      \<lparr>nr_report_event_id = ev_id e, nr_reporter_pubkey = ev_pubkey e, nr_target = t, nr_channel_id = ch,
       nr_report_type = pr_report_type parsed, nr_note = report_note e\<rparr>"
    from Passed(2) tc have "\<exists>rw. mo_write env CallInsertReport ''database error inserting report: '' ?w s = (rw, s')"
      by (auto simp: mo_bind_pair mo_gate_pair)
    then have "ms_db s' = ms_db s \<or> (\<exists>i. ?w (ms_db s) = Inr (i, ms_db s'))" by (auto simp: mo_write_pair)
    then show ?thesis using insert_report_rows by blast
  qed (simp add: no_effect_def)
qed (simp add: no_effect_def)

lemma move_ok:
  assumes "mod_move w w'" and "world_ok w"
  shows "world_ok w' \<and> world_kept (fst w) (fst w')"
  using assms
proof (induction rule: mod_move.induct)
  case (Command env e s r s' ps)
  then have "bans_ok (ms_db s)" by (simp add: world_ok_def)
  from this Command(1) show ?case
  proof (cases rule: command_outcome)
    case Nothing
    with Command(2) show ?thesis by (simp add: no_effect_def)
  next
    case (Change ch)
    with carried_out_ok Command(2) show ?thesis by simp
  next
    case Resolve
    from resolve_outcome [OF Resolve(3)] show ?thesis
    proof (elim disjE exE conjE)
      assume "no_effect r (ms_db s) (ms_db s')"
      with Command(2) show ?thesis by (simp add: no_effect_def)
    next
      fix res db1
      assume b: "begun env (ev_pubkey e) (ms_db s) res db1" and last: "ms_db s' = db1"
      from begun_ok [OF Command(2) b] last show ?thesis by (simp add: world_ok_def)
    next
      fix res db1
      assume b: "begun env (ev_pubkey e) (ms_db s) res db1" and c: "closes (me_community env) (ev_pubkey e) res db1 (ms_db s')"
      from begun_ok [OF Command(2) b] have 1: "world_ok (db1, ps)" "world_kept (ms_db s) db1"
        and "\<exists>a \<in> set (md_actions db1). resolution_row (me_community env) (ev_pubkey e) res a"
        by (simp_all add: world_ok_def)
      with closes_ok [OF 1(1) c] show ?thesis by (auto intro: world_kept_trans)
    qed
  qed
next
  case (File_report env e s r s' ps)
  have "report_sound db' r'" if "mr_status r' = ''open''" "mr_resolved_by r' = None" "mr_resolved_at r' = None" "mr_action_id r' = None" for db' r'
    using that by (simp add: report_sound_def)
  then show ?case
    using run_report_rows [OF File_report(1)] File_report(2) report_sound_mono [of "ms_db s" _ "ms_db s'"]
    by (auto simp: world_ok_def world_kept_def bans_ok_def action_ids_ok_def)
next
  case (Begin env e s res s' ps)
  from resolve_begin_outcome [OF Begin(2)] have "begun env (ev_pubkey e) (ms_db s) res (ms_db s')" by (auto simp: no_effect_def)
  with begun_ok Begin(3) show ?case by simp
next
  case (Finish env m res ps s r s')
  then obtain a where a: "a \<in> set (md_actions (ms_db s))" "resolution_row (me_community env) m res a"
    by (fastforce simp: world_ok_def)
  have "world_ok (ms_db s', ps) \<and> world_kept (ms_db s) (ms_db s')"
    using resolve_finish_closes [OF Finish(2)] closes_ok [OF Finish(3) _ a] Finish(3) by auto
  moreover have "set (remove1 (me_community env, m, res) ps) \<subseteq> set ps" by (rule set_remove1_subset)
  ultimately show ?case by (auto simp: world_ok_def)
qed

lemma moves_ok: "rtranclp mod_move w w' \<Longrightarrow> world_ok w \<Longrightarrow> world_ok w' \<and> world_kept (fst w) (fst w')"
  by (induction rule: rtranclp_induct) (auto dest: move_ok intro: world_kept_trans)

text \<open>
  C40. However the commands of several moderators interleave, with a report closed by one between the check and the
  update of another, a report is open and unresolved, or it is closed as resolved or dismissed and points to the one
  audit row, of its community, of the moderator who closed it and of a dismissal exactly when it was
  dismissed. Nothing that happens later reopens or changes a closed report or removes an audit row.
\<close>

theorem audit_trail_kept:
  assumes "rtranclp mod_move (moderation_empty, []) (db, ps)"
  shows "(\<forall>r \<in> set (md_reports db). report_sound db r) \<and> action_ids_ok db \<and>
    (\<forall>db' ps'. rtranclp mod_move (db, ps) (db', ps') \<longrightarrow> world_kept db db')"
proof -
  have "world_ok (moderation_empty, [])"
    by (simp add: world_ok_def moderation_empty_def bans_ok_def action_ids_ok_def)
  from moves_ok [OF assms this] have ok: "world_ok (db, ps)" ..
  with moves_ok [of "(db, ps)"] show ?thesis by (fastforce simp: world_ok_def)
qed

section \<open>A report, dismissed\<close>

definition sample_report_event :: event where
  "sample_report_event =
     \<lparr>ev_id = sample_key, ev_pubkey = ''joiner'', ev_created_at = 1000, ev_kind = 1984, ev_tags = [[''p'', sample_key, ''spam'']], ev_content = []\<rparr>"

definition sample_dismissal :: event where
  "sample_dismissal =
     \<lparr>ev_id = ''e4'', ev_pubkey = ''owner-key'', ev_created_at = 1000, ev_kind = 9044,
      ev_tags = [[''report'', sample_key], [''status'', ''dismissed''], [''action'', ''dismiss'']], ev_content = []\<rparr>"

definition sample_reported :: mod_state where
  "sample_reported = snd (run_report sample_mod_env sample_report_event sample_mod_state)"

definition sample_dismissed :: mod_state where
  "sample_dismissed = snd (run_moderation_command sample_mod_env sample_dismissal sample_reported)"

lemma sample_dismissed_moves: "rtranclp mod_move (moderation_empty, []) (ms_db sample_dismissed, [])"
proof -
  have "mod_move (ms_db sample_mod_state, []) (ms_db sample_reported, [])"
    by (rule mod_move.File_report [where env = sample_mod_env and e = sample_report_event]) (simp add: sample_reported_def prod_eq_iff)
  moreover have "mod_move (ms_db sample_reported, []) (ms_db sample_dismissed, [])"
    by (rule mod_move.Command [where env = sample_mod_env and e = sample_dismissal]) (simp add: sample_dismissed_def prod_eq_iff)
  moreover have "ms_db sample_mod_state = moderation_empty" by (simp add: sample_mod_state_def moderation_empty_def)
  ultimately show ?thesis by (metis rtranclp.simps)
qed

lemma audit_trail_kept_witness:
  "map mr_status (md_reports (ms_db sample_dismissed)) = [''dismissed''] \<and>
   list_all (report_sound (ms_db sample_dismissed)) (md_reports (ms_db sample_dismissed))"
proof
  show "map mr_status (md_reports (ms_db sample_dismissed)) = [''dismissed'']" by code_simp
  show "list_all (report_sound (ms_db sample_dismissed)) (md_reports (ms_db sample_dismissed))"
    using audit_trail_kept [OF sample_dismissed_moves] unfolding list_all_iff by blast
qed

section \<open>The force of a ban\<close>

text \<open>
  When the write pipeline reads the restrictions from these tables, a request of a banned member changes no table
  and calls no handler, unless its kind is routed before the check or is an administration kind, whose handlers
  check the ban themselves.
\<close>

lemma banned_writes_nothing:
  assumes "\<And>c pk. moderation_restriction_state ienv c pk = Inr (db_restriction_state t db c pk)"
    and "re_banned (db_restriction_state t db (ie_community ienv) (auth_pubkey auth))"
    and "\<not> routed_early (event_kind_u32 e)" and "\<not> is_relay_admin_kind (event_kind_u32 e)"
    and "ingest_event ienv e auth s = (r, s')"
  shows "outside s' = outside s"
proof (rule ccontr)
  assume "outside s' \<noteq> outside s"
  then have "outside (snd (ingest_event_inner ienv e auth (s\<lparr>is_trace := []\<rparr>))) \<noteq> outside (s\<lparr>is_trace := []\<rparr>)"
    using ingest_event_outside [OF assms(5)] by (simp add: outside_def tables_def)
  then have "check_restriction ienv (event_kind_u32 e) auth = Inr ()"
    using outside_inner [of ienv e auth] assms(3) by (auto simp: guarded_def)
  then show False
    using assms(1-4) by (auto simp: check_restriction_def routed_early_def)
qed

lemma banned_commands_nothing:
  assumes "re_banned (db_restriction_state (me_now env) (ms_db s) (me_community env) (ev_pubkey e))"
    and "bans_ok (ms_db s)" and "run_moderation_command env e s = (r, s')"
  shows "ms_db s' = ms_db s"
  using assms(2,3) by (cases rule: command_outcome) (use assms(1) in \<open>auto simp: admitted_def no_effect_def\<close>)

lemma banned_administers_nothing:
  "re_banned st \<Longrightarrow> run_relay_admin env (Inr st) db e = Inl AdminBanned"
  by (simp add: run_relay_admin_def admits_relay_admin_command_def map_err_def and_then_def)

end
