(* ===== verification/Spec2Isabelle.thy ===== *)
theory Spec2Isabelle
  imports Git_Perms Auth_Scopes Read_Handlers Event_Queue Pairing_Flow Audit_Log Reliable_Tunnel Huddle_Mesh
    Sdk_Contract Thread_Counters Ingest_Authority Ingest_Effects Ingest_Tables Roster_Invites Moderation_History
begin

text \<open>
  A verification library for the Rust crates of pkzz: the Buzz relay (a multi-tenant Nostr
  relay with channels, search and hosted git) and the harness that runs agents against it.

  \<^bold>\<open>The program.\<close> A client opens a WebSocket to the relay (crates/buzz-relay), authenticates,
  and sends \<open>REQ\<close>, \<open>COUNT\<close> and \<open>EVENT\<close> commands. The read commands check the requester's
  channel access and the read gates of private kinds, register the filters in the
  subscription registry for live delivery, translate them to SQL (crates/buzz-db), and
  post-filter what the database or the search index (crates/buzz-search) returns. \<open>EVENT\<close> goes
  through the write pipeline: signature, time, scope, restriction, channel and membership checks, the
  validators of its kind, storage with its thread or reaction, side effects and dispatch. A new
  event is matched against the registry and fanned out to the subscribed connections. The
  membership of a community, its owner and its invites are rows that administration commands and the
  HTTP API change; moderators ban and time out members and resolve the reports of others. The
  shared rules (kinds, filter matching, roles, git protection rules) live in
  crates/buzz-core, the token scopes in crates/buzz-auth. An agent process
  (crates/buzz-acp) receives events from the relay and puts them into a queue per channel
  from which it prompts the agent. Two devices of a user exchange a secret key by the pairing
  protocol of buzz-core, and the relay records what it did in a hash-chained audit log
  (crates/buzz-audit). Several runtimes of the relay form a mesh: a session (a byte tunnel or a
  voice huddle) is owned by one of them at a time, by a lease in Redis with a generation that
  fences off earlier owners; the others forward their clients to the owner.

  \<^bold>\<open>The theories,\<close> in the order of their dependencies; paths are relative to src/crates.

  \<^item> \<open>Pkzz_Prelude\<close>: machine types, hash maps and their iteration orders, string helpers
    of the standard library, shared lemmas and the collections of simplification rules.
  \<^item> \<open>Rust_Std\<close>: the sum-typed error handling (\<open>?\<close>, early returns), bytes, number texts.
  \<^item> \<open>Nostr_Event\<close> (buzz-core/src/event.rs): events, tags, \<open>StoredEvent\<close>.
  \<^item> \<open>Event_Kinds\<close> (buzz-core/src/kind.rs): every kind constant, the lists of gated kinds
    and the classifying predicates.
  \<^item> \<open>Event_Filter\<close> (buzz-core/src/filter.rs): NIP-01 matching and the per-event read
    authorization.
  \<^item> \<open>Posting_Index\<close>: the interface between a table and an inverted index, as the locale
    \<open>posting_index\<close> with its laws and the lemma that a client which adds and deletes a
    record under all its keys stays in step.
  \<^item> \<open>Subscription_Registry\<close> (buzz-relay/src/subscription.rs): the table of subscriptions,
    its five indexes, registration, removal, fan-out. Interprets \<open>posting_index\<close> on the
    five indexes. A step relation gives the reachable registries.
  \<^item> \<open>Channel_Roles\<close> (buzz-core/src/channel.rs): visibility, channel types and member
    roles; roles are a linear order, and the locale \<open>ranked\<close> is what policy code needs of
    them. \<open>Git_Perms\<close> (buzz-core/src/git_perms.rs): ref patterns, protection tags and the
    decision on a push.
  \<^item> \<open>Auth_Scopes\<close> (buzz-auth/src/scope.rs): token scopes and their texts.
  \<^item> \<open>Event_Store\<close> (buzz-db/src/event.rs, \<open>insert_mentions\<close> of buzz-db/src/lib.rs): the
    tables \<open>events\<close> and \<open>event_mentions\<close> as lists of rows, and the SQL statements of
    insertion, soft deletion, query, count and lookup as operations on them.
  \<^item> \<open>Read_Gates\<close>, \<open>Query_Pushdown\<close> (buzz-relay/src/handlers/req.rs): the gates a request
    must pass, the visibility of one event, the translation of a filter to query
    parameters, and the channel a request is scoped to.
  \<^item> \<open>Read_Handlers\<close> (buzz-relay/src/handlers/req.rs and count.rs): the handlers of \<open>REQ\<close>,
    of its search branch, and of \<open>COUNT\<close>, over a record of the services they call. The
    locale \<open>tenant_source\<close> states what a handler needs of its event source, and is
    interpreted on the statements of \<open>Event_Store\<close>.
  \<^item> \<open>Utf8_Text\<close>: characters of UTF-8 texts, white space and trimming. \<open>Sdk_Builders\<close>,
    \<open>Sdk_Commands\<close> (buzz-sdk/src/builders.rs, lib.rs): every event builder of the SDK.
  \<^item> \<open>Ingest_Rules\<close>, \<open>Ingest_Envelopes\<close> (buzz-relay/src/handlers/ingest.rs): the authentication
    context of a submission, scope and channel rules, NIP-10 threads, and the validators of single kinds.
    \<open>Ingest_Laws\<close>: what the validators accept. \<open>Sdk_Contract\<close>: builders against validators.
  \<^item> \<open>Event_Replacement\<close> (buzz-db/src/lib.rs): replaceable and addressable events with the watermarks
    of read state. \<open>Thread_Store\<close> (buzz-db/src/thread.rs, reaction.rs, event.rs): thread rows and their
    counters, reactions, and the transactions around them. \<open>Thread_Counters\<close>: the counters are exact.
  \<^item> \<open>Conformance\<close> (buzz-conformance/src, buzz-relay/src/conformance/mod.rs): the trace schema, the
    replay checker, the emitters and the coverage guard.
  \<^item> \<open>Ingest_Pipeline\<close> (\<open>ingest_event\<close> and \<open>ingest_event_inner\<close> of buzz-relay/src/handlers/ingest.rs, the
    insertion entry points of buzz-db/src/lib.rs): the request as a step on the tables, the trace and the list of
    calls to other handlers. \<open>Ingest_Frame\<close>: the locales \<open>request_relation\<close> and \<open>request_storage\<close>, which
    carry a relation between states through a request, and the rules for guards and results. They are
    interpreted on the tables, on the rows of other communities, on the trace and on well-formedness.
    \<open>Ingest_Authority\<close>, \<open>Ingest_Effects\<close>, \<open>Ingest_Tables\<close> hold the properties, \<open>Ingest_Sample\<close> the request
    their witnesses run.
  \<^item> \<open>Relay_Roster\<close> (buzz-db/src/relay_members.rs, relay_invite.rs, the community rows of lib.rs, buzz-core/src/invite.rs,
    buzz-relay/src/handlers/relay_admin.rs): members, roles, ownership, invites and the administration commands.
    \<open>Roster_Laws\<close>: the effect of each operation on the roles. \<open>Roster_Owners\<close>: histories of the roster as an
    inductive relation, ownership and the rights of administrators. \<open>Roster_Invites\<close>: the uses of an invite.
  \<^item> \<open>Moderation\<close> (buzz-db/src/moderation.rs, buzz-relay/src/handlers/moderation_authz.rs, moderation_commands.rs,
    report.rs): reports, bans, time-outs, the audit trail, and the commands as sequences of writes that can fail one by one.
    \<open>Moderation_Laws\<close>: who may do what, and what a command does. \<open>Moderation_History\<close>: interleaved
    commands, with the resolution of a report in two steps, and what a banned key can no longer do.
  \<^item> \<open>Event_Queue\<close> (buzz-acp/src/queue.rs): every operation of \<open>EventQueue\<close>; a step
    relation gives the reachable queues.
  \<^item> \<open>Pairing_Codec\<close>, \<open>Pairing_Session\<close> (buzz-core/src/pairing): messages, key derivation and
    QR code; every method of the session, with runs of one session as an inductive relation.
    \<open>Pairing_Flow\<close> puts a source and a target together.
  \<^item> \<open>Audit_Log\<close> (buzz-audit): canonical JSON, entry hashes, append, verification, listing.
  \<^item> \<open>Hex_Text\<close>: hex and uuid texts, with the locale \<open>hex_codec\<close>. \<open>Redis_Store\<close>: a Redis
    database with expiry and the commands the directory's scripts use, and the ways a call can fail.
  \<^item> \<open>Mesh_Types\<close> (buzz-relay-mesh/src/wire.rs): headers, frames, datagrams, errors of the mesh.
  \<^item> \<open>Session_Directory\<close> (buzz-relay/src/tunnel/directory.rs): the Lua scripts and methods of the
    directory of session owners. \<open>Session_Fencing\<close>: the abstract cell they implement, histories of calls
    by many runtimes, and what the fence guarantees. \<open>Reliable_Tunnel\<close> (tunnel/reliable.rs): the byte
    tunnel between runtimes and the lease renewer.
  \<^item> \<open>Audio_Rooms\<close> (buzz-relay/src/audio/room.rs, wire.rs): admission, indices, fan-out and roster
    of a voice room; a step relation gives the reachable rooms. \<open>Huddle_Mesh\<close> (room.rs, mesh.rs,
    join.rs): the registry of rooms, the generation floor of media datagrams, and the mirror of the
    owner's roster on another runtime.

  \<^bold>\<open>What is shown.\<close>

  \<^item> Live delivery: in every reachable registry, fan-out through the indexes returns exactly
    the subscriptions a scan over the whole table would, each once; it never crosses a
    community or a channel; removal leaves no index entry behind.
  \<^item> Historical delivery: whatever the services answer, \<open>REQ\<close> delivers only events that
    match a filter, are visible to the requester and lie in a readable channel of the own
    community, each id once; it registers exactly what it was allowed to.
  \<^item> Writing: the tables change and other handlers are called only for an event that passed the checks of its
    path (commands, feedback, reports and moderation are routed before the restriction and channel
    checks, and their own writes are not in it), an accepted event has a live row
    and is dispatched, no row of another community changes, the tables stay well-formed, every request is
    traced and an error is traced as its class. The validators of kinds accept what the SDK builds.
    Replacement converges to the same live row in every order of arrival, accepted read state never comes
    back, and the counters of threads are exact for replies to stored parents and roots. The replay checker accepts exactly the traces that
    stay in their community.
  \<^item> Queries: a query returns exactly the selected rows in keyset order up to its limit;
    pages by cursor partition the result; no statement reads another community; a filter
    translated to SQL loses no event that it matches (for full ids, recorded mentions and one \<open>d\<close> tag), and the fast
    path of \<open>COUNT\<close> counts what is visible.
  \<^item> Git: which patterns and tags are accepted, what a pattern matches, when a push is
    allowed, and that a stronger role never loses a permission.
  \<^item> Agent queue: the caps and the agreement of its tables, the choice and the content of
    the next batch, that a flush loses no event while there is room, the bounds on retries.
  \<^item> Pairing: every session follows the documented state diagram and ends; no secret is sent
    or accepted before the user's approval of a session bound to the QR code; an undisturbed
    exchange completes; the QR code survives its encoding.
  \<^item> Roster: a community with an owner always has exactly one; who may change whose role; an invite admits no more
    members than its uses. Moderation: who may restrict whom, the effect of each command at every
    later time with its audit row, and that closed reports keep pointing to the audit row of their closing.
  \<^item> Audit: an append adds one row or nothing; a chain built by appends verifies when the details keep
    their text through \<open>JSONB\<close> (otherwise an append breaks its own verification); a change that still verifies
    under the same last hash hashes the same bytes, up to rows at the start of the range, or
    exhibits a collision of SHA-256.
  \<^item> Session ownership: over every history of calls, with requests and replies lost anywhere, the
    owners reported for a session form epochs with one owner each; a lease protects its owner until
    it expires, and an expired one can be taken. The tunnel carries bytes unchanged, and a stream
    of a superseded owner delivers nothing.
  \<^item> Huddles: distinct indices and the cap of a room, no admission after the end, the published
    changes add up to the roster, and a client elsewhere only sees rosters the owner had.

  \<^bold>\<open>Modelling choices.\<close> A struct is a record, an enumeration a datatype, a fallible function
  returns a sum or an option, an asynchronous function a function of the services it awaits.
  A function that iterates over a hash map takes the order of the keys as an argument, and
  the theorems hold for every order. The clock is an argument (nanoseconds). The kinds of
  events are words of 16 and 32 bits; limits that the code computes in \<open>i64\<close> are integers
  with the conversion written out. All loops of the modelled code end: they are structural
  recursions, and the only bounded one, the pages of a search, carries the bound of the code
  (\<open>MAX_SEARCH_PAGES\<close>), so no fuel is needed anywhere. A loop that reads from a stream runs over the
  list of what it reads. The theorems on the directory ask for fewer than ten to the power of 14
  calls, since Lua prints a larger generation in exponent notation.

  \<^bold>\<open>Code outside the repository\<close> is a parameter: the uuid parser (\<open>parse_uuid\<close>), the range
  check of chrono (\<open>from_timestamp\<close>), the deserializer of the nostr crate
  (\<open>event_from_json\<close>), the search index, the caches, and the send buffer of a connection
  (\<open>accepts\<close>); for builders the tag parser of the nostr crate; for the write pipeline the signature check, the clocks and
  the JSON parser (\<open>ingest_env\<close>); for pairing the cryptography, hex, percent-encoding, URL and JSON libraries
  (\<open>pairing_env\<close>, with the laws \<open>hex_laws\<close>, \<open>percent_law\<close>, \<open>exchange_laws\<close>); for the audit
  log SHA-256, chrono and what PostgreSQL returns for stored values (\<open>audit_env\<close>, with
  \<open>time_law\<close> and \<open>detail_law\<close>); for sessions the hex crate and Lua's printing of large numbers
  (\<open>directory_env\<close>, with \<open>directory_laws\<close>), for invites base64 and SHA-256 (\<open>invite_crypto\<close>), for moderation the
  range of chrono and the event and media lookups (\<open>mod_env\<close>), the bytes of a uuid (\<open>uuid_codec\<close>, with \<open>uuid_law\<close>), the
  transport (\<open>mesh_io\<close>) and postcard. What a theorem needs of one is a hypothesis of it, and its witness shows an
  instance. SQL statements are read as operations on tables, following PostgreSQL's
  documentation of the operators they use. The jitter of the backoff, a 64-bit float in the
  code, is computed exactly.

  \<^bold>\<open>Not modelled.\<close> Signature verification and encryption, the network and the executor,
  metrics and logs, the overlap of the database reads of one request (the code consumes them in order), SQL
  planning, and the user interfaces (desktop, mobile, web). The write pipeline takes the answers of the
  handlers in other modules (commands, moderation, relay administration, reports, identity archives, push
  leases, channel creation, media checks, side effects, dispatch) from its environment and lists its calls
  to them; moderation, administration and reports are modelled as handlers of their own, on their own tables,
  and the writes of the others are not modelled. A database transaction is one step: what PostgreSQL's
  isolation admits between overlapping transactions is outside, but for the two halves of a resolution; an
  administration or moderation command reads the roster as it is at its step. Parts that an extension can add in this style: those handlers,
  workflows, rate limits, the acceptor of huddle streams, membership and gossip of the mesh;
  of the harness: participation, permissions and the pool of agents.
\<close>

end
